(* ===== verification/Py_Prelude.thy ===== *)
theory Py_Prelude
  imports Complex_Main "HOL-Library.AList" "HOL-Library.Sublist" "HOL-Library.List_Lexorder" "HOL-Library.Char_ord"
begin

text \<open>
  What every component of the development shares: the Python strings, dictionaries, JSON
  values and exceptions the backend uses, the stable sort of \<^verbatim>\<open>list.sort\<close>, the
  rounding of \<^verbatim>\<open>round(x, 6)\<close>, and two interfaces (\<open>guarded_machine\<close>, a state machine
  with an invariant; \<open>ttl_cache\<close>, a cache whose entries expire) that the components
  interpret on their own definitions.

  Texts. A Python string is modelled as a \<^typ>\<open>string\<close> whose characters are the code points
  below 256; on them \<open>lower_char\<close>, \<open>py_isspace\<close> and \<open>py_isdigit\<close> agree with
  \<^verbatim>\<open>str.lower\<close>, \<^verbatim>\<open>str.isspace\<close> and \<^verbatim>\<open>str.isdigit\<close>, and \<^const>\<open>length\<close> is
  \<^verbatim>\<open>len\<close>. Numbers. Python integers are \<^typ>\<open>int\<close>; Python floats (scores, prices, clocks)
  are \<^typ>\<open>real\<close>, so floating-point rounding is not modelled.
\<close>

named_theorems py_simps \<open>evaluation rules of the Python string and dictionary operations\<close>

section \<open>Exceptions and results\<close>

datatype pyexc =
    RuntimeError string
  | ValueError string
  | KeyError string
  | TypeError string
  | AttributeError string
  | IndexError
  | TimeoutError string
  | RedisError
  | RequestError
  | OtherError
  | HTTPException int string

type_synonym 'a result = "pyexc + 'a"

section \<open>Characters and strings\<close>

definition code :: "char \<Rightarrow> nat" where
  "code c = of_char c"

definition py_isspace :: "char \<Rightarrow> bool" where
  "py_isspace c = (let n = code c in
     (9 \<le> n \<and> n \<le> 13) \<or> (28 \<le> n \<and> n \<le> 32) \<or> n = 133 \<or> n = 160)"

definition py_isdigit :: "char \<Rightarrow> bool" where
  "py_isdigit c = (let n = code c in (48 \<le> n \<and> n \<le> 57) \<or> n = 178 \<or> n = 179 \<or> n = 185)"

definition lower_char :: "char \<Rightarrow> char" where
  "lower_char c = (let n = code c in
     if (65 \<le> n \<and> n \<le> 90) \<or> (192 \<le> n \<and> n \<le> 222 \<and> n \<noteq> 215) then char_of (n + 32) else c)"

definition lower :: "string \<Rightarrow> string" where
  "lower s = map lower_char s"

definition lstrip :: "string \<Rightarrow> string" where
  "lstrip s = dropWhile py_isspace s"

definition rstrip :: "string \<Rightarrow> string" where
  "rstrip s = rev (dropWhile py_isspace (rev s))"

definition strip :: "string \<Rightarrow> string" where
  "strip s = rstrip (lstrip s)"

definition strip_chars :: "string \<Rightarrow> string \<Rightarrow> string" where
  "strip_chars cs s =
     rev (dropWhile (\<lambda>c. c \<in> set cs) (rev (dropWhile (\<lambda>c. c \<in> set cs) s)))"

text \<open>\<^verbatim>\<open>s.startswith(p)\<close> and \<^verbatim>\<open>p in s\<close>.\<close>

definition startswith :: "string \<Rightarrow> string \<Rightarrow> bool" where
  "startswith s p = (take (length p) s = p)"

fun contains :: "string \<Rightarrow> string \<Rightarrow> bool" where
  "contains p [] = (p = [])"
| "contains p (c # s) = (startswith (c # s) p \<or> contains p s)"

definition endswith :: "string \<Rightarrow> string \<Rightarrow> bool" where
  "endswith s p = startswith (rev s) (rev p)"

text \<open>\<^verbatim>\<open>s.split()\<close>: the maximal runs of non-space characters.\<close>

fun split_acc :: "string \<Rightarrow> string \<Rightarrow> string list" where
  "split_acc w [] = (if w = [] then [] else [rev w])"
| "split_acc w (c # s) =
     (if py_isspace c then (if w = [] then split_acc [] s else rev w # split_acc [] s)
      else split_acc (c # w) s)"

definition split_ws :: "string \<Rightarrow> string list" where
  "split_ws s = split_acc [] s"

text \<open>\<^verbatim>\<open>s.split(sep)\<close> for a one-character separator, and \<^verbatim>\<open>sep.join(xs)\<close>.\<close>

fun split_on :: "char \<Rightarrow> string \<Rightarrow> string list" where
  "split_on d [] = [[]]"
| "split_on d (c # s) =
     (if c = d then [] # split_on d s
      else case split_on d s of [] \<Rightarrow> [[c]] | w # ws \<Rightarrow> (c # w) # ws)"

fun join :: "string \<Rightarrow> string list \<Rightarrow> string" where
  "join sep [] = []"
| "join sep [x] = x"
| "join sep (x # y # xs) = x @ sep @ join sep (y # xs)"

abbreviation newline :: string where
  "newline \<equiv> [CHR 0x0A]"

text \<open>The dash of the fixed texts is outside the alphabet; one character of it stands in.\<close>

abbreviation em_dash :: string where
  "em_dash \<equiv> [CHR 0x97]"

definition split_lines :: "string \<Rightarrow> string list" where
  "split_lines s = split_on (CHR 0x0A) s"

definition join_lines :: "string list \<Rightarrow> string" where
  "join_lines ls = join newline ls"

text \<open>\<^verbatim>\<open>str(n)\<close> of a natural number.\<close>

fun nat_str :: "nat \<Rightarrow> string" where
  "nat_str n = (if n < 10 then [char_of (48 + n)] else nat_str (n div 10) @ [char_of (48 + n mod 10)])"

declare nat_str.simps [simp del]

definition int_str :: "int \<Rightarrow> string" where
  "int_str i = (if i < 0 then ''-'' @ nat_str (nat (- i)) else nat_str (nat i))"

section \<open>JSON values and dictionaries\<close>

datatype pyval =
    PNone
  | PBool bool
  | PInt int
  | PFloat real
  | PStr string
  | PList "pyval list"
  | PDict "(string \<times> pyval) list"

text \<open>
  A dictionary is an association list in insertion order. \<^const>\<open>AList.update\<close> is the
  item assignment: it replaces in place, or appends a new key at the end.
\<close>

type_synonym pydict = "(string \<times> pyval) list"

definition dget :: "('k \<times> 'v) list \<Rightarrow> 'k \<Rightarrow> 'v option" where
  "dget d k = map_of d k"

definition dset :: "('k \<times> 'v) list \<Rightarrow> 'k \<Rightarrow> 'v \<Rightarrow> ('k \<times> 'v) list" where
  "dset d k v = AList.update k v d"

definition dupdate :: "('k \<times> 'v) list \<Rightarrow> ('k \<times> 'v) list \<Rightarrow> ('k \<times> 'v) list" where
  "dupdate d e = fold (\<lambda>(k, v) acc. dset acc k v) e d"

definition ddel :: "('k \<times> 'v) list \<Rightarrow> 'k \<Rightarrow> ('k \<times> 'v) list" where
  "ddel d k = filter (\<lambda>p. fst p \<noteq> k) d"

text \<open>Python's truth value of a JSON value.\<close>

fun truthy :: "pyval \<Rightarrow> bool" where
  "truthy PNone = False"
| "truthy (PBool b) = b"
| "truthy (PInt i) = (i \<noteq> 0)"
| "truthy (PFloat x) = (x \<noteq> 0)"
| "truthy (PStr s) = (s \<noteq> [])"
| "truthy (PList xs) = (xs \<noteq> [])"
| "truthy (PDict d) = (d \<noteq> [])"

definition truthy_opt :: "pyval option \<Rightarrow> bool" where
  "truthy_opt v = (case v of None \<Rightarrow> False | Some x \<Rightarrow> truthy x)"

section \<open>Sorting and rounding\<close>

text \<open>
  \<^verbatim>\<open>xs.sort(key=f)\<close> is a stable ascending sort; descending sorts of the source negate the
  key, which keeps the stability.
\<close>

definition py_sort_key :: "('a \<Rightarrow> 'k::linorder) \<Rightarrow> 'a list \<Rightarrow> 'a list" where
  "py_sort_key f xs = sort_key f xs"

text \<open>\<^verbatim>\<open>round(x, 6)\<close>: the nearest multiple of \<open>10\<^sup>-\<^sup>6\<close>, ties to the even multiple.\<close>

definition round_half_even :: "real \<Rightarrow> int" where
  "round_half_even x = (let f = \<lfloor>x\<rfloor>; d = x - of_int f in
     if d < 1 / 2 then f else if d > 1 / 2 then f + 1 else if even f then f else f + 1)"

definition round6 :: "real \<Rightarrow> real" where
  "round6 x = of_int (round_half_even (x * 1000000)) / 1000000"

section \<open>Lemmas on strings\<close>

lemma lower_Nil [simp]: "lower [] = []"
  and lower_Cons [simp]: "lower (c # s) = lower_char c # lower s"
  and lower_append [simp]: "lower (s @ t) = lower s @ lower t"
  and length_lower [simp]: "length (lower s) = length s"
  by (simp_all add: lower_def)

lemma startswith_prefix: "startswith s p \<longleftrightarrow> prefix p s"
  by (auto simp: startswith_def prefix_def) (metis append_take_drop_id)

lemma startswith_self_append [simp]: "startswith (p @ s) p"
  by (simp add: startswith_def)

lemma startswith_Nil [simp]: "startswith s []"
  by (simp add: startswith_def)

lemma contains_iff_sublist: "contains p s \<longleftrightarrow> sublist p s"
proof (induction p s rule: contains.induct)
  case (1 p)
  then show ?case by simp
next
  case (2 p c s)
  then show ?case
    by (auto simp: startswith_prefix sublist_Cons_right)
qed

lemma contains_append_mono:
  assumes "contains p s"
  shows "contains p (a @ s @ b)"
  using assms unfolding contains_iff_sublist
  by (meson sublist_appendI sublist_order.order_trans)

lemma contains_self [simp]: "contains p p"
  by (simp add: contains_iff_sublist)

lemma split_on_nonempty [simp]: "split_on d s \<noteq> []"
  by (induction s) (auto split: list.splits)

lemma join_Cons: "join sep (x # xs) = (if xs = [] then x else x @ sep @ join sep xs)"
  by (cases xs) auto

lemma join_split_on: "join [d] (split_on d s) = s"
proof (induction s)
  case Nil
  then show ?case by simp
next
  case (Cons c s)
  then show ?case
    by (cases "split_on d s") (auto simp: join_Cons)
qed

lemma join_split_lines [simp]: "join_lines (split_lines s) = s"
  by (simp add: join_lines_def split_lines_def join_split_on)

lemma split_on_no_sep: "w \<in> set (split_on d s) \<Longrightarrow> d \<notin> set w"
proof (induction s arbitrary: w)
  case Nil
  then show ?case by simp
next
  case (Cons c s)
  then show ?case
    by (cases "split_on d s") (auto split: if_splits)
qed

lemma split_on_single: "d \<notin> set w \<Longrightarrow> split_on d w = [w]"
  by (induction w) auto

lemma split_on_append: "d \<notin> set w \<Longrightarrow> split_on d (w @ d # s) = w # split_on d s"
  by (induction w) auto

lemma split_on_join:
  assumes "xs \<noteq> []" and "\<forall>w \<in> set xs. d \<notin> set w"
  shows "split_on d (join [d] xs) = xs"
  using assms
proof (induction xs rule: list_nonempty_induct)
  case (single x)
  then show ?case by (simp add: split_on_single)
next
  case (cons x xs)
  then show ?case by (cases xs) (auto simp: split_on_append)
qed

lemma strip_Nil [simp]: "strip [] = []"
  by (simp add: strip_def lstrip_def rstrip_def)

lemma length_strip_le: "length (strip s) \<le> length s"
proof -
  have "length (rstrip (lstrip s)) \<le> length (lstrip s)"
    unfolding rstrip_def by (metis length_dropWhile_le length_rev)
  also have "\<dots> \<le> length s"
    unfolding lstrip_def by (rule length_dropWhile_le)
  finally show ?thesis by (simp add: strip_def)
qed

lemma strip_idem: "strip (strip s) = strip s"
proof (cases "strip s = []")
  case True
  then show ?thesis by simp
next
  case False
  define t where "t = lstrip s"
  define u where "u = rstrip t"
  define v where "v = rev (takeWhile py_isspace (rev t))"
  have st: "strip s = u" by (simp add: strip_def t_def u_def)
  have "rev t = takeWhile py_isspace (rev t) @ dropWhile py_isspace (rev t)" by simp
  then have tuv: "t = u @ v" unfolding u_def v_def rstrip_def by (metis rev_append rev_rev_ident)
  have "u \<noteq> []" using False st by simp
  then have "t \<noteq> []" using tuv by simp
  then have "\<not> py_isspace (hd t)" unfolding t_def lstrip_def by (rule hd_dropWhile)
  then have "\<not> py_isspace (hd u)" using tuv \<open>u \<noteq> []\<close> by simp
  with \<open>u \<noteq> []\<close> have "lstrip u = u" unfolding lstrip_def by (cases u) auto
  moreover have "rstrip u = u" by (simp add: u_def rstrip_def dropWhile_idem)
  ultimately show ?thesis unfolding st by (simp add: strip_def)
qed

lemma find_in_set: "List.find P xs = Some x \<Longrightarrow> x \<in> set xs"
  by (auto simp: find_Some_iff)

section \<open>Lemmas on dictionaries\<close>

lemma dget_dset: "dget (dset d k v) k' = (if k' = k then Some v else dget d k')"
  by (simp add: dget_def dset_def update_conv')

lemma dget_dset_same [simp]: "dget (dset d k v) k = Some v"
  by (simp add: dget_dset)

lemma dget_ddel: "dget (ddel d k) k' = (if k' = k then None else dget d k')"
  by (induction d) (auto simp: ddel_def dget_def)

lemma dget_Nil [simp]: "dget [] k = None"
  by (simp add: dget_def)

lemma dget_Cons: "dget ((k, v) # d) k' = (if k' = k then Some v else dget d k')"
  by (auto simp: dget_def)

lemma dget_dupdate: "dget (dupdate d e) k = (case map_of (rev e) k of None \<Rightarrow> dget d k | Some v \<Rightarrow> Some v)"
proof (induction e arbitrary: d)
  case Nil
  then show ?case by (simp add: dupdate_def)
next
  case (Cons p e)
  obtain k' v where p: "p = (k', v)" by (cases p)
  have "dupdate d (p # e) = dupdate (dset d k' v) e"
    by (simp add: dupdate_def p)
  with Cons show ?case
    by (auto simp: p dget_dset map_add_def split: option.splits)
qed

lemma dget_dupdate_absent:
  "k \<notin> fst ` set e \<Longrightarrow> dget (dupdate d e) k = dget d k"
proof -
  assume "k \<notin> fst ` set e"
  then have "map_of (rev e) k = None" by (simp add: map_of_eq_None_iff)
  then show ?thesis by (simp add: dget_dupdate)
qed

lemma dget_dupdate_present:
  "distinct (map fst e) \<Longrightarrow> dget e k = Some v \<Longrightarrow> dget (dupdate d e) k = Some v"
proof -
  assume d: "distinct (map fst e)" and e: "dget e k = Some v"
  from e have "(k, v) \<in> set (rev e)" by (simp add: dget_def map_of_SomeD)
  with d have "map_of (rev e) k = Some v"
    by (intro map_of_is_SomeI) (simp_all add: rev_map [symmetric])
  then show ?thesis by (simp add: dget_dupdate)
qed

lemma distinct_keys_dset: "distinct (map fst d) \<Longrightarrow> distinct (map fst (dset d k v))"
  by (simp add: dset_def distinct_update)

lemma set_py_sort_key [simp]: "set (py_sort_key f xs) = set xs"
  by (simp add: py_sort_key_def)

lemma length_py_sort_key [simp]: "length (py_sort_key f xs) = length xs"
  by (simp add: py_sort_key_def)

lemma sorted_py_sort_key [simp]: "sorted (map f (py_sort_key f xs))"
  by (simp add: py_sort_key_def)

lemma distinct_py_sort_key [simp]: "distinct (py_sort_key f xs) = distinct xs"
  by (simp add: py_sort_key_def)

lemma distinct_map_py_sort_key [simp]: "distinct (map g (py_sort_key f xs)) = distinct (map g xs)"
  by (metis distinct_map distinct_sort py_sort_key_def set_sort)


section \<open>Interfaces\<close>

text \<open>
  A component with state: a step function over its events and the invariant each step keeps.
  A run is \<^const>\<open>fold\<close> of the step over the events in order.
\<close>

locale guarded_machine =
  fixes step :: "'e \<Rightarrow> 's \<Rightarrow> 's"
    and inv :: "'s \<Rightarrow> bool"
    and init :: "'s"
  assumes inv_init: "inv init"
    and inv_step: "inv s \<Longrightarrow> inv (step e s)"
begin

lemma inv_run: "inv s \<Longrightarrow> inv (fold step es s)"
  by (induction es arbitrary: s) (auto simp: inv_step)

lemma inv_reach: "inv (fold step es init)"
  by (rule inv_run [OF inv_init])

end

text \<open>
  A machine whose state is split by key (a model, a user, a bucket): an event of one key
  neither reads nor writes what belongs to another. Then the part of a key after a run is
  determined by the events of that key alone.
\<close>

locale keyed_machine = guarded_machine step inv init
  for step :: "'e \<Rightarrow> 's \<Rightarrow> 's" and inv :: "'s \<Rightarrow> bool" and init :: "'s" +
  fixes key :: "'e \<Rightarrow> 'k"
    and view :: "'k \<Rightarrow> 's \<Rightarrow> 'v"
  assumes view_other: "key e \<noteq> k \<Longrightarrow> view k (step e s) = view k s"
    and view_local: "key e = k \<Longrightarrow> view k s = view k t \<Longrightarrow> view k (step e s) = view k (step e t)"
begin

lemma view_run_cong:
  "view k s = view k t \<Longrightarrow> view k (fold step es s) = view k (fold step (filter (\<lambda>e. key e = k) es) t)"
proof (induction es arbitrary: s t)
  case Nil
  then show ?case by simp
next
  case (Cons e es)
  show ?case
  proof (cases "key e = k")
    case True
    from this Cons.prems have "view k (step e s) = view k (step e t)" by (rule view_local)
    with True show ?thesis by (simp add: Cons.IH)
  next
    case False
    with Cons.prems have "view k (step e s) = view k t" by (simp add: view_other)
    with False show ?thesis by (simp add: Cons.IH)
  qed
qed

lemma view_run: "view k (fold step es s) = view k (fold step (filter (\<lambda>e. key e = k) es) s)"
  by (rule view_run_cong) simp

end

text \<open>
  A cache whose entries live for a time: what was stored is read back until the time has
  passed, and not after it. At the very instant of the deadline the two caches of the program
  differ, so the interface does not say.
\<close>

locale ttl_cache =
  fixes put :: "'s \<Rightarrow> real \<Rightarrow> 'k \<Rightarrow> 'v \<Rightarrow> int \<Rightarrow> 's"
    and look :: "'s \<Rightarrow> real \<Rightarrow> 'k \<Rightarrow> 'v option"
    and valid :: "'s \<Rightarrow> bool"
  assumes valid_put: "valid s \<Longrightarrow> 0 < t \<Longrightarrow> 0 < ttl \<Longrightarrow> valid (put s t k v ttl)"
    and look_fresh: "valid s \<Longrightarrow> 0 < t \<Longrightarrow> 0 < ttl \<Longrightarrow> t' < t + of_int ttl \<Longrightarrow>
          look (put s t k v ttl) t' k = Some v"
    and look_stale: "valid s \<Longrightarrow> 0 < t \<Longrightarrow> 0 < ttl \<Longrightarrow> t + of_int ttl < t' \<Longrightarrow>
          look (put s t k v ttl) t' k = None"
begin

lemma look_overwrite:
  assumes "valid s" and "0 < t1" and "0 < ttl1" and "0 < t2" and "0 < ttl2"
    and "t' < t2 + of_int ttl2"
  shows "look (put (put s t1 k v1 ttl1) t2 k v2 ttl2) t' k = Some v2"
  using assms by (intro look_fresh valid_put)

end

end
