(* ===== verification/Settings.thy ===== *)
theory Settings
  imports Py_Prelude
begin

text \<open>
  \<^verbatim>\<open>backend/config.py\<close>: the settings the modelled components read, how they are read from the
  environment, and the home-server override with the startup guards. The environment is a map
  from variable names to texts; a missing required variable or a malformed integer is the
  \<^const>\<open>RuntimeError\<close> or \<^const>\<open>ValueError\<close> the module raises at import. Settings no modelled
  component reads (mail, push, metrics, OAuth, timeouts of the HTTP client) are left out.
\<close>

section \<open>Reading integers\<close>

text \<open>
  \<^verbatim>\<open>int(text)\<close>: surrounding white space, an optional sign, decimal digits with single
  underscores between them; anything else is a \<^verbatim>\<open>ValueError\<close>.
\<close>

fun int_digits :: "int \<Rightarrow> bool \<Rightarrow> string \<Rightarrow> int option" where
  "int_digits acc ok [] = (if ok then Some acc else None)"
| "int_digits acc ok (c # s) =
     (if 48 \<le> code c \<and> code c \<le> 57 then int_digits (acc * 10 + (int (code c) - 48)) True s
      else if c = CHR ''_'' \<and> ok then int_digits acc False s
      else None)"

definition py_int :: "string \<Rightarrow> int option" where
  "py_int s =
     (case strip s of
        [] \<Rightarrow> None
      | c # r \<Rightarrow>
          if c = CHR ''-'' then map_option uminus (int_digits 0 False r)
          else if c = CHR ''+'' then int_digits 0 False r
          else int_digits 0 False (c # r))"

type_synonym environ = "string \<Rightarrow> string option"

definition getenv :: "environ \<Rightarrow> string \<Rightarrow> string \<Rightarrow> string" where
  "getenv env key dflt = (case env key of Some v \<Rightarrow> v | None \<Rightarrow> dflt)"

fun int_product :: "int \<Rightarrow> string list \<Rightarrow> int result" where
  "int_product acc [] = Inr acc"
| "int_product acc (p # ps) =
     (case py_int (strip p) of
        None \<Rightarrow> Inl (ValueError p)
      | Some n \<Rightarrow> int_product (acc * n) ps)"

definition int_env :: "environ \<Rightarrow> string \<Rightarrow> int \<Rightarrow> int result" where
  "int_env env key dflt =
     (let val = strip (getenv env key (int_str dflt)) in
      case py_int val of
        Some n \<Rightarrow> Inr n
      | None \<Rightarrow> int_product 1 (split_on (CHR ''*'') val))"

text \<open>\<^verbatim>\<open>int(os.getenv(key, default))\<close>, without the product form.\<close>

definition plain_int_env :: "environ \<Rightarrow> string \<Rightarrow> int \<Rightarrow> int result" where
  "plain_int_env env key dflt =
     (case env key of
        None \<Rightarrow> Inr dflt
      | Some v \<Rightarrow> (case py_int v of Some n \<Rightarrow> Inr n | None \<Rightarrow> Inl (ValueError v)))"

text \<open>
  \<^verbatim>\<open>float(text)\<close> of a decimal literal: a sign, digits with an optional point, and an optional
  exponent. The texts for the infinities and for not-a-number, which are no numbers here, are
  rejected like malformed ones.
\<close>

definition digits_value :: "string \<Rightarrow> int option" where
  "digits_value s = (if s = [] then Some 0 else int_digits 0 False s)"

definition digit_count :: "string \<Rightarrow> nat" where
  "digit_count s = length (filter (\<lambda>c. c \<noteq> CHR ''_'') s)"

definition mantissa :: "string \<Rightarrow> real option" where
  "mantissa s =
     (case split_on (CHR ''.'') s of
        [a] \<Rightarrow> map_option of_int (int_digits 0 False a)
      | [a, b] \<Rightarrow>
          (if a = [] \<and> b = [] then None
           else case (digits_value a, digits_value b) of
                  (Some x, Some y) \<Rightarrow> Some (of_int x + of_int y / 10 ^ digit_count b)
                | _ \<Rightarrow> None)
      | _ \<Rightarrow> None)"

definition scientific :: "string \<Rightarrow> real option" where
  "scientific s =
     (case split_on (CHR ''e'') (lower s) of
        [m] \<Rightarrow> mantissa m
      | [m, x] \<Rightarrow>
          (case (mantissa m, if x \<noteq> [] \<and> strip x = x then py_int x else None) of
             (Some v, Some k) \<Rightarrow> Some (if k < 0 then v / 10 ^ nat (- k) else v * 10 ^ nat k)
           | _ \<Rightarrow> None)
      | _ \<Rightarrow> None)"

definition py_float :: "string \<Rightarrow> real option" where
  "py_float s =
     (case strip s of
        [] \<Rightarrow> None
      | c # r \<Rightarrow>
          if c = CHR ''-'' then map_option uminus (scientific r)
          else if c = CHR ''+'' then scientific r
          else scientific (c # r))"

definition float_env :: "environ \<Rightarrow> string \<Rightarrow> string \<Rightarrow> real result" where
  "float_env env key dflt =
     (case py_float (getenv env key dflt) of Some x \<Rightarrow> Inr x | None \<Rightarrow> Inl (ValueError (getenv env key dflt)))"

definition flag_env :: "environ \<Rightarrow> string \<Rightarrow> bool" where
  "flag_env env key = (lower (getenv env key ''false'') = ''true'')"

section \<open>The settings\<close>

record config =
  MODELS :: "(string \<times> string) list"
  FALLBACK_ORDER :: "string list"
  MODEL_REQUEST_EXTRAS :: "(string \<times> pydict) list"
  MODEL_MIN_MAX_TOKENS :: "(string \<times> int) list"
  MODEL_RATE_LIMITS :: "(string \<times> (int \<times> int)) list"
  CONTEXT_WINDOWS :: "(string \<times> int) list"
  DEFAULT_CONTEXT_WINDOW :: int
  MODEL_PRICING :: "(string \<times> (real \<times> real)) list"
  DEFAULT_MODEL_PRICE_IN :: real
  DEFAULT_MODEL_PRICE_OUT :: real
  MODEL_VISION :: string
  MODEL_EMBEDDING :: string
  EMBEDDING_DIM :: int
  NVIDIA_API_KEY :: "string option"
  NIM_URL :: string
  NIM_EMBEDDING_URL :: string
  LLM_BACKEND :: string
  LLM_FAILOVER_ENABLED :: bool
  LLM_PRIMARY_URL :: string
  LLM_PRIMARY_API_KEY :: string
  LLM_HEALTH_TTL :: int
  MAX_RETRIES :: int
  STREAM_TOTAL_TIMEOUT :: int
  STREAM_TURN_BUDGET :: int
  STREAM_MAX_TURN_TOKENS :: int
  USE_REDIS :: bool
  WEB_SEARCH_ENABLED :: bool
  IMAGE_OCR_ENABLED :: bool
  DEMO_EPHEMERAL_ENABLED :: bool
  DEMO_SEED_USERNAME :: string
  DEMO_PER_ACCOUNT_CAP_USD :: real
  DEMO_PER_ACCOUNT_WINDOW_DAYS :: int
  DEMO_GLOBAL_CAP_USD :: real
  DEMO_GLOBAL_WINDOW_HOURS :: int
  DEMO_IDLE_TTL_HOURS :: int
  DEMO_MAX_LIVE_ACCOUNTS :: int

definition static_context_windows :: "(string \<times> int) list" where
  "static_context_windows =
     [(''meta/llama-3.3-70b-instruct'', 131072),
      (''meta/llama-3.2-90b-vision-instruct'', 131072),
      (''openai/gpt-oss-20b'', 131072),
      (''deepseek-ai/deepseek-v4-flash-0731'', 32768),
      (''nvidia/nemotron-3-super-120b-a12b'', 131072),
      (''mistralai/mistral-nemotron'', 32768)]"

definition static_model_pricing :: "(string \<times> (real \<times> real)) list" where
  "static_model_pricing =
     [(''meta/llama-3.3-70b-instruct'', (77/100, 77/100)),
      (''meta/llama-3.2-90b-vision-instruct'', (16/100, 16/100)),
      (''openai/gpt-oss-20b'', (5/100, 15/100)),
      (''deepseek-ai/deepseek-v4-flash-0731'', (20/100, 60/100)),
      (''nvidia/nemotron-3-super-120b-a12b'', (10/100, 40/100)),
      (''mistralai/mistral-nemotron'', (20/100, 60/100))]"

definition static_request_extras :: "(string \<times> pydict) list" where
  "static_request_extras =
     [(''openai/gpt-oss-20b'', [(''reasoning_effort'', PStr ''low'')]),
      (''nvidia/nemotron-3-super-120b-a12b'',
         [(''chat_template_kwargs'', PDict [(''enable_thinking'', PBool False)])]),
      (''deepseek-ai/deepseek-v4-flash-0731'',
         [(''chat_template_kwargs'', PDict [(''thinking'', PBool False)])])]"

definition env_models :: "environ \<Rightarrow> (string \<times> string) list" where
  "env_models env =
     [(''llama'', getenv env ''MODEL_LLAMA'' ''openai/gpt-oss-20b''),
      (''coder'', getenv env ''MODEL_CODER'' ''deepseek-ai/deepseek-v4-flash-0731''),
      (''reasoning'', getenv env ''MODEL_REASONING'' ''nvidia/nemotron-3-super-120b-a12b'')]"

text \<open>Sequencing of fallible reads, in the order of the module.\<close>

definition bindR :: "'a result \<Rightarrow> ('a \<Rightarrow> 'b result) \<Rightarrow> 'b result" where
  "bindR r f = (case r of Inl e \<Rightarrow> Inl e | Inr x \<Rightarrow> f x)"

definition base_config :: "environ \<Rightarrow> config result" where
  "base_config env =
     bindR (plain_int_env env ''EMBEDDING_DIM'' 2048) (\<lambda>dim.
     bindR (int_env env ''GPT_OSS_20B_MIN_MAX_TOKENS'' 512) (\<lambda>floor20.
     bindR (plain_int_env env ''STREAM_TOTAL_TIMEOUT'' 120) (\<lambda>total.
     bindR (plain_int_env env ''STREAM_TURN_BUDGET'' 300) (\<lambda>turn.
     bindR (plain_int_env env ''STREAM_MAX_TURN_TOKENS'' 16000) (\<lambda>toks.
     bindR (plain_int_env env ''MAX_RETRIES'' 3) (\<lambda>retries.
     bindR (plain_int_env env ''LLM_HEALTH_TTL'' 15) (\<lambda>ttl.
     bindR (int_env env ''RATE_LIMIT_LLAMA'' 15) (\<lambda>rl.
     bindR (int_env env ''RATE_LIMIT_CODER'' 10) (\<lambda>rc.
     bindR (int_env env ''RATE_LIMIT_REASONING'' 5) (\<lambda>rr.
     bindR (int_env env ''RATE_LIMIT_CATALOG'' 20) (\<lambda>rcat.
     bindR (float_env env ''DEMO_PER_ACCOUNT_CAP_USD'' ''1.0'') (\<lambda>capd.
     bindR (plain_int_env env ''DEMO_PER_ACCOUNT_WINDOW_DAYS'' 1) (\<lambda>wd.
     bindR (float_env env ''DEMO_GLOBAL_CAP_USD'' ''10.0'') (\<lambda>capg.
     bindR (plain_int_env env ''DEMO_GLOBAL_WINDOW_HOURS'' 24) (\<lambda>gh.
     bindR (plain_int_env env ''DEMO_IDLE_TTL_HOURS'' 2) (\<lambda>ih.
     bindR (plain_int_env env ''DEMO_MAX_LIVE_ACCOUNTS'' 0) (\<lambda>ml.
     bindR (float_env env ''DEFAULT_MODEL_PRICE_IN'' ''0.50'') (\<lambda>price_in.
     bindR (float_env env ''DEFAULT_MODEL_PRICE_OUT'' ''1.50'') (\<lambda>price_out.
     Inr \<lparr>MODELS = env_models env,
          FALLBACK_ORDER = [''reasoning'', ''coder'', ''llama''],
          MODEL_REQUEST_EXTRAS = static_request_extras,
          MODEL_MIN_MAX_TOKENS = [(''openai/gpt-oss-20b'', floor20)],
          MODEL_RATE_LIMITS = [(''llama'', (rl, 60)), (''coder'', (rc, 60)),
                               (''reasoning'', (rr, 60)), (''catalog'', (rcat, 60))],
          CONTEXT_WINDOWS = static_context_windows,
          DEFAULT_CONTEXT_WINDOW = 131072,
          MODEL_PRICING = static_model_pricing,
          DEFAULT_MODEL_PRICE_IN = price_in,
          DEFAULT_MODEL_PRICE_OUT = price_out,
          MODEL_VISION = getenv env ''MODEL_VISION'' ''meta/llama-3.2-90b-vision-instruct'',
          MODEL_EMBEDDING = getenv env ''MODEL_EMBEDDING'' ''nvidia/nemotron-3-embed-1b'',
          EMBEDDING_DIM = dim,
          NVIDIA_API_KEY = env ''NVIDIA_API_KEY'',
          NIM_URL = getenv env ''NIM_URL'' ''https://integrate.api.nvidia.com/v1/chat/completions'',
          NIM_EMBEDDING_URL = getenv env ''NIM_EMBEDDING_URL'' ''https://integrate.api.nvidia.com/v1/embeddings'',
          LLM_BACKEND = lower (getenv env ''LLM_BACKEND'' ''nim''),
          LLM_FAILOVER_ENABLED = flag_env env ''LLM_FAILOVER_ENABLED'',
          LLM_PRIMARY_URL = getenv env ''LLM_PRIMARY_URL'' [],
          LLM_PRIMARY_API_KEY = getenv env ''LLM_PRIMARY_API_KEY'' [],
          LLM_HEALTH_TTL = ttl,
          MAX_RETRIES = retries,
          STREAM_TOTAL_TIMEOUT = total,
          STREAM_TURN_BUDGET = turn,
          STREAM_MAX_TURN_TOKENS = toks,
          USE_REDIS = flag_env env ''USE_REDIS'',
          WEB_SEARCH_ENABLED = flag_env env ''WEB_SEARCH_ENABLED'',
          IMAGE_OCR_ENABLED = flag_env env ''IMAGE_OCR_ENABLED'',
          DEMO_EPHEMERAL_ENABLED = flag_env env ''DEMO_EPHEMERAL_ENABLED'',
          DEMO_SEED_USERNAME = getenv env ''DEMO_SEED_USERNAME'' ''demo'',
          DEMO_PER_ACCOUNT_CAP_USD = capd,
          DEMO_PER_ACCOUNT_WINDOW_DAYS = wd,
          DEMO_GLOBAL_CAP_USD = capg,
          DEMO_GLOBAL_WINDOW_HOURS = gh,
          DEMO_IDLE_TTL_HOURS = ih,
          DEMO_MAX_LIVE_ACCOUNTS = ml\<rparr>)))))))))))))))))))"

definition homeserver_override :: "environ \<Rightarrow> int \<Rightarrow> config \<Rightarrow> config" where
  "homeserver_override env ctx c =
     (let m = getenv env ''HOMESERVER_MODEL'' ''mixtral'' in
      if LLM_BACKEND c = ''homeserver'' then
        c\<lparr>NIM_URL := getenv env ''HOMESERVER_CHAT_URL'' ''http://llamacpp:8080/v1/chat/completions'',
          NIM_EMBEDDING_URL := getenv env ''HOMESERVER_EMBED_URL'' ''http://llamacpp-embed:8081/v1/embeddings'',
          MODELS := map (\<lambda>(role, _). (role, m)) (MODELS c),
          MODEL_EMBEDDING := getenv env ''HOMESERVER_EMBED_MODEL'' ''bge-large-en-v1.5'',
          CONTEXT_WINDOWS := [(m, ctx)],
          DEFAULT_CONTEXT_WINDOW := ctx,
          EMBEDDING_DIM := 1024\<rparr>
      else c)"

definition set_and_nonempty :: "string option \<Rightarrow> bool" where
  "set_and_nonempty v = (case v of None \<Rightarrow> False | Some s \<Rightarrow> s \<noteq> [])"

definition startup_guards :: "environ \<Rightarrow> config \<Rightarrow> config result" where
  "startup_guards env c =
     (if LLM_BACKEND c \<noteq> ''homeserver'' \<and> \<not> set_and_nonempty (NVIDIA_API_KEY c)
      then Inl (RuntimeError ''NVIDIA_API_KEY is not set. Add it to your .env file.'')
      else if \<not> set_and_nonempty (env ''DATABASE_URL'')
      then Inl (RuntimeError ''DATABASE_URL is not set. Add it to your .env file.'')
      else if \<not> set_and_nonempty (env ''REDIS_URL'')
      then Inl (RuntimeError ''REDIS_URL is not set. Add it to your .env file.'')
      else if \<not> set_and_nonempty (env ''JWT_SECRET_KEY'')
      then Inl (RuntimeError ''JWT_SECRET_KEY is not set. Add it to your .env file.'')
      else Inr c)"

definition load_config :: "environ \<Rightarrow> config result" where
  "load_config env =
     bindR (int_env env ''HOMESERVER_CTX'' 32768) (\<lambda>ctx.
     bindR (base_config env) (\<lambda>c.
     startup_guards env (homeserver_override env ctx c)))"

text \<open>The settings of an empty environment, before the guards.\<close>

definition default_config :: config where
  "default_config =
     \<lparr>MODELS = [(''llama'', ''openai/gpt-oss-20b''), (''coder'', ''deepseek-ai/deepseek-v4-flash-0731''),
                (''reasoning'', ''nvidia/nemotron-3-super-120b-a12b'')],
      FALLBACK_ORDER = [''reasoning'', ''coder'', ''llama''],
      MODEL_REQUEST_EXTRAS = static_request_extras,
      MODEL_MIN_MAX_TOKENS = [(''openai/gpt-oss-20b'', 512)],
      MODEL_RATE_LIMITS = [(''llama'', (15, 60)), (''coder'', (10, 60)),
                           (''reasoning'', (5, 60)), (''catalog'', (20, 60))],
      CONTEXT_WINDOWS = static_context_windows, DEFAULT_CONTEXT_WINDOW = 131072,
      MODEL_PRICING = static_model_pricing,
      DEFAULT_MODEL_PRICE_IN = 1/2, DEFAULT_MODEL_PRICE_OUT = 3/2,
      MODEL_VISION = ''meta/llama-3.2-90b-vision-instruct'',
      MODEL_EMBEDDING = ''nvidia/nemotron-3-embed-1b'', EMBEDDING_DIM = 2048,
      NVIDIA_API_KEY = None,
      NIM_URL = ''https://integrate.api.nvidia.com/v1/chat/completions'',
      NIM_EMBEDDING_URL = ''https://integrate.api.nvidia.com/v1/embeddings'',
      LLM_BACKEND = ''nim'', LLM_FAILOVER_ENABLED = False, LLM_PRIMARY_URL = [],
      LLM_PRIMARY_API_KEY = [], LLM_HEALTH_TTL = 15, MAX_RETRIES = 3,
      STREAM_TOTAL_TIMEOUT = 120, STREAM_TURN_BUDGET = 300, STREAM_MAX_TURN_TOKENS = 16000,
      USE_REDIS = False, WEB_SEARCH_ENABLED = False, IMAGE_OCR_ENABLED = False,
      DEMO_EPHEMERAL_ENABLED = False, DEMO_SEED_USERNAME = ''demo'',
      DEMO_PER_ACCOUNT_CAP_USD = 1, DEMO_PER_ACCOUNT_WINDOW_DAYS = 1,
      DEMO_GLOBAL_CAP_USD = 10, DEMO_GLOBAL_WINDOW_HOURS = 24, DEMO_IDLE_TTL_HOURS = 2,
      DEMO_MAX_LIVE_ACCOUNTS = 0\<rparr>"

section \<open>Facts about the settings\<close>

lemma bindR_Inr [simp]: "bindR (Inr x) f = f x"
  and bindR_Inl [simp]: "bindR (Inl e) f = Inl e"
  by (simp_all add: bindR_def)

lemma bindR_eq_Inr: "bindR r f = Inr y \<longleftrightarrow> (\<exists>x. r = Inr x \<and> f x = Inr y)"
  by (cases r) auto

text \<open>A configuration in which every role and every fallback key names a model.\<close>

definition roles_ok :: "config \<Rightarrow> bool" where
  "roles_ok c = (map fst (MODELS c) = [''llama'', ''coder'', ''reasoning''] \<and>
                 FALLBACK_ORDER c = [''reasoning'', ''coder'', ''llama''])"

lemma base_config_roles: "base_config env = Inr c \<Longrightarrow> roles_ok c"
  by (auto simp: base_config_def bindR_eq_Inr roles_ok_def env_models_def)

lemma homeserver_override_roles: "roles_ok c \<Longrightarrow> roles_ok (homeserver_override env ctx c)"
  by (auto simp: roles_ok_def homeserver_override_def Let_def)

lemma load_config_cases:
  assumes "load_config env = Inr c"
  obtains ctx b where "int_env env ''HOMESERVER_CTX'' 32768 = Inr ctx" and "base_config env = Inr b"
    and "c = homeserver_override env ctx b"
    and "LLM_BACKEND c = ''homeserver'' \<or> set_and_nonempty (NVIDIA_API_KEY c)"
proof -
  from assms obtain ctx b where *: "int_env env ''HOMESERVER_CTX'' 32768 = Inr ctx"
    "base_config env = Inr b" "startup_guards env (homeserver_override env ctx b) = Inr c"
    by (auto simp: load_config_def bindR_eq_Inr)
  then show ?thesis
    by (intro that [of ctx b]) (auto simp: startup_guards_def split: if_splits)
qed

lemma load_config_roles: "load_config env = Inr c \<Longrightarrow> roles_ok c"
  by (auto elim!: load_config_cases intro: homeserver_override_roles base_config_roles)

lemma roles_ok_lookup:
  assumes "roles_ok c" and "r \<in> {''llama'', ''coder'', ''reasoning''}"
  shows "\<exists>m. dget (MODELS c) r = Some m"
proof -
  from assms(1) have "set (map fst (MODELS c)) = {''llama'', ''coder'', ''reasoning''}"
    by (simp only: roles_ok_def list.set)
  with assms(2) have "r \<in> fst ` set (MODELS c)" by (simp only: set_map)
  then have "map_of (MODELS c) r \<noteq> None" by (simp only: map_of_eq_None_iff not_not)
  then show ?thesis by (simp only: dget_def not_None_eq)
qed

lemma base_config_default: "base_config (\<lambda>_. None) = Inr default_config"
  by code_simp

text \<open>
  A process that starts is configured consistently: every role and every fallback key names a
  model; on the NIM backend the NVIDIA key is set; and on the home server every role names the
  one local model, which is the only one with a context window, at the forced embedding width.
\<close>

theorem started_config_consistent:
  assumes "load_config env = Inr c"
  shows "roles_ok c
    \<and> (if LLM_BACKEND c = ''homeserver''
       then map snd (MODELS c) = replicate 3 (getenv env ''HOMESERVER_MODEL'' ''mixtral'')
          \<and> CONTEXT_WINDOWS c = [(getenv env ''HOMESERVER_MODEL'' ''mixtral'', DEFAULT_CONTEXT_WINDOW c)]
          \<and> EMBEDDING_DIM c = 1024
       else set_and_nonempty (NVIDIA_API_KEY c))"
proof -
  from assms obtain ctx b where b: "base_config env = Inr b" and c: "c = homeserver_override env ctx b"
    and k: "LLM_BACKEND c = ''homeserver'' \<or> set_and_nonempty (NVIDIA_API_KEY c)"
    by (rule load_config_cases)
  have m: "MODELS b = env_models env"
    using b by (auto simp: base_config_def bindR_eq_Inr)
  show ?thesis
  proof (cases "LLM_BACKEND b = ''homeserver''")
    case True
    then have f: "LLM_BACKEND c = LLM_BACKEND b" "EMBEDDING_DIM c = 1024"
      "MODELS c = map (\<lambda>(role, _). (role, getenv env ''HOMESERVER_MODEL'' ''mixtral'')) (MODELS b)"
      "CONTEXT_WINDOWS c = [(getenv env ''HOMESERVER_MODEL'' ''mixtral'', DEFAULT_CONTEXT_WINDOW c)]"
      by (simp_all add: c homeserver_override_def Let_def)
    with True load_config_roles [OF assms] show ?thesis
      by (simp add: m env_models_def numeral_3_eq_3)
  next
    case False
    then have "c = b" by (simp add: c homeserver_override_def Let_def)
    with False k load_config_roles [OF assms] show ?thesis by simp
  qed
qed

definition sample_environ :: environ where
  "sample_environ k = map_of [(''LLM_BACKEND'', ''HomeServer''), (''DATABASE_URL'', ''d''), (''REDIS_URL'', ''r''),
     (''JWT_SECRET_KEY'', ''j''), (''DEMO_GLOBAL_CAP_USD'', ''2.5e1''), (''RATE_LIMIT_CATALOG'', ''2 * 15'')] k"

lemma sample_context_read: "int_env sample_environ ''HOMESERVER_CTX'' 32768 = Inr 32768"
proof -
  have "int_str 32768 = ''32768''" by (simp add: int_str_def nat_str.simps) code_simp?
  moreover have "py_int (strip (getenv sample_environ ''HOMESERVER_CTX'' ''32768'')) = Some 32768" by code_simp
  ultimately show ?thesis by (simp only: int_env_def Let_def option.case)
qed

lemma sample_environ_reads:
  "plain_int_env sample_environ ''EMBEDDING_DIM'' 2048 = Inr 2048"
  "int_env sample_environ ''GPT_OSS_20B_MIN_MAX_TOKENS'' 512 = Inr 512"
  "plain_int_env sample_environ ''STREAM_TOTAL_TIMEOUT'' 120 = Inr 120"
  "plain_int_env sample_environ ''STREAM_TURN_BUDGET'' 300 = Inr 300"
  "plain_int_env sample_environ ''STREAM_MAX_TURN_TOKENS'' 16000 = Inr 16000"
  "plain_int_env sample_environ ''MAX_RETRIES'' 3 = Inr 3"
  "plain_int_env sample_environ ''LLM_HEALTH_TTL'' 15 = Inr 15"
  "int_env sample_environ ''RATE_LIMIT_LLAMA'' 15 = Inr 15"
  "int_env sample_environ ''RATE_LIMIT_CODER'' 10 = Inr 10"
  "int_env sample_environ ''RATE_LIMIT_REASONING'' 5 = Inr 5"
  "int_env sample_environ ''RATE_LIMIT_CATALOG'' 20 = Inr 30"
  "float_env sample_environ ''DEMO_PER_ACCOUNT_CAP_USD'' ''1.0'' = Inr 1"
  "plain_int_env sample_environ ''DEMO_PER_ACCOUNT_WINDOW_DAYS'' 1 = Inr 1"
  "float_env sample_environ ''DEMO_GLOBAL_CAP_USD'' ''10.0'' = Inr 25"
  "plain_int_env sample_environ ''DEMO_GLOBAL_WINDOW_HOURS'' 24 = Inr 24"
  "plain_int_env sample_environ ''DEMO_IDLE_TTL_HOURS'' 2 = Inr 2"
  "plain_int_env sample_environ ''DEMO_MAX_LIVE_ACCOUNTS'' 0 = Inr 0"
  "float_env sample_environ ''DEFAULT_MODEL_PRICE_IN'' ''0.50'' = Inr (1/2)"
  "float_env sample_environ ''DEFAULT_MODEL_PRICE_OUT'' ''1.50'' = Inr (3/2)"
  "lower (getenv sample_environ ''LLM_BACKEND'' ''nim'') = ''homeserver''"
  "set_and_nonempty (sample_environ ''DATABASE_URL'')"
  "set_and_nonempty (sample_environ ''REDIS_URL'')"
  "set_and_nonempty (sample_environ ''JWT_SECRET_KEY'')"
  by code_simp+

theorem started_config_consistent_witness:
  "\<exists>c. load_config sample_environ = Inr c \<and> DEMO_GLOBAL_CAP_USD c = 25
     \<and> dget (MODEL_RATE_LIMITS c) ''catalog'' = Some (30, 60)
     \<and> map snd (MODELS c) = replicate 3 (getenv sample_environ ''HOMESERVER_MODEL'' ''mixtral'')"
proof -
  have "\<exists>c. load_config sample_environ = Inr c \<and> DEMO_GLOBAL_CAP_USD c = 25
     \<and> dget (MODEL_RATE_LIMITS c) ''catalog'' = Some (30, 60) \<and> LLM_BACKEND c = ''homeserver''"
    by (simp add: load_config_def base_config_def sample_context_read sample_environ_reads homeserver_override_def startup_guards_def dget_def Let_def)
  then obtain c where l: "load_config sample_environ = Inr c" and v: "DEMO_GLOBAL_CAP_USD c = 25"
      "dget (MODEL_RATE_LIMITS c) ''catalog'' = Some (30, 60)" "LLM_BACKEND c = ''homeserver''"
    by blast
  have "map snd (MODELS c) = replicate 3 (getenv sample_environ ''HOMESERVER_MODEL'' ''mixtral'')"
    using started_config_consistent [OF l] v(3) by (simp only: if_True)
  with l v show ?thesis by blast
qed

end
