(* ===== verification/Model_Catalog.thy ===== *)
theory Model_Catalog
  imports Settings
begin

text \<open>
  The live model catalog, \<^verbatim>\<open>backend/llm/catalog/\<close>: label and candidate rules
  (\<^verbatim>\<open>labels.py\<close>), the \<^verbatim>\<open>model_catalog\<close> table and its scan updates (\<^verbatim>\<open>store.py\<close>,
  \<^verbatim>\<open>models/catalog.py\<close>), the probe classification and the whole scan (\<^verbatim>\<open>scanner.py\<close>),
  the per-worker snapshot with its Redis hand-over (\<^verbatim>\<open>cache.py\<close>), pricing (\<^verbatim>\<open>pricing.py\<close>),
  the changes by administrators (\<^verbatim>\<open>api/admin/models.py\<close>)
  and the resolution of a requested model (\<^verbatim>\<open>api/chat/model_resolve.py\<close>).

  The table is the list of its rows, ids distinct. The HTTP replies, the replies of Redis and
  of the database and the JSON text codec are arguments; instants are reals.
\<close>

section \<open>Labels\<close>

definition exclude_substrings :: "string list" where
  "exclude_substrings =
     [''embed'', ''rerank'', ''retriev'', ''reward'', ''safety'', ''guard'',
      ''parse'', ''ocr'', ''asr'', ''tts'', ''vlm-embed'']"

definition is_chat_candidate :: "string \<Rightarrow> bool" where
  "is_chat_candidate model_id =
     (let low = lower model_id in \<not> list_ex (\<lambda>term. contains term low) exclude_substrings)"

text \<open>
  \<^verbatim>\<open>str.upper\<close> and \<^verbatim>\<open>str.capitalize\<close> on the ASCII range, which is what model ids use.
\<close>

definition upper_char :: "char \<Rightarrow> char" where
  "upper_char c = (let n = code c in if 97 \<le> n \<and> n \<le> 122 then char_of (n - 32) else c)"

definition capitalize :: "string \<Rightarrow> string" where
  "capitalize s = (case s of [] \<Rightarrow> [] | c # r \<Rightarrow> upper_char c # lower r)"

definition derive_label :: "string \<Rightarrow> string" where
  "derive_label model_id =
     (let name = last (split_on (CHR ''/'') model_id);
          parts = filter (\<lambda>p. p \<noteq> [])
                    (split_on (CHR ''-'') (map (\<lambda>c. if c = CHR ''_'' then CHR ''-'' else c) name))
      in if parts = [] then model_id
         else join '' '' (map (\<lambda>p. if length p \<le> 3 \<and> list_ex py_isdigit p
                                   then map upper_char p else capitalize p) parts))"

section \<open>The table\<close>

record catalog_row =
  cr_id :: string
  cr_label :: "string option"
  cr_status :: string
  cr_http_status :: "int option"
  cr_latency_ms :: "int option"
  cr_fail_count :: int
  cr_enabled :: bool
  cr_price_in :: "real option"
  cr_price_out :: "real option"
  cr_context_window :: "int option"
  cr_supports_tools :: "bool option"
  cr_reasoning :: "bool option"
  cr_request_extras :: "pydict option"
  cr_min_max_tokens :: "int option"
  cr_last_live_at :: "real option"
  cr_last_checked :: "real option"
  cr_first_seen :: real
  cr_updated_at :: real

type_synonym catalog_table = "catalog_row list"

definition get_row :: "catalog_table \<Rightarrow> string \<Rightarrow> catalog_row option" where
  "get_row tbl i = List.find (\<lambda>r. cr_id r = i) tbl"

text \<open>The unfiltered \<^verbatim>\<open>list_rows(db)\<close> of the scanner and the cache: every row, by id.\<close>

definition list_rows :: "catalog_table \<Rightarrow> catalog_row list" where
  "list_rows tbl = py_sort_key cr_id tbl"

definition set_row :: "catalog_table \<Rightarrow> catalog_row \<Rightarrow> catalog_table" where
  "set_row tbl row = map (\<lambda>r. if cr_id r = cr_id row then row else r) tbl"

record probe_result =
  pr_id :: string
  pr_status :: string
  pr_http_status :: "int option"
  pr_latency_ms :: "int option"
  pr_reasoning :: "bool option"

definition new_row :: "real \<Rightarrow> string \<Rightarrow> string \<Rightarrow> int option \<Rightarrow> int option \<Rightarrow> string option \<Rightarrow> bool \<Rightarrow>
    bool option \<Rightarrow> catalog_row" where
  "new_row now i status http lat lab seed reas =
     \<lparr>cr_id = i, cr_label = lab, cr_status = status, cr_http_status = http,
      cr_latency_ms = lat, cr_fail_count = (if status = ''live'' then 0 else 1),
      cr_enabled = seed, cr_price_in = None, cr_price_out = None, cr_context_window = None,
      cr_supports_tools = None, cr_reasoning = reas, cr_request_extras = None,
      cr_min_max_tokens = None,
      cr_last_live_at = (if status = ''live'' then Some now else None),
      cr_last_checked = Some now, cr_first_seen = now, cr_updated_at = now\<rparr>"

definition rescan_row :: "real \<Rightarrow> string \<Rightarrow> int option \<Rightarrow> int option \<Rightarrow> string option \<Rightarrow> bool option \<Rightarrow>
    catalog_row \<Rightarrow> catalog_row" where
  "rescan_row now status http lat lab reas row =
     row\<lparr>cr_fail_count := (if status = ''live'' then 0 else cr_fail_count row + 1),
         cr_status := status,
         cr_http_status := http,
         cr_latency_ms := lat,
         cr_last_live_at := (if status = ''live'' then Some now else cr_last_live_at row),
         cr_reasoning := (case reas of None \<Rightarrow> cr_reasoning row | Some _ \<Rightarrow> reas),
         cr_label := (if \<not> set_and_nonempty (cr_label row) \<and> set_and_nonempty lab
                      then lab else cr_label row),
         cr_last_checked := Some now,
         cr_updated_at := now\<rparr>"

definition upsert_scan_result :: "real \<Rightarrow> string \<Rightarrow> string \<Rightarrow> int option \<Rightarrow> int option \<Rightarrow> string option \<Rightarrow>
    bool \<Rightarrow> bool option \<Rightarrow> catalog_table \<Rightarrow> catalog_table" where
  "upsert_scan_result now i status http lat lab seed reas tbl =
     (case get_row tbl i of
        None \<Rightarrow> tbl @ [new_row now i status http lat lab seed reas]
      | Some row \<Rightarrow> set_row tbl (rescan_row now status http lat lab reas row))"

definition delist_row :: "real \<Rightarrow> string set \<Rightarrow> catalog_row \<Rightarrow> catalog_row" where
  "delist_row now seen row =
     (if cr_id row \<notin> seen \<and> cr_status row \<noteq> ''delisted''
      then row\<lparr>cr_status := ''delisted'', cr_updated_at := now\<rparr> else row)"

definition mark_delisted :: "real \<Rightarrow> string set \<Rightarrow> catalog_table \<Rightarrow> catalog_table \<times> nat" where
  "mark_delisted now seen tbl =
     (map (delist_row now seen) tbl,
      length (filter (\<lambda>r. cr_id r \<notin> seen \<and> cr_status r \<noteq> ''delisted'') (list_rows tbl)))"

section \<open>Probing\<close>

datatype probe_reply =
    ProbeTimeout
  | ProbeException
  | ProbeResponse int "pyval option"
  \<comment> \<open>status code, and the body when it is JSON\<close>

definition keep_prior_status :: string where
  "keep_prior_status = ''__keep__''"

text \<open>
  \<^verbatim>\<open>reasoning\<close> of a 200 reply: any exception while digging into the body leaves it
  \<^const>\<open>None\<close>.
\<close>

definition message_reasoning :: "pydict \<Rightarrow> bool" where
  "message_reasoning message =
     (let reasoning_content =
            (if truthy_opt (dget message ''reasoning_content'')
             then True else truthy_opt (dget message ''reasoning''));
          has_content = (case dget message ''content'' of Some (PStr s) \<Rightarrow> strip s \<noteq> [] | _ \<Rightarrow> False)
      in reasoning_content \<and> \<not> has_content)"

definition probe_reasoning :: "pyval option \<Rightarrow> bool option" where
  "probe_reasoning body =
     (case body of
        Some (PDict data) \<Rightarrow>
          (case dget data ''choices'' of
             Some (PList (PDict choice # _)) \<Rightarrow>
               (case dget choice ''message'' of
                  None \<Rightarrow> Some (message_reasoning [])
                | Some (PDict message) \<Rightarrow> Some (message_reasoning message)
                | Some _ \<Rightarrow> None)
           | _ \<Rightarrow> None)
      | _ \<Rightarrow> None)"

definition probe_one :: "string \<Rightarrow> probe_reply \<Rightarrow> int \<Rightarrow> probe_result" where
  "probe_one model_id reply latency_ms =
     (case reply of
        ProbeTimeout \<Rightarrow> \<lparr>pr_id = model_id, pr_status = ''timeout'', pr_http_status = None,
                        pr_latency_ms = Some latency_ms, pr_reasoning = None\<rparr>
      | ProbeException \<Rightarrow> \<lparr>pr_id = model_id, pr_status = ''error'', pr_http_status = None,
                        pr_latency_ms = Some latency_ms, pr_reasoning = None\<rparr>
      | ProbeResponse st body \<Rightarrow>
          if st = 200 then \<lparr>pr_id = model_id, pr_status = ''live'', pr_http_status = Some 200,
                            pr_latency_ms = Some latency_ms, pr_reasoning = probe_reasoning body\<rparr>
          else if st = 404 then \<lparr>pr_id = model_id, pr_status = ''not_found'', pr_http_status = Some 404,
                            pr_latency_ms = Some latency_ms, pr_reasoning = None\<rparr>
          else if st = 410 then \<lparr>pr_id = model_id, pr_status = ''gone'', pr_http_status = Some 410,
                            pr_latency_ms = Some latency_ms, pr_reasoning = None\<rparr>
          else if st = 429 then \<lparr>pr_id = model_id, pr_status = keep_prior_status, pr_http_status = Some 429,
                            pr_latency_ms = Some latency_ms, pr_reasoning = None\<rparr>
          else \<lparr>pr_id = model_id, pr_status = ''error'', pr_http_status = Some st,
                pr_latency_ms = Some latency_ms, pr_reasoning = None\<rparr>)"

section \<open>The snapshot\<close>

record entry =
  e_id :: string
  e_label :: string
  e_status :: string
  e_enabled :: bool
  e_fail_count :: int
  e_price_in :: "real option"
  e_price_out :: "real option"
  e_context_window :: "int option"
  e_latency_ms :: "int option"
  e_supports_tools :: "bool option"
  e_reasoning :: "bool option"
  e_request_extras :: "pydict option"
  e_min_max_tokens :: "int option"
  e_last_live_at :: "real option"

definition entry_available :: "entry \<Rightarrow> bool" where
  "entry_available e =
     (if \<not> e_enabled e then False
      else if e_status e = ''live'' then True
      else if e_status e \<in> {''timeout'', ''error''} \<and> e_fail_count e \<le> 1 \<and> e_last_live_at e \<noteq> None
      then True
      else False)"

definition row_to_entry :: "catalog_row \<Rightarrow> entry" where
  "row_to_entry row =
     \<lparr>e_id = cr_id row,
      e_label = (case cr_label row of None \<Rightarrow> cr_id row | Some l \<Rightarrow> if l = [] then cr_id row else l),
      e_status = cr_status row, e_enabled = cr_enabled row, e_fail_count = cr_fail_count row,
      e_price_in = cr_price_in row, e_price_out = cr_price_out row,
      e_context_window = cr_context_window row, e_latency_ms = cr_latency_ms row,
      e_supports_tools = cr_supports_tools row, e_reasoning = cr_reasoning row,
      e_request_extras = cr_request_extras row, e_min_max_tokens = cr_min_max_tokens row,
      e_last_live_at = cr_last_live_at row\<rparr>"

record catalog_cache =
  snapshot :: "(string \<times> entry) list"
  snapshot_ver :: "string option"
  last_checked_at :: real

definition reset_cache :: catalog_cache where
  "reset_cache = \<lparr>snapshot = [], snapshot_ver = None, last_checked_at = 0\<rparr>"

definition replace_snapshot :: "(string \<times> entry) list \<Rightarrow> catalog_cache \<Rightarrow> catalog_cache" where
  "replace_snapshot es c = c\<lparr>snapshot := es\<rparr>"

text \<open>
  \<^verbatim>\<open>_reload_from_db\<close>: the argument is what the query of a fresh session returned.
\<close>

definition reload_from_db :: "catalog_row list result \<Rightarrow> catalog_cache \<Rightarrow> catalog_cache result" where
  "reload_from_db rows c =
     (case rows of
        Inl e \<Rightarrow> Inl e
      | Inr rs \<Rightarrow> Inr (replace_snapshot (dupdate [] (map (\<lambda>r. (cr_id r, row_to_entry r)) rs)) c))"

text \<open>Decoding every field of the hash; one malformed field raises.\<close>

fun decode_all :: "(string \<Rightarrow> entry option) \<Rightarrow> (string \<times> string) list \<Rightarrow> (string \<times> entry) list option" where
  "decode_all dec [] = Some []"
| "decode_all dec ((k, v) # kvs) =
     (case dec v of
        None \<Rightarrow> None
      | Some e \<Rightarrow> map_option (\<lambda>es. (k, e) # es) (decode_all dec kvs))"

definition refresh_guard_seconds :: real where
  "refresh_guard_seconds = 15"

definition or_stale :: "catalog_cache \<Rightarrow> catalog_cache result \<Rightarrow> catalog_cache" where
  "or_stale c r = (case r of Inl _ \<Rightarrow> c | Inr c' \<Rightarrow> c')"

definition ensure_fresh :: "config \<Rightarrow> (string \<Rightarrow> entry option) \<Rightarrow> real \<Rightarrow> string option result \<Rightarrow>
    (string \<times> string) list result \<Rightarrow> catalog_row list result \<Rightarrow> catalog_cache \<Rightarrow> catalog_cache" where
  "ensure_fresh cfg dec now ver_reply entries_reply db_reply c0 =
     (if LLM_BACKEND cfg = ''homeserver'' then c0
      else if now - last_checked_at c0 < refresh_guard_seconds then c0
      else
        let c = c0\<lparr>last_checked_at := now\<rparr>;
            db_fallback = or_stale c (reload_from_db db_reply c)
        in if \<not> USE_REDIS cfg then db_fallback
           else case ver_reply of
             Inl _ \<Rightarrow> db_fallback
           | Inr ver \<Rightarrow>
               if ver \<noteq> None \<and> ver = snapshot_ver c then c
               else if ver = None then db_fallback
               else case entries_reply of
                 Inl _ \<Rightarrow> db_fallback
               | Inr [] \<Rightarrow>
                   (case reload_from_db db_reply c of
                      Inl _ \<Rightarrow> db_fallback
                    | Inr c' \<Rightarrow> c'\<lparr>snapshot_ver := ver\<rparr>)
               | Inr raw \<Rightarrow>
                   (case decode_all dec raw of
                      None \<Rightarrow> db_fallback
                    | Some es \<Rightarrow> (replace_snapshot (dupdate [] es) c)\<lparr>snapshot_ver := ver\<rparr>))"

text \<open>
  What the catalog keeps in Redis: the version key and the hash of entries. \<open>ok k\<close> says
  whether the \<open>k\<close>-th command of the publication succeeds; a failure abandons the rest.
\<close>

record catalog_redis =
  r_ver :: "string option"
  r_entries :: "(string \<times> string) list"

definition hset_all :: "(entry \<Rightarrow> string) \<Rightarrow> (string \<times> entry) list \<Rightarrow> (string \<times> string) list \<Rightarrow>
    (string \<times> string) list" where
  "hset_all enc es h = dupdate h (map (\<lambda>(k, e). (k, enc e)) es)"

definition hdel_stale :: "(string \<times> entry) list \<Rightarrow> (string \<times> string) list \<Rightarrow> (string \<times> string) list" where
  "hdel_stale es h = filter (\<lambda>(k, _). k \<in> fst ` set es) h"

definition publish :: "config \<Rightarrow> (entry \<Rightarrow> string) \<Rightarrow> string \<Rightarrow> (nat \<Rightarrow> bool) \<Rightarrow>
    (string \<times> entry) list option \<Rightarrow> catalog_row list result \<Rightarrow>
    catalog_cache \<times> catalog_redis \<Rightarrow> catalog_cache \<times> catalog_redis" where
  "publish cfg enc ver ok entries db_reply st =
     (let (c, r) = st;
          after_load = (case entries of
             Some es \<Rightarrow> Inr (replace_snapshot es c)
           | None \<Rightarrow> reload_from_db db_reply c)
      in case after_load of
           Inl _ \<Rightarrow> (c, r)
         | Inr c1 \<Rightarrow>
             let es = snapshot c1 in
             if \<not> USE_REDIS cfg then (c1, r)
             else if \<not> ok 0 then (c1, r)
             else
               let h1 = (if es \<noteq> [] then hset_all enc es (r_entries r) else []);
                   r1 = r\<lparr>r_entries := h1\<rparr>
               in if es \<noteq> [] \<and> \<not> ok 1 then (c1, r1)
                  else
                    let stale = filter (\<lambda>(k, _). k \<notin> fst ` set es) h1 in
                    if es \<noteq> [] \<and> stale \<noteq> [] \<and> \<not> ok 2 then (c1, r1)
                    else
                      let r2 = (if es \<noteq> [] \<and> stale \<noteq> [] then r1\<lparr>r_entries := hdel_stale es h1\<rparr> else r1)
                      in if \<not> ok 3 then (c1, r2)
                         else (c1\<lparr>snapshot_ver := Some ver\<rparr>, r2\<lparr>r_ver := Some ver\<rparr>))"

definition get_entry :: "catalog_cache \<Rightarrow> string \<Rightarrow> entry option" where
  "get_entry c model_id = dget (snapshot c) model_id"

definition is_available :: "catalog_cache \<Rightarrow> string \<Rightarrow> bool" where
  "is_available c model_id =
     (case dget (snapshot c) model_id of None \<Rightarrow> False | Some e \<Rightarrow> entry_available e)"

definition available_ids :: "catalog_cache \<Rightarrow> string list" where
  "available_ids c = map fst (filter (\<lambda>(_, e). entry_available e) (snapshot c))"

definition get_pricing :: "config \<Rightarrow> catalog_cache \<Rightarrow> string \<Rightarrow> real \<times> real" where
  "get_pricing cfg c model_id =
     (let static = (case dget (MODEL_PRICING cfg) model_id of
                      Some p \<Rightarrow> p
                    | None \<Rightarrow> (DEFAULT_MODEL_PRICE_IN cfg, DEFAULT_MODEL_PRICE_OUT cfg))
      in case get_entry c model_id of
           None \<Rightarrow> static
         | Some e \<Rightarrow> (case (e_price_in e, e_price_out e) of
                        (Some pin, Some pout) \<Rightarrow> (pin, pout)
                      | _ \<Rightarrow> static))"

section \<open>A scan\<close>

record scan_state =
  sc_table :: catalog_table
  sc_lock :: bool
  sc_cache :: catalog_cache
  sc_redis :: catalog_redis

record scan_meta =
  sm_trigger :: string
  sm_duration_ms :: int
  sm_scanned :: nat
  sm_delisted :: nat
  sm_ran_at :: real
  sm_summary :: "(string \<times> nat) list"

datatype scan_outcome = Skipped string | Scanned scan_meta

definition bump :: "(string \<times> nat) list \<Rightarrow> string \<Rightarrow> (string \<times> nat) list" where
  "bump d k = dset d k ((case dget d k of None \<Rightarrow> 0 | Some n \<Rightarrow> n) + 1)"

definition effective_status :: "(string \<times> string) list \<Rightarrow> probe_result \<Rightarrow> string" where
  "effective_status existing pr =
     (if pr_status pr = keep_prior_status
      then (case dget existing (pr_id pr) of None \<Rightarrow> ''error'' | Some s \<Rightarrow> s)
      else pr_status pr)"

definition apply_probe :: "config \<Rightarrow> real \<Rightarrow> (string \<times> string) list \<Rightarrow> probe_result \<Rightarrow>
    catalog_table \<times> (string \<times> nat) list \<Rightarrow> catalog_table \<times> (string \<times> nat) list" where
  "apply_probe cfg now existing pr acc =
     (let (tbl, summary) = acc;
          status = effective_status existing pr
      in (upsert_scan_result now (pr_id pr) status (pr_http_status pr) (pr_latency_ms pr)
            (Some (derive_label (pr_id pr))) (pr_id pr \<in> snd ` set (MODELS cfg)) (pr_reasoning pr) tbl,
          bump summary (if pr_status pr = keep_prior_status then ''kept_429'' else status)))"

definition apply_probes :: "config \<Rightarrow> real \<Rightarrow> probe_result list \<Rightarrow> catalog_table \<Rightarrow>
    catalog_table \<times> (string \<times> nat) list" where
  "apply_probes cfg now prs tbl =
     fold (apply_probe cfg now (map (\<lambda>r. (cr_id r, cr_status r)) (list_rows tbl))) prs (tbl, [])"

text \<open>
  \<open>listing\<close> is what \<^verbatim>\<open>_list_models\<close> returned (the empty list when the HTTP client is not
  initialised, an exception when the request failed), \<open>probe\<close> the reply and latency of each
  probe. \<open>ok\<close> is as in \<^const>\<open>publish\<close>, with \<open>ok 4\<close> for the release of the lock, \<open>ok 5\<close> for
  the command that takes it, \<open>ok 6\<close> for the query with which a publication reads the table and \<open>ok 7\<close> for the
  commit before it. The lock holds until it is released or expires.
\<close>

definition release_lock :: "config \<Rightarrow> (nat \<Rightarrow> bool) \<Rightarrow> scan_state \<Rightarrow> scan_state" where
  "release_lock cfg ok st = (if USE_REDIS cfg \<and> ok 4 then st\<lparr>sc_lock := False\<rparr> else st)"

definition scan_table :: "config \<Rightarrow> real \<Rightarrow> string list \<Rightarrow> (string \<Rightarrow> probe_reply \<times> int) \<Rightarrow> catalog_table \<Rightarrow>
    (catalog_table \<times> nat) \<times> (string \<times> nat) list" where
  "scan_table cfg now candidates probe tbl =
     (let prs = map (\<lambda>m. probe_one m (fst (probe m)) (snd (probe m))) candidates;
          (tbl1, summary) = apply_probes cfg now prs tbl
      in (mark_delisted now (set candidates) tbl1, summary))"

text \<open>The query of a publication.\<close>

definition reload_reply :: "(nat \<Rightarrow> bool) \<Rightarrow> catalog_table \<Rightarrow> catalog_row list result" where
  "reload_reply ok tbl = (if ok 6 then Inr (list_rows tbl) else Inl OtherError)"

definition run_scan :: "config \<Rightarrow> (entry \<Rightarrow> string) \<Rightarrow> string \<Rightarrow> (nat \<Rightarrow> bool) \<Rightarrow> real \<Rightarrow> int \<Rightarrow>
    string list result \<Rightarrow> (string \<Rightarrow> probe_reply \<times> int) \<Rightarrow> string \<Rightarrow> scan_state \<Rightarrow>
    scan_outcome result \<times> scan_state" where
  "run_scan cfg enc ver ok now duration_ms listing probe trigger st =
     (if LLM_BACKEND cfg = ''homeserver'' then (Inr (Skipped ''homeserver''), st)
      else if USE_REDIS cfg \<and> \<not> ok 5 then (Inl OtherError, st)
      else if USE_REDIS cfg \<and> sc_lock st then (Inr (Skipped ''already_running''), st)
      else
        let st1 = st\<lparr>sc_lock := USE_REDIS cfg \<or> sc_lock st\<rparr> in
        case listing of
          Inl e \<Rightarrow> (Inl e, release_lock cfg ok st1)
        | Inr model_ids \<Rightarrow>
            if \<not> ok 7 then (Inl OtherError, release_lock cfg ok st1)
            else
            let candidates = filter is_chat_candidate model_ids;
                ((tbl, delisted), summary) = scan_table cfg now candidates probe (sc_table st1);
                (c, r) = publish cfg enc ver ok None (reload_reply ok tbl) (sc_cache st1, sc_redis st1);
                meta = \<lparr>sm_trigger = trigger, sm_duration_ms = duration_ms,
                        sm_scanned = length candidates, sm_delisted = delisted,
                        sm_ran_at = now, sm_summary = summary\<rparr>
            in (Inr (Scanned meta),
                release_lock cfg ok (st1\<lparr>sc_table := tbl, sc_cache := c, sc_redis := r\<rparr>)))"

section \<open>What the administrator changes\<close>

text \<open>
  \<^verbatim>\<open>PATCH /admin/models\<close>: every field may be absent, null or set. The printer of JSON objects is a parameter. A
  field that is out of range is refused before the handler runs; a null for the flag violates the table's constraint, so the commit
  raises.
\<close>

record model_patch =
  mp_enabled :: "bool option option"
  mp_label :: "string option option"
  mp_price_in :: "real option option"
  mp_price_out :: "real option option"
  mp_context_window :: "int option option"
  mp_request_extras :: "pydict option option"
  mp_min_max_tokens :: "int option option"

definition field_between :: "'n :: linorder \<Rightarrow> 'n \<Rightarrow> 'n option option \<Rightarrow> bool" where
  "field_between lo hi f = (case f of Some (Some v) \<Rightarrow> lo \<le> v \<and> v \<le> hi | _ \<Rightarrow> True)"

definition patch_in_range :: "model_patch \<Rightarrow> bool" where
  "patch_in_range p =
     (field_between 0 100 (mp_price_in p) \<and> field_between 0 100 (mp_price_out p)
      \<and> (case mp_context_window p of Some (Some w) \<Rightarrow> 1 \<le> w | _ \<Rightarrow> True) \<and> field_between 1 4096 (mp_min_max_tokens p))"

definition empty_patch :: "model_patch \<Rightarrow> bool" where
  "empty_patch p =
     (mp_enabled p = None \<and> mp_label p = None \<and> mp_price_in p = None \<and> mp_price_out p = None
      \<and> mp_context_window p = None \<and> mp_request_extras p = None \<and> mp_min_max_tokens p = None)"

definition EXTRAS_ALLOWED_KEYS :: "string list" where
  "EXTRAS_ALLOWED_KEYS = [''reasoning_effort'', ''chat_template_kwargs'']"

definition EXTRAS_MAX_BYTES :: nat where
  "EXTRAS_MAX_BYTES = 1024"

definition given :: "'f option \<Rightarrow> 'f \<Rightarrow> 'f" where
  "given f old = (case f of None \<Rightarrow> old | Some v \<Rightarrow> v)"

definition patched_row :: "real \<Rightarrow> model_patch \<Rightarrow> catalog_row \<Rightarrow> catalog_row" where
  "patched_row now p row =
     row\<lparr>cr_enabled := (case mp_enabled p of Some (Some b) \<Rightarrow> b | _ \<Rightarrow> cr_enabled row),
         cr_label := given (mp_label p) (cr_label row),
         cr_price_in := given (mp_price_in p) (cr_price_in row),
         cr_price_out := given (mp_price_out p) (cr_price_out row),
         cr_context_window := given (mp_context_window p) (cr_context_window row),
         cr_request_extras := given (mp_request_extras p) (cr_request_extras row),
         cr_min_max_tokens := given (mp_min_max_tokens p) (cr_min_max_tokens row),
         cr_updated_at := now\<rparr>"

definition extras_error :: "(pydict \<Rightarrow> string) \<Rightarrow> pydict option option \<Rightarrow> pyexc option" where
  "extras_error dumps f =
     (case f of
        Some (Some extras) \<Rightarrow>
          if \<not> fst ` set extras \<subseteq> set EXTRAS_ALLOWED_KEYS then
            Some (HTTPException 400 (''request_extras must be a JSON object with keys from ['' @ [CHR 0x27] @ ''chat_template_kwargs''
              @ [CHR 0x27] @ '', '' @ [CHR 0x27] @ ''reasoning_effort'' @ [CHR 0x27] @ '']''))
          else if length (dumps extras) > EXTRAS_MAX_BYTES then Some (HTTPException 400 ''request_extras must be <= 1024 bytes'')
          else None
      | _ \<Rightarrow> None)"

definition patch_catalog_model :: "config \<Rightarrow> (entry \<Rightarrow> string) \<Rightarrow> (pydict \<Rightarrow> string) \<Rightarrow> string \<Rightarrow> (nat \<Rightarrow> bool) \<Rightarrow> real \<Rightarrow>
    string \<Rightarrow> model_patch \<Rightarrow> scan_state \<Rightarrow> catalog_row result \<times> scan_state" where
  "patch_catalog_model cfg enc dumps ver ok now model_id p st =
     (if \<not> patch_in_range p then (Inl (HTTPException 422 ''validation''), st)
      else case get_row (sc_table st) model_id of
        None \<Rightarrow> (Inl (HTTPException 404 ''Model not found in catalog''), st)
      | Some row \<Rightarrow>
          if empty_patch p then (Inr row, st)
          else if mp_enabled p = Some (Some False) \<and> model_id \<in> snd ` set (MODELS cfg)
          then (Inl (HTTPException 409 ''Cannot disable a role model (llama/coder/reasoning)''), st)
          else if mp_enabled p = Some (Some True) \<and> cr_last_live_at row = None then (Inl (HTTPException 409 ''never_live''), st)
          else if (mp_price_in p = None) \<noteq> (mp_price_out p = None)
          then (Inl (HTTPException 400 ''price_in and price_out must be set together''), st)
          else case extras_error dumps (mp_request_extras p) of
            Some e \<Rightarrow> (Inl e, st)
          | None \<Rightarrow>
              if mp_enabled p = Some None \<or> \<not> ok 7 then (Inl OtherError, st)
              else
                let row' = patched_row now p row;
                    tbl = set_row (sc_table st) row';
                    (c, r) = publish cfg enc ver ok None (reload_reply ok tbl) (sc_cache st, sc_redis st)
                in (Inr row', st\<lparr>sc_table := tbl, sc_cache := c, sc_redis := r\<rparr>))"

section \<open>Resolving a requested model\<close>

definition resolve_model :: "config \<Rightarrow> catalog_cache \<Rightarrow> string option \<Rightarrow> string option" where
  "resolve_model cfg c name =
     (case name of
        None \<Rightarrow> None
      | Some n \<Rightarrow>
          if n = [] then None
          else case dget (MODELS cfg) n of
            Some m \<Rightarrow> Some m
          | None \<Rightarrow>
              if n \<in> snd ` set (MODELS cfg) then Some n
              else if is_available c n then Some n
              else None)"

definition resolve_effective_model :: "config \<Rightarrow> catalog_cache \<Rightarrow> string option \<Rightarrow> string option \<Rightarrow>
    string option \<times> bool" where
  "resolve_effective_model cfg c model_override locked_model =
     (let override_resolved = resolve_model cfg c model_override;
          locked_raw = strip (case locked_model of None \<Rightarrow> [] | Some l \<Rightarrow> l);
          locked_resolved = (if locked_raw \<noteq> [] then resolve_model cfg c (Some locked_raw) else None);
          lock_unavailable = (locked_raw \<noteq> [] \<and> \<not> set_and_nonempty override_resolved \<and> locked_resolved = None)
      in (if set_and_nonempty override_resolved then override_resolved else locked_resolved,
          lock_unavailable))"

definition resolve_model_strict :: "config \<Rightarrow> catalog_cache \<Rightarrow> string option \<Rightarrow> string result" where
  "resolve_model_strict cfg c name =
     (case resolve_model cfg c name of
        None \<Rightarrow> Inl (HTTPException 422 ''model_unavailable'')
      | Some m \<Rightarrow> Inr m)"

fun resolve_all_strict :: "config \<Rightarrow> catalog_cache \<Rightarrow> string list \<Rightarrow> string list result" where
  "resolve_all_strict cfg c [] = Inr []"
| "resolve_all_strict cfg c (m # ms) =
     (case resolve_model_strict cfg c (Some m) of
        Inl e \<Rightarrow> Inl e
      | Inr r \<Rightarrow> (case resolve_all_strict cfg c ms of Inl e \<Rightarrow> Inl e | Inr rs \<Rightarrow> Inr (r # rs)))"

definition resolve_compare_models :: "config \<Rightarrow> catalog_cache \<Rightarrow> string list option \<Rightarrow> nat \<Rightarrow>
    string list option result" where
  "resolve_compare_models cfg c raw max_models =
     (case raw of
        None \<Rightarrow> Inr None
      | Some [] \<Rightarrow> Inr None
      | Some ms \<Rightarrow>
          if length ms > max_models then Inl (HTTPException 422 ''too_many_compare_models'')
          else (case resolve_all_strict cfg c ms of Inl e \<Rightarrow> Inl e | Inr rs \<Rightarrow> Inr (Some rs)))"

section \<open>What a scan keeps\<close>

text \<open>
  A row that claims to be live has a recorded live probe. With it, a model that never answered
  is never offered.
\<close>

definition row_ok :: "catalog_row \<Rightarrow> bool" where
  "row_ok r = (cr_status r = ''live'' \<longrightarrow> cr_last_live_at r \<noteq> None)"

definition table_ok :: "catalog_table \<Rightarrow> bool" where
  "table_ok tbl = (distinct (map cr_id tbl) \<and> list_all row_ok tbl)"

lemma get_row_Some: "get_row tbl i = Some r \<Longrightarrow> r \<in> set tbl \<and> cr_id r = i"
  by (auto simp: get_row_def find_Some_iff)

lemma get_row_None: "get_row tbl i = None \<longleftrightarrow> i \<notin> cr_id ` set tbl"
  by (auto simp: get_row_def find_None_iff)

lemma map_id_set_row [simp]: "map cr_id (set_row tbl row) = map cr_id tbl"
  by (simp add: set_row_def)

lemma list_all_set_row: "list_all P tbl \<Longrightarrow> P row \<Longrightarrow> list_all P (set_row tbl row)"
  by (auto simp: set_row_def list_all_iff)

lemma cr_id_rescan_row [simp]: "cr_id (rescan_row now s h l lab re row) = cr_id row"
  by (simp add: rescan_row_def)

lemma row_ok_new_row [simp]: "row_ok (new_row now i s h l lab seed re)"
  by (simp add: row_ok_def new_row_def)

lemma row_ok_rescan_row [simp]: "row_ok row \<Longrightarrow> row_ok (rescan_row now s h l lab re row)"
  by (simp add: row_ok_def rescan_row_def)

lemma table_ok_upsert: "table_ok tbl \<Longrightarrow> table_ok (upsert_scan_result now i s h l lab seed re tbl)"
proof (cases "get_row tbl i")
  case None
  assume ok: "table_ok tbl"
  from None have "i \<notin> cr_id ` set tbl" by (simp add: get_row_None)
  with ok have "table_ok (tbl @ [new_row now i s h l lab seed re])"
    by (auto simp: table_ok_def) (simp add: new_row_def)
  with None show ?thesis by (simp add: upsert_scan_result_def)
next
  case (Some row)
  assume "table_ok tbl"
  moreover from this get_row_Some [OF Some] have "row_ok row"
    by (auto simp: table_ok_def list_all_iff)
  ultimately show ?thesis
    using Some by (auto simp: upsert_scan_result_def table_ok_def intro: list_all_set_row)
qed

lemma cr_id_delist_row [simp]: "cr_id (delist_row now seen r) = cr_id r"
  by (simp add: delist_row_def)

lemma row_ok_delist_row [simp]: "row_ok r \<Longrightarrow> row_ok (delist_row now seen r)"
  by (simp add: delist_row_def row_ok_def)

lemma table_ok_mark_delisted: "table_ok tbl \<Longrightarrow> table_ok (fst (mark_delisted now seen tbl))"
  by (auto simp: mark_delisted_def table_ok_def list_all_iff o_def)

lemma table_ok_apply_probe: "table_ok (fst acc) \<Longrightarrow> table_ok (fst (apply_probe cfg now ex pr acc))"
  by (cases acc) (simp add: apply_probe_def Let_def table_ok_upsert)

lemma table_ok_apply_probes:
  assumes "table_ok tbl"
  shows "table_ok (fst (apply_probes cfg now prs tbl))"
proof -
  have "table_ok (fst acc) \<Longrightarrow> table_ok (fst (fold (apply_probe cfg now ex) prs acc))" for acc ex
    by (induction prs arbitrary: acc) (auto simp: table_ok_apply_probe)
  with assms show ?thesis by (simp add: apply_probes_def)
qed

lemma table_ok_scan_table: "table_ok tbl \<Longrightarrow> table_ok (fst (fst (scan_table cfg now cands probe tbl)))"
  using table_ok_apply_probes [of tbl cfg now]
  by (auto simp: scan_table_def Let_def table_ok_mark_delisted split: prod.splits)
     (metis fst_conv table_ok_mark_delisted)

lemma sc_table_release_lock [simp]: "sc_table (release_lock cfg ok st) = sc_table st"
  and sc_cache_release_lock [simp]: "sc_cache (release_lock cfg ok st) = sc_cache st"
  by (simp_all add: release_lock_def)

lemma sc_table_run_scan:
  "sc_table (snd (run_scan cfg enc ver ok now dur listing probe trig st)) =
     (if LLM_BACKEND cfg = ''homeserver'' \<or> USE_REDIS cfg \<and> (\<not> ok 5 \<or> sc_lock st) \<or> \<not> ok 7 then sc_table st
      else case listing of Inl _ \<Rightarrow> sc_table st
         | Inr ids \<Rightarrow> fst (fst (scan_table cfg now (filter is_chat_candidate ids) probe (sc_table st))))"
  by (auto simp: run_scan_def Let_def split: sum.splits prod.splits)

lemma table_ok_run_scan:
  "table_ok (sc_table st) \<Longrightarrow> table_ok (sc_table (snd (run_scan cfg enc ver ok now dur listing probe trig st)))"
  by (auto simp: sc_table_run_scan table_ok_scan_table split: sum.splits)

lemma entry_available_row_ok:
  "row_ok r \<Longrightarrow> entry_available (row_to_entry r) \<Longrightarrow> cr_last_live_at r \<noteq> None"
  by (auto simp: entry_available_def row_to_entry_def row_ok_def split: if_splits)

lemma table_ok_patch:
  "table_ok (sc_table st) \<Longrightarrow> table_ok (sc_table (snd (patch_catalog_model cfg enc dumps ver ok now i p st)))"
proof -
  assume ok: "table_ok (sc_table st)"
  have "row_ok (patched_row now p row)" if "get_row (sc_table st) i = Some row" for row
    using ok get_row_Some [OF that] by (auto simp: table_ok_def list_all_iff row_ok_def patched_row_def)
  then show ?thesis
    using ok by (auto simp: patch_catalog_model_def table_ok_def Let_def intro!: list_all_set_row split: option.splits prod.splits)
qed

text \<open>
  The catalog as a machine: an event is one scan or one change by an administrator, with everything the outside
  answered, or the lock of the scan expires.
\<close>

type_synonym scan_event =
  "string \<times> (nat \<Rightarrow> bool) \<times> real \<times> int \<times> string list result \<times> (string \<Rightarrow> probe_reply \<times> int) \<times> string"

datatype catalog_event =
    ScanRun scan_event
  | PatchRun "pydict \<Rightarrow> string" string "nat \<Rightarrow> bool" real string model_patch
  | LockExpired

definition scan_step :: "config \<Rightarrow> (entry \<Rightarrow> string) \<Rightarrow> catalog_event \<Rightarrow> scan_state \<Rightarrow> scan_state" where
  "scan_step cfg enc ev st =
     (case ev of
        ScanRun (ver, ok, now, dur, listing, probe, trig) \<Rightarrow> snd (run_scan cfg enc ver ok now dur listing probe trig st)
      | PatchRun dumps ver ok now i p \<Rightarrow> snd (patch_catalog_model cfg enc dumps ver ok now i p st)
      | LockExpired \<Rightarrow> st\<lparr>sc_lock := False\<rparr>)"

definition empty_scan_state :: scan_state where
  "empty_scan_state = \<lparr>sc_table = [], sc_lock = False, sc_cache = reset_cache,
     sc_redis = \<lparr>r_ver = None, r_entries = []\<rparr>\<rparr>"

text \<open>A model that has not answered: no row and no entry of it is live or says that it ever was.\<close>

definition never_row :: "string \<Rightarrow> catalog_row \<Rightarrow> bool" where
  "never_row m r = (cr_id r = m \<longrightarrow> cr_last_live_at r = None \<and> cr_status r \<noteq> ''live'')"

definition never_state :: "string \<Rightarrow> scan_state \<Rightarrow> bool" where
  "never_state m st =
     (list_all (never_row m) (sc_table st)
      \<and> list_all (\<lambda>(k, e). k = m \<longrightarrow> e_last_live_at e = None \<and> e_status e \<noteq> ''live'') (snapshot (sc_cache st)))"

text \<open>The events in which no probe of the model is answered with status 200.\<close>

definition silent :: "string \<Rightarrow> catalog_event \<Rightarrow> bool" where
  "silent m ev =
     (case ev of
        ScanRun (ver, ok, now, dur, listing, probe, trig) \<Rightarrow> (case fst (probe m) of ProbeResponse status body \<Rightarrow> status \<noteq> 200 | _ \<Rightarrow> True)
      | _ \<Rightarrow> True)"

lemma never_upsert:
  assumes "list_all (never_row m) tbl" and "i = m \<longrightarrow> status \<noteq> ''live''"
  shows "list_all (never_row m) (upsert_scan_result now i status http lat lab seed reas tbl)"
proof (cases "get_row tbl i")
  case None
  with assms show ?thesis by (simp add: upsert_scan_result_def never_row_def new_row_def)
next
  case (Some row)
  from get_row_Some [OF this] assms have "never_row m (rescan_row now status http lat lab reas row)"
    by (auto simp: never_row_def rescan_row_def list_all_iff)
  with assms Some show ?thesis by (auto simp: upsert_scan_result_def intro: list_all_set_row)
qed

lemma never_apply_probe:
  assumes "list_all (never_row m) (fst acc)" and "pr_id pr = m \<longrightarrow> effective_status ex pr \<noteq> ''live''"
  shows "list_all (never_row m) (fst (apply_probe cfg now ex pr acc))"
  using assms by (cases acc) (auto simp: apply_probe_def Let_def intro!: never_upsert)

lemma never_scan_table:
  assumes "list_all (never_row m) tbl" and "case fst (probe m) of ProbeResponse status body \<Rightarrow> status \<noteq> 200 | _ \<Rightarrow> True"
  shows "list_all (never_row m) (fst (fst (scan_table cfg now cands probe tbl)))"
proof -
  let ?ex = "map (\<lambda>r. (cr_id r, cr_status r)) (list_rows tbl)"
  have known: "dget ?ex m = Some st \<Longrightarrow> st \<noteq> ''live''" for st
    using assms(1) by (fastforce simp: dget_def list_rows_def list_all_iff never_row_def dest!: map_of_SomeD)
  have quiet: "pr_id pr = m \<longrightarrow> effective_status ?ex pr \<noteq> ''live''"
    if "pr \<in> set (map (\<lambda>m. probe_one m (fst (probe m)) (snd (probe m))) cands)" for pr
    using that assms(2) known
    by (auto simp: effective_status_def probe_one_def keep_prior_status_def split: probe_reply.splits option.splits if_splits)
  have run: "list_all (never_row m) (fst (fold (apply_probe cfg now ?ex) prs acc))"
    if "list_all (never_row m) (fst acc)" "\<forall>pr \<in> set prs. pr_id pr = m \<longrightarrow> effective_status ?ex pr \<noteq> ''live''" for prs acc
    using that
  proof (induction prs arbitrary: acc)
    case (Cons pr prs)
    have "list_all (never_row m) (fst (apply_probe cfg now ?ex pr acc))" using Cons.prems by (intro never_apply_probe) simp_all
    from Cons.IH [OF this] Cons.prems(2) show ?case by simp
  qed simp
  have "list_all (never_row m) (fst (apply_probes cfg now (map (\<lambda>m. probe_one m (fst (probe m)) (snd (probe m))) cands) tbl))"
    unfolding apply_probes_def using assms(1) quiet by (intro run) auto
  then show ?thesis
    by (auto simp: scan_table_def Let_def mark_delisted_def list_all_iff never_row_def delist_row_def split: prod.splits)
qed

lemma dupdate_set_subset: "set (dupdate d e) \<subseteq> set d \<union> set e"
proof (induction e arbitrary: d)
  case Nil
  then show ?case by (simp add: dupdate_def)
next
  case (Cons p e)
  obtain k v where p: "p = (k, v)" by (cases p)
  have "dupdate d (p # e) = dupdate (dset d k v) e" by (simp add: dupdate_def p)
  moreover have "set (dset d k v) \<subseteq> insert (k, v) (set d)"
    unfolding dset_def by (induction d) auto
  ultimately show ?case using Cons.IH [of "dset d k v"] by (auto simp: p)
qed

lemma snapshot_publish:
  "snapshot (fst (publish cfg enc ver ok None (reload_reply ok tbl) (c, r))) =
     (if ok 6 then dupdate [] (map (\<lambda>r. (cr_id r, row_to_entry r)) (list_rows tbl)) else snapshot c)"
  by (simp add: publish_def reload_reply_def reload_from_db_def replace_snapshot_def Let_def)

lemma never_publish:
  assumes "never_state m st" and "list_all (never_row m) tbl"
    and "publish cfg enc ver ok None (reload_reply ok tbl) (sc_cache st, sc_redis st) = (c, r)"
  shows "never_state m (st'\<lparr>sc_table := tbl, sc_cache := c, sc_redis := r\<rparr>)"
proof (cases "ok 6")
  case True
  then have snap: "snapshot c = dupdate [] (map (\<lambda>r. (cr_id r, row_to_entry r)) (list_rows tbl))"
    using snapshot_publish [of cfg enc ver ok tbl "sc_cache st" "sc_redis st"] assms(3) by simp
  have "set (snapshot c) \<subseteq> (\<lambda>r. (cr_id r, row_to_entry r)) ` set tbl"
    unfolding snap using dupdate_set_subset [of "[]"] by (fastforce simp: list_rows_def)
  then show ?thesis
    using assms(2) by (fastforce simp: never_state_def list_all_iff never_row_def row_to_entry_def)
next
  case False
  then have "snapshot c = snapshot (sc_cache st)"
    using snapshot_publish [of cfg enc ver ok tbl "sc_cache st" "sc_redis st"] assms(3) by simp
  with assms(1,2) show ?thesis by (simp add: never_state_def)
qed

lemma never_release_lock [simp]: "never_state m (release_lock cfg ok st) = never_state m st"
  by (simp add: never_state_def)

lemma never_step:
  assumes "never_state m st" and "silent m ev"
  shows "never_state m (scan_step cfg enc ev st)"
proof (cases ev)
  case (ScanRun x)
  obtain ver ok now dur listing probe trig where x: "x = (ver, ok, now, dur, listing, probe, trig)" by (cases x)
  have quiet: "case fst (probe m) of ProbeResponse status body \<Rightarrow> status \<noteq> 200 | _ \<Rightarrow> True"
    using assms(2) by (simp add: ScanRun x silent_def)
  have rows: "list_all (never_row m) (sc_table st)" using assms(1) by (simp add: never_state_def)
  have locked: "never_state m (st\<lparr>sc_lock := b\<rparr>)" for b using assms(1) by (simp add: never_state_def)
  have "never_state m (snd (run_scan cfg enc ver ok now dur listing probe trig st))"
  proof (cases listing)
    case (Inl e)
    then show ?thesis using assms(1) locked by (simp add: run_scan_def Let_def)
  next
    case (Inr ids)
    obtain tbl delisted summary where t: "scan_table cfg now (filter is_chat_candidate ids) probe (sc_table st) = ((tbl, delisted), summary)"
      by (metis prod.exhaust)
    obtain c r where p: "publish cfg enc ver ok None (reload_reply ok tbl) (sc_cache st, sc_redis st) = (c, r)" by fastforce
    from never_scan_table [where m = m and probe = probe, OF rows quiet] t have "list_all (never_row m) tbl" by (metis fst_conv)
    from never_publish [OF assms(1) this p] show ?thesis
      using assms(1) locked by (simp add: run_scan_def Let_def Inr t p)
  qed
  then show ?thesis by (simp add: scan_step_def ScanRun x)
next
  case (PatchRun dumps ver ok now i p)
  have "list_all (never_row m) (set_row (sc_table st) (patched_row now p row))" if "get_row (sc_table st) i = Some row" for row
    using assms(1) get_row_Some [OF that]
    by (intro list_all_set_row) (auto simp: never_state_def list_all_iff never_row_def patched_row_def)
  then have "never_state m (snd (patch_catalog_model cfg enc dumps ver ok now i p st))"
    using assms(1) never_publish [OF assms(1)]
    by (auto simp: patch_catalog_model_def Let_def split: option.splits prod.splits)
  then show ?thesis by (simp add: scan_step_def PatchRun)
next
  case LockExpired
  with assms(1) show ?thesis by (simp add: scan_step_def never_state_def)
qed

interpretation scan: guarded_machine "scan_step cfg enc" "\<lambda>st. table_ok (sc_table st)" empty_scan_state
  for cfg enc
proof unfold_locales
  show "table_ok (sc_table empty_scan_state)"
    by (simp add: empty_scan_state_def table_ok_def)
next
  fix st :: scan_state and ev
  assume "table_ok (sc_table st)"
  then show "table_ok (sc_table (scan_step cfg enc ev st))"
    by (auto simp: scan_step_def table_ok_run_scan table_ok_patch split: catalog_event.splits prod.splits)
qed

text \<open>The same machine, run only on events in which the model does not answer.\<close>

interpretation mute: guarded_machine "\<lambda>ev st. if silent m ev then scan_step cfg enc ev st else st" "never_state m" empty_scan_state
  for m cfg enc
  by unfold_locales (simp_all add: never_step, simp add: never_state_def empty_scan_state_def reset_cache_def)

text \<open>
  C21. A model that never answered is never offered. Along every history of scans, changes by administrators and
  expiries of the lock, from the empty catalog on, in which no scan gets status 200 from its probe of a model (but failed listings,
  time-outs, rate limits, other errors, delistings and failing commits in any order), the model is not available: neither to the worker that
  runs the scans, nor to one that reads the table, however it is marked there.
\<close>

theorem never_live_never_available:
  assumes "list_all (silent m) evs"
  shows "\<not> is_available (sc_cache (fold (scan_step cfg enc) evs empty_scan_state)) m
    \<and> (\<forall>r on. r \<in> set (sc_table (fold (scan_step cfg enc) evs empty_scan_state)) \<and> cr_id r = m
          \<longrightarrow> \<not> entry_available (row_to_entry (r\<lparr>cr_enabled := on\<rparr>)))"
proof -
  let ?st = "fold (scan_step cfg enc) evs empty_scan_state"
  have "fold (\<lambda>ev st. if silent m ev then scan_step cfg enc ev st else st) evs s = fold (scan_step cfg enc) evs s" for s
    using assms by (induction evs arbitrary: s) auto
  then have "never_state m ?st" using mute.inv_reach [of m cfg enc evs] by simp
  then show ?thesis
    by (auto simp: never_state_def list_all_iff never_row_def is_available_def dget_def entry_available_def row_to_entry_def
      split: option.splits dest!: map_of_SomeD)
qed

text \<open>Two concrete scans, for the witnesses: a first sight that times out, and a live one.\<close>

definition sample_probe :: "(string \<times> probe_reply) list \<Rightarrow> string \<Rightarrow> probe_reply \<times> int" where
  "sample_probe replies m = (case dget replies m of None \<Rightarrow> (ProbeException, 5) | Some r \<Rightarrow> (r, 5))"

definition sample_scan :: "real \<Rightarrow> string list \<Rightarrow> (string \<times> probe_reply) list \<Rightarrow> scan_event" where
  "sample_scan now ids replies =
     (''v1'', (\<lambda>_. True), now, 7, Inr ids, sample_probe replies, ''cron'')"

theorem never_live_never_available_witness:
  "let st = fold (scan_step default_config e_id)
              [ScanRun (sample_scan 10 [''a/x''] [(''a/x'', ProbeTimeout)]), LockExpired,
               ScanRun (sample_scan 20 [''a/x''] [(''a/x'', ProbeResponse 429 None)])] empty_scan_state
   in map (\<lambda>r. (cr_id r, cr_status r)) (sc_table st) = [(''a/x'', ''timeout'')] \<and> \<not> is_available (sc_cache st) ''a/x''"
proof -
  let ?evs = "[ScanRun (sample_scan 10 [''a/x''] [(''a/x'', ProbeTimeout)]), LockExpired,
               ScanRun (sample_scan 20 [''a/x''] [(''a/x'', ProbeResponse 429 None)])]"
  have "list_all (silent ''a/x'') ?evs"
    by (simp add: silent_def sample_scan_def sample_probe_def dget_def)
  from never_live_never_available [OF this, of default_config e_id] have "\<not> is_available (sc_cache (fold (scan_step default_config e_id) ?evs empty_scan_state)) ''a/x''"
    by blast
  moreover have "map (\<lambda>r. (cr_id r, cr_status r)) (sc_table (fold (scan_step default_config e_id) ?evs empty_scan_state)) = [(''a/x'', ''timeout'')]"
    by code_simp
  ultimately show ?thesis by (simp only: Let_def) blast
qed

section \<open>Rows under a scan\<close>

lemma get_row_set_row:
  "get_row (set_row tbl row) j =
     (if j = cr_id row then map_option (\<lambda>_. row) (get_row tbl j) else get_row tbl j)"
  by (induction tbl) (auto simp: set_row_def get_row_def)

lemma get_row_append: "get_row (tbl @ [row]) j =
    (case get_row tbl j of Some r \<Rightarrow> Some r | None \<Rightarrow> if cr_id row = j then Some row else None)"
  by (induction tbl) (auto simp: get_row_def)

lemma get_row_upsert:
  "get_row (upsert_scan_result now i s h l lab seed re tbl) j =
     (if j = i then Some (case get_row tbl i of
                            None \<Rightarrow> new_row now i s h l lab seed re
                          | Some r \<Rightarrow> rescan_row now s h l lab re r)
      else get_row tbl j)"
proof (cases "get_row tbl i")
  case None
  then show ?thesis
    by (auto simp: upsert_scan_result_def get_row_append new_row_def split: option.splits)
next
  case (Some r)
  then have "cr_id r = i" by (simp add: get_row_Some)
  with Some show ?thesis by (auto simp: upsert_scan_result_def get_row_set_row)
qed

lemma get_row_map: "(\<And>r. cr_id (f r) = cr_id r) \<Longrightarrow> get_row (map f tbl) j = map_option f (get_row tbl j)"
  by (induction tbl) (auto simp: get_row_def)

lemma get_row_mark_delisted:
  "get_row (fst (mark_delisted now seen tbl)) j = map_option (delist_row now seen) (get_row tbl j)"
  by (simp add: mark_delisted_def get_row_map)

lemma existing_status: "table_ok tbl \<Longrightarrow>
    dget (map (\<lambda>r. (cr_id r, cr_status r)) (list_rows tbl)) i = map_option cr_status (get_row tbl i)"
proof -
  assume "table_ok tbl"
  then have d: "distinct (map cr_id (list_rows tbl))"
    by (simp add: list_rows_def table_ok_def)
  let ?al = "map (\<lambda>r. (cr_id r, cr_status r)) (list_rows tbl)"
  have keys: "map fst ?al = map cr_id (list_rows tbl)" by (simp add: o_def)
  show ?thesis
  proof (cases "get_row tbl i")
    case None
    then have "i \<notin> fst ` set ?al" by (auto simp: get_row_None list_rows_def)
    with None show ?thesis by (simp add: dget_def map_of_eq_None_iff)
  next
    case (Some r)
    then have "(i, cr_status r) \<in> set ?al" using get_row_Some [OF Some] by (auto simp: list_rows_def)
    with d have "map_of ?al i = Some (cr_status r)"
      by (intro map_of_is_SomeI) (simp_all only: keys)
    with Some show ?thesis by (simp add: dget_def)
  qed
qed

text \<open>What an administrator sets on a row.\<close>

definition admin_choice :: "catalog_row \<Rightarrow> bool \<times> real option \<times> real option \<times> int option \<times> pydict option \<times> int option" where
  "admin_choice r = (cr_enabled r, cr_price_in r, cr_price_out r, cr_context_window r,
                     cr_request_extras r, cr_min_max_tokens r)"

lemma admin_choice_rescan_row [simp]: "admin_choice (rescan_row now s h l lab re r) = admin_choice r"
  by (simp add: admin_choice_def rescan_row_def)

lemma admin_choice_delist_row [simp]: "admin_choice (delist_row now seen r) = admin_choice r"
  by (simp add: admin_choice_def delist_row_def)

lemma apply_probe_keeps:
  "get_row (fst acc) i = Some r \<Longrightarrow>
   \<exists>r'. get_row (fst (apply_probe cfg now ex pr acc)) i = Some r' \<and> admin_choice r' = admin_choice r"
  by (cases acc) (auto simp: apply_probe_def Let_def get_row_upsert)

lemma fold_apply_probe_keeps:
  "get_row (fst acc) i = Some r \<Longrightarrow>
   \<exists>r'. get_row (fst (fold (apply_probe cfg now ex) prs acc)) i = Some r' \<and> admin_choice r' = admin_choice r"
proof (induction prs arbitrary: acc r)
  case Nil
  then show ?case by simp
next
  case (Cons pr prs)
  from apply_probe_keeps [OF Cons.prems] obtain r' where
    "get_row (fst (apply_probe cfg now ex pr acc)) i = Some r'" and "admin_choice r' = admin_choice r"
    by blast
  with Cons.IH [of "apply_probe cfg now ex pr acc" r'] show ?case by auto
qed

lemma scan_table_keeps:
  assumes "get_row tbl i = Some r"
  shows "\<exists>r'. get_row (fst (fst (scan_table cfg now cands probe tbl))) i = Some r' \<and> admin_choice r' = admin_choice r"
proof -
  let ?prs = "map (\<lambda>m. probe_one m (fst (probe m)) (snd (probe m))) cands"
  have "get_row (fst (tbl, [])) i = Some r" using assms by simp
  from fold_apply_probe_keeps [OF this] obtain r' where
    "get_row (fst (apply_probes cfg now ?prs tbl)) i = Some r'" and "admin_choice r' = admin_choice r"
    unfolding apply_probes_def by blast
  then show ?thesis
    by (auto simp: scan_table_def Let_def get_row_mark_delisted split: prod.splits)
qed

text \<open>
  A scan never touches what the administrator set: the enabled flag, the prices, the
  context window, the request extras and the token floor of a known model are the same after
  any scan, whatever the probes answered.
\<close>

theorem scan_keeps_admin_choice:
  assumes "get_row (sc_table st) i = Some r"
  shows "\<exists>r'. get_row (sc_table (snd (run_scan cfg enc ver ok now dur listing probe trig st))) i = Some r'
              \<and> admin_choice r' = admin_choice r"
  using assms by (auto simp: sc_table_run_scan scan_table_keeps split: sum.splits)

text \<open>
  A rate-limited probe is not neutral. The scanner means a 429 to leave the row's status as
  it is, because it says nothing about the model; but the kept status goes through the same
  update as a real probe, which adds one to the failure count of every non-live status. A model
  that timed out once and is still offered is dropped by a following 429.
\<close>

theorem rate_limited_probe_drops_model:
  assumes "table_ok tbl" and "get_row tbl i = Some r"
    and "cr_enabled r" and "cr_status r = ''timeout''" and "cr_fail_count r = 1"
    and "cr_last_live_at r = Some t"
  shows "entry_available (row_to_entry r) \<and>
    (\<exists>r'. get_row (fst (fst (scan_table cfg now [i] (\<lambda>_. (ProbeResponse 429 body, lat)) tbl))) i = Some r'
          \<and> cr_status r' = ''timeout'' \<and> \<not> entry_available (row_to_entry r'))"
proof (rule conjI)
  show "entry_available (row_to_entry r)"
    using assms by (simp add: entry_available_def row_to_entry_def)
next
  let ?pr = "probe_one i (ProbeResponse 429 body) lat"
  have st: "effective_status (map (\<lambda>r. (cr_id r, cr_status r)) (list_rows tbl)) ?pr = ''timeout''"
    using assms by (simp add: effective_status_def existing_status probe_one_def keep_prior_status_def)
  have "get_row (fst (fst (scan_table cfg now [i] (\<lambda>_. (ProbeResponse 429 body, lat)) tbl))) i =
    Some (rescan_row now ''timeout'' (Some 429) (Some lat) (Some (derive_label i)) None r)"
    using assms(2) st
    by (simp add: scan_table_def apply_probes_def apply_probe_def Let_def get_row_mark_delisted
        get_row_upsert probe_one_def delist_row_def get_row_Some [OF assms(2)])
  then show "\<exists>r'. get_row (fst (fst (scan_table cfg now [i] (\<lambda>_. (ProbeResponse 429 body, lat)) tbl))) i = Some r'
              \<and> cr_status r' = ''timeout'' \<and> \<not> entry_available (row_to_entry r')"
    using assms by (simp add: rescan_row_def row_to_entry_def entry_available_def)
qed

definition sample_row :: "string \<Rightarrow> string \<Rightarrow> int \<Rightarrow> catalog_row" where
  "sample_row i status fails =
     (new_row 1 i status None None None True None)\<lparr>cr_fail_count := fails, cr_last_live_at := Some 1\<rparr>"

definition sample_state :: "catalog_row list \<Rightarrow> scan_state" where
  "sample_state rows = empty_scan_state\<lparr>sc_table := rows\<rparr>"

lemma get_row_sample: "get_row (sc_table (sample_state [sample_row i s n])) i = Some (sample_row i s n)"
  by (simp add: sample_state_def get_row_def sample_row_def new_row_def)

lemma table_ok_sample: "table_ok [sample_row i s n]"
  by (simp add: table_ok_def row_ok_def sample_row_def)

theorem scan_keeps_admin_choice_witness:
  "\<exists>r'. get_row (sc_table (snd (run_scan default_config e_id ''v'' (\<lambda>_. True) 5 1 (Inr [])
            (sample_probe []) ''cron'' (sample_state [sample_row ''a/x'' ''live'' 0])))) ''a/x'' = Some r'
        \<and> admin_choice r' = admin_choice (sample_row ''a/x'' ''live'' 0)"
  by (rule scan_keeps_admin_choice [OF get_row_sample])

theorem rate_limited_probe_drops_model_witness:
  "\<exists>r'. get_row (fst (fst (scan_table default_config 9 [''a/x'']
            (\<lambda>_. (ProbeResponse 429 None, 3)) [sample_row ''a/x'' ''timeout'' 1]))) ''a/x'' = Some r'
        \<and> cr_status r' = ''timeout'' \<and> \<not> entry_available (row_to_entry r')"
proof -
  let ?r = "sample_row ''a/x'' ''timeout'' 1"
  have "get_row [?r] ''a/x'' = Some ?r"
    using get_row_sample [of "''a/x''"] by (simp add: sample_state_def)
  moreover have "cr_enabled ?r" "cr_status ?r = ''timeout''" "cr_fail_count ?r = 1" "cr_last_live_at ?r = Some 1"
    by (simp_all add: sample_row_def new_row_def)
  ultimately show ?thesis
    using rate_limited_probe_drops_model [OF table_ok_sample] by blast
qed

section \<open>An empty listing\<close>

lemma delist_all: "cr_status (delist_row now {} r) = ''delisted''"
  by (simp add: delist_row_def)

lemma not_available_delisted: "cr_status r = ''delisted'' \<Longrightarrow> \<not> entry_available (row_to_entry r)"
  by (simp add: entry_available_def row_to_entry_def)

text \<open>
  A listing without chat models delists the whole catalog. \<^verbatim>\<open>_list_models\<close> returns the
  empty list when the HTTP client is not initialised, and the scan then treats every known
  model as delisted: afterwards this worker offers no catalog model at all.
\<close>

theorem empty_listing_empties_catalog:
  assumes "LLM_BACKEND cfg \<noteq> ''homeserver''" and "\<not> (USE_REDIS cfg \<and> sc_lock st)"
    and "filter is_chat_candidate ids = []" and "ok 5" and "ok 6" and "ok 7"
  shows "(\<forall>r \<in> set (sc_table (snd (run_scan cfg enc ver ok now dur (Inr ids) probe trig st))).
            cr_status r = ''delisted'')
       \<and> available_ids (sc_cache (snd (run_scan cfg enc ver ok now dur (Inr ids) probe trig st))) = []"
proof -
  let ?res = "snd (run_scan cfg enc ver ok now dur (Inr ids) probe trig st)"
  let ?tbl = "map (delist_row now {}) (sc_table st)"
  have tbl: "sc_table ?res = ?tbl"
    using assms by (auto simp: sc_table_run_scan scan_table_def apply_probes_def mark_delisted_def)
  have snap: "snapshot (sc_cache ?res) = dupdate [] (map (\<lambda>r. (cr_id r, row_to_entry r)) (list_rows ?tbl))"
    using assms snapshot_publish [of cfg enc ver ok ?tbl "sc_cache st" "sc_redis st"]
    by (auto simp: run_scan_def scan_table_def apply_probes_def mark_delisted_def Let_def split: prod.splits)
  have "\<not> entry_available e" if "(k, e) \<in> set (snapshot (sc_cache ?res))" for k e
  proof -
    from that have "(k, e) \<in> set (map (\<lambda>r. (cr_id r, row_to_entry r)) (list_rows ?tbl))"
      unfolding snap using dupdate_set_subset by fastforce
    then show ?thesis by (auto simp: list_rows_def delist_all not_available_delisted)
  qed
  then have "available_ids (sc_cache ?res) = []"
    by (auto simp: available_ids_def filter_empty_conv)
  with tbl show ?thesis by (simp add: delist_all)
qed

theorem empty_listing_empties_catalog_witness:
  "available_ids (sc_cache (snd (run_scan default_config e_id ''v'' (\<lambda>_. True) 5 1 (Inr [])
      (sample_probe []) ''cron'' (sample_state [sample_row ''a/x'' ''live'' 0])))) = []"
proof -
  have "LLM_BACKEND default_config \<noteq> ''homeserver''" "\<not> USE_REDIS default_config"
    by (simp_all add: default_config_def)
  then show ?thesis
    using empty_listing_empties_catalog [of default_config _ "[]" "\<lambda>_. True"] by (simp only: list.simps filter.simps) blast
qed

section \<open>Resolution\<close>

definition servable :: "config \<Rightarrow> catalog_cache \<Rightarrow> string \<Rightarrow> bool" where
  "servable cfg c m = (m \<in> snd ` set (MODELS cfg) \<or> is_available c m)"

lemma resolve_model_servable: "resolve_model cfg c n = Some m \<Longrightarrow> servable cfg c m"
  by (auto simp: resolve_model_def servable_def dget_def split: option.splits if_splits
      dest!: map_of_SomeD intro: rev_image_eqI)

lemma resolve_model_nonempty:
  assumes "[] \<notin> snd ` set (MODELS cfg)" and "resolve_model cfg c n = Some m"
  shows "m \<noteq> []"
  using assms
  by (auto simp: resolve_model_def dget_def split: option.splits if_splits
      dest!: map_of_SomeD intro: rev_image_eqI)

text \<open>
  A turn is only ever sent to a model that can serve it: what the per-request override and
  the conversation's lock resolve to is one of the role models or a catalog model that is
  available now. The lock is reported unavailable exactly when it is set, the override does not
  resolve and it does not resolve itself; then the turn is routed automatically.
\<close>

theorem effective_model_servable:
  assumes "[] \<notin> snd ` set (MODELS cfg)"
    and "resolve_effective_model cfg c ov lock = (m, unavailable)"
  shows "(\<forall>x. m = Some x \<longrightarrow> servable cfg c x)
       \<and> (unavailable \<longleftrightarrow> strip (case lock of None \<Rightarrow> [] | Some l \<Rightarrow> l) \<noteq> []
              \<and> resolve_model cfg c ov = None
              \<and> resolve_model cfg c (Some (strip (case lock of None \<Rightarrow> [] | Some l \<Rightarrow> l))) = None)
       \<and> (unavailable \<longrightarrow> m = None)"
proof -
  have ne: "set_and_nonempty (resolve_model cfg c ov) \<longleftrightarrow> resolve_model cfg c ov \<noteq> None"
    using resolve_model_nonempty [OF assms(1), of c ov]
    by (auto simp: set_and_nonempty_def split: option.splits)
  then show ?thesis
    using assms(2) resolve_model_servable [of cfg c]
    by (auto simp: resolve_effective_model_def Let_def split: if_splits)
qed

theorem effective_model_servable_witness:
  "servable default_config reset_cache ''nvidia/nemotron-3-super-120b-a12b''"
proof -
  have ne: "[] \<notin> snd ` set (MODELS default_config)" by (simp add: default_config_def)
  have "resolve_effective_model default_config reset_cache None (Some '' reasoning '') =
    (Some ''nvidia/nemotron-3-super-120b-a12b'', False)" by code_simp
  from effective_model_servable [OF ne this] show ?thesis by simp
qed

section \<open>Handing the snapshot to the other workers\<close>

lemma dget_hset_all:
  "distinct (map fst es) \<Longrightarrow>
   dget (hset_all enc es h) k = (case dget es k of None \<Rightarrow> dget h k | Some e \<Rightarrow> Some (enc e))"
proof (cases "dget es k")
  case None
  then have "k \<notin> fst ` set (map (\<lambda>(k, e). (k, enc e)) es)"
    by (auto simp: dget_def map_of_eq_None_iff image_iff)
  then show ?thesis using None by (simp add: hset_all_def dget_dupdate_absent)
next
  case (Some e)
  assume d: "distinct (map fst es)"
  have "map fst (map (\<lambda>(k, e). (k, enc e)) es) = map fst es" by (induction es) auto
  with d have "distinct (map fst (map (\<lambda>(k, e). (k, enc e)) es))" by (simp only:)
  moreover from Some have "dget (map (\<lambda>(k, e). (k, enc e)) es) k = Some (enc e)"
    unfolding dget_def by (simp add: map_of_map)
  ultimately show ?thesis using Some unfolding hset_all_def by (simp only: dget_dupdate_present) simp
qed

lemma dget_filter_keys:
  "dget (filter (\<lambda>(k, _). k \<in> S) h) k = (if k \<in> S then dget h k else None)"
  by (induction h) (auto simp: dget_def)

lemma dget_hdel_stale:
  "dget (hdel_stale es h) k = (if k \<in> fst ` set es then dget h k else None)"
  unfolding hdel_stale_def by (rule dget_filter_keys)

lemma distinct_keys_dupdate: "distinct (map fst d) \<Longrightarrow> distinct (map fst (dupdate d e))"
proof (induction e arbitrary: d)
  case Nil
  then show ?case by (simp add: dupdate_def)
next
  case (Cons p e)
  obtain k v where p: "p = (k, v)" by (cases p)
  have "dupdate d (p # e) = dupdate (dset d k v) e" by (simp add: dupdate_def p)
  with Cons show ?case by (simp only: distinct_keys_dset)
qed

lemma dget_rebuild: "distinct (map fst es) \<Longrightarrow> dget (dupdate [] es) k = dget es k"
proof (cases "dget es k")
  case None
  then have "k \<notin> fst ` set es" by (simp add: dget_def map_of_eq_None_iff)
  with None show ?thesis by (simp add: dget_dupdate_absent)
next
  case (Some v)
  assume "distinct (map fst es)"
  with Some show ?thesis by (simp only: dget_dupdate_present)
qed

lemma decode_all_dget:
  assumes "\<forall>v \<in> snd ` set h. dec v \<noteq> None"
  shows "\<exists>es. decode_all dec h = Some es \<and> map fst es = map fst h \<and>
              (\<forall>k. dget es k = Option.bind (dget h k) dec)"
  using assms
proof (induction h)
  case Nil
  then show ?case by simp
next
  case (Cons p h)
  obtain k v where p: "p = (k, v)" by (cases p)
  with Cons.prems obtain e where e: "dec v = Some e" by auto
  have "\<forall>v \<in> snd ` set h. dec v \<noteq> None" using Cons.prems by simp
  from Cons.IH [OF this] obtain es where "decode_all dec h = Some es" and "map fst es = map fst h"
    and "\<forall>k. dget es k = Option.bind (dget h k) dec" by auto
  then show ?case by (auto simp: p e dget_def)
qed

text \<open>
  The hash after a publication: exactly the published entries, encoded. Here \<open>h\<close> is what the
  hash held before, its fields distinct.
\<close>

definition published_hash :: "(entry \<Rightarrow> string) \<Rightarrow> (string \<times> entry) list \<Rightarrow> (string \<times> string) list \<Rightarrow>
    (string \<times> string) list" where
  "published_hash enc es h =
     (let h1 = hset_all enc es h in
      if filter (\<lambda>(k, _). k \<notin> fst ` set es) h1 \<noteq> [] then hdel_stale es h1 else h1)"

lemma dget_published_hash:
  assumes "distinct (map fst es)"
  shows "dget (published_hash enc es h) k = map_option enc (dget es k)"
proof -
  let ?h1 = "hset_all enc es h"
  have pub: "dget ?h1 k = map_option enc (dget es k)" if "k \<in> fst ` set es"
  proof -
    from that obtain e where "dget es k = Some e"
      by (metis dget_def map_of_eq_None_iff option.exhaust)
    then show ?thesis using dget_hset_all [OF assms, of enc h k] by simp
  qed
  have none: "dget es k = None" if "k \<notin> fst ` set es"
    using that by (simp add: dget_def map_of_eq_None_iff)
  show ?thesis
  proof (cases "filter (\<lambda>(k, _). k \<notin> fst ` set es) ?h1 = []")
    case True
    have "dget ?h1 k = None" if "k \<notin> fst ` set es"
    proof -
      from True have "\<forall>p \<in> set ?h1. fst p \<in> fst ` set es"
        by (auto simp: filter_empty_conv)
      with that have "k \<notin> fst ` set ?h1" by auto
      then show ?thesis by (simp add: dget_def map_of_eq_None_iff)
    qed
    with True pub none show ?thesis
      by (cases "k \<in> fst ` set es") (simp_all add: published_hash_def Let_def)
  next
    case False
    with pub none show ?thesis by (simp add: published_hash_def Let_def dget_hdel_stale)
  qed
qed

lemma distinct_published_hash:
  assumes "distinct (map fst h)"
  shows "distinct (map fst (published_hash enc es h))"
proof -
  have "distinct (map fst (hset_all enc es h))"
    unfolding hset_all_def using assms by (rule distinct_keys_dupdate)
  then show ?thesis
    by (auto simp: published_hash_def Let_def hdel_stale_def distinct_map_filter)
qed

lemma decode_published:
  assumes codec: "\<forall>e \<in> snd ` set es. dec (enc e) = Some e"
    and es: "distinct (map fst es)" and h: "distinct (map fst h)"
  shows "\<exists>ds. decode_all dec (published_hash enc es h) = Some ds \<and>
              (\<forall>k. dget (dupdate [] ds) k = dget es k)"
proof -
  let ?p = "published_hash enc es h"
  have dp: "distinct (map fst ?p)" using h by (rule distinct_published_hash)
  have look: "dget ?p k = map_option enc (dget es k)" for k
    using es by (rule dget_published_hash)
  have codec': "dec (enc e) = Some e" if "dget es k = Some e" for k e
    using that codec by (force simp: dget_def dest: map_of_SomeD)
  have "dec v \<noteq> None" if "(k, v) \<in> set ?p" for k v
  proof -
    from that dp have "dget ?p k = Some v" by (simp add: dget_def)
    then show ?thesis using look [of k] codec' [of k] by auto
  qed
  then have "\<forall>v \<in> snd ` set ?p. dec v \<noteq> None" by auto
  then obtain ds where
    ds: "decode_all dec ?p = Some ds" "map fst ds = map fst ?p" "\<forall>k. dget ds k = Option.bind (dget ?p k) dec"
    using decode_all_dget [of ?p dec] by blast
  have "dget (dupdate [] ds) k = dget es k" for k
  proof -
    from ds(2) dp have "distinct (map fst ds)" by (simp only:)
    then have "dget (dupdate [] ds) k = dget ds k" by (rule dget_rebuild)
    then show ?thesis using ds(3) look [of k] codec' [of k] by (cases "dget es k") auto
  qed
  with ds(1) show ?thesis by blast
qed

lemma publish_all_ok:
  assumes "USE_REDIS cfg" and "dupdate [] (map (\<lambda>r. (cr_id r, row_to_entry r)) rows) = es"
  shows "publish cfg enc ver (\<lambda>_. True) None (Inr rows) (c, r) =
     (c\<lparr>snapshot := es, snapshot_ver := Some ver\<rparr>,
      r\<lparr>r_entries := if es \<noteq> [] then published_hash enc es (r_entries r) else [], r_ver := Some ver\<rparr>)"
  using assms
  by (auto simp: publish_def reload_from_db_def replace_snapshot_def published_hash_def Let_def)

text \<open>
  C22. One worker's publication reaches every other worker: after it, a worker that has not yet
  seen the new version and asks again after its guard time sees, for every model, exactly the
  entry the publishing worker serves. Redis is a parameter here: its version key and hash are
  what the publication left, and the JSON codec round-trips.
\<close>

theorem publish_reaches_other_worker:
  assumes codec: "\<And>x. x \<in> set rows \<Longrightarrow> dec (enc (row_to_entry x)) = Some (row_to_entry x)"
    and "USE_REDIS cfg" and "LLM_BACKEND cfg \<noteq> ''homeserver''"
    and "distinct (map fst (r_entries r))"
    and "snapshot_ver w \<noteq> Some ver" and "15 \<le> now - last_checked_at w"
    and "publish cfg enc ver (\<lambda>_. True) None (Inr rows) (c, r) = (c', r')"
  shows "get_entry (ensure_fresh cfg dec now (Inr (r_ver r')) (Inr (r_entries r')) (Inr rows) w) m = get_entry c' m
       \<and> snapshot_ver (ensure_fresh cfg dec now (Inr (r_ver r')) (Inr (r_entries r')) (Inr rows) w) = snapshot_ver c'"
proof -
  define es where "es = dupdate [] (map (\<lambda>r. (cr_id r, row_to_entry r)) rows)"
  have c': "c' = c\<lparr>snapshot := es, snapshot_ver := Some ver\<rparr>"
    and r': "r' = r\<lparr>r_entries := if es \<noteq> [] then published_hash enc es (r_entries r) else [], r_ver := Some ver\<rparr>"
    using assms(7) publish_all_ok [OF assms(2), of rows es enc ver c r] by (simp_all add: es_def)
  have des: "distinct (map fst es)" unfolding es_def by (rule distinct_keys_dupdate) simp
  have codec': "\<forall>e \<in> snd ` set es. dec (enc e) = Some e"
    using codec dupdate_set_subset [of "[]" "map (\<lambda>r. (cr_id r, row_to_entry r)) rows"]
    by (force simp: es_def)
  show ?thesis
  proof (cases "es = []")
    case True
    then show ?thesis using assms(2-6)
      by (simp add: c' r' ensure_fresh_def refresh_guard_seconds_def Let_def get_entry_def
          reload_from_db_def replace_snapshot_def es_def [symmetric])
  next
    case False
    from decode_published [of es dec enc, OF codec' des assms(4)] obtain ds where
      ds: "decode_all dec (published_hash enc es (r_entries r)) = Some ds"
      "\<forall>k. dget (dupdate [] ds) k = dget es k" by blast
    from False have "published_hash enc es (r_entries r) \<noteq> []"
    proof -
      from False obtain k e where "(k, e) \<in> set es" by (cases es) auto
      with des have "dget es k = Some e" by (simp add: dget_def)
      then have "dget (published_hash enc es (r_entries r)) k \<noteq> None"
        by (simp add: dget_published_hash [OF des])
      then show ?thesis by auto
    qed
    then obtain q qs where "published_hash enc es (r_entries r) = q # qs" by (meson neq_Nil_conv)
    with ds False assms(2-6) show ?thesis
      by (simp add: c' r' ensure_fresh_def refresh_guard_seconds_def Let_def get_entry_def replace_snapshot_def)
  qed
qed

theorem publish_reaches_other_worker_witness:
  "let r0 = sample_row ''a/x'' ''live'' 0; cfg = default_config\<lparr>USE_REDIS := True\<rparr>;
       (c', r') = publish cfg e_id ''v2'' (\<lambda>_. True) None (Inr [r0]) (reset_cache, \<lparr>r_ver = None, r_entries = []\<rparr>)
   in get_entry (ensure_fresh cfg (\<lambda>_. Some (row_to_entry r0)) 20 (Inr (r_ver r')) (Inr (r_entries r'))
        (Inr [r0]) reset_cache) ''a/x'' = get_entry c' ''a/x''"
proof -
  let ?r0 = "sample_row ''a/x'' ''live'' 0" and ?cfg = "default_config\<lparr>USE_REDIS := True\<rparr>"
  have "\<And>x. x \<in> set [?r0] \<Longrightarrow> (\<lambda>_. Some (row_to_entry ?r0)) (e_id (row_to_entry x)) = Some (row_to_entry x)"
    by simp
  moreover have "USE_REDIS ?cfg" "LLM_BACKEND ?cfg \<noteq> ''homeserver''" by (simp_all add: default_config_def)
  moreover have "snapshot_ver reset_cache \<noteq> Some ''v2''" "15 \<le> 20 - last_checked_at reset_cache"
    by (simp_all add: reset_cache_def)
  ultimately show ?thesis
    using publish_reaches_other_worker [where rows = "[?r0]" and dec = "\<lambda>_. Some (row_to_entry ?r0)"
        and enc = e_id and cfg = ?cfg and r = "\<lparr>r_ver = None, r_entries = []\<rparr>" and w = reset_cache
        and ver = "''v2''" and now = 20 and c = reset_cache and m = "''a/x''"]
    by (auto simp: Let_def split: prod.splits)
qed

end
