(* ===== verification/Intent_Router.thy ===== *)
theory Intent_Router
  imports Model_Catalog
begin

text \<open>
  \<^verbatim>\<open>backend/llm/router.py\<close>: the keyword classifiers that choose a model role, a retrieval
  policy and the user's intent, the one-call fallback of the intent classifier, the choice of
  the model and of its context limit. The model call of the fallback is an argument
  (\<open>ask\<close>); it may raise.
\<close>

section \<open>Lexicons\<close>

definition intent_task :: "string list" where
  "intent_task =
     [''create'', ''build'', ''make'', ''add'', ''update'', ''edit'', ''change'', ''modify'',
      ''delete'', ''remove'', ''fix'', ''implement'', ''write a'', ''write the'', ''generate'',
      ''run'', ''execute'', ''schedule'', ''send'', ''rename'', ''patch'', ''append'', ''refactor'',
      ''set up'', ''configure'', ''install'', ''deploy'']"

definition intent_explore :: "string list" where
  "intent_explore =
     [''show me everything'', ''what do you know'', ''tell me everything'', ''brainstorm'',
      ''explore'', ''overview'', ''options'', ''ideas'', ''possibilities'', ''alternatives'',
      ''give me some'', ''list all'', ''what are my'', ''summarize everything'']"

definition ack_tokens :: "string list" where
  "ack_tokens =
     [''ok'', ''okay'', ''thanks'', ''thankyou'', ''thank'', ''you'', ''thats'', ''that'' @ [CHR 0x27] @ ''s'',
      ''all'', ''got'', ''it'', ''cool'', ''nice'', ''bye'', ''goodbye'', ''great'', ''perfect'',
      ''sure'', ''yep'', ''man'', ''good'', ''day'']"

definition request_markers :: "string list" where
  "request_markers = [''but'', ''however'', ''actually'', ''wait'', ''instead'', ''except'', ''another'']"

definition coder_keywords :: "string list" where
  "coder_keywords =
     [''code'', ''error'', ''bug'', ''fix'', ''debug'', ''function'', ''class'', ''implement'',
      ''write a'', ''script'', ''program'', ''algorithm'', ''syntax'', ''compile'', ''refactor'',
      ''import'', ''library'', ''api'', ''sql'', ''query'', ''regex'']"

definition reasoning_keywords :: "string list" where
  "reasoning_keywords =
     [''why'', ''explain'', ''how does'', ''how do'', ''what is'', ''what are'', ''compare'',
      ''difference'', ''analyze'', ''analyse'', ''reason'', ''cause'', ''effect'', ''theory'',
      ''concept'', ''understand'', ''depth'', ''detail'']"

definition query_factual :: "string list" where
  "query_factual =
     [''what is'', ''what are'', ''define'', ''explain'', ''how to'', ''tell me about'',
      ''what does'', ''meaning'', ''definition'', ''example'', ''fact'', ''information'']"

definition query_relational :: "string list" where
  "query_relational =
     [''compare'', ''difference'', ''relation'', ''between'', ''versus'', ''vs'',
      ''similar'', ''connected'', ''related'', ''correlation'', ''link'', ''associate'']"

definition query_temporal :: "string list" where
  "query_temporal =
     [''before'', ''after'', ''when'', ''recent'', ''history'', ''timeline'', ''sequence'',
      ''order'', ''earlier'', ''previously'', ''later'', ''since'', ''during'', ''past'']"

definition query_broad :: "string list" where
  "query_broad =
     [''hello'', ''hi'', ''hey'', ''summarize'', ''overview'', ''tell me everything'',
      ''what do you know'', ''general'', ''introduce'', ''introduction'']"

section \<open>Classifiers\<close>

definition any_kw :: "string list \<Rightarrow> string \<Rightarrow> bool" where
  "any_kw kws msg = list_ex (\<lambda>kw. contains kw msg) kws"

definition is_ack :: "string \<Rightarrow> bool" where
  "is_ack message =
     (let msg = lower (strip message) in
      if msg = [] \<or> contains ''?'' msg \<or> list_ex py_isdigit msg then False
      else let tokens = filter (\<lambda>t. t \<noteq> []) (map (strip_chars ''.,!'') (split_ws msg))
           in if tokens = [] \<or> length tokens > 6 then False
              else list_all (\<lambda>t. t \<in> set ack_tokens) tokens)"

definition looks_like_request :: "string \<Rightarrow> bool" where
  "looks_like_request message =
     (let msg = lower (strip message) in
      if msg = [] then False
      else if contains ''?'' msg \<or> list_ex py_isdigit msg \<or> contains ''http'' msg then True
      else if any_kw intent_task msg then True
      else list_ex (\<lambda>t. t \<in> set request_markers) (map (strip_chars ''.,!:;'') (split_ws msg)))"

definition classify :: "string \<Rightarrow> string" where
  "classify message =
     (let msg = lower message in
      if any_kw coder_keywords msg then ''coder''
      else if any_kw reasoning_keywords msg then ''reasoning''
      else ''llama'')"

definition classify_query :: "string \<Rightarrow> string" where
  "classify_query message =
     (let msg = lower message in
      if any_kw query_relational msg then ''relational''
      else if any_kw query_temporal msg then ''temporal''
      else if any_kw query_factual msg then ''factual''
      else if any_kw query_broad msg then ''broad''
      else ''factual'')"

definition classify_intent :: "string \<Rightarrow> string" where
  "classify_intent message =
     (if is_ack message then ''closing''
      else
        let msg = lower message;
            task = any_kw intent_task msg;
            explore = any_kw intent_explore msg
        in if task \<and> \<not> explore then ''task''
           else if explore \<and> \<not> task then ''exploration''
           else if task \<and> explore then ''ambiguous''
           else [])"

definition intent_prompt :: "string \<Rightarrow> string" where
  "intent_prompt message =
     ''Classify the user'' @ [CHR 0x27] @ ''s intent as exactly one word: task, exploration, '' @
     ''question, or closing.'' @ newline @
     ''- task: wants you to perform/produce an action or artifact.'' @ newline @
     ''- exploration: wants a broad survey of a topic or open-ended ideas.'' @ newline @
     ''- question: wants a specific answer.'' @ newline @
     ''- closing: only thanks / goodbye / acknowledgment, no new request.'' @ newline @
     ''Examples:'' @ newline @
     ''Message: okay thankyou, thats all'' @ newline @ ''Intent: closing'' @ newline @
     ''Message: thanks, that'' @ [CHR 0x27] @ ''s perfect'' @ newline @ ''Intent: closing'' @ newline @
     ''Message: got it, cheers'' @ newline @ ''Intent: closing'' @ newline @
     ''Message: thanks, but the formula is wrong'' @ newline @ ''Intent: task'' @ newline @
     ''Message: ok how about arrays?'' @ newline @ ''Intent: question'' @ newline @
     ''Message: '' @ message @ newline @ ''Intent:''"

text \<open>
  The reply of the small model: \<^const>\<open>Inl\<close> is an exception, \<^term>\<open>Inr (ok, content)\<close> the two
  fields of the result the function reads. The number of calls made is part of the result.
\<close>

type_synonym ask = "string \<Rightarrow> string \<Rightarrow> (bool \<times> string option) result"

definition pick_label :: "string \<Rightarrow> string option" where
  "pick_label content =
     List.find (\<lambda>cand. contains cand (lower (strip content)))
       [''task'', ''exploration'', ''closing'', ''question'']"

definition classify_intent_hybrid :: "config \<Rightarrow> ask \<Rightarrow> string \<Rightarrow> string \<times> nat" where
  "classify_intent_hybrid cfg ask message =
     (let kw = classify_intent message in
      if kw \<in> {''closing'', ''task'', ''exploration''} then (kw, 0)
      else case dget (MODELS cfg) ''llama'' of
        None \<Rightarrow> (''question'', 0)
      | Some m \<Rightarrow>
          (case ask m (intent_prompt message) of
             Inr (True, Some content) \<Rightarrow>
               (case pick_label content of Some cand \<Rightarrow> (cand, 1) | None \<Rightarrow> (''question'', 1))
           | _ \<Rightarrow> (''question'', 1)))"

text \<open>\<^verbatim>\<open>config.MODELS["llama"]\<close> is evaluated even when the choice is present.\<close>

definition route :: "config \<Rightarrow> string \<Rightarrow> string result" where
  "route cfg message =
     (case dget (MODELS cfg) ''llama'' of
        None \<Rightarrow> Inl (KeyError ''llama'')
      | Some dflt \<Rightarrow>
          (case dget (MODELS cfg) (classify message) of Some m \<Rightarrow> Inr m | None \<Rightarrow> Inr dflt))"

definition get_context_limit :: "config \<Rightarrow> catalog_cache \<Rightarrow> string \<Rightarrow> int" where
  "get_context_limit cfg c model_name =
     (case dget (CONTEXT_WINDOWS cfg) model_name of
        Some w \<Rightarrow> w
      | None \<Rightarrow>
          (case get_entry c model_name of
             None \<Rightarrow> DEFAULT_CONTEXT_WINDOW cfg
           | Some e \<Rightarrow> (case e_context_window e of
                          None \<Rightarrow> DEFAULT_CONTEXT_WINDOW cfg
                        | Some w \<Rightarrow> if w \<noteq> 0 then w else DEFAULT_CONTEXT_WINDOW cfg)))"

section \<open>Tokens and keywords\<close>

lemma split_acc_sublist:
  assumes "\<forall>c \<in> set k. \<not> py_isspace c" and "k \<noteq> []" and "sublist k (rev w @ s)"
    and "\<forall>c \<in> set w. \<not> py_isspace c"
  shows "\<exists>t \<in> set (split_acc w s). sublist k t"
  using assms
proof (induction w s rule: split_acc.induct)
  case (1 w)
  then show ?case by auto
next
  case (2 w c s)
  show ?case
  proof (cases "py_isspace c")
    case False
    with 2 show ?thesis by auto
  next
    case True
    from "2.prems"(3) have "sublist k (rev w @ [c] @ s)" by simp
    then consider "sublist k (rev w)" | "sublist k s"
      | k1 k2 where "k = k1 @ k2" "k1 \<noteq> []" "k2 \<noteq> []" "suffix k1 (rev w)" "prefix k2 (c # s)"
      | "prefix k (c # s)"
      by (fastforce simp: sublist_append sublist_Cons_right)
    then show ?thesis
    proof cases
      case 1
      moreover from this "2.prems"(2) have "w \<noteq> []" by auto
      ultimately show ?thesis using True by auto
    next
      case s: 2
      then have "\<exists>t \<in> set (split_acc [] s). sublist k t"
        using "2.IH"(1,2) True "2.prems"(1,2) by (cases "w = []") auto
      with True show ?thesis by auto
    next
      case 3
      then have "c \<in> set k" by (cases k2) auto
      with True "2.prems"(1) show ?thesis by auto
    next
      case 4
      with "2.prems"(2) have "c \<in> set k" by (cases k) auto
      with True "2.prems"(1) show ?thesis by auto
    qed
  qed
qed

lemma split_ws_sublist:
  assumes "contains k s" and "k \<noteq> []" and "\<forall>c \<in> set k. \<not> py_isspace c"
  shows "\<exists>t \<in> set (split_ws s). contains k t"
  using assms split_acc_sublist [of k "[]" s] by (simp add: split_ws_def contains_iff_sublist)

lemma dropWhile_sublist:
  assumes "sublist k t" and "k \<noteq> []" and "\<forall>c \<in> set k. \<not> P c"
  shows "sublist k (dropWhile P t)"
  using assms by (induction t) (auto simp: sublist_Cons_right prefix_Cons)

lemma strip_chars_sublist:
  assumes "contains k t" and "k \<noteq> []" and "\<forall>c \<in> set k. c \<notin> set cs"
  shows "contains k (strip_chars cs t)"
proof -
  have "sublist k (dropWhile (\<lambda>c. c \<in> set cs) t)"
    using assms by (intro dropWhile_sublist) (auto simp: contains_iff_sublist)
  then have "sublist (rev k) (rev (dropWhile (\<lambda>c. c \<in> set cs) t))" by simp
  then have "sublist (rev k) (dropWhile (\<lambda>c. c \<in> set cs) (rev (dropWhile (\<lambda>c. c \<in> set cs) t)))"
    using assms by (intro dropWhile_sublist) auto
  then have "sublist (rev (rev k)) (strip_chars cs t)"
    unfolding strip_chars_def by (simp only: sublist_rev)
  then show ?thesis by (simp add: contains_iff_sublist)
qed

lemma contains_prefix_word: "contains (u @ v) s \<Longrightarrow> contains u s"
  unfolding contains_iff_sublist by (meson sublist_append_rightI sublist_order.order_trans)

lemma any_kw_iff: "any_kw kws msg \<longleftrightarrow> (\<exists>k \<in> set kws. contains k msg)"
  by (simp add: any_kw_def list_ex_iff)

lemma contains_char: "contains [c] s \<longleftrightarrow> c \<in> set s"
  by (induction s) (auto simp: startswith_def)

text \<open>The task verbs cut at their first space: what a single token can hold of them.\<close>

definition task_stems :: "string list" where
  "task_stems =
     [''create'', ''build'', ''make'', ''add'', ''update'', ''edit'', ''change'', ''modify'',
      ''delete'', ''remove'', ''fix'', ''implement'', ''write'', ''generate'',
      ''run'', ''execute'', ''schedule'', ''send'', ''rename'', ''patch'', ''append'', ''refactor'',
      ''set'', ''configure'', ''install'', ''deploy'', ''http'']"

lemma task_keyword_stem: "any_kw intent_task msg \<Longrightarrow> any_kw task_stems msg"
proof -
  assume *: "any_kw intent_task msg"
  have w: "contains ''write'' msg" if "contains ''write a'' msg \<or> contains ''write the'' msg"
    using that contains_prefix_word [of "''write''" "'' a''" msg]
      contains_prefix_word [of "''write''" "'' the''" msg] by auto
  have u: "contains ''set'' msg" if "contains ''set up'' msg"
    using that contains_prefix_word [of "''set''" "'' up''" msg] by auto
  show ?thesis
    using * w u unfolding any_kw_iff intent_task_def task_stems_def list.set bex_simps by blast
qed

lemma stems_are_words: "list_all (\<lambda>k. k \<noteq> [] \<and> list_all (\<lambda>c. \<not> py_isspace c \<and> c \<notin> set ''.,!'') k) task_stems"
  by code_simp

lemma ack_tokens_no_stem: "list_all (\<lambda>t. \<not> any_kw task_stems t) ack_tokens"
  by code_simp

lemma ack_tokens_no_marker:
  "list_all (\<lambda>t. strip_chars ''.,!:;'' t = t \<and> t \<notin> set request_markers \<and> t \<noteq> [] \<and>
                 hd t \<notin> set ''.,!:;'' \<and> last t \<notin> set ''.,!:;'') ack_tokens"
  by code_simp

lemma dropWhile_dropWhile_mono:
  assumes "\<And>c. P c \<Longrightarrow> Q c"
  shows "dropWhile Q (dropWhile P t) = dropWhile Q t"
  using assms by (induction t) auto

lemma strip_chars_mono:
  assumes "set cs \<subseteq> set ds"
  shows "strip_chars ds (strip_chars cs t) = strip_chars ds t"
proof -
  let ?P = "\<lambda>c. c \<in> set cs" and ?Q = "\<lambda>c. c \<in> set ds"
  have l: "dropWhile ?Q (dropWhile ?P u) = dropWhile ?Q u" for u
    using assms by (intro dropWhile_dropWhile_mono) auto
  have comm: "dropWhile ?Q (rev (dropWhile ?P (rev u))) = rev (dropWhile ?P (rev (dropWhile ?Q u)))" for u
  proof (induction u)
    case Nil
    then show ?case by simp
  next
    case (Cons a u)
    show ?case
    proof (cases "\<forall>x \<in> set u. ?P x")
      case all: True
      then have d1: "dropWhile ?P (rev u @ [a]) = dropWhile ?P [a]"
        by (intro dropWhile_append2) auto
      have d2: "dropWhile ?Q u = []" using all assms by (auto simp: dropWhile_eq_Nil_conv)
      show ?thesis using all assms by (auto simp: d1 d2 dropWhile_append2)
    next
      case False
      then obtain x where "x \<in> set (rev u)" and "\<not> ?P x" by auto
      then have "dropWhile ?P (rev u @ [a]) = dropWhile ?P (rev u) @ [a]"
        by (rule dropWhile_append1)
      with Cons show ?thesis by auto
    qed
  qed
  have "strip_chars ds (strip_chars cs t) =
      rev (dropWhile ?Q (rev (dropWhile ?Q (rev (dropWhile ?P (rev (dropWhile ?P t)))))))"
    by (simp add: strip_chars_def)
  also have "\<dots> = rev (dropWhile ?Q (dropWhile ?P (rev (dropWhile ?Q (dropWhile ?P t)))))"
    by (simp add: comm)
  also have "\<dots> = strip_chars ds t" by (simp add: l strip_chars_def)
  finally show ?thesis .
qed

lemma is_ack_token:
  assumes "is_ack message" and "t \<in> set (split_ws (lower (strip message)))"
  shows "strip_chars ''.,!'' t = [] \<or> strip_chars ''.,!'' t \<in> set ack_tokens"
  using assms by (auto simp: is_ack_def Let_def list_all_iff split: if_splits)

lemma is_ack_no_stem:
  assumes "is_ack message"
  shows "\<not> any_kw task_stems (lower (strip message))"
proof
  assume "any_kw task_stems (lower (strip message))"
  then obtain k where k: "k \<in> set task_stems" "contains k (lower (strip message))"
    unfolding any_kw_iff by blast
  from k(1) stems_are_words have w: "k \<noteq> []" "\<forall>c \<in> set k. \<not> py_isspace c" "\<forall>c \<in> set k. c \<notin> set ''.,!''"
    unfolding list_all_iff by blast+
  from split_ws_sublist [OF k(2) w(1,2)] obtain t where
    t: "t \<in> set (split_ws (lower (strip message)))" "contains k t" by blast
  from t(2) w(1,3) have c: "contains k (strip_chars ''.,!'' t)" by (rule strip_chars_sublist)
  with w(1) have "strip_chars ''.,!'' t \<noteq> []" by (cases "strip_chars ''.,!'' t") auto
  with is_ack_token [OF assms t(1)] have "strip_chars ''.,!'' t \<in> set ack_tokens" by blast
  with ack_tokens_no_stem have "\<not> any_kw task_stems (strip_chars ''.,!'' t)"
    unfolding list_all_iff by blast
  with c k(1) show False unfolding any_kw_iff by blast
qed

lemma punctuation_subset: "set ''.,!'' \<subseteq> set ''.,!:;''"
  by (simp only: list.set) blast

lemma is_ack_no_marker:
  assumes "is_ack message" and "t \<in> set (split_ws (lower (strip message)))"
  shows "strip_chars ''.,!:;'' t \<notin> set request_markers"
proof -
  have eq: "strip_chars ''.,!:;'' t = strip_chars ''.,!:;'' (strip_chars ''.,!'' t)"
    by (rule strip_chars_mono [symmetric, OF punctuation_subset])
  from is_ack_token [OF assms] show ?thesis
  proof
    assume "strip_chars ''.,!'' t = []"
    then have "strip_chars ''.,!:;'' t = []" by (simp only: eq) (simp add: strip_chars_def)
    then show ?thesis by (simp add: request_markers_def)
  next
    assume "strip_chars ''.,!'' t \<in> set ack_tokens"
    with ack_tokens_no_marker have "strip_chars ''.,!:;'' (strip_chars ''.,!'' t) = strip_chars ''.,!'' t"
      "strip_chars ''.,!'' t \<notin> set request_markers" unfolding list_all_iff by blast+
    then show ?thesis by (simp only: eq) simp
  qed
qed

text \<open>
  The two tiers of the closing decision agree: a message the acknowledgement lexicon
  accepts as a pure closing turn is never one that the shared veto recognises as carrying a
  request (a question mark, a digit, a link, a task verb, a contrast marker).
\<close>

theorem ack_never_looks_like_request:
  assumes "is_ack message"
  shows "\<not> looks_like_request message"
proof -
  let ?msg = "lower (strip message)"
  have "\<not> contains ''?'' ?msg" "\<not> list_ex py_isdigit ?msg" "?msg \<noteq> []"
    using assms by (auto simp: is_ack_def Let_def split: if_splits)
  moreover have "\<not> contains ''http'' ?msg" "\<not> any_kw intent_task ?msg"
    using is_ack_no_stem [OF assms] task_keyword_stem [of ?msg]
    unfolding any_kw_iff task_stems_def list.set bex_simps by blast+
  moreover have "\<not> list_ex (\<lambda>t. t \<in> set request_markers) (map (strip_chars ''.,!:;'') (split_ws ?msg))"
    using is_ack_no_marker [OF assms] by (auto simp: list_ex_iff)
  ultimately show ?thesis by (simp add: looks_like_request_def Let_def)
qed

theorem ack_never_looks_like_request_witness:
  "is_ack ''Okay, thank you!'' \<and> \<not> looks_like_request ''Okay, thank you!''"
proof -
  have "is_ack ''Okay, thank you!''" by code_simp
  then show ?thesis using ack_never_looks_like_request by blast
qed

text \<open>
  Intent classification is total and closed: whatever the message and whatever the small
  model answers, or if calling it raises, the result is one of the four labels; at most one
  model call is made, and none for an acknowledgement.
\<close>

theorem classify_intent_hybrid_total:
  "fst (classify_intent_hybrid cfg ask message) \<in> {''closing'', ''task'', ''exploration'', ''question''}
   \<and> snd (classify_intent_hybrid cfg ask message) \<le> 1
   \<and> (is_ack message \<longrightarrow> classify_intent_hybrid cfg ask message = (''closing'', 0))"
proof -
  have lab: "c \<in> {''task'', ''exploration'', ''closing'', ''question''}" if "pick_label content = Some c" for c content
    using find_in_set [OF that [unfolded pick_label_def]] by (simp only: list.set)
  have ack: "is_ack message \<longrightarrow> classify_intent_hybrid cfg ask message = (''closing'', 0)"
    by (simp add: classify_intent_hybrid_def classify_intent_def)
  have "fst (classify_intent_hybrid cfg ask message) \<in> {''closing'', ''task'', ''exploration'', ''question''}"
    using lab by (auto simp: classify_intent_hybrid_def Let_def split: option.splits sum.splits prod.splits bool.splits)
  moreover have "snd (classify_intent_hybrid cfg ask message) \<le> 1"
    by (auto simp: classify_intent_hybrid_def Let_def split: option.splits sum.splits prod.splits bool.splits)
  ultimately show ?thesis using ack by blast
qed

theorem classify_intent_hybrid_total_witness:
  "classify_intent_hybrid default_config (\<lambda>_ _. Inl RequestError) ''thanks'' = (''closing'', 0)"
proof -
  have "is_ack ''thanks''" by code_simp
  then show ?thesis using classify_intent_hybrid_total [of default_config "\<lambda>_ _. Inl RequestError"] by blast
qed

lemma classify_role: "classify message \<in> {''llama'', ''coder'', ''reasoning''}"
  by (simp add: classify_def Let_def)

lemma route_ok:
  assumes "roles_ok cfg"
  shows "\<exists>m. route cfg message = Inr m \<and> dget (MODELS cfg) (classify message) = Some m"
  using roles_ok_lookup [OF assms, of "''llama''"] roles_ok_lookup [OF assms classify_role, of message]
  by (auto simp: route_def)

end
