(* ===== verification/Request_Extras.thy ===== *)
theory Request_Extras
  imports Model_Catalog
begin

text \<open>
  \<^verbatim>\<open>backend/llm/model_extras.py\<close>: the per-model fields merged into every outgoing request and
  the floor under an explicitly set \<^verbatim>\<open>max_tokens\<close>, catalog row first, static table second.
\<close>

definition extras_for :: "config \<Rightarrow> catalog_cache \<Rightarrow> string \<Rightarrow> pydict" where
  "extras_for cfg c model_id =
     (let static = (case dget (MODEL_REQUEST_EXTRAS cfg) model_id of Some d \<Rightarrow> d | None \<Rightarrow> [])
      in case get_entry c model_id of
           None \<Rightarrow> static
         | Some e \<Rightarrow> (case e_request_extras e of
                        None \<Rightarrow> static
                      | Some d \<Rightarrow> if d \<noteq> [] then d else static))"

definition token_floor :: "config \<Rightarrow> catalog_cache \<Rightarrow> string \<Rightarrow> int option" where
  "token_floor cfg c model_id =
     (case get_entry c model_id of
        Some e \<Rightarrow> (case e_min_max_tokens e of
                     Some n \<Rightarrow> Some n
                   | None \<Rightarrow> dget (MODEL_MIN_MAX_TOKENS cfg) model_id)
      | None \<Rightarrow> dget (MODEL_MIN_MAX_TOKENS cfg) model_id)"

text \<open>\<^verbatim>\<open>isinstance(v, int)\<close>: Python's booleans are integers too.\<close>

definition as_int :: "pyval option \<Rightarrow> int option" where
  "as_int v = (case v of Some (PInt i) \<Rightarrow> Some i | Some (PBool b) \<Rightarrow> Some (if b then 1 else 0) | _ \<Rightarrow> None)"

definition apply_request_extras :: "config \<Rightarrow> catalog_cache \<Rightarrow> string \<Rightarrow> pydict option \<Rightarrow> pydict" where
  "apply_request_extras cfg c model_id model_params =
     (let merged = dupdate (case model_params of None \<Rightarrow> [] | Some d \<Rightarrow> d) (extras_for cfg c model_id)
      in case token_floor cfg c model_id of
           None \<Rightarrow> merged
         | Some lo \<Rightarrow>
             (case as_int (dget merged ''max_tokens'') of
                Some current \<Rightarrow> if current < lo then dset merged ''max_tokens'' (PInt lo) else merged
              | None \<Rightarrow> merged))"

text \<open>
  A request can not starve its model: with a configured floor, an integer
  \<^verbatim>\<open>max_tokens\<close> that reaches the wire is at least the floor; an absent one stays absent; every
  extra of the model is in the request, except where the floor replaced \<^verbatim>\<open>max_tokens\<close>; and no
  other field of the caller changes.
\<close>

theorem request_extras_applied:
  assumes "distinct (map fst (extras_for cfg c m))"
  shows "(\<forall>lo n. token_floor cfg c m = Some lo \<longrightarrow>
            as_int (dget (apply_request_extras cfg c m params) ''max_tokens'') = Some n \<longrightarrow> lo \<le> n)
       \<and> (\<forall>k v. k \<noteq> ''max_tokens'' \<longrightarrow> dget (extras_for cfg c m) k = Some v \<longrightarrow>
            dget (apply_request_extras cfg c m params) k = Some v)
       \<and> (\<forall>k. k \<notin> fst ` set (extras_for cfg c m) \<longrightarrow> k \<noteq> ''max_tokens'' \<longrightarrow>
            dget (apply_request_extras cfg c m params) k = dget (case params of None \<Rightarrow> [] | Some d \<Rightarrow> d) k)
       \<and> (''max_tokens'' \<notin> fst ` set (extras_for cfg c m) \<longrightarrow>
            dget (case params of None \<Rightarrow> [] | Some d \<Rightarrow> d) ''max_tokens'' = None \<longrightarrow>
            dget (apply_request_extras cfg c m params) ''max_tokens'' = None)"
proof -
  define base where "base = (case params of None \<Rightarrow> [] | Some d \<Rightarrow> d)"
  define merged where "merged = dupdate base (extras_for cfg c m)"
  have other: "dget (apply_request_extras cfg c m params) k = dget merged k" if "k \<noteq> ''max_tokens''" for k
    using that by (auto simp: apply_request_extras_def merged_def base_def dget_dset Let_def split: option.splits)
  have fl: "lo \<le> n" if "token_floor cfg c m = Some lo"
    "as_int (dget (apply_request_extras cfg c m params) ''max_tokens'') = Some n" for lo n
    using that
    by (auto simp: apply_request_extras_def merged_def base_def as_int_def Let_def split: option.splits if_splits pyval.splits)
  have absent: "dget (apply_request_extras cfg c m params) ''max_tokens'' = None"
    if "dget merged ''max_tokens'' = None"
    using that by (auto simp: apply_request_extras_def merged_def base_def as_int_def Let_def split: option.splits)
  have ext: "dget merged k = Some v" if "dget (extras_for cfg c m) k = Some v" for k v
    unfolding merged_def using assms that by (rule dget_dupdate_present)
  have keep: "dget merged k = dget base k" if "k \<notin> fst ` set (extras_for cfg c m)" for k
    unfolding merged_def using that by (rule dget_dupdate_absent)
  show ?thesis
    using other fl absent ext keep unfolding base_def [symmetric] by simp
qed

theorem request_extras_applied_witness:
  "dget (apply_request_extras default_config reset_cache ''openai/gpt-oss-20b''
      (Some [(''max_tokens'', PInt 60), (''temperature'', PInt 0)])) ''temperature'' = Some (PInt 0)"
proof -
  have 1: "distinct (map fst (extras_for default_config reset_cache ''openai/gpt-oss-20b''))" by code_simp
  have 2: "''temperature'' \<notin> fst ` set (extras_for default_config reset_cache ''openai/gpt-oss-20b'')"
    by code_simp
  have 3: "''temperature'' \<noteq> ''max_tokens''" by simp
  have 4: "dget (case Some [(''max_tokens'', PInt 60), (''temperature'', PInt 0)] of None \<Rightarrow> [] | Some d \<Rightarrow> d)
      ''temperature'' = Some (PInt 0)" by code_simp
  show ?thesis
    using request_extras_applied [OF 1, of "Some [(''max_tokens'', PInt 60), (''temperature'', PInt 0)]"] 2 3 4
    by metis
qed

end
