(* ===== verification/Circuit_Breaker.thy ===== *)
theory Circuit_Breaker
  imports Settings
begin

text \<open>
  \<^verbatim>\<open>backend/llm/circuit_breaker.py\<close>: the per-model circuit breaker. Its three module-level
  dictionaries are the record \<open>breaker\<close>; the wall clock is an argument. What an operation sends
  out (the metric, the Redis commands, the error event) is returned as a list of effects: every
  one of them is best effort in the source and cannot change the state.
\<close>

definition THRESHOLD :: nat where "THRESHOLD = 5"
definition COOLDOWN :: int where "COOLDOWN = 90"

record breaker =
  failures :: "string \<Rightarrow> nat option"
  opened :: "string \<Rightarrow> bool option"
  open_time :: "string \<Rightarrow> real option"

definition init_breaker :: breaker where
  "init_breaker = \<lparr>failures = Map.empty, opened = Map.empty, open_time = Map.empty\<rparr>"

datatype cb_effect =
    CircuitTrip string
  | RedisSetOpen string int
  | RedisDelete string
  | ErrorEvent string

definition redis_key :: "string \<Rightarrow> string" where
  "redis_key model = ''cb:open:'' @ model"

definition is_open :: "real \<Rightarrow> string \<Rightarrow> breaker \<Rightarrow> bool result \<times> breaker" where
  "is_open now model b =
     (case opened b model of
        None \<Rightarrow> (Inr False, b)
      | Some _ \<Rightarrow>
          (case open_time b model of
             None \<Rightarrow> (Inl (KeyError model), b)
           | Some t \<Rightarrow>
               if now - t > of_int COOLDOWN
               then (Inr False, b\<lparr>opened := (opened b)(model := None),
                                  failures := (failures b)(model \<mapsto> 0)\<rparr>)
               else (Inr True, b)))"

definition failure_count :: "breaker \<Rightarrow> string \<Rightarrow> nat" where
  "failure_count b model = (case failures b model of None \<Rightarrow> 0 | Some n \<Rightarrow> n)"

definition record_failure :: "config \<Rightarrow> real \<Rightarrow> string \<Rightarrow> breaker \<Rightarrow> breaker \<times> cb_effect list" where
  "record_failure cfg now model b =
     (let n = failure_count b model + 1;
          b1 = b\<lparr>failures := (failures b)(model \<mapsto> n)\<rparr>
      in if n \<ge> THRESHOLD
         then (b1\<lparr>opened := (opened b1)(model \<mapsto> True), open_time := (open_time b1)(model \<mapsto> now)\<rparr>,
               [CircuitTrip model] @ (if USE_REDIS cfg then [RedisSetOpen (redis_key model) COOLDOWN] else [])
               @ [ErrorEvent model])
         else (b1, []))"

definition record_success :: "config \<Rightarrow> string \<Rightarrow> breaker \<Rightarrow> breaker \<times> cb_effect list" where
  "record_success cfg model b =
     (b\<lparr>failures := (failures b)(model \<mapsto> 0), opened := (opened b)(model := None)\<rparr>,
      if USE_REDIS cfg then [RedisDelete (redis_key model)] else [])"

text \<open>
  Restart: the replies of \<^verbatim>\<open>EXISTS\<close> are an argument; the first one that raises ends the loop.
\<close>

fun restore_models :: "(string \<Rightarrow> bool result) \<Rightarrow> real \<Rightarrow> string list \<Rightarrow> breaker \<Rightarrow> breaker" where
  "restore_models exists_reply now [] b = b"
| "restore_models exists_reply now (m # ms) b =
     (case exists_reply (redis_key m) of
        Inl _ \<Rightarrow> b
      | Inr False \<Rightarrow> restore_models exists_reply now ms b
      | Inr True \<Rightarrow> restore_models exists_reply now ms
          (b\<lparr>opened := (opened b)(m \<mapsto> True), open_time := (open_time b)(m \<mapsto> now)\<rparr>))"

definition restore_circuit_state :: "config \<Rightarrow> (string \<Rightarrow> bool result) \<Rightarrow> real \<Rightarrow> breaker \<Rightarrow> breaker" where
  "restore_circuit_state cfg exists_reply now b =
     (if \<not> USE_REDIS cfg then b else restore_models exists_reply now (map snd (MODELS cfg)) b)"

section \<open>The breaker as a machine\<close>

datatype cb_event = Fail string real | Succeed string | Query string real

fun cb_model :: "cb_event \<Rightarrow> string" where
  "cb_model (Fail m _) = m"
| "cb_model (Succeed m) = m"
| "cb_model (Query m _) = m"

fun cb_step :: "config \<Rightarrow> cb_event \<Rightarrow> breaker \<Rightarrow> breaker" where
  "cb_step cfg (Fail m now) b = fst (record_failure cfg now m b)"
| "cb_step cfg (Succeed m) b = fst (record_success cfg m b)"
| "cb_step cfg (Query m now) b = snd (is_open now m b)"

text \<open>Every open circuit has an opening time, so the lookup in \<^verbatim>\<open>is_open\<close> never fails.\<close>

definition breaker_ok :: "breaker \<Rightarrow> bool" where
  "breaker_ok b = (dom (opened b) \<subseteq> dom (open_time b))"

lemma breaker_ok_step: "breaker_ok b \<Longrightarrow> breaker_ok (cb_step cfg e b)"
  by (cases e)
     (auto simp: breaker_ok_def record_failure_def record_success_def is_open_def Let_def
       split: option.splits if_splits)

definition cb_view :: "string \<Rightarrow> breaker \<Rightarrow> nat option \<times> bool option \<times> real option" where
  "cb_view m b = (failures b m, opened b m, open_time b m)"

interpretation cb: keyed_machine "cb_step cfg" breaker_ok init_breaker cb_model cb_view
  for cfg
proof unfold_locales
  show "breaker_ok init_breaker" by (simp add: breaker_ok_def init_breaker_def)
next
  fix b :: breaker and e
  assume "breaker_ok b"
  then show "breaker_ok (cb_step cfg e b)" by (rule breaker_ok_step)
next
  fix e m and b :: breaker
  assume "cb_model e \<noteq> m"
  then show "cb_view m (cb_step cfg e b) = cb_view m b"
    by (cases e) (auto simp: cb_view_def record_failure_def record_success_def is_open_def Let_def
        split: option.splits)
next
  fix e m and b b' :: breaker
  assume "cb_model e = m" and "cb_view m b = cb_view m b'"
  then show "cb_view m (cb_step cfg e b) = cb_view m (cb_step cfg e b')"
    by (cases e) (auto simp: cb_view_def record_failure_def record_success_def is_open_def
        failure_count_def Let_def split: option.splits)
qed

lemma restore_ok: "breaker_ok b \<Longrightarrow> breaker_ok (restore_circuit_state cfg ex now b)"
proof -
  have "breaker_ok b \<Longrightarrow> breaker_ok (b\<lparr>opened := (opened b)(m \<mapsto> v), open_time := (open_time b)(m \<mapsto> t)\<rparr>)"
    for b :: breaker and m v t
    by (auto simp: breaker_ok_def)
  then have "breaker_ok b \<Longrightarrow> breaker_ok (restore_models ex now ms b)" for ms
    by (induction ms arbitrary: b) (auto split: sum.splits bool.splits)
  then show "breaker_ok b \<Longrightarrow> ?thesis" by (simp add: restore_circuit_state_def)
qed

lemma is_open_total: "breaker_ok b \<Longrightarrow> \<exists>v. fst (is_open now m b) = Inr v"
  by (auto simp: breaker_ok_def is_open_def split: option.splits)

section \<open>When the circuit is open\<close>

text \<open>The life of a process: calls and queries, and the restore of the marks that are left in Redis.\<close>

datatype cb_life = Happens cb_event | Restores "string \<Rightarrow> bool result" real

fun life_step :: "config \<Rightarrow> cb_life \<Rightarrow> breaker \<Rightarrow> breaker" where
  "life_step cfg (Happens e) b = cb_step cfg e b"
| "life_step cfg (Restores replies now) b = restore_circuit_state cfg replies now b"

text \<open>
  What a history says of one model: how often it failed since its last reset, whether a mark of it was
  found in Redis since then, and when the last failure from the fifth on, or the mark, was seen. It is reset by a
  success, and by a query after which more than 90 seconds have passed since that time.
\<close>

definition marked_in_redis :: "config \<Rightarrow> (string \<Rightarrow> bool result) \<Rightarrow> string \<Rightarrow> bool" where
  "marked_in_redis cfg replies m =
     (USE_REDIS cfg \<and> m \<in> set (takeWhile (\<lambda>x. \<not> isl (replies (redis_key x))) (map snd (MODELS cfg)))
      \<and> replies (redis_key m) = Inr True)"

fun evidence_step :: "config \<Rightarrow> string \<Rightarrow> cb_life \<Rightarrow> nat \<times> bool \<times> real \<Rightarrow> nat \<times> bool \<times> real" where
  "evidence_step cfg m (Happens (Fail m' now)) (n, marked, t) =
     (if m' = m then (n + 1, marked, if n + 1 \<ge> 5 then now else t) else (n, marked, t))"
| "evidence_step cfg m (Happens (Succeed m')) (n, marked, t) = (if m' = m then (0, False, t) else (n, marked, t))"
| "evidence_step cfg m (Happens (Query m' now)) (n, marked, t) =
     (if m' = m \<and> (5 \<le> n \<or> marked) \<and> now - t > 90 then (0, False, t) else (n, marked, t))"
| "evidence_step cfg m (Restores replies now) (n, marked, t) =
     (if marked_in_redis cfg replies m then (n, True, now) else (n, marked, t))"

definition evidence :: "config \<Rightarrow> string \<Rightarrow> cb_life list \<Rightarrow> nat \<times> bool \<times> real" where
  "evidence cfg m es = fold (evidence_step cfg m) es (0, False, 0)"

lemma restore_models_view:
  "cb_view m (restore_models replies now ms b) =
     (if m \<in> set (takeWhile (\<lambda>x. \<not> isl (replies (redis_key x))) ms) \<and> replies (redis_key m) = Inr True
      then (failures b m, Some True, Some now) else cb_view m b)"
proof (induction ms arbitrary: b)
  case (Cons x xs)
  show ?case
  proof (cases "replies (redis_key x)")
    case (Inr found)
    have "cb_view m (restore_models replies now (x # xs) b) =
        cb_view m (restore_models replies now xs (if found then b\<lparr>opened := (opened b)(x \<mapsto> True), open_time := (open_time b)(x \<mapsto> now)\<rparr> else b))"
      by (simp add: Inr split: bool.splits)
    then show ?thesis unfolding Cons.IH using Inr by (auto simp: cb_view_def)
  qed simp
qed simp

definition shows_evidence :: "string \<Rightarrow> breaker \<Rightarrow> nat \<times> bool \<times> real \<Rightarrow> bool" where
  "shows_evidence m b ev =
     (case ev of (n, marked, t) \<Rightarrow>
        failure_count b m = n \<and> (opened b m \<noteq> None) = (5 \<le> n \<or> marked) \<and> (5 \<le> n \<or> marked \<longrightarrow> open_time b m = Some t))"

lemma evidence_kept:
  assumes "shows_evidence m b ev"
  shows "shows_evidence m (life_step cfg e b) (evidence_step cfg m e ev)"
proof (cases e)
  case (Happens c)
  obtain n marked t where ev: "ev = (n, marked, t)" by (cases ev)
  show ?thesis
    using assms unfolding ev Happens
    by (cases c) (auto simp: shows_evidence_def record_failure_def record_success_def is_open_def failure_count_def
        THRESHOLD_def COOLDOWN_def Let_def split: option.splits if_splits)
next
  case (Restores replies now)
  obtain n marked t where ev: "ev = (n, marked, t)" by (cases ev)
  have "cb_view m (restore_circuit_state cfg replies now b) =
      (if marked_in_redis cfg replies m then (failures b m, Some True, Some now) else cb_view m b)"
    by (auto simp: restore_circuit_state_def restore_models_view marked_in_redis_def)
  then show ?thesis
    using assms unfolding ev Restores
    by (auto simp: shows_evidence_def cb_view_def failure_count_def split: if_splits)
qed

text \<open>
  C23. The breaker opens exactly on evidence. In any history of calls, queries, restores of the marks in Redis and
  clock readings, the circuit of a model is reported open if and only if, since its last reset, the model has failed at least
  five times or a mark of it was found in Redis, and at most 90 seconds have passed since the
  last of those failures or since the mark was found. A reset is a success of that model, or a query when the 90 seconds are over. What
  other models do has no influence, and the lookup of the opening time never fails.
\<close>

theorem open_needs_five_failures:
  "fst (is_open now m (fold (life_step cfg) es init_breaker)) =
     Inr (case evidence cfg m es of (n, marked, t) \<Rightarrow> (5 \<le> n \<or> marked) \<and> now - t \<le> 90)"
proof -
  have "shows_evidence m (fold (life_step cfg) es b) (fold (evidence_step cfg m) es ev)" if "shows_evidence m b ev" for b ev
    using that
  proof (induction es arbitrary: b ev)
    case (Cons e es)
    from Cons.IH [OF evidence_kept [OF Cons.prems]] show ?case by simp
  qed simp
  then have "shows_evidence m (fold (life_step cfg) es init_breaker) (evidence cfg m es)"
    by (simp add: evidence_def shows_evidence_def init_breaker_def failure_count_def)
  then show ?thesis
    by (auto simp: shows_evidence_def is_open_def COOLDOWN_def split: option.splits prod.splits)
qed

lemma fails_in_row:
  assumes "\<forall>e \<in> set es. \<exists>t. e = Fail m t"
  shows "failure_count (fold (cb_step cfg) es b) m = failure_count b m + length es"
  using assms
proof (induction es arbitrary: b)
  case Nil
  then show ?case by simp
next
  case (Cons e es)
  then obtain t where e: "e = Fail m t" by auto
  have "failure_count (cb_step cfg e b) m = failure_count b m + 1"
    by (simp add: e record_failure_def failure_count_def Let_def)
  with Cons show ?case by simp
qed

lemma fold_other_models:
  assumes "filter (\<lambda>e. cb_model e = m) es = fs"
  shows "cb_view m (fold (cb_step cfg) es b) = cb_view m (fold (cb_step cfg) fs b)"
  using cb.view_run [of m cfg es b] assms by simp

text \<open>
  The breaker does open, and stays open for its cooldown: after a history in which the
  last five events of a model are failures, the last at time \<open>t\<close>, the circuit of that model is
  reported open at every time up to 90 seconds after \<open>t\<close> and closed, with its count reset, at
  every later time; whatever the other models do in between does not matter.
\<close>

theorem five_failures_open:
  assumes "filter (\<lambda>e. cb_model e = m) es = us @ vs @ [Fail m t]"
    and "length vs = 4" and "\<forall>e \<in> set vs. \<exists>t. e = Fail m t"
  shows "fst (is_open now m (fold (cb_step cfg) es b)) = Inr (now - t \<le> 90)
       \<and> (now - t > 90 \<longrightarrow> failure_count (snd (is_open now m (fold (cb_step cfg) es b))) m = 0)"
proof -
  define b1 where "b1 = fold (cb_step cfg) vs (fold (cb_step cfg) us b)"
  have "failure_count b1 m = failure_count (fold (cb_step cfg) us b) m + length vs"
    unfolding b1_def using assms(3) by (rule fails_in_row)
  then have n: "failure_count b1 m + 1 \<ge> THRESHOLD" using assms(2) by (simp add: THRESHOLD_def)
  define b2 where "b2 = cb_step cfg (Fail m t) b1"
  have b2: "opened b2 m = Some True" "open_time b2 m = Some t"
    using n by (simp_all add: b2_def record_failure_def Let_def)
  have "cb_view m (fold (cb_step cfg) es b) = cb_view m b2"
    using fold_other_models [OF assms(1), of cfg b] by (simp add: b1_def b2_def)
  with b2 show ?thesis
    by (auto simp: cb_view_def is_open_def COOLDOWN_def failure_count_def)
qed

theorem five_failures_open_witness:
  "fst (is_open 95 ''m'' (fold (cb_step default_config)
     [Fail ''m'' 1, Fail ''m'' 2, Fail ''m'' 3, Fail ''m'' 4, Succeed ''x'', Fail ''m'' 5] init_breaker))
   = Inr True"
proof -
  have "filter (\<lambda>e. cb_model e = ''m'')
      [Fail ''m'' 1, Fail ''m'' 2, Fail ''m'' 3, Fail ''m'' 4, Succeed ''x'', Fail ''m'' 5] =
      [] @ [Fail ''m'' 1, Fail ''m'' 2, Fail ''m'' 3, Fail ''m'' 4] @ [Fail ''m'' 5]"
    by code_simp
  from five_failures_open [OF this, of 95] show ?thesis by simp
qed

end
