(* ===== verification/Endpoint.thy ===== *)
theory Endpoint
  imports Settings
begin

text \<open>
  \<^verbatim>\<open>backend/llm/endpoint.py\<close>: which chat-completions URL a call uses. The health verdict of the
  primary is cached in Redis, or in the process when Redis is off or raises. Redis is a
  parameter: a record of the two commands the module uses on its key, over an abstract state
  \<^typ>\<open>'r\<close>; either may raise. \<open>redis_verdict_kept\<close> names what the failover relies on.
\<close>

record 'r health_store =
  hs_get :: "'r \<Rightarrow> real \<Rightarrow> string option result"
  hs_set :: "'r \<Rightarrow> real \<Rightarrow> string \<Rightarrow> int \<Rightarrow> 'r result"

definition redis_verdict_kept :: "'r health_store \<Rightarrow> bool" where
  "redis_verdict_kept hs =
     (\<forall>r t v ttl r' t'. hs_set hs r t v ttl = Inr r' \<longrightarrow> t \<le> t' \<longrightarrow> t' < t + of_int ttl \<longrightarrow>
        hs_get hs r' t' = Inr (Some v))"

record 'r endpoint_state =
  ep_local :: "(real \<times> bool) option"
  ep_redis :: 'r

definition probe_url :: "string \<Rightarrow> string" where
  "probe_url chat_url =
     (if endswith chat_url ''/chat/completions''
      then take (length chat_url - length ''/chat/completions'') chat_url @ ''/models''
      else rev (dropWhile (\<lambda>c. c = CHR ''/'') (rev chat_url)) @ ''/models'')"

section \<open>The verdict cache\<close>

definition local_put :: "(real \<times> bool) option \<Rightarrow> real \<Rightarrow> unit \<Rightarrow> bool \<Rightarrow> int \<Rightarrow> (real \<times> bool) option" where
  "local_put _ now _ ok ttl = Some (now + of_int ttl, ok)"

definition local_look :: "(real \<times> bool) option \<Rightarrow> real \<Rightarrow> unit \<Rightarrow> bool option" where
  "local_look e now _ = (case e of Some (until, ok) \<Rightarrow> if until > now then Some ok else None | None \<Rightarrow> None)"

interpretation verdict: ttl_cache local_put local_look "\<lambda>_. True"
  by unfold_locales (auto simp: local_put_def local_look_def)

definition health_ttl :: "config \<Rightarrow> int" where
  "health_ttl cfg = max 1 (LLM_HEALTH_TTL cfg)"

definition get_cached :: "config \<Rightarrow> 'r health_store \<Rightarrow> real \<Rightarrow> 'r endpoint_state \<Rightarrow> bool option" where
  "get_cached cfg hs now st =
     (if USE_REDIS cfg then
        (case hs_get hs (ep_redis st) now of
           Inr None \<Rightarrow> None
         | Inr (Some v) \<Rightarrow> Some (v = ''1'')
         | Inl _ \<Rightarrow> local_look (ep_local st) now ())
      else local_look (ep_local st) now ())"

definition set_cached :: "config \<Rightarrow> 'r health_store \<Rightarrow> real \<Rightarrow> bool \<Rightarrow> 'r endpoint_state \<Rightarrow> 'r endpoint_state" where
  "set_cached cfg hs now ok st =
     (let ttl = health_ttl cfg;
          locally = st\<lparr>ep_local := local_put (ep_local st) now () ok ttl\<rparr>
      in if USE_REDIS cfg then
           (case hs_set hs (ep_redis st) now (if ok then ''1'' else ''0'') ttl of
              Inr r \<Rightarrow> st\<lparr>ep_redis := r\<rparr>
            | Inl _ \<Rightarrow> locally)
         else locally)"

section \<open>Choosing the URL\<close>

text \<open>
  The probe: \<open>client\<close> says whether the HTTP client exists, \<open>reply\<close> is the status code of the
  GET on the derived URL, or the exception it raised.
\<close>

definition probe :: "bool \<Rightarrow> (string \<Rightarrow> int result) \<Rightarrow> string \<Rightarrow> bool" where
  "probe client reply chat_url =
     (if \<not> client then False
      else case reply (probe_url chat_url) of Inr st \<Rightarrow> st = 200 | Inl _ \<Rightarrow> False)"

definition failover_on :: "config \<Rightarrow> bool" where
  "failover_on cfg = (LLM_FAILOVER_ENABLED cfg \<and> LLM_PRIMARY_URL cfg \<noteq> [])"

definition pick_chat_url :: "config \<Rightarrow> 'r health_store \<Rightarrow> bool \<Rightarrow> (string \<Rightarrow> int result) \<Rightarrow> real \<Rightarrow>
    'r endpoint_state \<Rightarrow> string \<times> 'r endpoint_state" where
  "pick_chat_url cfg hs client reply now st =
     (if \<not> failover_on cfg then (NIM_URL cfg, st)
      else
        let (healthy, st1) =
              (case get_cached cfg hs now st of
                 Some ok \<Rightarrow> (ok, st)
               | None \<Rightarrow> let ok = probe client reply (LLM_PRIMARY_URL cfg) in (ok, set_cached cfg hs now ok st))
        in if healthy then (LLM_PRIMARY_URL cfg, st1) else (NIM_URL cfg, st1))"

definition mark_primary_unhealthy :: "config \<Rightarrow> 'r health_store \<Rightarrow> real \<Rightarrow> 'r endpoint_state \<Rightarrow> 'r endpoint_state" where
  "mark_primary_unhealthy cfg hs now st =
     (if \<not> failover_on cfg then st else set_cached cfg hs now False st)"

definition is_primary :: "config \<Rightarrow> string \<Rightarrow> bool" where
  "is_primary cfg url = (LLM_PRIMARY_URL cfg \<noteq> [] \<and> url = LLM_PRIMARY_URL cfg)"

section \<open>Failover\<close>

lemma pick_url_cases: "fst (pick_chat_url cfg hs client reply now st) \<in> {LLM_PRIMARY_URL cfg, NIM_URL cfg}"
  by (auto simp: pick_chat_url_def Let_def split: option.splits prod.splits)

lemma pick_nim_if_off: "\<not> failover_on cfg \<Longrightarrow> pick_chat_url cfg hs client reply now st = (NIM_URL cfg, st)"
  by (simp add: pick_chat_url_def)

text \<open>
  When does the verdict written at a time reach a reader: Redis is off; or it took the write and
  keeps it; or it is down for the write and for the read, so both sides use the process.
\<close>

definition verdict_reaches :: "config \<Rightarrow> 'r health_store \<Rightarrow> real \<Rightarrow> bool \<Rightarrow> 'r endpoint_state \<Rightarrow> real \<Rightarrow> bool" where
  "verdict_reaches cfg hs t ok st t' =
     (\<not> USE_REDIS cfg
      \<or> (\<exists>r. hs_set hs (ep_redis st) t (if ok then ''1'' else ''0'') (health_ttl cfg) = Inr r)
      \<or> (\<exists>e e'. hs_set hs (ep_redis st) t (if ok then ''1'' else ''0'') (health_ttl cfg) = Inl e
               \<and> hs_get hs (ep_redis st) t' = Inl e'))"

lemma get_after_set:
  assumes "redis_verdict_kept hs" and "verdict_reaches cfg hs t ok st t'"
    and "0 < t" and "t \<le> t'" and "t' < t + of_int (health_ttl cfg)"
  shows "get_cached cfg hs t' (set_cached cfg hs t ok st) = Some ok"
proof -
  have ttl: "0 < health_ttl cfg" by (simp add: health_ttl_def)
  have loc: "local_look (local_put e t () ok (health_ttl cfg)) t' () = Some ok" for e
    using assms(3,5) ttl by (intro verdict.look_fresh) auto
  from assms(2) consider "\<not> USE_REDIS cfg"
    | r where "hs_set hs (ep_redis st) t (if ok then ''1'' else ''0'') (health_ttl cfg) = Inr r" "USE_REDIS cfg"
    | e e' where "hs_set hs (ep_redis st) t (if ok then ''1'' else ''0'') (health_ttl cfg) = Inl e"
        "hs_get hs (ep_redis st) t' = Inl e'" "USE_REDIS cfg"
    unfolding verdict_reaches_def by blast
  then show ?thesis
  proof cases
    case 1
    then show ?thesis by (simp add: get_cached_def set_cached_def Let_def loc)
  next
    case (2 r)
    then have "hs_get hs r t' = Inr (Some (if ok then ''1'' else ''0''))"
      using assms(1,4,5) unfolding redis_verdict_kept_def by blast
    with 2 show ?thesis by (auto simp: get_cached_def set_cached_def Let_def)
  next
    case (3 e e')
    then show ?thesis by (simp add: get_cached_def set_cached_def Let_def loc)
  qed
qed

lemma marked_primary_skipped:
  assumes "redis_verdict_kept hs" and "verdict_reaches cfg hs t False st t'"
    and "0 < t" and "t \<le> t'" and "t' < t + of_int (health_ttl cfg)"
  shows "pick_chat_url cfg hs client reply t' (mark_primary_unhealthy cfg hs t st) =
           (NIM_URL cfg, mark_primary_unhealthy cfg hs t st)"
  using get_after_set [OF assms] by (simp add: pick_chat_url_def mark_primary_unhealthy_def Let_def)

text \<open>
  A failed primary is left alone: once it is marked unhealthy, every call of the next
  \<^verbatim>\<open>LLM_HEALTH_TTL\<close> seconds (at least one) is sent to the NIM URL, without probing, even if the
  primary would answer a probe.
\<close>

theorem marked_primary_not_picked:
  assumes "redis_verdict_kept hs" and "verdict_reaches cfg hs t False st t'"
    and "0 < t" and "t \<le> t'" and "t' < t + of_int (health_ttl cfg)"
  shows "pick_chat_url cfg hs client reply t' (mark_primary_unhealthy cfg hs t st) =
           (NIM_URL cfg, mark_primary_unhealthy cfg hs t st)"
  using assms by (rule marked_primary_skipped)

text \<open>A store that keeps one verdict with its deadline.\<close>

definition sample_store :: "(string \<times> real) option health_store" where
  "sample_store = \<lparr>hs_get = (\<lambda>r t. Inr (case r of Some (v, d) \<Rightarrow> if t < d then Some v else None | None \<Rightarrow> None)),
                   hs_set = (\<lambda>r t v ttl. Inr (Some (v, t + of_int ttl)))\<rparr>"

lemma sample_store_ok: "redis_verdict_kept sample_store"
  by (auto simp: redis_verdict_kept_def sample_store_def)

definition sample_failover :: config where
  "sample_failover = default_config\<lparr>USE_REDIS := True, LLM_FAILOVER_ENABLED := True,
     LLM_PRIMARY_URL := ''http://lab/v1/chat/completions''\<rparr>"

theorem marked_primary_not_picked_witness:
  "fst (pick_chat_url sample_failover sample_store True (\<lambda>_. Inr 200) 20
     (mark_primary_unhealthy sample_failover sample_store 10 \<lparr>ep_local = None, ep_redis = None\<rparr>)) =
   NIM_URL sample_failover"
proof -
  let ?st = "\<lparr>ep_local = None, ep_redis = None\<rparr> :: (string \<times> real) option endpoint_state"
  have "verdict_reaches sample_failover sample_store 10 False ?st 20"
    by (simp add: verdict_reaches_def sample_store_def)
  from marked_primary_not_picked [OF sample_store_ok this, of True "\<lambda>_. Inr 200"] show ?thesis
    by (simp add: health_ttl_def sample_failover_def default_config_def)
qed

end
