(* ===== verification/Nim_Client.thy ===== *)
theory Nim_Client
  imports Circuit_Breaker Endpoint
begin

text \<open>
  \<^verbatim>\<open>backend/llm/nim.py\<close>: one chat-completions call and its streaming twin, over the circuit
  breaker and the endpoint selection. The state is the breaker and the endpoint cache; the
  outside (clocks, probe replies, HTTP replies, the JSON parser) is an argument, one record per
  attempt. Sleeping changes no state and is left out, as are the log lines and latencies. The
  record of every request sent (URL and headers) is part of the result, so that statements can
  speak about what reaches the wire.
\<close>

record 'r nim_state =
  ns_breaker :: breaker
  ns_endpoint :: "'r endpoint_state"

type_synonym headers = "(string \<times> string) list"

definition auth_headers :: "config \<Rightarrow> string option \<Rightarrow> headers" where
  "auth_headers cfg base_url =
     (let hs = [(''Content-Type'', ''application/json'')] in
      if base_url \<noteq> None \<and> is_primary cfg (the base_url) then
        (if LLM_PRIMARY_API_KEY cfg \<noteq> []
         then dset hs ''Authorization'' (''Bearer '' @ LLM_PRIMARY_API_KEY cfg) else hs)
      else case NVIDIA_API_KEY cfg of
             Some k \<Rightarrow> if k \<noteq> [] then dset hs ''Authorization'' (''Bearer '' @ k) else hs
           | None \<Rightarrow> hs)"

section \<open>Reading a reply\<close>

text \<open>
  The attribute lookups of \<^verbatim>\<open>_extract\<close> on a JSON value: \<^verbatim>\<open>v.get(k, d)\<close> on anything but a
  dictionary is an \<^const>\<open>AttributeError\<close>.
\<close>

definition pget :: "pyval \<Rightarrow> string \<Rightarrow> pyval \<Rightarrow> pyval result" where
  "pget v k d = (case v of PDict m \<Rightarrow> Inr (case dget m k of Some x \<Rightarrow> x | None \<Rightarrow> d)
                 | _ \<Rightarrow> Inl (AttributeError ''get''))"

definition stripped_text :: "pyval \<Rightarrow> string option" where
  "stripped_text v = (case v of PStr s \<Rightarrow> if strip s \<noteq> [] then Some (strip s) else None | _ \<Rightarrow> None)"

definition content_part_text :: "pyval \<Rightarrow> string option" where
  "content_part_text content =
     (case content of
        PList (PDict part # _) \<Rightarrow> stripped_text (case dget part ''text'' of Some x \<Rightarrow> x | None \<Rightarrow> PNone)
      | _ \<Rightarrow> None)"

definition extract_choice :: "pyval \<Rightarrow> ((string option \<times> pyval option) option) result" where
  "extract_choice first =
     bindR (pget first ''message'' (PDict [])) (\<lambda>message.
     bindR (pget message ''tool_calls'' PNone) (\<lambda>tool_calls.
     if truthy tool_calls then Inr (Some (None, Some tool_calls))
     else
       bindR (pget message ''content'' PNone) (\<lambda>content.
       case stripped_text content of
         Some t \<Rightarrow> Inr (Some (Some t, None))
       | None \<Rightarrow>
           (case content_part_text content of
              Some t \<Rightarrow> Inr (Some (Some t, None))
            | None \<Rightarrow>
                bindR (pget first ''delta'' (PDict [])) (\<lambda>delta.
                bindR (pget delta ''content'' PNone) (\<lambda>delta_content.
                case stripped_text delta_content of
                  Some t \<Rightarrow> Inr (Some (Some t, None))
                | None \<Rightarrow> Inr None))))))"

definition extract_body :: "pyval \<Rightarrow> (string option \<times> pyval option) result" where
  "extract_body data =
     bindR (pget data ''choices'' PNone) (\<lambda>choices.
     bindR (case choices of PList (first # _) \<Rightarrow> extract_choice first | _ \<Rightarrow> Inr None) (\<lambda>found.
     case found of
       Some r \<Rightarrow> Inr r
     | None \<Rightarrow>
         bindR (pget data ''text'' PNone) (\<lambda>text. Inr (stripped_text text, None))))"

definition extract_reply :: "pyval \<Rightarrow> string option \<times> pyval option" where
  "extract_reply data = (case extract_body data of Inr r \<Rightarrow> r | Inl _ \<Rightarrow> (None, None))"

section \<open>One call\<close>

datatype http_reply =
    HttpResponse int "pyval option"
  \<comment> \<open>status code; the body when it parses as JSON\<close>
  | NetworkError
  \<comment> \<open>httpx.TimeoutException or httpx.RequestError\<close>
  | OtherException

record attempt_env =
  ae_mono :: real
  ae_wall :: real
  ae_probe :: "string \<Rightarrow> int result"
  ae_reply :: "string \<Rightarrow> http_reply"

record nim_result =
  nr_ok :: bool
  nr_error :: "string option"
  nr_content :: "string option"
  nr_tool_calls :: "pyval option"
  nr_usage :: "pyval option"
  nr_model :: string

definition nim_failed :: "string \<Rightarrow> string \<Rightarrow> nim_result" where
  "nim_failed model err =
     \<lparr>nr_ok = False, nr_error = Some err, nr_content = None, nr_tool_calls = None, nr_usage = None, nr_model = model\<rparr>"

type_synonym wire_log = "(string \<times> headers) list"

definition note_failure :: "config \<Rightarrow> real \<Rightarrow> string \<Rightarrow> 'r nim_state \<Rightarrow> 'r nim_state" where
  "note_failure cfg wall model st = st\<lparr>ns_breaker := fst (record_failure cfg wall model (ns_breaker st))\<rparr>"

definition note_success :: "config \<Rightarrow> string \<Rightarrow> 'r nim_state \<Rightarrow> 'r nim_state" where
  "note_success cfg model st = st\<lparr>ns_breaker := fst (record_success cfg model (ns_breaker st))\<rparr>"

definition demote_primary :: "config \<Rightarrow> 'r health_store \<Rightarrow> real \<Rightarrow> 'r nim_state \<Rightarrow> 'r nim_state" where
  "demote_primary cfg hs clk st = st\<lparr>ns_endpoint := mark_primary_unhealthy cfg hs clk (ns_endpoint st)\<rparr>"

text \<open>
  What one attempt does with the reply: give the caller a result, or go on to the next attempt.
\<close>

definition handle_reply :: "config \<Rightarrow> 'r health_store \<Rightarrow> attempt_env \<Rightarrow> string \<Rightarrow> string \<Rightarrow> 'r nim_state \<Rightarrow>
    nim_result option \<times> 'r nim_state" where
  "handle_reply cfg hs env model base_url st =
     (case ae_reply env base_url of
        HttpResponse status body \<Rightarrow>
          if status \<noteq> 200 then
            (if is_primary cfg base_url then (None, demote_primary cfg hs (ae_mono env) st)
             else if status \<ge> 500 then (None, note_failure cfg (ae_wall env) model st)
             else (Some (nim_failed model (''http_'' @ int_str status)), st))
          else
            (case body of
               Some (PDict data) \<Rightarrow>
                 let (content, tool_calls) = extract_reply (PDict data);
                     usage = dget data ''usage''
                 in if tool_calls \<noteq> None \<and> truthy (the tool_calls) then
                      (Some \<lparr>nr_ok = True, nr_error = None, nr_content = None, nr_tool_calls = tool_calls,
                             nr_usage = usage, nr_model = model\<rparr>, note_success cfg model st)
                    else
                      (case content of
                         Some c \<Rightarrow>
                           if strip c = [] then (Some (nim_failed model ''bad_format''), note_failure cfg (ae_wall env) model st)
                           else (Some \<lparr>nr_ok = True, nr_error = None, nr_content = Some (strip c),
                                       nr_tool_calls = None, nr_usage = usage, nr_model = model\<rparr>,
                                 note_success cfg model st)
                       | None \<Rightarrow> (Some (nim_failed model ''bad_format''), note_failure cfg (ae_wall env) model st))
             | _ \<Rightarrow> (None, note_failure cfg (ae_wall env) model st))
      | NetworkError \<Rightarrow>
          if is_primary cfg base_url then (None, demote_primary cfg hs (ae_mono env) st)
          else (None, note_failure cfg (ae_wall env) model st)
      | OtherException \<Rightarrow> (None, note_failure cfg (ae_wall env) model st))"

fun call_attempts :: "config \<Rightarrow> 'r health_store \<Rightarrow> (nat \<Rightarrow> attempt_env) \<Rightarrow> string \<Rightarrow> nat list \<Rightarrow>
    wire_log \<Rightarrow> 'r nim_state \<Rightarrow> nim_result \<times> wire_log \<times> 'r nim_state" where
  "call_attempts cfg hs env model [] wl st = (nim_failed model ''failed'', wl, st)"
| "call_attempts cfg hs env model (a # as) wl st =
     (let (base_url, ep) = pick_chat_url cfg hs True (ae_probe (env a)) (ae_mono (env a)) (ns_endpoint st);
          st1 = st\<lparr>ns_endpoint := ep\<rparr>;
          wl1 = wl @ [(base_url, auth_headers cfg (Some base_url))];
          (res, st2) = handle_reply cfg hs (env a) model base_url st1
      in case res of
           Some r \<Rightarrow> (r, wl1, st2)
         | None \<Rightarrow> call_attempts cfg hs env model as wl1 st2)"

definition attempts :: "config \<Rightarrow> nat list" where
  "attempts cfg = [0 ..< nat (MAX_RETRIES cfg + 1)]"

definition has_key :: "config \<Rightarrow> bool" where
  "has_key cfg = (set_and_nonempty (NVIDIA_API_KEY cfg) \<or> LLM_BACKEND cfg = ''homeserver'')"

definition nim_call :: "config \<Rightarrow> 'r health_store \<Rightarrow> bool \<Rightarrow> real \<Rightarrow> (nat \<Rightarrow> attempt_env) \<Rightarrow> string \<Rightarrow>
    'r nim_state \<Rightarrow> nim_result result \<times> wire_log \<times> 'r nim_state" where
  "nim_call cfg hs client wall env model st =
     (if \<not> client then (Inl (RuntimeError ''HTTP client not initialized''), [], st)
      else if \<not> has_key cfg then (Inl (RuntimeError ''Missing NVIDIA_API_KEY''), [], st)
      else case is_open wall model (ns_breaker st) of
        (Inl e, b) \<Rightarrow> (Inl e, [], st\<lparr>ns_breaker := b\<rparr>)
      | (Inr True, b) \<Rightarrow> (Inr (nim_failed model ''circuit_open''), [], st\<lparr>ns_breaker := b\<rparr>)
      | (Inr False, b) \<Rightarrow>
          let (r, wl, st') = call_attempts cfg hs env model (attempts cfg) [] (st\<lparr>ns_breaker := b\<rparr>)
          in (Inr r, wl, st'))"

section \<open>The streaming call\<close>

datatype chunk =
    Content pyval
  | Usage pydict
  | ToolCalls "(string \<times> string \<times> string) list"
  \<comment> \<open>id, name, arguments\<close>
  | BudgetExceeded

text \<open>
  The body of a streaming response: its lines, each with the time since the connection was
  opened, and how it ends (normally, or in a network error).
\<close>

datatype stream_reply =
    StreamResponse int "(real \<times> string) list" bool
  \<comment> \<open>status, timed lines, and whether the body ended without a network error\<close>
  | StreamNetworkError
  | StreamOtherError

record stream_env =
  se_mono :: real
  se_wall :: real
  se_probe :: "string \<Rightarrow> int result"
  se_reply :: "string \<Rightarrow> stream_reply"

record pending_call =
  pc_id :: string
  pc_name :: string
  pc_arguments :: string

type_synonym pending = "(int \<times> pending_call) list"

text \<open>
  One entry of \<^verbatim>\<open>delta.tool_calls\<close>: fragments of the same index are concatenated. Every
  statement of the source is one step, and an exception leaves what the steps before it wrote:
  the new \<open>pending\<close> and the exception, if any, are returned. An index that is not an integer
  and an id that is not a text are taken as a \<^const>\<open>TypeError\<close>.
\<close>

definition set_id :: "pydict \<Rightarrow> int \<Rightarrow> pending_call \<Rightarrow> pending \<Rightarrow> pending \<times> pyexc option" where
  "set_id d i p pending =
     (case dget d ''id'' of
        None \<Rightarrow> (dset pending i p, None)
      | Some v \<Rightarrow> if \<not> truthy v then (dset pending i p, None)
                  else (case v of PStr s \<Rightarrow> (dset pending i (p\<lparr>pc_id := s\<rparr>), None)
                        | _ \<Rightarrow> (dset pending i p, Some (TypeError ''id''))))"

definition fragment :: "pydict \<Rightarrow> string \<Rightarrow> string result" where
  "fragment fn k =
     (case dget fn k of
        None \<Rightarrow> Inr []
      | Some v \<Rightarrow> if \<not> truthy v then Inr []
                  else (case v of PStr s \<Rightarrow> Inr s | _ \<Rightarrow> Inl (TypeError k)))"

definition pending_at :: "pending \<Rightarrow> int \<Rightarrow> pending_call" where
  "pending_at pending i =
     (case dget pending i of Some p \<Rightarrow> p | None \<Rightarrow> \<lparr>pc_id = [], pc_name = [], pc_arguments = []\<rparr>)"

definition append_function :: "pydict \<Rightarrow> int \<Rightarrow> pending \<Rightarrow> pending \<times> pyexc option" where
  "append_function fn i pending =
     (case fragment fn ''name'' of
        Inl e \<Rightarrow> (pending, Some e)
      | Inr nm \<Rightarrow>
          let p = pending_at pending i; p1 = p\<lparr>pc_name := pc_name p @ nm\<rparr>; pend1 = dset pending i p1 in
          (case fragment fn ''arguments'' of
             Inl e \<Rightarrow> (pend1, Some e)
           | Inr args \<Rightarrow> (dset pend1 i (p1\<lparr>pc_arguments := pc_arguments p1 @ args\<rparr>), None)))"

definition merge_tool_call :: "pyval \<Rightarrow> pending \<Rightarrow> pending \<times> pyexc option" where
  "merge_tool_call tc pending =
     (case tc of
        PDict d \<Rightarrow>
          (case (case dget d ''index'' of None \<Rightarrow> Some 0 | Some (PInt i) \<Rightarrow> Some i | Some _ \<Rightarrow> None) of
             None \<Rightarrow> (pending, Some (TypeError ''index''))
           | Some i \<Rightarrow>
               (case set_id d i (pending_at pending i) pending of
                  (pend1, Some e) \<Rightarrow> (pend1, Some e)
                | (pend1, None) \<Rightarrow>
                    (case dget d ''function'' of
                       None \<Rightarrow> append_function [] i pend1
                     | Some (PDict fn) \<Rightarrow> append_function fn i pend1
                     | Some _ \<Rightarrow> (pend1, Some (AttributeError ''get'')))))
      | _ \<Rightarrow> (pending, Some (AttributeError ''get'')))"

fun merge_tool_calls :: "pyval list \<Rightarrow> pending \<Rightarrow> pending \<times> pyexc option" where
  "merge_tool_calls [] pending = (pending, None)"
| "merge_tool_calls (tc # tcs) pending =
     (case merge_tool_call tc pending of
        (pend1, Some e) \<Rightarrow> (pend1, Some e)
      | (pend1, None) \<Rightarrow> merge_tool_calls tcs pend1)"

definition delta_calls :: "pyval \<Rightarrow> pyval list result" where
  "delta_calls v =
     (if \<not> truthy v then Inr []
      else case v of
        PList ts \<Rightarrow> Inr ts
      | PStr s \<Rightarrow> Inr (map (\<lambda>c. PStr [c]) s)
      | PDict d \<Rightarrow> Inr (map (\<lambda>(k, _). PStr k) d)
      | _ \<Rightarrow> Inl (TypeError ''not iterable''))"

definition finished_calls :: "pending \<Rightarrow> (string \<times> string \<times> string) list" where
  "finished_calls pending =
     map (\<lambda>(_, p). (pc_id p, pc_name p, pc_arguments p)) (py_sort_key fst pending)"

text \<open>\<^verbatim>\<open>chunk["choices"][0]\<close>.\<close>

definition first_choice :: "pydict \<Rightarrow> pyval result" where
  "first_choice d =
     (case dget d ''choices'' of
        None \<Rightarrow> Inl (KeyError ''choices'')
      | Some (PList []) \<Rightarrow> Inl IndexError
      | Some (PList (c # _)) \<Rightarrow> Inr c
      | Some (PStr []) \<Rightarrow> Inl IndexError
      | Some (PStr (c # _)) \<Rightarrow> Inr (PStr [c])
      | Some (PDict _) \<Rightarrow> Inl (KeyError ''0'')
      | Some _ \<Rightarrow> Inl (TypeError ''choices''))"

definition usage_dict :: "pydict \<Rightarrow> pydict option" where
  "usage_dict d = (case dget d ''usage'' of Some (PDict u) \<Rightarrow> if u \<noteq> [] then Some u else None | _ \<Rightarrow> None)"

definition usage_chunks :: "pydict \<Rightarrow> chunk list" where
  "usage_chunks d = (case usage_dict d of Some u \<Rightarrow> [Usage u] | None \<Rightarrow> [])"

definition read_delta :: "pydict \<Rightarrow> pyval \<Rightarrow> pydict \<Rightarrow> pending \<Rightarrow> chunk list \<times> pending \<times> pyexc option" where
  "read_delta choice finish delta pending =
     (let content = (case dget delta ''content'' of Some v \<Rightarrow> if truthy v then [Content v] else [] | None \<Rightarrow> [])
      in case delta_calls (case dget delta ''tool_calls'' of Some v \<Rightarrow> v | None \<Rightarrow> PNone) of
           Inl e \<Rightarrow> (content, pending, Some e)
         | Inr tcs \<Rightarrow>
             (case merge_tool_calls tcs pending of
                (pend1, Some e) \<Rightarrow> (content, pend1, Some e)
              | (pend1, None) \<Rightarrow>
                  (content @ (if finish = PStr ''tool_calls'' \<and> pend1 \<noteq> [] then [ToolCalls (finished_calls pend1)] else []),
                   pend1, None)))"

text \<open>One decoded event of the stream: what it yields, and the exception it raises, if any.\<close>

definition read_event :: "pyval \<Rightarrow> pending \<Rightarrow> chunk list \<times> pending \<times> pyexc option" where
  "read_event event pending =
     (case event of
        PDict d \<Rightarrow>
          if usage_dict d \<noteq> None \<and> \<not> truthy_opt (dget d ''choices'') then (usage_chunks d, pending, None)
          else
            (case first_choice d of
               Inl e \<Rightarrow> ([], pending, Some e)
             | Inr (PDict choice) \<Rightarrow>
                 let delta = (case dget choice ''delta'' of Some v \<Rightarrow> if truthy v then v else PDict [] | None \<Rightarrow> PDict []);
                     finish = (case dget choice ''finish_reason'' of Some v \<Rightarrow> v | None \<Rightarrow> PNone)
                 in (case delta of
                       PDict dd \<Rightarrow> (case read_delta choice finish dd pending of
                                      (cs, pend1, e) \<Rightarrow> (usage_chunks d @ cs, pend1, e))
                     | _ \<Rightarrow> (usage_chunks d, pending, Some (AttributeError ''get'')))
             | Inr _ \<Rightarrow> ([], pending, Some (AttributeError ''get'')))
      | _ \<Rightarrow> ([], pending, Some (AttributeError ''get'')))"

text \<open>The exceptions the line loop swallows.\<close>

fun swallowed :: "pyexc \<Rightarrow> bool" where
  "swallowed (KeyError _) = True"
| "swallowed IndexError = True"
| "swallowed (TypeError _) = True"
| "swallowed _ = False"

datatype lines_end = EndOfBody | EndDone | EndBudget | EndRaise pyexc

fun stream_lines :: "config \<Rightarrow> (string \<Rightarrow> pyval option) \<Rightarrow> (real \<times> string) list \<Rightarrow> pending \<Rightarrow> chunk list \<times> lines_end" where
  "stream_lines cfg loads [] pending = ([], EndOfBody)"
| "stream_lines cfg loads ((elapsed, line) # rest) pending =
     (if STREAM_TOTAL_TIMEOUT cfg > 0 \<and> elapsed > of_int (STREAM_TOTAL_TIMEOUT cfg) then ([BudgetExceeded], EndBudget)
      else if \<not> startswith line ''data: '' then stream_lines cfg loads rest pending
      else
        let raw = strip (drop 6 line) in
        if raw = ''[DONE]'' then ([], EndDone)
        else case loads raw of
          None \<Rightarrow> stream_lines cfg loads rest pending
        | Some event \<Rightarrow>
            (case read_event event pending of
               (cs, pend1, Some e) \<Rightarrow>
                 if swallowed e
                 then (case stream_lines cfg loads rest pend1 of (later, fin) \<Rightarrow> (cs @ later, fin))
                 else (cs, EndRaise e)
             | (cs, pend1, None) \<Rightarrow>
                 (case stream_lines cfg loads rest pend1 of (later, fin) \<Rightarrow> (cs @ later, fin))))"

section \<open>The attempts of a streaming call\<close>

record 'r stream_outcome =
  so_chunks :: "chunk list"
  so_end :: "unit result"
  so_log :: wire_log
  so_state :: "'r nim_state"

definition stream_end :: "chunk list \<Rightarrow> unit result \<Rightarrow> wire_log \<Rightarrow> 'r nim_state \<Rightarrow> 'r stream_outcome" where
  "stream_end cs e wl st = \<lparr>so_chunks = cs, so_end = e, so_log = wl, so_state = st\<rparr>"

definition prepend :: "chunk list \<Rightarrow> 'r stream_outcome \<Rightarrow> 'r stream_outcome" where
  "prepend cs out = out\<lparr>so_chunks := cs @ so_chunks out\<rparr>"

fun stream_attempts :: "config \<Rightarrow> 'r health_store \<Rightarrow> (string \<Rightarrow> pyval option) \<Rightarrow> (nat \<Rightarrow> stream_env) \<Rightarrow> string \<Rightarrow>
    nat list \<Rightarrow> wire_log \<Rightarrow> 'r nim_state \<Rightarrow> 'r stream_outcome" where
  "stream_attempts cfg hs loads env model [] wl st = stream_end [] (Inr ()) wl st"
| "stream_attempts cfg hs loads env model (a # as) wl st =
     (let e = env a;
          (base_url, ep) = pick_chat_url cfg hs True (se_probe e) (se_mono e) (ns_endpoint st);
          st1 = st\<lparr>ns_endpoint := ep\<rparr>;
          wl1 = wl @ [(base_url, auth_headers cfg (Some base_url))];
          primary_failed = is_primary cfg base_url;
          st2 = (if primary_failed then demote_primary cfg hs (se_mono e) st1 else st1);
          retry = int a < MAX_RETRIES cfg;
          gave_up = (if primary_failed then st2 else note_failure cfg (se_wall e) model st2);
          on_network = (\<lambda>cs. if retry then prepend cs (stream_attempts cfg hs loads env model as wl1 st2)
                             else stream_end cs (Inl RequestError) wl1 gave_up)
      in case se_reply e base_url of
           StreamResponse status lines whole \<Rightarrow>
             if status \<noteq> 200 then
               (if primary_failed \<and> retry \<or> status \<in> {429, 503} \<and> retry
                then stream_attempts cfg hs loads env model as wl1 st2
                else stream_end [] (Inr ()) wl1 gave_up)
             else
               (case stream_lines cfg loads lines [] of
                  (cs, EndBudget) \<Rightarrow> stream_end cs (Inr ()) wl1 st1
                | (cs, EndRaise x) \<Rightarrow> stream_end cs (Inl x) wl1 st1
                | (cs, EndDone) \<Rightarrow> stream_end cs (Inr ()) wl1 (note_success cfg model st1)
                | (cs, EndOfBody) \<Rightarrow>
                    if whole then stream_end cs (Inr ()) wl1 (note_success cfg model st1)
                    else on_network cs)
         | StreamNetworkError \<Rightarrow> on_network []
         | StreamOtherError \<Rightarrow> stream_end [] (Inl OtherError) wl1 st1)"

definition call_stream :: "config \<Rightarrow> 'r health_store \<Rightarrow> (string \<Rightarrow> pyval option) \<Rightarrow> bool \<Rightarrow> real \<Rightarrow>
    (nat \<Rightarrow> stream_env) \<Rightarrow> string \<Rightarrow> 'r nim_state \<Rightarrow> 'r stream_outcome" where
  "call_stream cfg hs loads client wall env model st =
     (if \<not> client then stream_end [] (Inl (RuntimeError ''HTTP client not initialized'')) [] st
      else if \<not> has_key cfg then stream_end [] (Inl (RuntimeError ''Missing NVIDIA_API_KEY'')) [] st
      else case is_open wall model (ns_breaker st) of
        (Inl e, b) \<Rightarrow> stream_end [] (Inl e) [] (st\<lparr>ns_breaker := b\<rparr>)
      | (Inr True, b) \<Rightarrow> stream_end [] (Inl (RuntimeError ''circuit_open'')) [] (st\<lparr>ns_breaker := b\<rparr>)
      | (Inr False, b) \<Rightarrow>
          stream_attempts cfg hs loads env model (attempts cfg) [] (st\<lparr>ns_breaker := b\<rparr>))"

section \<open>What reaches the wire\<close>

definition bearer :: "string \<Rightarrow> string" where
  "bearer k = ''Bearer '' @ k"

text \<open>
  The credentials of a request are those of its endpoint: towards the primary at most the
  primary's own key, towards anything else at most the NVIDIA key.
\<close>

definition own_credentials :: "config \<Rightarrow> string \<times> headers \<Rightarrow> bool" where
  "own_credentials cfg req =
     (case dget (snd req) ''Authorization'' of
        None \<Rightarrow> True
      | Some v \<Rightarrow> if is_primary cfg (fst req) then v = bearer (LLM_PRIMARY_API_KEY cfg)
                  else (\<exists>k. NVIDIA_API_KEY cfg = Some k \<and> v = bearer k))"

lemma own_credentials_auth: "own_credentials cfg (u, auth_headers cfg (Some u))"
  by (auto simp: own_credentials_def auth_headers_def Let_def bearer_def dget_dset dget_Cons split: option.splits)

lemma call_attempts_wire:
  "list_all (own_credentials cfg) wl \<Longrightarrow>
   list_all (own_credentials cfg) (fst (snd (call_attempts cfg hs env model as wl st)))
   \<and> length (fst (snd (call_attempts cfg hs env model as wl st))) \<le> length wl + length as"
proof (induction as arbitrary: wl st)
  case Nil
  then show ?case by simp
next
  case (Cons a as)
  obtain u ep where pick: "pick_chat_url cfg hs True (ae_probe (env a)) (ae_mono (env a)) (ns_endpoint st) = (u, ep)"
    by (cases "pick_chat_url cfg hs True (ae_probe (env a)) (ae_mono (env a)) (ns_endpoint st)")
  obtain r st2 where h: "handle_reply cfg hs (env a) model u (st\<lparr>ns_endpoint := ep\<rparr>) = (r, st2)"
    by (cases "handle_reply cfg hs (env a) model u (st\<lparr>ns_endpoint := ep\<rparr>)")
  have wl1: "list_all (own_credentials cfg) (wl @ [(u, auth_headers cfg (Some u))])"
    using Cons.prems by (simp add: own_credentials_auth)
  from Cons.IH [OF wl1, of st2] show ?case
    using wl1 by (cases r) (auto simp: pick h Let_def)
qed

lemma stream_attempts_wire:
  "list_all (own_credentials cfg) wl \<Longrightarrow>
   list_all (own_credentials cfg) (so_log (stream_attempts cfg hs loads env model as wl st))"
proof (induction as arbitrary: wl st)
  case Nil
  then show ?case by (simp add: stream_end_def)
next
  case (Cons a as)
  obtain u ep where pick: "pick_chat_url cfg hs True (se_probe (env a)) (se_mono (env a)) (ns_endpoint st) = (u, ep)"
    by (cases "pick_chat_url cfg hs True (se_probe (env a)) (se_mono (env a)) (ns_endpoint st)")
  have "list_all (own_credentials cfg) (wl @ [(u, auth_headers cfg (Some u))])"
    using Cons.prems by (simp add: own_credentials_auth)
  then show ?case
    using Cons.IH
    by (simp add: pick Let_def stream_end_def prepend_def
        split: stream_reply.splits lines_end.splits prod.splits)
qed

text \<open>
  C3. The paid credential never leaves for the self-hosted box: every request of a call or of a
  streaming call, over all retries and fail-overs, carries at most the credential of its own
  endpoint; the NVIDIA key is never sent to the primary URL and the primary's key never
  elsewhere. A call makes at most \<^verbatim>\<open>MAX_RETRIES + 1\<close> requests.
\<close>

theorem credentials_stay_home:
  "list_all (own_credentials cfg) (fst (snd (nim_call cfg hs client wall env model st)))
   \<and> list_all (own_credentials cfg) (so_log (call_stream cfg hs loads client wall senv model st))
   \<and> length (fst (snd (nim_call cfg hs client wall env model st))) \<le> nat (MAX_RETRIES cfg + 1)"
proof -
  have n: "length (attempts cfg) = nat (MAX_RETRIES cfg + 1)" by (simp add: attempts_def)
  obtain r b where o: "is_open wall model (ns_breaker st) = (r, b)" by (cases "is_open wall model (ns_breaker st)")
  obtain x wl st' where c: "call_attempts cfg hs env model (attempts cfg) [] (st\<lparr>ns_breaker := b\<rparr>) = (x, wl, st')"
    by (cases "call_attempts cfg hs env model (attempts cfg) [] (st\<lparr>ns_breaker := b\<rparr>)") auto
  have "list_all (own_credentials cfg) wl \<and> length wl \<le> nat (MAX_RETRIES cfg + 1)"
    using call_attempts_wire [of cfg "[]" hs env model "attempts cfg" "st\<lparr>ns_breaker := b\<rparr>"] by (simp add: c n)
  then show ?thesis
    using stream_attempts_wire [of cfg "[]" hs loads senv model "attempts cfg" "st\<lparr>ns_breaker := b\<rparr>"]
    by (simp add: nim_call_def call_stream_def stream_end_def Let_def o c split: sum.splits bool.splits)
qed

section \<open>Fail-over inside one call\<close>

definition primary_fault :: "http_reply \<Rightarrow> bool" where
  "primary_fault r = (case r of HttpResponse st _ \<Rightarrow> st \<noteq> 200 | NetworkError \<Rightarrow> True | OtherException \<Rightarrow> False)"

lemma handle_primary_fault:
  assumes "is_primary cfg u" and "primary_fault (ae_reply env u)"
  shows "handle_reply cfg hs env model u st = (None, demote_primary cfg hs (ae_mono env) st)"
  using assms by (auto simp: handle_reply_def primary_fault_def split: http_reply.splits)

definition text_reply :: "string \<Rightarrow> http_reply" where
  "text_reply c = HttpResponse 200 (Some (PDict [(''choices'', PList [PDict [(''message'', PDict [(''content'', PStr c)])]])]))"

lemma handle_text_reply:
  assumes "ae_reply env u = text_reply c" and "strip c \<noteq> []"
  shows "handle_reply cfg hs env model u st =
     (Some \<lparr>nr_ok = True, nr_error = None, nr_content = Some (strip c), nr_tool_calls = None,
            nr_usage = None, nr_model = model\<rparr>, note_success cfg model st)"
proof -
  have "extract_reply (PDict [(''choices'', PList [PDict [(''message'', PDict [(''content'', PStr c)])]])])
      = (Some (strip c), None)"
    using assms(2) by (simp add: extract_reply_def extract_body_def extract_choice_def pget_def dget_def stripped_text_def)
  then show ?thesis
    using assms by (simp add: handle_reply_def text_reply_def dget_def strip_idem)
qed

text \<open>
  A dead primary costs one retry, not the answer: if fail-over is on and the first attempt
  goes to the primary and fails there (any status but 200, or a network error), then the second
  attempt goes to the NIM URL in the same call, and its answer is the caller's; the primary's
  failure is not counted against the model, whose circuit is closed afterwards.
\<close>

theorem primary_failure_falls_over:
  assumes "failover_on cfg" and "NIM_URL cfg \<noteq> LLM_PRIMARY_URL cfg" and "1 \<le> MAX_RETRIES cfg" and "has_key cfg"
    and "fst (is_open wall model (ns_breaker st)) = Inr False"
    and pick: "pick_chat_url cfg hs True (ae_probe (env 0)) (ae_mono (env 0)) (ns_endpoint st) = (LLM_PRIMARY_URL cfg, ep)"
    and "primary_fault (ae_reply (env 0) (LLM_PRIMARY_URL cfg))"
    and "redis_verdict_kept hs" and "verdict_reaches cfg hs (ae_mono (env 0)) False ep (ae_mono (env 1))"
    and "0 < ae_mono (env 0)" and "ae_mono (env 0) \<le> ae_mono (env 1)"
    and "ae_mono (env 1) < ae_mono (env 0) + of_int (health_ttl cfg)"
    and "ae_reply (env 1) (NIM_URL cfg) = text_reply c" and "strip c \<noteq> []"
  shows "\<exists>r wl st'. nim_call cfg hs True wall env model st = (Inr r, wl, st')
      \<and> nr_ok r \<and> nr_content r = Some (strip c)
      \<and> map fst wl = [LLM_PRIMARY_URL cfg, NIM_URL cfg]
      \<and> failure_count (ns_breaker st') model = 0 \<and> opened (ns_breaker st') model = None"
proof -
  obtain b where b: "is_open wall model (ns_breaker st) = (Inr False, b)"
    using assms(5) by (cases "is_open wall model (ns_breaker st)") auto
  have prim: "is_primary cfg (LLM_PRIMARY_URL cfg)" using assms(1) by (simp add: is_primary_def failover_on_def)
  have as: "attempts cfg = 0 # 1 # [2 ..< nat (MAX_RETRIES cfg + 1)]"
    using assms(3) by (simp add: attempts_def upt_conv_Cons numeral_2_eq_2)
  let ?st1 = "st\<lparr>ns_breaker := b, ns_endpoint := ep\<rparr>"
  have h0: "handle_reply cfg hs (env 0) model (LLM_PRIMARY_URL cfg) ?st1 =
      (None, demote_primary cfg hs (ae_mono (env 0)) ?st1)"
    using prim assms(7) by (rule handle_primary_fault)
  have pick1: "pick_chat_url cfg hs True (ae_probe (env 1)) (ae_mono (env 1))
      (mark_primary_unhealthy cfg hs (ae_mono (env 0)) ep) =
      (NIM_URL cfg, mark_primary_unhealthy cfg hs (ae_mono (env 0)) ep)"
    using assms(8-12) by (rule marked_primary_skipped)
  have h1: "handle_reply cfg hs (env 1) model (NIM_URL cfg) s =
     (Some \<lparr>nr_ok = True, nr_error = None, nr_content = Some (strip c), nr_tool_calls = None,
            nr_usage = None, nr_model = model\<rparr>, note_success cfg model s)" for s
    using assms(13,14) by (rule handle_text_reply)
  show ?thesis
    using assms(4) pick pick1 h0 h1
    by (simp add: nim_call_def b as Let_def demote_primary_def note_success_def record_success_def failure_count_def)
qed

text \<open>A primary that answers 502 at time 10 and a NIM that answers at time 11.\<close>

definition sample_attempts :: "nat \<Rightarrow> attempt_env" where
  "sample_attempts a = \<lparr>ae_mono = 10 + of_nat a, ae_wall = 1000 + of_nat a, ae_probe = (\<lambda>_. Inr 200),
     ae_reply = (\<lambda>u. if u = LLM_PRIMARY_URL sample_failover then HttpResponse 502 None else text_reply '' hi '')\<rparr>"

definition sample_nim :: config where
  "sample_nim = sample_failover\<lparr>NVIDIA_API_KEY := Some ''k'', MAX_RETRIES := 2\<rparr>"

theorem primary_failure_falls_over_witness:
  "\<exists>r wl st'. nim_call sample_nim sample_store True 1000 sample_attempts ''m''
         \<lparr>ns_breaker = init_breaker, ns_endpoint = \<lparr>ep_local = None, ep_redis = None\<rparr>\<rparr> = (Inr r, wl, st')
      \<and> nr_ok r \<and> nr_content r = Some (strip '' hi '')
      \<and> map fst wl = [LLM_PRIMARY_URL sample_nim, NIM_URL sample_nim]
      \<and> failure_count (ns_breaker st') ''m'' = 0 \<and> opened (ns_breaker st') ''m'' = None"
proof -
  let ?ep = "\<lparr>ep_local = None, ep_redis = None\<rparr> :: (string \<times> real) option endpoint_state"
  let ?ep1 = "snd (pick_chat_url sample_nim sample_store True (\<lambda>_. Inr 200) 10 ?ep)"
  have p: "pick_chat_url sample_nim sample_store True (ae_probe (sample_attempts 0)) (ae_mono (sample_attempts 0)) ?ep =
      (LLM_PRIMARY_URL sample_nim, ?ep1)"
    by (simp add: sample_attempts_def) code_simp
  show ?thesis
    by (rule primary_failure_falls_over [OF _ _ _ _ _ _ _ sample_store_ok, where ep = ?ep1])
       (simp_all add: p, simp_all add: sample_nim_def sample_attempts_def verdict_reaches_def sample_store_def sample_failover_def default_config_def
          failover_on_def has_key_def set_and_nonempty_def init_breaker_def is_open_def primary_fault_def
          health_ttl_def text_reply_def strip_def lstrip_def rstrip_def py_isspace_def code_def)
qed

section \<open>An accepted answer is an answer\<close>

definition good_result :: "nim_result \<Rightarrow> bool" where
  "good_result r = (nr_error r = None \<and>
     (case nr_tool_calls r of
        Some t \<Rightarrow> truthy t \<and> nr_content r = None
      | None \<Rightarrow> (case nr_content r of Some c \<Rightarrow> c \<noteq> [] \<and> strip c = c | None \<Rightarrow> False)))"

lemma handle_reply_good:
  assumes "handle_reply cfg hs env model u st = (Some r, st')"
  shows "if nr_ok r then good_result r else nr_error r \<noteq> None \<and> nr_content r = None \<and> nr_tool_calls r = None"
  using assms
  by (auto simp: handle_reply_def nim_failed_def good_result_def Let_def strip_idem
      split: http_reply.splits option.splits pyval.splits if_splits prod.splits)

lemma call_attempts_good:
  assumes "call_attempts cfg hs env model as wl st = (r, wl', st')"
  shows "if nr_ok r then good_result r else nr_error r \<noteq> None \<and> nr_content r = None \<and> nr_tool_calls r = None"
  using assms
proof (induction as arbitrary: wl st)
  case Nil
  then show ?case by (auto simp: nim_failed_def)
next
  case (Cons a as)
  obtain u ep where pick: "pick_chat_url cfg hs True (ae_probe (env a)) (ae_mono (env a)) (ns_endpoint st) = (u, ep)"
    by (cases "pick_chat_url cfg hs True (ae_probe (env a)) (ae_mono (env a)) (ns_endpoint st)")
  obtain q st2 where h: "handle_reply cfg hs (env a) model u (st\<lparr>ns_endpoint := ep\<rparr>) = (q, st2)"
    by (cases "handle_reply cfg hs (env a) model u (st\<lparr>ns_endpoint := ep\<rparr>)")
  show ?case
  proof (cases q)
    case None
    with Cons.prems show ?thesis by (intro Cons.IH) (simp add: pick h Let_def)
  next
    case (Some y)
    with Cons.prems have "r = y" by (simp add: pick h Let_def)
    with handle_reply_good h Some show ?thesis by blast
  qed
qed

text \<open>
  A call that reports success carries an answer: either a non-empty list of tool calls and
  no text, or a non-empty text without surrounding white space and no tool calls. A call that
  reports failure names the error and carries neither.
\<close>

theorem ok_call_has_answer:
  assumes "nim_call cfg hs client wall env model st = (Inr r, wl, st')"
  shows "if nr_ok r then good_result r else nr_error r \<noteq> None \<and> nr_content r = None \<and> nr_tool_calls r = None"
proof -
  obtain open_now b where o: "is_open wall model (ns_breaker st) = (open_now, b)"
    by (cases "is_open wall model (ns_breaker st)")
  obtain x wl2 st2 where c: "call_attempts cfg hs env model (attempts cfg) [] (st\<lparr>ns_breaker := b\<rparr>) = (x, wl2, st2)"
    by (cases "call_attempts cfg hs env model (attempts cfg) [] (st\<lparr>ns_breaker := b\<rparr>)") auto
  from assms have "r = nim_failed model ''circuit_open'' \<or> r = x"
    by (auto simp: nim_call_def o c split: if_splits sum.splits bool.splits)
  then show ?thesis using call_attempts_good [OF c] by (auto simp: nim_failed_def)
qed

theorem ok_call_has_answer_witness:
  "good_result \<lparr>nr_ok = True, nr_error = None, nr_content = Some ''hi'', nr_tool_calls = None, nr_usage = None, nr_model = ''m''\<rparr>
   \<and> (\<exists>wl st'. nim_call sample_nim sample_store True 1000 sample_attempts ''m''
         \<lparr>ns_breaker = init_breaker, ns_endpoint = \<lparr>ep_local = None, ep_redis = None\<rparr>\<rparr>
       = (Inr \<lparr>nr_ok = True, nr_error = None, nr_content = Some ''hi'', nr_tool_calls = None, nr_usage = None, nr_model = ''m''\<rparr>, wl, st'))"
proof -
  let ?st = "\<lparr>ns_breaker = init_breaker, ns_endpoint = \<lparr>ep_local = None, ep_redis = None\<rparr>\<rparr> :: (string \<times> real) option nim_state"
  let ?r = "\<lparr>nr_ok = True, nr_error = None, nr_content = Some ''hi'', nr_tool_calls = None, nr_usage = None, nr_model = ''m''\<rparr>"
  let ?x = "nim_call sample_nim sample_store True 1000 sample_attempts ''m'' ?st"
  have "fst ?x = Inr ?r" by code_simp
  then have x: "?x = (Inr ?r, fst (snd ?x), snd (snd ?x))" by (metis prod.collapse)
  have "good_result ?r" using ok_call_has_answer [OF x] by simp
  with x show ?thesis by blast
qed

section \<open>Streams that break\<close>

text \<open>
  A stream that breaks in the middle is started again from the beginning: when the first
  attempt yields some chunks and then the connection fails, with retries left, and the second
  attempt runs to its end, the consumer of the generator receives the chunks of the broken
  attempt followed by all the chunks of the second one, and a normal end; nothing tells it that
  the first part was repeated.
\<close>

theorem broken_stream_is_replayed:
  assumes "has_key cfg" and "1 \<le> MAX_RETRIES cfg"
    and "fst (is_open wall model (ns_breaker st)) = Inr False"
    and "\<not> failover_on cfg"
    and "se_reply (env 0) (NIM_URL cfg) = StreamResponse 200 part False"
    and "stream_lines cfg loads part [] = (cs, EndOfBody)"
    and "se_reply (env 1) (NIM_URL cfg) = StreamResponse 200 full True"
    and "stream_lines cfg loads full [] = (ds, EndDone)"
  shows "so_chunks (call_stream cfg hs loads True wall env model st) = cs @ ds
       \<and> so_end (call_stream cfg hs loads True wall env model st) = Inr ()"
proof -
  obtain b where b: "is_open wall model (ns_breaker st) = (Inr False, b)"
    using assms(3) by (cases "is_open wall model (ns_breaker st)") auto
  have as: "attempts cfg = 0 # 1 # [2 ..< nat (MAX_RETRIES cfg + 1)]"
    using assms(2) by (simp add: attempts_def upt_conv_Cons numeral_2_eq_2)
  show ?thesis
    using assms by (simp add: call_stream_def b as pick_nim_if_off Let_def prepend_def stream_end_def)
qed

text \<open>The JSON parser of the example knows two events.\<close>

definition text_event :: "string \<Rightarrow> pyval" where
  "text_event c = PDict [(''choices'', PList [PDict [(''delta'', PDict [(''content'', PStr c)])]])]"

definition sample_loads :: "string \<Rightarrow> pyval option" where
  "sample_loads raw = (if raw = ''1'' then Some (text_event ''Hel'') else if raw = ''2'' then Some (text_event ''Hello'') else None)"

definition sample_senv :: "nat \<Rightarrow> stream_env" where
  "sample_senv a = \<lparr>se_mono = 10, se_wall = 1000, se_probe = (\<lambda>_. Inr 200),
     se_reply = (\<lambda>_. if a = 0 then StreamResponse 200 [(1, ''data: 1'')] False
                     else StreamResponse 200 [(1, ''data: 2''), (2, ''data: [DONE]'')] True)\<rparr>"

definition sample_plain :: config where
  "sample_plain = default_config\<lparr>NVIDIA_API_KEY := Some ''k'', MAX_RETRIES := 2\<rparr>"

theorem broken_stream_is_replayed_witness:
  "so_chunks (call_stream sample_plain sample_store sample_loads True 1000 sample_senv ''m''
      \<lparr>ns_breaker = init_breaker, ns_endpoint = \<lparr>ep_local = None, ep_redis = None\<rparr>\<rparr>)
   = [Content (PStr ''Hel''), Content (PStr ''Hello'')]"
proof -
  let ?st = "\<lparr>ns_breaker = init_breaker, ns_endpoint = \<lparr>ep_local = None, ep_redis = None\<rparr>\<rparr> :: (string \<times> real) option nim_state"
  have l: "stream_lines sample_plain sample_loads [(1, ''data: 1'')] [] = ([Content (PStr ''Hel'')], EndOfBody)"
    "stream_lines sample_plain sample_loads [(1, ''data: 2''), (2, ''data: [DONE]'')] [] = ([Content (PStr ''Hello'')], EndDone)"
    by code_simp+
  have "has_key sample_plain" "1 \<le> MAX_RETRIES sample_plain" "fst (is_open 1000 ''m'' (ns_breaker ?st)) = Inr False"
    "\<not> failover_on sample_plain"
    by code_simp+
  from broken_stream_is_replayed [OF this _ l(1) _ l(2), of sample_senv sample_store] show ?thesis
    by (simp add: sample_senv_def)
qed

section \<open>Tool calls arrive in pieces\<close>

definition call_fragment :: "int \<times> string \<times> string \<Rightarrow> pyval" where
  "call_fragment = (\<lambda>(i, nm, args). PDict [(''index'', PInt i),
     (''function'', PDict [(''name'', PStr nm), (''arguments'', PStr args)])])"

lemma merge_call_fragment:
  "merge_tool_call (call_fragment (i, nm, args)) pending =
     (dset (dset (dset pending i (pending_at pending i)) i ((pending_at pending i)\<lparr>pc_name := pc_name (pending_at pending i) @ nm\<rparr>)) i
        ((pending_at pending i)\<lparr>pc_name := pc_name (pending_at pending i) @ nm, pc_arguments := pc_arguments (pending_at pending i) @ args\<rparr>), None)"
proof -
  have "fragment [(''name'', PStr nm), (''arguments'', PStr args)] ''name'' = Inr nm"
    "fragment [(''name'', PStr nm), (''arguments'', PStr args)] ''arguments'' = Inr args"
    by (simp_all add: fragment_def dget_Cons)
  moreover have "pending_at (dset pending i p) i = p" for p by (simp add: pending_at_def)
  ultimately show ?thesis
    by (simp add: merge_tool_call_def call_fragment_def dget_Cons set_id_def append_function_def Let_def)
qed

lemma pending_at_dset: "pending_at (dset pending i p) j = (if j = i then p else pending_at pending j)"
  by (simp add: pending_at_def dget_dset)

lemma merge_fragments:
  "snd (merge_tool_calls (map call_fragment frs) pending) = None \<and>
   pc_name (pending_at (fst (merge_tool_calls (map call_fragment frs) pending)) i) =
     pc_name (pending_at pending i) @ concat [nm. (j, nm, _) \<leftarrow> frs, j = i] \<and>
   pc_arguments (pending_at (fst (merge_tool_calls (map call_fragment frs) pending)) i) =
     pc_arguments (pending_at pending i) @ concat [args. (j, _, args) \<leftarrow> frs, j = i]"
proof (induction frs arbitrary: pending)
  case Nil
  then show ?case by simp
next
  case (Cons f frs)
  obtain j nm args where f: "f = (j, nm, args)" by (cases f)
  show ?case
    using Cons.IH by (simp add: f merge_call_fragment pending_at_dset)
qed

text \<open>
  C24. Tool calls are put together again: whatever the order in which the fragments of several
  calls interleave in the stream, the name and the arguments collected for a call are the
  concatenation, in order of arrival, of that call's fragments, and no fragment raises.
\<close>

theorem fragments_reassembled:
  "snd (merge_tool_calls (map call_fragment frs) []) = None \<and>
   pc_name (pending_at (fst (merge_tool_calls (map call_fragment frs) [])) i) = concat [nm. (j, nm, _) \<leftarrow> frs, j = i] \<and>
   pc_arguments (pending_at (fst (merge_tool_calls (map call_fragment frs) [])) i) = concat [args. (j, _, args) \<leftarrow> frs, j = i]"
  using merge_fragments [of frs "[]" i] by (simp add: pending_at_def)

end
