(* ===== verification/Rate_Limiter.thy ===== *)
theory Rate_Limiter
  imports Settings
begin

text \<open>
  \<^verbatim>\<open>backend/rate_limiter/rate_limiter.py\<close> and \<^verbatim>\<open>model_limits.py\<close>: who a request is counted
  against, which bucket an explicitly chosen model belongs to, and the sliding window kept in a
  Redis sorted set. Redis is not part of the repository: a transaction is a parameter, and what
  the code relies on is \<open>zset_laws\<close>, the documented effect of the four commands. So are the JWT
  decoder (its verified \<^verbatim>\<open>sub\<close> claim) and \<^verbatim>\<open>str\<close> of a time stamp.
\<close>

section \<open>Who is counted\<close>

record request =
  rq_current_user :: "string option"
  rq_authorization :: "string option"
  rq_forwarded_for :: "string option"
  rq_client_host :: "string option"

definition get_client_ip :: "request \<Rightarrow> string" where
  "get_client_ip req =
     (if set_and_nonempty (rq_forwarded_for req) then strip (hd (split_on (CHR '','') (the (rq_forwarded_for req))))
      else case rq_client_host req of Some h \<Rightarrow> h | None \<Rightarrow> ''unknown'')"

definition get_key :: "(string \<Rightarrow> string option result) \<Rightarrow> request \<Rightarrow> string" where
  "get_key jwt_sub req =
     (case rq_current_user req of
        Some u \<Rightarrow> ''user:'' @ u
      | None \<Rightarrow>
          let auth = (case rq_authorization req of Some a \<Rightarrow> a | None \<Rightarrow> []);
              by_ip = ''ip:'' @ get_client_ip req
          in if startswith auth ''Bearer '' then
               (case jwt_sub (drop 7 auth) of
                  Inr sub \<Rightarrow> if set_and_nonempty sub then ''user:'' @ the sub else by_ip
                | Inl _ \<Rightarrow> by_ip)
             else by_ip)"

section \<open>The bucket of a model\<close>

definition is_ephemeral_demo :: "string \<Rightarrow> bool" where
  "is_ephemeral_demo username = startswith username ''demo_''"

definition resolve_bucket :: "config \<Rightarrow> string \<Rightarrow> string \<Rightarrow> (string \<times> int \<times> int) option" where
  "resolve_bucket cfg full_model_name username =
     (case List.find (\<lambda>(k, v). v = full_model_name) (MODELS cfg) of
        Some (role_key, _) \<Rightarrow>
          (case dget (MODEL_RATE_LIMITS cfg) role_key of
             None \<Rightarrow> None
           | Some (limit_count, window) \<Rightarrow> Some (role_key, limit_count, window))
      | None \<Rightarrow>
          let (limit_count, window) = (case dget (MODEL_RATE_LIMITS cfg) ''catalog'' of Some b \<Rightarrow> b | None \<Rightarrow> (20, 60));
              limit_count = (if DEMO_EPHEMERAL_ENABLED cfg \<and> is_ephemeral_demo username
                             then max 1 (limit_count div 2) else limit_count)
          in Some (''catalog'', limit_count, window))"

section \<open>The sliding window\<close>

datatype zcmd =
    ZRemRangeByScore string real real
  | ZAdd string string real
  | ZCard string
  | Expire string int

text \<open>
  A transaction: the server time, the commands, the store; the replies, or the error.
\<close>

type_synonym 'r zset_exec = "real \<Rightarrow> zcmd list \<Rightarrow> 'r \<Rightarrow> int list result \<times> 'r"

definition window_cmds :: "(real \<Rightarrow> string) \<Rightarrow> real \<Rightarrow> string \<Rightarrow> int \<Rightarrow> zcmd list" where
  "window_cmds fs now key window =
     [ZRemRangeByScore key 0 (now - of_int window), ZAdd key (fs now) now, ZCard key, Expire key window]"

text \<open>
  The body both limiters share in the source, with the text of the refusal. The flag tells
  whether the Redis client was set up at start.
\<close>

definition sliding_window :: "'r zset_exec \<Rightarrow> (real \<Rightarrow> string) \<Rightarrow> bool \<Rightarrow> string \<Rightarrow> int \<Rightarrow> int \<Rightarrow> string \<Rightarrow>
    real \<Rightarrow> 'r \<Rightarrow> unit result \<times> 'r" where
  "sliding_window exec fs up key limit window detail now r =
     (if \<not> up then (Inr (), r)
      else case exec now (window_cmds fs now key window) r of
        (Inl e, r') \<Rightarrow> if e = RedisError then (Inr (), r') else (Inl e, r')
      | (Inr results, r') \<Rightarrow>
          if length results \<le> 2 then (Inl IndexError, r')
          else if results ! 2 > limit then (Inl (HTTPException 429 detail), r')
          else (Inr (), r'))"

definition rate_key :: "string \<Rightarrow> string \<Rightarrow> string" where
  "rate_key scope k = ''rate:'' @ scope @ '':'' @ k"

definition rate_limiter :: "'r zset_exec \<Rightarrow> (real \<Rightarrow> string) \<Rightarrow> (string \<Rightarrow> string option result) \<Rightarrow> bool \<Rightarrow>
    int \<Rightarrow> int \<Rightarrow> string \<Rightarrow> real \<Rightarrow> request \<Rightarrow> 'r \<Rightarrow> unit result \<times> 'r" where
  "rate_limiter exec fs jwt_sub up limit window scope now req r =
     sliding_window exec fs up (rate_key scope (get_key jwt_sub req)) limit window
       ''Rate limit exceeded'' now r"

definition check_model_rate :: "config \<Rightarrow> 'r zset_exec \<Rightarrow> (real \<Rightarrow> string) \<Rightarrow> bool \<Rightarrow> string \<Rightarrow> string \<Rightarrow>
    real \<Rightarrow> 'r \<Rightarrow> unit result \<times> 'r" where
  "check_model_rate cfg exec fs up full_model_name username now r =
     (case resolve_bucket cfg full_model_name username of
        None \<Rightarrow> (Inr (), r)
      | Some (bucket_key, limit_count, window) \<Rightarrow>
          sliding_window exec fs up (''rate:model:'' @ bucket_key @ '':user:'' @ username) limit_count window
            (''Rate limit exceeded for '' @ bucket_key @ '' ('' @ int_str limit_count @ '' req/min)'') now r)"

section \<open>What Redis promises\<close>

text \<open>
  The members of a key at a time, with their scores, as the store answers. A transaction of the
  window shape, at a time no earlier than the key's last use, first removes the scores between
  the bounds, then adds the member, counts, and lets the key live for the given seconds; other
  keys are not touched, and a key only changes by time when it expires.
\<close>

definition zset_laws :: "'r zset_exec \<Rightarrow> ('r \<Rightarrow> real \<Rightarrow> string \<Rightarrow> (string \<rightharpoonup> real)) \<Rightarrow> bool" where
  "zset_laws exec content =
     ((\<forall>now key lo hi m s ttl r. 0 < ttl \<longrightarrow> finite (dom (content r now key)) \<longrightarrow>
        (let z = ((content r now key) |` {x. \<not> (\<exists>v. content r now key x = Some v \<and> lo \<le> v \<and> v \<le> hi)})(m \<mapsto> s);
             out = exec now [ZRemRangeByScore key lo hi, ZAdd key m s, ZCard key, Expire key ttl] r
         in (case fst out of
               Inl _ \<Rightarrow> True
             | Inr res \<Rightarrow> length res = 4 \<and> res ! 2 = int (card (dom z)))
            \<and> (isl (fst out) \<or> (\<forall>t. now \<le> t \<longrightarrow> t < now + of_int ttl \<longrightarrow> content (snd out) t key = z))
            \<and> (isl (fst out) \<or> (\<forall>t. now + of_int ttl \<le> t \<longrightarrow> content (snd out) t key = Map.empty))
            \<and> (\<forall>t k. k \<noteq> key \<longrightarrow> content (snd out) t k = content r t k))))"

section \<open>Sequences of requests\<close>

fun limiter_run :: "'r zset_exec \<Rightarrow> (real \<Rightarrow> string) \<Rightarrow> (string \<Rightarrow> string option result) \<Rightarrow>
    int \<Rightarrow> int \<Rightarrow> string \<Rightarrow> (real \<times> request) list \<Rightarrow> 'r \<Rightarrow> unit result list \<times> 'r" where
  "limiter_run exec fs jwt_sub limit window scope [] r = ([], r)"
| "limiter_run exec fs jwt_sub limit window scope ((now, req) # es) r =
     (let (out, r1) = rate_limiter exec fs jwt_sub True limit window scope now req r;
          (outs, r2) = limiter_run exec fs jwt_sub limit window scope es r1
      in (out # outs, r2))"

lemma limiter_run_append:
  "limiter_run exec fs jwt_sub limit window scope (es @ fr) r =
     (let (outs, r1) = limiter_run exec fs jwt_sub limit window scope es r;
          (outs2, r2) = limiter_run exec fs jwt_sub limit window scope fr r1
      in (outs @ outs2, r2))"
  by (induction es arbitrary: r) (auto simp: Let_def split: prod.splits)

lemma length_limiter_run [simp]: "length (fst (limiter_run exec fs jwt_sub limit window scope es r)) = length es"
proof (induction es arbitrary: r)
  case Nil
  then show ?case by simp
next
  case (Cons e es)
  show ?case using Cons.IH by (cases e) (simp add: Let_def case_prod_beta)
qed

text \<open>The times of the requests counted against a key.\<close>

definition key_times :: "(string \<Rightarrow> string option result) \<Rightarrow> string \<Rightarrow> (real \<times> request) list \<Rightarrow> real set" where
  "key_times jwt_sub k es = fst ` {e \<in> set es. get_key jwt_sub (snd e) = k}"

definition arrivals :: "(real \<times> request) list \<Rightarrow> bool" where
  "arrivals es = (sorted (map fst es) \<and> (\<forall>e \<in> set es. 0 < fst e))"

definition redis_answers :: "'r zset_exec \<Rightarrow> bool" where
  "redis_answers exec = (\<forall>now cmds r. \<not> isl (fst (exec now cmds r)))"

text \<open>
  The stored set is the recent past: at every later time, the members of the key are requests of
  the key, and every request of the last window is a member.
\<close>

definition window_inv :: "('r \<Rightarrow> real \<Rightarrow> string \<Rightarrow> (string \<rightharpoonup> real)) \<Rightarrow> (real \<Rightarrow> string) \<Rightarrow> int \<Rightarrow> string \<Rightarrow>
    real set \<Rightarrow> real \<Rightarrow> 'r \<Rightarrow> bool" where
  "window_inv content fs window key S T r =
     (\<forall>t \<ge> T. (\<forall>x v. content r t key x = Some v \<longrightarrow> v \<in> S \<and> x = fs v)
            \<and> (\<forall>s \<in> S. t - of_int window < s \<longrightarrow> content r t key (fs s) = Some s))"

lemma window_inv_dom:
  assumes "window_inv content fs window key S T r" and "finite S" and "T \<le> t"
  shows "finite (dom (content r t key))"
proof (rule finite_subset)
  show "dom (content r t key) \<subseteq> fs ` S" using assms unfolding window_inv_def by blast
  show "finite (fs ` S)" using assms(2) by simp
qed

text \<open>What the limiter needs of its surroundings.\<close>

definition window_store :: "'r zset_exec \<Rightarrow> ('r \<Rightarrow> real \<Rightarrow> string \<Rightarrow> (string \<rightharpoonup> real)) \<Rightarrow> bool" where
  "window_store exec content = (zset_laws exec content \<and> redis_answers exec)"

lemma zset_law:
  assumes "zset_laws exec content" and "redis_answers exec" and "0 < ttl" and "finite (dom (content r now key))"
    and z: "z = ((content r now key) |` {x. \<not> (\<exists>v. content r now key x = Some v \<and> lo \<le> v \<and> v \<le> hi)})(m \<mapsto> s)"
  obtains res r' where "exec now [ZRemRangeByScore key lo hi, ZAdd key m s, ZCard key, Expire key ttl] r = (Inr res, r')"
    and "length res = 4" and "res ! 2 = int (card (dom z))"
    and "\<And>t. now \<le> t \<Longrightarrow> t < now + of_int ttl \<Longrightarrow> content r' t key = z"
    and "\<And>t. now + of_int ttl \<le> t \<Longrightarrow> content r' t key = Map.empty"
    and "\<And>t k. k \<noteq> key \<Longrightarrow> content r' t k = content r t k"
proof -
  let ?cmds = "[ZRemRangeByScore key lo hi, ZAdd key m s, ZCard key, Expire key ttl]"
  obtain a r' where ex: "exec now ?cmds r = (a, r')" by (cases "exec now ?cmds r")
  moreover have "\<not> isl (fst (exec now ?cmds r))" using assms(2) unfolding redis_answers_def by blast
  ultimately obtain res where a: "a = Inr res" by (cases a) auto
  have "let out = exec now ?cmds r in
         (case fst out of Inl _ \<Rightarrow> True | Inr res \<Rightarrow> length res = 4 \<and> res ! 2 = int (card (dom z)))
            \<and> (isl (fst out) \<or> (\<forall>t. now \<le> t \<longrightarrow> t < now + of_int ttl \<longrightarrow> content (snd out) t key = z))
            \<and> (isl (fst out) \<or> (\<forall>t. now + of_int ttl \<le> t \<longrightarrow> content (snd out) t key = Map.empty))
            \<and> (\<forall>t k. k \<noteq> key \<longrightarrow> content (snd out) t k = content r t k)"
    using assms(1,3,4) unfolding zset_laws_def z Let_def by blast
  then show ?thesis using that ex a by (simp add: Let_def)
qed

lemma exec_window:
  assumes store: "window_store exec content" and win: "0 < window"
    and inv: "window_inv content fs window key S T r" and fin: "finite S" and pos: "\<forall>s \<in> S. 0 < s \<and> s \<le> now"
    and T: "T \<le> now" and now: "0 < now" and fs_inj: "inj_on fs (insert now S)"
  obtains res r' where "exec now (window_cmds fs now key window) r = (Inr res, r')"
    and "length res = 4" and "res ! 2 = int (card {s \<in> insert now S. now - of_int window < s})"
    and "window_inv content fs window key (insert now S) now r'"
    and "\<And>t k. k \<noteq> key \<Longrightarrow> content r' t k = content r t k"
proof -
  let ?c = "content r now key"
  define z where "z = (?c |` {x. \<not> (\<exists>v. ?c x = Some v \<and> 0 \<le> v \<and> v \<le> now - of_int window)})(fs now \<mapsto> now)"
  define W where "W = {s \<in> insert now S. now - of_int window < s}"
  obtain res r' where ex: "exec now (window_cmds fs now key window) r = (Inr res, r')" and len: "length res = 4"
    and cnt: "res ! 2 = int (card (dom z))"
    and live: "\<And>t. now \<le> t \<Longrightarrow> t < now + of_int window \<Longrightarrow> content r' t key = z"
    and dead: "\<And>t. now + of_int window \<le> t \<Longrightarrow> content r' t key = Map.empty"
    and other: "\<And>t k. k \<noteq> key \<Longrightarrow> content r' t k = content r t k"
    using zset_law [of exec content window r now key z 0 "now - of_int window" "fs now" now]
      store window_inv_dom [OF inv fin T] win z_def unfolding window_store_def window_cmds_def by blast
  have mem: "?c x = Some v \<Longrightarrow> v \<in> S \<and> x = fs v" for x v
    using inv T unfolding window_inv_def by blast
  have kept: "s \<in> S \<Longrightarrow> now - of_int window < s \<Longrightarrow> ?c (fs s) = Some s" for s
    using inv T unfolding window_inv_def by blast
  have fs_eq: "s = now" if "s \<in> insert now S" and "fs s = fs now" for s
    using inj_onD [OF fs_inj that(2,1)] by simp
  have z_at: "z (fs s) = Some s" if "s \<in> W" for s
    using that kept [of s] fs_eq [of s] by (auto simp: z_def W_def restrict_map_def)
  have z_mem: "v \<in> W \<and> x = fs v" if "z x = Some v" for x v
  proof (cases "x = fs now")
    case True
    with that win show ?thesis by (simp add: z_def W_def)
  next
    case False
    with that have c: "?c x = Some v" and "\<not> (0 \<le> v \<and> v \<le> now - of_int window)"
      by (auto simp: z_def restrict_map_def split: if_splits)
    then show ?thesis using mem [OF c] pos by (auto simp: W_def)
  qed
  have "dom z = fs ` W" using z_at z_mem by (auto simp: dom_def)
  moreover have "inj_on fs W" using fs_inj by (rule inj_on_subset) (auto simp: W_def)
  ultimately have "card (dom z) = card W" by (simp add: card_image)
  moreover have "window_inv content fs window key (insert now S) now r'"
    unfolding window_inv_def
  proof (intro allI impI)
    fix t assume t: "now \<le> t"
    show "(\<forall>x v. content r' t key x = Some v \<longrightarrow> v \<in> insert now S \<and> x = fs v)
        \<and> (\<forall>s \<in> insert now S. t - of_int window < s \<longrightarrow> content r' t key (fs s) = Some s)"
    proof (cases "t < now + of_int window")
      case True
      then have c: "content r' t key = z" using live t by blast
      show ?thesis using z_at z_mem t by (auto simp: c W_def)
    next
      case False
      then have c: "content r' t key = Map.empty" by (intro dead) simp
      have "s \<le> t - of_int window" if "s \<in> insert now S" for s using that pos False by auto
      then show ?thesis by (force simp: c)
    qed
  qed
  ultimately show ?thesis using that [OF ex len _ _ other] cnt unfolding W_def by simp
qed

lemma key_times_simps:
  "key_times jwt_sub k [] = {}"
  "key_times jwt_sub k (es @ [(now, req)]) =
     (if get_key jwt_sub req = k then insert now (key_times jwt_sub k es) else key_times jwt_sub k es)"
  by (force simp: key_times_def)+

lemma arrivals_snoc:
  assumes "arrivals (es @ [(now, req)])"
  shows "arrivals es" and "0 < now" and "s \<in> key_times jwt_sub k es \<Longrightarrow> 0 < s \<and> s \<le> now"
  using assms by (auto simp: arrivals_def sorted_append key_times_def)

lemma finite_key_times [simp]: "finite (key_times jwt_sub k es)"
  by (simp add: key_times_def)

text \<open>
  One request of the limiter: its verdict is the number of requests of the same key in the last
  window, and every key's invariant is kept.
\<close>

lemma limiter_step:
  assumes store: "window_store exec content" and win: "0 < window" and arr: "arrivals (es @ [(now, req)])"
    and fs_inj: "inj_on fs (fst ` set (es @ [(now, req)]))"
    and T: "T = (if es = [] then 0 else fst (last es))"
    and inv: "\<And>k. window_inv content fs window (rate_key scope k) (key_times jwt_sub k es) T r"
    and out: "rate_limiter exec fs jwt_sub True limit window scope now req r = (res, r')"
  shows "res = (if int (card {s \<in> key_times jwt_sub (get_key jwt_sub req) (es @ [(now, req)]). now - of_int window < s}) > limit
                then Inl (HTTPException 429 ''Rate limit exceeded'') else Inr ())"
    and "window_inv content fs window (rate_key scope k) (key_times jwt_sub k (es @ [(now, req)])) now r'"
proof -
  let ?k = "get_key jwt_sub req" and ?pre = "rate_key scope"
  note pos = arrivals_snoc [OF arr]
  have T_now: "T \<le> now" using arr by (cases es rule: rev_cases) (auto simp: T arrivals_def sorted_append)
  have bound: "\<forall>s \<in> key_times jwt_sub ?k es. 0 < s \<and> s \<le> now" using pos(3) by blast
  have inj_k: "inj_on fs (insert now (key_times jwt_sub ?k es))"
    using fs_inj by (rule inj_on_subset) (auto simp: key_times_def)
  obtain rs r1 where ex: "exec now (window_cmds fs now (?pre ?k) window) r = (Inr rs, r1)" and len: "length rs = 4"
    and cnt: "rs ! 2 = int (card {s \<in> insert now (key_times jwt_sub ?k es). now - of_int window < s})"
    and inv1: "window_inv content fs window (?pre ?k) (insert now (key_times jwt_sub ?k es)) now r1"
    and other: "\<And>t k. k \<noteq> ?pre ?k \<Longrightarrow> content r1 t k = content r t k"
    using exec_window [OF store win inv [of ?k] finite_key_times bound T_now pos(2) inj_k] by blast
  from out have r': "r' = r1" and res: "res = (if rs ! 2 > limit then Inl (HTTPException 429 ''Rate limit exceeded'') else Inr ())"
    by (auto simp: rate_limiter_def sliding_window_def ex len split: if_splits)
  show "res = (if int (card {s \<in> key_times jwt_sub (get_key jwt_sub req) (es @ [(now, req)]). now - of_int window < s}) > limit
                then Inl (HTTPException 429 ''Rate limit exceeded'') else Inr ())"
    by (simp add: res cnt key_times_simps)
  show "window_inv content fs window (?pre k) (key_times jwt_sub k (es @ [(now, req)])) now r'"
  proof (cases "k = ?k")
    case True
    with inv1 show ?thesis by (simp add: r' key_times_simps)
  next
    case False
    then have "content r1 t (?pre k) = content r t (?pre k)" for t by (intro other) (simp add: rate_key_def)
    with inv [of k] T_now have "window_inv content fs window (?pre k) (key_times jwt_sub k es) now r1"
      unfolding window_inv_def by (metis order_trans)
    with False show ?thesis by (simp add: r' key_times_simps)
  qed
qed

definition fresh_store :: "('r \<Rightarrow> real \<Rightarrow> string \<Rightarrow> (string \<rightharpoonup> real)) \<Rightarrow> string \<Rightarrow> 'r \<Rightarrow> bool" where
  "fresh_store content scope r = (\<forall>t k. content r t (rate_key scope k) = Map.empty)"

lemma limiter_run_exact:
  assumes store: "window_store exec content" and win: "0 < window" and fresh: "fresh_store content scope r"
    and arr: "arrivals es" and fs_inj: "inj_on fs (fst ` set es)"
  shows "(\<forall>k. window_inv content fs window (rate_key scope k) (key_times jwt_sub k es)
            (if es = [] then 0 else fst (last es)) (snd (limiter_run exec fs jwt_sub limit window scope es r)))
       \<and> (\<forall>i < length es. fst (limiter_run exec fs jwt_sub limit window scope es r) ! i =
            (if int (card {s \<in> key_times jwt_sub (get_key jwt_sub (snd (es ! i))) (take (Suc i) es). fst (es ! i) - of_int window < s}) > limit
             then Inl (HTTPException 429 ''Rate limit exceeded'') else Inr ()))"
  using arr fs_inj
proof (induction es rule: rev_induct)
  case Nil
  then show ?case using fresh by (simp add: window_inv_def key_times_simps fresh_store_def)
next
  case (snoc e es)
  obtain now req where e: "e = (now, req)" by (cases e)
  obtain outs r1 where run: "limiter_run exec fs jwt_sub limit window scope es r = (outs, r1)"
    by (cases "limiter_run exec fs jwt_sub limit window scope es r")
  obtain res r2 where out: "rate_limiter exec fs jwt_sub True limit window scope now req r1 = (res, r2)"
    by (cases "rate_limiter exec fs jwt_sub True limit window scope now req r1")
  have arr: "arrivals (es @ [(now, req)])" and inj_all: "inj_on fs (fst ` set (es @ [(now, req)]))"
    using snoc.prems by (simp_all add: e)
  then have "inj_on fs (fst ` set es)" by (auto elim: inj_on_subset)
  note IH = snoc.IH [OF arrivals_snoc(1) [OF arr] this]
  have len: "length outs = length es" using length_limiter_run [of exec fs jwt_sub limit window scope es r] by (simp add: run)
  have inv: "window_inv content fs window (rate_key scope k) (key_times jwt_sub k es)
      (if es = [] then 0 else fst (last es)) r1" for k
    using IH by (simp add: run)
  note step = limiter_step [OF store win arr inj_all refl inv out]
  have all: "limiter_run exec fs jwt_sub limit window scope (es @ [e]) r = (outs @ [res], r2)"
    by (simp add: limiter_run_append run e out)
  show ?case
    using IH step len unfolding all
    by (auto simp: e run nth_append less_Suc_eq)
qed

section \<open>The limit\<close>

text \<open>
  The verdict of a request is exact: with Redis answering, on any interleaving of requests of
  any users in the order of their time stamps, a request is refused with 429 if and only if more
  than \<^verbatim>\<open>limit\<close> distinct time stamps of its own key, refused requests and itself included, lie
  within the window that ends at it. Requests of other keys have no influence.
\<close>

theorem window_verdict_exact:
  assumes "window_store exec content" and "0 < window" and "fresh_store content scope r"
    and "arrivals es" and "inj_on fs (fst ` set es)" and "i < length es"
  shows "fst (limiter_run exec fs jwt_sub limit window scope es r) ! i =
     (if int (card {s \<in> key_times jwt_sub (get_key jwt_sub (snd (es ! i))) (take (Suc i) es). fst (es ! i) - of_int window < s}) > limit
      then Inl (HTTPException 429 ''Rate limit exceeded'') else Inr ())"
  using limiter_run_exact [OF assms(1-5)] assms(6) by blast

text \<open>The indices of the accepted requests of a key in the window that ends at a time.\<close>

definition accepted_in :: "(string \<Rightarrow> string option result) \<Rightarrow> string \<Rightarrow> int \<Rightarrow> real \<Rightarrow> (real \<times> request) list \<Rightarrow>
    unit result list \<Rightarrow> nat set" where
  "accepted_in jwt_sub k window T es outs =
     {i. i < length es \<and> get_key jwt_sub (snd (es ! i)) = k \<and> outs ! i = Inr ()
         \<and> T - of_int window < fst (es ! i) \<and> fst (es ! i) \<le> T}"

lemma accepted_window_bound:
  assumes run: "\<forall>i < length es. outs ! i =
       (if int (card {s \<in> key_times jwt_sub (get_key jwt_sub (snd (es ! i))) (take (Suc i) es). fst (es ! i) - of_int window < s}) > limit
        then Inl (HTTPException 429 ''Rate limit exceeded'') else Inr ())"
    and dist: "distinct (map fst es)" and "0 \<le> limit"
  shows "int (card (accepted_in jwt_sub k window T es outs)) \<le> limit"
proof (cases "accepted_in jwt_sub k window T es outs = {}")
  case True
  then show ?thesis using assms(3) by simp
next
  case False
  let ?A = "accepted_in jwt_sub k window T es outs"
  have fin: "finite ?A" by (rule finite_subset [of _ "{..<length es}"]) (auto simp: accepted_in_def)
  define m where "m = Max ?A"
  have m: "m \<in> ?A" unfolding m_def using fin False by (rule Max_in)
  let ?W = "{s \<in> key_times jwt_sub k (take (Suc m) es). fst (es ! m) - of_int window < s}"
  have "(\<lambda>i. fst (es ! i)) ` ?A \<subseteq> ?W"
  proof
    fix s assume "s \<in> (\<lambda>i. fst (es ! i)) ` ?A"
    then obtain i where i: "i \<in> ?A" "s = fst (es ! i)" by blast
    have "i \<le> m" unfolding m_def using fin i(1) by (rule Max_ge)
    then have "es ! i \<in> set (take (Suc m) es)" using i(1) by (auto simp: accepted_in_def in_set_conv_nth intro!: exI [of _ i])
    then show "s \<in> ?W" using i m by (auto simp: accepted_in_def key_times_def)
  qed
  moreover have "inj_on (\<lambda>i. fst (es ! i)) ?A"
    using dist by (auto simp: inj_on_def accepted_in_def distinct_conv_nth)
  moreover have "finite ?W" by simp
  ultimately have "card ?A \<le> card ?W" by (metis (no_types, lifting) card_inj_on_le)
  moreover have "int (card ?W) \<le> limit"
    using run m by (auto simp: accepted_in_def split: if_splits)
  ultimately show ?thesis by linarith
qed

text \<open>
  C15. The limit holds in every window: when no two requests carry the same time stamp, then
  whatever the requests of whatever users, at most \<^verbatim>\<open>limit\<close> requests of one key are let through in
  any stretch of \<^verbatim>\<open>window\<close> seconds, wherever it lies, not only in those that end at a request.
\<close>

theorem window_limit_holds:
  assumes "window_store exec content" and "0 < window" and "fresh_store content scope r"
    and "arrivals es" and "inj_on fs (fst ` set es)" and "distinct (map fst es)" and "0 \<le> limit"
  shows "int (card (accepted_in jwt_sub k window T es (fst (limiter_run exec fs jwt_sub limit window scope es r)))) \<le> limit"
  using limiter_run_exact [OF assms(1-5)] assms(6,7) by (intro accepted_window_bound) blast+

text \<open>A store for the examples: each key has a deadline and its members.\<close>

type_synonym sample_zsets = "string \<Rightarrow> real \<times> (string \<rightharpoonup> real)"

definition sample_content :: "sample_zsets \<Rightarrow> real \<Rightarrow> string \<Rightarrow> (string \<rightharpoonup> real)" where
  "sample_content r t k = (if t < fst (r k) then snd (r k) else Map.empty)"

fun sample_exec :: "sample_zsets zset_exec" where
  "sample_exec now [ZRemRangeByScore key lo hi, ZAdd _ m s, ZCard _, Expire _ ttl] r =
     (let c = sample_content r now key;
          z = (c |` {x. \<not> (\<exists>v. c x = Some v \<and> lo \<le> v \<and> v \<le> hi)})(m \<mapsto> s)
      in (Inr [0, 1, int (card (dom z)), 1], r(key := (now + of_int ttl, z))))"
| "sample_exec now _ r = (Inr [], r)"

lemma sample_exec_answers: "\<not> isl (fst (sample_exec now cmds r))"
  by (induction now cmds r rule: sample_exec.induct) (simp_all add: Let_def)

lemma sample_window_store: "window_store sample_exec sample_content"
  unfolding window_store_def redis_answers_def zset_laws_def
  by (simp add: sample_exec_answers Let_def) (simp add: sample_content_def)

definition sample_request :: "string \<Rightarrow> request" where
  "sample_request u = \<lparr>rq_current_user = Some u, rq_authorization = None, rq_forwarded_for = None, rq_client_host = None\<rparr>"

definition sample_arrivals :: "(real \<times> request) list" where
  "sample_arrivals = [(1, sample_request ''a''), (2, sample_request ''b''), (3, sample_request ''a'')]"

definition sample_stamp :: "real \<Rightarrow> string" where
  "sample_stamp t = (if t = 1 then ''1.0'' else if t = 2 then ''2.0'' else ''3.0'')"

lemma sample_arrivals_ok:
  "arrivals sample_arrivals" "inj_on sample_stamp (fst ` set sample_arrivals)" "distinct (map fst sample_arrivals)"
  "fresh_store sample_content ''chat'' (\<lambda>_. (0, Map.empty))"
  by (simp_all add: sample_arrivals_def arrivals_def sample_stamp_def fresh_store_def sample_content_def)

theorem window_verdict_exact_witness:
  "fst (limiter_run sample_exec sample_stamp (\<lambda>_. Inr None) 1 60 ''chat'' sample_arrivals (\<lambda>_. (0, Map.empty))) ! 2 =
     Inl (HTTPException 429 ''Rate limit exceeded'')"
proof -
  have "{s \<in> key_times (\<lambda>_. Inr None) (get_key (\<lambda>_. Inr None) (snd (sample_arrivals ! 2))) (take (Suc 2) sample_arrivals).
      fst (sample_arrivals ! 2) - of_int 60 < s} = {1, 3}"
  proof -
    have "key_times (\<lambda>_. Inr None) (''user:a'') ([] @ [(1, sample_request ''a'')] @ [(2, sample_request ''b'')] @ [(3, sample_request ''a'')]) = {1, 3}"
      unfolding append_assoc [symmetric] key_times_simps by (auto simp: get_key_def sample_request_def)
    then show ?thesis by (auto simp: sample_arrivals_def get_key_def sample_request_def)
  qed
  then show ?thesis
    using window_verdict_exact [OF sample_window_store _ sample_arrivals_ok(4,1,2), of 60 2 "\<lambda>_. Inr None" 1]
    by (simp add: sample_arrivals_def)
qed

theorem window_limit_holds_witness:
  "int (card (accepted_in (\<lambda>_. Inr None) ''user:a'' 60 30 sample_arrivals
      (fst (limiter_run sample_exec sample_stamp (\<lambda>_. Inr None) 1 60 ''chat'' sample_arrivals (\<lambda>_. (0, Map.empty)))))) \<le> 1"
  by (rule window_limit_holds [OF sample_window_store _ sample_arrivals_ok(4,1,2,3)]) simp_all

text \<open>
  The bucket of an anonymous client is its own choice: for every text without a comma and
  without surrounding white space, a request without a token whose \<^verbatim>\<open>X-Forwarded-For\<close> starts with
  that text, whatever the proxies on the way appended after it, is counted against that text.
\<close>

theorem forwarded_header_chooses_bucket:
  assumes "rq_current_user req = None" and "rq_authorization req = None"
    and "rq_forwarded_for req = Some (w @ '','' @ appended)" and "CHR '','' \<notin> set w" and "strip w = w"
  shows "get_key jwt_sub req = ''ip:'' @ w"
  using assms by (simp add: get_key_def get_client_ip_def set_and_nonempty_def startswith_def split_on_append)

theorem forwarded_header_chooses_bucket_witness:
  "get_key (\<lambda>_. Inr None) \<lparr>rq_current_user = None, rq_authorization = None,
     rq_forwarded_for = Some ''x1, 203.0.113.7'', rq_client_host = Some ''10.0.0.1''\<rparr> = ''ip:x1''"
  using forwarded_header_chooses_bucket [of "\<lparr>rq_current_user = None, rq_authorization = None,
     rq_forwarded_for = Some ''x1, 203.0.113.7'', rq_client_host = Some ''10.0.0.1''\<rparr>" "''x1''" "'' 203.0.113.7''"]
  by (simp add: strip_def lstrip_def rstrip_def py_isspace_def code_def)

text \<open>
  The limits of an explicitly chosen model: a role model is counted in the bucket of a role
  that names it, with that role's limit; every other model in the one shared catalog bucket,
  whose limit for an ephemeral demo account is half of everybody else's, rounded down, but never
  less than one.
\<close>

theorem bucket_of_model:
  assumes "dget (MODEL_RATE_LIMITS cfg) ''catalog'' = Some (n, w)" and "2 \<le> n"
    and "fst ` set (MODELS cfg) \<subseteq> fst ` set (MODEL_RATE_LIMITS cfg)"
  shows "(if m \<in> snd ` set (MODELS cfg)
     then (\<exists>role b. resolve_bucket cfg m u = Some (role, b) \<and> (role, m) \<in> set (MODELS cfg) \<and> dget (MODEL_RATE_LIMITS cfg) role = Some b)
     else (\<exists>l. resolve_bucket cfg m u = Some (''catalog'', l, w) \<and> 1 \<le> l \<and> l \<le> n
             \<and> (if DEMO_EPHEMERAL_ENABLED cfg \<and> is_ephemeral_demo u then l \<le> n div 2 else l = n)))"
proof (cases "List.find (\<lambda>(k, v). v = m) (MODELS cfg)")
  case None
  then have "m \<notin> snd ` set (MODELS cfg)" by (force simp: find_None_iff)
  with None assms(1,2) show ?thesis by (auto simp: resolve_bucket_def)
next
  case (Some p)
  then have "p \<in> set (MODELS cfg)" "snd p = m" by (auto simp: find_Some_iff in_set_conv_nth)
  then obtain role where p: "p = (role, m)" and mem: "(role, m) \<in> set (MODELS cfg)"
    by (metis prod.collapse)
  then have "role \<in> fst ` set (MODEL_RATE_LIMITS cfg)" using assms(3) by force
  then obtain b where "dget (MODEL_RATE_LIMITS cfg) role = Some b"
    by (metis dget_def map_of_eq_None_iff not_None_eq)
  moreover from mem have "m \<in> snd ` set (MODELS cfg)" by force
  ultimately show ?thesis using Some p mem by (cases b) (auto simp: resolve_bucket_def)
qed

theorem bucket_of_model_witness:
  "\<exists>l. resolve_bucket (default_config\<lparr>DEMO_EPHEMERAL_ENABLED := True\<rparr>) ''x/y'' ''demo_1'' = Some (''catalog'', l, 60) \<and> 1 \<le> l \<and> l \<le> 10"
proof -
  let ?c = "default_config\<lparr>DEMO_EPHEMERAL_ENABLED := True\<rparr>"
  have "dget (MODEL_RATE_LIMITS ?c) ''catalog'' = Some (20, 60)" "''x/y'' \<notin> snd ` set (MODELS ?c)"
    "fst ` set (MODELS ?c) \<subseteq> fst ` set (MODEL_RATE_LIMITS ?c)" "is_ephemeral_demo ''demo_1''"
    by code_simp+
  with bucket_of_model [of ?c 20 60 "''x/y''" "''demo_1''"] show ?thesis by auto
qed

end
