(* ===== verification/Response_Cache.thy ===== *)
theory Response_Cache
  imports Settings
begin

text \<open>
  \<^verbatim>\<open>backend/cache/\<close>: the key of an answer (\<^verbatim>\<open>keys.py\<close>), the in-process store with its size limit
  and expiry times (\<^verbatim>\<open>memory.py\<close>), and the cache the service calls (\<^verbatim>\<open>cache.py\<close>), which prefers
  Redis and falls back to the process. SHA-256 is a parameter, as is the Redis server; a JSON text
  stored in Redis is represented by the payload it encodes. The cache metrics are left out.
\<close>

section \<open>Keys\<close>

definition CACHE_VERSION :: string where
  "CACHE_VERSION = ''v3''"

definition normalize :: "string \<Rightarrow> string" where
  "normalize s = join '' '' (split_ws (strip (lower s)))"

definition raw_key :: "string \<Rightarrow> string \<Rightarrow> string \<Rightarrow> string \<Rightarrow> string" where
  "raw_key message model history_tail system_prompt =
     CACHE_VERSION @ '':'' @ normalize message @ ''|m:'' @ model
       @ ''|h:'' @ normalize history_tail @ ''|s:'' @ normalize system_prompt"

definition make_key :: "(string \<Rightarrow> string) \<Rightarrow> string \<Rightarrow> string \<Rightarrow> string \<Rightarrow> string \<Rightarrow> string" where
  "make_key sha256 message model history_tail system_prompt = sha256 (raw_key message model history_tail system_prompt)"

section \<open>The store of the process\<close>

definition MAX_SIZE :: nat where
  "MAX_SIZE = 1000"

record 'p mem_cache =
  mc_store :: "(string \<times> 'p) list"
  mc_expiry :: "(string \<times> real) list"

definition mem_get :: "'p mem_cache \<Rightarrow> real \<Rightarrow> string \<Rightarrow> 'p option \<times> 'p mem_cache" where
  "mem_get st now key =
     (case dget (mc_expiry st) key of
        Some expires \<Rightarrow>
          if expires \<noteq> 0 \<and> now > expires
          then (None, st\<lparr>mc_store := ddel (mc_store st) key, mc_expiry := ddel (mc_expiry st) key\<rparr>)
          else (dget (mc_store st) key, st)
      | None \<Rightarrow> (dget (mc_store st) key, st))"

definition move_to_end :: "('k \<times> 'v) list \<Rightarrow> 'k \<Rightarrow> ('k \<times> 'v) list" where
  "move_to_end d key = ddel d key @ filter (\<lambda>p. fst p = key) d"

definition mem_set :: "'p mem_cache \<Rightarrow> real \<Rightarrow> string \<Rightarrow> 'p \<Rightarrow> int \<Rightarrow> 'p mem_cache" where
  "mem_set st now key payload ttl =
     (let store1 = dset (mc_store st) key payload;
          expiry1 = dset (mc_expiry st) key (now + of_int ttl);
          store2 = move_to_end store1 key
      in if length store2 > MAX_SIZE
         then \<lparr>mc_store = tl store2, mc_expiry = ddel expiry1 (fst (hd store2))\<rparr>
         else \<lparr>mc_store = store2, mc_expiry = expiry1\<rparr>)"

definition mem_size :: "'p mem_cache \<Rightarrow> nat" where
  "mem_size st = length (mc_store st)"

definition empty_cache :: "'p mem_cache" where
  "empty_cache = \<lparr>mc_store = [], mc_expiry = []\<rparr>"

section \<open>The cache of the service\<close>

record 'p answer_payload =
  ap_response :: 'p
  ap_model :: 'p
  ap_timestamp :: real

text \<open>
  The two Redis commands the cache issues: a read, and a write with a lifetime. The flag tells
  whether the client was set up.
\<close>

record ('r, 'p) answer_store =
  as_get :: "'r \<Rightarrow> real \<Rightarrow> string \<Rightarrow> 'p option result"
  as_set :: "'r \<Rightarrow> real \<Rightarrow> string \<Rightarrow> 'p \<Rightarrow> int \<Rightarrow> 'r result"

record ('r, 'p) answer_cache =
  ac_memory :: "'p mem_cache"
  ac_redis :: 'r

definition redis_in_use :: "config \<Rightarrow> bool \<Rightarrow> bool" where
  "redis_in_use cfg up = (USE_REDIS cfg \<and> up)"

definition memory_lookup :: "real \<Rightarrow> string \<Rightarrow> ('r, 'p) answer_cache \<Rightarrow> 'p option result \<times> ('r, 'p) answer_cache" where
  "memory_lookup now key st =
     (let (res, mem) = mem_get (ac_memory st) now key in (Inr res, st\<lparr>ac_memory := mem\<rparr>))"

definition get_cached_response :: "config \<Rightarrow> ('r, 'p) answer_store \<Rightarrow> bool \<Rightarrow> (string \<Rightarrow> string) \<Rightarrow> real \<Rightarrow>
    string \<Rightarrow> string \<Rightarrow> string \<Rightarrow> string \<Rightarrow> ('r, 'p) answer_cache \<Rightarrow> 'p option result \<times> ('r, 'p) answer_cache" where
  "get_cached_response cfg rs up sha256 now message model history_tail system_prompt st =
     (let key = make_key sha256 message model history_tail system_prompt in
      if redis_in_use cfg up then
        (case as_get rs (ac_redis st) now key of
           Inr data \<Rightarrow> (Inr data, st)
         | Inl e \<Rightarrow> if e = RedisError then memory_lookup now key st else (Inl e, st))
      else memory_lookup now key st)"

definition memory_write :: "real \<Rightarrow> string \<Rightarrow> 'p \<Rightarrow> int \<Rightarrow> ('r, 'p) answer_cache \<Rightarrow> unit result \<times> ('r, 'p) answer_cache" where
  "memory_write now key payload ttl st = (Inr (), st\<lparr>ac_memory := mem_set (ac_memory st) now key payload ttl\<rparr>)"

definition set_cached_response :: "config \<Rightarrow> ('r, 'p answer_payload) answer_store \<Rightarrow> bool \<Rightarrow> (string \<Rightarrow> string) \<Rightarrow> real \<Rightarrow>
    string \<Rightarrow> 'p \<times> 'p \<Rightarrow> int \<Rightarrow> string \<Rightarrow> string \<Rightarrow> string \<Rightarrow>
    ('r, 'p answer_payload) answer_cache \<Rightarrow> unit result \<times> ('r, 'p answer_payload) answer_cache" where
  "set_cached_response cfg rs up sha256 now message response ttl model history_tail system_prompt st =
     (let key = make_key sha256 message model history_tail system_prompt;
          payload = \<lparr>ap_response = fst response, ap_model = snd response, ap_timestamp = now\<rparr>
      in if redis_in_use cfg up then
           (case as_set rs (ac_redis st) now key payload ttl of
              Inr r \<Rightarrow> (Inr (), st\<lparr>ac_redis := r\<rparr>)
            | Inl e \<Rightarrow> if e = RedisError then memory_write now key payload ttl st else (Inl e, st))
         else memory_write now key payload ttl st)"

section \<open>The invariant of the store\<close>

definition mem_ok :: "'p mem_cache \<Rightarrow> bool" where
  "mem_ok st = (length (mc_store st) \<le> MAX_SIZE \<and> distinct (map fst (mc_store st)) \<and> distinct (map fst (mc_expiry st))
     \<and> fst ` set (mc_store st) = fst ` set (mc_expiry st))"

lemma ddel_keys [simp]: "fst ` set (ddel d k) = fst ` set d - {k}"
  by (auto simp: ddel_def)

lemma distinct_ddel: "distinct (map fst d) \<Longrightarrow> distinct (map fst (ddel d k))"
  unfolding ddel_def by (rule distinct_map_filter)

lemma dset_keys [simp]: "fst ` set (dset d k v) = insert k (fst ` set d)"
  by (simp add: dset_def dom_update)

lemma dget_append: "dget (d @ e) k = (case dget d k of None \<Rightarrow> dget e k | Some v \<Rightarrow> Some v)"
  by (auto simp: dget_def map_add_def split: option.splits)

lemma dget_keys: "dget d k = None \<longleftrightarrow> k \<notin> fst ` set d"
  by (simp add: dget_def map_of_eq_None_iff)

lemma ddel_dset: "ddel (dset d k v) k = ddel d k"
  by (induction d) (auto simp: ddel_def dset_def)

lemma filter_key_none: "k \<notin> fst ` set d \<Longrightarrow> filter (\<lambda>p. fst p = k) d = []"
  by (force simp: filter_empty_conv)

lemma filter_key_dset: "distinct (map fst d) \<Longrightarrow> filter (\<lambda>p. fst p = k) (dset d k v) = [(k, v)]"
proof (induction d)
  case Nil
  then show ?case by (simp add: dset_def)
next
  case (Cons p d)
  then show ?case by (cases p) (auto simp: dset_def filter_key_none)
qed

lemma move_to_end_dset: "distinct (map fst d) \<Longrightarrow> move_to_end (dset d k v) k = ddel d k @ [(k, v)]"
  by (simp add: move_to_end_def ddel_dset filter_key_dset)

text \<open>A write, by what it does to the two dictionaries of a well-formed store.\<close>

lemma mem_set_eq:
  assumes "mem_ok st"
  shows "mem_set st now key payload ttl =
    (let store = ddel (mc_store st) key @ [(key, payload)]; expiry = dset (mc_expiry st) key (now + of_int ttl)
     in if length store > MAX_SIZE then \<lparr>mc_store = tl store, mc_expiry = ddel expiry (fst (hd store))\<rparr>
        else \<lparr>mc_store = store, mc_expiry = expiry\<rparr>)"
  using assms by (simp add: mem_set_def mem_ok_def move_to_end_dset Let_def)

lemma length_ddel_le: "length (ddel d k) \<le> length d"
  by (simp add: ddel_def)

lemma mem_set_ok:
  assumes ok: "mem_ok st"
  shows "mem_ok (mem_set st now key payload ttl)"
proof -
  let ?s = "ddel (mc_store st) key @ [(key, payload)]"
  have d: "distinct (map fst ?s)" using ok by (auto simp: mem_ok_def distinct_ddel)
  have e: "distinct (map fst (dset (mc_expiry st) key (now + of_int ttl)))"
    using ok by (simp add: mem_ok_def distinct_keys_dset)
  have len: "length ?s \<le> Suc MAX_SIZE"
    using ok length_ddel_le [of "mc_store st" key] by (simp add: mem_ok_def)
  have k: "fst ` set ?s = insert key (fst ` set (mc_expiry st))"
    using ok by (auto simp: mem_ok_def)
  obtain h t where ht: "?s = h # t" by (cases "?s") auto
  have "fst h \<notin> fst ` set t" using d unfolding ht by simp
  moreover have "insert (fst h) (fst ` set t) = insert key (fst ` set (mc_expiry st))" using k unfolding ht by simp
  ultimately have kt: "fst ` set t = insert key (fst ` set (mc_expiry st)) - {fst h}" by blast
  show ?thesis
    using d e len k kt unfolding mem_set_eq [OF ok] ht Let_def
    by (auto simp: mem_ok_def distinct_ddel)
qed

lemma mem_get_ok: "mem_ok st \<Longrightarrow> mem_ok (snd (mem_get st now key))"
  using length_ddel_le [of "mc_store st" key]
  by (auto simp: mem_get_def mem_ok_def distinct_ddel split: option.splits)

datatype 'p mem_event = MemGet real string | MemSet real string 'p int

fun mem_step :: "'p mem_event \<Rightarrow> 'p mem_cache \<Rightarrow> 'p mem_cache" where
  "mem_step (MemGet now key) st = snd (mem_get st now key)"
| "mem_step (MemSet now key payload ttl) st = mem_set st now key payload ttl"

interpretation mem: guarded_machine mem_step mem_ok empty_cache
proof unfold_locales
  show "mem_ok empty_cache" by (simp add: mem_ok_def empty_cache_def)
  show "mem_ok (mem_step e s)" if "mem_ok s" for s :: "'p mem_cache" and e
    using that by (cases e) (simp_all add: mem_set_ok mem_get_ok)
qed

definition mem_look :: "'p mem_cache \<Rightarrow> real \<Rightarrow> string \<Rightarrow> 'p option" where
  "mem_look st now key = fst (mem_get st now key)"

lemma mem_set_last:
  assumes ok: "mem_ok st"
  shows "dget (mc_store (mem_set st now key payload ttl)) key = Some payload
       \<and> dget (mc_expiry (mem_set st now key payload ttl)) key = Some (now + of_int ttl)"
proof -
  let ?d = "ddel (mc_store st) key"
  have app: "dget (?d @ [(key, payload)]) key = Some payload"
    by (simp add: dget_append dget_ddel dget_Cons)
  have big: "MAX_SIZE > 0" by (simp add: MAX_SIZE_def)
  show ?thesis
  proof (cases ?d)
    case Nil
    then show ?thesis using big unfolding mem_set_eq [OF ok] Let_def by (simp add: dget_Cons)
  next
    case (Cons h t)
    then have h: "fst h \<noteq> key" by (metis (mono_tags, lifting) ddel_def filter_eq_ConsD)
    have "dget (t @ [(key, payload)]) key = Some payload"
      using app h unfolding Cons by (cases h) (simp add: dget_Cons)
    then show ?thesis using app h unfolding mem_set_eq [OF ok] Let_def Cons by (simp add: dget_ddel)
  qed
qed

interpretation mem_ttl: ttl_cache mem_set mem_look mem_ok
proof unfold_locales
  fix s :: "'p mem_cache" and t t' :: real and ttl :: int and k v
  assume ok: "mem_ok s" and t: "0 < t" "0 < ttl"
  show "mem_ok (mem_set s t k v ttl)" using ok by (rule mem_set_ok)
  show "mem_look (mem_set s t k v ttl) t' k = Some v" if "t' < t + of_int ttl"
    using mem_set_last [OF ok] that by (simp add: mem_look_def mem_get_def)
  show "mem_look (mem_set s t k v ttl) t' k = None" if "t + of_int ttl < t'"
    using mem_set_last [OF ok, of t k v ttl] that t by (simp add: mem_look_def mem_get_def)
qed

section \<open>An answer between a write and a read\<close>

text \<open>
  Operations that leave the answer under a key alone: other keys are written, and the key is read before its time is over. The
  answer survives them as long as less than 1000 are writes.
\<close>

fun is_write :: "'p mem_event \<Rightarrow> bool" where
  "is_write (MemSet _ _ _ _) = True"
| "is_write (MemGet _ _) = False"

fun spares :: "string \<Rightarrow> real \<Rightarrow> 'p mem_event \<Rightarrow> bool" where
  "spares key expires (MemGet now key') = (key' = key \<longrightarrow> now \<le> expires)"
| "spares key expires (MemSet now key' payload ttl) = (key' \<noteq> key)"

definition holds_answer :: "string \<Rightarrow> 'p \<Rightarrow> real \<Rightarrow> nat \<Rightarrow> 'p mem_cache \<Rightarrow> bool" where
  "holds_answer key payload expires n st =
     (mem_ok st \<and> dget (mc_expiry st) key = Some expires
      \<and> (\<exists>before after. mc_store st = before @ (key, payload) # after \<and> length after \<le> n))"

lemma ddel_around: "key' \<noteq> key \<Longrightarrow> ddel (before @ (key, payload) # after) key' = ddel before key' @ (key, payload) # ddel after key'"
  by (simp add: ddel_def)

lemma holds_answer_set:
  assumes "mem_ok st"
  shows "holds_answer key payload (now + of_int ttl) 0 (mem_set st now key payload ttl)"
proof -
  have "\<exists>before. mc_store (mem_set st now key payload ttl) = before @ [(key, payload)]"
    unfolding mem_set_eq [OF assms] Let_def
    by (cases "ddel (mc_store st) key") (auto simp: MAX_SIZE_def)
  then show ?thesis using mem_set_last [OF assms, of now key payload ttl] mem_set_ok [OF assms] by (auto simp: holds_answer_def)
qed

lemma holds_answer_step:
  assumes held: "holds_answer key payload expires n st" and "spares key expires ev" and "is_write ev \<longrightarrow> Suc n < MAX_SIZE"
  shows "holds_answer key payload expires (if is_write ev then Suc n else n) (mem_step ev st)"
proof -
  obtain before after where st: "mem_ok st" "dget (mc_expiry st) key = Some expires" "mc_store st = before @ (key, payload) # after"
    "length after \<le> n" using held by (auto simp: holds_answer_def)
  show ?thesis
  proof (cases ev)
    case (MemGet now key')
    have "mem_ok (mem_step ev st)" using mem_get_ok [OF st(1)] by (simp add: MemGet)
    moreover have "length (ddel after key') \<le> n" using length_ddel_le [of after key'] st(4) by simp
    ultimately show ?thesis
      using st assms(2)
      by (cases "key' = key") (auto simp: MemGet holds_answer_def mem_get_def ddel_around dget_ddel split: option.splits)
  next
    case (MemSet now key' payload' ttl)
    then have other: "key' \<noteq> key" using assms(2) by simp
    let ?after = "ddel after key' @ [(key', payload')]"
    have len: "length ?after \<le> Suc n" using length_ddel_le [of after key'] st(4) by simp
    have ok: "mem_ok (mem_step ev st)" using mem_set_ok [OF st(1)] by (simp add: MemSet)
    have store: "ddel (mc_store st) key' @ [(key', payload')] = ddel before key' @ (key, payload) # ?after"
      using other by (simp add: st(3) ddel_around)
    have keys: "distinct (map fst (ddel before key' @ (key, payload) # ?after))"
      using st(1) unfolding store [symmetric] by (auto simp: mem_ok_def distinct_ddel)
    have step: "mem_step ev st = (let store = ddel before key' @ (key, payload) # ?after; expiry = dset (mc_expiry st) key' (now + of_int ttl)
        in if length store > MAX_SIZE then \<lparr>mc_store = tl store, mc_expiry = ddel expiry (fst (hd store))\<rparr>
           else \<lparr>mc_store = store, mc_expiry = expiry\<rparr>)"
      using mem_set_eq [OF st(1), of now key' payload' ttl] by (simp add: MemSet store)
    show ?thesis
    proof (cases "ddel before key'")
      case Nil
      then have "mem_step ev st = \<lparr>mc_store = (key, payload) # ?after, mc_expiry = dset (mc_expiry st) key' (now + of_int ttl)\<rparr>"
        using step len assms(3) by (simp add: MemSet Let_def)
      then show ?thesis
        unfolding holds_answer_def using ok other st(2) len
        by (intro conjI exI [of _ "[]"] exI [of _ ?after]) (simp_all add: MemSet dget_dset)
    next
      case (Cons h t)
      then have "fst h \<noteq> key" using keys by auto
      then have expiry: "dget (mc_expiry (mem_step ev st)) key = Some expires"
        using other st(2) unfolding step Cons by (simp add: dget_dset dget_ddel Let_def)
      have "mc_store (mem_step ev st) = t @ (key, payload) # ?after \<or> mc_store (mem_step ev st) = (h # t) @ (key, payload) # ?after"
        unfolding step Cons by (simp add: Let_def)
      then obtain front where "mc_store (mem_step ev st) = front @ (key, payload) # ?after" by blast
      with ok expiry len have "holds_answer key payload expires (Suc n) (mem_step ev st)" unfolding holds_answer_def by blast
      then show ?thesis by (simp only: MemSet is_write.simps if_True)
    qed
  qed
qed

lemma holds_answer_run:
  assumes "holds_answer key payload expires n st" and "list_all (spares key expires) ops" and "n + length (filter is_write ops) < MAX_SIZE"
  shows "holds_answer key payload expires (n + length (filter is_write ops)) (fold mem_step ops st)"
  using assms
proof (induction ops arbitrary: n st)
  case (Cons ev ops)
  have "holds_answer key payload expires (if is_write ev then Suc n else n) (mem_step ev st)"
    using Cons.prems by (intro holds_answer_step) auto
  from Cons.IH [OF this] Cons.prems show ?case by (auto split: if_splits)
qed simp

lemma held_answer_read:
  assumes "holds_answer key payload expires n st" and "now \<le> expires"
  shows "fst (mem_get st now key) = Some payload"
proof -
  obtain before after where st: "mem_ok st" "dget (mc_expiry st) key = Some expires" "mc_store st = before @ (key, payload) # after"
    using assms(1) by (auto simp: holds_answer_def)
  then have "dget (mc_store st) key = Some payload"
    unfolding dget_def by (intro map_of_is_SomeI) (auto simp: mem_ok_def)
  with st(2) assms(2) show ?thesis by (simp add: mem_get_def)
qed

section \<open>Size, eviction and lifetime\<close>

text \<open>
  The in-process cache never grows beyond its limit and never forgets an expiry time: after
  any sequence of reads and writes it holds at most 1000 answers, each key once, and exactly the
  stored keys have an expiry time.
\<close>

theorem memory_cache_bounded:
  "mem_size (fold mem_step es empty_cache) \<le> 1000
   \<and> distinct (map fst (mc_store (fold mem_step es empty_cache)))
   \<and> fst ` set (mc_store (fold mem_step es empty_cache)) = fst ` set (mc_expiry (fold mem_step es empty_cache))"
  using mem.inv_reach [of es] by (simp add: mem_ok_def mem_size_def MAX_SIZE_def)

text \<open>
  Eviction is by age of the write: a write of a new key into a full store drops exactly the
  answer whose write is oldest, keeps all others in their order, and puts the new one last; a
  write of a stored key drops nothing.
\<close>

theorem full_store_evicts_oldest:
  assumes "mem_ok st" and "mem_size st = 1000"
  shows "map fst (mc_store (mem_set st now key payload ttl)) =
     (if key \<in> fst ` set (mc_store st) then remove1 key (map fst (mc_store st)) else tl (map fst (mc_store st))) @ [key]"
proof -
  have gone: "map fst (ddel d key) = remove1 key (map fst d)" if "distinct (map fst d)" for d :: "(string \<times> 'a) list"
    using that by (induction d) (auto simp: ddel_def filter_id_conv image_iff remove1_idem)
  have same: "length (ddel d key) = (if key \<in> fst ` set d then length d - 1 else length d)"
    if "distinct (map fst d)" for d :: "(string \<times> 'a) list"
    using arg_cong [OF gone [OF that], of length] by (auto simp: length_remove1)
  have d: "distinct (map fst (mc_store st))" and n: "length (mc_store st) = 1000"
    using assms by (simp_all add: mem_ok_def mem_size_def)
  show ?thesis
  proof (cases "key \<in> fst ` set (mc_store st)")
    case True
    then show ?thesis
      unfolding mem_set_eq [OF assms(1)] Let_def using n by (simp add: gone [OF d] same [OF d] MAX_SIZE_def)
  next
    case False
    then have "ddel (mc_store st) key = mc_store st" by (auto simp: ddel_def filter_id_conv)
    moreover obtain h t where "mc_store st = h # t" using n by (cases "mc_store st") auto
    ultimately show ?thesis
      unfolding mem_set_eq [OF assms(1)] Let_def using n False by (simp add: MAX_SIZE_def)
  qed
qed

section \<open>Who shares an answer\<close>

lemma set_then_get:
  assumes "\<not> USE_REDIS cfg" and ok: "mem_ok (ac_memory st)" and "0 < t" and "0 < ttl" and "t' < t + of_int ttl"
    and key: "make_key sha256 m2 model2 h2 s2 = make_key sha256 m1 model1 h1 s1"
  shows "fst (get_cached_response cfg rs up sha256 t' m2 model2 h2 s2
       (snd (set_cached_response cfg rs up sha256 t m1 (resp, mdl) ttl model1 h1 s1 st)))
     = Inr (Some \<lparr>ap_response = resp, ap_model = mdl, ap_timestamp = t\<rparr>)"
proof -
  have "mem_look (mem_set (ac_memory st) t (make_key sha256 m1 model1 h1 s1) \<lparr>ap_response = resp, ap_model = mdl, ap_timestamp = t\<rparr> ttl) t'
      (make_key sha256 m1 model1 h1 s1) = Some \<lparr>ap_response = resp, ap_model = mdl, ap_timestamp = t\<rparr>"
    using ok assms(3-5) by (rule mem_ttl.look_fresh)
  then show ?thesis
    using assms(1)
    by (simp add: get_cached_response_def set_cached_response_def redis_in_use_def key memory_lookup_def memory_write_def
        Let_def mem_look_def case_prod_beta)
qed

lemma raw_key_shift:
  assumes "normalize a = a" and "normalize (a @ ''|m:'' @ model @ ''|h:'' @ b) = a @ ''|m:'' @ model @ ''|h:'' @ b"
    and "normalize c = c" and "normalize (b @ ''|m:'' @ model @ ''|h:'' @ c) = b @ ''|m:'' @ model @ ''|h:'' @ c"
  shows "raw_key (a @ ''|m:'' @ model @ ''|h:'' @ b) model c s = raw_key a model (b @ ''|m:'' @ model @ ''|h:'' @ c) s"
  using assms unfolding raw_key_def by (simp only: append_assoc)

text \<open>
  The key of an answer does not separate its parts: the message, the model and the history
  are joined with separators that the texts may contain, so two different conversations have one
  key, whatever the hash function, and the answer stored for the first is returned for the second
  during its lifetime.
\<close>

theorem different_conversations_share_answer:
  assumes "normalize a = a" and "normalize (a @ ''|m:'' @ model @ ''|h:'' @ b) = a @ ''|m:'' @ model @ ''|h:'' @ b"
    and "normalize c = c" and "normalize (b @ ''|m:'' @ model @ ''|h:'' @ c) = b @ ''|m:'' @ model @ ''|h:'' @ c"
    and "\<not> USE_REDIS cfg" and "mem_ok (ac_memory st)" and "0 < t" and "0 < ttl" and "t' < t + of_int ttl"
  shows "fst (get_cached_response cfg rs up sha256 t' a model (b @ ''|m:'' @ model @ ''|h:'' @ c) s
       (snd (set_cached_response cfg rs up sha256 t (a @ ''|m:'' @ model @ ''|h:'' @ b) (resp, mdl) ttl model c s st)))
     = Inr (Some \<lparr>ap_response = resp, ap_model = mdl, ap_timestamp = t\<rparr>)"
  using assms(5-9)
  by (rule set_then_get) (simp only: make_key_def raw_key_shift [OF assms(1-4)])

definition sample_answers :: "(unit, string answer_payload) answer_store" where
  "sample_answers = \<lparr>as_get = (\<lambda>_ _ _. Inr None), as_set = (\<lambda>r _ _ _ _. Inr r)\<rparr>"

theorem different_conversations_share_answer_witness:
  "fst (get_cached_response default_config sample_answers True id 20 ''q'' [] ''x|m:|h:'' []
       (snd (set_cached_response default_config sample_answers True id 10 ''q|m:|h:x'' (''secret'', ''m'') 3600 [] [] []
          \<lparr>ac_memory = empty_cache, ac_redis = ()\<rparr>)))
     = Inr (Some \<lparr>ap_response = ''secret'', ap_model = ''m'', ap_timestamp = 10\<rparr>)"
proof -
  have n: "normalize ''q'' = ''q''" "normalize (''q'' @ ''|m:'' @ [] @ ''|h:'' @ ''x'') = ''q'' @ ''|m:'' @ [] @ ''|h:'' @ ''x''"
    "normalize [] = []" "normalize (''x'' @ ''|m:'' @ [] @ ''|h:'' @ []) = ''x'' @ ''|m:'' @ [] @ ''|h:'' @ []"
    by code_simp+
  have "\<not> USE_REDIS default_config" "mem_ok (ac_memory \<lparr>ac_memory = (empty_cache :: string answer_payload mem_cache), ac_redis = ()\<rparr>)"
    by (simp_all add: default_config_def mem_ok_def empty_cache_def)
  from different_conversations_share_answer [OF n this, of 10 3600 20] show ?thesis by simp
qed

definition sample_full :: "nat mem_cache" where
  "sample_full = \<lparr>mc_store = map (\<lambda>n. (replicate n CHR ''k'', n)) [0 ..< 1000],
                  mc_expiry = map (\<lambda>n. (replicate n CHR ''k'', 1)) [0 ..< 1000]\<rparr>"

theorem full_store_evicts_oldest_witness:
  "map fst (mc_store (mem_set sample_full 5 ''new'' 7 60)) = tl (map fst (mc_store sample_full)) @ [''new'']"
proof -
  have "inj_on (\<lambda>n. replicate n CHR ''k'') A" for A :: "nat set"
    by (auto simp: inj_on_def)
  then have ok: "mem_ok sample_full" "mem_size sample_full = 1000"
    by (auto simp: mem_ok_def mem_size_def sample_full_def MAX_SIZE_def distinct_map o_def image_image)
  have "w \<in> fst ` set (mc_store sample_full) \<Longrightarrow> set w \<subseteq> {CHR ''k''}" for w
    by (auto simp: sample_full_def)
  then have "''new'' \<notin> fst ` set (mc_store sample_full)" by fastforce
  with full_store_evicts_oldest [OF ok] show ?thesis by simp
qed

end
