(* ===== verification/Retrieval.thy ===== *)
theory Retrieval
  imports Settings "HOL-Library.Multiset"
begin

text \<open>
  \<^verbatim>\<open>backend/llm/retriever/\<close>: what is retrieved for a question from the earlier messages and from
  the files: the two fusions of the dense and the sparse ranking (\<^verbatim>\<open>fusion.py\<close>), the policy per
  kind of question (\<^verbatim>\<open>policy.py\<close>), the retrieval functions (\<^verbatim>\<open>main.py\<close>), their queries
  (\<^verbatim>\<open>queries.py\<close>) and the attachments (\<^verbatim>\<open>attachments.py\<close>).

  The tables are lists of rows. A query is its \<^verbatim>\<open>WHERE\<close> as a filter, its \<^verbatim>\<open>ORDER BY\<close> as a stable
  sort (missing keys last, as PostgreSQL sorts them) and its \<^verbatim>\<open>LIMIT\<close>. The cosine distance of a
  row to the question and its full-text rank are given by the database extensions, so they are
  arguments: the distance is missing when the row has no embedding yet, the rank when the row does
  not match. Identifiers are texts; times are seconds.
\<close>

section \<open>Fusion\<close>

definition RRF_K :: nat where
  "RRF_K = 60"

text \<open>A row of a ranking: identifier, source, content and raw score.\<close>

type_synonym row = "string \<times> string \<times> string \<times> real"

record hit =
  chunk_id :: string
  source_id :: "string option"
  content :: string
  dense_score :: real
  sparse_score :: real
  final_score :: real
  retrieval_type :: string

text \<open>
  Python iterates a set in an order of its own. The order is an argument; where the argument is
  not a permutation, the order of insertion stands in for it.
\<close>

definition set_order :: "('a list \<Rightarrow> 'a list) \<Rightarrow> 'a list \<Rightarrow> 'a list" where
  "set_order ord xs = (if mset (ord xs) = mset xs then ord xs else xs)"

definition row_scores :: "row list \<Rightarrow> (string \<times> real) list" where
  "row_scores rows = fold (\<lambda>(rid, _, _, raw) d. dset d rid raw) rows []"

definition setdefault :: "('k \<times> 'v) list \<Rightarrow> 'k \<Rightarrow> 'v \<Rightarrow> ('k \<times> 'v) list" where
  "setdefault d k v = (if dget d k = None then dset d k v else d)"

definition union_keys :: "(string \<times> 'v) list \<Rightarrow> (string \<times> 'v) list \<Rightarrow> string list" where
  "union_keys d e = remdups (map fst d @ map fst e)"

definition max_score :: "(string \<times> real) list \<Rightarrow> real" where
  "max_score d = (if d = [] then 1 else Max (set (map snd d)))"

definition score_of :: "(string \<times> real) list \<Rightarrow> string \<Rightarrow> real" where
  "score_of d i = (case dget d i of Some x \<Rightarrow> x | None \<Rightarrow> 0)"

definition scaled :: "(string \<times> real) list \<Rightarrow> string \<Rightarrow> real" where
  "scaled d i = (if max_score d > 0 then score_of d i / max_score d else 0)"

definition weighted_merge :: "(string list \<Rightarrow> string list) \<Rightarrow> real \<Rightarrow> row list \<Rightarrow> row list \<Rightarrow> nat \<Rightarrow> hit list" where
  "weighted_merge ord alpha vector_rows bm25_rows top_k =
     (let dense_scores = row_scores vector_rows;
          sparse_scores = row_scores bm25_rows;
          contents0 = fold (\<lambda>(rid, _, c, _) d. dset d rid c) vector_rows [];
          contents = fold (\<lambda>(rid, _, c, _) d. setdefault d rid c) bm25_rows contents0;
          sources0 = fold (\<lambda>(rid, src, _, _) d. dset d rid src) vector_rows [];
          source_ids = fold (\<lambda>(rid, src, _, _) d. setdefault d rid src) bm25_rows sources0;
          result = map (\<lambda>i.
            let d = scaled dense_scores i; s = scaled sparse_scores i; final = alpha * d + (1 - alpha) * s
            in \<lparr>chunk_id = i, source_id = dget source_ids i, content = the (dget contents i),
                dense_score = round6 d, sparse_score = round6 s, final_score = round6 final,
                retrieval_type = ''weighted''\<rparr>) (set_order ord (union_keys dense_scores sparse_scores))
      in take top_k (py_sort_key (\<lambda>x. - final_score x) result))"

definition rank_scores :: "(string \<times> string \<times> string) list \<Rightarrow> (string \<times> real) list" where
  "rank_scores rows = fold (\<lambda>(rank, (rid, _, _)) d. dset d rid (1 / (of_nat RRF_K + of_nat rank + 1))) (enumerate 0 rows) []"

definition rrf_type :: "real \<Rightarrow> real \<Rightarrow> string" where
  "rrf_type d s = join ''+'' ((if s \<noteq> 0 then [''bm25''] else []) @ (if d \<noteq> 0 then [''vector''] else []))"

definition rrf_merge :: "(string list \<Rightarrow> string list) \<Rightarrow> (string \<times> string \<times> string) list \<Rightarrow> (string \<times> string \<times> string) list \<Rightarrow>
    nat \<Rightarrow> hit list" where
  "rrf_merge ord vector_rows bm25_rows top_k =
     (let dense = rank_scores vector_rows;
          sparse = rank_scores bm25_rows;
          contents = fold (\<lambda>(rid, _, c) d. dset d rid c) bm25_rows (fold (\<lambda>(rid, _, c) d. dset d rid c) vector_rows []);
          source_ids = fold (\<lambda>(rid, src, _) d. setdefault d rid src) bm25_rows
                         (fold (\<lambda>(rid, src, _) d. dset d rid src) vector_rows []);
          sorted_ids = py_sort_key (\<lambda>x. - (score_of dense x + score_of sparse x)) (set_order ord (union_keys dense sparse))
      in map (\<lambda>i.
           let d = round6 (score_of dense i); s = round6 (score_of sparse i)
           in \<lparr>chunk_id = i, source_id = dget source_ids i, content = the (dget contents i),
               dense_score = d, sparse_score = s, final_score = round6 (d + s),
               retrieval_type = rrf_type d s\<rparr>) (take top_k sorted_ids))"

text \<open>The vector-only branch the three retrieval functions share.\<close>

definition vector_hits :: "row list \<Rightarrow> nat \<Rightarrow> hit list" where
  "vector_hits vector_rows top_k =
     map (\<lambda>(rank, (rid, src, c, _)).
       let r = round6 (1 / (of_nat RRF_K + of_nat rank + 1))
       in \<lparr>chunk_id = rid, source_id = Some src, content = c, dense_score = r, sparse_score = 0, final_score = r,
           retrieval_type = ''vector''\<rparr>) (enumerate 0 (take top_k vector_rows))"

definition drop_raw :: "row list \<Rightarrow> (string \<times> string \<times> string) list" where
  "drop_raw rows = map (\<lambda>(rid, src, c, _). (rid, src, c)) rows"

definition fuse :: "(string list \<Rightarrow> string list) \<Rightarrow> string \<Rightarrow> real \<Rightarrow> row list \<Rightarrow> row list \<Rightarrow> nat \<Rightarrow> hit list" where
  "fuse ord fusion_mode alpha vector_rows bm25_rows top_k =
     (if fusion_mode = ''weighted'' then weighted_merge ord alpha vector_rows bm25_rows top_k
      else if bm25_rows \<noteq> [] then rrf_merge ord (drop_raw vector_rows) (drop_raw bm25_rows) top_k
      else vector_hits vector_rows top_k)"

section \<open>Policies\<close>

record policy =
  fusion_mode :: string
  alpha :: real
  k_dense :: nat
  k_sparse :: nat
  top_k :: nat
  use_graph :: bool

definition POLICY_MAP :: "(string \<times> policy) list" where
  "POLICY_MAP =
     [(''factual'', \<lparr>fusion_mode = ''weighted'', alpha = 7/10, k_dense = 20, k_sparse = 20, top_k = 5, use_graph = False\<rparr>),
      (''relational'', \<lparr>fusion_mode = ''rrf'', alpha = 1/2, k_dense = 20, k_sparse = 20, top_k = 8, use_graph = True\<rparr>),
      (''temporal'', \<lparr>fusion_mode = ''rrf'', alpha = 1/2, k_dense = 20, k_sparse = 10, top_k = 6, use_graph = False\<rparr>),
      (''broad'', \<lparr>fusion_mode = ''weighted'', alpha = 3/10, k_dense = 5, k_sparse = 20, top_k = 3, use_graph = False\<rparr>)]"

definition get_policy :: "string \<Rightarrow> policy" where
  "get_policy query_type =
     (case dget POLICY_MAP query_type of Some p \<Rightarrow> p | None \<Rightarrow> the (dget POLICY_MAP ''factual''))"

text \<open>The overrides are a change of the copied policy.\<close>

definition apply_policy :: "string \<Rightarrow> (policy \<Rightarrow> policy) \<Rightarrow> policy" where
  "apply_policy query_type overrides = overrides (get_policy query_type)"

section \<open>Tables and queries\<close>

record embedding_row =
  er_id :: string
  er_message :: string
  er_conversation :: string
  er_snippet :: string
  er_created :: "real option"

record conversation_row =
  cr_id :: string
  cr_user :: int
  cr_archived :: bool

record chunk_row =
  fc_id :: string
  fc_file :: string
  fc_index :: int
  fc_content :: string

text \<open>Ascending by an optional key, rows without a key last.\<close>

definition order_by :: "('a \<Rightarrow> real option) \<Rightarrow> 'a list \<Rightarrow> 'a list" where
  "order_by f xs = py_sort_key (\<lambda>x. the (f x)) (filter (\<lambda>x. f x \<noteq> None) xs) @ filter (\<lambda>x. f x = None) xs"

text \<open>\<^verbatim>\<open>float(r.sim)\<close> of every row: without an embedding the similarity is NULL, a \<^const>\<open>TypeError\<close>.\<close>

fun with_sims :: "('a \<Rightarrow> real option) \<Rightarrow> 'a list \<Rightarrow> ('a \<times> real) list result" where
  "with_sims cosd [] = Inr []"
| "with_sims cosd (x # xs) =
     (case cosd x of
        None \<Rightarrow> Inl (TypeError ''float'')
      | Some d \<Rightarrow> bindR (with_sims cosd xs) (\<lambda>ys. Inr ((x, 1 - d) # ys)))"

text \<open>The full-text queries: the matching rows by descending rank.\<close>

definition bm25_query :: "('a \<Rightarrow> real option) \<Rightarrow> ('a \<Rightarrow> bool) \<Rightarrow> nat \<Rightarrow> 'a list \<Rightarrow> ('a \<times> real) list" where
  "bm25_query rank where_cond limit rows =
     map (\<lambda>x. (x, the (rank x)))
       (take limit (py_sort_key (\<lambda>x. - the (rank x)) (filter (\<lambda>x. where_cond x \<and> rank x \<noteq> None) rows)))"

definition bm25_file_chunks :: "(chunk_row \<Rightarrow> real option) \<Rightarrow> string list \<Rightarrow> nat \<Rightarrow> chunk_row list \<Rightarrow> row list" where
  "bm25_file_chunks rank file_ids limit chunks =
     map (\<lambda>(r, s). (fc_id r, fc_file r, fc_content r, s)) (bm25_query rank (\<lambda>r. fc_file r \<in> set file_ids) limit chunks)"

definition bm25_message_embeddings :: "(embedding_row \<Rightarrow> real option) \<Rightarrow> (embedding_row \<Rightarrow> bool) \<Rightarrow> nat \<Rightarrow>
    embedding_row list \<Rightarrow> row list" where
  "bm25_message_embeddings rank where_cond limit rows =
     map (\<lambda>(r, s). (er_id r, er_conversation r, er_snippet r, s)) (bm25_query rank where_cond limit rows)"

definition get_relevance_scores :: "bool \<Rightarrow> (embedding_row \<Rightarrow> real option) \<Rightarrow> string \<Rightarrow> string list option \<Rightarrow>
    embedding_row list \<Rightarrow> (string \<times> real) list" where
  "get_relevance_scores up cosd conversation_id message_ids rows =
     (let chosen = filter (\<lambda>r. er_conversation r = conversation_id
            \<and> (case message_ids of Some (m # ms) \<Rightarrow> er_message r \<in> set (m # ms) | _ \<Rightarrow> True)) rows
      in if \<not> up then []
         else case with_sims cosd chosen of
           Inl _ \<Rightarrow> []
         | Inr sims \<Rightarrow> fold (\<lambda>(r, sim) d. dset d (er_message r) sim) sims [])"

datatype insert_outcome = Inserted | IntegrityError | InsertFailed

definition exchange_snippet :: "string \<Rightarrow> string \<Rightarrow> string" where
  "exchange_snippet user_text assistant_text =
     ''User: '' @ take 300 user_text @ newline @ ''Assistant: '' @ take 400 assistant_text"

text \<open>The outcome of the insertion is the database's; a failed one is rolled back.\<close>

definition store_exchange :: "insert_outcome \<Rightarrow> string \<Rightarrow> real \<Rightarrow> string \<Rightarrow> string \<Rightarrow> string \<Rightarrow> string \<Rightarrow>
    embedding_row list \<Rightarrow> embedding_row list" where
  "store_exchange outcome new_id now message_id conversation_id user_text assistant_text rows =
     (case outcome of
        Inserted \<Rightarrow> rows @ [\<lparr>er_id = new_id, er_message = message_id, er_conversation = conversation_id,
                             er_snippet = exchange_snippet user_text assistant_text, er_created = Some now\<rparr>]
      | _ \<Rightarrow> rows)"

definition get_conversation_file_ids :: "bool \<Rightarrow> (string \<times> string) list \<Rightarrow> string \<Rightarrow> string list" where
  "get_conversation_file_ids up links conv_id =
     (if up then map snd (filter (\<lambda>l. fst l = conv_id) links) else [])"

definition get_conversation_files :: "bool \<Rightarrow> (string \<times> string) list \<Rightarrow> (string \<times> string) list \<Rightarrow> string \<Rightarrow>
    string list \<times> string list" where
  "get_conversation_files up files links conv_id =
     (if up then
        let rows = [f. f \<leftarrow> files, l \<leftarrow> links, snd l = fst f, fst l = conv_id]
        in (map fst rows, map snd rows)
      else ([], []))"

section \<open>Retrieval\<close>

definition GLOBAL_SIM_FLOOR :: real where
  "GLOBAL_SIM_FLOOR = 30 / 100"

definition RECENCY_HALF_LIFE_DAYS :: real where
  "RECENCY_HALF_LIFE_DAYS = 14"

definition recency_weight :: "real option \<Rightarrow> real \<Rightarrow> real" where
  "recency_weight created_at now =
     (case created_at of
        None \<Rightarrow> 1
      | Some c \<Rightarrow> (1 / 2) powr (max 0 ((now - c) / 86400) / RECENCY_HALF_LIFE_DAYS))"

definition REFERENCE_KEYWORDS :: "string list" where
  "REFERENCE_KEYWORDS =
     [''earlier'', ''before'', ''you said'', ''remember'', ''last time'',
      ''previously'', ''we discussed'', ''you mentioned'', ''you told'',
      ''recall'', ''forgot'', ''forget'', ''back to'', ''as we talked'',
      ''you explained'', ''you showed'', ''we covered'']"

definition is_reference_query :: "string \<Rightarrow> bool" where
  "is_reference_query s = list_ex (\<lambda>kw. contains kw (lower s)) REFERENCE_KEYWORDS"

text \<open>
  What the surroundings of a retrieval answer: whether the vector query and the full-text query
  succeed, the distance and the rank of a row, and the iteration order of sets.
\<close>

record 'a retrieval_env =
  re_vec_up :: bool
  re_bm25_up :: bool
  re_dist :: "'a \<Rightarrow> real option"
  re_rank :: "'a \<Rightarrow> real option"
  re_order :: "string list \<Rightarrow> string list"

definition debug_info :: "string \<Rightarrow> hit list \<Rightarrow> (string \<times> string option \<times> real \<times> nat \<times> string) list" where
  "debug_info mode result = map (\<lambda>(i, c). (chunk_id c, source_id c, final_score c, i + 1, mode)) (enumerate 0 result)"

definition retrieve_where :: "string \<Rightarrow> string list \<Rightarrow> embedding_row \<Rightarrow> bool" where
  "retrieve_where conversation_id exclude_message_ids r =
     (er_conversation r = conversation_id \<and> (exclude_message_ids = [] \<or> er_message r \<notin> set exclude_message_ids))"

definition retrieve :: "embedding_row retrieval_env \<Rightarrow> policy \<Rightarrow> string \<Rightarrow> string \<Rightarrow> string list \<Rightarrow>
    embedding_row list \<Rightarrow> hit list" where
  "retrieve env pol conversation_id query_text exclude_message_ids rows =
     (let wh = retrieve_where conversation_id exclude_message_ids in
      if \<not> re_vec_up env then []
      else case with_sims (re_dist env) (take (k_dense pol) (order_by (re_dist env) (filter wh rows))) of
        Inl _ \<Rightarrow> []
      | Inr sims \<Rightarrow>
          let vector_rows = map (\<lambda>(r, sim). (er_id r, er_conversation r, er_snippet r, sim)) sims;
              bm25_rows = (if strip query_text \<noteq> [] \<and> re_bm25_up env
                           then bm25_message_embeddings (re_rank env) wh (k_sparse pol) rows else [])
          in fuse (re_order env) (fusion_mode pol) (alpha pol) vector_rows bm25_rows (top_k pol))"

text \<open>With \<^verbatim>\<open>debug\<close> set, the functions return the positions along with the hits.\<close>

definition retrieve_debug :: "embedding_row retrieval_env \<Rightarrow> policy \<Rightarrow> string \<Rightarrow> string \<Rightarrow> string list \<Rightarrow>
    embedding_row list \<Rightarrow> hit list \<times> (string \<times> string option \<times> real \<times> nat \<times> string) list" where
  "retrieve_debug env pol conversation_id query_text exclude_message_ids rows =
     (let result = retrieve env pol conversation_id query_text exclude_message_ids rows
      in (result, debug_info (fusion_mode pol) result))"

definition global_where :: "conversation_row list \<Rightarrow> int \<Rightarrow> string \<Rightarrow> embedding_row \<Rightarrow> bool" where
  "global_where convs user_id exclude_conv_id r =
     (er_conversation r \<noteq> exclude_conv_id
      \<and> list_ex (\<lambda>c. cr_id c = er_conversation r \<and> cr_user c = user_id \<and> \<not> cr_archived c) convs)"

definition global_rows :: "real \<Rightarrow> (embedding_row \<times> real) list \<Rightarrow> row list" where
  "global_rows now sims =
     py_sort_key (\<lambda>(_, _, _, w). - w)
       (map (\<lambda>(r, sim). (er_id r, er_conversation r, er_snippet r, sim * recency_weight (er_created r) now))
         (filter (\<lambda>(_, sim). \<not> sim < GLOBAL_SIM_FLOOR) sims))"

definition retrieve_global :: "embedding_row retrieval_env \<Rightarrow> policy \<Rightarrow> conversation_row list \<Rightarrow> real \<Rightarrow> string \<Rightarrow> int \<Rightarrow>
    string \<Rightarrow> embedding_row list \<Rightarrow> hit list" where
  "retrieve_global env pol convs now exclude_conv_id user_id query_text rows =
     (let wh = global_where convs user_id exclude_conv_id in
      if \<not> re_vec_up env then []
      else case with_sims (re_dist env) (take (k_dense pol) (order_by (re_dist env) (filter wh rows))) of
        Inl _ \<Rightarrow> []
      | Inr sims \<Rightarrow>
          let bm25_rows = (if strip query_text \<noteq> [] \<and> re_bm25_up env
                           then bm25_message_embeddings (re_rank env) wh (k_sparse pol) rows else [])
          in fuse (re_order env) (fusion_mode pol) (alpha pol) (global_rows now sims) bm25_rows (top_k pol))"

definition retrieve_from_files :: "chunk_row retrieval_env \<Rightarrow> policy \<Rightarrow> string list \<Rightarrow> string \<Rightarrow> chunk_row list \<Rightarrow> hit list" where
  "retrieve_from_files env pol file_ids query_text chunks =
     (if file_ids = [] then []
      else if \<not> re_vec_up env then []
      else case with_sims (re_dist env) (take (k_dense pol) (order_by (re_dist env)
               (filter (\<lambda>c. fc_file c \<in> set file_ids \<and> re_dist env c \<noteq> None) chunks))) of
        Inl _ \<Rightarrow> []
      | Inr sims \<Rightarrow>
          let vector_rows = map (\<lambda>(c, sim). (fc_id c, fc_file c, fc_content c, sim)) sims;
              bm25_rows = (if strip query_text \<noteq> [] \<and> re_bm25_up env
                           then bm25_file_chunks (re_rank env) file_ids (k_sparse pol) chunks else [])
          in fuse (re_order env) (fusion_mode pol) (alpha pol) vector_rows bm25_rows (top_k pol))"

definition retrieve_files_sequential :: "chunk_row retrieval_env \<Rightarrow> string list \<Rightarrow> nat \<Rightarrow> chunk_row list \<Rightarrow> hit list" where
  "retrieve_files_sequential env file_ids n chunks =
     (if file_ids = [] \<or> \<not> re_vec_up env then []
      else map (\<lambda>c. \<lparr>chunk_id = fc_id c, source_id = Some (fc_file c), content = fc_content c, dense_score = 0,
                     sparse_score = 0, final_score = 0, retrieval_type = ''sequential''\<rparr>)
             (take n (py_sort_key fc_index (filter (\<lambda>c. fc_file c \<in> set file_ids \<and> re_dist env c \<noteq> None) chunks))))"

section \<open>What a fusion promises\<close>

text \<open>
  The contract of a fusion of two rankings, for rankings whose identifiers are distinct in the
  first: no more hits than asked for, as many as there are rows to choose from, every row at most
  once, and every hit is a row of the input, with the source and the content of such a row.
\<close>

locale merge_contract =
  fixes merge :: "row list \<Rightarrow> row list \<Rightarrow> nat \<Rightarrow> hit list"
  assumes merge_size: "distinct (map fst v) \<Longrightarrow> length (merge v b k) = min k (card (fst ` (set v \<union> set b)))"
    and merge_distinct: "distinct (map fst v) \<Longrightarrow> distinct (map chunk_id (merge v b k))"
    and merge_source: "h \<in> set (merge v b k) \<Longrightarrow> \<exists>r \<in> set v \<union> set b. fst r = chunk_id h \<and> source_id h = Some (fst (snd r))"
    and merge_content: "h \<in> set (merge v b k) \<Longrightarrow> \<exists>r \<in> set v \<union> set b. fst r = chunk_id h \<and> content h = fst (snd (snd r))"
begin

lemma sources_kept:
  assumes "\<And>r. r \<in> set v \<union> set b \<Longrightarrow> P (fst (snd r))" and "h \<in> set (merge v b k)"
  shows "\<exists>src. source_id h = Some src \<and> P src"
  using merge_source [OF assms(2)] assms(1) by blast

lemma all_returned:
  assumes "distinct (map fst v)" and "card (fst ` (set v \<union> set b)) \<le> k"
  shows "chunk_id ` set (merge v b k) = fst ` (set v \<union> set b)"
proof (rule card_subset_eq)
  show "finite (fst ` (set v \<union> set b))" by simp
  show "chunk_id ` set (merge v b k) \<subseteq> fst ` (set v \<union> set b)"
    using merge_source by (metis image_eqI image_subsetI)
  have "card (chunk_id ` set (merge v b k)) = length (merge v b k)"
    using merge_distinct [OF assms(1)] by (metis distinct_card length_map set_map)
  then show "card (chunk_id ` set (merge v b k)) = card (fst ` (set v \<union> set b))"
    using merge_size [OF assms(1)] assms(2) by simp
qed

end

lemma set_set_order [simp]: "set (set_order ord xs) = set xs"
  unfolding set_order_def by (metis set_mset_mset)

lemma distinct_set_order [simp]: "distinct (set_order ord xs) = distinct xs"
  unfolding set_order_def by (metis mset_eq_imp_distinct_iff)

lemma length_set_order [simp]: "length (set_order ord xs) = length xs"
  unfolding set_order_def by (metis size_mset)

lemma fold_dset_keys:
  "fst ` set (fold (\<lambda>x d. dset d (f x) (g x)) xs d) = fst ` set d \<union> f ` set xs"
  by (induction xs arbitrary: d) (auto simp: dset_def dom_update)

lemma fold_dset_value:
  "dget (fold (\<lambda>x d. dset d (f x) (g x)) xs d) k = Some v \<Longrightarrow> (\<exists>x \<in> set xs. f x = k \<and> g x = v) \<or> dget d k = Some v"
  by (induction xs arbitrary: d) (fastforce simp: dget_dset split: if_splits)+

lemma fold_default_keys:
  "fst ` set (fold (\<lambda>x d. setdefault d (f x) (g x)) xs d) = fst ` set d \<union> f ` set xs"
proof (induction xs arbitrary: d)
  case Nil
  then show ?case by simp
next
  case (Cons x xs)
  have "fst ` set (setdefault d (f x) (g x)) = insert (f x) (fst ` set d)"
    by (auto simp: setdefault_def dset_def dom_update dget_def map_of_eq_None_iff)
  with Cons show ?case by auto
qed

lemma fold_default_value:
  "dget (fold (\<lambda>x d. setdefault d (f x) (g x)) xs d) k = Some v \<Longrightarrow> (\<exists>x \<in> set xs. f x = k \<and> g x = v) \<or> dget d k = Some v"
  by (induction xs arbitrary: d) (fastforce simp: setdefault_def dget_dset split: if_splits)+

lemma dget_in_keys: "k \<in> fst ` set d \<Longrightarrow> \<exists>v. dget d k = Some v"
  by (metis dget_def map_of_eq_None_iff not_None_eq)

lemma row_scores_keys: "fst ` set (row_scores rows) = fst ` set rows"
  unfolding row_scores_def case_prod_beta' fold_dset_keys by simp

lemma rank_scores_keys: "fst ` set (rank_scores rows) = fst ` set rows"
proof -
  have "fst ` set (rank_scores rows) = (\<lambda>x. fst (snd x)) ` set (enumerate 0 rows)"
    unfolding rank_scores_def case_prod_beta' fold_dset_keys by simp
  also have "\<dots> = fst ` snd ` set (enumerate 0 rows)" by (simp add: image_image)
  also have "snd ` set (enumerate 0 rows) = set rows" by (metis list.set_map map_snd_enumerate)
  finally show ?thesis .
qed

lemma union_keys: "set (union_keys d e) = fst ` set d \<union> fst ` set e" "distinct (union_keys d e)"
  "length (union_keys d e) = card (fst ` set d \<union> fst ` set e)"
  by (simp_all add: union_keys_def length_remdups_card_conv)

text \<open>The dictionaries both fusions build: who is in them, and where the values come from.\<close>

lemma fold_dset_fresh:
  "dget (fold (\<lambda>x d. dset d (f x) (g x)) xs []) k = Some v \<Longrightarrow> \<exists>x \<in> set xs. f x = k \<and> g x = v"
  using fold_dset_value [of f g xs "[]" k v] by simp

lemma default_over_dset:
  assumes "i \<in> f ` (set v \<union> set b)"
  shows "\<exists>r \<in> set v \<union> set b. f r = i \<and>
    dget (fold (\<lambda>x d. setdefault d (f x) (g x)) b (fold (\<lambda>x d. dset d (f x) (g x)) v [])) i = Some (g r)"
proof -
  let ?d = "fold (\<lambda>x d. setdefault d (f x) (g x)) b (fold (\<lambda>x d. dset d (f x) (g x)) v [])"
  have "i \<in> fst ` set ?d" using assms unfolding fold_default_keys fold_dset_keys by (simp add: image_Un Un_commute)
  then obtain s where s: "dget ?d i = Some s" using dget_in_keys [of i ?d] by blast
  from fold_default_value [OF s] have "\<exists>r \<in> set v \<union> set b. f r = i \<and> g r = s"
    using fold_dset_fresh [of f g v i s] by blast
  with s show ?thesis by blast
qed

lemma dset_over_dset:
  assumes "i \<in> f ` (set v \<union> set b)"
  shows "\<exists>r \<in> set v \<union> set b. f r = i \<and>
    dget (fold (\<lambda>x d. dset d (f x) (g x)) b (fold (\<lambda>x d. dset d (f x) (g x)) v [])) i = Some (g r)"
proof -
  let ?d = "fold (\<lambda>x d. dset d (f x) (g x)) b (fold (\<lambda>x d. dset d (f x) (g x)) v [])"
  have "i \<in> fst ` set ?d" using assms unfolding fold_dset_keys by (simp add: image_Un Un_commute)
  then obtain s where s: "dget ?d i = Some s" using dget_in_keys [of i ?d] by blast
  from fold_dset_value [OF s] have "\<exists>r \<in> set v \<union> set b. f r = i \<and> g r = s"
    using fold_dset_fresh [of f g v i s] by blast
  with s show ?thesis by blast
qed

lemma weighted_sources:
  assumes "i \<in> fst ` (set v \<union> set b)"
  shows "\<exists>r \<in> set v \<union> set b. fst r = i \<and>
    dget (fold (\<lambda>(rid, src, _, _) d. setdefault d rid src) b (fold (\<lambda>(rid, src, _, _) d. dset d rid src) v [])) i = Some (fst (snd r))"
  unfolding case_prod_beta' by (rule default_over_dset [OF assms])

lemma weighted_contents:
  assumes "i \<in> fst ` (set v \<union> set b)"
  shows "\<exists>r \<in> set v \<union> set b. fst r = i \<and>
    dget (fold (\<lambda>(rid, _, c, _) d. setdefault d rid c) b (fold (\<lambda>(rid, _, c, _) d. dset d rid c) v [])) i = Some (fst (snd (snd r)))"
  unfolding case_prod_beta' by (rule default_over_dset [OF assms])

lemma rrf_sources:
  assumes "i \<in> fst ` (set v \<union> set b)"
  shows "\<exists>r \<in> set v \<union> set b. fst r = i \<and>
    dget (fold (\<lambda>(rid, src, _) d. setdefault d rid src) (drop_raw b) (fold (\<lambda>(rid, src, _) d. dset d rid src) (drop_raw v) [])) i
      = Some (fst (snd r))"
  unfolding drop_raw_def fold_map o_def case_prod_beta' fst_conv snd_conv by (rule default_over_dset [OF assms])

lemma rrf_contents:
  assumes "i \<in> fst ` (set v \<union> set b)"
  shows "\<exists>r \<in> set v \<union> set b. fst r = i \<and>
    dget (fold (\<lambda>(rid, _, c) d. dset d rid c) (drop_raw b) (fold (\<lambda>(rid, _, c) d. dset d rid c) (drop_raw v) [])) i
      = Some (fst (snd (snd r)))"
  unfolding drop_raw_def fold_map o_def case_prod_beta' fst_conv snd_conv by (rule dset_over_dset [OF assms])

lemma drop_raw_keys: "fst ` set (drop_raw rows) = fst ` set rows"
  by (force simp: drop_raw_def)

lemma weighted_ids:
  "chunk_id ` set (weighted_merge ord al v b k) \<subseteq> fst ` (set v \<union> set b)"
  "distinct (map chunk_id (weighted_merge ord al v b k))"
  "length (weighted_merge ord al v b k) = min k (card (fst ` (set v \<union> set b)))"
proof -
  let ?ids = "set_order ord (union_keys (row_scores v) (row_scores b))"
  have ids: "set ?ids = fst ` (set v \<union> set b)" "distinct ?ids" "length ?ids = card (fst ` (set v \<union> set b))"
    by (simp_all add: union_keys row_scores_keys image_Un)
  show "chunk_id ` set (weighted_merge ord al v b k) \<subseteq> fst ` (set v \<union> set b)"
    unfolding ids(1) [symmetric] by (auto simp: weighted_merge_def Let_def simp del: set_set_order dest!: in_set_takeD)
  show "distinct (map chunk_id (weighted_merge ord al v b k))"
    using ids(2) unfolding weighted_merge_def Let_def take_map [symmetric]
    by (intro distinct_take) (simp add: o_def)
  show "length (weighted_merge ord al v b k) = min k (card (fst ` (set v \<union> set b)))"
    using ids(3) by (simp add: weighted_merge_def Let_def)
qed

lemma rrf_ids:
  "map chunk_id (rrf_merge ord v b k) =
     take k (py_sort_key (\<lambda>x. - (score_of (rank_scores v) x + score_of (rank_scores b) x))
       (set_order ord (union_keys (rank_scores v) (rank_scores b))))"
  by (simp add: rrf_merge_def Let_def o_def)

lemma rrf_id_facts:
  "chunk_id ` set (rrf_merge ord v b k) \<subseteq> fst ` (set v \<union> set b)"
  "distinct (map chunk_id (rrf_merge ord v b k))"
  "length (rrf_merge ord v b k) = min k (card (fst ` (set v \<union> set b)))"
proof -
  let ?ids = "py_sort_key (\<lambda>x. - (score_of (rank_scores v) x + score_of (rank_scores b) x))
       (set_order ord (union_keys (rank_scores v) (rank_scores b)))"
  have ids: "set ?ids = fst ` (set v \<union> set b)" "distinct ?ids" "length ?ids = card (fst ` (set v \<union> set b))"
    by (simp_all add: union_keys rank_scores_keys image_Un)
  have "chunk_id ` set (rrf_merge ord v b k) = set (take k ?ids)"
    by (simp only: rrf_ids [symmetric] set_map)
  then show "chunk_id ` set (rrf_merge ord v b k) \<subseteq> fst ` (set v \<union> set b)"
    using ids(1) set_take_subset [of k ?ids] by (simp only:)
  show "distinct (map chunk_id (rrf_merge ord v b k))" using ids(2) by (simp add: rrf_ids)
  show "length (rrf_merge ord v b k) = min k (card (fst ` (set v \<union> set b)))"
    using arg_cong [OF rrf_ids [of ord v b k], of length] ids(3) by (simp add: min.commute)
qed

interpretation weighted: merge_contract "weighted_merge ord al" for ord al
proof unfold_locales
  fix v b :: "row list" and k and h
  show "length (weighted_merge ord al v b k) = min k (card (fst ` (set v \<union> set b)))" by (rule weighted_ids)
  show "distinct (map chunk_id (weighted_merge ord al v b k))" by (rule weighted_ids)
  assume h: "h \<in> set (weighted_merge ord al v b k)"
  then have i: "chunk_id h \<in> fst ` (set v \<union> set b)" using weighted_ids(1) by blast
  from h have src: "source_id h = dget (fold (\<lambda>(rid, src, _, _) d. setdefault d rid src) b
      (fold (\<lambda>(rid, src, _, _) d. dset d rid src) v [])) (chunk_id h)"
    and cnt: "content h = the (dget (fold (\<lambda>(rid, _, c, _) d. setdefault d rid c) b
      (fold (\<lambda>(rid, _, c, _) d. dset d rid c) v [])) (chunk_id h))"
    by (auto simp: weighted_merge_def Let_def dest!: in_set_takeD)
  show "\<exists>r \<in> set v \<union> set b. fst r = chunk_id h \<and> source_id h = Some (fst (snd r))"
    using weighted_sources [OF i] src by metis
  show "\<exists>r \<in> set v \<union> set b. fst r = chunk_id h \<and> content h = fst (snd (snd r))"
    using weighted_contents [OF i] cnt by (metis option.sel)
qed

interpretation rrf: merge_contract "\<lambda>v b. rrf_merge ord (drop_raw v) (drop_raw b)" for ord
proof unfold_locales
  fix v b :: "row list" and k and h
  have keys: "fst ` (set (drop_raw v) \<union> set (drop_raw b)) = fst ` (set v \<union> set b)"
    by (simp add: image_Un drop_raw_keys)
  show "length (rrf_merge ord (drop_raw v) (drop_raw b) k) = min k (card (fst ` (set v \<union> set b)))"
    using rrf_id_facts(3) keys by metis
  show "distinct (map chunk_id (rrf_merge ord (drop_raw v) (drop_raw b) k))" by (rule rrf_id_facts)
  assume h: "h \<in> set (rrf_merge ord (drop_raw v) (drop_raw b) k)"
  then have i: "chunk_id h \<in> fst ` (set v \<union> set b)" using rrf_id_facts(1) keys by blast
  from h have src: "source_id h = dget (fold (\<lambda>(rid, src, _) d. setdefault d rid src) (drop_raw b)
      (fold (\<lambda>(rid, src, _) d. dset d rid src) (drop_raw v) [])) (chunk_id h)"
    and cnt: "content h = the (dget (fold (\<lambda>(rid, _, c) d. dset d rid c) (drop_raw b)
      (fold (\<lambda>(rid, _, c) d. dset d rid c) (drop_raw v) [])) (chunk_id h))"
    by (auto simp: rrf_merge_def Let_def)
  show "\<exists>r \<in> set v \<union> set b. fst r = chunk_id h \<and> source_id h = Some (fst (snd r))"
    using rrf_sources [OF i] src by metis
  show "\<exists>r \<in> set v \<union> set b. fst r = chunk_id h \<and> content h = fst (snd (snd r))"
    using rrf_contents [OF i] cnt by (metis option.sel)
qed

lemma vector_hits_facts:
  "map chunk_id (vector_hits v k) = take k (map fst v)"
  "h \<in> set (vector_hits v k) \<Longrightarrow> \<exists>r \<in> set v. fst r = chunk_id h \<and> source_id h = Some (fst (snd r)) \<and> content h = fst (snd (snd r))"
proof -
  have "map chunk_id (vector_hits v k) = map (fst \<circ> snd) (enumerate 0 (take k v))"
    by (simp add: vector_hits_def o_def case_prod_beta' Let_def)
  also have "\<dots> = map fst (map snd (enumerate 0 (take k v)))" by (simp only: map_map)
  finally show "map chunk_id (vector_hits v k) = take k (map fst v)" by (simp only: map_snd_enumerate take_map)
  assume "h \<in> set (vector_hits v k)"
  then obtain x where x: "x \<in> set (enumerate 0 (take k v))" and h: "chunk_id h = fst (snd x)"
      "source_id h = Some (fst (snd (snd x)))" "content h = fst (snd (snd (snd x)))"
    by (auto simp: vector_hits_def case_prod_beta' Let_def)
  have "snd x \<in> set (take k v)" using x by (metis list.set_map map_snd_enumerate imageI)
  then have "snd x \<in> set v" by (rule in_set_takeD)
  with h show "\<exists>r \<in> set v. fst r = chunk_id h \<and> source_id h = Some (fst (snd r)) \<and> content h = fst (snd (snd r))" by auto
qed

interpretation fused: merge_contract "fuse ord mode al" for ord mode al
proof unfold_locales
  fix v b :: "row list" and k and h
  note defs = fuse_def [of ord mode al v b k]
  show "length (fuse ord mode al v b k) = min k (card (fst ` (set v \<union> set b)))" if "distinct (map fst v)"
  proof -
    have "length (vector_hits v k) = min k (card (fst ` set v))"
      using arg_cong [OF vector_hits_facts(1) [of v k], of length] distinct_card [OF that] by (simp add: min.commute)
    then show ?thesis
      using that weighted.merge_size rrf.merge_size unfolding defs by (cases "b = []") simp_all
  qed
  show "distinct (map chunk_id (fuse ord mode al v b k))" if "distinct (map fst v)"
    using that weighted.merge_distinct rrf.merge_distinct unfolding defs by (simp add: vector_hits_facts(1))
  assume h: "h \<in> set (fuse ord mode al v b k)"
  then consider "h \<in> set (weighted_merge ord al v b k)" | "h \<in> set (rrf_merge ord (drop_raw v) (drop_raw b) k)"
    | "h \<in> set (vector_hits v k)"
    unfolding defs by (auto split: if_splits)
  note cases = this
  show "\<exists>r \<in> set v \<union> set b. fst r = chunk_id h \<and> source_id h = Some (fst (snd r))"
    using cases
  proof cases
    case 1 then show ?thesis by (rule weighted.merge_source)
  next
    case 2 then show ?thesis by (rule rrf.merge_source)
  next
    case 3 then show ?thesis using vector_hits_facts(2) by blast
  qed
  show "\<exists>r \<in> set v \<union> set b. fst r = chunk_id h \<and> content h = fst (snd (snd r))"
    using cases
  proof cases
    case 1 then show ?thesis by (rule weighted.merge_content)
  next
    case 2 then show ?thesis by (rule rrf.merge_content)
  next
    case 3 then show ?thesis using vector_hits_facts(2) by blast
  qed
qed

section \<open>Whose texts are retrieved\<close>

lemma set_order_by [simp]: "set (order_by f xs) = set xs"
  by (auto simp: order_by_def)

lemma with_sims_set: "with_sims cosd xs = Inr sims \<Longrightarrow> map fst sims = xs"
  by (induction xs arbitrary: sims) (auto simp: bindR_eq_Inr split: option.splits)

lemma sims_rows:
  assumes "with_sims cosd (take n (order_by cosd (filter P xs))) = Inr sims" and "(x, y) \<in> set sims"
  shows "x \<in> set xs \<and> P x"
proof -
  have "x \<in> set (take n (order_by cosd (filter P xs)))"
    using assms with_sims_set by (metis fst_conv image_eqI list.set_map)
  then have "x \<in> set (order_by cosd (filter P xs))" by (rule in_set_takeD)
  then show ?thesis by simp
qed

lemma bm25_rows_where:
  "(x, y) \<in> set (bm25_query rank P n rows) \<Longrightarrow> x \<in> set rows \<and> P x"
  by (auto simp: bm25_query_def dest!: in_set_takeD)

lemma retrieve_sources:
  assumes "h \<in> set (retrieve env pol conv q excl rows)"
  shows "source_id h = Some conv"
proof -
  obtain sims where sims: "with_sims (re_dist env) (take (k_dense pol) (order_by (re_dist env)
      (filter (retrieve_where conv excl) rows))) = Inr sims"
    using assms by (cases "with_sims (re_dist env) (take (k_dense pol) (order_by (re_dist env)
      (filter (retrieve_where conv excl) rows)))") (auto simp: retrieve_def Let_def split: if_splits)
  then have h: "h \<in> set (fuse (re_order env) (fusion_mode pol) (alpha pol)
        (map (\<lambda>(r, sim). (er_id r, er_conversation r, er_snippet r, sim)) sims)
        (if strip q \<noteq> [] \<and> re_bm25_up env then bm25_message_embeddings (re_rank env) (retrieve_where conv excl) (k_sparse pol) rows else []) (top_k pol))"
    using assms by (cases "re_vec_up env") (simp_all add: retrieve_def Let_def split: if_splits)
  have "\<exists>src. source_id h = Some src \<and> src = conv"
    by (rule fused.sources_kept [OF _ h])
       (use sims_rows [OF sims] bm25_rows_where in \<open>force simp: bm25_message_embeddings_def retrieve_where_def split: if_splits\<close>)
  then show ?thesis by simp
qed

definition own_conversation :: "conversation_row list \<Rightarrow> int \<Rightarrow> string \<Rightarrow> string \<Rightarrow> bool" where
  "own_conversation convs user_id exclude src =
     (src \<noteq> exclude \<and> (\<exists>c \<in> set convs. cr_id c = src \<and> cr_user c = user_id \<and> \<not> cr_archived c))"

lemma retrieve_global_sources:
  assumes "h \<in> set (retrieve_global env pol convs now excl user q rows)"
  shows "\<exists>src. source_id h = Some src \<and> own_conversation convs user excl src"
proof -
  let ?wh = "global_where convs user excl"
  obtain sims where sims: "with_sims (re_dist env) (take (k_dense pol) (order_by (re_dist env) (filter ?wh rows))) = Inr sims"
    using assms by (cases "with_sims (re_dist env) (take (k_dense pol) (order_by (re_dist env) (filter ?wh rows)))") (auto simp: retrieve_global_def Let_def split: if_splits)
  then have h: "h \<in> set (fuse (re_order env) (fusion_mode pol) (alpha pol) (global_rows now sims)
        (if strip q \<noteq> [] \<and> re_bm25_up env then bm25_message_embeddings (re_rank env) ?wh (k_sparse pol) rows else []) (top_k pol))"
    using assms by (cases "re_vec_up env") (simp_all add: retrieve_global_def Let_def split: if_splits)
  have w: "?wh r \<Longrightarrow> own_conversation convs user excl (er_conversation r)" for r
    by (auto simp: global_where_def own_conversation_def list_ex_iff)
  show ?thesis
    by (rule fused.sources_kept [OF _ h])
       (use sims_rows [OF sims] bm25_rows_where w in \<open>force simp: bm25_message_embeddings_def global_rows_def split: if_splits\<close>)
qed

lemma retrieve_files_sources:
  assumes "h \<in> set (retrieve_from_files env pol files q chunks)"
  shows "\<exists>src. source_id h = Some src \<and> src \<in> set files"
proof -
  obtain sims where sims: "with_sims (re_dist env) (take (k_dense pol) (order_by (re_dist env)
      (filter (\<lambda>c. fc_file c \<in> set files \<and> re_dist env c \<noteq> None) chunks))) = Inr sims"
    using assms by (cases "with_sims (re_dist env) (take (k_dense pol) (order_by (re_dist env)
      (filter (\<lambda>c. fc_file c \<in> set files \<and> re_dist env c \<noteq> None) chunks)))") (auto simp: retrieve_from_files_def Let_def split: if_splits)
  then have h: "h \<in> set (fuse (re_order env) (fusion_mode pol) (alpha pol)
        (map (\<lambda>(c, sim). (fc_id c, fc_file c, fc_content c, sim)) sims)
        (if strip q \<noteq> [] \<and> re_bm25_up env then bm25_file_chunks (re_rank env) files (k_sparse pol) chunks else []) (top_k pol))"
    using assms by (cases "re_vec_up env") (simp_all add: retrieve_from_files_def Let_def split: if_splits, blast?)
  show ?thesis
    by (rule fused.sources_kept [OF _ h])
       (use sims_rows [OF sims] bm25_rows_where in \<open>force simp: bm25_file_chunks_def split: if_splits\<close>)
qed

text \<open>
  C17. Nobody retrieves another user's texts: every hit of a retrieval within a conversation comes
  from that conversation; every hit of a retrieval over all conversations from one of the same
  user that is not archived and is not the excluded one; every hit of a file retrieval from one of
  the given files. This holds for both fusions, for every policy, and whatever the database
  extensions answer.
\<close>

theorem retrieval_stays_with_user:
  "(\<forall>h \<in> set (retrieve env pol conv q excl rows). source_id h = Some conv)
   \<and> (\<forall>h \<in> set (retrieve_global env pol convs now excl_conv user q rows).
        \<exists>src. source_id h = Some src \<and> own_conversation convs user excl_conv src)
   \<and> (\<forall>h \<in> set (retrieve_from_files fenv pol files q chunks). \<exists>src. source_id h = Some src \<and> src \<in> set files)"
  by (simp add: retrieve_sources retrieve_global_sources retrieve_files_sources)

definition sample_row :: "string \<Rightarrow> string \<Rightarrow> embedding_row" where
  "sample_row i c = \<lparr>er_id = i, er_message = ''msg-'' @ i, er_conversation = c, er_snippet = ''about '' @ i, er_created = None\<rparr>"

definition sample_env :: "embedding_row retrieval_env" where
  "sample_env = \<lparr>re_vec_up = True, re_bm25_up = True,
     re_dist = (\<lambda>r. if er_id r = ''new'' then None else Some (1/4)),
     re_rank = (\<lambda>r. if er_id r = ''a'' then Some (1/10) else None), re_order = rev\<rparr>"

theorem retrieval_stays_with_user_witness:
  "map chunk_id (retrieve sample_env (get_policy ''factual'') ''c1'' ''hi'' [] [sample_row ''a'' ''c1'', sample_row ''b'' ''c2'', sample_row ''d'' ''c1'']) = [''a'', ''d'']
   \<and> source_id (hd (retrieve sample_env (get_policy ''factual'') ''c1'' ''hi'' [] [sample_row ''a'' ''c1'', sample_row ''b'' ''c2'', sample_row ''d'' ''c1''])) = Some ''c1''"
proof -
  let ?hits = "retrieve sample_env (get_policy ''factual'') ''c1'' ''hi'' [] [sample_row ''a'' ''c1'', sample_row ''b'' ''c2'', sample_row ''d'' ''c1'']"
  have ids: "map chunk_id ?hits = [''a'', ''d'']" by code_simp
  then have "hd ?hits \<in> set ?hits" by (metis hd_in_set list.map_disc_iff list.distinct(1))
  with retrieval_stays_with_user [of sample_env "get_policy ''factual''" "''c1''" "''hi''" "[]"
      "[sample_row ''a'' ''c1'', sample_row ''b'' ''c2'', sample_row ''d'' ''c1'']"] ids
  show ?thesis by blast
qed

section \<open>Messages without an embedding\<close>

lemma with_sims_missing: "x \<in> set xs \<Longrightarrow> cosd x = None \<Longrightarrow> \<exists>e. with_sims cosd xs = Inl e"
  by (induction xs) (auto split: option.splits)

lemma unembedded_reached:
  assumes "x \<in> set xs" and "f x = None" and "length (filter (\<lambda>x. f x \<noteq> None) xs) < n"
  shows "\<exists>y \<in> set (take n (order_by f xs)). f y = None"
proof -
  let ?a = "py_sort_key (\<lambda>x. the (f x)) (filter (\<lambda>x. f x \<noteq> None) xs)" and ?b = "filter (\<lambda>x. f x = None) xs"
  obtain y ys where b: "?b = y # ys" using assms(1,2) by (cases ?b) (auto simp: filter_empty_conv)
  obtain m where "n - length ?a = Suc m" using assms(3) by (cases "n - length ?a") auto
  then have "y \<in> set (take n (order_by f xs))" by (simp add: order_by_def b)
  moreover have "f y = None" using b by (metis (mono_tags, lifting) list.set_intros(1) mem_Collect_eq set_filter)
  ultimately show ?thesis by blast
qed

text \<open>
  One message that has no embedding yet empties the retrieval of its conversation: if the
  conversation has fewer than \<^verbatim>\<open>k_dense\<close> embedded messages, the row without an embedding is among
  those fetched, its similarity is missing, and the whole retrieval returns nothing, including
  the rows the full-text search would have found. The same holds over all conversations. The file
  retrieval, which asks for embedded chunks only, is not affected.
\<close>

theorem unembedded_message_hides_all:
  assumes "r \<in> set rows" and "re_dist env r = None"
  shows "(retrieve_where conv excl r \<and> length (filter (\<lambda>x. retrieve_where conv excl x \<and> re_dist env x \<noteq> None) rows) < k_dense pol
       \<longrightarrow> retrieve env pol conv q excl rows = [])
    \<and> (global_where convs user excl_conv r
       \<and> length (filter (\<lambda>x. global_where convs user excl_conv x \<and> re_dist env x \<noteq> None) rows) < k_dense pol
       \<longrightarrow> retrieve_global env pol convs now excl_conv user q rows = [])"
proof -
  have fails: "\<exists>e. with_sims (re_dist env) (take (k_dense pol) (order_by (re_dist env) (filter P rows))) = Inl e"
    if "P r" and "length (filter (\<lambda>x. P x \<and> re_dist env x \<noteq> None) rows) < k_dense pol" for P
  proof -
    have "\<exists>y \<in> set (take (k_dense pol) (order_by (re_dist env) (filter P rows))). re_dist env y = None"
      using that assms by (intro unembedded_reached [of r]) (auto simp: conj_commute)
    then obtain y where "y \<in> set (take (k_dense pol) (order_by (re_dist env) (filter P rows)))" "re_dist env y = None" by blast
    then show ?thesis by (rule with_sims_missing)
  qed
  show ?thesis
  proof (intro conjI impI; elim conjE)
    assume "retrieve_where conv excl r" "length (filter (\<lambda>x. retrieve_where conv excl x \<and> re_dist env x \<noteq> None) rows) < k_dense pol"
    from fails [OF this] show "retrieve env pol conv q excl rows = []" by (auto simp only: retrieve_def Let_def sum.case split: if_splits)
  next
    assume "global_where convs user excl_conv r"
      "length (filter (\<lambda>x. global_where convs user excl_conv x \<and> re_dist env x \<noteq> None) rows) < k_dense pol"
    from fails [OF this] show "retrieve_global env pol convs now excl_conv user q rows = []"
      by (auto simp only: retrieve_global_def Let_def sum.case split: if_splits)
  qed
qed

theorem unembedded_message_hides_all_witness:
  "retrieve sample_env (get_policy ''factual'') ''c1'' ''hi'' [] [sample_row ''a'' ''c1'', sample_row ''new'' ''c1''] = []
   \<and> retrieve sample_env (get_policy ''factual'') ''c1'' ''hi'' [] [sample_row ''a'' ''c1''] \<noteq> []"
proof -
  have "sample_row ''new'' ''c1'' \<in> set [sample_row ''a'' ''c1'', sample_row ''new'' ''c1'']"
    and d: "re_dist sample_env (sample_row ''new'' ''c1'') = None"
    by (simp_all add: sample_env_def sample_row_def)
  note hides = unembedded_message_hides_all [OF this, of "''c1''" "[]" "get_policy ''factual''" "''hi''" "[]" 0 "[]" 0]
  have "retrieve_where ''c1'' [] (sample_row ''new'' ''c1'')
      \<and> length (filter (\<lambda>x. retrieve_where ''c1'' [] x \<and> re_dist sample_env x \<noteq> None) [sample_row ''a'' ''c1'', sample_row ''new'' ''c1''])
          < k_dense (get_policy ''factual'')"
    by code_simp
  then have "retrieve sample_env (get_policy ''factual'') ''c1'' ''hi'' [] [sample_row ''a'' ''c1'', sample_row ''new'' ''c1''] = []"
    by (rule mp [OF conjunct1 [OF hides]])
  moreover have "length (retrieve sample_env (get_policy ''factual'') ''c1'' ''hi'' [] [sample_row ''a'' ''c1'']) = 1" by code_simp
  ultimately show ?thesis by auto
qed

section \<open>Scores\<close>

lemma round6_le_one: "x \<le> 1 \<Longrightarrow> round6 x \<le> 1"
proof -
  assume x: "x \<le> 1"
  define z where "z = x * 1000000"
  have z: "z \<le> 1000000" using x by (simp add: z_def)
  have "round_half_even z \<le> 1000000"
  proof (cases "z = 1000000")
    case True
    then show ?thesis by (simp add: round_half_even_def Let_def)
  next
    case False
    with z have "\<lfloor>z\<rfloor> < 1000000" by (simp add: floor_less_iff)
    then show ?thesis by (simp add: round_half_even_def Let_def)
  qed
  then have "real_of_int (round_half_even z) \<le> 1000000" by linarith
  then show ?thesis by (simp add: round6_def z_def)
qed

lemma scaled_le_one: "scaled d i \<le> 1"
proof (cases "dget d i")
  case None
  then show ?thesis by (simp add: scaled_def score_of_def)
next
  case (Some x)
  then have "(i, x) \<in> set d" by (simp add: dget_def map_of_SomeD)
  then have "x \<in> snd ` set d" and "d \<noteq> []" by force+
  then have "x \<le> max_score d" by (simp add: max_score_def)
  then show ?thesis using Some by (simp add: scaled_def score_of_def)
qed

text \<open>
  The weighted fusion ranks on a common scale: its hits come in descending order of their
  final score, and for a weight between 0 and 1 no final score exceeds 1, whatever the raw scores
  of the two searches are.
\<close>

theorem weighted_merge_scores:
  assumes "0 \<le> w" and "w \<le> 1"
  shows "sorted (map (\<lambda>h. - final_score h) (weighted_merge ord w v b k))
       \<and> (\<forall>h \<in> set (weighted_merge ord w v b k). final_score h \<le> 1)"
proof
  show "sorted (map (\<lambda>h. - final_score h) (weighted_merge ord w v b k))"
    unfolding weighted_merge_def Let_def take_map [symmetric] by (intro sorted_wrt_take) simp
  have "round6 (w * scaled d i + (1 - w) * scaled e i) \<le> 1" for d e i
  proof (rule round6_le_one)
    have "w * scaled d i \<le> w * 1" "(1 - w) * scaled e i \<le> (1 - w) * 1"
      using assms scaled_le_one by (intro mult_left_mono; simp)+
    then show "w * scaled d i + (1 - w) * scaled e i \<le> 1" by simp
  qed
  then show "\<forall>h \<in> set (weighted_merge ord w v b k). final_score h \<le> 1"
    by (auto simp: weighted_merge_def Let_def dest!: in_set_takeD)
qed

theorem weighted_merge_scores_witness:
  "sorted (map (\<lambda>h. - final_score h) (weighted_merge rev (7/10) [(''a'', ''s'', ''x'', 1/2)] [(''b'', ''s'', ''y'', 3)] 5))"
  using weighted_merge_scores [of "7/10" rev "[(''a'', ''s'', ''x'', 1/2)]" "[(''b'', ''s'', ''y'', 3)]" 5] by simp

text \<open>The reciprocal rank of an identifier in a ranking, by its position.\<close>

definition reciprocal_rank :: "(string \<times> string \<times> string) list \<Rightarrow> string \<Rightarrow> real" where
  "reciprocal_rank rows i =
     (if i \<in> fst ` set rows then 1 / (61 + of_nat (length (takeWhile (\<lambda>r. fst r \<noteq> i) rows))) else 0)"

lemma fold_enumerate_dset:
  assumes "distinct (map fst rows)"
  shows "dget (fold (\<lambda>x d. dset d (fst (snd x)) (g (fst x))) (enumerate n rows) d0) i =
    (if i \<in> fst ` set rows then Some (g (n + length (takeWhile (\<lambda>r. fst r \<noteq> i) rows))) else dget d0 i)"
  using assms
proof (induction rows arbitrary: n d0)
  case Nil
  then show ?case by simp
next
  case (Cons r rows)
  have r: "fst r \<notin> fst ` set rows" and d: "distinct (map fst rows)" using Cons.prems by auto
  show ?case
    using r by (cases r) (auto simp: Cons.IH [OF d] dget_dset)
qed

text \<open>
  C25. The rank fusion is reciprocal rank fusion: for two rankings without repeated identifiers,
  the hits are the best ones, in descending order of the sum of \<open>1 / (60 + position)\<close> over the
  rankings that contain them, positions counted from 1.
\<close>

theorem rrf_merge_is_reciprocal_rank:
  assumes "distinct (map fst v)" and "distinct (map fst b)"
  shows "map chunk_id (rrf_merge ord v b k) =
     take k (py_sort_key (\<lambda>i. - (reciprocal_rank v i + reciprocal_rank b i)) (set_order ord (union_keys (rank_scores v) (rank_scores b))))"
proof -
  have "score_of (rank_scores rows) i = reciprocal_rank rows i" if "distinct (map fst rows)" for rows i
    unfolding score_of_def rank_scores_def reciprocal_rank_def case_prod_beta'
    by (subst fold_enumerate_dset [OF that]) (simp add: RRF_K_def)
  then show ?thesis using assms by (simp add: rrf_ids)
qed

theorem rrf_merge_is_reciprocal_rank_witness:
  "map chunk_id (rrf_merge rev [(''a'', ''s'', ''x''), (''b'', ''s'', ''y'')] [(''b'', ''s'', ''y'')] 5) =
     take 5 (py_sort_key (\<lambda>i. - (reciprocal_rank [(''a'', ''s'', ''x''), (''b'', ''s'', ''y'')] i + reciprocal_rank [(''b'', ''s'', ''y'')] i))
       (set_order rev (union_keys (rank_scores [(''a'', ''s'', ''x''), (''b'', ''s'', ''y'')]) (rank_scores [(''b'', ''s'', ''y'')]))))"
  by (rule rrf_merge_is_reciprocal_rank) simp_all

text \<open>
  Recency: the weight of a message of the global pool is positive and at most 1, it is 1 for
  a message of now or of the future, and it halves with every 14 days of age.
\<close>

theorem recency_halves:
  "0 < recency_weight (Some c) now \<and> recency_weight (Some c) now \<le> 1
   \<and> (now \<le> c \<longrightarrow> recency_weight (Some c) now = 1)
   \<and> (c \<le> now \<longrightarrow> recency_weight (Some (c - 14 * 86400)) now = recency_weight (Some c) now / 2)"
proof -
  have half: "((1::real) / 2) powr (x + 1) = ((1 / 2) powr x) / 2" for x :: real
    by (simp add: powr_add)
  have "max 0 ((now - (c - 14 * 86400)) / 86400) / 14 = max 0 ((now - c) / 86400) / 14 + 1" if "c \<le> now"
    using that by (simp add: field_simps)
  then have "c \<le> now \<Longrightarrow> recency_weight (Some (c - 14 * 86400)) now = recency_weight (Some c) now / 2"
    by (simp only: recency_weight_def option.case RECENCY_HALF_LIFE_DAYS_def half)
  moreover have "(1 / 2 :: real) powr x \<le> 1" if "0 \<le> x" for x
    using that by (simp add: powr_le1)
  ultimately show ?thesis
    by (auto simp: recency_weight_def RECENCY_HALF_LIFE_DAYS_def)
qed

theorem recency_halves_witness:
  "recency_weight (Some (0 - 14 * 86400)) 0 = 1 / 2"
  using recency_halves [of 0 0] by simp

end
