(* ===== verification/Content_Filter.thy ===== *)
theory Content_Filter
  imports Py_Prelude
begin

text \<open>
  \<^verbatim>\<open>backend/llm/service/content_filter.py\<close>: the compression of tool output before a message is
  stored. The scan for numbered blocks is a \<^verbatim>\<open>while\<close> loop that need not end, so it is a partial
  function whose value \<^const>\<open>None\<close> is a run without end; the scan for fenced blocks always ends.
\<close>

definition MAX_BLOCK_LINES :: nat where
  "MAX_BLOCK_LINES = 20"

definition MAX_LINE_LENGTH :: nat where
  "MAX_LINE_LENGTH = 120"

text \<open>\<^verbatim>\<open>str.isidentifier\<close> on the modelled alphabet.\<close>

definition ident_start :: "char \<Rightarrow> bool" where
  "ident_start c = (let n = code c in
     (65 \<le> n \<and> n \<le> 90) \<or> (97 \<le> n \<and> n \<le> 122) \<or> n = 95 \<or> n \<in> {170, 181, 186}
     \<or> (192 \<le> n \<and> n \<le> 214) \<or> (216 \<le> n \<and> n \<le> 246) \<or> (248 \<le> n \<and> n \<le> 255))"

definition isidentifier :: "string \<Rightarrow> bool" where
  "isidentifier s = (case s of [] \<Rightarrow> False
     | c # r \<Rightarrow> ident_start c \<and> list_all (\<lambda>d. ident_start d \<or> (48 \<le> code d \<and> code d \<le> 57) \<or> code d = 183) r)"

section \<open>Fenced blocks\<close>

definition opens_fence :: "string \<Rightarrow> string \<Rightarrow> bool" where
  "opens_fence fence line =
     (let s = strip line in s = fence \<or> startswith s fence \<and> isidentifier (lstrip (drop (length fence) s)))"

definition fence_marker :: "string \<Rightarrow> nat \<Rightarrow> string" where
  "fence_marker label n = ''[~s3~ '' @ label @ '': '' @ nat_str n @ '' lines, compressed '' @ em_dash @ '' not shown in history]''"

text \<open>
  The lines from an opening fence on: the block is what precedes the next closing fence; without
  a closing fence it is empty.
\<close>

function collapse_fences :: "string \<Rightarrow> string \<Rightarrow> string list \<Rightarrow> string list" where
  "collapse_fences fence label [] = []"
| "collapse_fences fence label (l # rest) =
     (let body = takeWhile (\<lambda>x. strip x \<noteq> fence) rest;
          closed = length body < length rest
      in if opens_fence fence l \<and> closed \<and> length body > MAX_BLOCK_LINES then
           [fence @ strip (drop (length fence) (strip l)), fence_marker label (length body), fence]
             @ collapse_fences fence label (drop (Suc (length body)) rest)
         else l # collapse_fences fence label rest)"
  by pat_completeness auto
termination by (relation "measure (\<lambda>(_, _, ls). length ls)") auto

definition collapse_code_fence_block :: "string \<Rightarrow> string \<Rightarrow> string \<Rightarrow> string" where
  "collapse_code_fence_block txt fence label = join_lines (collapse_fences fence label (split_lines txt))"

section \<open>Numbered blocks\<close>

text \<open>The pattern \<^verbatim>\<open>^\s*\d{1,4}[:.]\s\<close> at the start of a text.\<close>

definition ascii_digit :: "char \<Rightarrow> bool" where
  "ascii_digit c = (48 \<le> code c \<and> code c \<le> 57)"

definition numbered :: "string \<Rightarrow> bool" where
  "numbered line =
     (let s = lstrip line; ds = takeWhile ascii_digit s; r = dropWhile ascii_digit s
      in 1 \<le> length ds \<and> length ds \<le> 4
         \<and> (case r of c # d # _ \<Rightarrow> c \<in> set '':.'' \<and> py_isspace d | _ \<Rightarrow> False))"

definition short_numbered :: "string \<Rightarrow> bool" where
  "short_numbered line = numbered (take MAX_LINE_LENGTH line)"

definition numbered_marker :: "nat \<Rightarrow> string" where
  "numbered_marker n = ''[~s3~ numbered-block: '' @ nat_str n @ '' lines, compressed '' @ em_dash @ '' not shown in history]''"

partial_function (option) collapse_numbered :: "string list \<Rightarrow> string list option" where
  "collapse_numbered ls =
     (if ls = [] then Some []
      else if numbered (hd ls) then
        (let block = takeWhile short_numbered ls in
         Option.bind (collapse_numbered (dropWhile short_numbered ls)) (\<lambda>out.
           Some ((if length block > MAX_BLOCK_LINES then [numbered_marker (length block)] else block) @ out)))
      else Option.bind (collapse_numbered (tl ls)) (\<lambda>out. Some (hd ls # out)))"

declare collapse_numbered.simps [code]

definition collapse_line_numbered_blocks :: "string \<Rightarrow> string option" where
  "collapse_line_numbered_blocks txt = map_option join_lines (collapse_numbered (split_lines txt))"

definition compress_tool_dumps :: "string \<Rightarrow> string option" where
  "compress_tool_dumps txt =
     (if txt = [] \<or> length txt < 2000 then Some txt
      else collapse_line_numbered_blocks
             (collapse_code_fence_block (collapse_code_fence_block txt ''```'' ''code-block'') ''~~~'' ''code-block''))"

section \<open>When the compression ends\<close>

text \<open>A line that is numbered, but not within its first 120 characters.\<close>

definition stuck_line :: "string \<Rightarrow> bool" where
  "stuck_line l = (numbered l \<and> \<not> short_numbered l)"

lemma collapse_numbered_unfold:
  "collapse_numbered [] = Some []"
  "numbered l \<Longrightarrow> collapse_numbered (l # ls) =
     Option.bind (collapse_numbered (dropWhile short_numbered (l # ls))) (\<lambda>out.
       Some ((if length (takeWhile short_numbered (l # ls)) > MAX_BLOCK_LINES
              then [numbered_marker (length (takeWhile short_numbered (l # ls)))]
              else takeWhile short_numbered (l # ls)) @ out))"
  "\<not> numbered l \<Longrightarrow> collapse_numbered (l # ls) = Option.bind (collapse_numbered ls) (\<lambda>out. Some (l # out))"
  by (subst collapse_numbered.simps, simp add: Let_def)+

lemma collapse_numbered_ends:
  assumes "\<forall>l \<in> set ls. \<not> stuck_line l"
  shows "\<exists>out. collapse_numbered ls = Some out \<and> length out \<le> length ls"
  using assms
proof (induction ls rule: length_induct)
  case (1 ls)
  show ?case
  proof (cases ls)
    case Nil
    then show ?thesis by (simp add: collapse_numbered_unfold)
  next
    case (Cons l rest)
    show ?thesis
    proof (cases "numbered l")
      case True
      then have short: "short_numbered l" using 1(2) Cons by (auto simp: stuck_line_def)
      let ?b = "takeWhile short_numbered ls" and ?r = "dropWhile short_numbered ls"
      have "?b @ ?r = ls" by simp
      then have len: "length ?b + length ?r = length ls" by (metis length_append)
      have b: "0 < length ?b" using short Cons by simp
      have "\<forall>l \<in> set ?r. \<not> stuck_line l" using 1(2) by (auto dest: set_dropWhileD)
      then obtain out where "collapse_numbered ?r = Some out" "length out \<le> length ?r"
        using 1(1) len b by (metis add_less_same_cancel2 less_add_same_cancel2)
      then show ?thesis
        using True len b unfolding Cons by (auto simp: collapse_numbered_unfold)
    next
      case False
      then obtain out where "collapse_numbered rest = Some out" "length out \<le> length rest"
        using 1 Cons by auto
      then show ?thesis using False Cons by (auto simp: collapse_numbered_unfold)
    qed
  qed
qed

lemma collapse_numbered_stuck:
  assumes "collapse_numbered ls = Some out"
  shows "\<forall>l \<in> set ls. \<not> stuck_line l"
proof (rule collapse_numbered.raw_induct [OF _ assms])
  fix f :: "string list \<Rightarrow> string list option" and ls out
  assume IH: "\<And>ls out. f ls = Some out \<Longrightarrow> \<forall>l \<in> set ls. \<not> stuck_line l"
    and body: "(if ls = [] then Some []
      else if numbered (hd ls) then
        (let block = takeWhile short_numbered ls in
         Option.bind (f (dropWhile short_numbered ls)) (\<lambda>out.
           Some ((if length block > MAX_BLOCK_LINES then [numbered_marker (length block)] else block) @ out)))
      else Option.bind (f (tl ls)) (\<lambda>out. Some (hd ls # out))) = Some out"
  show "\<forall>l \<in> set ls. \<not> stuck_line l"
  proof (cases ls)
    case Nil
    then show ?thesis by simp
  next
    case (Cons l rest)
    show ?thesis
    proof (cases "numbered l")
      case True
      with body Cons obtain out1 where "f (dropWhile short_numbered ls) = Some out1"
        by (auto simp: Let_def bind_eq_Some_conv)
      then have "\<forall>l \<in> set (dropWhile short_numbered ls). \<not> stuck_line l" by (rule IH)
      moreover have "\<forall>l \<in> set (takeWhile short_numbered ls). \<not> stuck_line l"
        by (auto simp: stuck_line_def dest: set_takeWhileD)
      moreover have "set ls = set (takeWhile short_numbered ls) \<union> set (dropWhile short_numbered ls)"
        by (metis set_append takeWhile_dropWhile_id)
      ultimately show ?thesis by auto
    next
      case False
      with body Cons obtain out1 where "f rest = Some out1" by (auto simp: bind_eq_Some_conv)
      then have "\<forall>l \<in> set rest. \<not> stuck_line l" by (rule IH)
      with False Cons show ?thesis by (simp add: stuck_line_def)
    qed
  qed
qed

text \<open>
  The scan for numbered blocks ends exactly when no line is numbered only beyond its first
  120 characters. On a line that is indented so far that the number falls outside the prefix the
  inner loop looks at, the outer loop makes no step and runs forever, and with it the compression
  of the message.
\<close>

theorem numbered_scan_ends_iff:
  "(collapse_line_numbered_blocks txt = None) = (\<exists>l \<in> set (split_lines txt). numbered l \<and> \<not> numbered (take 120 l))"
proof -
  have "(collapse_numbered (split_lines txt) = None) = (\<exists>l \<in> set (split_lines txt). stuck_line l)"
    using collapse_numbered_ends [of "split_lines txt"] collapse_numbered_stuck [of "split_lines txt"]
    by (metis not_None_eq option.distinct(1))
  then show ?thesis
    by (simp add: collapse_line_numbered_blocks_def stuck_line_def short_numbered_def MAX_LINE_LENGTH_def)
qed

lemma lstrip_spaces: "lstrip (replicate k CHR '' '' @ s) = lstrip s"
  by (induction k) (simp_all add: lstrip_def py_isspace_def code_def)

lemma numbered_first: "numbered (replicate k CHR '' '' @ ''1. x'')"
  unfolding numbered_def lstrip_spaces by code_simp

lemma collapse_fences_single: "collapse_fences fence label [l] = [l]"
  by simp

text \<open>
  A message that hangs the compression: a single line of at least 2000 blanks followed by
  \<^verbatim>\<open>1. x\<close> is never compressed.
\<close>

theorem indented_number_hangs:
  assumes "2000 \<le> k"
  shows "compress_tool_dumps (replicate k CHR '' '' @ ''1. x'') = None"
proof -
  let ?t = "replicate k CHR '' '' @ ''1. x''"
  have "CHR 0x0A \<notin> set ?t" by simp
  then have one: "split_lines ?t = [?t]" unfolding split_lines_def by (rule split_on_single)
  have fence: "collapse_code_fence_block ?t f lab = ?t" for f lab
    unfolding collapse_code_fence_block_def one collapse_fences_single by (simp add: join_lines_def)
  have "take 120 ?t = replicate 120 CHR '' '' @ []" using assms by simp
  then have "lstrip (take 120 ?t) = []" by (simp only: lstrip_spaces) (simp add: lstrip_def)
  then have "stuck_line ?t"
    using numbered_first by (simp add: stuck_line_def short_numbered_def MAX_LINE_LENGTH_def numbered_def)
  then have "collapse_numbered [?t] = None"
    using collapse_numbered_stuck [of "[?t]"] by (metis list.set_intros(1) not_None_eq)
  then have "collapse_line_numbered_blocks ?t = None" by (simp only: collapse_line_numbered_blocks_def one) simp
  then show ?thesis using assms unfolding compress_tool_dumps_def fence by simp
qed

theorem indented_number_hangs_witness:
  "compress_tool_dumps (replicate 2000 CHR '' '' @ ''1. x'') = None"
  by (rule indented_number_hangs) simp

section \<open>What the compression does to the text\<close>

definition one_line :: "string \<Rightarrow> bool" where
  "one_line s = (CHR 0x0A \<notin> set s)"

lemma nat_str_one_line: "one_line (nat_str n)"
proof (induction n rule: nat_str.induct)
  case (1 n)
  have "CHR 0x0A \<noteq> char_of (48 + m)" if "m < 10" for m :: nat
  proof
    assume "CHR 0x0A = char_of (48 + m)"
    then have "of_char CHR 0x0A = (of_char (char_of (48 + m)) :: nat)" by simp
    then show False using that by (simp add: of_char_of)
  qed
  with 1 show ?case by (subst nat_str.simps) (auto simp: one_line_def)
qed

lemma set_strip: "c \<in> set (strip s) \<Longrightarrow> c \<in> set s"
  unfolding strip_def rstrip_def lstrip_def by (metis set_dropWhileD set_rev)

lemma one_line_strip: "one_line s \<Longrightarrow> one_line (strip s)"
  using set_strip by (auto simp: one_line_def)

lemma markers_one_line: "one_line label \<Longrightarrow> one_line (fence_marker label n)" "one_line (numbered_marker n)"
  using nat_str_one_line by (auto simp: one_line_def fence_marker_def numbered_marker_def)

lemma collapse_fences_lines:
  assumes "one_line fence" and "one_line label" and "list_all one_line ls"
  shows "list_all one_line (collapse_fences fence label ls) \<and> length (collapse_fences fence label ls) \<le> length ls
    \<and> (ls \<noteq> [] \<longrightarrow> collapse_fences fence label ls \<noteq> [])"
  using assms
proof (induction fence label ls rule: collapse_fences.induct)
  case (1 fence label)
  then show ?case by simp
next
  case (2 fence label l rest)
  let ?body = "takeWhile (\<lambda>x. strip x \<noteq> fence) rest"
  show ?case
  proof (cases "opens_fence fence l \<and> length ?body < length rest \<and> length ?body > MAX_BLOCK_LINES")
    case True
    have "list_all one_line (drop (Suc (length ?body)) rest)" using 2(5) by (auto simp: list_all_iff dest: in_set_dropD)
    then have IH: "list_all one_line (collapse_fences fence label (drop (Suc (length ?body)) rest))
        \<and> length (collapse_fences fence label (drop (Suc (length ?body)) rest)) \<le> length (drop (Suc (length ?body)) rest)"
      using 2 True by blast
    have "one_line (strip (drop (length fence) (strip l)))"
      using 2(5) by (auto simp: one_line_def dest!: set_strip in_set_dropD)
    then have "one_line (fence @ strip (drop (length fence) (strip l)))" using 2(3) by (auto simp: one_line_def)
    then show ?thesis using True IH 2(3,4) markers_one_line(1) by (simp add: Let_def MAX_BLOCK_LINES_def) linarith
  next
    case False
    then have "collapse_fences fence label (l # rest) = l # collapse_fences fence label rest" by (auto simp: Let_def)
    moreover have "list_all one_line (collapse_fences fence label rest) \<and> length (collapse_fences fence label rest) \<le> length rest"
      using 2 False by auto
    ultimately show ?thesis using 2(5) by simp
  qed
qed

lemma split_lines_one_line: "list_all one_line (split_lines s)"
  using split_on_no_sep by (auto simp: list_all_iff one_line_def split_lines_def)

lemma split_lines_nonempty [simp]: "split_lines s \<noteq> []"
  by (simp add: split_lines_def)

lemma split_join_lines: "ls \<noteq> [] \<Longrightarrow> list_all one_line ls \<Longrightarrow> split_lines (join_lines ls) = ls"
  unfolding split_lines_def join_lines_def by (rule split_on_join) (auto simp: list_all_iff one_line_def)

lemma fence_block_lines:
  assumes "one_line fence" and "one_line label"
  shows "split_lines (collapse_code_fence_block txt fence label) = collapse_fences fence label (split_lines txt)"
  using collapse_fences_lines [OF assms split_lines_one_line, of "txt"]
  by (simp add: collapse_code_fence_block_def split_join_lines)

lemma collapse_numbered_lines:
  assumes "collapse_numbered ls = Some out" and "list_all one_line ls"
  shows "list_all one_line out \<and> (ls \<noteq> [] \<longrightarrow> out \<noteq> [])"
proof -
  have nostuck: "\<forall>l \<in> set ls. \<not> stuck_line l" using assms(1) by (rule collapse_numbered_stuck)
  then show ?thesis using assms
  proof (induction ls arbitrary: out rule: length_induct)
    case (1 ls)
    show ?case
    proof (cases ls)
      case Nil
      then show ?thesis using 1(3) by (simp add: collapse_numbered_unfold)
    next
      case (Cons l rest)
      show ?thesis
      proof (cases "numbered l")
        case True
        let ?b = "takeWhile short_numbered ls" and ?r = "dropWhile short_numbered ls"
        have "collapse_numbered ls = Option.bind (collapse_numbered ?r) (\<lambda>out.
            Some ((if length ?b > MAX_BLOCK_LINES then [numbered_marker (length ?b)] else ?b) @ out))"
          unfolding Cons by (rule collapse_numbered_unfold(2) [OF True])
        then obtain out1 where o: "collapse_numbered ?r = Some out1"
          "out = (if length ?b > MAX_BLOCK_LINES then [numbered_marker (length ?b)] else ?b) @ out1"
          using 1(3) by (cases "collapse_numbered ?r") simp_all
        have short: "short_numbered l" using 1(2) Cons True by (auto simp: stuck_line_def)
        then have "length ?r < length ls" unfolding Cons using length_dropWhile_le [of short_numbered rest] by simp
        moreover have "\<forall>l \<in> set ?r. \<not> stuck_line l" using 1(2) by (auto dest: set_dropWhileD)
        moreover have "list_all one_line ?r" using 1(4) by (auto simp: list_all_iff dest: set_dropWhileD)
        ultimately have "list_all one_line out1" using 1(1) o(1) by blast
        moreover have "list_all one_line ?b" using 1(4) by (auto simp: list_all_iff dest: set_takeWhileD)
        moreover have "?b \<noteq> []" using short Cons by simp
        ultimately show ?thesis using o(2) markers_one_line(2) by simp
      next
        case False
        then obtain out1 where o: "collapse_numbered rest = Some out1" "out = l # out1"
          using 1(3) Cons by (auto simp: collapse_numbered_unfold bind_eq_Some_conv)
        moreover have "list_all one_line out1" using 1 Cons o(1) by auto
        ultimately show ?thesis using 1(4) Cons by simp
      qed
    qed
  qed
qed

text \<open>
  Compression never lengthens a message: when it ends, the stored text has at most as many
  lines as the original, and a text under 2000 characters is stored as it is.
\<close>

theorem compressed_not_longer:
  assumes "compress_tool_dumps txt = Some out"
  shows "length (split_lines out) \<le> length (split_lines txt) \<and> (length txt < 2000 \<longrightarrow> out = txt)"
proof (cases "txt = [] \<or> length txt < 2000")
  case True
  then show ?thesis using assms by (simp add: compress_tool_dumps_def)
next
  case False
  let ?one = "collapse_code_fence_block txt ''```'' ''code-block''"
  let ?two = "collapse_code_fence_block ?one ''~~~'' ''code-block''"
  have f: "one_line ''```''" "one_line ''~~~''" "one_line ''code-block''" by (simp_all add: one_line_def)
  have "length (split_lines ?one) \<le> length (split_lines txt)"
    using collapse_fences_lines [OF f(1,3) split_lines_one_line] by (simp add: fence_block_lines f)
  moreover have "length (split_lines ?two) \<le> length (split_lines ?one)"
    unfolding fence_block_lines [OF f(2,3)] using collapse_fences_lines [OF f(2,3) split_lines_one_line, of ?one] by blast
  moreover obtain ls where ls: "collapse_numbered (split_lines ?two) = Some ls" "out = join_lines ls"
    using assms False by (auto simp: compress_tool_dumps_def collapse_line_numbered_blocks_def)
  moreover have "length ls \<le> length (split_lines ?two)"
    using collapse_numbered_ends [OF collapse_numbered_stuck [OF ls(1)]] ls(1) by auto
  moreover have "split_lines out = ls"
    using collapse_numbered_lines [OF ls(1) split_lines_one_line] ls(2) by (simp add: split_join_lines)
  ultimately show ?thesis using False by simp
qed

theorem compressed_not_longer_witness:
  "compress_tool_dumps ''one line'' = Some ''one line'' \<and> length (split_lines ''one line'') \<le> length (split_lines ''one line'')"
proof -
  have c: "compress_tool_dumps ''one line'' = Some ''one line''" by (simp add: compress_tool_dumps_def)
  with compressed_not_longer [OF c] show ?thesis by blast
qed

end
