(* ===== verification/Context_Budget.thy ===== *)
theory Context_Budget
  imports Py_Prelude
begin

text \<open>
  \<^verbatim>\<open>backend/llm/service/context.py\<close>: the messages of a turn in front of the user's own
  (\<^verbatim>\<open>build_context_messages\<close>) and the allocator that drops blocks of them, lowest priority first,
  until they fit into the context window (\<^verbatim>\<open>apply_context_budget\<close>). The content of a message is a
  text, or a list of parts for images, whose printed form is an argument. The allocator also
  writes a shortened block back into the list of its caller; the caller only uses the result, so
  the model returns the result alone.
\<close>

section \<open>Keyword predicates\<close>

definition FILE_OP_KEYWORDS :: "string list" where
  "FILE_OP_KEYWORDS =
     [''read'', ''write'', ''edit'', ''update'', ''create'', ''append'', ''patch'', ''search'', ''find'', ''fix'', ''change'', ''modify'', ''file'', ''document'', ''documents'', ''content'', ''add'', ''remove'', ''delete'', ''replace'', ''rewrite'', ''summarize'', ''analyse'', ''analyze'', ''open'', ''insert'', ''correct'', ''improve'', ''refactor'', ''rename'', ''review'', ''check'']"

definition MEMORY_WRITE_VERBS :: "string list" where
  "MEMORY_WRITE_VERBS = [''save'', ''add'', ''store'', ''write'', ''put'', ''keep'', ''insert'', ''remember'', ''memorize'', ''record'']"

definition MEMORY_WRITE_TARGETS :: "string list" where
  "MEMORY_WRITE_TARGETS = [''memory'', ''memories'']"

definition MEMORY_STANDALONE_TRIGGERS :: "string list" where
  "MEMORY_STANDALONE_TRIGGERS = [''remember'', ''memorize'']"

definition has_token :: "string list \<Rightarrow> string \<Rightarrow> bool" where
  "has_token kws message = list_ex (\<lambda>w. w \<in> set kws) (split_ws (lower message))"

definition needs_file_tools :: "string \<Rightarrow> bool" where
  "needs_file_tools message = has_token FILE_OP_KEYWORDS message"

definition format_active_goals :: "string \<Rightarrow> string" where
  "format_active_goals active_goals =
     (if strip active_goals = [] then [] else ''[ACTIVE GOALS]'' @ newline @ active_goals)"

definition needs_memory_tool :: "string \<Rightarrow> bool" where
  "needs_memory_tool message =
     (has_token MEMORY_STANDALONE_TRIGGERS message
      \<or> has_token MEMORY_WRITE_VERBS message \<and> has_token MEMORY_WRITE_TARGETS message)"

section \<open>The fixed texts\<close>

definition STYLE_BLOCK :: string where
  "STYLE_BLOCK =
     ''Response style '' @
     em_dash @
     '' defaults for every reply:'' @
     newline @
     ''- Lead with the answer. State the conclusion first; supporting detail comes after, and only what is '' @
     ''needed.'' @
     newline @
     ''- Be brief. For casual or simple messages, a few sentences of plain prose is the right length. Never'' @
     '' pad.'' @
     newline @
     ''- Explain at a high level first. Give a summary, not an exhaustive treatment; go deep only when the '' @
     ''user asks for depth.'' @
     newline @
     ''- Write plain prose by default. Use lists, headings, or tables only when the user asks or the conten'' @
     ''t truly requires them. Use the minimum formatting needed for clarity.'' @
     newline @
     ''- Keep caveats and disclaimers to one short line at most; spend the response on the answer itself.'' @
     newline @
     ''- Ask at most one question per response.'' @
     newline @
     ''- If you deliberately left out significant depth, end with one short offer to expand (e.g. \"Want the'' @
     '' full details?\"). If nothing significant was omitted, do not add an offer.'' @
     newline @
     newline @
     ''Precedence: these are defaults, not rules. If [USER STATE] preferences or corrections say otherwise '' @
     ''(e.g. verbosity: detailed, response_style: step-by-step), or the user asks in this chat for more det'' @
     ''ail, a full explanation, or a specific format, follow the user instead. The user's most recent expli'' @
     ''cit request always wins.''"

definition ANTI_FABRICATION :: string where
  "ANTI_FABRICATION =
     ''If information is not present in your current context (not in memory, not in conversation history): '' @
     ''say so directly and concisely. Never fabricate answers, invent logs, or guess at content that should'' @
     '' come from files or prior sessions. NEVER say 'Memory updated', 'Saved to memory', or any variant. M'' @
     ''emory is only saved when the system displays a green confirmation card with Accept/Dismiss buttons '' @
     em_dash @
     '' that is the only real memory save path. Without that card, nothing is persisted. Do not simulate or'' @
     '' pretend to save memory.''"

definition CUSTOM_PROMPT_BRIDGE :: string where
  "CUSTOM_PROMPT_BRIDGE =
     ''Conversation-specific instructions (these override the defaults above wherever they conflict):''"

definition DEPTH_HINTS :: "(string \<times> string) list" where
  "DEPTH_HINTS =
    [(''question'',
     ''This turn is a direct question. Give the answer immediately, in 1-4 sentences of prose, then stop. A'' @
     ''dd brief support only if the answer needs it. Do not expand into a tutorial.''),
     (''task'',
     ''This turn is a task. Do it, then report the outcome first in one or two sentences. Show only the res'' @
     ''ult the user needs - no extended commentary.''),
     (''exploration'',
     ''The user is exploring a topic. Start with a short high-level overview, then the two or three most im'' @
     ''portant points. Offer to go deeper on any of them instead of covering everything now.''),
     (''closing'',
     ''The user is wrapping up. Reply with one short, warm sentence. Do not re-answer earlier questions or '' @
     ''introduce new information.'')]"

definition file_notice_rules :: "string \<Rightarrow> string" where
  "file_notice_rules files_list =
     ''The user has attached these files:'' @
     newline @
     files_list @
     newline @
     ''Rules for file tools:'' @
     newline @
     ''- To ANSWER a question about file content: use read_file or search_in_file, then reply in chat. For '' @
     ''specific sections of large files, prefer search_in_file over read_file.'' @
     newline @
     ''- NEVER use write tools (write_file, append_to_file, patch_file) to answer questions. To 'show', 'ex'' @
     ''plain', 'display', 'summarize', or 'describe' file content '' @
     em_dash @
     '' read it (read_file / search_in_file) and reply in chat text; never write to the file. (Enumerating '' @
     ''which files exist is fine '' @
     em_dash @
     '' use list_files.)'' @
     newline @
     ''- To ADD new content to a file: use append_to_file '' @
     em_dash @
     '' ONLY when user explicitly asks to add/write/append to the file.'' @
     newline @
     ''- To EDIT a specific passage: use read_file first, then patch_file(old_text=<exact passage>, new_tex'' @
     ''t=<replacement>)'' @
     newline @
     ''- To REWRITE the whole file: use read_file first, then write_file with the COMPLETE rewritten conten'' @
     ''t '' @
     em_dash @
     '' never write_file without reading first'' @
     newline @
     ''- NEVER use write_file for partial updates '' @
     em_dash @
     '' it permanently deletes everything not included. Use patch_file.'' @
     newline @
     ''- To CREATE a new file: use create_file '' @
     em_dash @
     '' only for genuinely new files, never to reconstruct missing context'' @
     newline @
     ''- After any write/append/patch/create succeeds, respond to the user immediately '' @
     em_dash @
     '' do NOT read the file back to verify'' @
     newline @
     ''- Never call the same tool more than twice in a single turn'' @
     newline @
     ''- If information is not in your current context: say so directly. Never fabricate content, invent lo'' @
     ''gs, or create files to substitute for missing context.'' @
     newline @
     ''- NEVER say 'Memory updated', 'Saved to memory', or any variant. Memory is only saved when the syste'' @
     ''m shows a green confirmation card with Accept/Dismiss buttons. Without that card, nothing is saved '' @
     em_dash @
     '' do not pretend otherwise.''"

section \<open>Messages\<close>

datatype content = Text string | Parts "pyval list"

record msg =
  m_role :: string
  m_content :: content
  m_rest :: pydict

definition text_msg :: "string \<Rightarrow> string \<Rightarrow> msg" where
  "text_msg role c = \<lparr>m_role = role, m_content = Text c, m_rest = []\<rparr>"

definition noted :: "string \<Rightarrow> msg list" where
  "noted c = [text_msg ''user'' c, text_msg ''assistant'' ''Understood.'']"

record context_input =
  ci_memory_sheet :: string
  ci_project_summary :: string
  ci_retrieved_chunks :: "string list"
  ci_history_summary :: string
  ci_history :: "msg list"
  ci_system_prompt :: "string option"
  ci_file_chunks :: "string list"
  ci_file_names :: "string list"
  ci_file_ids :: "string list"
  ci_graph_context :: string
  ci_graph_facts :: string
  ci_active_goals :: string
  ci_recent_insights :: "string list"
  ci_conflicted_facts :: "string list"
  ci_last_session :: string
  ci_intent :: string

definition file_notice :: "string list \<Rightarrow> string list \<Rightarrow> string" where
  "file_notice file_names file_ids =
     (if file_ids \<noteq> [] then
        file_notice_rules (join_lines (map (\<lambda>(name, fid). ''  - '' @ name @ '' (id='' @ fid @ '')'') (zip file_names file_ids)))
      else ''The user has attached these files: '' @ join '', '' file_names @ ''. Use file tools to read or edit them.'')"

definition first_system :: "context_input \<Rightarrow> string" where
  "first_system ci =
     join (newline @ newline)
       ([STYLE_BLOCK, ANTI_FABRICATION]
        @ (case ci_system_prompt ci of
             Some p \<Rightarrow> if p \<noteq> [] then [CUSTOM_PROMPT_BRIDGE @ newline @ rstrip p] else []
           | None \<Rightarrow> [])
        @ (if ci_file_names ci \<noteq> [] then [file_notice (ci_file_names ci) (ci_file_ids ci)] else []))"

definition user_state :: "context_input \<Rightarrow> string" where
  "user_state ci =
     (if ci_conflicted_facts ci \<noteq> []
      then join_lines (filter (\<lambda>l. strip l \<notin> set (ci_conflicted_facts ci)) (split_lines (ci_memory_sheet ci)))
      else ci_memory_sheet ci)"

definition build_context_messages :: "context_input \<Rightarrow> msg list" where
  "build_context_messages ci =
     [text_msg ''system'' (first_system ci)]
     @ (if ci_last_session ci \<noteq> [] then noted (''[LAST SESSION]'' @ newline @ ci_last_session ci) else [])
     @ (if ci_graph_context ci \<noteq> [] then noted (''[GRAPH CONTEXT]'' @ newline @ ci_graph_context ci) else [])
     @ (if ci_graph_facts ci \<noteq> [] then noted (''[GRAPH FACTS]'' @ newline @ ci_graph_facts ci) else [])
     @ (if ci_memory_sheet ci \<noteq> [] \<and> strip (user_state ci) \<noteq> []
        then [text_msg ''system'' (''[USER STATE]'' @ newline @ user_state ci)] else [])
     @ (if ci_active_goals ci \<noteq> [] then noted (format_active_goals (ci_active_goals ci)) else [])
     @ (if ci_recent_insights ci \<noteq> [] then noted (''[RECENT INSIGHTS]'' @ newline @ join_lines (ci_recent_insights ci)) else [])
     @ (if ci_project_summary ci \<noteq> [] then noted (''[PROJECT STATE]'' @ newline @ ci_project_summary ci) else [])
     @ (if ci_retrieved_chunks ci \<noteq> []
        then noted (''[RELEVANT CONTEXT FROM EARLIER]'' @ newline @ join (newline @ newline) (ci_retrieved_chunks ci)) else [])
     @ (if ci_history_summary ci \<noteq> [] then noted (''[EARLIER IN THIS CONVERSATION]'' @ newline @ ci_history_summary ci) else [])
     @ ci_history ci
     @ (if ci_file_chunks ci \<noteq> []
        then [text_msg ''user'' (''[FILE CONTEXT]'' @ newline @ join (newline @ newline @ ''---'' @ newline @ newline) (ci_file_chunks ci)),
              text_msg ''assistant'' ''Understood, I will reference these documents in my response.''] else [])
     @ (case dget DEPTH_HINTS (ci_intent ci) of Some hint \<Rightarrow> [text_msg ''system'' hint] | None \<Rightarrow> [])"

section \<open>The allocator\<close>

definition TIER_PREFIXES :: "(nat \<times> string) list" where
  "TIER_PREFIXES =
     [(8, ''[LAST SESSION]''), (7, ''[FILE CONTEXT]''), (6, ''[RELEVANT CONTEXT''),
      (5, ''[EARLIER IN THIS CONVERSATION]''), (4, ''[GRAPH CONTEXT]''), (4, ''[GRAPH FACTS]''),
      (3, ''[ACTIVE GOALS]''), (2, ''[RECENT INSIGHTS]''), (2, ''[PROJECT STATE]''), (1, ''[USER STATE]'')]"

definition content_str :: "(pyval list \<Rightarrow> string) \<Rightarrow> content \<Rightarrow> string" where
  "content_str show_parts c = (case c of Text s \<Rightarrow> s | Parts ps \<Rightarrow> show_parts ps)"

definition estimate_tokens :: "string \<Rightarrow> nat" where
  "estimate_tokens s = max 1 (length s div 4)"

definition prefix_tier :: "string \<Rightarrow> nat" where
  "prefix_tier s = (case List.find (\<lambda>(_, p). startswith s p) TIER_PREFIXES of Some (t, _) \<Rightarrow> t | None \<Rightarrow> 6)"

definition message_tier :: "msg \<Rightarrow> bool \<Rightarrow> nat" where
  "message_tier m is_last =
     (if is_last then 0
      else case m_content m of
        Parts _ \<Rightarrow> 0
      | Text s \<Rightarrow> if m_role m = ''system'' then 0 else prefix_tier s)"

definition is_ack_msg :: "msg \<Rightarrow> bool" where
  "is_ack_msg m = (m_role m = ''assistant'' \<and> (case m_content m of Text s \<Rightarrow> startswith s ''Understood'' | Parts _ \<Rightarrow> False))"

fun ack_from :: "nat \<Rightarrow> msg list \<Rightarrow> nat option" where
  "ack_from i [] = None"
| "ack_from i (m # ms) =
     (if is_ack_msg m then Some i else if m_role m \<noteq> ''assistant'' then None else ack_from (Suc i) ms)"

definition ack_idx :: "msg list \<Rightarrow> nat \<Rightarrow> nat option" where
  "ack_idx messages start = ack_from (Suc start) (drop (Suc start) messages)"

text \<open>Saliences are a dictionary from facts to scores, 1 for an unknown fact.\<close>

type_synonym saliences = "(string \<times> real) list"

definition fact_kept :: "saliences \<Rightarrow> string \<Rightarrow> bool" where
  "fact_kept sal l = (strip l = [] \<or> (case dget sal (strip l) of Some x \<Rightarrow> x | None \<Rightarrow> 1) \<ge> 1 / 2)"

definition rebuild_user_state :: "string \<Rightarrow> saliences \<Rightarrow> string option" where
  "rebuild_user_state c sal =
     (let ls = split_lines c; header = hd ls; facts = tl ls; high = filter (fact_kept sal) facts
      in if list_all (fact_kept sal) facts then None
         else Some (strip (if header \<noteq> [] then join_lines (header # high) else join_lines high)))"

definition kept :: "'a list \<Rightarrow> bool list \<Rightarrow> 'a list" where
  "kept ms keep = map fst (filter snd (zip ms keep))"

definition total_tokens :: "(pyval list \<Rightarrow> string) \<Rightarrow> msg list \<Rightarrow> nat" where
  "total_tokens show_parts ms = sum_list (map (\<lambda>m. estimate_tokens (content_str show_parts (m_content m))) ms)"

text \<open>The indices of one tier together with the acknowledgements that follow them.\<close>

definition tier_of :: "msg list \<Rightarrow> nat \<Rightarrow> nat" where
  "tier_of messages i = message_tier (messages ! i) (i = length messages - 1)"

definition tier_drop :: "msg list \<Rightarrow> nat \<Rightarrow> nat list" where
  "tier_drop messages tier =
     (let own = filter (\<lambda>i. tier_of messages i = tier) [0 ..< length messages]
      in own @ filter (\<lambda>a. a \<notin> set own) (remdups (List.map_filter (ack_idx messages) own)))"

text \<open>
  The step for the user state with saliences: each dropped block is shortened to its salient facts
  and kept, or stays dropped when nothing changes or nothing is left.
\<close>

definition trim_block :: "saliences \<Rightarrow> nat \<Rightarrow> msg list \<times> bool list \<times> nat list \<Rightarrow> msg list \<times> bool list \<times> nat list" where
  "trim_block sal idx st =
     (case st of (messages, keep, drops) \<Rightarrow>
        (case m_content (messages ! idx) of
           Parts _ \<Rightarrow> st
         | Text c \<Rightarrow>
             (case rebuild_user_state c sal of
                None \<Rightarrow> st
              | Some r \<Rightarrow>
                  if r \<noteq> [] then (messages[idx := (messages ! idx)\<lparr>m_content := Text r\<rparr>], keep[idx := True], filter (\<lambda>i. i \<noteq> idx) drops)
                  else (messages, keep[idx := False], drops))))"

definition mark_dropped :: "bool list \<Rightarrow> nat list \<Rightarrow> bool list" where
  "mark_dropped keep drops = fold (\<lambda>i k. k[i := False]) drops keep"

fun drop_tiers :: "(pyval list \<Rightarrow> string) \<Rightarrow> saliences \<Rightarrow> int \<Rightarrow> msg list \<Rightarrow> nat list \<Rightarrow> msg list \<Rightarrow> bool list \<Rightarrow> msg list" where
  "drop_tiers show_parts sal budget orig [] messages keep = kept messages keep"
| "drop_tiers show_parts sal budget orig (tier # ts) messages keep =
     (if tier = 0 then kept messages keep
      else
        let drops0 = tier_drop orig tier;
            (messages1, keep1, drops) =
              (if tier = 1 \<and> sal \<noteq> [] then fold (trim_block sal) drops0 (messages, keep, drops0) else (messages, keep, drops0));
            new_keep = mark_dropped keep1 drops
        in if tier = 1 \<and> sal \<noteq> [] \<and> drops = [] \<and> int (total_tokens show_parts (kept messages1 keep1)) \<le> budget
           then kept messages1 keep1
           else if int (total_tokens show_parts (kept messages1 new_keep)) \<le> budget then kept messages1 new_keep
           else drop_tiers show_parts sal budget orig ts messages1 new_keep)"

text \<open>\<^verbatim>\<open>int(context_window * 0.1)\<close>, rounding towards zero.\<close>

definition tenth :: "int \<Rightarrow> int" where
  "tenth n = (if n \<ge> 0 then n div 10 else - ((- n) div 10))"

definition token_budget :: "int \<Rightarrow> int \<Rightarrow> int" where
  "token_budget context_window max_output_tokens = context_window - (max_output_tokens + tenth context_window)"

definition tiers_present :: "msg list \<Rightarrow> nat list" where
  "tiers_present messages = rev (sort (remdups (map (tier_of messages) [0 ..< length messages])))"

definition apply_context_budget :: "(pyval list \<Rightarrow> string) \<Rightarrow> msg list \<Rightarrow> int \<Rightarrow> int \<Rightarrow> saliences \<Rightarrow> msg list" where
  "apply_context_budget show_parts messages context_window max_output_tokens fact_saliences =
     (let budget = token_budget context_window max_output_tokens in
      if messages = [] then messages
      else if int (total_tokens show_parts messages) \<le> budget then messages
      else drop_tiers show_parts fact_saliences budget messages (tiers_present messages) messages
             (replicate (length messages) True))"

section \<open>What is kept\<close>

lemma mark_dropped_nth:
  "length (mark_dropped keep ds) = length keep \<and> (i < length keep \<longrightarrow> mark_dropped keep ds ! i = (keep ! i \<and> i \<notin> set ds))"
proof (induction ds arbitrary: keep)
  case Nil
  then show ?case by (simp add: mark_dropped_def)
next
  case (Cons d ds)
  have "mark_dropped keep (d # ds) = mark_dropped (keep[d := False]) ds" by (simp add: mark_dropped_def)
  with Cons.IH [of "keep[d := False]"] show ?case by (cases "i = d") auto
qed

text \<open>
  The loop over the tiers when no user-state block is shortened: it keeps what no visited tier
  drops, and it either meets the budget or has dropped every tier before 0.
\<close>

lemma drop_tiers_spec:
  assumes "sal = [] \<or> 1 \<notin> set ts" and "length keep = length messages"
  shows "\<exists>keep'. drop_tiers show_parts sal budget orig ts messages keep = kept messages keep' \<and> length keep' = length messages
    \<and> (\<forall>i < length messages. (keep ! i \<and> (\<forall>t \<in> set ts. t \<noteq> 0 \<longrightarrow> i \<notin> set (tier_drop orig t)) \<longrightarrow> keep' ! i) \<and> (keep' ! i \<longrightarrow> keep ! i))
    \<and> (int (total_tokens show_parts (kept messages keep')) \<le> budget
       \<or> (\<forall>i < length messages. keep' ! i \<longrightarrow> (\<forall>t \<in> set (takeWhile (\<lambda>t. t \<noteq> 0) ts). i \<notin> set (tier_drop orig t))))"
  using assms
proof (induction ts arbitrary: keep)
  case Nil
  then show ?case by auto
next
  case (Cons t ts)
  show ?case
  proof (cases "t = 0")
    case True
    then show ?thesis using Cons.prems by auto
  next
    case False
    let ?new = "mark_dropped keep (tier_drop orig t)"
    have len: "length ?new = length messages" and nth: "\<And>i. i < length messages \<Longrightarrow> ?new ! i = (keep ! i \<and> i \<notin> set (tier_drop orig t))"
      using mark_dropped_nth [of keep "tier_drop orig t"] Cons.prems(2) by auto
    have no_trim: "\<not> (t = 1 \<and> sal \<noteq> [])" using Cons.prems(1) by auto
    have body: "drop_tiers show_parts sal budget orig (t # ts) messages keep =
        (if int (total_tokens show_parts (kept messages ?new)) \<le> budget then kept messages ?new
         else drop_tiers show_parts sal budget orig ts messages ?new)"
      using False no_trim by (auto simp: Let_def)
    show ?thesis
    proof (cases "int (total_tokens show_parts (kept messages ?new)) \<le> budget")
      case True
      then show ?thesis
        using body len nth False by (intro exI [of _ ?new]) auto
    next
      case over: False
      have "sal = [] \<or> 1 \<notin> set ts" using Cons.prems(1) by auto
      from Cons.IH [OF this len] obtain keep' where k:
        "drop_tiers show_parts sal budget orig ts messages ?new = kept messages keep'" "length keep' = length messages"
        "\<forall>i < length messages. (?new ! i \<and> (\<forall>t \<in> set ts. t \<noteq> 0 \<longrightarrow> i \<notin> set (tier_drop orig t)) \<longrightarrow> keep' ! i) \<and> (keep' ! i \<longrightarrow> ?new ! i)"
        "int (total_tokens show_parts (kept messages keep')) \<le> budget
         \<or> (\<forall>i < length messages. keep' ! i \<longrightarrow> (\<forall>t \<in> set (takeWhile (\<lambda>t. t \<noteq> 0) ts). i \<notin> set (tier_drop orig t)))"
        by blast
      have "\<forall>i < length messages. (keep ! i \<and> (\<forall>t \<in> set (t # ts). t \<noteq> 0 \<longrightarrow> i \<notin> set (tier_drop orig t)) \<longrightarrow> keep' ! i) \<and> (keep' ! i \<longrightarrow> keep ! i)"
      proof (intro allI impI)
        fix i assume i: "i < length messages"
        show "(keep ! i \<and> (\<forall>t \<in> set (t # ts). t \<noteq> 0 \<longrightarrow> i \<notin> set (tier_drop orig t)) \<longrightarrow> keep' ! i) \<and> (keep' ! i \<longrightarrow> keep ! i)"
          using k(3) i False unfolding nth [OF i] by (metis list.set_intros nth)
      qed
      moreover have "int (total_tokens show_parts (kept messages keep')) \<le> budget
         \<or> (\<forall>i < length messages. keep' ! i \<longrightarrow> (\<forall>t \<in> set (takeWhile (\<lambda>t. t \<noteq> 0) (t # ts)). i \<notin> set (tier_drop orig t)))"
        using k(4)
      proof
        assume all: "\<forall>i < length messages. keep' ! i \<longrightarrow> (\<forall>t \<in> set (takeWhile (\<lambda>t. t \<noteq> 0) ts). i \<notin> set (tier_drop orig t))"
        have "i \<notin> set (tier_drop orig u)"
          if "i < length messages" "keep' ! i" "u \<in> set (takeWhile (\<lambda>t. t \<noteq> 0) (t # ts))" for i u
        proof (cases "u = t")
          case True
          then show ?thesis using k(3) nth that(1,2) by blast
        next
          case False
          then have "u \<in> set (takeWhile (\<lambda>t. t \<noteq> 0) ts)" using that(3) \<open>t \<noteq> 0\<close> by simp
          then show ?thesis using all that(1,2) by blast
        qed
        then show ?thesis by blast
      qed simp
      ultimately show ?thesis using k(1,2) body over by (intro exI [of _ keep']) simp
    qed
  qed
qed

lemma set_tier_drop:
  "i \<in> set (tier_drop messages t) \<longleftrightarrow>
     (i < length messages \<and> tier_of messages i = t) \<or> (\<exists>j < length messages. tier_of messages j = t \<and> ack_idx messages j = Some i)"
  by (auto simp: tier_drop_def Let_def map_filter_def image_iff)

lemma ack_from_ack: "ack_from i ms = Some j \<Longrightarrow> i \<le> j \<and> j < i + length ms \<and> is_ack_msg (ms ! (j - i))"
proof (induction i ms rule: ack_from.induct)
  case (1 i)
  then show ?case by simp
next
  case (2 i m ms)
  show ?case
  proof (cases "is_ack_msg m")
    case True
    then show ?thesis using 2 by simp
  next
    case False
    then have "ack_from (Suc i) ms = Some j" and "m_role m = ''assistant''" using 2(2) by (auto split: if_splits)
    with 2(1) False have "Suc i \<le> j \<and> j < Suc i + length ms \<and> is_ack_msg (ms ! (j - Suc i))" by blast
    moreover from this have "j - i = Suc (j - Suc i)" by arith
    ultimately show ?thesis by simp
  qed
qed

lemma ack_idx_ack: "ack_idx messages j = Some i \<Longrightarrow> i < length messages \<and> is_ack_msg (messages ! i)"
  using ack_from_ack [of "Suc j" "drop (Suc j) messages" i] by (auto simp: ack_idx_def)

lemma tier_le: "tier_of messages i \<le> 8"
  by (auto simp: tier_of_def message_tier_def prefix_tier_def TIER_PREFIXES_def split: content.splits option.splits if_splits prod.splits)

lemma takeWhile_desc:
  assumes "sorted (rev ts)" and "distinct ts" and "t \<in> set ts" and "t \<noteq> 0"
  shows "t \<in> set (takeWhile (\<lambda>t. t \<noteq> (0::nat)) ts)"
  using assms
proof (induction ts)
  case Nil
  then show ?case by simp
next
  case (Cons a ts)
  show ?case
  proof (cases "t = a")
    case True
    with Cons.prems show ?thesis by simp
  next
    case False
    then have "t \<in> set ts" using Cons.prems by simp
    moreover from this have "t \<le> a" using Cons.prems(1) by (auto simp: sorted_append)
    ultimately show ?thesis using Cons by (auto simp: sorted_append)
  qed
qed

lemma tiers_present_facts:
  "sorted (rev (tiers_present ms))" "distinct (tiers_present ms)" "set (tiers_present ms) = tier_of ms ` {0 ..< length ms}"
  by (simp_all add: tiers_present_def)

text \<open>The essential messages: the system's, the ones with images, and the last.\<close>

definition essential :: "msg list \<Rightarrow> nat \<Rightarrow> bool" where
  "essential messages i = (m_role (messages ! i) = ''system'' \<or> (case m_content (messages ! i) of Parts _ \<Rightarrow> True | Text _ \<Rightarrow> False) \<or> i = length messages - 1)"

lemma essential_tier: "i < length messages \<Longrightarrow> essential messages i \<Longrightarrow> tier_of messages i = 0"
  by (auto simp: essential_def tier_of_def message_tier_def split: content.splits)

lemma prefix_tier_pos: "0 < prefix_tier s"
  by (auto simp: prefix_tier_def TIER_PREFIXES_def split: if_splits)

lemma tier_essential: "tier_of messages i = 0 \<Longrightarrow> essential messages i"
  using prefix_tier_pos [of "case m_content (messages ! i) of Text s \<Rightarrow> s | Parts _ \<Rightarrow> []"]
  by (auto simp: essential_def tier_of_def message_tier_def split: content.splits if_splits)

lemma kept_all: "kept ms (replicate (length ms) True) = ms"
  by (induction ms) (simp_all add: kept_def)

lemma budget_keep:
  assumes "sal = [] \<or> (\<forall>i < length messages. tier_of messages i \<noteq> 1)"
  shows "\<exists>keep. apply_context_budget show_parts messages w out sal = kept messages keep \<and> length keep = length messages
    \<and> (\<forall>i < length messages. essential messages i \<and> \<not> is_ack_msg (messages ! i) \<longrightarrow> keep ! i)
    \<and> (int (total_tokens show_parts (kept messages keep)) \<le> token_budget w out
       \<or> (\<forall>i < length messages. keep ! i \<longrightarrow> essential messages i))"
proof (cases "messages = [] \<or> int (total_tokens show_parts messages) \<le> token_budget w out")
  case True
  then show ?thesis
    by (intro exI [of _ "replicate (length messages) True"]) (auto simp: apply_context_budget_def Let_def kept_all)
next
  case False
  let ?ts = "tiers_present messages" and ?all = "replicate (length messages) True"
  have pre: "sal = [] \<or> 1 \<notin> set ?ts" using assms by (auto simp: tiers_present_facts)
  from drop_tiers_spec [OF pre, of ?all messages show_parts "token_budget w out" messages] obtain keep where k:
    "drop_tiers show_parts sal (token_budget w out) messages ?ts messages ?all = kept messages keep" "length keep = length messages"
    "\<forall>i < length messages. (?all ! i \<and> (\<forall>t \<in> set ?ts. t \<noteq> 0 \<longrightarrow> i \<notin> set (tier_drop messages t)) \<longrightarrow> keep ! i) \<and> (keep ! i \<longrightarrow> ?all ! i)"
    "int (total_tokens show_parts (kept messages keep)) \<le> token_budget w out
     \<or> (\<forall>i < length messages. keep ! i \<longrightarrow> (\<forall>t \<in> set (takeWhile (\<lambda>t. t \<noteq> 0) ?ts). i \<notin> set (tier_drop messages t)))"
    by auto
  have "keep ! i" if "i < length messages" "essential messages i" "\<not> is_ack_msg (messages ! i)" for i
    using k(3) that essential_tier [OF that(1,2)] ack_idx_ack by (auto simp: set_tier_drop)
  moreover have "essential messages i"
    if "i < length messages" and d: "\<forall>t \<in> set (takeWhile (\<lambda>t. t \<noteq> 0) ?ts). i \<notin> set (tier_drop messages t)" for i
  proof (rule tier_essential, rule ccontr)
    assume t: "tier_of messages i \<noteq> 0"
    have "tier_of messages i \<in> set ?ts" using that(1) by (simp add: tiers_present_facts)
    then have "tier_of messages i \<in> set (takeWhile (\<lambda>t. t \<noteq> 0) ?ts)"
      using t by (intro takeWhile_desc tiers_present_facts)
    with d that(1) show False by (auto simp: set_tier_drop)
  qed
  ultimately show ?thesis
    using False k by (intro exI [of _ keep]) (auto simp: apply_context_budget_def Let_def)
qed

text \<open>
  C18. The allocator never gives up what the turn needs: unless a user-state block outside the
  system messages is to be shortened, the result consists of the given messages, unchanged and in
  order; every system message, every message with an image and the last message survive (a last
  message that reads as the assistant's own acknowledgement excepted); and the result either fits
  the window, less its output reserve, or contains nothing but these messages.
\<close>

theorem budget_keeps_essentials:
  assumes "sal = [] \<or> (\<forall>i < length messages. tier_of messages i \<noteq> 1)"
  shows "\<exists>keep. apply_context_budget show_parts messages w out sal = kept messages keep \<and> length keep = length messages
    \<and> (\<forall>i < length messages. essential messages i \<and> \<not> is_ack_msg (messages ! i) \<longrightarrow> keep ! i)
    \<and> (int (total_tokens show_parts (kept messages keep)) \<le> token_budget w out
       \<or> (\<forall>i < length messages. keep ! i \<longrightarrow> essential messages i))"
  using assms by (rule budget_keep)

definition sample_messages :: "msg list" where
  "sample_messages = [text_msg ''system'' ''be brief'', text_msg ''user'' ''[PROJECT STATE] x'', text_msg ''assistant'' ''Understood.'',
     text_msg ''user'' ''what now?'']"

theorem budget_keeps_essentials_witness:
  "\<exists>keep. apply_context_budget (\<lambda>_. []) sample_messages 10 5 [] = kept sample_messages keep \<and> keep ! 0 \<and> keep ! 3"
proof -
  have l: "length sample_messages = 4" by (simp add: sample_messages_def)
  have e: "essential sample_messages 0 \<and> \<not> is_ack_msg (sample_messages ! 0)" "essential sample_messages 3 \<and> \<not> is_ack_msg (sample_messages ! 3)"
    by (simp_all add: sample_messages_def essential_def is_ack_msg_def text_msg_def)
  obtain keep where "apply_context_budget (\<lambda>_. []) sample_messages 10 5 [] = kept sample_messages keep"
    "\<forall>i < length sample_messages. essential sample_messages i \<and> \<not> is_ack_msg (sample_messages ! i) \<longrightarrow> keep ! i"
    using budget_keeps_essentials [of "[]" sample_messages "\<lambda>_. []" 10 5] by blast
  moreover from this(2) e l have "keep ! 0" "keep ! 3" by auto
  ultimately show ?thesis by blast
qed

section \<open>The question after a tool round\<close>

lemma kept_nth: "length keep = length ms \<Longrightarrow> kept ms keep = map ((!) ms) (filter ((!) keep) [0 ..< length ms])"
proof (induction ms arbitrary: keep)
  case Nil
  then show ?case by (simp add: kept_def)
next
  case (Cons m ms)
  then obtain k ks where k: "keep = k # ks" "length ks = length ms" by (cases keep) auto
  have up: "[0 ..< length (m # ms)] = 0 # map Suc [0 ..< length ms]"
    by (simp only: length_Cons upt_conv_Cons map_Suc_upt zero_less_Suc)
  show ?case
    using Cons.IH [OF k(2)] unfolding k(1) up by (simp add: kept_def filter_map comp_def)
qed

lemma sum_list_filter_mono:
  fixes f :: "'a \<Rightarrow> nat"
  shows "(\<And>x. x \<in> set xs \<Longrightarrow> P x \<Longrightarrow> Q x) \<Longrightarrow> sum_list (map f (filter P xs)) \<le> sum_list (map f (filter Q xs))"
  by (induction xs) (auto intro: add_le_mono trans_le_add2)

text \<open>What a message costs together with everything that is always kept.\<close>

definition with_essentials :: "msg list \<Rightarrow> nat \<Rightarrow> msg list" where
  "with_essentials messages i =
     map ((!) messages) (filter (\<lambda>j. essential messages j \<and> \<not> is_ack_msg (messages ! j) \<or> j = i) [0 ..< length messages])"

lemma too_big_dropped:
  assumes "length keep = length messages" and "i < length messages"
    and kept: "\<forall>j < length messages. essential messages j \<and> \<not> is_ack_msg (messages ! j) \<longrightarrow> keep ! j"
    and fits: "int (total_tokens show_parts (kept messages keep)) \<le> budget \<or> (\<forall>j < length messages. keep ! j \<longrightarrow> essential messages j)"
    and "\<not> essential messages i" and big: "budget < int (total_tokens show_parts (with_essentials messages i))"
  shows "\<not> keep ! i"
proof
  assume i: "keep ! i"
  with fits assms(2,5) have "int (total_tokens show_parts (kept messages keep)) \<le> budget" by blast
  moreover have "total_tokens show_parts (with_essentials messages i) \<le> total_tokens show_parts (kept messages keep)"
    unfolding total_tokens_def with_essentials_def kept_nth [OF assms(1)] map_map
    by (rule sum_list_filter_mono) (use kept i in auto)
  ultimately show False using big by simp
qed

text \<open>
  The question is safe only while it is last: right after it was appended it is always sent,
  but after a tool round, when the exchange with the tool follows it, it is dropped as soon as it
  does not fit beside the system messages, the images and the last message, while that last message
  (the tool's result) is sent without it.
\<close>

theorem question_lost_after_tools:
  assumes "m_role q = ''user''" and "m_content q = Text question" and "exchange \<noteq> []" and "\<not> is_ack_msg (last exchange)"
    and "token_budget w out < int (total_tokens show_parts (with_essentials (pre @ [q] @ exchange) (length pre)))"
  shows "(\<exists>keep. apply_context_budget show_parts (pre @ [q]) w out [] = kept (pre @ [q]) keep \<and> keep ! length pre)
    \<and> (\<exists>keep. apply_context_budget show_parts (pre @ [q] @ exchange) w out [] = kept (pre @ [q] @ exchange) keep
          \<and> \<not> keep ! length pre \<and> keep ! (length pre + length exchange))"
proof
  have user: "\<not> is_ack_msg q" using assms(1) by (simp add: is_ack_msg_def)
  have "essential (pre @ [q]) (length pre)" by (simp add: essential_def)
  then show "\<exists>keep. apply_context_budget show_parts (pre @ [q]) w out [] = kept (pre @ [q]) keep \<and> keep ! length pre"
    using budget_keep [of "[]" "pre @ [q]" show_parts w out] user by auto
  let ?ms = "pre @ [q] @ exchange"
  obtain keep where k: "apply_context_budget show_parts ?ms w out [] = kept ?ms keep" "length keep = length ?ms"
    "\<forall>j < length ?ms. essential ?ms j \<and> \<not> is_ack_msg (?ms ! j) \<longrightarrow> keep ! j"
    "int (total_tokens show_parts (kept ?ms keep)) \<le> token_budget w out \<or> (\<forall>j < length ?ms. keep ! j \<longrightarrow> essential ?ms j)"
    using budget_keep [of "[]" ?ms show_parts w out] by auto
  have "\<not> essential ?ms (length pre)" using assms(1-3) by (simp add: essential_def)
  then have "\<not> keep ! length pre" using too_big_dropped [OF k(2) _ k(3,4) _ assms(5)] by simp
  moreover have "keep ! (length pre + length exchange)"
  proof -
    have "?ms ! (length pre + length exchange) = last exchange"
      using assms(3) by (auto simp: nth_append last_conv_nth neq_Nil_conv)
    moreover have "essential ?ms (length pre + length exchange)" by (simp add: essential_def)
    ultimately show ?thesis using k(3) assms(4) by simp
  qed
  ultimately show "\<exists>keep. apply_context_budget show_parts ?ms w out [] = kept ?ms keep
          \<and> \<not> keep ! length pre \<and> keep ! (length pre + length exchange)"
    using k(1) by blast
qed

definition sample_exchange :: "msg list" where
  "sample_exchange = [\<lparr>m_role = ''assistant'', m_content = Text [], m_rest = []\<rparr>, \<lparr>m_role = ''tool'', m_content = Text ''some long result'', m_rest = []\<rparr>]"

theorem question_lost_after_tools_witness:
  "\<exists>keep. apply_context_budget (\<lambda>_. []) ([] @ [text_msg ''user'' ''question''] @ sample_exchange) 10 4 [] =
       kept ([] @ [text_msg ''user'' ''question''] @ sample_exchange) keep \<and> \<not> keep ! 0 \<and> keep ! 2"
proof -
  have "token_budget 10 4 < int (total_tokens (\<lambda>_. []) (with_essentials ([] @ [text_msg ''user'' ''question''] @ sample_exchange) (length ([] :: msg list))))"
    by code_simp
  moreover have "\<not> is_ack_msg (last sample_exchange)" "sample_exchange \<noteq> []" "length sample_exchange = 2"
    by (simp_all add: sample_exchange_def is_ack_msg_def)
  ultimately show ?thesis
    using question_lost_after_tools [of "text_msg ''user'' ''question''" "''question''" sample_exchange 10 4 "\<lambda>_. []" "[]"]
    by (simp add: text_msg_def eval_nat_numeral)
qed

section \<open>The user state is never shortened\<close>

lemma drop_tiers_saliences:
  "1 \<notin> set ts \<Longrightarrow> drop_tiers show_parts sal budget orig ts messages keep = drop_tiers show_parts [] budget orig ts messages keep"
  by (induction ts arbitrary: keep) (auto simp: Let_def)

lemma prefix_tier_one: "prefix_tier s = 1 \<Longrightarrow> startswith s ''[USER STATE]''"
  by (auto simp: prefix_tier_def TIER_PREFIXES_def split: if_splits)

text \<open>A message outside the system's that is taken for a user-state block.\<close>

definition looks_like_state :: "msg \<Rightarrow> bool" where
  "looks_like_state m = (m_role m \<noteq> ''system'' \<and> (case m_content m of Text s \<Rightarrow> startswith s ''[USER STATE]'' | Parts _ \<Rightarrow> False))"

lemma tier_one: "tier_of messages i = 1 \<Longrightarrow> looks_like_state (messages ! i)"
  by (auto simp: tier_of_def message_tier_def looks_like_state_def dest: prefix_tier_one [unfolded One_nat_def] split: content.splits if_splits)

lemma noted_state: "m \<in> set (noted c) \<Longrightarrow> looks_like_state m \<Longrightarrow> startswith c ''[USER STATE]''"
  by (auto simp: noted_def text_msg_def looks_like_state_def startswith_def)

lemma goals_no_state: "\<not> startswith (format_active_goals g) ''[USER STATE]''"
  by (simp add: format_active_goals_def startswith_def)

definition state_free :: "msg list \<Rightarrow> bool" where
  "state_free ms = (\<forall>m \<in> set ms. \<not> looks_like_state m)"

lemma state_free_append: "state_free (xs @ ys) = (state_free xs \<and> state_free ys)"
  by (auto simp: state_free_def)

lemma state_free_noted: "\<not> startswith c ''[USER STATE]'' \<Longrightarrow> state_free (noted c)"
  using noted_state by (auto simp: state_free_def)

lemma state_free_blocks:
  "state_free []"
  "state_free [text_msg ''system'' c]"
  "state_free (noted (''[LAST SESSION]'' @ x))"
  "state_free (noted (''[GRAPH CONTEXT]'' @ x))"
  "state_free (noted (''[GRAPH FACTS]'' @ x))"
  "state_free (noted (''[RECENT INSIGHTS]'' @ x))"
  "state_free (noted (''[PROJECT STATE]'' @ x))"
  "state_free (noted (''[RELEVANT CONTEXT FROM EARLIER]'' @ x))"
  "state_free (noted (''[EARLIER IN THIS CONVERSATION]'' @ x))"
  "state_free (noted (format_active_goals g))"
  "state_free [text_msg ''user'' (''[FILE CONTEXT]'' @ x),
               text_msg ''assistant'' ''Understood, I will reference these documents in my response.'']"
  by (simp_all add: state_free_noted [OF goals_no_state] state_free_noted startswith_def)
     (simp_all add: state_free_def looks_like_state_def text_msg_def startswith_def)

lemma context_no_state:
  assumes "\<forall>m \<in> set (ci_history ci). \<not> looks_like_state m"
  shows "state_free (build_context_messages ci)"
proof -
  have "state_free (ci_history ci)" using assms by (simp add: state_free_def)
  then show ?thesis
    unfolding build_context_messages_def state_free_append
    by (intro conjI) (simp_all only: state_free_blocks split: if_split option.split, simp_all)
qed

text \<open>
  Salience plays no part in fitting the context: the memory sheet enters the context as a
  system message, system messages are never touched, and so, unless a message of the history itself
  starts like a user-state block, the saliences of the facts have no influence on what is sent; the
  code that would shorten the user state to its salient facts is never reached.
\<close>

theorem saliences_have_no_effect:
  assumes "\<forall>m \<in> set (ci_history ci). \<not> looks_like_state m"
  shows "apply_context_budget show_parts (build_context_messages ci @ [last_msg]) w out sal =
         apply_context_budget show_parts (build_context_messages ci @ [last_msg]) w out []"
proof -
  let ?ms = "build_context_messages ci @ [last_msg]"
  have no_one: "tier_of ?ms i \<noteq> 1" if "i < length ?ms" for i
  proof (cases "i = length ?ms - 1")
    case True
    then show ?thesis by (simp add: tier_of_def message_tier_def)
  next
    case False
    then have "?ms ! i \<in> set (build_context_messages ci)" using that by (auto simp: nth_append)
    then show ?thesis using context_no_state [OF assms] tier_one [of ?ms i] unfolding state_free_def by blast
  qed
  have "1 \<notin> set (tiers_present ?ms)"
  proof
    assume "1 \<in> set (tiers_present ?ms)"
    then obtain i where "tier_of ?ms i = 1" "i \<in> {0 ..< length ?ms}" unfolding tiers_present_facts by (elim imageE) simp
    with no_one show False by (simp del: One_nat_def)
  qed
  from drop_tiers_saliences [OF this, of show_parts sal] show ?thesis
    by (simp only: apply_context_budget_def Let_def)
qed

definition sample_input :: context_input where
  "sample_input = \<lparr>ci_memory_sheet = ''name: Ann'' @ newline @ ''likes: tea'', ci_project_summary = [], ci_retrieved_chunks = [],
     ci_history_summary = [], ci_history = [text_msg ''user'' ''hello''], ci_system_prompt = None, ci_file_chunks = [],
     ci_file_names = [], ci_file_ids = [], ci_graph_context = [], ci_graph_facts = [], ci_active_goals = [],
     ci_recent_insights = [], ci_conflicted_facts = [''likes: tea''], ci_last_session = [], ci_intent = ''question''\<rparr>"

theorem saliences_have_no_effect_witness:
  "apply_context_budget (\<lambda>_. []) (build_context_messages sample_input @ [text_msg ''user'' ''hi'']) 100 10 [(''name: Ann'', 0)] =
   apply_context_budget (\<lambda>_. []) (build_context_messages sample_input @ [text_msg ''user'' ''hi'']) 100 10 []"
  by (rule saliences_have_no_effect) (simp add: sample_input_def looks_like_state_def text_msg_def startswith_def)

text \<open>
  Conflicting facts are held back: the user-state block of a turn contains no line that,
  without surrounding white space, is one of the conflicting facts, and all other lines of the
  memory sheet in their order.
\<close>

theorem conflicted_facts_suppressed:
  assumes "ci_conflicted_facts ci \<noteq> []"
    and "filter (\<lambda>l. strip l \<notin> set (ci_conflicted_facts ci)) (split_lines (ci_memory_sheet ci)) \<noteq> []"
  shows "split_lines (user_state ci) = filter (\<lambda>l. strip l \<notin> set (ci_conflicted_facts ci)) (split_lines (ci_memory_sheet ci))"
proof -
  have "\<forall>l \<in> set (filter (\<lambda>l. strip l \<notin> set (ci_conflicted_facts ci)) (split_lines (ci_memory_sheet ci))). CHR 0x0A \<notin> set l"
    using split_on_no_sep by (auto simp: split_lines_def)
  then show ?thesis
    using assms unfolding user_state_def join_lines_def by (simp add: split_lines_def split_on_join)
qed

theorem conflicted_facts_suppressed_witness:
  "split_lines (user_state sample_input) = [''name: Ann'']"
proof -
  have e: "filter (\<lambda>l. strip l \<notin> set (ci_conflicted_facts sample_input)) (split_lines (ci_memory_sheet sample_input)) = [''name: Ann'']"
    "ci_conflicted_facts sample_input = [''likes: tea'']"
    by code_simp+
  have n: "ci_conflicted_facts sample_input \<noteq> []" unfolding e(2) by simp
  have "filter (\<lambda>l. strip l \<notin> set (ci_conflicted_facts sample_input)) (split_lines (ci_memory_sheet sample_input)) \<noteq> []"
    unfolding e(1) by simp
  from conflicted_facts_suppressed [OF n this] show ?thesis unfolding e(1) .
qed

end
