(* ===== verification/Connector_Intent.thy ===== *)
theory Connector_Intent
  imports Settings
begin

text \<open>
  \<^verbatim>\<open>backend/llm/embeddings.py\<close>, \<^verbatim>\<open>backend/llm/tools/connector_intent.py\<close> and the latch of
  \<^verbatim>\<open>backend/llm/service/stream.py\<close>: the embedding call with its retries, the anchor sets built
  from the example phrases, the nearest-example score, and the rule that switches the tools of at
  most one connector on per turn. The replies of the embedding service and of Redis are arguments;
  sleeping and the per-turn score log are left out. The three connector names are a datatype.
\<close>

section \<open>The embedding call\<close>

definition MAX_ATTEMPTS :: nat where
  "MAX_ATTEMPTS = 4"

text \<open>
  What one request to the embedding service gives: a vector, a status that is not a success, a
  transport error, or anything else that raises (a body of the wrong shape).
\<close>

datatype embed_reply =
    Embedding "real list"
  | EmbedStatus int
  | EmbedTransport
  | EmbedOther

fun embed_attempts :: "(nat \<Rightarrow> embed_reply) \<Rightarrow> nat list \<Rightarrow> real list option" where
  "embed_attempts net [] = None"
| "embed_attempts net (a # as) =
     (let last = (a = MAX_ATTEMPTS - 1) in
      case net a of
        Embedding v \<Rightarrow> Some v
      | EmbedStatus status \<Rightarrow> if status < 500 \<or> last then None else embed_attempts net as
      | EmbedTransport \<Rightarrow> if last then None else embed_attempts net as
      | EmbedOther \<Rightarrow> None)"

text \<open>The service sees the first 2000 characters of the text.\<close>

definition embed :: "bool \<Rightarrow> (string \<Rightarrow> nat \<Rightarrow> embed_reply) \<Rightarrow> string \<Rightarrow> real list option" where
  "embed client net text =
     (if \<not> client then None else embed_attempts (net (take 2000 text)) [0 ..< MAX_ATTEMPTS])"

section \<open>Anchors\<close>

datatype connector = Drive | Calendar | Gmail

fun connector_name :: "connector \<Rightarrow> string" where
  "connector_name Drive = ''drive''"
| "connector_name Calendar = ''calendar''"
| "connector_name Gmail = ''gmail''"

definition connectors :: "connector list" where
  "connectors = [Drive, Calendar, Gmail]"

fun INTENT_PHRASES :: "connector \<Rightarrow> string list" where
  "INTENT_PHRASES Drive =
     [''what files do I have in my drive'',
      ''show me the documents in my google drive'',
      ''open the document I have about the budget'',
      ''find a file in my drive'',
      ''search my google drive for a document'',
      ''list the files in my drive'',
      ''do I have a document about this in my files'',
      ''pull up a file from my drive'',
      ''look in my drive for a spreadsheet'',
      ''read one of my documents'',
      ''what is saved in my google drive'',
      ''find my file about the project'',
      ''open a folder in my drive'',
      ''get a document from my files'',
      ''which documents are in my drive'',
      ''check my google drive for a file'',
      ''retrieve a file from my documents'',
      ''where is my document saved in drive'',
      ''open my document'',
      ''read that file'',
      ''grab the spreadsheet'',
      ''pull up my doc'',
      ''which file has this'']"
| "INTENT_PHRASES Calendar =
     [''what is on my calendar today'',
      ''do I have any meetings this week'',
      ''show me my schedule'',
      ''when is my next appointment'',
      ''add an event to my calendar'',
      ''schedule a meeting for tomorrow'',
      ''what events do I have on friday'',
      ''am I free this afternoon'',
      ''put a reminder on my calendar'',
      ''check my calendar for next monday'',
      ''do I have anything booked tomorrow'',
      ''create a calendar event for the call'',
      ''what is my agenda for today'',
      ''move my three pm meeting'',
      ''cancel the event on thursday'',
      ''list my upcoming events'',
      ''when am I meeting with the team'',
      ''block off time on my calendar'',
      ''when is my meeting'',
      ''what'' @ [CHR 0x27] @ ''s my agenda'',
      ''put this on my calendar'',
      ''do I have anything scheduled'',
      ''any meetings on my calendar'']"
| "INTENT_PHRASES Gmail =
     [''check my email'',
      ''do I have any new messages'',
      ''show me my latest emails'',
      ''search my inbox for the invoice'',
      ''did I get an email from john'',
      ''what is in my inbox'',
      ''read my most recent email'',
      ''find the email about the meeting'',
      ''do I have any unread messages'',
      ''look up that email from support'',
      ''what emails did I get today'',
      ''show me messages from my boss'',
      ''find emails about the project'',
      ''open the email with the receipt'',
      ''check for new mail'',
      ''did anyone email me about the order'',
      ''search my gmail for the contract'',
      ''read the email from the bank'',
      ''show my inbox'',
      ''did I get any email'',
      ''open my messages'',
      ''who emailed me'',
      ''look through my mail'']"

fun INTENT_THRESHOLDS :: "connector \<Rightarrow> real" where
  "INTENT_THRESHOLDS Drive = 21 / 100"
| "INTENT_THRESHOLDS Calendar = 29 / 100"
| "INTENT_THRESHOLDS Gmail = 44 / 100"

definition FLOOR_THRESHOLD :: real where
  "FLOOR_THRESHOLD = 30 / 100"

definition norm_of :: "real list \<Rightarrow> real" where
  "norm_of vec = (let n = sqrt (sum_list (map (\<lambda>x. x * x) vec)) in if n = 0 then 1 else n)"

definition normalize_vec :: "real list \<Rightarrow> real list" where
  "normalize_vec vec = map (\<lambda>x. x / norm_of vec) vec"

text \<open>
  One phrase is asked for at most six times; \<^verbatim>\<open>net r\<close> is the embedding service during the
  \<open>r\<close>-th try. An empty vector counts as a failure.
\<close>

type_synonym phrase_net = "nat \<Rightarrow> string \<Rightarrow> nat \<Rightarrow> embed_reply"

fun phrase_tries :: "bool \<Rightarrow> phrase_net \<Rightarrow> string \<Rightarrow> nat list \<Rightarrow> real list option" where
  "phrase_tries client net text [] = None"
| "phrase_tries client net text (r # rs) =
     (case embed client (net r) text of
        Some (x # xs) \<Rightarrow> Some (x # xs)
      | _ \<Rightarrow> phrase_tries client net text rs)"

definition embed_phrase :: "bool \<Rightarrow> phrase_net \<Rightarrow> string \<Rightarrow> real list option" where
  "embed_phrase client net text = phrase_tries client net text [0 ..< 6]"

definition build_anchors :: "bool \<Rightarrow> phrase_net \<Rightarrow> connector \<Rightarrow> real list list option" where
  "build_anchors client net c =
     (let phrases = INTENT_PHRASES c;
          vecs = map normalize_vec (List.map_filter (embed_phrase client net) phrases)
      in if length vecs < length phrases then None else Some vecs)"

type_synonym anchors = "(connector \<times> real list list option) list"

definition anchors_of :: "anchors \<Rightarrow> connector \<Rightarrow> real list list option" where
  "anchors_of st c = (case dget st c of Some a \<Rightarrow> a | None \<Rightarrow> None)"

definition get_anchors :: "bool \<Rightarrow> phrase_net \<Rightarrow> connector \<Rightarrow> anchors \<Rightarrow> real list list option \<times> anchors" where
  "get_anchors client net c st =
     (let st1 = (if anchors_of st c = None then dset st c (build_anchors client net c) else st)
      in (anchors_of st1 c, st1))"

definition warm_centroids :: "bool \<Rightarrow> (connector \<Rightarrow> phrase_net) \<Rightarrow> anchors \<Rightarrow> anchors" where
  "warm_centroids client net st = fold (\<lambda>c s. snd (get_anchors client (net c) c s)) connectors st"

section \<open>The score of a turn\<close>

definition dot :: "real list \<Rightarrow> real list \<Rightarrow> real" where
  "dot q anc = sum_list (map2 (*) q anc)"

definition intent_score :: "bool \<Rightarrow> phrase_net \<Rightarrow> connector \<Rightarrow> real list option \<Rightarrow> anchors \<Rightarrow> real \<times> anchors" where
  "intent_score client net c query_emb st =
     (case query_emb of
        None \<Rightarrow> (0, st)
      | Some [] \<Rightarrow> (0, st)
      | Some q \<Rightarrow>
          (case get_anchors client net c st of
             (None, st1) \<Rightarrow> (0, st1)
           | (Some [], st1) \<Rightarrow> (0, st1)
           | (Some as, st1) \<Rightarrow> (Max (set (map (dot (normalize_vec q)) as)), st1)))"

fun score_all :: "bool \<Rightarrow> (connector \<Rightarrow> phrase_net) \<Rightarrow> real list option \<Rightarrow> connector list \<Rightarrow> anchors \<Rightarrow>
    (connector \<times> real) list \<times> anchors" where
  "score_all client net query_emb [] st = ([], st)"
| "score_all client net query_emb (c # cs) st =
     (let (s, st1) = intent_score client (net c) c query_emb st;
          (rest, st2) = score_all client net query_emb cs st1
      in ((c, s) # rest, st2))"

section \<open>The latch\<close>

text \<open>
  Flags per connector, and the two Redis commands on a latch key; a failing command is swallowed
  and changes nothing.
\<close>

type_synonym flags = "(connector \<times> bool) list"

definition flag :: "flags \<Rightarrow> connector \<Rightarrow> bool" where
  "flag fs c = (dget fs c = Some True)"

record 'r latch_store =
  ls_exists :: "'r \<Rightarrow> string \<Rightarrow> bool result"
  ls_expire :: "'r \<Rightarrow> string \<Rightarrow> int \<Rightarrow> 'r result"
  ls_set :: "'r \<Rightarrow> string \<Rightarrow> int \<Rightarrow> 'r result"

definition latch_key :: "connector \<Rightarrow> string \<Rightarrow> string" where
  "latch_key c conv_id = connector_name c @ ''_latched:'' @ conv_id"

definition swallow :: "'r \<Rightarrow> 'r result \<Rightarrow> 'r" where
  "swallow r res = (case res of Inr r1 \<Rightarrow> r1 | Inl _ \<Rightarrow> r)"

definition refresh_latches :: "'r latch_store \<Rightarrow> flags \<Rightarrow> flags \<Rightarrow> string \<Rightarrow> 'r \<Rightarrow> 'r" where
  "refresh_latches ls actives latched conv_id r =
     fold (\<lambda>(c, on) r. if flag actives c \<and> on then swallow r (ls_expire ls r (latch_key c conv_id) 3600) else r)
       latched r"

text \<open>\<^verbatim>\<open>max(d, key=d.get)\<close>: the first key with the largest value.\<close>

fun arg_best :: "(connector \<times> real) list \<Rightarrow> (connector \<times> real) option" where
  "arg_best [] = None"
| "arg_best (p # ps) =
     (case arg_best ps of None \<Rightarrow> Some p | Some b \<Rightarrow> if snd b > snd p then Some b else Some p)"

definition candidates :: "flags \<Rightarrow> flags \<Rightarrow> (connector \<times> real) list \<Rightarrow> (connector \<times> real) list" where
  "candidates actives latched scores =
     map (\<lambda>c. (c, case dget scores c of Some s \<Rightarrow> s | None \<Rightarrow> 0))
       (filter (\<lambda>c. flag actives c \<and> \<not> flag latched c) (map fst actives))"

record 'r latch_outcome =
  lo_latched :: flags
  lo_anchors :: anchors
  lo_redis :: 'r

definition resolve_connector_latches ::
  "config \<Rightarrow> 'r latch_store \<Rightarrow> bool \<Rightarrow> (connector \<Rightarrow> phrase_net) \<Rightarrow> flags \<Rightarrow> flags \<Rightarrow> string option \<Rightarrow>
   real list option \<Rightarrow> anchors \<Rightarrow> 'r \<Rightarrow> 'r latch_outcome" where
  "resolve_connector_latches cfg ls client net actives latched conv_id query_emb anc r =
     (let sticky = (conv_id \<noteq> None \<and> USE_REDIS cfg);
          r1 = (if sticky then refresh_latches ls actives latched (the conv_id) r else r);
          (all_scores, anc1) = score_all client net query_emb connectors anc
      in case arg_best (candidates actives latched all_scores) of
           None \<Rightarrow> \<lparr>lo_latched = latched, lo_anchors = anc1, lo_redis = r1\<rparr>
         | Some (winner, s) \<Rightarrow>
             if s \<ge> INTENT_THRESHOLDS winner \<and> s \<ge> FLOOR_THRESHOLD
             then \<lparr>lo_latched = dset latched winner True, lo_anchors = anc1,
                   lo_redis = (if sticky then swallow r1 (ls_set ls r1 (latch_key winner (the conv_id)) 3600) else r1)\<rparr>
             else \<lparr>lo_latched = latched, lo_anchors = anc1, lo_redis = r1\<rparr>)"

section \<open>Scores are cosines\<close>

definition sq_sum :: "real list \<Rightarrow> real" where
  "sq_sum v = sum_list (map (\<lambda>x. x * x) v)"

lemma sq_sum_simps [simp]: "sq_sum [] = 0" "sq_sum (x # v) = x * x + sq_sum v"
  by (simp_all add: sq_sum_def)

lemma sq_sum_nonneg [simp]: "0 \<le> sq_sum v"
  by (induction v) auto

lemma sq_sum_scaled: "sq_sum (map (\<lambda>x. x / n) v) = sq_sum v / (n * n)"
  by (induction v) (simp_all add: add_divide_distrib)

text \<open>A normalised vector is a unit vector, or the null vector.\<close>

lemma sq_sum_normalized: "sq_sum (normalize_vec v) = (if sq_sum v = 0 then 0 else 1)"
proof -
  have "sqrt (sq_sum v) * sqrt (sq_sum v) = sq_sum v" by simp
  then show ?thesis
    by (auto simp: normalize_vec_def sq_sum_scaled norm_of_def Let_def simp flip: sq_sum_def)
qed

text \<open>The inequality of Cauchy and Schwarz in the form the score needs.\<close>

lemma dot_bound: "2 * \<bar>dot u v\<bar> \<le> sq_sum u + sq_sum v"
proof (induction u v rule: list_induct2')
  case (4 x xs y ys)
  have "0 \<le> (x - y) * (x - y)" and "0 \<le> (x + y) * (x + y)" by simp_all
  then have "2 * \<bar>x * y\<bar> \<le> x * x + y * y" by (simp add: algebra_simps abs_le_iff)
  then have "2 * \<bar>x * y\<bar> + 2 * \<bar>dot xs ys\<bar> \<le> (x * x + y * y) + (sq_sum xs + sq_sum ys)"
    using 4 by (rule add_mono)
  moreover have "2 * \<bar>x * y + dot xs ys\<bar> \<le> 2 * \<bar>x * y\<bar> + 2 * \<bar>dot xs ys\<bar>"
    using abs_triangle_ineq [of "x * y" "dot xs ys"] by simp
  ultimately have "2 * \<bar>x * y + dot xs ys\<bar> \<le> sq_sum (x # xs) + sq_sum (y # ys)"
    by (simp add: add_ac)
  then show ?case by (simp add: dot_def)
qed (simp_all add: dot_def)

definition anchor_set_ok :: "connector \<Rightarrow> real list list \<Rightarrow> bool" where
  "anchor_set_ok c as = (length as = length (INTENT_PHRASES c) \<and> list_all (\<lambda>v. sq_sum v \<le> 1) as)"

definition anchors_ok :: "anchors \<Rightarrow> bool" where
  "anchors_ok st = list_all (\<lambda>c. case anchors_of st c of None \<Rightarrow> True | Some as \<Rightarrow> anchor_set_ok c as) connectors"

lemma anchors_ok_iff: "anchors_ok st \<longleftrightarrow> (\<forall>c as. anchors_of st c = Some as \<longrightarrow> anchor_set_ok c as)"
proof -
  have "set connectors = UNIV" by (auto simp: connectors_def intro: connector.exhaust)
  then show ?thesis by (auto simp: anchors_ok_def list_all_iff split: option.splits)
qed

lemma build_anchors_ok: "build_anchors client net c = Some as \<Longrightarrow> anchor_set_ok c as"
proof -
  assume b: "build_anchors client net c = Some as"
  have "length (List.map_filter f xs) \<le> length xs" for f :: "string \<Rightarrow> real list option" and xs
    by (induction xs) (auto simp: map_filter_simps split: option.split)
  with b show ?thesis
    by (auto simp: build_anchors_def anchor_set_ok_def Let_def list_all_iff sq_sum_normalized not_less
        intro: antisym split: if_splits)
qed

lemma anchors_of_dset: "anchors_of (dset st c a) c' = (if c' = c then a else anchors_of st c')"
  by (simp add: anchors_of_def dget_dset)

lemma get_anchors_ok:
  "anchors_ok st \<Longrightarrow> anchors_ok (snd (get_anchors client net c st))"
  by (auto simp: get_anchors_def Let_def anchors_ok_iff anchors_of_dset build_anchors_ok)

lemma snd_intent_score:
  "snd (intent_score client net c q st) =
     (case q of Some (x # xs) \<Rightarrow> snd (get_anchors client net c st) | _ \<Rightarrow> st)"
  by (auto simp: intent_score_def split: option.splits list.splits prod.splits)

lemma intent_score_ok: "anchors_ok st \<Longrightarrow> anchors_ok (snd (intent_score client net c q st))"
  by (auto simp: snd_intent_score get_anchors_ok split: option.splits list.splits)

lemma intent_score_range:
  assumes "anchors_ok st"
  shows "\<bar>fst (intent_score client net c q st)\<bar> \<le> 1"
proof (cases "fst (intent_score client net c q st) = 0")
  case True
  then show ?thesis by simp
next
  case False
  then obtain x xs a as st1 where q: "q = Some (x # xs)"
    and g: "get_anchors client net c st = (Some (a # as), st1)"
    by (auto simp: intent_score_def split: option.splits list.splits prod.splits)
  define S where "S = set (map (dot (normalize_vec (x # xs))) (a # as))"
  have "fst (intent_score client net c q st) = Max S"
    by (simp add: intent_score_def q g S_def)
  moreover have "Max S \<in> S" by (rule Max_in) (simp_all add: S_def)
  ultimately obtain v where v: "v \<in> set (a # as)"
    and s: "fst (intent_score client net c q st) = dot (normalize_vec (x # xs)) v"
    by (auto simp: S_def)
  have "anchors_of st1 c = Some (a # as)" using g by (auto simp: get_anchors_def Let_def)
  moreover have "anchors_ok st1" using get_anchors_ok [OF assms, of client net c] g by simp
  ultimately have "anchor_set_ok c (a # as)" by (simp add: anchors_ok_iff)
  with v have "sq_sum v \<le> 1" by (auto simp: anchor_set_ok_def list_all_iff)
  then show ?thesis
    using dot_bound [of "normalize_vec (x # xs)" v] unfolding s
    by (auto simp: sq_sum_normalized simp del: sq_sum_simps split: if_splits)
qed

text \<open>The requests that read a score, in any order, against any behaviour of the service.\<close>

definition score_step :: "(bool \<times> phrase_net \<times> connector \<times> real list option) \<Rightarrow> anchors \<Rightarrow> anchors" where
  "score_step e st = (case e of (client, net, c, q) \<Rightarrow> snd (intent_score client net c q st))"

interpretation anchor_cache: guarded_machine score_step anchors_ok "[]"
proof unfold_locales
  show "anchors_ok []" by (simp add: anchors_ok_def anchors_of_def connectors_def)
  show "anchors_ok s \<Longrightarrow> anchors_ok (score_step e s)" for s e
    by (auto simp: score_step_def intent_score_ok split: prod.splits)
qed

text \<open>
  After any sequence of scored requests, whatever the embedding service replied to each, an
  anchor set in use has one vector for every example phrase of its connector (a partial set is
  never kept), and the score of the next request lies between -1 and 1.
\<close>

theorem scores_are_cosines:
  "anchors_ok (fold score_step es [])
   \<and> \<bar>fst (intent_score client net c q (fold score_step es []))\<bar> \<le> 1"
  by (simp add: anchor_cache.inv_reach intent_score_range)

section \<open>One winner per turn\<close>

lemma arg_best_Some:
  assumes "arg_best ps = Some b"
  shows "b \<in> set ps" and "\<And>p. p \<in> set ps \<Longrightarrow> snd p \<le> snd b"
proof -
  have "b \<in> set ps \<and> (\<forall>p \<in> set ps. snd p \<le> snd b)"
    using assms
  proof (induction ps arbitrary: b)
    case (Cons p ps)
    show ?case
    proof (cases "arg_best ps")
      case None
      then have "ps = []" by (cases ps) (auto split: option.splits if_splits)
      with Cons.prems show ?thesis by simp
    next
      case (Some b1)
      with Cons.IH [OF Some] Cons.prems show ?thesis by (auto split: if_splits)
    qed
  qed simp
  then show "b \<in> set ps" and "\<And>p. p \<in> set ps \<Longrightarrow> snd p \<le> snd b" by auto
qed

lemma score_all_keys: "map fst (fst (score_all client net q cs st)) = cs"
  by (induction cs arbitrary: st) (auto simp: Let_def split: prod.splits, metis fst_conv)

lemma score_all_no_embedding:
  "q = None \<or> q = Some [] \<Longrightarrow> score_all client net q cs st = (map (\<lambda>c. (c, 0)) cs, st)"
  by (induction cs arbitrary: st) (auto simp: intent_score_def)

definition turn_score :: "bool \<Rightarrow> (connector \<Rightarrow> phrase_net) \<Rightarrow> real list option \<Rightarrow> anchors \<Rightarrow> connector \<Rightarrow> real" where
  "turn_score client net q anc c =
     (case dget (fst (score_all client net q connectors anc)) c of Some s \<Rightarrow> s | None \<Rightarrow> 0)"

lemma set_candidates:
  "(c, s) \<in> set (candidates actives latched (fst (score_all client net q connectors anc))) \<longleftrightarrow>
     flag actives c \<and> \<not> flag latched c \<and> s = turn_score client net q anc c"
  unfolding candidates_def turn_score_def flag_def
  by (auto simp: dget_def intro!: image_eqI dest: map_of_SomeD)

lemma latched_outcome:
  defines "out \<equiv> \<lambda>cfg ls client net actives latched conv q anc r.
      lo_latched (resolve_connector_latches cfg ls client net actives latched conv q anc r)"
  shows "out cfg ls client net actives latched conv q anc r = latched
    \<or> (\<exists>w. out cfg ls client net actives latched conv q anc r = dset latched w True
        \<and> flag actives w \<and> \<not> flag latched w
        \<and> turn_score client net q anc w \<ge> max (INTENT_THRESHOLDS w) FLOOR_THRESHOLD
        \<and> (\<forall>c. flag actives c \<and> \<not> flag latched c \<longrightarrow> turn_score client net q anc c \<le> turn_score client net q anc w))"
proof -
  obtain scores anc1 where sc: "score_all client net q connectors anc = (scores, anc1)"
    by (cases "score_all client net q connectors anc")
  note cand = set_candidates [of _ _ actives latched client net q anc, unfolded sc fst_conv]
  show ?thesis
  proof (cases "arg_best (candidates actives latched scores)")
    case None
    then show ?thesis by (simp add: out_def resolve_connector_latches_def sc Let_def)
  next
    case (Some b)
    obtain w s where b: "b = (w, s)" by (cases b)
    note best = arg_best_Some [OF Some [unfolded b]]
    have w: "flag actives w" "\<not> flag latched w" "s = turn_score client net q anc w"
      using best(1) cand [of w s] by auto
    have "turn_score client net q anc c \<le> s" if "flag actives c \<and> \<not> flag latched c" for c
      using best(2) [of "(c, turn_score client net q anc c)"] cand [of c] that by auto
    then show ?thesis
      using w Some by (auto simp: out_def resolve_connector_latches_def sc Let_def b)
  qed
qed

text \<open>
  C19. One request switches on at most one connector: the latches after a turn are those before it,
  or those before it and one more, of a connected connector that was not latched, whose score
  reaches both its own threshold and the global floor and is the largest among the connectors that
  could have been latched. Latches of the session are never taken away by a turn.
\<close>

theorem single_winner:
  "(lo_latched (resolve_connector_latches cfg ls client net actives latched conv q anc r) = latched
    \<or> (\<exists>w. lo_latched (resolve_connector_latches cfg ls client net actives latched conv q anc r) = dset latched w True
        \<and> flag actives w \<and> \<not> flag latched w
        \<and> turn_score client net q anc w \<ge> max (INTENT_THRESHOLDS w) FLOOR_THRESHOLD
        \<and> (\<forall>c. flag actives c \<and> \<not> flag latched c \<longrightarrow> turn_score client net q anc c \<le> turn_score client net q anc w)))
   \<and> (\<forall>c. flag latched c \<longrightarrow>
        flag (lo_latched (resolve_connector_latches cfg ls client net actives latched conv q anc r)) c)"
proof
  show "lo_latched (resolve_connector_latches cfg ls client net actives latched conv q anc r) = latched
    \<or> (\<exists>w. lo_latched (resolve_connector_latches cfg ls client net actives latched conv q anc r) = dset latched w True
        \<and> flag actives w \<and> \<not> flag latched w
        \<and> turn_score client net q anc w \<ge> max (INTENT_THRESHOLDS w) FLOOR_THRESHOLD
        \<and> (\<forall>c. flag actives c \<and> \<not> flag latched c \<longrightarrow> turn_score client net q anc c \<le> turn_score client net q anc w))"
    by (rule latched_outcome)
  then show "\<forall>c. flag latched c \<longrightarrow>
        flag (lo_latched (resolve_connector_latches cfg ls client net actives latched conv q anc r)) c"
    by (auto simp: flag_def dget_dset)
qed

definition sample_latches :: "unit latch_store" where
  "sample_latches = \<lparr>ls_exists = \<lambda>_ _. Inr False, ls_expire = \<lambda>r _ _. Inr r, ls_set = \<lambda>r _ _. Inr r\<rparr>"

definition sample_anchors :: anchors where
  "sample_anchors = [(Drive, Some [[1, 0]]), (Calendar, Some [[0, 1]]), (Gmail, Some [[0, 1]])]"

definition sample_turn :: "flags" where
  "sample_turn =
     lo_latched (resolve_connector_latches default_config sample_latches True (\<lambda>_ _ _ _. EmbedOther)
       [(Drive, True), (Calendar, True), (Gmail, True)] [(Drive, False), (Calendar, False), (Gmail, True)]
       (Some ''c1'') (Some [2, 0]) sample_anchors ())"

theorem single_winner_witness:
  "sample_turn \<noteq> [(Drive, False), (Calendar, False), (Gmail, True)]
   \<and> (\<exists>w. sample_turn = dset [(Drive, False), (Calendar, False), (Gmail, True)] w True
        \<and> turn_score True (\<lambda>_ _ _ _. EmbedOther) (Some [2, 0]) sample_anchors w \<ge> max (INTENT_THRESHOLDS w) FLOOR_THRESHOLD)
   \<and> flag sample_turn Gmail"
proof -
  have changed: "sample_turn \<noteq> [(Drive, False), (Calendar, False), (Gmail, True)]"
    by (simp add: sample_turn_def resolve_connector_latches_def sample_anchors_def connectors_def intent_score_def
        get_anchors_def anchors_of_def dget_def normalize_vec_def norm_of_def dot_def candidates_def flag_def
        dset_def FLOOR_THRESHOLD_def)
  show ?thesis
    using changed single_winner [of default_config sample_latches True "\<lambda>_ _ _ _. EmbedOther"
        "[(Drive, True), (Calendar, True), (Gmail, True)]" "[(Drive, False), (Calendar, False), (Gmail, True)]"
        "Some ''c1''" "Some [2, 0]" sample_anchors "()"]
    unfolding sample_turn_def [symmetric] by (auto simp: flag_def dget_Cons)
qed

text \<open>
  A turn whose message could not be embedded scores nothing: no connector is switched on, and no
  anchor set is built.
\<close>

lemma no_embedding_no_latch:
  assumes "q = None \<or> q = Some []"
  shows "lo_latched (resolve_connector_latches cfg ls client net actives latched conv q anc r) = latched
    \<and> lo_anchors (resolve_connector_latches cfg ls client net actives latched conv q anc r) = anc"
proof -
  have zero: "turn_score client net q anc c = 0" for c
    unfolding turn_score_def score_all_no_embedding [OF assms] fst_conv
    by (cases c) (simp_all add: connectors_def dget_def)
  have "0 < max (INTENT_THRESHOLDS w) FLOOR_THRESHOLD" for w
    by (simp add: FLOOR_THRESHOLD_def)
  then have "lo_latched (resolve_connector_latches cfg ls client net actives latched conv q anc r) = latched"
    using latched_outcome [of cfg ls client net actives latched conv q anc r] by (auto simp: zero not_le [symmetric])
  then show ?thesis
    using score_all_no_embedding [OF assms, of client net connectors anc]
    by (auto simp: resolve_connector_latches_def Let_def split: option.splits)
qed

end
