(* ===== verification/Tool_Schemas.thy ===== *)
theory Tool_Schemas
  imports Settings
begin

text \<open>
  \<^verbatim>\<open>backend/llm/tools/schemas.py\<close>: the schemas of the tools as they are sent to the model. The dots
  of one description are outside the alphabet; one character stands in for them.
\<close>

abbreviation ellipsis :: string where
  "ellipsis \<equiv> [CHR 0x80]"

definition tool_schema :: "string \<Rightarrow> string \<Rightarrow> pydict \<Rightarrow> string list \<Rightarrow> pyval" where
  "tool_schema name description props required =
     PDict [(''type'', PStr ''function''),
            (''function'', PDict
              [(''name'', PStr name), (''description'', PStr description),
               (''parameters'', PDict [(''type'', PStr ''object''), (''properties'', PDict props),
                                       (''required'', PList (map PStr required))])])]"

definition TOOL_SCHEMAS :: "pyval list" where
  "TOOL_SCHEMAS =
     [tool_schema ''list_files''
        ''List all files attached to the current conversation with their IDs.''
        []
        [],
      tool_schema ''read_file''
        ''Read the full text content of a file by its ID.''
        [(''file_id'', PDict [(''type'', PStr ''string''), (''description'', PStr ''UUID of the file to read.'')])]
        [''file_id''],
      tool_schema ''write_file''
        (''Overwrite a file with COMPLETE new content. WARNING: this replaces the ENTIRE file '' @ em_dash @ '' any content not included is permanently lost. NEVER use this for partial updates or section edits '' @ em_dash @ '' use patch_file instead. ALWAYS call read_file first to get the full current content, then rewrite it in full. Only use write_file when you intend to replace everything.'')
        [(''file_id'', PDict [(''type'', PStr ''string''), (''description'', PStr ''UUID of the file to update.'')]),
         (''content'', PDict [(''type'', PStr ''string''), (''description'', PStr ''New full text content of the file.'')])]
        [''file_id'', ''content''],
      tool_schema ''create_file''
        ''Create a new text file and attach it to the conversation.''
        [(''name'', PDict [(''type'', PStr ''string''), (''description'', PStr ''Filename (e.g. notes.txt).'')]),
         (''content'', PDict [(''type'', PStr ''string''), (''description'', PStr ''Text content of the new file.'')])]
        [''name'', ''content''],
      tool_schema ''append_to_file''
        (''Append text to the end of a file without touching existing content. ONLY use when the user explicitly asks to add, append, or write something INTO the file. NEVER use to answer questions '' @ em_dash @ '' if asked to '' @ [CHR 0x27] @ ''list'' @ [CHR 0x27] @ '', '' @ [CHR 0x27] @ ''show'' @ [CHR 0x27] @ '', '' @ [CHR 0x27] @ ''explain'' @ [CHR 0x27] @ '', '' @ [CHR 0x27] @ ''summarize'' @ [CHR 0x27] @ '', or '' @ [CHR 0x27] @ ''describe'' @ [CHR 0x27] @ '' content, respond in chat text instead.'')
        [(''file_id'', PDict [(''type'', PStr ''string''), (''description'', PStr ''UUID of the file to append to.'')]),
         (''content'', PDict [(''type'', PStr ''string''), (''description'', PStr ''Text to append at the end of the file.'')])]
        [''file_id'', ''content''],
      tool_schema ''patch_file''
        (''Replace a specific passage in a file with new text. Safer than write_file '' @ em_dash @ '' only changes the matched section, preserves everything else. Use when editing or rewriting a specific part.'')
        [(''file_id'', PDict [(''type'', PStr ''string''), (''description'', PStr ''UUID of the file to patch.'')]),
         (''old_text'', PDict [(''type'', PStr ''string''), (''description'', PStr ''Exact text to find and replace (must match the file exactly).'')]),
         (''new_text'', PDict [(''type'', PStr ''string''), (''description'', PStr ''Replacement text.'')])]
        [''file_id'', ''old_text'', ''new_text''],
      tool_schema ''search_in_file''
        ''Semantic search within a specific file. Returns top matching passages.''
        [(''file_id'', PDict [(''type'', PStr ''string''), (''description'', PStr ''UUID of the file to search.'')]),
         (''query'', PDict [(''type'', PStr ''string''), (''description'', PStr ''Search query.'')])]
        [''file_id'', ''query''],
      tool_schema ''search_across_files''
        (''Semantic search across ALL files attached to the conversation at once. Use when you don'' @ [CHR 0x27] @ ''t know which file contains the information, or when synthesizing across multiple files.'')
        [(''query'', PDict [(''type'', PStr ''string''), (''description'', PStr ''Search query.'')])]
        [''query''],
      tool_schema ''ask_user''
        (''Ask the user a clarifying question before proceeding with a destructive operation (write_file, patch_file, create_file). Use when the user'' @ [CHR 0x27] @ ''s intent is ambiguous or the edit could cause irreversible data loss. Calling this tool ends the current operation '' @ em_dash @ '' the user'' @ [CHR 0x27] @ ''s reply will be the next message.'')
        [(''question'', PDict [(''type'', PStr ''string''), (''description'', PStr ''The clarifying question to ask the user.'')])]
        [''question''],
      tool_schema ''query_graph''
        (''Search the user'' @ [CHR 0x27] @ ''s knowledge graph for entities and relationships related to a topic, person, or concept.'')
        [(''query'', PDict [(''type'', PStr ''string''), (''description'', PStr ''Topic, person, or concept to search for.'')])]
        [''query'']]"

definition WEB_SEARCH_TOOL_SCHEMA :: "pyval list" where
  "WEB_SEARCH_TOOL_SCHEMA =
     [tool_schema ''web_search''
        ''Search the web for current, live information. Use when the user asks about recent events, news, current prices, weather, scores, or anything that may have changed after your training cutoff.''
        [(''query'', PDict [(''type'', PStr ''string''), (''description'', PStr ''Search query'')])]
        [''query'']]"

definition FETCH_URL_TOOL_SCHEMA :: "pyval list" where
  "FETCH_URL_TOOL_SCHEMA =
     [tool_schema ''fetch_url''
        ''Fetch and read the full text content of a web page at a given URL. Use when the user provides a URL to read, summarize, or analyze.''
        [(''url'', PDict [(''type'', PStr ''string''), (''description'', PStr ''The full URL to fetch (must start with http:// or https://).'')])]
        [''url'']]"

definition DRIVE_TOOL_SCHEMAS :: "pyval list" where
  "DRIVE_TOOL_SCHEMAS =
     [tool_schema ''drive_list_files''
        (''List files in the user'' @ [CHR 0x27] @ ''s Google Drive. The optional query filters by file NAME or type (e.g. '' @ [CHR 0x27] @ ''name contains goal'' @ [CHR 0x27] @ '') '' @ em_dash @ '' it is NOT a content search. For content search use drive_search. After listing, call drive_read_file ONLY for files directly relevant to the user'' @ [CHR 0x27] @ ''s request '' @ em_dash @ '' do NOT read every file in the list.'')
        [(''query'', PDict [(''type'', PStr ''string''), (''description'', PStr (''Optional Drive API name/type filter (e.g. \"name contains '' @ [CHR 0x27] @ ''goal'' @ [CHR 0x27] @ ''\")''))])]
        [],
      tool_schema ''drive_read_file''
        (''Read the full content of a Google Drive file. Accepts the file'' @ [CHR 0x27] @ ''s Drive ID, OR '' @ em_dash @ '' if files were already listed or searched earlier in this conversation '' @ em_dash @ '' the exact file NAME (the system resolves the name to its ID). When the user names a file to read, call this DIRECTLY with that name; do NOT call drive_list_files again just to obtain an ID you can already resolve. ONLY call this when the user explicitly names or requests a specific file to read.'')
        [(''file_id'', PDict [(''type'', PStr ''string''), (''description'', PStr ''The Drive file ID, or the exact file name from a prior listing/search in this conversation'')])]
        [''file_id''],
      tool_schema ''drive_search''
        (''Search Google Drive for files containing specific content or matching a name. Use this when you need to find files by what they contain. After searching, call drive_read_file ONLY for files directly relevant to the user'' @ [CHR 0x27] @ ''s request.'')
        [(''query'', PDict [(''type'', PStr ''string''), (''description'', PStr ''What to search for in file content or names'')])]
        [''query'']]"

definition CALENDAR_TOOL_SCHEMAS :: "pyval list" where
  "CALENDAR_TOOL_SCHEMAS =
     [tool_schema ''calendar_list_events''
        (''List upcoming events from the user'' @ [CHR 0x27] @ ''s primary Google Calendar. Optional timeMin/timeMax filter by ISO 8601 timestamp. Defaults to showing events from now onwards.'')
        [(''time_min'', PDict [(''type'', PStr ''string''), (''description'', PStr ''Optional ISO 8601 start of range (default: now)'')]),
         (''time_max'', PDict [(''type'', PStr ''string''), (''description'', PStr ''Optional ISO 8601 end of range'')]),
         (''max_results'', PDict [(''type'', PStr ''integer''), (''description'', PStr ''Max events to return (default 20)'')])]
        [],
      tool_schema ''calendar_get_event''
        ''Get full details of a specific calendar event by its ID.''
        [(''event_id'', PDict [(''type'', PStr ''string''), (''description'', PStr ''The event ID to fetch'')])]
        [''event_id''],
      tool_schema ''calendar_search_events''
        (''Search the user'' @ [CHR 0x27] @ ''s primary calendar events by keyword. Matches summary, description, location, and attendees.'')
        [(''query'', PDict [(''type'', PStr ''string''), (''description'', PStr ''Search terms'')])]
        [''query''],
      tool_schema ''calendar_create_event''
        (''Create a new event on the user'' @ [CHR 0x27] @ ''s primary calendar.'')
        [(''summary'', PDict [(''type'', PStr ''string''), (''description'', PStr ''Event title'')]),
         (''start'', PDict [(''type'', PStr ''string''), (''description'', PStr ''ISO 8601 start datetime'')]),
         (''end'', PDict [(''type'', PStr ''string''), (''description'', PStr ''ISO 8601 end datetime'')]),
         (''description'', PDict [(''type'', PStr ''string''), (''description'', PStr ''Optional event description'')]),
         (''location'', PDict [(''type'', PStr ''string''), (''description'', PStr ''Optional event location'')])]
        [''summary'', ''start'', ''end''],
      tool_schema ''calendar_update_event''
        ''Update an existing calendar event. Only provided fields are changed.''
        [(''event_id'', PDict [(''type'', PStr ''string''), (''description'', PStr ''The event ID to update'')]),
         (''summary'', PDict [(''type'', PStr ''string''), (''description'', PStr ''Optional new title'')]),
         (''start'', PDict [(''type'', PStr ''string''), (''description'', PStr ''Optional ISO 8601 start datetime'')]),
         (''end'', PDict [(''type'', PStr ''string''), (''description'', PStr ''Optional ISO 8601 end datetime'')]),
         (''description'', PDict [(''type'', PStr ''string''), (''description'', PStr ''Optional new description'')]),
         (''location'', PDict [(''type'', PStr ''string''), (''description'', PStr ''Optional new location'')])]
        [''event_id''],
      tool_schema ''calendar_delete_event''
        (''Delete an event from the user'' @ [CHR 0x27] @ ''s primary calendar.'')
        [(''event_id'', PDict [(''type'', PStr ''string''), (''description'', PStr ''The event ID to delete'')])]
        [''event_id'']]"

definition GMAIL_TOOL_SCHEMAS :: "pyval list" where
  "GMAIL_TOOL_SCHEMAS =
     [tool_schema ''gmail_list_messages''
        (''List recent messages from the user'' @ [CHR 0x27] @ ''s Gmail inbox. Returns message previews (subject, sender, date, snippet). To read the full content of a specific message, use gmail_get_message with its ID.'')
        [(''max_results'', PDict [(''type'', PStr ''integer''), (''description'', PStr ''Max messages to list (default 20)'')])]
        [],
      tool_schema ''gmail_get_message''
        ''Read the full content of a specific Gmail message by its ID. Returns the complete email body (subject, from, date, and text content).''
        [(''message_id'', PDict [(''type'', PStr ''string''), (''description'', PStr ''The Gmail message ID to retrieve'')])]
        [''message_id''],
      tool_schema ''gmail_search_messages''
        (''Search the user'' @ [CHR 0x27] @ ''s Gmail inbox for messages matching a query. Supports Gmail search operators (e.g. '' @ [CHR 0x27] @ ''from:user@example.com'' @ [CHR 0x27] @ '', '' @ [CHR 0x27] @ ''subject:meeting'' @ [CHR 0x27] @ '', '' @ [CHR 0x27] @ ''has:attachment'' @ [CHR 0x27] @ ''). Returns matching message previews. Use gmail_get_message to read the full content.'')
        [(''query'', PDict [(''type'', PStr ''string''), (''description'', PStr ''Search query (supports Gmail operators)'')]),
         (''max_results'', PDict [(''type'', PStr ''integer''), (''description'', PStr ''Max results to return (default 10)'')])]
        [''query'']]"

definition WRITE_MEMORY_SCHEMA :: pyval where
  "WRITE_MEMORY_SCHEMA =
     tool_schema ''write_memory''
        (''Propose saving a significant, durable fact about the user to long-term memory. This is a RARE action. Default to NOT calling it. ONLY call this when the user'' @ [CHR 0x27] @ ''s latest message is a direct instruction to save/remember '' @ em_dash @ '' containing an explicit imperative like '' @ [CHR 0x27] @ ''remember that'' @ ellipsis @ [CHR 0x27] @ '', '' @ [CHR 0x27] @ ''save this to memory'' @ [CHR 0x27] @ '', '' @ [CHR 0x27] @ ''store'' @ ellipsis @ [CHR 0x27] @ '', '' @ [CHR 0x27] @ ''keep in memory'' @ [CHR 0x27] @ ''. NEVER call this when answering a question, searching the web, reading or summarizing a file, performing any other task, or when the user merely states a fact in passing. Examples '' @ em_dash @ '' CALL: '' @ [CHR 0x27] @ ''Remember that my dog'' @ [CHR 0x27] @ ''s name is Rex.'' @ [CHR 0x27] @ '' / '' @ [CHR 0x27] @ ''Save my address to memory.'' @ [CHR 0x27] @ '' DO NOT CALL: '' @ [CHR 0x27] @ ''What'' @ [CHR 0x27] @ ''s the weather?'' @ [CHR 0x27] @ '' / '' @ [CHR 0x27] @ ''Search the web for X.'' @ [CHR 0x27] @ '' / '' @ [CHR 0x27] @ ''My meeting is at 3pm.'' @ [CHR 0x27] @ '' (a passing statement, no save instruction). If the user did not explicitly tell you to save something, do not call this tool '' @ em_dash @ '' answer in text instead.'')
        [(''fact'', PDict [(''type'', PStr ''string''), (''description'', PStr ''The fact about the user to record.'')])]
        [''fact'']"

text \<open>\<^verbatim>\<open>s["function"]["name"]\<close>.\<close>

definition schema_name :: "pyval \<Rightarrow> string result" where
  "schema_name s =
     (case s of
        PDict d \<Rightarrow>
          (case dget d ''function'' of
             None \<Rightarrow> Inl (KeyError ''function'')
           | Some (PDict f) \<Rightarrow>
               (case dget f ''name'' of
                  None \<Rightarrow> Inl (KeyError ''name'')
                | Some (PStr n) \<Rightarrow> Inr n
                | Some _ \<Rightarrow> Inl (TypeError ''name''))
           | Some _ \<Rightarrow> Inl (TypeError ''function''))
      | _ \<Rightarrow> Inl (TypeError ''schema''))"

definition all_schemas :: "pyval list" where
  "all_schemas = TOOL_SCHEMAS @ WEB_SEARCH_TOOL_SCHEMA @ FETCH_URL_TOOL_SCHEMA @ DRIVE_TOOL_SCHEMAS
     @ CALENDAR_TOOL_SCHEMAS @ GMAIL_TOOL_SCHEMAS @ [WRITE_MEMORY_SCHEMA]"

definition SCHEMA_BY_NAME :: "(string \<times> pyval) list" where
  "SCHEMA_BY_NAME =
     fold (\<lambda>s d. case schema_name s of Inr n \<Rightarrow> dset d n s | Inl _ \<Rightarrow> d) all_schemas []"

lemma schema_name_tool [simp]: "schema_name (tool_schema n d p r) = Inr n"
  by (simp add: schema_name_def tool_schema_def dget_def)

text \<open>Every schema is found under its own name.\<close>

lemma by_name_fold:
  assumes "\<And>n s. dget d n = Some s \<Longrightarrow> schema_name s = Inr n"
    and "dget (fold (\<lambda>s d. case schema_name s of Inr n \<Rightarrow> dset d n s | Inl _ \<Rightarrow> d) ss d) n = Some s"
  shows "schema_name s = Inr n"
  using assms
proof (induction ss arbitrary: d)
  case (Cons a ss)
  show ?case
  proof (rule Cons.IH)
    show "schema_name s' = Inr n'"
      if "dget (case schema_name a of Inr n \<Rightarrow> dset d n a | Inl _ \<Rightarrow> d) n' = Some s'" for n' s'
      using that Cons.prems(1) by (auto simp: dget_dset split: sum.splits if_splits)
    show "dget (fold (\<lambda>s d. case schema_name s of Inr n \<Rightarrow> dset d n s | Inl _ \<Rightarrow> d) ss
        (case schema_name a of Inr n \<Rightarrow> dset d n a | Inl _ \<Rightarrow> d)) n = Some s"
      using Cons.prems(2) by simp
  qed
qed simp

lemma SCHEMA_BY_NAME_name: "dget SCHEMA_BY_NAME n = Some s \<Longrightarrow> schema_name s = Inr n"
  unfolding SCHEMA_BY_NAME_def by (rule by_name_fold [of "[]"]) simp_all

definition schema_names :: "string list" where
  "schema_names = map (\<lambda>s. case schema_name s of Inr n \<Rightarrow> n | Inl _ \<Rightarrow> []) all_schemas"

lemma schema_names_eq:
  "schema_names =
    [''list_files'', ''read_file'', ''write_file'', ''create_file'', ''append_to_file'', ''patch_file'',
     ''search_in_file'', ''search_across_files'', ''ask_user'', ''query_graph'', ''web_search'', ''fetch_url'',
     ''drive_list_files'', ''drive_read_file'', ''drive_search'', ''calendar_list_events'', ''calendar_get_event'',
     ''calendar_search_events'', ''calendar_create_event'', ''calendar_update_event'', ''calendar_delete_event'',
     ''gmail_list_messages'', ''gmail_get_message'', ''gmail_search_messages'', ''write_memory'']"
  by (simp add: schema_names_def all_schemas_def TOOL_SCHEMAS_def WEB_SEARCH_TOOL_SCHEMA_def FETCH_URL_TOOL_SCHEMA_def
      DRIVE_TOOL_SCHEMAS_def CALENDAR_TOOL_SCHEMAS_def GMAIL_TOOL_SCHEMAS_def WRITE_MEMORY_SCHEMA_def
      del: append.simps)

end
