(* ===== verification/Tool_Registry.thy ===== *)
theory Tool_Registry
  imports Tool_Schemas Context_Budget
begin

text \<open>
  \<^verbatim>\<open>backend/llm/tools/\<close>: the tool object and its context (\<^verbatim>\<open>base.py\<close>, \<^verbatim>\<open>context_types.py\<close>), the
  registry with the envelope around every tool call (\<^verbatim>\<open>registry.py\<close>, \<^verbatim>\<open>executor.py\<close>) and the
  built-in tools with the gates under which each is offered (\<^verbatim>\<open>builtin/\<close>). The state behind the
  tools (database session, files, connectors) is the type \<open>'d\<close>; the work of the tools that act on
  files, Google services, the graph or the web is an argument, as are the JSON printer and the
  printed form of a value.
\<close>

section \<open>The tool and its context\<close>

record tool_ctx =
  tc_message :: string
  tc_history :: "msg list"
  tc_db :: bool
  \<comment> \<open>whether there is a database session\<close>
  tc_user_id :: "int option"
  tc_conv_id :: "string option"
  tc_file_ids :: "string list"
  tc_is_reasoning :: bool
  tc_web_search_enabled :: bool
  tc_use_redis :: bool
  tc_drive_active :: bool
  tc_drive_cache_active :: bool
  tc_drive_latched :: bool
  tc_calendar_active :: bool
  tc_calendar_latched :: bool
  tc_gmail_active :: bool
  tc_gmail_latched :: bool

definition default_ctx :: tool_ctx where
  "default_ctx =
     \<lparr>tc_message = [], tc_history = [], tc_db = False, tc_user_id = None, tc_conv_id = None, tc_file_ids = [],
      tc_is_reasoning = False, tc_web_search_enabled = False, tc_use_redis = False, tc_drive_active = False,
      tc_drive_cache_active = False, tc_drive_latched = False, tc_calendar_active = False,
      tc_calendar_latched = False, tc_gmail_active = False, tc_gmail_latched = False\<rparr>"

record 'd tool =
  tool_name :: string
  tool_schema_of :: pyval
  tool_execute :: "pydict \<Rightarrow> tool_ctx \<Rightarrow> 'd \<Rightarrow> pyval result \<times> 'd"
  should_inject :: "tool_ctx \<Rightarrow> bool"
  requires_reasoning :: bool
  is_list_tool :: bool
  max_identical_calls :: "nat option"
  behavioral_rules :: "string option"
  post_call_system_msg :: "string option"

definition never :: "tool_ctx \<Rightarrow> bool" where
  "never ctx = False"

section \<open>The registry and the envelope\<close>

definition ASK_USER_PREFIX :: string where
  "ASK_USER_PREFIX = ''__ASK_USER__:''"

definition CONFIRM_WRITE_PREFIX :: string where
  "CONFIRM_WRITE_PREFIX = ''__CONFIRM_WRITE_MEMORY__:''"

definition CONFIRM_CALENDAR_PREFIX :: string where
  "CONFIRM_CALENDAR_PREFIX = ''__CONFIRM_CALENDAR_WRITE__:''"

type_synonym 'd registry = "(string \<times> 'd tool) list"

definition register_tool :: "'d tool \<Rightarrow> 'd registry \<Rightarrow> 'd registry" where
  "register_tool t reg = dset reg (tool_name t) t"

definition get_tool :: "'d registry \<Rightarrow> string \<Rightarrow> 'd tool option" where
  "get_tool reg name = dget reg name"

definition TOOL_PREFILTER_THRESHOLD :: nat where
  "TOOL_PREFILTER_THRESHOLD = 32"

definition select_tool_schemas :: "string \<Rightarrow> pyval list \<Rightarrow> pyval list" where
  "select_tool_schemas query schemas =
     (if length schemas \<le> TOOL_PREFILTER_THRESHOLD then schemas else schemas)"

record tool_call_log =
  tl_user_id :: "int option"
  tl_conversation_id :: "string option"
  tl_tool_name :: string
  tl_args :: pydict
  tl_result_preview :: string

text \<open>
  The two session operations of the envelope (an insert that is flushed, and the rollback), and
  the printers: \<^verbatim>\<open>json.dumps\<close>, \<^verbatim>\<open>str\<close> of a value, \<^verbatim>\<open>str\<close> of an exception.
\<close>

record 'd tool_host =
  th_log_flush :: "'d \<Rightarrow> tool_call_log \<Rightarrow> 'd result"
  th_rollback :: "'d \<Rightarrow> 'd"
  th_dumps :: "pyval \<Rightarrow> string"
  th_str :: "pyval \<Rightarrow> string"
  th_exc :: "pyexc \<Rightarrow> string"

definition sentinel :: "string \<Rightarrow> bool" where
  "sentinel result = (startswith result ASK_USER_PREFIX \<or> startswith result CONFIRM_WRITE_PREFIX
     \<or> startswith result CONFIRM_CALENDAR_PREFIX)"

definition result_text :: "'d tool_host \<Rightarrow> pyval \<Rightarrow> string" where
  "result_text th v = (case v of PNone \<Rightarrow> ''ok'' | PStr s \<Rightarrow> s | _ \<Rightarrow> th_dumps th v)"

definition call_tool :: "'d registry \<Rightarrow> 'd tool_host \<Rightarrow> string \<Rightarrow> pydict \<Rightarrow> tool_ctx \<Rightarrow> 'd \<Rightarrow> string \<times> 'd" where
  "call_tool reg th name args ctx w =
     (case dget reg name of
        None \<Rightarrow> (''Unknown tool: '' @ name, w)
      | Some tool \<Rightarrow>
          (case tool_execute tool args ctx w of
             (Inl e, w1) \<Rightarrow> (''Error: '' @ th_exc th e, w1)
           | (Inr v, w1) \<Rightarrow> (result_text th v, w1)))"

definition preview :: "string \<Rightarrow> string" where
  "preview result = (if sentinel result then result else take 500 result)"

definition run_tool :: "'d registry \<Rightarrow> 'd tool_host \<Rightarrow> string \<Rightarrow> pydict \<Rightarrow> tool_ctx \<Rightarrow> 'd \<Rightarrow> string \<times> 'd" where
  "run_tool reg th name args ctx w =
     (let (result, w1) = call_tool reg th name args ctx w in
      if tc_db ctx then
        (result,
         case th_log_flush th w1
                \<lparr>tl_user_id = tc_user_id ctx, tl_conversation_id = tc_conv_id ctx, tl_tool_name = name,
                 tl_args = args, tl_result_preview = preview result\<rparr> of
           Inr w2 \<Rightarrow> w2
         | Inl _ \<Rightarrow> th_rollback th w1)
      else (result, w1))"

definition execute_tool :: "'d registry \<Rightarrow> 'd tool_host \<Rightarrow> string \<Rightarrow> pydict \<Rightarrow> bool \<Rightarrow> int option \<Rightarrow> string option \<Rightarrow>
    'd \<Rightarrow> string \<times> 'd" where
  "execute_tool reg th name args db user_id conv_id w =
     run_tool reg th name args (default_ctx\<lparr>tc_db := db, tc_user_id := user_id, tc_conv_id := conv_id\<rparr>) w"

section \<open>The built-in tools: rules\<close>

definition DRIVE_RULES :: string where
  "DRIVE_RULES =
     ''## Google Drive access'' @
     newline @
     newline @
     ''You have Google Drive tools available this session. Having access does not mean you should use it. O'' @
     ''n most turns you should not.'' @
     newline @
     newline @
     ''Call a Drive tool ONLY when the user'' @ [CHR 0x27] @ ''s CURRENT message refers to their own files, documents, folders'' @
     '', or Drive contents '' @ em_dash @ '' explicitly or by clear implication (asking what they have, to open or find a d'' @
     ''ocument, to look something up in their files).'' @
     newline @
     newline @
     ''Do NOT call any Drive tool for:'' @
     newline @
     ''- greetings, small talk, or acknowledgements (\"hi\", \"hello?\", \"thanks\")'' @
     newline @
     ''- general questions you can answer directly'' @
     newline @
     ''- coding help, explanations, or discussion'' @
     newline @
     ''- any turn where the user has not pointed at their own files'' @
     newline @
     newline @
     ''Base the decision on the user'' @ [CHR 0x27] @ ''s CURRENT message only. A previous file listing in the conversation is'' @
     '' not a reason to call again.'' @
     newline @
     newline @
     ''When unsure whether a turn needs Drive, do not call it '' @ em_dash @ '' answer directly. A wrong file listing is wo'' @
     ''rse than a missing one; the user can always ask.'' @
     newline @
     newline @
     ''When you DO call drive_list_files and results return, present the file names concisely and stop.''"

definition POST_LISTING :: string where
  "POST_LISTING =
     ''You have the Drive file listing above. Respond NOW in plain text: present the file names and types t'' @
     ''o the user. Note any [unreadable] files. Ask which file(s) they want opened. Do NOT call any tool. D'' @
     ''o NOT call drive_list_files again.''"

definition CALENDAR_RULES :: string where
  "CALENDAR_RULES =
     ''Rules for Google Calendar tools:'' @
     newline @
     ''- After calendar_list_events: present the events to the user with their times. If the user wants det'' @
     ''ails on a specific event, call calendar_get_event with its ID.'' @
     newline @
     ''- For calendar_search_events: present matching events. If the user wants details, call calendar_get_'' @
     ''event with its ID.'' @
     newline @
     ''- For create/update/delete operations: present a clear summary of what will happen. The system will '' @
     ''show a confirmation card to the user before the change is made.'' @
     newline @
     ''- Do NOT call calendar_list_events immediately before calendar_get_event '' @ em_dash @ '' if the user names or refe'' @
     ''rences a specific event, use its ID directly.''"

definition GMAIL_RULES :: string where
  "GMAIL_RULES =
     ''Rules for Gmail tools:'' @
     newline @
     ''- After gmail_list_messages or gmail_search_messages: present the message previews (subject, sender,'' @
     '' date) to the user, then ASK which message(s) to read '' @ em_dash @ '' do NOT automatically call gmail_get_message.'' @
     newline @
     ''- When the user specifies a message by its ID or subject, call gmail_get_message with the message ID'' @
     ''.'' @
     newline @
     ''- Only call gmail_get_message when the user explicitly asks to read a specific message.'' @
     newline @
     ''- Gmail is read-only '' @ em_dash @ '' you cannot send, delete, or modify messages.''"

section \<open>The built-in tools: gates\<close>

definition file_inject :: "tool_ctx \<Rightarrow> bool" where
  "file_inject ctx = (tc_file_ids ctx \<noteq> [] \<and> tc_db ctx)"

definition inject_ask_user :: "tool_ctx \<Rightarrow> bool" where
  "inject_ask_user ctx = (tc_file_ids ctx \<noteq> [] \<and> tc_db ctx)"

definition inject_write_memory :: "tool_ctx \<Rightarrow> bool" where
  "inject_write_memory ctx =
     (if \<not> (tc_db ctx \<and> tc_is_reasoning ctx) then False else needs_memory_tool (tc_message ctx))"

definition inject_web_search :: "tool_ctx \<Rightarrow> bool" where
  "inject_web_search ctx = tc_web_search_enabled ctx"

definition has_url :: "string \<Rightarrow> bool" where
  "has_url s = (contains ''http://'' s \<or> contains ''https://'' s)"

text \<open>\<^verbatim>\<open>xs[-n:]\<close>.\<close>

definition last_n :: "nat \<Rightarrow> 'a list \<Rightarrow> 'a list" where
  "last_n n xs = drop (length xs - n) xs"

definition inject_fetch_url :: "tool_ctx \<Rightarrow> bool" where
  "inject_fetch_url ctx =
     (has_url (tc_message ctx)
      \<or> list_ex (\<lambda>turn. case m_content turn of Text s \<Rightarrow> has_url s | Parts _ \<Rightarrow> False) (last_n 6 (tc_history ctx)))"

definition drive_gate :: "tool_ctx \<Rightarrow> bool" where
  "drive_gate ctx = (tc_drive_active ctx \<and> tc_drive_latched ctx)"

definition cal_full_gate :: "tool_ctx \<Rightarrow> bool" where
  "cal_full_gate ctx = (tc_calendar_active ctx \<and> tc_calendar_latched ctx)"

definition gmail_full_gate :: "tool_ctx \<Rightarrow> bool" where
  "gmail_full_gate ctx = (tc_gmail_active ctx \<and> tc_gmail_latched ctx)"

section \<open>The built-in tools: what they do\<close>

text \<open>The arrow of the event preview is outside the alphabet; one character stands in.\<close>

abbreviation arrow :: string where
  "arrow \<equiv> [CHR 0x81]"

definition arg_text :: "'d tool_host \<Rightarrow> pydict \<Rightarrow> string \<Rightarrow> string \<Rightarrow> string" where
  "arg_text th args k dflt =
     (case dget args k of None \<Rightarrow> dflt | Some (PStr s) \<Rightarrow> s | Some v \<Rightarrow> th_str th v)"

definition exec_ask_user :: "'d tool_host \<Rightarrow> pydict \<Rightarrow> tool_ctx \<Rightarrow> 'd \<Rightarrow> pyval result \<times> 'd" where
  "exec_ask_user th args ctx w = (Inr (PStr (ASK_USER_PREFIX @ arg_text th args ''question'' [])), w)"

definition exec_write_memory :: "'d tool_host \<Rightarrow> pydict \<Rightarrow> tool_ctx \<Rightarrow> 'd \<Rightarrow> pyval result \<times> 'd" where
  "exec_write_memory th args ctx w = (Inr (PStr (CONFIRM_WRITE_PREFIX @ arg_text th args ''fact'' [])), w)"

definition confirm_calendar :: "'d tool_host \<Rightarrow> string \<Rightarrow> pydict \<Rightarrow> string \<Rightarrow> pyval" where
  "confirm_calendar th operation args summary =
     PStr (CONFIRM_CALENDAR_PREFIX
       @ th_dumps th (PDict [(''op'', PStr operation), (''args'', PDict args), (''summary'', PStr summary)]))"

definition exec_calendar_create_event :: "'d tool_host \<Rightarrow> pydict \<Rightarrow> tool_ctx \<Rightarrow> 'd \<Rightarrow> pyval result \<times> 'd" where
  "exec_calendar_create_event th args ctx w =
     (Inr (confirm_calendar th ''create'' args
        (''Create event: '' @ arg_text th args ''summary'' [] @ '' ('' @ arg_text th args ''start'' [] @ '' '' @ arrow
         @ '' '' @ arg_text th args ''end'' [] @ '')'')), w)"

definition exec_calendar_update_event :: "'d tool_host \<Rightarrow> pydict \<Rightarrow> tool_ctx \<Rightarrow> 'd \<Rightarrow> pyval result \<times> 'd" where
  "exec_calendar_update_event th args ctx w =
     (case dget args ''event_id'' of
        None \<Rightarrow> (Inl (KeyError ''event_id''), w)
      | Some _ \<Rightarrow>
          (Inr (confirm_calendar th ''update'' args
             (''Update event '' @ arg_text th args ''event_id'' [] @ '': ''
              @ arg_text th args ''summary'' ''(no title change)'')), w))"

definition exec_calendar_delete_event :: "'d tool_host \<Rightarrow> pydict \<Rightarrow> tool_ctx \<Rightarrow> 'd \<Rightarrow> pyval result \<times> 'd" where
  "exec_calendar_delete_event th args ctx w =
     (case dget args ''event_id'' of
        None \<Rightarrow> (Inl (KeyError ''event_id''), w)
      | Some _ \<Rightarrow>
          (Inr (confirm_calendar th ''delete'' args (''Delete event: '' @ arg_text th args ''event_id'' [])), w))"

text \<open>The web search provider is an argument: title, URL and snippet of each hit, or an exception.\<close>

definition exec_web_search :: "(string \<Rightarrow> (string \<times> string \<times> string) list result) \<Rightarrow>
    pydict \<Rightarrow> tool_ctx \<Rightarrow> 'd \<Rightarrow> pyval result \<times> 'd" where
  "exec_web_search search args ctx w =
     (case (case dget args ''query'' of None \<Rightarrow> PStr [] | Some v \<Rightarrow> v) of
        PStr q \<Rightarrow>
          (if strip q = [] then (Inr (PStr ''Error: query must not be empty.''), w)
           else case search (strip q) of
             Inl e \<Rightarrow> (Inl e, w)
           | Inr results \<Rightarrow>
               let lines = map (\<lambda>(i, title, url, snippet). ''['' @ nat_str (i + 1) @ ''] '' @ title @ newline @ url @ newline @ snippet)
                             (enumerate 0 results)
               in (Inr (PStr (if lines \<noteq> [] then join (newline @ newline) lines else ''No results found.'')), w))
      | _ \<Rightarrow> (Inl (AttributeError ''strip''), w))"

section \<open>The built-in tools: registration\<close>

definition schema_for :: "string \<Rightarrow> pyval" where
  "schema_for name = (case dget SCHEMA_BY_NAME name of Some s \<Rightarrow> s | None \<Rightarrow> PNone)"

definition plain_tool :: "string \<Rightarrow> (pydict \<Rightarrow> tool_ctx \<Rightarrow> 'd \<Rightarrow> pyval result \<times> 'd) \<Rightarrow> (tool_ctx \<Rightarrow> bool) \<Rightarrow> 'd tool" where
  "plain_tool name run gate =
     \<lparr>tool_name = name, tool_schema_of = schema_for name, tool_execute = run, should_inject = gate,
      requires_reasoning = False, is_list_tool = False, max_identical_calls = None, behavioral_rules = None,
      post_call_system_msg = None\<rparr>"

definition list_tool :: "'d tool \<Rightarrow> 'd tool" where
  "list_tool t = t\<lparr>is_list_tool := True, max_identical_calls := Some 1\<rparr>"

record 'd tool_impls =
  ti_host :: "'d tool_host"
  ti_search :: "string \<Rightarrow> (string \<times> string \<times> string) list result"
  ti_run :: "string \<Rightarrow> pydict \<Rightarrow> tool_ctx \<Rightarrow> 'd \<Rightarrow> pyval result \<times> 'd"

definition file_tools :: "'d tool_impls \<Rightarrow> 'd tool list" where
  "file_tools ti =
     map (\<lambda>n. let t = plain_tool n (ti_run ti n) file_inject in if n = ''list_files'' then list_tool t else t)
       [''list_files'', ''read_file'', ''write_file'', ''create_file'', ''append_to_file'', ''patch_file'',
        ''search_in_file'', ''search_across_files'', ''query_graph'']"

definition memory_tools :: "'d tool_impls \<Rightarrow> 'd tool list" where
  "memory_tools ti =
     [plain_tool ''ask_user'' (exec_ask_user (ti_host ti)) inject_ask_user,
      (plain_tool ''write_memory'' (exec_write_memory (ti_host ti)) inject_write_memory)\<lparr>requires_reasoning := True\<rparr>]"

definition web_tools :: "'d tool_impls \<Rightarrow> 'd tool list" where
  "web_tools ti =
     [plain_tool ''web_search'' (exec_web_search (ti_search ti)) inject_web_search,
      plain_tool ''fetch_url'' (ti_run ti ''fetch_url'') inject_fetch_url]"

definition drive_tool :: "'d tool_impls \<Rightarrow> string \<Rightarrow> 'd tool" where
  "drive_tool ti n = (plain_tool n (ti_run ti n) drive_gate)\<lparr>behavioral_rules := Some DRIVE_RULES\<rparr>"

definition drive_tools :: "'d tool_impls \<Rightarrow> 'd tool list" where
  "drive_tools ti =
     [(list_tool (drive_tool ti ''drive_list_files''))\<lparr>post_call_system_msg := Some POST_LISTING\<rparr>,
      drive_tool ti ''drive_read_file'',
      (list_tool (drive_tool ti ''drive_search''))\<lparr>post_call_system_msg := Some POST_LISTING\<rparr>]"

definition calendar_tool :: "string \<Rightarrow> (pydict \<Rightarrow> tool_ctx \<Rightarrow> 'd \<Rightarrow> pyval result \<times> 'd) \<Rightarrow> 'd tool" where
  "calendar_tool n run = (plain_tool n run cal_full_gate)\<lparr>behavioral_rules := Some CALENDAR_RULES\<rparr>"

definition calendar_tools :: "'d tool_impls \<Rightarrow> 'd tool list" where
  "calendar_tools ti =
     [list_tool (calendar_tool ''calendar_list_events'' (ti_run ti ''calendar_list_events'')),
      calendar_tool ''calendar_get_event'' (ti_run ti ''calendar_get_event''),
      list_tool (calendar_tool ''calendar_search_events'' (ti_run ti ''calendar_search_events'')),
      (calendar_tool ''calendar_create_event'' (exec_calendar_create_event (ti_host ti)))\<lparr>requires_reasoning := True\<rparr>,
      (calendar_tool ''calendar_update_event'' (exec_calendar_update_event (ti_host ti)))\<lparr>requires_reasoning := True\<rparr>,
      (calendar_tool ''calendar_delete_event'' (exec_calendar_delete_event (ti_host ti)))\<lparr>requires_reasoning := True\<rparr>]"

definition gmail_tool :: "'d tool_impls \<Rightarrow> string \<Rightarrow> 'd tool" where
  "gmail_tool ti n = (plain_tool n (ti_run ti n) gmail_full_gate)\<lparr>behavioral_rules := Some GMAIL_RULES\<rparr>"

definition gmail_tools :: "'d tool_impls \<Rightarrow> 'd tool list" where
  "gmail_tools ti =
     [list_tool (gmail_tool ti ''gmail_list_messages''), gmail_tool ti ''gmail_get_message'',
      list_tool (gmail_tool ti ''gmail_search_messages'')]"

definition builtin_tools :: "'d tool_impls \<Rightarrow> 'd tool list" where
  "builtin_tools ti = file_tools ti @ memory_tools ti @ web_tools ti @ drive_tools ti @ calendar_tools ti @ gmail_tools ti"

definition TOOL_REGISTRY :: "'d tool_impls \<Rightarrow> 'd registry" where
  "TOOL_REGISTRY ti = fold register_tool (builtin_tools ti) []"

section \<open>The registry is well formed\<close>

lemma fold_register:
  assumes "distinct (map tool_name ts)" and "fst ` set reg \<inter> tool_name ` set ts = {}"
  shows "fold register_tool ts reg = reg @ map (\<lambda>t. (tool_name t, t)) ts"
  using assms
proof (induction ts arbitrary: reg)
  case (Cons t ts)
  have "k \<notin> fst ` set d \<Longrightarrow> AList.update k v d = d @ [(k, v)]" for k :: string and v :: "'a tool" and d
    by (induction d) auto
  with Cons.prems have "register_tool t reg = reg @ [(tool_name t, t)]"
    by (simp add: register_tool_def dset_def)
  with Cons show ?case by auto
qed simp

lemmas tool_group_defs = file_tools_def memory_tools_def web_tools_def drive_tools_def drive_tool_def
  calendar_tools_def calendar_tool_def gmail_tools_def gmail_tool_def plain_tool_def list_tool_def

definition builtin_names :: "string list" where
  "builtin_names =
     [''list_files'', ''read_file'', ''write_file'', ''create_file'', ''append_to_file'', ''patch_file'',
      ''search_in_file'', ''search_across_files'', ''query_graph'', ''ask_user'', ''write_memory'', ''web_search'',
      ''fetch_url'', ''drive_list_files'', ''drive_read_file'', ''drive_search'', ''calendar_list_events'',
      ''calendar_get_event'', ''calendar_search_events'', ''calendar_create_event'', ''calendar_update_event'',
      ''calendar_delete_event'', ''gmail_list_messages'', ''gmail_get_message'', ''gmail_search_messages'']"

lemma builtin_tool_names: "map tool_name (builtin_tools ti) = builtin_names"
  by (simp add: builtin_tools_def builtin_names_def tool_group_defs Let_def)

lemma distinct_builtin_names: "distinct builtin_names"
  by (simp add: builtin_names_def)

lemma TOOL_REGISTRY_eq: "TOOL_REGISTRY ti = map (\<lambda>t. (tool_name t, t)) (builtin_tools ti)"
  unfolding TOOL_REGISTRY_def by (simp add: fold_register builtin_tool_names distinct_builtin_names)

lemma by_name_found:
  "n \<in> set (map (\<lambda>s. case schema_name s of Inr n \<Rightarrow> n | Inl _ \<Rightarrow> []) ss) \<or> dget d n \<noteq> None \<Longrightarrow>
   list_all (\<lambda>s. \<not> isl (schema_name s)) ss \<Longrightarrow>
   dget (fold (\<lambda>s d. case schema_name s of Inr n \<Rightarrow> dset d n s | Inl _ \<Rightarrow> d) ss d) n \<noteq> None"
  by (induction ss arbitrary: d) (auto simp: dget_dset split: sum.splits)

lemma all_schemas_named: "list_all (\<lambda>s. \<not> isl (schema_name s)) all_schemas"
  by (simp add: all_schemas_def TOOL_SCHEMAS_def WEB_SEARCH_TOOL_SCHEMA_def FETCH_URL_TOOL_SCHEMA_def
      DRIVE_TOOL_SCHEMAS_def CALENDAR_TOOL_SCHEMAS_def GMAIL_TOOL_SCHEMAS_def WRITE_MEMORY_SCHEMA_def)

lemma schema_for_name: "n \<in> set builtin_names \<Longrightarrow> schema_name (schema_for n) = Inr n"
proof -
  assume "n \<in> set builtin_names"
  then have "n \<in> set schema_names" by (auto simp: builtin_names_def schema_names_eq)
  then have "dget SCHEMA_BY_NAME n \<noteq> None"
    unfolding SCHEMA_BY_NAME_def schema_names_def by (intro by_name_found all_schemas_named) simp
  then show ?thesis by (auto simp: schema_for_def dest: SCHEMA_BY_NAME_name)
qed

lemma builtin_schema: "list_all (\<lambda>t. tool_schema_of t = schema_for (tool_name t)) (builtin_tools ti)"
  by (simp add: builtin_tools_def tool_group_defs Let_def)

text \<open>The tools that stop after one identical call, and those marked as tools of the reasoning model.\<close>

definition listing_names :: "string list" where
  "listing_names =
     [''list_files'', ''drive_list_files'', ''drive_search'', ''calendar_list_events'', ''calendar_search_events'',
      ''gmail_list_messages'', ''gmail_search_messages'']"

definition reasoning_names :: "string list" where
  "reasoning_names = [''write_memory'', ''calendar_create_event'', ''calendar_update_event'', ''calendar_delete_event'']"

lemma builtin_limits:
  "list_all (\<lambda>t. max_identical_calls t = (if tool_name t \<in> set listing_names then Some 1 else None)
     \<and> requires_reasoning t = (tool_name t \<in> set reasoning_names)) (builtin_tools ti)"
  by (simp add: builtin_tools_def tool_group_defs listing_names_def reasoning_names_def Let_def)

section \<open>What is offered\<close>

text \<open>The tools offered in a context, in the order of their names.\<close>

definition injected_tools :: "'d registry \<Rightarrow> tool_ctx \<Rightarrow> 'd tool list" where
  "injected_tools reg ctx = py_sort_key tool_name (filter (\<lambda>t. should_inject t ctx) (map snd reg))"

definition offered_names :: "tool_ctx \<Rightarrow> string list" where
  "offered_names ctx =
     (if tc_file_ids ctx \<noteq> [] \<and> tc_db ctx then take 10 builtin_names else [])
     @ (if tc_db ctx \<and> tc_is_reasoning ctx \<and> needs_memory_tool (tc_message ctx) then [''write_memory''] else [])
     @ (if tc_web_search_enabled ctx then [''web_search''] else [])
     @ (if inject_fetch_url ctx then [''fetch_url''] else [])
     @ (if tc_drive_active ctx \<and> tc_drive_latched ctx then take 3 (drop 13 builtin_names) else [])
     @ (if tc_calendar_active ctx \<and> tc_calendar_latched ctx then take 6 (drop 16 builtin_names) else [])
     @ (if tc_gmail_active ctx \<and> tc_gmail_latched ctx then drop 22 builtin_names else [])"

lemma filter_group:
  "list_all (\<lambda>t. should_inject t = gate) ts \<Longrightarrow> filter (\<lambda>t. should_inject t ctx) ts = (if gate ctx then ts else [])"
  by (induction ts) auto

lemma gated_groups:
  "list_all (\<lambda>t. should_inject t = file_inject) (file_tools ti)"
  "list_all (\<lambda>t. should_inject t = drive_gate) (drive_tools ti)"
  "list_all (\<lambda>t. should_inject t = cal_full_gate) (calendar_tools ti)"
  "list_all (\<lambda>t. should_inject t = gmail_full_gate) (gmail_tools ti)"
  by (simp_all add: tool_group_defs Let_def)

lemma group_names:
  "map tool_name (file_tools ti) = take 9 builtin_names"
  "map tool_name (drive_tools ti) = take 3 (drop 13 builtin_names)"
  "map tool_name (calendar_tools ti) = take 6 (drop 16 builtin_names)"
  "map tool_name (gmail_tools ti) = drop 22 builtin_names"
  by (simp_all add: tool_group_defs Let_def builtin_names_def)

lemma builtin_offered:
  "map tool_name (filter (\<lambda>t. should_inject t ctx) (builtin_tools ti)) = offered_names ctx"
proof -
  have ten: "take 10 builtin_names = take 9 builtin_names @ [''ask_user'']" by (simp add: builtin_names_def)
  have mem: "map tool_name (filter (\<lambda>t. should_inject t ctx) (memory_tools ti)) =
      (if inject_ask_user ctx then [''ask_user''] else []) @ (if inject_write_memory ctx then [''write_memory''] else [])"
    by (simp add: memory_tools_def plain_tool_def)
  have web: "map tool_name (filter (\<lambda>t. should_inject t ctx) (web_tools ti)) =
      (if inject_web_search ctx then [''web_search''] else []) @ (if inject_fetch_url ctx then [''fetch_url''] else [])"
    by (simp add: web_tools_def plain_tool_def)
  have "map tool_name (filter (\<lambda>t. should_inject t ctx) (builtin_tools ti)) =
      (if file_inject ctx then take 9 builtin_names else [])
      @ ((if inject_ask_user ctx then [''ask_user''] else []) @ (if inject_write_memory ctx then [''write_memory''] else []))
      @ ((if inject_web_search ctx then [''web_search''] else []) @ (if inject_fetch_url ctx then [''fetch_url''] else []))
      @ (if drive_gate ctx then take 3 (drop 13 builtin_names) else [])
      @ (if cal_full_gate ctx then take 6 (drop 16 builtin_names) else [])
      @ (if gmail_full_gate ctx then drop 22 builtin_names else [])"
    unfolding builtin_tools_def filter_append map_append mem web filter_group [OF gated_groups(1)]
      filter_group [OF gated_groups(2)] filter_group [OF gated_groups(3)] filter_group [OF gated_groups(4)]
    by (simp add: group_names)
  then show ?thesis
    unfolding offered_names_def ten file_inject_def inject_ask_user_def inject_write_memory_def inject_web_search_def
      drive_gate_def cal_full_gate_def gmail_full_gate_def
    by simp
qed

lemma registry_get:
  assumes "t \<in> set (builtin_tools ti)"
  shows "get_tool (TOOL_REGISTRY ti) (tool_name t) = Some t"
proof -
  have "distinct (map tool_name (builtin_tools ti))" by (simp add: builtin_tool_names distinct_builtin_names)
  then have "map_of (map (\<lambda>t. (tool_name t, t)) (builtin_tools ti)) (tool_name t) = Some t"
    using assms by (intro map_of_is_SomeI) (auto simp: comp_def)
  then show ?thesis by (simp add: get_tool_def TOOL_REGISTRY_eq dget_def)
qed

text \<open>
  C20. A turn is offered exactly the tools whose gate is open, once each and in the order of their names: the
  file tools with attached files and a session, the memory tool only on the reasoning model for a message that asks
  to remember, the web tools when configured or when a URL is in sight, the tools of a connector only when
  it is connected and latched. The name in the schema the model is given leads the dispatcher back to the very tool that was offered.
  Seven listing tools, and no others, are limited to one identical call. Four tools are marked
  as tools of the reasoning model, but only the memory tool looks at it: the three that change the calendar are offered to any model.
\<close>

theorem offered_tools_resolve:
  "let ts = injected_tools (TOOL_REGISTRY ti) ctx
   in set (map tool_name ts) = set (offered_names ctx) \<and> sorted (map tool_name ts) \<and> distinct (map tool_name ts)
      \<and> list_all (\<lambda>t. schema_name (tool_schema_of t) = Inr (tool_name t) \<and> get_tool (TOOL_REGISTRY ti) (tool_name t) = Some t
          \<and> max_identical_calls t = (if tool_name t \<in> set listing_names then Some 1 else None)
          \<and> requires_reasoning t = (tool_name t \<in> set reasoning_names)) ts
      \<and> set (offered_names (ctx\<lparr>tc_is_reasoning := False\<rparr>)) = set (offered_names ctx) - {''write_memory''}"
proof -
  let ?ts = "injected_tools (TOOL_REGISTRY ti) ctx"
  have reg: "map snd (TOOL_REGISTRY ti) = builtin_tools ti" by (simp add: TOOL_REGISTRY_eq comp_def)
  have names: "set (map tool_name ?ts) = set (offered_names ctx)"
    unfolding injected_tools_def reg builtin_offered [symmetric, of ctx ti] by simp
  have "distinct (map tool_name (builtin_tools ti))" by (simp add: builtin_tool_names distinct_builtin_names)
  then have dist: "distinct (map tool_name ?ts)" unfolding injected_tools_def reg by (simp add: distinct_map_filter)
  have sub: "t \<in> set (builtin_tools ti)" if "t \<in> set ?ts" for t using that by (simp add: injected_tools_def reg)
  have known: "tool_name t \<in> set builtin_names" if "t \<in> set (builtin_tools ti)" for t
    using that by (metis builtin_tool_names image_eqI set_map)
  have tools: "list_all (\<lambda>t. schema_name (tool_schema_of t) = Inr (tool_name t) \<and> get_tool (TOOL_REGISTRY ti) (tool_name t) = Some t
          \<and> max_identical_calls t = (if tool_name t \<in> set listing_names then Some 1 else None)
          \<and> requires_reasoning t = (tool_name t \<in> set reasoning_names)) ?ts"
    using builtin_schema [of ti] builtin_limits [of ti] sub known registry_get [of _ ti]
    by (auto simp: list_all_iff schema_for_name)
  have "inject_fetch_url (ctx\<lparr>tc_is_reasoning := False\<rparr>) = inject_fetch_url ctx" by (simp add: inject_fetch_url_def)
  then have "set (offered_names (ctx\<lparr>tc_is_reasoning := False\<rparr>)) = set (offered_names ctx) - {''write_memory''}"
    by (auto simp: offered_names_def builtin_names_def)
  then show ?thesis using names dist tools by (simp add: Let_def injected_tools_def)
qed

end
