(* ===== verification/Turn_Loop.thy ===== *)
theory Turn_Loop
  imports Intent_Router Request_Extras Nim_Client Response_Cache Tool_Registry
begin

text \<open>
  The loop of one chat turn, \<^verbatim>\<open>backend/llm/service/stream.py\<close>: the turn budget, the consumption of
  one streamed model call, the round of tool calls with its guard against repeated identical
  calls, the at most 60 tool iterations of a model, and the chain of models. Every model call is
  \<^const>\<open>call_stream\<close> of the client, on its state; clocks, HTTP replies and tool results are
  arguments. The texts of status events are left out, as are log lines and timings. A delta whose
  content is not a text yields nothing to the user. The state of the client after a stream that
  the turn itself cut off is not part of the result.
\<close>

section \<open>Events\<close>

datatype event =
    Status string string
  \<comment> \<open>stage, level\<close>
  | Token string
  | PreambleDiscard
  | ToolCall string pydict
  | ToolResult string string
  | AskUser string
  | ConfirmWriteMemory string
  | ConfirmCalendarWrite pydict
  | Done string bool bool bool bool bool string "pydict option"
  \<comment> \<open>model, cache hit, fallback used, web searched, URL fetched, Drive read, Drive file, usage\<close>
  | ErrorEvent string

fun terminal :: "event \<Rightarrow> bool" where
  "terminal (Done _ _ _ _ _ _ _ _) = True"
| "terminal (ErrorEvent _) = True"
| "terminal _ = False"

section \<open>The turn budget\<close>

definition MAX_TOOL_ITERATIONS :: nat where
  "MAX_TOOL_ITERATIONS = 60"

definition MAX_IDENTICAL_CALLS :: nat where
  "MAX_IDENTICAL_CALLS = 3"

definition check_turn_budget :: "config \<Rightarrow> real \<Rightarrow> real \<Rightarrow> nat \<Rightarrow> string option" where
  "check_turn_budget cfg turn_start now token_chars =
     (if STREAM_TURN_BUDGET cfg > 0 \<and> now - turn_start > of_int (STREAM_TURN_BUDGET cfg)
      then Some (''Response stopped '' @ em_dash @ '' turn time budget exceeded ('' @ int_str (STREAM_TURN_BUDGET cfg) @ ''s)'')
      else if STREAM_MAX_TURN_TOKENS cfg > 0 \<and> int (token_chars div 4) > STREAM_MAX_TURN_TOKENS cfg
      then Some (''Response stopped '' @ em_dash @ '' output token budget exceeded ('' @ int_str (STREAM_MAX_TURN_TOKENS cfg) @ '' tok)'')
      else None)"

section \<open>The surroundings of a turn\<close>

text \<open>
  What all turns of a process share, and what one turn meets: the \<open>k\<close>-th model call of the turn has
  the clock \<open>te_iter_clock k\<close> before it, \<open>te_wall k\<close> at it, the replies \<open>te_stream k\<close>, and the clock
  \<open>te_chunk_clock k i\<close> after its \<open>i\<close>-th chunk.
\<close>

record ('r, 'c) backend =
  be_cfg :: config
  be_catalog :: catalog_cache
  be_health :: "'r health_store"
  be_answers :: "('c, string answer_payload) answer_store"
  be_answers_up :: bool
  be_sha256 :: "string \<Rightarrow> string"
  be_client :: bool
  be_loads :: "string \<Rightarrow> pyval option"
  be_show_parts :: "pyval list \<Rightarrow> string"
  be_dumps_sorted :: "pydict \<Rightarrow> string"

record ('r, 'c, 'd) turn_env =
  te_backend :: "('r, 'c) backend"
  te_registry :: "'d registry"
  te_host :: "'d tool_host"
  te_turn_start :: real
  te_iter_clock :: "nat \<Rightarrow> real"
  te_chunk_clock :: "nat \<Rightarrow> nat \<Rightarrow> real"
  te_wall :: "nat \<Rightarrow> real"
  te_stream :: "nat \<Rightarrow> nat \<Rightarrow> stream_env"
  te_write_clock :: real

text \<open>The request as the loop sees it.\<close>

record turn_request =
  tr_db :: bool
  tr_user_id :: "int option"
  tr_conv_id :: "string option"
  tr_params :: "pydict option"
  tr_saliences :: saliences
  tr_tools :: "pyval list option"
  tr_use_cache :: bool
  tr_message :: string
  tr_cache_model :: string
  tr_history_tail :: string
  tr_cache_sysprompt :: string

record model_call =
  lc_model :: string
  lc_messages :: "msg list"
  lc_params :: pydict
  lc_tools :: "pyval list option"

record ('r, 'c, 'd) run =
  rn_events :: "event list"
  rn_calls :: "model_call list"
  rn_tokens :: nat
  rn_nim :: "'r nim_state"
  rn_answers :: "('c, string answer_payload) answer_cache"
  rn_world :: 'd

definition emit :: "event list \<Rightarrow> ('r, 'c, 'd) run \<Rightarrow> ('r, 'c, 'd) run" where
  "emit es run = run\<lparr>rn_events := rn_events run @ es\<rparr>"

section \<open>Reading one streamed call\<close>

record consumed =
  co_events :: "event list"
  co_accumulated :: "string list"
  co_calls :: "(string \<times> string \<times> string) list"
  co_usage :: "pydict option"
  co_reason :: "string option"
  co_tokens :: nat

definition connection_budget_text :: "config \<Rightarrow> string" where
  "connection_budget_text cfg =
     ''Response stopped '' @ em_dash @ '' connection time budget exceeded ('' @ int_str (STREAM_TOTAL_TIMEOUT cfg) @ ''s)''"

fun consume :: "config \<Rightarrow> real \<Rightarrow> (nat \<Rightarrow> real) \<Rightarrow> nat \<Rightarrow> chunk list \<Rightarrow> consumed \<Rightarrow> consumed" where
  "consume cfg turn_start clock i [] c = c"
| "consume cfg turn_start clock i (ch # chs) c =
     (case ch of
        BudgetExceeded \<Rightarrow> c\<lparr>co_reason := Some (connection_budget_text cfg)\<rparr>
      | ToolCalls tcs \<Rightarrow> consume cfg turn_start clock (Suc i) chs (c\<lparr>co_calls := tcs\<rparr>)
      | Usage u \<Rightarrow> consume cfg turn_start clock (Suc i) chs (c\<lparr>co_usage := Some u\<rparr>)
      | Content v \<Rightarrow>
          (case v of
             PStr s \<Rightarrow>
               let c1 = c\<lparr>co_events := co_events c @ [Token s], co_accumulated := co_accumulated c @ [s],
                          co_tokens := co_tokens c + length s\<rparr>
               in (case check_turn_budget cfg turn_start (clock i) (co_tokens c1) of
                     Some r \<Rightarrow> c1\<lparr>co_reason := Some r\<rparr>
                   | None \<Rightarrow> consume cfg turn_start clock (Suc i) chs c1)
           | _ \<Rightarrow> consume cfg turn_start clock (Suc i) chs c))"

definition start_consume :: "nat \<Rightarrow> consumed" where
  "start_consume tokens =
     \<lparr>co_events = [], co_accumulated = [], co_calls = [], co_usage = None, co_reason = None, co_tokens = tokens\<rparr>"

section \<open>A round of tool calls\<close>

definition loop_guard_text :: "string \<Rightarrow> string" where
  "loop_guard_text fn_name =
     ''You have called '' @
     fn_name @
     '' repeatedly with identical arguments and it is not returning new information. Stop calling tools now'' @
     '' and reply to the user directly, using what you already have '' @ em_dash @ '' including relaying verbatim any error'' @
     '' or instruction the tool returned (such as reconnecting an integration).''"

text \<open>What is kept per model attempt.\<close>

record attempt =
  at_messages :: "msg list"
  at_counts :: "((string \<times> string) \<times> nat) list"
  at_no_tools :: bool
  at_web_searched :: bool
  at_url_fetched :: bool
  at_drive_read :: bool
  at_drive_file :: string

definition start_attempt :: "msg list \<Rightarrow> attempt" where
  "start_attempt messages =
     \<lparr>at_messages = messages, at_counts = [], at_no_tools = False, at_web_searched = False, at_url_fetched = False,
      at_drive_read = False, at_drive_file = []\<rparr>"

definition done_event :: "string \<Rightarrow> bool \<Rightarrow> pydict option \<Rightarrow> attempt \<Rightarrow> event" where
  "done_event model fallback_used usage st =
     Done model False fallback_used (at_web_searched st) (at_url_fetched st) (at_drive_read st) (at_drive_file st) usage"

text \<open>\<^verbatim>\<open>json.loads\<close> of the arguments, with an empty dictionary for a text that does not parse.\<close>

definition parse_args :: "('r, 'c) backend \<Rightarrow> string \<Rightarrow> pyval" where
  "parse_args be arguments = (case be_loads be arguments of Some v \<Rightarrow> v | None \<Rightarrow> PDict [])"

definition call_signature :: "('r, 'c) backend \<Rightarrow> string \<Rightarrow> pydict \<Rightarrow> string \<times> string" where
  "call_signature be fn_name args = (fn_name, be_dumps_sorted be (filter (\<lambda>p. snd p \<noteq> PNone) args))"

definition call_limit :: "'d registry \<Rightarrow> string \<Rightarrow> nat" where
  "call_limit reg fn_name =
     (case get_tool reg fn_name of
        Some t \<Rightarrow> (case max_identical_calls t of Some n \<Rightarrow> n | None \<Rightarrow> MAX_IDENTICAL_CALLS)
      | None \<Rightarrow> MAX_IDENTICAL_CALLS)"

definition count_of :: "attempt \<Rightarrow> string \<times> string \<Rightarrow> nat" where
  "count_of st sig = (case dget (at_counts st) sig of Some n \<Rightarrow> n | None \<Rightarrow> 0)"

fun find_text :: "string \<Rightarrow> string \<Rightarrow> nat" where
  "find_text p [] = 0"
| "find_text p (c # s) = (if startswith (c # s) p then 0 else Suc (find_text p s))"

definition note_tool :: "string \<Rightarrow> string \<Rightarrow> attempt \<Rightarrow> attempt" where
  "note_tool fn_name result st =
     (let st1 = (if fn_name = ''web_search'' then st\<lparr>at_web_searched := True\<rparr> else st);
          st2 = (if fn_name = ''fetch_url'' then st1\<lparr>at_url_fetched := True\<rparr> else st1)
      in if fn_name = ''drive_read_file''
         then (let st3 = st2\<lparr>at_drive_read := True\<rparr>
               in if startswith result ''--- '' \<and> contains '' ---'' result
                  then st3\<lparr>at_drive_file := drop 4 (take (find_text '' ---'' result) result)\<rparr> else st3)
         else st2)"

definition call_value :: "string \<times> string \<times> string \<Rightarrow> pyval" where
  "call_value tc = (case tc of (ident, name, arguments) \<Rightarrow>
     PDict [(''id'', PStr ident), (''type'', PStr ''function''),
            (''function'', PDict [(''name'', PStr name), (''arguments'', PStr arguments)])])"

definition tool_exchange :: "'d registry \<Rightarrow> string \<times> string \<times> string \<Rightarrow> string \<Rightarrow> msg list" where
  "tool_exchange reg tc result =
     [\<lparr>m_role = ''assistant'', m_content = Text [], m_rest = [(''tool_calls'', PList [call_value tc])]\<rparr>,
      \<lparr>m_role = ''tool'', m_content = Text (take 12000 result), m_rest = [(''tool_call_id'', PStr (fst tc))]\<rparr>]
     @ (case get_tool reg (fst (snd tc)) of
          None \<Rightarrow> []
        | Some t \<Rightarrow> (case post_call_system_msg t of
                       None \<Rightarrow> []
                     | Some m \<Rightarrow> if m \<noteq> [] then [text_msg ''system'' m] else []))"

datatype round_end = Proceed | Ended | Crashed pyexc

text \<open>The three results that pause the turn: the events that follow, or the exception of the parser.\<close>

definition pause_events :: "('r, 'c) backend \<Rightarrow> string \<Rightarrow> event list result option" where
  "pause_events be result =
     (if startswith result ASK_USER_PREFIX then Some (Inr [AskUser (drop (length ASK_USER_PREFIX) result)])
      else if startswith result CONFIRM_WRITE_PREFIX
      then Some (Inr [ConfirmWriteMemory (drop (length CONFIRM_WRITE_PREFIX) result)])
      else if startswith result CONFIRM_CALENDAR_PREFIX
      then (case be_loads be (drop (length CONFIRM_CALENDAR_PREFIX) result) of
              None \<Rightarrow> Some (Inl (ValueError ''json''))
            | Some (PDict payload) \<Rightarrow> Some (Inr [ConfirmCalendarWrite payload])
            | Some _ \<Rightarrow> Some (Inl (TypeError ''payload'')))
      else None)"

fun tool_round :: "('r, 'c, 'd) turn_env \<Rightarrow> turn_request \<Rightarrow> string \<Rightarrow> bool \<Rightarrow> pydict option \<Rightarrow>
    (string \<times> string \<times> string) list \<Rightarrow> attempt \<Rightarrow> ('r, 'c, 'd) run \<Rightarrow> attempt \<times> ('r, 'c, 'd) run \<times> round_end" where
  "tool_round te tr model fallback_used usage [] st run = (st, run, Proceed)"
| "tool_round te tr model fallback_used usage (tc # tcs) st run =
     (let be = te_backend te; fn_name = fst (snd tc) in
      case parse_args be (snd (snd tc)) of
        PDict args \<Rightarrow>
          (let sig = call_signature be fn_name args;
               n = Suc (count_of st sig);
               st1 = st\<lparr>at_counts := dset (at_counts st) sig n\<rparr>
           in if n > call_limit (te_registry te) fn_name
              then (st1\<lparr>at_messages := at_messages st1 @ [text_msg ''system'' (loop_guard_text fn_name)], at_no_tools := True\<rparr>,
                    emit [Status ''tool'' ''error''] run, Proceed)
              else
                let (result, w) = execute_tool (te_registry te) (te_host te) fn_name args (tr_db tr) (tr_user_id tr)
                                    (tr_conv_id tr) (rn_world run);
                    run1 = emit [ToolCall fn_name args, Status ''tool'' ''info'', Status ''tool_result'' ''info'']
                             (run\<lparr>rn_world := w\<rparr>)
                in (case pause_events be result of
                      Some (Inl e) \<Rightarrow> (st1, run1, Crashed e)
                    | Some (Inr es) \<Rightarrow> (st1, emit (es @ [done_event model fallback_used usage st1]) run1, Ended)
                    | None \<Rightarrow>
                        (let st2 = note_tool fn_name result st1
                         in tool_round te tr model fallback_used usage tcs
                              (st2\<lparr>at_messages := at_messages st2 @ tool_exchange (te_registry te) tc result\<rparr>)
                              (emit [ToolResult fn_name (take 500 result)] run1))))
      | _ \<Rightarrow> (st, run, Crashed (AttributeError ''items'')))"

section \<open>The iterations of one model\<close>

datatype iter_end = TurnReturned | TurnRaised pyexc | NextModel

definition write_answer :: "('r, 'c, 'd) turn_env \<Rightarrow> turn_request \<Rightarrow> string \<Rightarrow> string \<Rightarrow> ('r, 'c, 'd) run \<Rightarrow> ('r, 'c, 'd) run" where
  "write_answer te tr model response run =
     (if tr_use_cache tr
      then run\<lparr>rn_answers := snd (set_cached_response (be_cfg (te_backend te)) (be_answers (te_backend te))
             (be_answers_up (te_backend te)) (be_sha256 (te_backend te)) (te_write_clock te) (tr_message tr)
             (response, model) 3600 (tr_cache_model tr) (tr_history_tail tr) (tr_cache_sysprompt tr) (rn_answers run))\<rparr>
      else run)"

fun iterate :: "('r, 'c, 'd) turn_env \<Rightarrow> turn_request \<Rightarrow> string \<Rightarrow> bool \<Rightarrow> pydict \<Rightarrow> int \<Rightarrow> int \<Rightarrow>
    nat \<Rightarrow> attempt \<Rightarrow> ('r, 'c, 'd) run \<Rightarrow> ('r, 'c, 'd) run \<times> iter_end" where
  "iterate te tr model fallback_used params ctx_window max_out 0 st run =
     (emit [ErrorEvent ''Tool loop limit reached''] run, TurnReturned)"
| "iterate te tr model fallback_used params ctx_window max_out (Suc n) st run =
     (let be = te_backend te; cfg = be_cfg be; k = length (rn_calls run) in
      case check_turn_budget cfg (te_turn_start te) (te_iter_clock te k) (rn_tokens run) of
        Some r \<Rightarrow> (emit [Status ''budget'' ''error'', ErrorEvent r] run, TurnReturned)
      | None \<Rightarrow>
          (let out = call_stream cfg (be_health be) (be_loads be) (be_client be) (te_wall te k) (te_stream te k) model (rn_nim run);
               c = consume cfg (te_turn_start te) (te_chunk_clock te k) 0 (so_chunks out) (start_consume (rn_tokens run));
               run1 = (emit (co_events c) run)\<lparr>rn_tokens := co_tokens c, rn_nim := so_state out,
                        rn_calls := rn_calls run @ [\<lparr>lc_model = model, lc_messages = at_messages st, lc_params = params,
                                                     lc_tools = (if at_no_tools st then None else tr_tools tr)\<rparr>]\<rparr>
           in case co_reason c of
                Some r \<Rightarrow> (emit [Status ''budget'' ''error'', ErrorEvent r] run1, TurnReturned)
              | None \<Rightarrow>
                  (case so_end out of
                     Inl e \<Rightarrow>
                       if co_accumulated c \<noteq> [] then (emit [ErrorEvent ''Stream interrupted''] run1, TurnReturned)
                       else (run1, NextModel)
                   | Inr _ \<Rightarrow>
                       if co_calls c \<noteq> [] then
                         (let run2 = emit (Status ''model_call'' ''info'' # (if co_accumulated c \<noteq> [] then [PreambleDiscard] else [])) run1
                          in case tool_round te tr model fallback_used (co_usage c) (co_calls c) st run2 of
                               (st1, run3, Crashed e) \<Rightarrow> (run3, TurnRaised e)
                             | (st1, run3, Ended) \<Rightarrow> (run3, TurnReturned)
                             | (st1, run3, Proceed) \<Rightarrow>
                                 iterate te tr model fallback_used params ctx_window max_out n
                                   (st1\<lparr>at_messages := apply_context_budget (be_show_parts be) (at_messages st1) ctx_window max_out
                                                         (tr_saliences tr)\<rparr>) run3)
                       else
                         (let run2 = emit [Status ''model_call'' ''info''] run1
                          in if co_accumulated c = [] then (run2, NextModel)
                             else (emit [done_event model fallback_used (co_usage c) st]
                                     (write_answer te tr model (concat (co_accumulated c)) run2), TurnReturned)))))"

section \<open>The chain of models\<close>

definition max_out_of :: "pydict option \<Rightarrow> int" where
  "max_out_of params =
     (case dget (case params of None \<Rightarrow> [] | Some d \<Rightarrow> d) ''max_tokens'' of
        None \<Rightarrow> 4096
      | Some v \<Rightarrow>
          (case v of
             PInt i \<Rightarrow> i
           | PBool b \<Rightarrow> (if b then 1 else 0)
           | PFloat x \<Rightarrow> (if x \<ge> 0 then \<lfloor>x\<rfloor> else \<lceil>x\<rceil>)
           | PStr s \<Rightarrow> (case py_int s of Some i \<Rightarrow> i | None \<Rightarrow> 4096)
           | _ \<Rightarrow> 4096))"

fun try_models :: "('r, 'c, 'd) turn_env \<Rightarrow> turn_request \<Rightarrow> msg list \<Rightarrow> nat \<Rightarrow> string list \<Rightarrow> ('r, 'c, 'd) run \<Rightarrow>
    ('r, 'c, 'd) run \<times> unit result" where
  "try_models te tr base_messages idx [] run = (emit [ErrorEvent ''All models failed''] run, Inr ())"
| "try_models te tr base_messages idx (model # models) run =
     (let be = te_backend te;
          ctx_window = get_context_limit (be_cfg be) (be_catalog be) model;
          params = apply_request_extras (be_cfg be) (be_catalog be) model (tr_params tr);
          max_out = max_out_of (tr_params tr);
          messages = apply_context_budget (be_show_parts be) base_messages ctx_window max_out (tr_saliences tr);
          run1 = emit (if idx > 0 then [Status ''fallback'' ''error''] else [Status ''budget'' ''info'']) run
      in case iterate te tr model (idx > 0) params ctx_window max_out MAX_TOOL_ITERATIONS (start_attempt messages) run1 of
           (run2, TurnReturned) \<Rightarrow> (run2, Inr ())
         | (run2, TurnRaised e) \<Rightarrow> (run2, Inl e)
         | (run2, NextModel) \<Rightarrow> try_models te tr base_messages (Suc idx) models run2)"

section \<open>How a turn ends\<close>

text \<open>
  A turn that goes on has sent no final event; a turn that has returned has sent one, as its last.
\<close>

definition quiet :: "event list \<Rightarrow> bool" where
  "quiet es = list_all (\<lambda>e. \<not> terminal e) es"

definition closed_by_last :: "event list \<Rightarrow> bool" where
  "closed_by_last es = (es \<noteq> [] \<and> terminal (last es) \<and> quiet (butlast es))"

lemma quiet_simps [simp]:
  "quiet []" "quiet (e # es) \<longleftrightarrow> \<not> terminal e \<and> quiet es" "quiet (es @ fs) \<longleftrightarrow> quiet es \<and> quiet fs"
  by (auto simp: quiet_def)

lemma closed_by_last_simps [simp]:
  "\<not> closed_by_last []"
  "closed_by_last (e # es) \<longleftrightarrow> (if es = [] then terminal e else \<not> terminal e \<and> closed_by_last es)"
  by (auto simp: closed_by_last_def)

lemma closed_by_last_append [simp]:
  "closed_by_last (es @ fs) \<longleftrightarrow> (if fs = [] then closed_by_last es else quiet es \<and> closed_by_last fs)"
  by (induction es) auto

lemma emit_simps [simp]:
  "rn_events (emit es run) = rn_events run @ es" "rn_calls (emit es run) = rn_calls run"
  "rn_tokens (emit es run) = rn_tokens run" "rn_nim (emit es run) = rn_nim run"
  "rn_answers (emit es run) = rn_answers run" "rn_world (emit es run) = rn_world run"
  by (simp_all add: emit_def)

lemma write_answer_simps [simp]:
  "rn_events (write_answer te tr m a run) = rn_events run" "rn_calls (write_answer te tr m a run) = rn_calls run"
  by (simp_all add: write_answer_def)

lemma terminal_done [simp]: "terminal (done_event m f u st)"
  by (simp add: done_event_def)

lemma consume_quiet: "quiet (co_events c) \<Longrightarrow> quiet (co_events (consume cfg t clock i chs c))"
  by (induction chs arbitrary: i c) (auto simp: Let_def split: chunk.splits pyval.splits option.splits)

lemma pause_quiet: "pause_events be r = Some (Inr es) \<Longrightarrow> quiet es"
  by (auto simp: pause_events_def split: if_splits option.splits pyval.splits)

definition round_ends :: "event list \<Rightarrow> round_end \<Rightarrow> bool" where
  "round_ends es e = (case e of Ended \<Rightarrow> closed_by_last es | _ \<Rightarrow> quiet es)"

lemma round_ends_simps [simp]:
  "round_ends es Ended = closed_by_last es" "round_ends es Proceed = quiet es" "round_ends es (Crashed x) = quiet es"
  by (simp_all add: round_ends_def)

text \<open>One step of a round on arguments that are an object.\<close>

lemma tool_round_object:
  assumes "parse_args (te_backend te) (snd (snd tc)) = PDict args"
    and "execute_tool (te_registry te) (te_host te) (fst (snd tc)) args (tr_db tr) (tr_user_id tr) (tr_conv_id tr) (rn_world run) = (result, w)"
  shows "tool_round te tr model fb usage (tc # tcs) st run =
    (let fn_name = fst (snd tc); sig = call_signature (te_backend te) fn_name args; n = Suc (count_of st sig);
         st1 = st\<lparr>at_counts := dset (at_counts st) sig n\<rparr>;
         run1 = emit [ToolCall fn_name args, Status ''tool'' ''info'', Status ''tool_result'' ''info''] (run\<lparr>rn_world := w\<rparr>)
     in if n > call_limit (te_registry te) fn_name
        then (st1\<lparr>at_messages := at_messages st1 @ [text_msg ''system'' (loop_guard_text fn_name)], at_no_tools := True\<rparr>,
              emit [Status ''tool'' ''error''] run, Proceed)
        else case pause_events (te_backend te) result of
               Some (Inl e) \<Rightarrow> (st1, run1, Crashed e)
             | Some (Inr es) \<Rightarrow> (st1, emit (es @ [done_event model fb usage st1]) run1, Ended)
             | None \<Rightarrow> tool_round te tr model fb usage tcs
                 ((note_tool fn_name result st1)\<lparr>at_messages := at_messages (note_tool fn_name result st1)
                    @ tool_exchange (te_registry te) tc result\<rparr>)
                 (emit [ToolResult fn_name (take 500 result)] run1))"
  using assms by (simp add: Let_def split: option.split sum.split)

lemma tool_round_other:
  assumes "\<And>args. parse_args (te_backend te) (snd (snd tc)) \<noteq> PDict args"
  shows "tool_round te tr model fb usage (tc # tcs) st run = (st, run, Crashed (AttributeError ''items''))"
  using assms by (simp add: Let_def split: pyval.split)

declare tool_round.simps(2) [simp del]

lemma note_tool_simps [simp]:
  "at_counts (note_tool f r st) = at_counts st" "at_no_tools (note_tool f r st) = at_no_tools st"
  "count_of (note_tool f r st) sig = count_of st sig"
  by (simp_all add: note_tool_def Let_def count_of_def)

lemma count_of_simps [simp]:
  "count_of (st\<lparr>at_counts := dset (at_counts st) sig n\<rparr>) sig' = (if sig' = sig then n else count_of st sig')"
  "count_of (st\<lparr>at_messages := ms\<rparr>) sig' = count_of st sig'"
  "count_of (st\<lparr>at_no_tools := b\<rparr>) sig' = count_of st sig'"
  by (simp_all add: count_of_def dget_dset)

text \<open>
  An invariant of rounds: what holds of the attempt and of the run before a round and is kept by a
  trip of the guard, by an executed call, by a pause and by a crash, holds after it.
\<close>

lemma tool_round_induct [consumes 1, case_names refl crash trip bad pause step]:
  assumes "tool_round te tr model fb usage tcs st run = (st', run', e)"
    and refl: "\<And>st run. P st run st run Proceed"
    and crash: "\<And>st run. P st run st run (Crashed (AttributeError ''items''))"
    and trip: "\<And>st run fn args sig. sig = call_signature (te_backend te) fn args \<Longrightarrow>
        call_limit (te_registry te) fn < Suc (count_of st sig) \<Longrightarrow>
        P st run (st\<lparr>at_counts := dset (at_counts st) sig (Suc (count_of st sig)),
                     at_messages := at_messages st @ [text_msg ''system'' (loop_guard_text fn)], at_no_tools := True\<rparr>)
          (emit [Status ''tool'' ''error''] run) Proceed"
    and bad: "\<And>st run fn args sig w x. sig = call_signature (te_backend te) fn args \<Longrightarrow>
        Suc (count_of st sig) \<le> call_limit (te_registry te) fn \<Longrightarrow>
        P st run (st\<lparr>at_counts := dset (at_counts st) sig (Suc (count_of st sig))\<rparr>)
          (emit [ToolCall fn args, Status ''tool'' ''info'', Status ''tool_result'' ''info''] (run\<lparr>rn_world := w\<rparr>)) (Crashed x)"
    and pause: "\<And>st run fn args sig w es result st1. sig = call_signature (te_backend te) fn args \<Longrightarrow>
        st1 = st\<lparr>at_counts := dset (at_counts st) sig (Suc (count_of st sig))\<rparr> \<Longrightarrow>
        Suc (count_of st sig) \<le> call_limit (te_registry te) fn \<Longrightarrow> pause_events (te_backend te) result = Some (Inr es) \<Longrightarrow>
        P st run st1 (emit ([ToolCall fn args, Status ''tool'' ''info'', Status ''tool_result'' ''info''] @ es
            @ [done_event model fb usage st1]) (run\<lparr>rn_world := w\<rparr>)) Ended"
    and step: "\<And>st run fn args sig w r st1 st' run' e. sig = call_signature (te_backend te) fn args \<Longrightarrow>
        Suc (count_of st sig) \<le> call_limit (te_registry te) fn \<Longrightarrow>
        at_counts st1 = dset (at_counts st) sig (Suc (count_of st sig)) \<Longrightarrow> at_no_tools st1 = at_no_tools st \<Longrightarrow>
        P st1 (emit [ToolCall fn args, Status ''tool'' ''info'', Status ''tool_result'' ''info'', ToolResult fn r] (run\<lparr>rn_world := w\<rparr>)) st' run' e \<Longrightarrow>
        P st run st' run' e"
  shows "P st run st' run' e"
  using assms(1)
proof (induction tcs arbitrary: st run)
  case Nil
  then show ?case by (simp add: refl)
next
  case (Cons tc tcs)
  show ?case
  proof (cases "\<exists>args. parse_args (te_backend te) (snd (snd tc)) = PDict args")
    case False
    then show ?thesis using Cons.prems crash by (simp add: tool_round_other)
  next
    case True
    then obtain args where args: "parse_args (te_backend te) (snd (snd tc)) = PDict args" by blast
    obtain result w where ex: "execute_tool (te_registry te) (te_host te) (fst (snd tc)) args (tr_db tr) (tr_user_id tr)
        (tr_conv_id tr) (rn_world run) = (result, w)" by fastforce
    define fn where "fn = fst (snd tc)"
    define sig where "sig = call_signature (te_backend te) fn args"
    define st1 where "st1 = st\<lparr>at_counts := dset (at_counts st) sig (Suc (count_of st sig))\<rparr>"
    note eq = Cons.prems [unfolded tool_round_object [of te tc args tr run result w model fb usage tcs st, OF args ex]
        Let_def, folded fn_def, folded sig_def, folded st1_def]
    show ?thesis
    proof (cases "call_limit (te_registry te) fn < Suc (count_of st sig)")
      case True
      then show ?thesis using eq trip [OF sig_def True, of run] by (auto simp: st1_def)
    next
      case False
      then have le: "Suc (count_of st sig) \<le> call_limit (te_registry te) fn" by simp
      show ?thesis
      proof (cases "pause_events (te_backend te) result")
        case None
        define st2 where "st2 = (note_tool fn result st1)\<lparr>at_messages := at_messages (note_tool fn result st1)
                    @ tool_exchange (te_registry te) tc result\<rparr>"
        have "at_counts st2 = dset (at_counts st) sig (Suc (count_of st sig))" "at_no_tools st2 = at_no_tools st"
          by (simp_all add: st2_def st1_def)
        moreover have "P st2 (emit [ToolCall fn args, Status ''tool'' ''info'', Status ''tool_result'' ''info'', ToolResult fn (take 500 result)] (run\<lparr>rn_world := w\<rparr>)) st' run' e"
          using eq None False by (intro Cons.IH) (simp add: st2_def emit_def)
        ultimately show ?thesis
          by (rule step [OF sig_def le])
      next
        case (Some p)
        then show ?thesis
          using eq False bad [OF sig_def le, of run w] pause [OF sig_def st1_def le, of result _ run w]
          by (cases p) (auto simp: st1_def emit_def)
      qed
    qed
  qed
qed

lemma tool_round_ends:
  assumes "tool_round te tr model fb usage tcs st run = (st', run', e)"
  shows "quiet (rn_events run) \<longrightarrow> round_ends (rn_events run') e"
  using assms by (induction rule: tool_round_induct) (auto simp: pause_quiet)

lemma tool_round_calls:
  assumes "tool_round te tr model fb usage tcs st run = (st', run', e)"
  shows "rn_calls run' = rn_calls run \<and> (at_no_tools st \<longrightarrow> at_no_tools st')"
  using assms by (induction rule: tool_round_induct) auto

text \<open>
  The executed calls among the events, by signature. A signature is executed while its counter is
  within the limit, so the executions and the counter move together up to the limit.
\<close>

fun executed :: "('r, 'c) backend \<Rightarrow> string \<times> string \<Rightarrow> event \<Rightarrow> bool" where
  "executed be sig (ToolCall fn args) = (call_signature be fn args = sig)"
| "executed be sig _ = False"

definition executions :: "('r, 'c) backend \<Rightarrow> string \<times> string \<Rightarrow> event list \<Rightarrow> nat" where
  "executions be sig es = length (filter (executed be sig) es)"

lemma executions_simps [simp]:
  "executions be sig [] = 0"
  "executions be sig (e # es) = (if executed be sig e then Suc (executions be sig es) else executions be sig es)"
  "executions be sig (es @ fs) = executions be sig es + executions be sig fs"
  by (simp_all add: executions_def)

fun is_call :: "event \<Rightarrow> bool" where
  "is_call (ToolCall _ _) = True"
| "is_call _ = False"

definition callless :: "event list \<Rightarrow> bool" where
  "callless es = list_all (\<lambda>e. \<not> is_call e) es"

lemma callless_simps [simp]:
  "callless []" "callless (e # es) \<longleftrightarrow> \<not> is_call e \<and> callless es" "callless (es @ fs) \<longleftrightarrow> callless es \<and> callless fs"
  by (auto simp: callless_def)

lemma executed_is_call: "executed be sig e \<Longrightarrow> is_call e"
  by (cases e) auto

lemma callless_executions: "callless es \<Longrightarrow> executions be sig es = 0"
  by (induction es) (auto dest: executed_is_call)

lemma executed_done [simp]: "\<not> executed be sig (done_event m f u st)"
  by (simp add: done_event_def)

lemma pause_no_executions: "pause_events be r = Some (Inr es) \<Longrightarrow> executions be' sig es = 0"
  by (auto simp: pause_events_def split: if_splits option.splits pyval.splits)

lemma call_signature_fst [simp]: "fst (call_signature be fn args) = fn"
  by (simp add: call_signature_def)

lemma count_of_cong: "at_counts st1 = dset (at_counts st) sig n \<Longrightarrow>
    count_of st1 sig' = (if sig' = sig then n else count_of st sig')"
  by (simp add: count_of_def dget_dset)

lemma tool_round_executions:
  assumes "tool_round te tr model fb usage tcs st run = (st', run', e)"
  shows "executions (te_backend te) sig (rn_events run') + min (count_of st sig) (call_limit (te_registry te) (fst sig))
    \<le> executions (te_backend te) sig (rn_events run) + min (count_of st' sig) (call_limit (te_registry te) (fst sig))"
  using assms
proof (induction rule: tool_round_induct)
  case (step st run fn args sg w r st1 st' run' e)
  have "count_of st1 sig = (if sig = sg then Suc (count_of st sg) else count_of st sig)"
    by (rule count_of_cong [OF step(3)])
  with step show ?case by (auto split: if_splits)
next
  case (trip st run fn args sg)
  have "count_of (st\<lparr>at_counts := dset (at_counts st) sg (Suc (count_of st sg)),
      at_messages := at_messages st @ [text_msg ''system'' (loop_guard_text fn)], at_no_tools := True\<rparr>) sig =
    (if sig = sg then Suc (count_of st sg) else count_of st sig)"
    by (rule count_of_cong) simp
  then show ?case by auto
qed (auto simp: pause_no_executions)

section \<open>The iterations, step by step\<close>

lemma consume_callless:
  "callless (co_events c) \<Longrightarrow> callless (co_events (consume cfg t clock i chs c))"
  by (induction chs arbitrary: i c) (auto simp: Let_def split: chunk.splits pyval.splits option.splits)

text \<open>The text of a list of events.\<close>

fun tokens_of :: "event list \<Rightarrow> string" where
  "tokens_of [] = []"
| "tokens_of (Token t # es) = t @ tokens_of es"
| "tokens_of (_ # es) = tokens_of es"

lemma tokens_of_append [simp]: "tokens_of (es @ fs) = tokens_of es @ tokens_of fs"
  by (induction es rule: tokens_of.induct) auto

lemma consume_tokens:
  "tokens_of (co_events c) = concat (co_accumulated c) \<Longrightarrow>
   tokens_of (co_events (consume cfg t clock i chs c)) = concat (co_accumulated (consume cfg t clock i chs c))"
  by (induction chs arbitrary: i c) (auto simp: Let_def split: chunk.splits pyval.splits option.splits)

text \<open>The text the client has on its screen: what came after the last discarded preamble.\<close>

fun display :: "string \<Rightarrow> event \<Rightarrow> string" where
  "display shown (Token t) = shown @ t"
| "display shown PreambleDiscard = []"
| "display shown e = shown"

definition displayed :: "event list \<Rightarrow> string" where
  "displayed es = foldl display [] es"

lemma displayed_simps [simp]: "displayed [] = []" "displayed (es @ [e]) = display (displayed es) e"
  by (simp_all add: displayed_def)

fun textless :: "event \<Rightarrow> bool" where
  "textless (Token t) = False"
| "textless PreambleDiscard = False"
| "textless e = True"

lemma display_textless: "textless e \<Longrightarrow> display shown e = shown"
  by (cases e) simp_all

lemma displayed_textless: "list_all textless fs \<Longrightarrow> displayed (es @ fs) = displayed es"
  by (induction fs rule: rev_induct) (simp_all flip: append_assoc add: display_textless)

lemma displayed_tokens: "PreambleDiscard \<notin> set fs \<Longrightarrow> displayed (es @ fs) = displayed es @ tokens_of fs"
proof (induction fs rule: rev_induct)
  case (snoc e fs)
  then show ?case by (cases e) (simp_all flip: append_assoc)
qed simp

lemma consume_keeps_preamble:
  "PreambleDiscard \<notin> set (co_events c) \<Longrightarrow> PreambleDiscard \<notin> set (co_events (consume cfg t clock i chs c))"
  by (induction chs arbitrary: i c) (auto simp: Let_def split: chunk.splits pyval.splits option.splits)

lemma pause_textless: "pause_events be r = Some (Inr es) \<Longrightarrow> list_all textless es"
  by (auto simp: pause_events_def split: if_splits option.splits pyval.splits)

lemma textless_done [simp]: "textless (done_event m f u st)"
  by (simp add: done_event_def)

lemma tool_round_displayed:
  assumes "tool_round te tr model fb usage tcs st run = (st', run', e)"
  shows "displayed (rn_events run') = displayed (rn_events run)"
  using assms by (induction rule: tool_round_induct) (auto simp: displayed_textless pause_textless)

text \<open>A screen that was empty before a call is empty after it.\<close>

definition cleared :: "('r, 'c, 'd) run \<Rightarrow> ('r, 'c, 'd) run \<Rightarrow> bool" where
  "cleared run run1 = (displayed (rn_events run) = [] \<longrightarrow> displayed (rn_events run1) = [])"

text \<open>What one streamed call adds to a run: events that end nothing and execute nothing, and one entry of the log.\<close>

definition streamed :: "turn_request \<Rightarrow> string \<Rightarrow> pydict \<Rightarrow> attempt \<Rightarrow> ('r, 'c, 'd) run \<Rightarrow> ('r, 'c, 'd) run \<Rightarrow> bool" where
  "streamed tr model params st run run1 =
     (\<exists>es. rn_events run1 = rn_events run @ es \<and> quiet es \<and> callless es
       \<and> rn_calls run1 = rn_calls run @ [\<lparr>lc_model = model, lc_messages = at_messages st, lc_params = params,
           lc_tools = (if at_no_tools st then None else tr_tools tr)\<rparr>]
       \<and> rn_world run1 = rn_world run \<and> rn_answers run1 = rn_answers run)"

lemma iterate_induct [consumes 1, case_names limit budget stop failed finish raised ended more]:
  assumes "iterate te tr model fb params win mo n st run = (run', e)"
    and limit: "\<And>st run. P 0 st run (emit [ErrorEvent ''Tool loop limit reached''] run) TurnReturned"
    and budget: "\<And>n st run r. P (Suc n) st run (emit [Status ''budget'' ''error'', ErrorEvent r] run) TurnReturned"
    and stop: "\<And>n st run run1 es r. streamed tr model params st run run1 \<Longrightarrow> quiet es \<Longrightarrow>
        callless es \<Longrightarrow>
        P (Suc n) st run (emit (es @ [ErrorEvent r]) run1) TurnReturned"
    and failed: "\<And>n st run run1. streamed tr model params st run run1 \<Longrightarrow> cleared run run1 \<Longrightarrow> P (Suc n) st run run1 NextModel"
    and finish: "\<And>n st run run1 u es. streamed tr model params st run run1 \<Longrightarrow> rn_events run1 = rn_events run @ es \<Longrightarrow>
        PreambleDiscard \<notin> set es \<Longrightarrow>
        P (Suc n) st run (emit [done_event model fb u st] (write_answer te tr model (tokens_of es) run1)) TurnReturned"
    and raised: "\<And>n st run run1 run2 u tcs st1 x. streamed tr model params st run run1 \<Longrightarrow>
        tool_round te tr model fb u tcs st run1 = (st1, run2, Crashed x) \<Longrightarrow> P (Suc n) st run run2 (TurnRaised x)"
    and ended: "\<And>n st run run1 run2 u tcs st1. streamed tr model params st run run1 \<Longrightarrow>
        tool_round te tr model fb u tcs st run1 = (st1, run2, Ended) \<Longrightarrow> P (Suc n) st run run2 TurnReturned"
    and more: "\<And>n st run run1 run2 u tcs st1 ms run' e. streamed tr model params st run run1 \<Longrightarrow>
        tool_round te tr model fb u tcs st run1 = (st1, run2, Proceed) \<Longrightarrow> cleared run run1 \<Longrightarrow>
        P n (st1\<lparr>at_messages := ms\<rparr>) run2 run' e \<Longrightarrow> P (Suc n) st run run' e"
  shows "P n st (run :: ('r, 'c, 'd) run) run' e"
  using assms(1)
proof (induction n arbitrary: st run)
  case 0
  then show ?case using limit [of st run] by auto
next
  case (Suc n)
  define be where "be = te_backend te"
  define k where "k = length (rn_calls run)"
  define out where "out = call_stream (be_cfg be) (be_health be) (be_loads be) (be_client be) (te_wall te k) (te_stream te k) model (rn_nim run)"
  define c where "c = consume (be_cfg be) (te_turn_start te) (te_chunk_clock te k) 0 (so_chunks out) (start_consume (rn_tokens run))"
  define run1 where "run1 = (emit (co_events c) run)\<lparr>rn_tokens := co_tokens c, rn_nim := so_state out,
      rn_calls := rn_calls run @ [\<lparr>lc_model = model, lc_messages = at_messages st, lc_params = params,
         lc_tools = (if at_no_tools st then None else tr_tools tr)\<rparr>]\<rparr>"
  have quiet: "quiet (co_events c)" "callless (co_events c)"
    unfolding c_def by (simp_all add: consume_quiet consume_callless start_consume_def)
  have plain: "PreambleDiscard \<notin> set (co_events c)" unfolding c_def by (simp add: consume_keeps_preamble start_consume_def)
  have tokens: "tokens_of (co_events c) = concat (co_accumulated c)" unfolding c_def by (simp add: consume_tokens start_consume_def)
  have clear: "cleared run (emit es run1)" if "list_all textless es" "co_accumulated c = []" for es
    using that plain tokens by (auto simp: cleared_def run1_def displayed_textless displayed_tokens simp flip: append_assoc)
  have st: "streamed tr model params st run (emit es run1)"
    if "quiet es" "callless es" for es
    unfolding streamed_def using that quiet by (auto simp: run1_def)
  note eq = Suc.prems [unfolded iterate.simps Let_def, folded be_def, folded k_def, folded out_def, folded c_def, folded run1_def]
  show ?case
  proof (cases "check_turn_budget (be_cfg be) (te_turn_start te) (te_iter_clock te k) (rn_tokens run)")
    case (Some r)
    then show ?thesis using eq budget [of n st run r] by auto
  next
    case none: None
    have s0: "streamed tr model params st run run1" using st [of "[]"] by (simp add: emit_def)
    show ?thesis
    proof (cases "co_reason c")
      case (Some r)
      then show ?thesis using eq none stop [OF s0, of "[Status ''budget'' ''error'']" n r] by auto
    next
      case going: None
      show ?thesis
      proof (cases "so_end out")
        case (Inl x)
        then show ?thesis
          using eq none going clear [of "[]"] failed [OF s0, of n] stop [OF s0, of "[]" n "''Stream interrupted''"]
          by (auto simp: emit_def split: if_splits)
      next
        case (Inr x)
        show ?thesis
        proof (cases "co_calls c = []")
          case True
          have s1: "streamed tr model params st run (emit [Status ''model_call'' ''info''] run1)" by (rule st) simp_all
          have answer: "concat (co_accumulated c) = tokens_of (co_events c @ [Status ''model_call'' ''info''])"
            unfolding c_def by (simp add: consume_tokens start_consume_def)
          have ev: "rn_events (emit [Status ''model_call'' ''info''] run1) = rn_events run @ (co_events c @ [Status ''model_call'' ''info''])"
            by (simp add: run1_def)
          show ?thesis
            using eq none going Inr True plain clear [of "[Status ''model_call'' ''info'']"] failed [OF s1] finish [OF s1 ev]
            unfolding answer by (auto split: if_splits)
        next
          case False
          define run2 where "run2 = emit (Status ''model_call'' ''info'' # (if co_accumulated c \<noteq> [] then [PreambleDiscard] else [])) run1"
          have s2: "streamed tr model params st run run2" unfolding run2_def by (rule st) simp_all
          have c2: "cleared run run2"
          proof (cases "co_accumulated c = []")
            case True
            then show ?thesis using clear [of "[Status ''model_call'' ''info'']"] by (simp add: run2_def)
          next
            case False
            then have "rn_events run2 = (rn_events run1 @ [Status ''model_call'' ''info'']) @ [PreambleDiscard]" by (simp add: run2_def)
            then have "displayed (rn_events run2) = []" by (simp only: displayed_simps display.simps)
            then show ?thesis by (simp add: cleared_def)
          qed
          obtain st1 run3 re where tool_rnd: "tool_round te tr model fb (co_usage c) (co_calls c) st run2 = (st1, run3, re)"
            by (cases "tool_round te tr model fb (co_usage c) (co_calls c) st run2") auto
          note eq' = eq [folded run2_def]
          show ?thesis
          proof (cases re)
            case Proceed
            then show ?thesis
              using eq' none going Inr False tool_rnd by (intro more [OF s2 _ c2, of "co_usage c" "co_calls c"] Suc.IH) auto
          next
            case Ended
            then show ?thesis using eq' none going Inr False tool_rnd ended [OF s2] by auto
          next
            case (Crashed x)
            then show ?thesis using eq' none going Inr False tool_rnd raised [OF s2] by auto
          qed
        qed
      qed
    qed
  qed
qed

section \<open>What holds of the iterations and of the chain\<close>

definition iter_ends :: "event list \<Rightarrow> iter_end \<Rightarrow> bool" where
  "iter_ends es e = (case e of TurnReturned \<Rightarrow> closed_by_last es | _ \<Rightarrow> quiet es)"

lemma iter_ends_simps [simp]:
  "iter_ends es TurnReturned = closed_by_last es" "iter_ends es NextModel = quiet es" "iter_ends es (TurnRaised x) = quiet es"
  by (simp_all add: iter_ends_def)

lemma streamed_quiet: "streamed tr model params st run run1 \<Longrightarrow> quiet (rn_events run) \<Longrightarrow> quiet (rn_events run1)"
  by (auto simp: streamed_def)

lemma streamed_calls: "streamed tr model params st run run1 \<Longrightarrow> length (rn_calls run1) = Suc (length (rn_calls run))"
  by (auto simp: streamed_def)

lemma streamed_executions:
  "streamed tr model params st run run1 \<Longrightarrow> executions be sig (rn_events run1) = executions be sig (rn_events run)"
  by (auto simp: streamed_def callless_executions)

lemma iterate_ends:
  assumes "iterate te tr model fb params win mo n st run = (run', e)"
  shows "quiet (rn_events run) \<longrightarrow> iter_ends (rn_events run') e"
  using assms
proof (induction rule: iterate_induct)
  case (raised n st run run1 run2 u tcs st1 x)
  then show ?case using tool_round_ends [OF raised(2)] by (auto dest: streamed_quiet)
next
  case (ended n st run run1 run2 u tcs st1)
  then show ?case using tool_round_ends [OF ended(2)] by (auto dest: streamed_quiet)
next
  case (more n st run run1 run2 u tcs st1 ms run' e)
  then show ?case using tool_round_ends [OF more(2)] by (auto dest: streamed_quiet)
qed (auto dest: streamed_quiet)

lemma iterate_calls:
  assumes "iterate te tr model fb params win mo n st run = (run', e)"
  shows "length (rn_calls run') \<le> length (rn_calls run) + n"
  using assms
proof (induction rule: iterate_induct)
  case (raised n st run run1 run2 u tcs st1 x)
  then show ?case using tool_round_calls [OF raised(2)] by (simp add: streamed_calls)
next
  case (ended n st run run1 run2 u tcs st1)
  then show ?case using tool_round_calls [OF ended(2)] by (simp add: streamed_calls)
next
  case (more n st run run1 run2 u tcs st1 ms run' e)
  then show ?case using tool_round_calls [OF more(2)] by (simp add: streamed_calls)
qed (auto simp: streamed_calls)

lemma iterate_executions:
  assumes "iterate te tr model fb params win mo n st run = (run', e)"
  shows "executions (te_backend te) sig (rn_events run') + min (count_of st sig) (call_limit (te_registry te) (fst sig))
    \<le> executions (te_backend te) sig (rn_events run) + call_limit (te_registry te) (fst sig)"
  using assms
proof (induction rule: iterate_induct)
  case (raised n st run run1 run2 u tcs st1 x)
  then show ?case
    using tool_round_executions [OF raised(2), of sig] by (simp add: streamed_executions [of _ _ _ _ run run1])
next
  case (ended n st run run1 run2 u tcs st1)
  then show ?case
    using tool_round_executions [OF ended(2), of sig] by (simp add: streamed_executions [of _ _ _ _ run run1])
next
  case (more n st run run1 run2 u tcs st1 ms run' e)
  then show ?case
    using tool_round_executions [OF more(2), of sig] by (simp add: streamed_executions [of _ _ _ _ run run1])
next
  case (finish n st run run1 u es)
  then show ?case using streamed_executions [OF finish(1), of "te_backend te" sig] by simp
qed (auto simp: streamed_executions callless_executions)

text \<open>After the guard has tripped, the attempt never offers a tool again.\<close>

lemma iterate_no_tools:
  assumes "iterate te tr model fb params win mo n st run = (run', e)"
  shows "at_no_tools st \<longrightarrow> (\<exists>cs. rn_calls run' = rn_calls run @ cs \<and> list_all (\<lambda>c. lc_tools c = None) cs)"
  using assms
proof (induction rule: iterate_induct)
  case (more n st run run1 run2 u tcs st1 ms run' e)
  then show ?case using tool_round_calls [OF more(2)] by (auto simp: streamed_def)
next
  case (raised n st run run1 run2 u tcs st1 x)
  then show ?case using tool_round_calls [OF raised(2)] by (auto simp: streamed_def)
next
  case (ended n st run run1 run2 u tcs st1)
  then show ?case using tool_round_calls [OF ended(2)] by (auto simp: streamed_def)
qed (auto simp: streamed_def)

definition offers :: "turn_request \<Rightarrow> model_call list \<Rightarrow> bool" where
  "offers tr cs = list_all (\<lambda>c. lc_tools c = None \<or> lc_tools c = tr_tools tr) cs"

lemma streamed_offers: "streamed tr model params st run run1 \<Longrightarrow> offers tr (rn_calls run1) = offers tr (rn_calls run)"
  by (auto simp: streamed_def offers_def)

lemma iterate_offer:
  assumes "iterate te tr model fb params win mo n st run = (run', e)"
  shows "offers tr (rn_calls run) \<longrightarrow> offers tr (rn_calls run')"
  using assms
proof (induction rule: iterate_induct)
  case (more n st run run1 run2 u tcs st1 ms run' e)
  then show ?case using tool_round_calls [OF more(2)] by (auto simp: streamed_offers)
next
  case (raised n st run run1 run2 u tcs st1 x)
  then show ?case using tool_round_calls [OF raised(2)] by (auto simp: streamed_offers)
next
  case (ended n st run run1 run2 u tcs st1)
  then show ?case using tool_round_calls [OF ended(2)] by (auto simp: streamed_offers)
qed (auto simp: streamed_offers)

definition turn_ends :: "event list \<Rightarrow> unit result \<Rightarrow> bool" where
  "turn_ends es res = (case res of Inr _ \<Rightarrow> closed_by_last es | Inl _ \<Rightarrow> quiet es)"

lemma turn_ends_simps [simp]: "turn_ends es (Inr u) = closed_by_last es" "turn_ends es (Inl x) = quiet es"
  by (simp_all add: turn_ends_def)

text \<open>One step of the chain, by the outcome of the attempt.\<close>

lemma try_models_step:
  obtains run1 run2 n st fb params win mo e where
    "run1 = emit (if idx > 0 then [Status ''fallback'' ''error''] else [Status ''budget'' ''info'']) run"
    and "iterate te tr model fb params win mo MAX_TOOL_ITERATIONS st run1 = (run2, e)" and "at_counts st = []"
    and "try_models te tr base idx (model # models) run =
      (case e of TurnReturned \<Rightarrow> (run2, Inr ()) | TurnRaised x \<Rightarrow> (run2, Inl x)
       | NextModel \<Rightarrow> try_models te tr base (Suc idx) models run2)"
proof -
  define be where "be = te_backend te"
  define win where "win = get_context_limit (be_cfg be) (be_catalog be) model"
  define params where "params = apply_request_extras (be_cfg be) (be_catalog be) model (tr_params tr)"
  define mo where "mo = max_out_of (tr_params tr)"
  define st where "st = start_attempt (apply_context_budget (be_show_parts be) base win mo (tr_saliences tr))"
  define run1 where "run1 = emit (if idx > 0 then [Status ''fallback'' ''error''] else [Status ''budget'' ''info'']) run"
  obtain run2 e where it: "iterate te tr model (idx > 0) params win mo MAX_TOOL_ITERATIONS st run1 = (run2, e)"
    by (cases "iterate te tr model (idx > 0) params win mo MAX_TOOL_ITERATIONS st run1")
  have "at_counts st = []" by (simp add: st_def start_attempt_def)
  moreover have "try_models te tr base idx (model # models) run =
      (case e of TurnReturned \<Rightarrow> (run2, Inr ()) | TurnRaised x \<Rightarrow> (run2, Inl x)
       | NextModel \<Rightarrow> try_models te tr base (Suc idx) models run2)"
    using it unfolding be_def win_def params_def mo_def st_def run1_def
    by (simp add: Let_def split: iter_end.split)
  ultimately show ?thesis using it that run1_def by blast
qed

declare try_models.simps(2) [simp del]

lemma try_models_invariant:
  assumes "try_models te tr base idx models run = (run', res)"
  shows "(quiet (rn_events run) \<longrightarrow> turn_ends (rn_events run') res)
    \<and> length (rn_calls run') \<le> length (rn_calls run) + MAX_TOOL_ITERATIONS * length models
    \<and> executions (te_backend te) sig (rn_events run')
        \<le> executions (te_backend te) sig (rn_events run) + call_limit (te_registry te) (fst sig) * length models
    \<and> (offers tr (rn_calls run) \<longrightarrow> offers tr (rn_calls run'))"
  using assms
proof (induction models arbitrary: idx run)
  case Nil
  then show ?case by auto
next
  case (Cons model models)
  obtain run1 run2 st fb params win mo e where
    r1: "run1 = emit (if idx > 0 then [Status ''fallback'' ''error''] else [Status ''budget'' ''info'']) run"
    and it: "iterate te tr model fb params win mo MAX_TOOL_ITERATIONS st run1 = (run2, e)" and c0: "at_counts st = []"
    and tm: "try_models te tr base idx (model # models) run =
      (case e of TurnReturned \<Rightarrow> (run2, Inr ()) | TurnRaised x \<Rightarrow> (run2, Inl x)
       | NextModel \<Rightarrow> try_models te tr base (Suc idx) models run2)"
    by (rule try_models_step)
  have zero: "count_of st sig = 0" by (simp add: count_of_def c0)
  have ex: "executions (te_backend te) sig (rn_events run2)
      \<le> executions (te_backend te) sig (rn_events run) + call_limit (te_registry te) (fst sig)"
    using iterate_executions [OF it, of sig] zero by (simp add: r1 split: if_splits)
  have ends: "quiet (rn_events run) \<longrightarrow> iter_ends (rn_events run2) e"
    using iterate_ends [OF it] by (simp add: r1)
  have calls: "length (rn_calls run2) \<le> length (rn_calls run) + MAX_TOOL_ITERATIONS"
    using iterate_calls [OF it] by (simp add: r1)
  have offer: "offers tr (rn_calls run) \<longrightarrow> offers tr (rn_calls run2)"
    using iterate_offer [OF it] by (simp add: r1)
  show ?case
    using Cons.prems Cons.IH [of "Suc idx" run2] ends calls ex offer unfolding tm by (cases e) auto
qed

section \<open>What is written to the answer cache\<close>

definition answer_written :: "('r, 'c, 'd) turn_env \<Rightarrow> turn_request \<Rightarrow> event list \<Rightarrow>
    ('c, string answer_payload) answer_cache \<Rightarrow> ('c, string answer_payload) answer_cache \<Rightarrow> bool" where
  "answer_written te tr es ans ans' =
     (\<exists>model fb usage st. es \<noteq> [] \<and> last es = done_event model fb usage st \<and> tr_use_cache tr \<and>
        ans' = snd (set_cached_response (be_cfg (te_backend te)) (be_answers (te_backend te)) (be_answers_up (te_backend te))
          (be_sha256 (te_backend te)) (te_write_clock te) (tr_message tr) (displayed es, model) 3600 (tr_cache_model tr)
          (tr_history_tail tr) (tr_cache_sysprompt tr) ans))"

lemma tool_round_answers:
  assumes "tool_round te tr model fb usage tcs st run = (st', run', e)"
  shows "rn_answers run' = rn_answers run"
  using assms by (induction rule: tool_round_induct) auto

lemma streamed_answers: "streamed tr model params st run run1 \<Longrightarrow> rn_answers run1 = rn_answers run"
  by (auto simp: streamed_def)

lemma iterate_answers:
  assumes "iterate te tr model fb params win mo n st run = (run', e)"
  shows "displayed (rn_events run) = [] \<longrightarrow>
    (rn_answers run' = rn_answers run \<or> e = TurnReturned \<and> answer_written te tr (rn_events run') (rn_answers run) (rn_answers run'))
    \<and> (e = NextModel \<longrightarrow> displayed (rn_events run') = [])"
  using assms
proof (induction rule: iterate_induct)
  case (finish n st run run1 u es)
  show ?case
  proof (cases "tr_use_cache tr")
    case True
    have "answer_written te tr (rn_events run @ (es @ [done_event model fb u st])) (rn_answers run)
        (rn_answers (write_answer te tr model (tokens_of es) run1))" if "displayed (rn_events run) = []"
    proof -
      have "displayed ((rn_events run @ es) @ [done_event model fb u st]) = tokens_of es"
        unfolding displayed_simps using that displayed_tokens [OF finish(3), of "rn_events run"] by (simp add: display_textless)
      then show ?thesis
        unfolding answer_written_def
        using True streamed_answers [OF finish(1)]
        by (intro exI [of _ model] exI [of _ fb] exI [of _ u] exI [of _ st] conjI) (simp_all add: write_answer_def)
    qed
    then show ?thesis using finish(2) by simp
  next
    case False
    then show ?thesis using streamed_answers [OF finish(1)] by (simp add: write_answer_def)
  qed
next
  case (more n st run run1 run2 u tcs st1 ms run' e)
  then show ?case
    using tool_round_answers [OF more(2)] tool_round_displayed [OF more(2)] streamed_answers [OF more(1)] by (auto simp: cleared_def)
qed (auto simp: streamed_answers cleared_def dest: tool_round_answers)

lemma try_models_answers:
  assumes "try_models te tr base idx models run = (run', res)"
  shows "displayed (rn_events run) = [] \<longrightarrow>
    rn_answers run' = rn_answers run \<or> answer_written te tr (rn_events run') (rn_answers run) (rn_answers run')"
  using assms
proof (induction models arbitrary: idx run)
  case (Cons model models)
  obtain run1 run2 st fb params win mo e where
    r1: "run1 = emit (if idx > 0 then [Status ''fallback'' ''error''] else [Status ''budget'' ''info'']) run"
    and it: "iterate te tr model fb params win mo MAX_TOOL_ITERATIONS st run1 = (run2, e)" and c0: "at_counts st = []"
    and tm: "try_models te tr base idx (model # models) run =
      (case e of TurnReturned \<Rightarrow> (run2, Inr ()) | TurnRaised x \<Rightarrow> (run2, Inl x)
       | NextModel \<Rightarrow> try_models te tr base (Suc idx) models run2)"
    by (rule try_models_step)
  have "rn_answers run1 = rn_answers run" "displayed (rn_events run1) = displayed (rn_events run)"
    by (simp_all add: r1 displayed_textless)
  with iterate_answers [OF it] show ?case
    using Cons.prems Cons.IH [of "Suc idx" run2] unfolding tm by (cases e) auto
qed auto

end
