(* ===== verification/Service_Stream.thy ===== *)
theory Service_Stream
  imports Turn_Loop Connector_Intent
begin

text \<open>
  \<^verbatim>\<open>backend/llm/service/stream.py\<close>, around the loop of \<open>Turn_Loop\<close>: the non-streaming answer, the
  choice of the fallback chain, the connector latches and the tools that follow from them, the
  user's message, the assembled context, the answer cache in front, and \<^verbatim>\<open>generate_stream\<close> as a
  whole. The optical character recognition and the query for connected services are arguments;
  a failure of that query is not modelled.
\<close>

section \<open>Chains of models\<close>

definition role_model :: "config \<Rightarrow> string \<Rightarrow> string result" where
  "role_model cfg k = (case dget (MODELS cfg) k of Some m \<Rightarrow> Inr m | None \<Rightarrow> Inl (KeyError k))"

fun fallback_models :: "config \<Rightarrow> string \<Rightarrow> string list \<Rightarrow> string list result" where
  "fallback_models cfg first [] = Inr []"
| "fallback_models cfg first (k # ks) =
     bindR (role_model cfg k) (\<lambda>m.
     bindR (fallback_models cfg first ks) (\<lambda>ms. Inr (if m \<noteq> first then m # ms else ms)))"

definition chain_from :: "config \<Rightarrow> string \<Rightarrow> string list result" where
  "chain_from cfg first = bindR (fallback_models cfg first (FALLBACK_ORDER cfg)) (\<lambda>ms. Inr (first # ms))"

section \<open>The non-streaming answer\<close>

record reply =
  rp_response :: string
  rp_model :: string
  rp_cache_hit :: bool
  rp_fallback_used :: bool
  rp_usage :: "pyval option"

record ('r, 'c) serving =
  sv_nim :: "'r nim_state"
  sv_answers :: "('c, string answer_payload) answer_cache"

definition all_failed :: reply where
  "all_failed = \<lparr>rp_response = ''All models failed. Please try again later.'', rp_model = ''none'', rp_cache_hit = False,
                 rp_fallback_used = True, rp_usage = None\<rparr>"

fun response_models :: "('r, 'c) backend \<Rightarrow> real \<Rightarrow> (nat \<Rightarrow> real) \<Rightarrow> (nat \<Rightarrow> nat \<Rightarrow> attempt_env) \<Rightarrow> string \<Rightarrow> string \<Rightarrow>
    nat \<Rightarrow> string list \<Rightarrow> ('r, 'c) serving \<Rightarrow> reply result \<times> ('r, 'c) serving" where
  "response_models be t_write wall env message cache_model idx [] sv = (Inr all_failed, sv)"
| "response_models be t_write wall env message cache_model idx (model # models) sv =
     (case nim_call (be_cfg be) (be_health be) (be_client be) (wall idx) (env idx) model (sv_nim sv) of
        (Inl e, _, st) \<Rightarrow> (Inl e, sv\<lparr>sv_nim := st\<rparr>)
      | (Inr r, _, st) \<Rightarrow>
          (let sv1 = sv\<lparr>sv_nim := st\<rparr> in
           case nr_content r of
             None \<Rightarrow> response_models be t_write wall env message cache_model (Suc idx) models sv1
           | Some content \<Rightarrow>
               if strip content = [] then response_models be t_write wall env message cache_model (Suc idx) models sv1
               else (Inr \<lparr>rp_response = strip content, rp_model = model, rp_cache_hit = False,
                          rp_fallback_used = idx > 0, rp_usage = nr_usage r\<rparr>,
                     sv1\<lparr>sv_answers := snd (set_cached_response (be_cfg be) (be_answers be) (be_answers_up be) (be_sha256 be)
                            t_write message (strip content, model) 3600 cache_model [] [] (sv_answers sv1))\<rparr>)))"

definition generate_response :: "('r, 'c) backend \<Rightarrow> real \<Rightarrow> real \<Rightarrow> (nat \<Rightarrow> real) \<Rightarrow> (nat \<Rightarrow> nat \<Rightarrow> attempt_env) \<Rightarrow>
    string \<Rightarrow> string option \<Rightarrow> ('r, 'c) serving \<Rightarrow> reply result \<times> ('r, 'c) serving" where
  "generate_response be t_read t_write wall env message model_override sv =
     (let cache_model = (case model_override of Some m \<Rightarrow> m | None \<Rightarrow> []) in
      case get_cached_response (be_cfg be) (be_answers be) (be_answers_up be) (be_sha256 be) t_read message cache_model [] []
             (sv_answers sv) of
        (Inl e, ans) \<Rightarrow> (Inl e, sv\<lparr>sv_answers := ans\<rparr>)
      | (Inr (Some cached), ans) \<Rightarrow>
          (Inr \<lparr>rp_response = ap_response cached, rp_model = ap_model cached, rp_cache_hit = True,
                rp_fallback_used = False, rp_usage = None\<rparr>, sv\<lparr>sv_answers := ans\<rparr>)
      | (Inr None, ans) \<Rightarrow>
          (case (if cache_model \<noteq> [] then chain_from (be_cfg be) cache_model
                 else bindR (route (be_cfg be) message) (chain_from (be_cfg be))) of
             Inl e \<Rightarrow> (Inl e, sv\<lparr>sv_answers := ans\<rparr>)
           | Inr chain \<Rightarrow> response_models be t_write wall env message cache_model 0 chain (sv\<lparr>sv_answers := ans\<rparr>)))"

section \<open>The streamed turn: inputs\<close>

record stream_input =
  si_message :: string
  si_context :: context_input
  si_model_override :: "string option"
  si_model_params :: "pydict option"
  si_conv_id :: "string option"
  si_user_id :: "int option"
  si_db :: bool
  si_image_b64 :: "string option"
  si_image_mime_type :: "string option"
  si_saliences :: saliences
  si_query_emb :: "real list option"

record ('r, 'c, 'l, 'd) stream_env_all =
  sx_turn :: "('r, 'c, 'd) turn_env"
  sx_latches :: "'l latch_store"
  sx_phrase_net :: "connector \<Rightarrow> phrase_net"
  sx_source_active :: "int option \<Rightarrow> string \<Rightarrow> bool"
  sx_ocr :: "string \<Rightarrow> string result"
  sx_read_clock :: real

record ('r, 'c, 'l, 'd) stream_state =
  ss_nim :: "'r nim_state"
  ss_answers :: "('c, string answer_payload) answer_cache"
  ss_anchors :: anchors
  ss_redis :: 'l
  ss_world :: 'd

record ('c, 'l, 'd) turn_outcome =
  to_events :: "event list"
  to_end :: "unit result"
  to_calls :: "model_call list"
  to_answers :: "('c, string answer_payload) answer_cache"
  to_anchors :: anchors
  to_redis :: 'l
  to_world :: 'd

section \<open>The streamed turn: the chain\<close>

definition select_chain :: "config \<Rightarrow> stream_input \<Rightarrow> string list result" where
  "select_chain cfg si =
     (if set_and_nonempty (si_image_b64 si) \<and> \<not> IMAGE_OCR_ENABLED cfg then Inr [MODEL_VISION cfg]
      else if set_and_nonempty (si_model_override si) then chain_from cfg (the (si_model_override si))
      else if ci_file_ids (si_context si) \<noteq> [] then bindR (role_model cfg ''reasoning'') (\<lambda>m. Inr [m])
      else if needs_memory_tool (si_message si) \<or> ci_intent (si_context si) = ''task''
      then bindR (role_model cfg ''reasoning'') (chain_from cfg)
      else bindR (route cfg (si_message si)) (chain_from cfg))"

text \<open>With tools on offer, the small model leaves the chain, unless it is the only one.\<close>

definition drop_llama :: "config \<Rightarrow> pyval list option \<Rightarrow> string list \<Rightarrow> string list result" where
  "drop_llama cfg tools chain =
     (if tools = None then Inr chain
      else bindR (role_model cfg ''llama'') (\<lambda>llama.
             let capable = filter (\<lambda>m. m \<noteq> llama) chain
             in Inr (if llama \<in> set chain \<and> capable \<noteq> [] then capable else chain)))"

section \<open>The streamed turn: connectors and tools\<close>

text \<open>Redis flags are read in order; the first failure ends the reading.\<close>

fun read_flags :: "'l latch_store \<Rightarrow> 'l \<Rightarrow> string list \<Rightarrow> (string \<times> bool) list" where
  "read_flags ls r [] = []"
| "read_flags ls r (k # ks) =
     (case ls_exists ls r k of Inl _ \<Rightarrow> [] | Inr b \<Rightarrow> (k, b) # read_flags ls r ks)"

definition connector_type :: "connector \<Rightarrow> string" where
  "connector_type c = (case c of Drive \<Rightarrow> ''google_drive'' | Calendar \<Rightarrow> ''google_calendar'' | Gmail \<Rightarrow> ''gmail'')"

definition active_connectors :: "(int option \<Rightarrow> string \<Rightarrow> bool) \<Rightarrow> stream_input \<Rightarrow> flags" where
  "active_connectors source_active si =
     map (\<lambda>c. (c, si_db si \<and> source_active (si_user_id si) (connector_type c))) connectors"

definition listing_key :: "string \<Rightarrow> string" where
  "listing_key conv_id = ''drive_listing:'' @ conv_id"

definition session_flags :: "config \<Rightarrow> 'l latch_store \<Rightarrow> 'l \<Rightarrow> flags \<Rightarrow> stream_input \<Rightarrow> (string \<times> bool) list" where
  "session_flags cfg ls r actives si =
     (if si_db si \<and> si_conv_id si \<noteq> None \<and> USE_REDIS cfg then
        let conv = the (si_conv_id si) in
        read_flags ls r
          ((if flag actives Drive then [listing_key conv, latch_key Drive conv] else [])
           @ (if flag actives Calendar then [latch_key Calendar conv] else [])
           @ (if flag actives Gmail then [latch_key Gmail conv] else []))
      else [])"

definition prior_latches :: "(string \<times> bool) list \<Rightarrow> stream_input \<Rightarrow> flags" where
  "prior_latches fs si =
     map (\<lambda>c. (c, dget fs (latch_key c (case si_conv_id si of Some v \<Rightarrow> v | None \<Rightarrow> [])) = Some True)) connectors"

definition tool_context :: "config \<Rightarrow> stream_input \<Rightarrow> bool \<Rightarrow> flags \<Rightarrow> (string \<times> bool) list \<Rightarrow> flags \<Rightarrow> tool_ctx" where
  "tool_context cfg si is_reasoning actives fs latched =
     \<lparr>tc_message = si_message si, tc_history = ci_history (si_context si), tc_db = si_db si,
      tc_user_id = si_user_id si, tc_conv_id = si_conv_id si, tc_file_ids = ci_file_ids (si_context si),
      tc_is_reasoning = is_reasoning, tc_web_search_enabled = WEB_SEARCH_ENABLED cfg, tc_use_redis = USE_REDIS cfg,
      tc_drive_active = flag actives Drive,
      tc_drive_cache_active = (dget fs (listing_key (case si_conv_id si of Some v \<Rightarrow> v | None \<Rightarrow> [])) = Some True),
      tc_drive_latched = flag latched Drive,
      tc_calendar_active = flag actives Calendar, tc_calendar_latched = flag latched Calendar,
      tc_gmail_active = flag actives Gmail, tc_gmail_latched = flag latched Gmail\<rparr>"

fun names_of :: "pyval list \<Rightarrow> string list result" where
  "names_of [] = Inr []"
| "names_of (s # ss) = bindR (schema_name s) (\<lambda>n. bindR (names_of ss) (\<lambda>ns. Inr (n # ns)))"

definition closing :: "stream_input \<Rightarrow> bool" where
  "closing si = (ci_intent (si_context si) = ''closing'')"

text \<open>The offered tools and their schemas; none in a closing turn.\<close>

definition offer_tools :: "'d registry \<Rightarrow> tool_ctx \<Rightarrow> stream_input \<Rightarrow> ('d tool list \<times> pyval list option) result" where
  "offer_tools reg ctx si =
     (let injected = injected_tools reg ctx;
          schemas = select_tool_schemas (si_message si) (map tool_schema_of injected)
      in bindR (names_of schemas) (\<lambda>kept_names.
           if closing si then Inr ([], None)
           else Inr (filter (\<lambda>t. tool_name t \<in> set kept_names) injected, if schemas \<noteq> [] then Some schemas else None)))"

section \<open>The streamed turn: messages\<close>

definition image_parts :: "string \<Rightarrow> string \<Rightarrow> string \<Rightarrow> content" where
  "image_parts message mime b64 =
     Parts [PDict [(''type'', PStr ''text''), (''text'', PStr message)],
            PDict [(''type'', PStr ''image_url''),
                   (''image_url'', PDict [(''url'', PStr (''data:'' @ mime @ '';base64,'' @ b64))])]]"

definition user_message :: "config \<Rightarrow> (string \<Rightarrow> string result) \<Rightarrow> stream_input \<Rightarrow> (msg \<times> event list) result" where
  "user_message cfg ocr si =
     (if set_and_nonempty (si_image_b64 si) \<and> set_and_nonempty (si_image_mime_type si) then
        (if IMAGE_OCR_ENABLED cfg then
           bindR (ocr (the (si_image_b64 si))) (\<lambda>ocr_text.
             Inr (text_msg ''user''
                    (if strip ocr_text \<noteq> []
                     then si_message si @ newline @ newline @ ''[Image content detected via OCR:]'' @ newline @ take 5000 ocr_text
                     else si_message si @ newline @ newline @ ''[No text detected in the pasted image.]''),
                  [Status ''ocr'' ''info'']))
         else Inr (\<lparr>m_role = ''user'',
                    m_content = image_parts (si_message si) (the (si_image_mime_type si)) (the (si_image_b64 si)), m_rest = []\<rparr>, []))
      else Inr (text_msg ''user'' (si_message si), []))"

text \<open>The warning sign of the marker is outside the alphabet; two characters stand in for it.\<close>

definition ABORTED_MARK :: string where
  "ABORTED_MARK = [CHR 0x82, CHR 0x83] @ '' Turn aborted''"

definition clean_history :: "msg list \<Rightarrow> msg list" where
  "clean_history history =
     map (\<lambda>m. case m_content m of
                Text s \<Rightarrow> if m_role m = ''assistant'' \<and> startswith s ABORTED_MARK
                          then text_msg ''assistant'' ''I encountered an error on that request. Please try again.'' else m
              | Parts _ \<Rightarrow> m) history"

definition clarify_text :: "string \<Rightarrow> string" where
  "clarify_text svc =
     ''## Connected services (tools not loaded this turn)'' @
     newline @
     newline @
     ''The user has connected: '' @
     svc @
     ''. Those tools are NOT available on THIS turn (the current message wasn'' @ [CHR 0x27] @ ''t a clear request for them). '' @
     ''Do NOT claim you lack access to them.'' @
     newline @
     newline @
     ''When the message is a vague fetch/lookup '' @ em_dash @ '' a verb like get / find / open / pull up / grab / check / '' @
     ''show me / look up with NO clear object AND no obvious referent already in this conversation (e.g. \"g'' @
     ''et that document\", \"pull that up for me\", \"find it\", \"any new mail\", \"what'' @ [CHR 0x27] @ ''s next\") '' @ em_dash @ '' it most likely'' @
     '' wants one of the connected services but is too vague to act on. In that case ask ONE short clarifyi'' @
     ''ng question that NAMES the service '' @ em_dash @ '' e.g. \"Do you mean a file in your Google Drive? Which one?\". A c'' @
     ''learer follow-up loads the tools next turn.'' @
     newline @
     newline @
     ''Escape hatch: if the message clearly refers to something already in THIS conversation, or is a norma'' @
     ''l question/task unrelated to files/schedule/email, just answer normally '' @ em_dash @ '' do NOT ask about the conne'' @
     ''cted services.''"

definition CLARIFY_SVC :: "connector \<Rightarrow> string" where
  "CLARIFY_SVC c = (case c of Drive \<Rightarrow> ''Google Drive (files/documents)'' | Calendar \<Rightarrow> ''Google Calendar (schedule/events)''
                    | Gmail \<Rightarrow> ''Gmail (email/inbox)'')"

fun rules_of :: "string list \<Rightarrow> 'd tool list \<Rightarrow> msg list" where
  "rules_of seen [] = []"
| "rules_of seen (t # ts) =
     (case behavioral_rules t of
        Some r \<Rightarrow> if r \<noteq> [] \<and> r \<notin> set seen then text_msg ''system'' r # rules_of (r # seen) ts else rules_of seen ts
      | None \<Rightarrow> rules_of seen ts)"

definition rules_block :: "'d tool list \<Rightarrow> flags \<Rightarrow> flags \<Rightarrow> stream_input \<Rightarrow> msg list" where
  "rules_block tools actives latched si =
     (let unlatched = filter (\<lambda>c. flag actives c \<and> \<not> flag latched c) connectors
      in rules_of [] tools
         @ (if unlatched \<noteq> [] \<and> \<not> closing si then [text_msg ''system'' (clarify_text (join ''; '' (map CLARIFY_SVC unlatched)))] else []))"

definition insert_rules :: "msg list \<Rightarrow> msg list \<Rightarrow> msg list" where
  "insert_rules rules messages = take 1 messages @ rules @ drop 1 messages"

section \<open>The streamed turn\<close>

definition use_cache :: "stream_input \<Rightarrow> bool" where
  "use_cache si = (ci_file_chunks (si_context si) = [] \<and> \<not> set_and_nonempty (si_image_b64 si)
     \<and> (si_model_params si = None \<or> si_model_params si = Some []))"

text \<open>\<^verbatim>\<open>"\n".join(m["content"] for m in history[-4:])\<close>: a content that is not a text is a \<^verbatim>\<open>TypeError\<close>.\<close>

definition history_tail :: "msg list \<Rightarrow> string result" where
  "history_tail history =
     (let recent = last_n 4 history in
      if list_all (\<lambda>m. case m_content m of Text _ \<Rightarrow> True | Parts _ \<Rightarrow> False) recent
      then Inr (join_lines (map (\<lambda>m. case m_content m of Text s \<Rightarrow> s | Parts _ \<Rightarrow> []) recent))
      else Inl (TypeError ''history''))"

definition or_empty :: "string option \<Rightarrow> string" where
  "or_empty v = (case v of Some s \<Rightarrow> s | None \<Rightarrow> [])"

definition cached_events :: "string answer_payload \<Rightarrow> event list" where
  "cached_events p =
     [Status ''cache'' ''info'', Token (ap_response p), Done (ap_model p) True False False False False [] None]"

text \<open>A turn that is over before any model was called.\<close>

definition early :: "('r, 'c, 'l, 'd) stream_state \<Rightarrow> event list \<Rightarrow> unit result \<Rightarrow> ('c, 'l, 'd) turn_outcome" where
  "early ss es e = \<lparr>to_events = es, to_end = e, to_calls = [], to_answers = ss_answers ss, to_anchors = ss_anchors ss,
                    to_redis = ss_redis ss, to_world = ss_world ss\<rparr>"

text \<open>The turn after the cache was asked without success.\<close>

definition uncached_turn :: "('r, 'c, 'l, 'd) stream_env_all \<Rightarrow> stream_input \<Rightarrow> string \<Rightarrow> ('r, 'c, 'l, 'd) stream_state \<Rightarrow>
    ('c, 'l, 'd) turn_outcome" where
  "uncached_turn sx si tail ss =
     (let te = sx_turn sx; be = te_backend te; cfg = be_cfg be in
      case select_chain cfg si of
        Inl e \<Rightarrow> early ss [] (Inl e)
      | Inr chain0 \<Rightarrow>
          let es1 = [Status ''route'' ''info''] in
          case role_model cfg ''reasoning'' of
            Inl e \<Rightarrow> early ss es1 (Inl e)
          | Inr reasoning \<Rightarrow>
              let actives = active_connectors (sx_source_active sx) si;
                  fs = session_flags cfg (sx_latches sx) (ss_redis ss) actives si;
                  lo = resolve_connector_latches cfg (sx_latches sx) (be_client be) (sx_phrase_net sx) actives (prior_latches fs si)
                         (si_conv_id si) (si_query_emb si) (ss_anchors ss) (ss_redis ss);
                  ss1 = ss\<lparr>ss_anchors := lo_anchors lo, ss_redis := lo_redis lo\<rparr>;
                  ctx = tool_context cfg si (hd chain0 = reasoning) actives fs (lo_latched lo)
              in case offer_tools (te_registry te) ctx si of
                   Inl e \<Rightarrow> early ss1 es1 (Inl e)
                 | Inr (injected, tools) \<Rightarrow>
                     (case drop_llama cfg tools chain0 of
                        Inl e \<Rightarrow> early ss1 es1 (Inl e)
                      | Inr chain \<Rightarrow>
                          (case user_message cfg (sx_ocr sx) si of
                             Inl e \<Rightarrow> early ss1 es1 (Inl e)
                           | Inr (user_msg, es2) \<Rightarrow>
                               let base = insert_rules (rules_block injected actives (lo_latched lo) si)
                                            (build_context_messages ((si_context si)\<lparr>ci_history := clean_history (ci_history (si_context si))\<rparr>)
                                             @ [user_msg]);
                                   tr = \<lparr>tr_db = si_db si, tr_user_id = si_user_id si, tr_conv_id = si_conv_id si,
                                         tr_params = si_model_params si, tr_saliences = si_saliences si, tr_tools = tools,
                                         tr_use_cache = use_cache si, tr_message = si_message si,
                                         tr_cache_model = or_empty (si_model_override si), tr_history_tail = tail,
                                         tr_cache_sysprompt = or_empty (ci_system_prompt (si_context si))\<rparr>;
                                   run0 = \<lparr>rn_events = es1 @ es2, rn_calls = [], rn_tokens = 0, rn_nim = ss_nim ss1,
                                           rn_answers = ss_answers ss1, rn_world = ss_world ss1\<rparr>;
                                   (run, e) = try_models te tr base 0 chain run0
                               in \<lparr>to_events = rn_events run, to_end = e, to_calls = rn_calls run, to_answers = rn_answers run,
                                   to_anchors = ss_anchors ss1, to_redis = ss_redis ss1, to_world = rn_world run\<rparr>)))"

definition generate_stream :: "('r, 'c, 'l, 'd) stream_env_all \<Rightarrow> stream_input \<Rightarrow> ('r, 'c, 'l, 'd) stream_state \<Rightarrow>
    ('c, 'l, 'd) turn_outcome" where
  "generate_stream sx si ss =
     (let be = te_backend (sx_turn sx) in
      case history_tail (ci_history (si_context si)) of
        Inl e \<Rightarrow> early ss [] (Inl e)
      | Inr tail \<Rightarrow>
          if use_cache si then
            (case get_cached_response (be_cfg be) (be_answers be) (be_answers_up be) (be_sha256 be) (sx_read_clock sx)
                    (si_message si) (or_empty (si_model_override si)) tail
                    (or_empty (ci_system_prompt (si_context si))) (ss_answers ss) of
               (Inl e, ans) \<Rightarrow> early (ss\<lparr>ss_answers := ans\<rparr>) [] (Inl e)
             | (Inr (Some cached), ans) \<Rightarrow> early (ss\<lparr>ss_answers := ans\<rparr>) (cached_events cached) (Inr ())
             | (Inr None, ans) \<Rightarrow> uncached_turn sx si tail (ss\<lparr>ss_answers := ans\<rparr>))
          else uncached_turn sx si tail ss)"

section \<open>Chains are never empty and never long\<close>

lemma fallback_models_length: "fallback_models cfg first ks = Inr ms \<Longrightarrow> length ms \<le> length ks \<and> first \<notin> set ms"
  by (induction ks arbitrary: ms) (fastforce simp: bindR_eq_Inr split: if_splits)+

definition good_chain :: "config \<Rightarrow> string list \<Rightarrow> bool" where
  "good_chain cfg chain = (chain \<noteq> [] \<and> length chain \<le> Suc (length (FALLBACK_ORDER cfg)))"

lemma chain_from_good: "chain_from cfg first = Inr chain \<Longrightarrow> good_chain cfg chain"
  by (auto simp: chain_from_def bindR_eq_Inr good_chain_def dest: fallback_models_length)

lemma select_chain_good: "select_chain cfg si = Inr chain \<Longrightarrow> good_chain cfg chain"
proof -
  have single: "good_chain cfg [m]" for m by (simp add: good_chain_def)
  show "select_chain cfg si = Inr chain \<Longrightarrow> good_chain cfg chain"
    by (auto simp: select_chain_def bindR_eq_Inr single dest: chain_from_good split: if_splits)
qed

lemma drop_llama_good:
  assumes "drop_llama cfg tools chain = Inr chain'" and "good_chain cfg chain"
  shows "good_chain cfg chain'"
proof -
  have "length (filter (\<lambda>m. m \<noteq> l) chain) \<le> n" if "length chain \<le> n" for l n
    by (rule order_trans [OF length_filter_le that])
  with assms show ?thesis
    by (auto simp: drop_llama_def good_chain_def Let_def bindR_eq_Inr split: if_splits)
qed

section \<open>A turn, by its cases\<close>

text \<open>The latches of a turn, as its tools see them.\<close>

definition turn_latches :: "('r, 'c, 'l, 'd) stream_env_all \<Rightarrow> stream_input \<Rightarrow> ('r, 'c, 'l, 'd) stream_state \<Rightarrow> flags" where
  "turn_latches sx si ss =
     (let be = te_backend (sx_turn sx); actives = active_connectors (sx_source_active sx) si;
          fs = session_flags (be_cfg be) (sx_latches sx) (ss_redis ss) actives si
      in lo_latched (resolve_connector_latches (be_cfg be) (sx_latches sx) (be_client be) (sx_phrase_net sx) actives
           (prior_latches fs si) (si_conv_id si) (si_query_emb si) (ss_anchors ss) (ss_redis ss)))"

lemma turn_latches_answers [simp]: "turn_latches sx si (ss\<lparr>ss_answers := a\<rparr>) = turn_latches sx si ss"
  by (simp add: turn_latches_def)

lemma user_message_quiet: "user_message cfg ocr si = Inr (m, es) \<Longrightarrow> quiet es \<and> callless es \<and> list_all textless es"
  by (auto simp: user_message_def bindR_eq_Inr split: if_splits)

text \<open>A turn that misses the cache raises before any model is called, or it is a run of the chain.\<close>

lemma uncached_turn_cases:
  obtains (raised) es e where "to_events (uncached_turn sx si tail ss) = es" and "to_end (uncached_turn sx si tail ss) = Inl e"
      and "to_calls (uncached_turn sx si tail ss) = []" and "to_answers (uncached_turn sx si tail ss) = ss_answers ss"
      and "quiet es" and "callless es"
  | (ran) base tr chain run0 run e injected ctx actives latched fs is_reasoning where
      "try_models (sx_turn sx) tr base 0 chain run0 = (run, e)" and "good_chain (be_cfg (te_backend (sx_turn sx))) chain"
      and "quiet (rn_events run0)" and "callless (rn_events run0)" and "rn_calls run0 = []" and "rn_answers run0 = ss_answers ss"
      and "rn_tokens run0 = 0" and "rn_nim run0 = ss_nim ss"
      and "offer_tools (te_registry (sx_turn sx)) ctx si = Inr (injected, tr_tools tr)"
      and "ctx = tool_context (be_cfg (te_backend (sx_turn sx))) si is_reasoning actives fs latched"
      and "actives = active_connectors (sx_source_active sx) si \<and> latched = turn_latches sx si ss"
      and "tr_use_cache tr = use_cache si" and "tr_message tr = si_message si" and "tr_cache_model tr = or_empty (si_model_override si)"
      and "tr_history_tail tr = tail" and "tr_cache_sysprompt tr = or_empty (ci_system_prompt (si_context si))"
      and "to_events (uncached_turn sx si tail ss) = rn_events run" and "to_end (uncached_turn sx si tail ss) = e"
      and "to_calls (uncached_turn sx si tail ss) = rn_calls run" and "to_answers (uncached_turn sx si tail ss) = rn_answers run"
      and "displayed (rn_events run0) = []"
proof -
  define te where "te = sx_turn sx"
  define cfg where "cfg = be_cfg (te_backend te)"
  define actives where "actives = active_connectors (sx_source_active sx) si"
  define fs where "fs = session_flags cfg (sx_latches sx) (ss_redis ss) actives si"
  define lo where "lo = resolve_connector_latches cfg (sx_latches sx) (be_client (te_backend te)) (sx_phrase_net sx) actives
     (prior_latches fs si) (si_conv_id si) (si_query_emb si) (ss_anchors ss) (ss_redis ss)"
  define ss1 where "ss1 = ss\<lparr>ss_anchors := lo_anchors lo, ss_redis := lo_redis lo\<rparr>"
  note folds = te_def [symmetric] cfg_def [symmetric] actives_def [symmetric] fs_def [symmetric] lo_def [symmetric] ss1_def [symmetric]
  note body = uncached_turn_def [of sx si tail ss, unfolded Let_def, folded te_def, folded cfg_def, folded actives_def,
      folded fs_def, folded lo_def, folded ss1_def]
  have ans: "ss_answers ss1 = ss_answers ss" by (simp add: ss1_def)
  show thesis
  proof (cases "select_chain cfg si")
    case (Inl e)
    then show thesis using raised [of "[]" e] by (simp add: body early_def)
  next
    case chain: (Inr chain0)
    show thesis
    proof (cases "role_model cfg ''reasoning''")
      case (Inl e)
      then show thesis using chain raised [of "[Status ''route'' ''info'']" e] by (simp add: body early_def)
    next
      case reas: (Inr reasoning)
      define ctx where "ctx = tool_context cfg si (hd chain0 = reasoning) actives fs (lo_latched lo)"
      show thesis
      proof (cases "offer_tools (te_registry te) ctx si")
        case (Inl e)
        then show thesis using chain reas ans raised [of "[Status ''route'' ''info'']" e] by (simp add: body ctx_def early_def)
      next
        case offer: (Inr p)
        obtain injected tools where p: "p = (injected, tools)" by (cases p)
        show thesis
        proof (cases "drop_llama cfg tools chain0")
          case (Inl e)
          then show thesis
            using chain reas offer ans raised [of "[Status ''route'' ''info'']" e] by (simp add: body ctx_def p early_def)
        next
          case drop: (Inr chain1)
          show thesis
          proof (cases "user_message cfg (sx_ocr sx) si")
            case (Inl e)
            then show thesis
              using chain reas offer drop ans raised [of "[Status ''route'' ''info'']" e] by (simp add: body ctx_def p early_def)
          next
            case user: (Inr q)
            obtain um es2 where q: "q = (um, es2)" by (cases q)
            define base where "base = insert_rules (rules_block injected actives (lo_latched lo) si)
                (build_context_messages ((si_context si)\<lparr>ci_history := clean_history (ci_history (si_context si))\<rparr>) @ [um])"
            define tr where "tr = \<lparr>tr_db = si_db si, tr_user_id = si_user_id si, tr_conv_id = si_conv_id si,
                tr_params = si_model_params si, tr_saliences = si_saliences si, tr_tools = tools,
                tr_use_cache = use_cache si, tr_message = si_message si,
                tr_cache_model = or_empty (si_model_override si), tr_history_tail = tail,
                tr_cache_sysprompt = or_empty (ci_system_prompt (si_context si))\<rparr>"
            define run0 where "run0 = \<lparr>rn_events = [Status ''route'' ''info''] @ es2, rn_calls = [], rn_tokens = 0, rn_nim = ss_nim ss1,
                rn_answers = ss_answers ss1, rn_world = ss_world ss1\<rparr>"
            obtain run e where tm: "try_models te tr base 0 chain1 run0 = (run, e)" by (cases "try_models te tr base 0 chain1 run0")
            have eq: "uncached_turn sx si tail ss =
                \<lparr>to_events = rn_events run, to_end = e, to_calls = rn_calls run, to_answers = rn_answers run,
                 to_anchors = ss_anchors ss1, to_redis = ss_redis ss1, to_world = rn_world run\<rparr>"
              using chain reas offer [unfolded p] drop user [unfolded q] tm
              unfolding body by (simp add: ctx_def base_def tr_def run0_def)
            have "good_chain cfg chain1" using drop chain by (blast intro: drop_llama_good select_chain_good)
            moreover have "quiet (rn_events run0)" "callless (rn_events run0)"
              using user_message_quiet [OF user [unfolded q]] by (simp_all add: run0_def)
            moreover have "displayed (rn_events run0) = []"
              using user_message_quiet [OF user [unfolded q]] displayed_textless [of "Status ''route'' ''info'' # es2" "[]"] by (simp add: run0_def)
            ultimately show thesis
              using ran [of tr base chain1 run0 run e ctx injected "hd chain0 = reasoning" actives fs "lo_latched lo"]
                tm offer p ctx_def ans eq unfolding te_def cfg_def
              by (simp add: run0_def tr_def ss1_def turn_latches_def lo_def fs_def cfg_def te_def actives_def Let_def)
          qed
        qed
      qed
    qed
  qed
qed

text \<open>The streamed turn raises early, is answered from the cache, or misses the cache.\<close>

lemma generate_stream_cases:
  obtains (raised) e where "to_events (generate_stream sx si ss) = []" and "to_end (generate_stream sx si ss) = Inl e"
      and "to_calls (generate_stream sx si ss) = []"
  | (cached) p where "to_events (generate_stream sx si ss) = cached_events p" and "to_end (generate_stream sx si ss) = Inr ()"
      and "to_calls (generate_stream sx si ss) = []" and "use_cache si"
  | (missed) tail ss1 where "generate_stream sx si ss = uncached_turn sx si tail ss1"
      and "history_tail (ci_history (si_context si)) = Inr tail" and "turn_latches sx si ss1 = turn_latches sx si ss"
proof -
  let ?be = "te_backend (sx_turn sx)"
  show thesis
  proof (cases "history_tail (ci_history (si_context si))")
    case (Inl e)
    then show thesis using raised [of e] by (simp add: generate_stream_def early_def)
  next
    case tail: (Inr tail)
    show thesis
    proof (cases "use_cache si")
      case False
      then show thesis using tail missed [of tail ss] by (simp add: generate_stream_def)
    next
      case True
      obtain r ans where g: "get_cached_response (be_cfg ?be) (be_answers ?be) (be_answers_up ?be) (be_sha256 ?be)
          (sx_read_clock sx) (si_message si) (or_empty (si_model_override si)) tail
          (or_empty (ci_system_prompt (si_context si))) (ss_answers ss) = (r, ans)"
        by (meson surj_pair)
      show thesis
      proof (cases r)
        case (Inl e)
        then show thesis using tail True g raised [of e] by (simp add: generate_stream_def early_def)
      next
        case (Inr c)
        then show thesis
          using tail True g cached missed [of tail "ss\<lparr>ss_answers := ans\<rparr>"]
          by (cases c) (simp_all add: generate_stream_def early_def)
      qed
    qed
  qed
qed

section \<open>How a streamed turn ends\<close>

lemma uncached_turn_ends:
  fixes sx :: "('r, 'c, 'l, 'd) stream_env_all"
  defines "cfg \<equiv> be_cfg (te_backend (sx_turn sx))"
  shows "turn_ends (to_events (uncached_turn sx si tail ss)) (to_end (uncached_turn sx si tail ss))
    \<and> length (to_calls (uncached_turn sx si tail ss)) \<le> MAX_TOOL_ITERATIONS * Suc (length (FALLBACK_ORDER cfg))
    \<and> executions (te_backend (sx_turn sx)) sig (to_events (uncached_turn sx si tail ss))
        \<le> call_limit (te_registry (sx_turn sx)) (fst sig) * Suc (length (FALLBACK_ORDER cfg))"
proof (cases rule: uncached_turn_cases [of sx si tail ss])
  case (raised es e)
  then show ?thesis by (simp add: callless_executions)
next
  case (ran base tr chain run0 run e injected ctx actives latched fs is_reasoning)
  have len: "length chain \<le> Suc (length (FALLBACK_ORDER cfg))" using ran(2) by (simp add: good_chain_def cfg_def)
  then have "MAX_TOOL_ITERATIONS * length chain \<le> MAX_TOOL_ITERATIONS * Suc (length (FALLBACK_ORDER cfg))"
    and "call_limit (te_registry (sx_turn sx)) (fst sig) * length chain
      \<le> call_limit (te_registry (sx_turn sx)) (fst sig) * Suc (length (FALLBACK_ORDER cfg))"
    by (meson mult_le_mono2)+
  then show ?thesis
    using try_models_invariant [OF ran(1), of sig] ran(3,5,17,18,19) callless_executions [OF ran(4), of "te_backend (sx_turn sx)" sig]
    by (auto intro: order_trans)
qed

lemma generate_stream_turn_ends:
  "turn_ends (to_events (generate_stream sx si ss)) (to_end (generate_stream sx si ss))
   \<and> length (to_calls (generate_stream sx si ss))
       \<le> 60 * Suc (length (FALLBACK_ORDER (be_cfg (te_backend (sx_turn sx)))))"
proof (cases rule: generate_stream_cases [of sx si ss])
  case (missed tail ss1)
  then show ?thesis
    using uncached_turn_ends [of sx si tail ss1 "([], [])"] by (simp add: MAX_TOOL_ITERATIONS_def)
qed (simp_all add: cached_events_def)

text \<open>
  C1. A streamed turn always comes to an end, and says so once: when the generator returns, its last
  event is a \<^verbatim>\<open>done\<close> or an \<^verbatim>\<open>error\<close> and no event before it is one; when it raises, it has sent neither.
  It makes at most 60 model calls for each model of the chain, whatever the models, the tools,
  the caches and the clocks do.
\<close>

theorem turn_ends_once:
  "turn_ends (to_events (generate_stream sx si ss)) (to_end (generate_stream sx si ss))
   \<and> length (to_calls (generate_stream sx si ss))
       \<le> 60 * Suc (length (FALLBACK_ORDER (be_cfg (te_backend (sx_turn sx)))))"
  by (rule generate_stream_turn_ends)

text \<open>
  C7. A tool is never run away with: in one turn, a tool is executed with the same arguments (up to
  null values) at most its limit of identical calls, three unless the tool says otherwise, for
  each model of the chain.
\<close>

theorem identical_calls_bounded:
  "executions (te_backend (sx_turn sx)) (call_signature (te_backend (sx_turn sx)) fn args) (to_events (generate_stream sx si ss))
     \<le> call_limit (te_registry (sx_turn sx)) fn * Suc (length (FALLBACK_ORDER (be_cfg (te_backend (sx_turn sx)))))"
proof (cases rule: generate_stream_cases [of sx si ss])
  case (missed tail ss1)
  then show ?thesis
    using uncached_turn_ends [of sx si tail ss1 "call_signature (te_backend (sx_turn sx)) fn args"] by simp
qed (simp_all add: cached_events_def)

section \<open>Which tools a turn offers\<close>

definition tool_connector :: "string \<Rightarrow> connector option" where
  "tool_connector n =
     (if startswith n ''drive_'' then Some Drive else if startswith n ''calendar_'' then Some Calendar
      else if startswith n ''gmail_'' then Some Gmail else None)"

definition permitted :: "flags \<Rightarrow> flags \<Rightarrow> string \<Rightarrow> bool" where
  "permitted actives latched n =
     (case tool_connector n of None \<Rightarrow> True | Some c \<Rightarrow> flag actives c \<and> flag latched c)"

lemma tool_connector_builtin:
  "list_all (\<lambda>n. tool_connector n = None) (take 13 builtin_names)"
  "list_all (\<lambda>n. tool_connector n = Some Drive) (take 3 (drop 13 builtin_names))"
  "list_all (\<lambda>n. tool_connector n = Some Calendar) (take 6 (drop 16 builtin_names))"
  "list_all (\<lambda>n. tool_connector n = Some Gmail) (drop 22 builtin_names)"
  by code_simp+

lemma offered_permitted:
  assumes "ctx = tool_context cfg si is_reasoning actives fs latched" and "n \<in> set (offered_names ctx)"
  shows "permitted actives latched n"
proof -
  have thirteen: "take 13 builtin_names = take 10 builtin_names @ [''write_memory'', ''web_search'', ''fetch_url'']"
    by (simp add: builtin_names_def)
  show ?thesis
    using assms tool_connector_builtin unfolding thirteen
    by (auto simp: offered_names_def permitted_def list_all_iff tool_context_def split: if_splits)
qed

lemma names_of_tools:
  "list_all (\<lambda>t. schema_name (tool_schema_of t) = Inr (tool_name t)) ts \<Longrightarrow>
   names_of (map tool_schema_of ts) = Inr (map tool_name ts)"
  by (induction ts) auto

lemma injected_named:
  "list_all (\<lambda>t. schema_name (tool_schema_of t) = Inr (tool_name t)) (injected_tools (TOOL_REGISTRY ti) ctx)"
proof -
  have "schema_name (tool_schema_of t) = Inr (tool_name t)" if "t \<in> set (builtin_tools ti)" for t
    using that builtin_schema [of ti] schema_for_name [of "tool_name t"] builtin_tool_names [of ti]
    by (auto simp: list_all_iff) (metis image_eqI set_map)
  then show ?thesis by (auto simp: injected_tools_def TOOL_REGISTRY_eq list_all_iff)
qed

lemma set_injected_names: "tool_name ` set (injected_tools (TOOL_REGISTRY ti) ctx) = set (offered_names ctx)"
  by (simp add: injected_tools_def TOOL_REGISTRY_eq comp_def flip: builtin_offered [of ctx ti])

definition call_permitted :: "stream_input \<Rightarrow> flags \<Rightarrow> flags \<Rightarrow> model_call \<Rightarrow> bool" where
  "call_permitted si actives latched c =
     (case lc_tools c of
        None \<Rightarrow> True
      | Some schemas \<Rightarrow> \<not> closing si \<and> (case names_of schemas of Inl _ \<Rightarrow> False | Inr ns \<Rightarrow> list_all (permitted actives latched) ns))"

lemma offered_call_permitted:
  assumes "offer_tools (TOOL_REGISTRY ti) ctx si = Inr (injected, tools)" and "lc_tools c = None \<or> lc_tools c = tools"
    and ctx: "ctx = tool_context cfg si is_reasoning actives fs latched"
  shows "call_permitted si actives latched c"
proof -
  let ?ts = "injected_tools (TOOL_REGISTRY ti) ctx"
  have names: "names_of (map tool_schema_of ?ts) = Inr (map tool_name ?ts)"
    by (rule names_of_tools [OF injected_named])
  have "list_all (permitted actives latched) (map tool_name ?ts)"
    using offered_permitted [OF ctx] set_injected_names [of ti ctx] by (fastforce simp: list_all_iff)
  then show ?thesis
    using assms(1,2) names
    by (auto simp: offer_tools_def select_tool_schemas_def Let_def call_permitted_def split: if_splits)
qed

text \<open>
  C6. Connector tools need the latch in every model call of a turn: with the built-in tools, whenever
  a call of a streamed turn offers a Drive, Calendar or Gmail tool, that connector is connected and
  its latch was on before the turn or was won in it; and a closing turn offers no tool at all.
\<close>

theorem connector_tools_need_latch:
  assumes "te_registry (sx_turn sx) = TOOL_REGISTRY ti"
  shows "list_all (call_permitted si (active_connectors (sx_source_active sx) si) (turn_latches sx si ss))
    (to_calls (generate_stream sx si ss))"
proof (cases rule: generate_stream_cases [of sx si ss])
  case (missed tail ss1)
  show ?thesis
  proof (cases rule: uncached_turn_cases [of sx si tail ss1])
    case (ran base tr chain run0 run e injected ctx actives latched fs is_reasoning)
    have "offers tr (rn_calls run)"
      using try_models_invariant [OF ran(1), of "([], [])"] ran(5) by (simp add: offers_def)
    then have "list_all (\<lambda>c. lc_tools c = None \<or> lc_tools c = tr_tools tr) (rn_calls run)" by (simp add: offers_def)
    moreover have "call_permitted si actives latched c" if "lc_tools c = None \<or> lc_tools c = tr_tools tr" for c
      by (rule offered_call_permitted [OF ran(9) [unfolded assms] that ran(10)])
    ultimately have "list_all (call_permitted si actives latched) (rn_calls run)" by (auto simp: list_all_iff)
    then show ?thesis using ran(11,19) missed(1,3) by simp
  qed (simp add: missed(1))
qed simp_all

section \<open>Who is served from the cache\<close>

text \<open>The lookup at the start of a turn. The user, the memory sheet and the retrieved context are no part of it.\<close>

definition lookup :: "('r, 'c, 'l, 'd) stream_env_all \<Rightarrow> stream_input \<Rightarrow> string \<Rightarrow> ('c, string answer_payload) answer_cache \<Rightarrow>
    string answer_payload option result \<times> ('c, string answer_payload) answer_cache" where
  "lookup sx si tail st =
     (let be = te_backend (sx_turn sx) in
      get_cached_response (be_cfg be) (be_answers be) (be_answers_up be) (be_sha256 be) (sx_read_clock sx) (si_message si)
        (or_empty (si_model_override si)) tail (or_empty (ci_system_prompt (si_context si))) st)"

lemma generate_stream_lookup:
  assumes "history_tail (ci_history (si_context si)) = Inr tail" and "use_cache si"
  shows "generate_stream sx si ss =
    (case lookup sx si tail (ss_answers ss) of
       (Inl e, ans) \<Rightarrow> early (ss\<lparr>ss_answers := ans\<rparr>) [] (Inl e)
     | (Inr (Some cached), ans) \<Rightarrow> early (ss\<lparr>ss_answers := ans\<rparr>) (cached_events cached) (Inr ())
     | (Inr None, ans) \<Rightarrow> uncached_turn sx si tail (ss\<lparr>ss_answers := ans\<rparr>))"
  using assms by (simp add: generate_stream_def lookup_def Let_def)

lemma lookup_mem_ok:
  "\<not> USE_REDIS (be_cfg (te_backend (sx_turn sx))) \<Longrightarrow> mem_ok (ac_memory st) \<Longrightarrow> mem_ok (ac_memory (snd (lookup sx si tail st)))"
  by (auto simp: lookup_def get_cached_response_def redis_in_use_def memory_lookup_def Let_def split: prod.splits)
    (metis mem_get_ok snd_conv)

lemma uncached_turn_writes:
  assumes "to_answers (uncached_turn sx si tail ss) \<noteq> ss_answers ss"
  obtains model fb usage st where "last (to_events (uncached_turn sx si tail ss)) = done_event model fb usage st"
    and "to_answers (uncached_turn sx si tail ss) =
      snd (set_cached_response (be_cfg (te_backend (sx_turn sx))) (be_answers (te_backend (sx_turn sx)))
        (be_answers_up (te_backend (sx_turn sx))) (be_sha256 (te_backend (sx_turn sx))) (te_write_clock (sx_turn sx))
        (si_message si) (displayed (to_events (uncached_turn sx si tail ss)), model) 3600 (or_empty (si_model_override si)) tail
        (or_empty (ci_system_prompt (si_context si))) (ss_answers ss))"
proof (cases rule: uncached_turn_cases [of sx si tail ss])
  case (raised es e)
  with assms show ?thesis by simp
next
  case (ran base tr chain run0 run e injected ctx actives latched fs is_reasoning)
  then have "answer_written (sx_turn sx) tr (rn_events run) (ss_answers ss) (rn_answers run)"
    using try_models_answers [OF ran(1)] assms by simp
  then show ?thesis using that ran unfolding answer_written_def by auto
qed

text \<open>The key under which a turn looks for an answer and writes its own.\<close>

definition turn_key :: "('r, 'c, 'l, 'd) stream_env_all \<Rightarrow> stream_input \<Rightarrow> string \<Rightarrow> string" where
  "turn_key sx si tail =
     make_key (be_sha256 (te_backend (sx_turn sx))) (si_message si) (or_empty (si_model_override si)) tail
       (or_empty (ci_system_prompt (si_context si)))"

text \<open>
  C26. An answer made for one user is served to another. In a process without Redis, suppose a turn of one user misses the cache
  and writes its answer there. Then comes a turn of any other user with the same message, model choice, last four messages of
  history and system prompt, and neither attachments, image nor parameters. In between other turns have read the cache
  and written to it, under other keys and less than 1000 times, and all clocks are within an hour of the first write. Then
  the second turn sends three events and nothing else: that the cache was used, all the text the first user had on the screen at the end of the first turn, and
  the last event with the first turn's model. It calls no model - although that text may rest on the first user's memory
  sheet, retrieved context, graph facts and tools, none of which is part of the key.
\<close>

theorem answer_served_to_other_user:
  assumes "te_backend (sx_turn sx2) = te_backend (sx_turn sx1)" and "\<not> USE_REDIS (be_cfg (te_backend (sx_turn sx1)))"
    and "mem_ok (ac_memory (ss_answers ss1))"
    and "sx_read_clock sx2 \<le> te_write_clock (sx_turn sx1) + 3600"
    and "use_cache si1" and "use_cache si2"
    and "history_tail (ci_history (si_context si1)) = Inr tail" and "history_tail (ci_history (si_context si2)) = Inr tail"
    and "si_message si2 = si_message si1" and "si_model_override si2 = si_model_override si1"
    and "ci_system_prompt (si_context si2) = ci_system_prompt (si_context si1)"
    and "fst (lookup sx1 si1 tail (ss_answers ss1)) = Inr None"
    and "to_answers (generate_stream sx1 si1 ss1) \<noteq> snd (lookup sx1 si1 tail (ss_answers ss1))"
    and "ac_memory (ss_answers ss2) = fold mem_step ops (ac_memory (to_answers (generate_stream sx1 si1 ss1)))"
    and "list_all (spares (turn_key sx1 si1 tail) (te_write_clock (sx_turn sx1) + 3600)) ops" and "length (filter is_write ops) < 1000"
  shows "\<exists>model fb usage st. last (to_events (generate_stream sx1 si1 ss1)) = done_event model fb usage st
    \<and> to_events (generate_stream sx2 si2 ss2) =
        [Status ''cache'' ''info'', Token (displayed (to_events (generate_stream sx1 si1 ss1))),
         Done model True False False False False [] None]
    \<and> to_end (generate_stream sx2 si2 ss2) = Inr () \<and> to_calls (generate_stream sx2 si2 ss2) = []"
proof -
  define ans where "ans = snd (lookup sx1 si1 tail (ss_answers ss1))"
  have missed: "lookup sx1 si1 tail (ss_answers ss1) = (Inr None, ans)"
    using assms(12) by (metis ans_def prod.collapse)
  have turn1: "generate_stream sx1 si1 ss1 = uncached_turn sx1 si1 tail (ss1\<lparr>ss_answers := ans\<rparr>)"
    using generate_stream_lookup [OF assms(7,5), of sx1 ss1] by (simp add: missed)
  have "to_answers (uncached_turn sx1 si1 tail (ss1\<lparr>ss_answers := ans\<rparr>)) \<noteq> ss_answers (ss1\<lparr>ss_answers := ans\<rparr>)"
    using assms(13) by (simp add: turn1 missed)
  then obtain model fb usage st where ev: "last (to_events (generate_stream sx1 si1 ss1)) = done_event model fb usage st"
    and wr: "to_answers (generate_stream sx1 si1 ss1) =
      snd (set_cached_response (be_cfg (te_backend (sx_turn sx1))) (be_answers (te_backend (sx_turn sx1)))
        (be_answers_up (te_backend (sx_turn sx1))) (be_sha256 (te_backend (sx_turn sx1))) (te_write_clock (sx_turn sx1))
        (si_message si1) (displayed (to_events (generate_stream sx1 si1 ss1)), model) 3600 (or_empty (si_model_override si1)) tail
        (or_empty (ci_system_prompt (si_context si1))) ans)"
    unfolding turn1 by (rule uncached_turn_writes) simp
  let ?key = "turn_key sx1 si1 tail"
  let ?p = "\<lparr>ap_response = displayed (to_events (generate_stream sx1 si1 ss1)), ap_model = model, ap_timestamp = te_write_clock (sx_turn sx1)\<rparr>"
  have ok: "mem_ok (ac_memory ans)" unfolding ans_def by (rule lookup_mem_ok [OF assms(2,3)])
  have "ac_memory (to_answers (generate_stream sx1 si1 ss1)) = mem_set (ac_memory ans) (te_write_clock (sx_turn sx1)) ?key ?p 3600"
    using assms(2) by (subst wr) (simp add: set_cached_response_def redis_in_use_def memory_write_def turn_key_def Let_def)
  then have "holds_answer ?key ?p (te_write_clock (sx_turn sx1) + 3600) 0 (ac_memory (to_answers (generate_stream sx1 si1 ss1)))"
    using holds_answer_set [OF ok, of ?key ?p "te_write_clock (sx_turn sx1)" 3600] by simp
  from holds_answer_run [OF this assms(15)] assms(16)
  have "holds_answer ?key ?p (te_write_clock (sx_turn sx1) + 3600) (length (filter is_write ops)) (ac_memory (ss_answers ss2))"
    by (simp add: assms(14) MAX_SIZE_def)
  from held_answer_read [OF this assms(4)] have "fst (lookup sx2 si2 tail (ss_answers ss2)) = Inr (Some ?p)"
    using assms(1,2,9-11)
    by (simp add: lookup_def get_cached_response_def redis_in_use_def memory_lookup_def turn_key_def Let_def case_prod_beta)
  then obtain ans2 where "lookup sx2 si2 tail (ss_answers ss2) = (Inr (Some ?p), ans2)" by (metis prod.collapse)
  then have "generate_stream sx2 si2 ss2 = early (ss2\<lparr>ss_answers := ans2\<rparr>) (cached_events ?p) (Inr ())"
    using generate_stream_lookup [OF assms(8,6), of sx2 ss2] by simp
  then show ?thesis using ev by (auto simp: early_def cached_events_def)
qed

text \<open>A turn whose first model streams text and nothing else.\<close>

lemma plain_answer:
  fixes te :: "('r, 'c, 'd) turn_env"
  defines "be \<equiv> te_backend te"
  assumes "rn_calls run = []" and "rn_tokens run = 0"
    and "check_turn_budget (be_cfg be) (te_turn_start te) (te_iter_clock te 0) 0 = None"
    and "so_chunks (call_stream (be_cfg be) (be_health be) (be_loads be) (be_client be) (te_wall te 0) (te_stream te 0) model (rn_nim run)) = cs"
    and "so_end (call_stream (be_cfg be) (be_health be) (be_loads be) (be_client be) (te_wall te 0) (te_stream te 0) model (rn_nim run)) = Inr ()"
    and "consume (be_cfg be) (te_turn_start te) (te_chunk_clock te 0) 0 cs (start_consume 0) = c"
    and "co_reason c = None" and "co_calls c = []" and "co_accumulated c \<noteq> []"
  shows "rn_answers (fst (try_models te tr base 0 (model # models) run)) =
    rn_answers (write_answer te tr model (concat (co_accumulated c)) run)"
proof -
  have wa: "rn_answers (write_answer te tr model a r1) = rn_answers (write_answer te tr model a r2)"
    if "rn_answers r1 = rn_answers r2" for a r1 r2
    using that by (simp add: write_answer_def)
  have it: "snd (iterate te tr model fb params win mo (Suc m) st (emit es run)) = TurnReturned
      \<and> rn_answers (fst (iterate te tr model fb params win mo (Suc m) st (emit es run))) =
        rn_answers (write_answer te tr model (concat (co_accumulated c)) run)" for fb params win mo m st es
    using assms(2-) unfolding be_def by (simp add: Let_def) (intro conjI impI wa; simp)
  have n: "MAX_TOOL_ITERATIONS = Suc 59" by (simp add: MAX_TOOL_ITERATIONS_def)
  obtain run1 run2 st fb params win mo e where
    r1: "run1 = emit (if (0 :: nat) > 0 then [Status ''fallback'' ''error''] else [Status ''budget'' ''info'']) run"
    and run2: "iterate te tr model fb params win mo MAX_TOOL_ITERATIONS st run1 = (run2, e)"
    and tm: "try_models te tr base 0 (model # models) run =
      (case e of TurnReturned \<Rightarrow> (run2, Inr ()) | TurnRaised x \<Rightarrow> (run2, Inl x)
       | NextModel \<Rightarrow> try_models te tr base (Suc 0) models run2)"
    by (rule try_models_step)
  show ?thesis
    using it [of fb params win mo 59 st "[Status ''budget'' ''info'']"] run2 unfolding tm r1 n by (simp del: iterate.simps)
qed

definition sample_impls :: "unit tool_impls" where
  "sample_impls =
     \<lparr>ti_host = \<lparr>th_log_flush = \<lambda>w _. Inr w, th_rollback = id, th_dumps = \<lambda>_. [], th_str = \<lambda>_. [], th_exc = \<lambda>_. []\<rparr>,
      ti_search = \<lambda>_. Inr [], ti_run = \<lambda>_ _ _ w. (Inr PNone, w)\<rparr>"

definition sample_backend :: "((string \<times> real) option, unit) backend" where
  "sample_backend =
     \<lparr>be_cfg = sample_plain, be_catalog = reset_cache, be_health = sample_store, be_answers = sample_answers,
      be_answers_up = False, be_sha256 = id, be_client = True, be_loads = sample_loads, be_show_parts = \<lambda>_. [],
      be_dumps_sorted = \<lambda>_. []\<rparr>"

definition sample_sx :: "((string \<times> real) option, unit, unit, unit) stream_env_all" where
  "sample_sx =
     \<lparr>sx_turn = \<lparr>te_backend = sample_backend, te_registry = TOOL_REGISTRY sample_impls, te_host = ti_host sample_impls,
                te_turn_start = 0, te_iter_clock = \<lambda>_. 1, te_chunk_clock = \<lambda>_ _. 2, te_wall = \<lambda>_. 1000,
                te_stream = \<lambda>_ a. sample_senv (Suc a), te_write_clock = 1001\<rparr>,
      sx_latches = sample_latches, sx_phrase_net = \<lambda>_ _ _ _. EmbedOther, sx_source_active = \<lambda>_ _. False,
      sx_ocr = \<lambda>_. Inr [], sx_read_clock = 1500\<rparr>"

definition sample_chat :: "int \<Rightarrow> string \<Rightarrow> stream_input" where
  "sample_chat user sheet =
     \<lparr>si_message = ''pin?'',
      si_context = \<lparr>ci_memory_sheet = sheet, ci_project_summary = [], ci_retrieved_chunks = [], ci_history_summary = [],
                    ci_history = [], ci_system_prompt = None, ci_file_chunks = [], ci_file_names = [], ci_file_ids = [],
                    ci_graph_context = [], ci_graph_facts = [], ci_active_goals = [], ci_recent_insights = [],
                    ci_conflicted_facts = [], ci_last_session = [], ci_intent = ''question''\<rparr>,
      si_model_override = None, si_model_params = None, si_conv_id = None, si_user_id = Some user, si_db = False,
      si_image_b64 = None, si_image_mime_type = None, si_saliences = [], si_query_emb = None\<rparr>"

definition sample_ss :: "((string \<times> real) option, unit, unit, unit) stream_state" where
  "sample_ss =
     \<lparr>ss_nim = \<lparr>ns_breaker = init_breaker, ns_endpoint = \<lparr>ep_local = None, ep_redis = None\<rparr>\<rparr>,
      ss_answers = \<lparr>ac_memory = empty_cache, ac_redis = ()\<rparr>, ss_anchors = [], ss_redis = (), ss_world = ()\<rparr>"

lemma sample_chain: "select_chain sample_plain (sample_chat u sheet) = Inr (''openai/gpt-oss-20b'' # [''nvidia/nemotron-3-super-120b-a12b'', ''deepseek-ai/deepseek-v4-flash-0731''])"
proof -
  have "needs_memory_tool ''pin?'' = False" "classify ''pin?'' = ''llama''" by code_simp+
  then show ?thesis
    by (simp add: select_chain_def sample_chat_def set_and_nonempty_def sample_plain_def default_config_def route_def
        dget_def chain_from_def role_model_def)
qed

lemma sample_no_tools:
  "offer_tools (TOOL_REGISTRY ti) (tool_context sample_plain (sample_chat u sheet) b (active_connectors (\<lambda>_ _. False) (sample_chat u sheet)) fs l) (sample_chat u sheet)
    = Inr ([], None)"
proof -
  let ?ctx = "tool_context sample_plain (sample_chat u sheet) b (active_connectors (\<lambda>_ _. False) (sample_chat u sheet)) fs l"
  have "has_url ''pin?'' = False" by code_simp
  then have "offered_names ?ctx = []"
    by (simp add: offered_names_def tool_context_def sample_chat_def active_connectors_def connectors_def flag_def dget_def
        sample_plain_def default_config_def inject_fetch_url_def last_n_def)
  then have "injected_tools (TOOL_REGISTRY ti) ?ctx = []" using set_injected_names [of ti ?ctx] by simp
  then show ?thesis by (simp add: offer_tools_def select_tool_schemas_def Let_def)
qed

lemma sample_writes:
  "to_answers (uncached_turn sample_sx (sample_chat u sheet) [] sample_ss) =
     snd (set_cached_response sample_plain sample_answers False id 1001 ''pin?'' (''Hello'', ''openai/gpt-oss-20b'') 3600 [] [] []
       (ss_answers sample_ss))"
proof -
  let ?te = "sx_turn sample_sx"
  have be: "te_backend ?te = sample_backend" by (simp add: sample_sx_def)
  have chk: "check_turn_budget (be_cfg (te_backend ?te)) (te_turn_start ?te) (te_iter_clock ?te 0) 0 = None"
    by (simp add: sample_sx_def sample_backend_def sample_plain_def default_config_def check_turn_budget_def)
  have st: "stream_lines sample_plain sample_loads [(1, ''data: 2''), (2, ''data: [DONE]'')] [] = ([Content (PStr ''Hello'')], EndDone)"
    by code_simp
  have "has_key sample_plain" "fst (is_open 1000 ''openai/gpt-oss-20b'' (ns_breaker (ss_nim sample_ss))) = Inr False" "\<not> failover_on sample_plain"
    "attempts sample_plain = [0, 1, 2]"
    by code_simp+
  then have call: "so_chunks (call_stream sample_plain sample_store sample_loads True 1000 (\<lambda>a. sample_senv (Suc a)) ''openai/gpt-oss-20b'' (ss_nim sample_ss))
      = [Content (PStr ''Hello'')]"
    "so_end (call_stream sample_plain sample_store sample_loads True 1000 (\<lambda>a. sample_senv (Suc a)) ''openai/gpt-oss-20b'' (ss_nim sample_ss)) = Inr ()"
    using st by (auto simp: call_stream_def pick_nim_if_off sample_senv_def stream_end_def Let_def split: prod.splits)
  have co: "consume sample_plain 0 (\<lambda>_. 2) 0 [Content (PStr ''Hello'')] (start_consume 0) =
      \<lparr>co_events = [Token ''Hello''], co_accumulated = [''Hello''], co_calls = [], co_usage = None, co_reason = None, co_tokens = 5\<rparr>"
    by (simp add: start_consume_def Let_def check_turn_budget_def sample_plain_def default_config_def)
  have role: "role_model sample_plain ''reasoning'' = Inr ''nvidia/nemotron-3-super-120b-a12b''" by code_simp
  have um: "user_message sample_plain ocr (sample_chat u sheet) = Inr (text_msg ''user'' ''pin?'', [])" for ocr
    by (simp add: user_message_def sample_chat_def set_and_nonempty_def)
  have ans: "rn_answers (fst (try_models ?te tr base 0 (''openai/gpt-oss-20b'' # models) run)) =
      rn_answers (write_answer ?te tr ''openai/gpt-oss-20b'' ''Hello'' run)"
    if "rn_calls run = []" "rn_tokens run = 0" "rn_nim run = ss_nim sample_ss" for tr base models run
    using plain_answer [of run ?te _ _ "consume sample_plain 0 (\<lambda>_. 2) 0 [Content (PStr ''Hello'')] (start_consume 0)" tr base models, OF that(1,2) chk]
      that(3) call co by (simp add: sample_sx_def sample_backend_def del: consume.simps)
  have cfg: "be_cfg sample_backend = sample_plain" by (simp add: sample_backend_def)
  have reg: "te_registry ?te = TOOL_REGISTRY sample_impls" "sx_source_active sample_sx = (\<lambda>_ _. False)"
    by (simp_all add: sample_sx_def)
  show ?thesis
    unfolding uncached_turn_def be cfg reg Let_def sample_chain role sum.case sample_no_tools um drop_llama_def
    by (simp add: case_prod_beta ans write_answer_def be cfg)
      (simp add: sample_backend_def sample_chat_def sample_sx_def use_cache_def or_empty_def set_and_nonempty_def)
qed


text \<open>In between another answer is written, and the first one is read.\<close>

definition sample_between :: "string \<Rightarrow> string answer_payload mem_event list" where
  "sample_between key = [MemSet 1002 ''other'' \<lparr>ap_response = ''x'', ap_model = ''m'', ap_timestamp = 1002\<rparr> 3600, MemGet 1200 key]"

definition sample_after :: "((string \<times> real) option, unit, unit, unit) stream_state" where
  "sample_after =
     (let ans = to_answers (generate_stream sample_sx (sample_chat 1 ''- pin 1234'') sample_ss)
      in sample_ss\<lparr>ss_answers := ans\<lparr>ac_memory := fold mem_step (sample_between (turn_key sample_sx (sample_chat 1 ''- pin 1234'') [])) (ac_memory ans)\<rparr>\<rparr>)"

lemma sample_lookup: "lookup sample_sx (sample_chat u sheet) [] (ss_answers sample_ss) = (Inr None, ss_answers sample_ss)"
  by (simp add: lookup_def sample_sx_def sample_backend_def get_cached_response_def redis_in_use_def memory_lookup_def
      sample_ss_def mem_get_def empty_cache_def Let_def)

lemma sample_tail: "history_tail (ci_history (si_context (sample_chat u sheet))) = Inr []"
  by (simp add: history_tail_def sample_chat_def last_n_def join_lines_def)

lemma sample_use_cache: "use_cache (sample_chat u sheet)"
  by (simp add: use_cache_def sample_chat_def set_and_nonempty_def)

lemma sample_turn1:
  "to_answers (generate_stream sample_sx (sample_chat u sheet) sample_ss) =
     snd (set_cached_response sample_plain sample_answers False id 1001 ''pin?'' (''Hello'', ''openai/gpt-oss-20b'') 3600 [] [] []
       (ss_answers sample_ss))"
proof -
  have "sample_ss\<lparr>ss_answers := ss_answers sample_ss\<rparr> = sample_ss" by simp
  then show ?thesis
    using generate_stream_lookup [OF sample_tail sample_use_cache, of sample_sx _ _ sample_ss] by (simp add: sample_lookup sample_writes)
qed

theorem answer_served_to_other_user_witness:
  "\<exists>model. to_events (generate_stream sample_sx (sample_chat 2 []) sample_after) =
      [Status ''cache'' ''info'', Token (displayed (to_events (generate_stream sample_sx (sample_chat 1 ''- pin 1234'') sample_ss))),
       Done model True False False False False [] None]"
proof -
  let ?key = "turn_key sample_sx (sample_chat 1 ''- pin 1234'') []"
  have written: "snd (set_cached_response sample_plain sample_answers False id 1001 ''pin?'' (''Hello'', ''openai/gpt-oss-20b'') 3600 [] [] []
       (ss_answers sample_ss)) \<noteq> ss_answers sample_ss"
    by (simp add: set_cached_response_def redis_in_use_def memory_write_def sample_ss_def empty_cache_def mem_set_def
        dset_def move_to_end_def ddel_def MAX_SIZE_def Let_def)
  have "?key \<noteq> ''other''"
    by (simp add: turn_key_def make_key_def raw_key_def CACHE_VERSION_def sample_sx_def sample_backend_def)
  then have between: "list_all (spares ?key (1001 + 3600)) (sample_between ?key)" "length (filter is_write (sample_between ?key)) < 1000"
    by (auto simp: sample_between_def)
  have clocks: "te_write_clock (sx_turn sample_sx) = 1001" "sx_read_clock sample_sx = 1500" by (simp_all add: sample_sx_def)
  have ok: "mem_ok (ac_memory (ss_answers sample_ss))" by (simp add: sample_ss_def empty_cache_def mem_ok_def)
  have off: "\<not> USE_REDIS (be_cfg (te_backend (sx_turn sample_sx)))"
    by (simp add: sample_sx_def sample_backend_def sample_plain_def default_config_def)
  have "\<exists>model fb usage st. last (to_events (generate_stream sample_sx (sample_chat 1 ''- pin 1234'') sample_ss)) = done_event model fb usage st
    \<and> to_events (generate_stream sample_sx (sample_chat 2 []) sample_after) =
        [Status ''cache'' ''info'', Token (displayed (to_events (generate_stream sample_sx (sample_chat 1 ''- pin 1234'') sample_ss))),
         Done model True False False False False [] None]
    \<and> to_end (generate_stream sample_sx (sample_chat 2 []) sample_after) = Inr ()
    \<and> to_calls (generate_stream sample_sx (sample_chat 2 []) sample_after) = []"
  proof (rule answer_served_to_other_user [OF refl off ok _ sample_use_cache sample_use_cache sample_tail sample_tail])
    show "list_all (spares ?key (te_write_clock (sx_turn sample_sx) + 3600)) (sample_between ?key)" using between clocks by simp
  qed (use between written in \<open>simp_all add: clocks sample_lookup sample_turn1 sample_after_def Let_def\<close>, simp_all add: sample_chat_def)
  then show ?thesis by blast
qed

theorem connector_tools_need_latch_witness:
  "te_registry (sx_turn sample_sx) = TOOL_REGISTRY sample_impls
   \<and> list_all (call_permitted (sample_chat 1 []) (active_connectors (sx_source_active sample_sx) (sample_chat 1 []))
        (turn_latches sample_sx (sample_chat 1 []) sample_ss)) (to_calls (generate_stream sample_sx (sample_chat 1 []) sample_ss))"
proof -
  have "te_registry (sx_turn sample_sx) = TOOL_REGISTRY sample_impls" by (simp add: sample_sx_def)
  with connector_tools_need_latch [OF this] show ?thesis by simp
qed

section \<open>Malformed tool arguments\<close>

text \<open>
  Arguments that are JSON but no object end the turn in an exception: when the first model
  call of a model asks for a tool whose arguments parse to a list, a number, a text or null, the
  generator raises \<^verbatim>\<open>AttributeError\<close> without a final event, whereas arguments that do not parse
  at all are taken as an empty object and the tool is called.
\<close>

theorem nonobject_arguments_crash:
  fixes te :: "('r, 'c, 'd) turn_env"
  defines "be \<equiv> te_backend te"
  assumes "check_turn_budget (be_cfg be) (te_turn_start te) (te_iter_clock te (length (rn_calls run))) (rn_tokens run) = None"
    and "so_end (call_stream (be_cfg be) (be_health be) (be_loads be) (be_client be) (te_wall te (length (rn_calls run)))
           (te_stream te (length (rn_calls run))) model (rn_nim run)) = Inr ()"
    and "consume (be_cfg be) (te_turn_start te) (te_chunk_clock te (length (rn_calls run))) 0
           (so_chunks (call_stream (be_cfg be) (be_health be) (be_loads be) (be_client be) (te_wall te (length (rn_calls run)))
              (te_stream te (length (rn_calls run))) model (rn_nim run))) (start_consume (rn_tokens run)) = c"
    and "co_reason c = None" and "co_calls c = (ident, fn, arguments) # others"
    and "be_loads be arguments = Some v" and "\<And>d. v \<noteq> PDict d" and "quiet (rn_events run)"
  shows "snd (try_models te tr base idx (model # models) run) = Inl (AttributeError ''items'')
    \<and> quiet (rn_events (fst (try_models te tr base idx (model # models) run)))"
proof -
  have bad: "\<And>args. parse_args (te_backend te) (snd (snd (ident, fn, arguments))) \<noteq> PDict args"
    using assms(7,8) by (simp add: parse_args_def be_def)
  have it: "snd (iterate te tr model fb params win mo (Suc m) st (emit es run)) = TurnRaised (AttributeError ''items'')"
    for fb params win mo m st es
    using assms(2-6) unfolding be_def
    by (simp add: Let_def tool_round_other [OF bad] split: if_split)
  have n: "MAX_TOOL_ITERATIONS = Suc 59" by (simp add: MAX_TOOL_ITERATIONS_def)
  obtain run1 run2 st fb params win mo e where
    r1: "run1 = emit (if idx > 0 then [Status ''fallback'' ''error''] else [Status ''budget'' ''info'']) run"
    and run2: "iterate te tr model fb params win mo MAX_TOOL_ITERATIONS st run1 = (run2, e)"
    and tm: "try_models te tr base idx (model # models) run =
      (case e of TurnReturned \<Rightarrow> (run2, Inr ()) | TurnRaised x \<Rightarrow> (run2, Inl x)
       | NextModel \<Rightarrow> try_models te tr base (Suc idx) models run2)"
    by (rule try_models_step)
  have e: "e = TurnRaised (AttributeError ''items'')"
    using it [of fb params win mo 59 st] run2 unfolding r1 n by (metis snd_conv)
  have "quiet (rn_events run1)" using assms(9) by (simp add: r1)
  then have "quiet (rn_events run2)" using iterate_ends [OF run2] e by simp
  then show ?thesis by (simp add: tm e)
qed

definition crash_loads :: "string \<Rightarrow> pyval option" where
  "crash_loads raw =
     (if raw = ''1'' then Some (PDict [(''choices'', PList [PDict [(''delta'', PDict [(''tool_calls'', PList
           [PDict [(''index'', PInt 0), (''id'', PStr ''a''), (''function'', PDict [(''name'', PStr ''list_files''), (''arguments'', PStr ''[1]'')])]])]),
         (''finish_reason'', PStr ''tool_calls'')]])])
      else if raw = ''[1]'' then Some (PList [PInt 1]) else None)"

definition crash_te :: "((string \<times> real) option, unit, unit) turn_env" where
  "crash_te = (sx_turn sample_sx)\<lparr>te_backend := sample_backend\<lparr>be_loads := crash_loads\<rparr>,
     te_stream := \<lambda>_ _. \<lparr>se_mono = 10, se_wall = 1000, se_probe = (\<lambda>_. Inr 200),
       se_reply = \<lambda>_. StreamResponse 200 [(1, ''data: 1''), (2, ''data: [DONE]'')] True\<rparr>\<rparr>"

definition crash_run :: "((string \<times> real) option, unit, unit) run" where
  "crash_run = \<lparr>rn_events = [], rn_calls = [], rn_tokens = 0, rn_nim = ss_nim sample_ss, rn_answers = ss_answers sample_ss, rn_world = ()\<rparr>"

definition crash_request :: turn_request where
  "crash_request = \<lparr>tr_db = False, tr_user_id = None, tr_conv_id = None, tr_params = None, tr_saliences = [], tr_tools = None,
     tr_use_cache = True, tr_message = ''x'', tr_cache_model = [], tr_history_tail = [], tr_cache_sysprompt = []\<rparr>"

theorem nonobject_arguments_crash_witness:
  "snd (try_models crash_te crash_request [] 0 [''m''] crash_run) = Inl (AttributeError ''items'')"
proof -
  have st: "stream_lines sample_plain crash_loads [(1, ''data: 1''), (2, ''data: [DONE]'')] [] = ([ToolCalls [(''a'', ''list_files'', ''[1]'')]], EndDone)"
    by code_simp
  have "has_key sample_plain" "fst (is_open 1000 ''m'' (ns_breaker (ss_nim sample_ss))) = Inr False" "\<not> failover_on sample_plain"
    "attempts sample_plain = [0, 1, 2]"
    by code_simp+
  then have call: "so_chunks (call_stream sample_plain sample_store crash_loads True 1000 (te_stream crash_te 0) ''m'' (ss_nim sample_ss))
      = [ToolCalls [(''a'', ''list_files'', ''[1]'')]]"
    "so_end (call_stream sample_plain sample_store crash_loads True 1000 (te_stream crash_te 0) ''m'' (ss_nim sample_ss)) = Inr ()"
    using st by (auto simp: call_stream_def pick_nim_if_off crash_te_def stream_end_def Let_def split: prod.splits)
  have env: "te_backend crash_te = sample_backend\<lparr>be_loads := crash_loads\<rparr>" "te_turn_start crash_te = 0"
    "te_iter_clock crash_te = (\<lambda>_. 1)" "te_wall crash_te = (\<lambda>_. 1000)"
    by (simp_all add: crash_te_def sample_sx_def)
  have be: "be_cfg sample_backend = sample_plain" "be_health sample_backend = sample_store" "be_client sample_backend = True"
    by (simp_all add: sample_backend_def)
  have run: "rn_calls crash_run = []" "rn_tokens crash_run = 0" "rn_nim crash_run = ss_nim sample_ss" "rn_events crash_run = []"
    by (simp_all add: crash_run_def)
  have chk: "check_turn_budget sample_plain 0 1 0 = None"
    by (simp add: sample_plain_def default_config_def check_turn_budget_def)
  show ?thesis
    using nonobject_arguments_crash [of crash_te crash_run "''m''" _ "''a''" "''list_files''" "''[1]''" "[]" "PList [PInt 1]" crash_request "[]" 0 "[]"]
    by (simp add: env be run chk call start_consume_def crash_loads_def)
qed

end
