(* ===== verification/Accounts.thy ===== *)
theory Accounts
  imports Rate_Limiter Model_Catalog
begin

text \<open>
  User accounts and their money: registration, login and token check (\<^verbatim>\<open>backend/auth/router.py\<close>,
  \<^verbatim>\<open>backend/auth/security.py\<close>), the ephemeral demo accounts with their spending pool and their
  reaping (\<^verbatim>\<open>backend/services/demo.py\<close>), the cost cap of a request (\<^verbatim>\<open>backend/api/chat/helpers.py\<close>)
  and the ledger of the stateless endpoints (\<^verbatim>\<open>backend/api/chat/usage_ledger.py\<close>). The state is the
  tables these read and write, the entities of the graph database and the files on disk. Identifiers
  and clocks are arguments, as are the password hash, the token decoder, the Redis copy of the pool
  spend, and whether the graph database and the disk answer. A database operation that fails is
  modelled where the source handles it. The details of HTTP errors are shortened where they format
  an amount or contain a dash outside the 8-bit characters.
\<close>

section \<open>Tables\<close>

record user_row =
  us_id :: int
  us_name :: string
  us_password :: string
  us_role :: string
  us_active :: bool
  us_cost_limit :: "real option"
  us_cost_window_days :: "int option"
  us_api_key :: "string option"
  us_created_at :: real

record conv_row =
  cv_id :: string
  cv_user :: int
  cv_title :: string
  cv_archived :: bool

record message_row =
  me_conv :: string
  me_role :: string
  me_content :: string
  me_model :: "string option"
  me_tokens :: "(int \<times> int \<times> int) option"
  me_cost :: "real option"
  me_estimate :: "bool option"
  me_created_at :: real

record file_row =
  fi_id :: string
  fi_user :: int
  fi_path :: string

record invite_row =
  iv_token :: string
  iv_created_by :: int
  iv_used_by :: "int option"
  iv_expires_at :: "real option"
  iv_used_at :: "real option"

record tables =
  tb_users :: "user_row list"
  tb_convs :: "conv_row list"
  tb_messages :: "message_row list"
  tb_files :: "file_row list"
  tb_chunks :: "string list"
  \<comment> \<open>the file of each chunk\<close>
  tb_invites :: "invite_row list"
  tb_entities :: "int list"
  \<comment> \<open>the user of each graph entity\<close>
  tb_blobs :: "string list"
  \<comment> \<open>the paths of the files on disk\<close>

section \<open>Passwords and tokens\<close>

definition get_user :: "string \<Rightarrow> tables \<Rightarrow> user_row option" where
  "get_user username db = List.find (\<lambda>u. us_name u = username) (tb_users db)"

definition authenticate_user :: "(string \<Rightarrow> string \<Rightarrow> bool) \<Rightarrow> string \<Rightarrow> string \<Rightarrow> tables \<Rightarrow> user_row option" where
  "authenticate_user verify username password db =
     (case get_user username db of
        None \<Rightarrow> None
      | Some u \<Rightarrow> if verify password (us_password u) then Some u else None)"

text \<open>
  A token is decoded to its subject and type, or is not one of ours. The user is looked up for an
  access token; any other token is tried as an API key.
\<close>

definition credentials_error :: pyexc where
  "credentials_error = HTTPException 401 ''Could not validate credentials''"

definition by_api_key :: "(string \<Rightarrow> string) \<Rightarrow> string \<Rightarrow> tables \<Rightarrow> user_row result" where
  "by_api_key hash_key token db =
     (case List.find (\<lambda>u. us_api_key u = Some (hash_key token)) (tb_users db) of
        Some u \<Rightarrow> if us_active u then Inr u else Inl credentials_error
      | None \<Rightarrow> Inl credentials_error)"

definition get_current_user :: "(string \<Rightarrow> (string option \<times> string option) option) \<Rightarrow> (string \<Rightarrow> string) \<Rightarrow>
    string option \<Rightarrow> tables \<Rightarrow> user_row result" where
  "get_current_user decode hash_key token db =
     (case token of
        None \<Rightarrow> Inl credentials_error
      | Some tok \<Rightarrow>
          if tok = [] then Inl credentials_error
          else case decode tok of
            None \<Rightarrow> by_api_key hash_key tok db
          | Some (sub, kind) \<Rightarrow>
              if set_and_nonempty sub \<and> kind = Some ''access'' then
                (case get_user (the sub) db of
                   Some u \<Rightarrow> if us_active u then Inr u else Inl credentials_error
                 | None \<Rightarrow> Inl credentials_error)
              else by_api_key hash_key tok db)"

definition require_role :: "string \<Rightarrow> user_row \<Rightarrow> user_row result" where
  "require_role required u =
     (if us_role u \<noteq> required then Inl (HTTPException 403 ''Not enough permissions'') else Inr u)"

section \<open>Registration\<close>

definition check_invite :: "bool \<Rightarrow> real \<Rightarrow> string option \<Rightarrow> tables \<Rightarrow> invite_row option result" where
  "check_invite require_invite now token db =
     (if \<not> require_invite then Inr None
      else if \<not> set_and_nonempty token then Inl (HTTPException 403 ''Invite token required'')
      else case List.find (\<lambda>i. iv_token i = the token) (tb_invites db) of
        None \<Rightarrow> Inl (HTTPException 403 ''Invalid invite token'')
      | Some i \<Rightarrow>
          if iv_used_by i \<noteq> None then Inl (HTTPException 403 ''Invite token already used'')
          else if (case iv_expires_at i of Some t \<Rightarrow> t < now | None \<Rightarrow> False) then Inl (HTTPException 403 ''Invite token expired'')
          else Inr (Some i))"

definition use_invite :: "invite_row option \<Rightarrow> int \<Rightarrow> real \<Rightarrow> tables \<Rightarrow> tables" where
  "use_invite invite uid now db =
     (case invite of
        None \<Rightarrow> db
      | Some i \<Rightarrow> db\<lparr>tb_invites := map (\<lambda>j. if iv_token j = iv_token i then j\<lparr>iv_used_by := Some uid, iv_used_at := Some now\<rparr> else j)
                                    (tb_invites db)\<rparr>)"

definition register :: "bool \<Rightarrow> (string \<Rightarrow> string) \<Rightarrow> int \<Rightarrow> real \<Rightarrow> bool \<Rightarrow> string \<Rightarrow> string \<Rightarrow> string option \<Rightarrow>
    tables \<Rightarrow> user_row result \<times> tables" where
  "register require_invite hash uid now commit_ok raw_name password invite_token db =
     (let username = strip raw_name in
      if length username < 3 then (Inl (HTTPException 422 ''username too short''), db)
      else if length password < 6 then (Inl (HTTPException 422 ''password too weak''), db)
      else if get_user username db \<noteq> None then (Inl (HTTPException 409 ''Username already taken''), db)
      else case check_invite require_invite now invite_token db of
        Inl e \<Rightarrow> (Inl e, db)
      | Inr invite \<Rightarrow>
          let u = \<lparr>us_id = uid, us_name = username, us_password = hash password, us_role = ''user'', us_active = True,
                   us_cost_limit = None, us_cost_window_days = None, us_api_key = None, us_created_at = now\<rparr>
          in if commit_ok then (Inr u, use_invite invite uid now (db\<lparr>tb_users := tb_users db @ [u]\<rparr>))
             else (Inl (HTTPException 500 ''Registration failed''), db))"

section \<open>Spending\<close>

definition user_convs :: "tables \<Rightarrow> int \<Rightarrow> string list" where
  "user_convs db uid = map cv_id (filter (\<lambda>c. cv_user c = uid) (tb_convs db))"

text \<open>\<^verbatim>\<open>COALESCE(SUM(cost_usd), 0)\<close> over the assistant messages of one user since a cut-off.\<close>

definition user_spend :: "tables \<Rightarrow> real option \<Rightarrow> int \<Rightarrow> real" where
  "user_spend db cutoff uid =
     sum_list (map (\<lambda>m. case me_cost m of Some c \<Rightarrow> c | None \<Rightarrow> 0)
       (filter (\<lambda>m. me_conv m \<in> set (user_convs db uid) \<and> me_role m = ''assistant''
                    \<and> (case cutoff of Some t \<Rightarrow> me_created_at m \<ge> t | None \<Rightarrow> True)) (tb_messages db)))"

definition demo_users :: "tables \<Rightarrow> user_row list" where
  "demo_users db = filter (\<lambda>u. is_ephemeral_demo (us_name u)) (tb_users db)"

definition live_pool_spend :: "config \<Rightarrow> real \<Rightarrow> tables \<Rightarrow> real" where
  "live_pool_spend cfg now db =
     sum_list (map (\<lambda>u. user_spend db (Some (now - 3600 * of_int (DEMO_GLOBAL_WINDOW_HOURS cfg))) (us_id u)) (demo_users db))"

text \<open>The Redis copy: a read gives a number, nothing, or an exception; a write may fail.\<close>

record 'r pool_cache =
  pc_get :: "'r \<Rightarrow> real \<Rightarrow> real option result"
  pc_set :: "'r \<Rightarrow> real \<Rightarrow> real \<Rightarrow> int \<Rightarrow> 'r result"

definition POOL_CACHE_TTL :: int where
  "POOL_CACHE_TTL = 30"

definition pool_cached :: "config \<Rightarrow> 'r pool_cache \<Rightarrow> real \<Rightarrow> 'r \<Rightarrow> real option result" where
  "pool_cached cfg pc now r =
     (if \<not> USE_REDIS cfg then Inr None
      else case pc_get pc r now of
        Inr v \<Rightarrow> Inr v
      | Inl e \<Rightarrow> (case e of RedisError \<Rightarrow> Inr None | ValueError _ \<Rightarrow> Inr None | _ \<Rightarrow> Inl e))"

definition pool_spend_usd :: "config \<Rightarrow> 'r pool_cache \<Rightarrow> real \<Rightarrow> tables \<Rightarrow> 'r \<Rightarrow> real result \<times> 'r" where
  "pool_spend_usd cfg pc now db r =
     (case pool_cached cfg pc now r of
        Inl e \<Rightarrow> (Inl e, r)
      | Inr (Some v) \<Rightarrow> (Inr v, r)
      | Inr None \<Rightarrow>
          let total = live_pool_spend cfg now db in
          if \<not> USE_REDIS cfg then (Inr total, r)
          else case pc_set pc r now total POOL_CACHE_TTL of
            Inr r1 \<Rightarrow> (Inr total, r1)
          | Inl e \<Rightarrow> if e = RedisError then (Inr total, r) else (Inl e, r))"

definition count_live_demo_accounts :: "tables \<Rightarrow> nat" where
  "count_live_demo_accounts db = length (demo_users db)"

definition check_cost_cap :: "config \<Rightarrow> 'r pool_cache \<Rightarrow> real \<Rightarrow> user_row \<Rightarrow> tables \<Rightarrow> 'r \<Rightarrow> unit result \<times> 'r" where
  "check_cost_cap cfg pc now u db r =
     (let (pool, r1) = (if DEMO_EPHEMERAL_ENABLED cfg \<and> is_ephemeral_demo (us_name u)
                        then (case pool_spend_usd cfg pc now db r of
                                (Inl e, r1) \<Rightarrow> (Inl e, r1)
                              | (Inr v, r1) \<Rightarrow> (if v \<ge> DEMO_GLOBAL_CAP_USD cfg
                                               then Inl (HTTPException 402 ''Demo usage pool exhausted'') else Inr (), r1))
                        else (Inr (), r))
      in case pool of
           Inl e \<Rightarrow> (Inl e, r1)
         | Inr _ \<Rightarrow>
             (case us_cost_limit u of
                None \<Rightarrow> (Inr (), r1)
              | Some limit \<Rightarrow>
                  let cutoff = (case us_cost_window_days u of
                                  Some d \<Rightarrow> if d \<noteq> 0 then Some (now - 86400 * of_int d) else None
                                | None \<Rightarrow> None)
                  in if user_spend db cutoff (us_id u) \<ge> limit then (Inl (HTTPException 402 ''Cost cap reached''), r1)
                     else (Inr (), r1)))"

section \<open>Demo accounts\<close>

definition mint_ephemeral_demo :: "config \<Rightarrow> int \<Rightarrow> real \<Rightarrow> string \<Rightarrow> string \<Rightarrow> tables \<Rightarrow> user_row \<times> tables" where
  "mint_ephemeral_demo cfg uid now token_hex hashed db =
     (let u = \<lparr>us_id = uid, us_name = ''demo_'' @ token_hex, us_password = hashed, us_role = ''user'', us_active = True,
               us_cost_limit = Some (DEMO_PER_ACCOUNT_CAP_USD cfg), us_cost_window_days = Some (DEMO_PER_ACCOUNT_WINDOW_DAYS cfg),
               us_api_key = None, us_created_at = now\<rparr>
      in (u, db\<lparr>tb_users := tb_users db @ [u]\<rparr>))"

definition login :: "config \<Rightarrow> 'r pool_cache \<Rightarrow> (string \<Rightarrow> string \<Rightarrow> bool) \<Rightarrow> int \<Rightarrow> real \<Rightarrow> string \<Rightarrow> string \<Rightarrow>
    string \<Rightarrow> string \<Rightarrow> tables \<Rightarrow> 'r \<Rightarrow> user_row result \<times> tables \<times> 'r" where
  "login cfg pc verify uid now token_hex hashed username password db r =
     (let full = HTTPException 503 ''Demo is at capacity right now'' in
      case authenticate_user verify username password db of
        None \<Rightarrow> (Inl (HTTPException 401 ''Incorrect username or password''), db, r)
      | Some u \<Rightarrow>
          if DEMO_EPHEMERAL_ENABLED cfg \<and> us_name u = DEMO_SEED_USERNAME cfg then
            (case pool_spend_usd cfg pc now db r of
               (Inl e, r1) \<Rightarrow> (Inl e, db, r1)
             | (Inr spend, r1) \<Rightarrow>
                 if spend \<ge> DEMO_GLOBAL_CAP_USD cfg then (Inl full, db, r1)
                 else if DEMO_MAX_LIVE_ACCOUNTS cfg > 0 \<and> int (count_live_demo_accounts db) \<ge> DEMO_MAX_LIVE_ACCOUNTS cfg
                 then (Inl full, db, r1)
                 else (case mint_ephemeral_demo cfg uid now token_hex hashed db of (v, db1) \<Rightarrow> (Inr v, db1, r1)))
          else (Inr u, db, r))"

text \<open>
  Deleting a user row takes its conversations, their messages and the invitations it created with
  it; invitations it used forget it. (The foreign key of files does nothing, so files go first.)
\<close>

definition delete_user :: "int \<Rightarrow> tables \<Rightarrow> tables" where
  "delete_user uid db =
     db\<lparr>tb_users := filter (\<lambda>u. us_id u \<noteq> uid) (tb_users db),
        tb_messages := filter (\<lambda>m. me_conv m \<notin> set (user_convs db uid)) (tb_messages db),
        tb_convs := filter (\<lambda>c. cv_user c \<noteq> uid) (tb_convs db),
        tb_invites := map (\<lambda>i. if iv_used_by i = Some uid then i\<lparr>iv_used_by := None\<rparr> else i)
                        (filter (\<lambda>i. iv_created_by i \<noteq> uid) (tb_invites db))\<rparr>"

definition drop_file :: "(string \<Rightarrow> bool) \<Rightarrow> file_row \<Rightarrow> tables \<Rightarrow> tables" where
  "drop_file unlink_ok f db =
     db\<lparr>tb_chunks := filter (\<lambda>c. c \<noteq> fi_id f) (tb_chunks db),
        tb_blobs := (if unlink_ok (fi_path f) then filter (\<lambda>b. b \<noteq> fi_path f) (tb_blobs db) else tb_blobs db)\<rparr>"

definition purge_demo_user :: "bool \<Rightarrow> (string \<Rightarrow> bool) \<Rightarrow> int \<Rightarrow> tables \<Rightarrow> tables" where
  "purge_demo_user graph_up unlink_ok uid db =
     (let db1 = (if graph_up then db\<lparr>tb_entities := filter (\<lambda>e. e \<noteq> uid) (tb_entities db)\<rparr> else db);
          files = filter (\<lambda>f. fi_user f = uid) (tb_files db1);
          db2 = fold (drop_file unlink_ok) files db1;
          db3 = (if files \<noteq> [] then db2\<lparr>tb_files := filter (\<lambda>f. fi_user f \<noteq> uid) (tb_files db2)\<rparr> else db2)
      in delete_user uid db3)"

definition last_message_at :: "tables \<Rightarrow> int \<Rightarrow> real option" where
  "last_message_at db uid =
     (let ts = map me_created_at (filter (\<lambda>m. me_conv m \<in> set (user_convs db uid)) (tb_messages db))
      in if ts = [] then None else Some (Max (set ts)))"

definition idle_demo :: "config \<Rightarrow> real \<Rightarrow> tables \<Rightarrow> user_row \<Rightarrow> bool" where
  "idle_demo cfg now db u =
     ((case last_message_at db (us_id u) of Some t \<Rightarrow> t | None \<Rightarrow> us_created_at u)
        < now - 3600 * of_int (DEMO_IDLE_TTL_HOURS cfg))"

text \<open>The rows are read once, before the first account is purged.\<close>

definition reap_idle_demos :: "config \<Rightarrow> real \<Rightarrow> (int \<Rightarrow> bool) \<Rightarrow> (string \<Rightarrow> bool) \<Rightarrow> tables \<Rightarrow> nat \<times> tables" where
  "reap_idle_demos cfg now graph_up unlink_ok db =
     (let idle = filter (idle_demo cfg now db) (demo_users db)
      in (length idle, fold (\<lambda>u d. purge_demo_user (graph_up (us_id u)) unlink_ok (us_id u) d) idle db))"

section \<open>The ledger of the stateless endpoints\<close>

definition LEDGER_TITLE :: string where
  "LEDGER_TITLE = ''[API usage] stateless endpoints''"

text \<open>
  The usage of a reply gives its token counts; a count that is not an integer makes the arithmetic
  raise, or is stored as it is, and is not modelled (\<open>None\<close>).
\<close>

definition usage_count :: "pydict \<Rightarrow> string \<Rightarrow> int \<Rightarrow> int option" where
  "usage_count u k dflt = (case dget u k of None \<Rightarrow> Some dflt | Some (PInt i) \<Rightarrow> Some i | Some _ \<Rightarrow> None)"

definition cost_of :: "real \<times> real \<Rightarrow> int \<Rightarrow> int \<Rightarrow> real" where
  "cost_of pricing pt ct = of_int pt / 1000000 * fst pricing + of_int ct / 1000000 * snd pricing"

definition tokens_and_cost :: "config \<Rightarrow> catalog_cache \<Rightarrow> pydict option \<Rightarrow> string \<Rightarrow> string \<Rightarrow> string \<Rightarrow>
    (int \<times> int \<times> int \<times> real \<times> bool) option" where
  "tokens_and_cost cfg cat usage prompt_text response_text model =
     (let pricing = get_pricing cfg cat model in
      case usage of
        Some (p # ps) \<Rightarrow>
          (case (usage_count (p # ps) ''prompt_tokens'' 0, usage_count (p # ps) ''completion_tokens'' 0) of
             (Some pt, Some ct) \<Rightarrow>
               (case usage_count (p # ps) ''total_tokens'' (pt + ct) of
                  Some tt \<Rightarrow> Some (pt, ct, tt, cost_of pricing pt ct, False)
                | None \<Rightarrow> None)
           | _ \<Rightarrow> None)
      | _ \<Rightarrow>
          let pt = int (length prompt_text div 4); ct = int (length response_text div 4)
          in Some (pt, ct, pt + ct, cost_of pricing pt ct, True))"

definition record_stateless_usage :: "config \<Rightarrow> catalog_cache \<Rightarrow> string \<Rightarrow> real \<Rightarrow> bool \<Rightarrow> int \<Rightarrow> string \<Rightarrow> string \<Rightarrow>
    string \<Rightarrow> string \<Rightarrow> pydict option \<Rightarrow> tables \<Rightarrow> tables" where
  "record_stateless_usage cfg cat new_conv now commit_ok uid endpoint model prompt_text response_text usage db =
     (case tokens_and_cost cfg cat usage prompt_text response_text model of
        None \<Rightarrow> db
      | Some (pt, ct, tt, cost, estimated) \<Rightarrow>
          let ledger = List.find (\<lambda>c. cv_user c = uid \<and> cv_title c = LEDGER_TITLE) (tb_convs db);
              conv = (case ledger of Some c \<Rightarrow> c
                      | None \<Rightarrow> \<lparr>cv_id = new_conv, cv_user = uid, cv_title = LEDGER_TITLE, cv_archived = True\<rparr>);
              db1 = (if ledger = None then db\<lparr>tb_convs := tb_convs db @ [conv]\<rparr> else db);
              m = \<lparr>me_conv = cv_id conv, me_role = ''assistant'', me_content = ''['' @ endpoint @ ''] '' @ model,
                   me_model = Some model, me_tokens = Some (pt, ct, tt), me_cost = Some cost,
                   me_estimate = (if estimated then Some True else None), me_created_at = now\<rparr>
          in if commit_ok then db1\<lparr>tb_messages := tb_messages db1 @ [m]\<rparr> else db)"

section \<open>What a purge leaves\<close>

lemma drop_files_tables:
  "tb_users (fold (drop_file ok) fs db) = tb_users db" "tb_convs (fold (drop_file ok) fs db) = tb_convs db"
  "tb_messages (fold (drop_file ok) fs db) = tb_messages db" "tb_files (fold (drop_file ok) fs db) = tb_files db"
  "tb_entities (fold (drop_file ok) fs db) = tb_entities db"
  "tb_chunks (fold (drop_file ok) fs db) = filter (\<lambda>c. c \<notin> set (map fi_id fs)) (tb_chunks db)"
  by (induction fs arbitrary: db) (auto simp: drop_file_def intro: filter_cong)

lemma purge_tables [simp]:
  "tb_users (purge_demo_user g ok uid db) = filter (\<lambda>u. us_id u \<noteq> uid) (tb_users db)"
  "tb_convs (purge_demo_user g ok uid db) = filter (\<lambda>c. cv_user c \<noteq> uid) (tb_convs db)"
  "tb_messages (purge_demo_user g ok uid db) = filter (\<lambda>m. me_conv m \<notin> set (user_convs db uid)) (tb_messages db)"
  "tb_files (purge_demo_user g ok uid db) = filter (\<lambda>f. fi_user f \<noteq> uid) (tb_files db)"
  "tb_entities (purge_demo_user g ok uid db) = (if g then filter (\<lambda>e. e \<noteq> uid) (tb_entities db) else tb_entities db)"
  "tb_chunks (purge_demo_user g ok uid db) =
     filter (\<lambda>c. c \<notin> fi_id ` {f \<in> set (tb_files db). fi_user f = uid}) (tb_chunks db)"
  by (auto simp: purge_demo_user_def delete_user_def user_convs_def drop_files_tables Let_def filter_empty_conv filter_id_conv
      intro!: filter_cong) (rule filter_True [symmetric], auto)

definition purge_all :: "(int \<Rightarrow> bool) \<Rightarrow> (string \<Rightarrow> bool) \<Rightarrow> int list \<Rightarrow> tables \<Rightarrow> tables" where
  "purge_all g ok ids db = fold (\<lambda>i d. purge_demo_user (g i) ok i d) ids db"

lemma purge_all_Cons: "purge_all g ok (i # is) db = purge_all g ok is (purge_demo_user (g i) ok i db)"
  by (simp add: purge_all_def)

lemma user_convs_purge: "user_convs (purge_demo_user g ok uid db) v = (if v = uid then [] else user_convs db v)"
  by (auto simp: user_convs_def filter_empty_conv intro: arg_cong [where f = "map cv_id"] filter_cong)

lemma purge_all_tables:
  "tb_users (purge_all g ok ids db) = filter (\<lambda>u. us_id u \<notin> set ids) (tb_users db)"
  "tb_convs (purge_all g ok ids db) = filter (\<lambda>c. cv_user c \<notin> set ids) (tb_convs db)"
  "tb_files (purge_all g ok ids db) = filter (\<lambda>f. fi_user f \<notin> set ids) (tb_files db)"
  "tb_messages (purge_all g ok ids db) = filter (\<lambda>m. \<forall>i \<in> set ids. me_conv m \<notin> set (user_convs db i)) (tb_messages db)"
  "tb_chunks (purge_all g ok ids db) =
     filter (\<lambda>c. c \<notin> fi_id ` {f \<in> set (tb_files db). fi_user f \<in> set ids}) (tb_chunks db)"
proof (induction ids arbitrary: db)
  case Nil
  case 1 then show ?case by (simp add: purge_all_def)
  case 2 then show ?case by (simp add: purge_all_def)
  case 3 then show ?case by (simp add: purge_all_def)
  case 4 then show ?case by (simp add: purge_all_def)
  case 5 then show ?case by (simp add: purge_all_def)
next
  case (Cons i ids)
  case 1 then show ?case by (auto simp: purge_all_Cons Cons.IH intro: filter_cong)
  case 2 then show ?case by (auto simp: purge_all_Cons Cons.IH intro: filter_cong)
  case 3 then show ?case by (auto simp: purge_all_Cons Cons.IH intro: filter_cong)
  case 4 then show ?case by (auto simp: purge_all_Cons Cons.IH user_convs_purge intro!: filter_cong)
  case 5 then show ?case by (auto simp: purge_all_Cons Cons.IH intro!: filter_cong)
qed

lemma reap_eq:
  "reap_idle_demos cfg now g ok db =
     (length (filter (idle_demo cfg now db) (demo_users db)),
      purge_all g ok (map us_id (filter (idle_demo cfg now db) (demo_users db))) db)"
  by (simp add: reap_idle_demos_def purge_all_def fold_map comp_def Let_def)

definition reaped_ids :: "config \<Rightarrow> real \<Rightarrow> tables \<Rightarrow> int set" where
  "reaped_ids cfg now db = us_id ` set (filter (idle_demo cfg now db) (demo_users db))"

text \<open>
  C16. Reaping removes exactly the idle demo accounts and leaves nothing of them in the tables: with
  unique user ids, the accounts that remain are those that are no demo account or not idle, in their
  order; the conversations, messages, files and file chunks that remain are those of other users.
\<close>

theorem reaping_is_exact:
  assumes "distinct (map us_id (tb_users db))"
  shows "tb_users (snd (reap_idle_demos cfg now g ok db)) =
      filter (\<lambda>u. \<not> (is_ephemeral_demo (us_name u) \<and> idle_demo cfg now db u)) (tb_users db)
    \<and> tb_convs (snd (reap_idle_demos cfg now g ok db)) = filter (\<lambda>c. cv_user c \<notin> reaped_ids cfg now db) (tb_convs db)
    \<and> tb_messages (snd (reap_idle_demos cfg now g ok db)) =
        filter (\<lambda>m. \<forall>i \<in> reaped_ids cfg now db. me_conv m \<notin> set (user_convs db i)) (tb_messages db)
    \<and> tb_files (snd (reap_idle_demos cfg now g ok db)) = filter (\<lambda>f. fi_user f \<notin> reaped_ids cfg now db) (tb_files db)
    \<and> tb_chunks (snd (reap_idle_demos cfg now g ok db)) =
        filter (\<lambda>c. c \<notin> fi_id ` {f \<in> set (tb_files db). fi_user f \<in> reaped_ids cfg now db}) (tb_chunks db)"
proof -
  have "us_id u \<in> reaped_ids cfg now db \<longleftrightarrow> is_ephemeral_demo (us_name u) \<and> idle_demo cfg now db u"
    if "u \<in> set (tb_users db)" for u
    using that assms by (auto simp: reaped_ids_def demo_users_def dest: inj_onD [OF distinct_map [THEN iffD1, THEN conjunct2]])
  then show ?thesis
    unfolding reap_eq snd_conv purge_all_tables set_map reaped_ids_def [symmetric]
    by (auto intro: filter_cong)
qed

definition sample_user :: "int \<Rightarrow> string \<Rightarrow> user_row" where
  "sample_user i n = \<lparr>us_id = i, us_name = n, us_password = [], us_role = ''user'', us_active = True, us_cost_limit = Some 1,
     us_cost_window_days = Some 1, us_api_key = None, us_created_at = 0\<rparr>"

definition sample_tables :: tables where
  "sample_tables =
     \<lparr>tb_users = [sample_user 1 ''demo_a'', sample_user 2 ''ann''],
      tb_convs = [\<lparr>cv_id = ''c1'', cv_user = 1, cv_title = [], cv_archived = False\<rparr>],
      tb_messages = [\<lparr>me_conv = ''c1'', me_role = ''assistant'', me_content = [], me_model = None, me_tokens = None,
                      me_cost = Some 10, me_estimate = None, me_created_at = 1000\<rparr>],
      tb_files = [], tb_chunks = [], tb_invites = [], tb_entities = [], tb_blobs = []\<rparr>"

theorem reaping_is_exact_witness:
  "map us_name (tb_users (snd (reap_idle_demos default_config 10000 (\<lambda>_. True) (\<lambda>_. True) sample_tables))) = [''ann'']"
proof -
  have "distinct (map us_id (tb_users sample_tables))" by (simp add: sample_tables_def sample_user_def)
  from reaping_is_exact [OF this, of default_config 10000 "\<lambda>_. True" "\<lambda>_. True"]
  show ?thesis
    by (simp add: sample_tables_def sample_user_def idle_demo_def last_message_at_def user_convs_def is_ephemeral_demo_def
        startswith_def default_config_def Let_def)
qed

section \<open>The pool forgets\<close>

lemma user_convs_disjoint:
  assumes "distinct (map cv_id (tb_convs db))" and "u \<noteq> v"
  shows "set (user_convs db u) \<inter> set (user_convs db v) = {}"
proof -
  have "inj_on cv_id (set (tb_convs db))" using assms(1) by (simp add: distinct_map)
  with assms(2) show ?thesis by (auto simp: user_convs_def dest: inj_onD)
qed

lemma user_convs_purge_all: "v \<notin> set ids \<Longrightarrow> user_convs (purge_all g ok ids db) v = user_convs db v"
  by (auto simp: user_convs_def purge_all_tables intro!: arg_cong [where f = "map cv_id"] filter_cong)

lemma user_spend_survives:
  assumes "distinct (map cv_id (tb_convs db))" and "v \<notin> set ids"
  shows "user_spend (purge_all g ok ids db) cutoff v = user_spend db cutoff v"
proof -
  have "me_conv m \<notin> set (user_convs db i)" if "me_conv m \<in> set (user_convs db v)" "i \<in> set ids" for m i
    using user_convs_disjoint [OF assms(1), of v i] assms(2) that by auto
  then show ?thesis
    unfolding user_spend_def user_convs_purge_all [OF assms(2)] purge_all_tables filter_filter
    by (auto intro!: arg_cong [where f = sum_list] arg_cong [where f = "map _"] filter_cong)
qed

lemma demo_users_purge_all: "demo_users (purge_all g ok ids db) = filter (\<lambda>u. us_id u \<notin> set ids) (demo_users db)"
  by (auto simp: demo_users_def purge_all_tables intro: filter_cong)

lemma sum_list_partition:
  fixes f :: "'a \<Rightarrow> real"
  shows "sum_list (map f xs) = sum_list (map f (filter P xs)) + sum_list (map f (filter (\<lambda>x. \<not> P x) xs))"
  by (induction xs) auto

text \<open>
  The global cap on demo spending forgets what reaped accounts have spent: after a reaping, the
  pool spend of the rolling window is lower by exactly the spend of the reaped accounts within that
  window, although the money was spent in it. (Accounts are reaped after two idle hours, the window
  is a day.)
\<close>

theorem reaping_forgets_spend:
  assumes "distinct (map us_id (tb_users db))" and "distinct (map cv_id (tb_convs db))"
  shows "live_pool_spend cfg now (snd (reap_idle_demos cfg now g ok db)) =
    live_pool_spend cfg now db
    - sum_list (map (\<lambda>u. user_spend db (Some (now - 3600 * of_int (DEMO_GLOBAL_WINDOW_HOURS cfg))) (us_id u))
        (filter (idle_demo cfg now db) (demo_users db)))"
proof -
  let ?w = "Some (now - 3600 * of_int (DEMO_GLOBAL_WINDOW_HOURS cfg))" and ?d = "demo_users db"
  let ?ids = "map us_id (filter (idle_demo cfg now db) ?d)"
  have inj: "inj_on us_id (set ?d)" using assms(1) by (auto simp: distinct_map demo_users_def intro: inj_on_subset)
  have alive: "us_id u \<notin> set ?ids \<longleftrightarrow> \<not> idle_demo cfg now db u" if "u \<in> set ?d" for u
    using that inj by (auto dest: inj_onD)
  have "live_pool_spend cfg now (snd (reap_idle_demos cfg now g ok db)) =
      sum_list (map (\<lambda>u. user_spend (purge_all g ok ?ids db) ?w (us_id u)) (filter (\<lambda>u. us_id u \<notin> set ?ids) ?d))"
    by (simp add: live_pool_spend_def reap_eq demo_users_purge_all)
  also have "\<dots> = sum_list (map (\<lambda>u. user_spend db ?w (us_id u)) (filter (\<lambda>u. us_id u \<notin> set ?ids) ?d))"
    by (intro arg_cong [where f = sum_list] map_cong refl user_spend_survives assms(2)) auto
  also have "filter (\<lambda>u. us_id u \<notin> set ?ids) ?d = filter (\<lambda>u. \<not> idle_demo cfg now db u) ?d"
    using alive by (intro filter_cong refl)
  also have "sum_list (map (\<lambda>u. user_spend db ?w (us_id u)) (filter (\<lambda>u. \<not> idle_demo cfg now db u) ?d)) =
      live_pool_spend cfg now db - sum_list (map (\<lambda>u. user_spend db ?w (us_id u)) (filter (idle_demo cfg now db) ?d))"
    using sum_list_partition [of "\<lambda>u. user_spend db ?w (us_id u)" ?d "idle_demo cfg now db"]
    by (simp add: live_pool_spend_def)
  finally show ?thesis .
qed

theorem reaping_forgets_spend_witness:
  "live_pool_spend default_config 10000 sample_tables = 10
   \<and> live_pool_spend default_config 10000 (snd (reap_idle_demos default_config 10000 (\<lambda>_. True) (\<lambda>_. True) sample_tables)) = 0"
proof -
  have d: "distinct (map us_id (tb_users sample_tables))" "distinct (map cv_id (tb_convs sample_tables))"
    by (simp_all add: sample_tables_def sample_user_def)
  have spend: "live_pool_spend default_config 10000 sample_tables = 10"
    and idle: "filter (idle_demo default_config 10000 sample_tables) (demo_users sample_tables) = [sample_user 1 ''demo_a'']"
    and u: "user_spend sample_tables (Some (10000 - 3600 * of_int (DEMO_GLOBAL_WINDOW_HOURS default_config))) 1 = 10"
    by (simp_all add: live_pool_spend_def demo_users_def user_spend_def sample_tables_def sample_user_def idle_demo_def
        last_message_at_def user_convs_def is_ephemeral_demo_def startswith_def default_config_def Let_def)
  have i: "us_id (sample_user 1 ''demo_a'') = 1" by (simp add: sample_user_def)
  show ?thesis
    using reaping_forgets_spend [OF d, of default_config 10000 "\<lambda>_. True" "\<lambda>_. True"] unfolding idle spend
    by (simp add: i u)
qed

section \<open>A registered account can be reaped\<close>

text \<open>
  Registration lets anyone take a demo name, and such an account is deleted: an account
  registered under a name that starts with \<^verbatim>\<open>demo_\<close> and without a conversation is removed, with its
  row, by the first reaping after the idle time.
\<close>

theorem registered_demo_name_reaped:
  assumes "register gate hash uid now True name password tok db = (Inr u, db')" and "startswith (strip name) ''demo_''"
    and "\<forall>c \<in> set (tb_convs db'). cv_user c \<noteq> uid"
    and "now < later - 3600 * of_int (DEMO_IDLE_TTL_HOURS cfg)"
  shows "u \<in> set (tb_users db') \<and> us_name u = strip name \<and> u \<notin> set (tb_users (snd (reap_idle_demos cfg later g ok db')))"
proof -
  have u: "us_id u = uid" "us_name u = strip name" "us_created_at u = now" "u \<in> set (tb_users db')"
    using assms(1) by (auto simp: register_def use_invite_def Let_def split: if_splits sum.splits option.splits)
  have "last_message_at db' uid = None" using assms(3) by (simp add: last_message_at_def user_convs_def Let_def filter_empty_conv)
  then have "idle_demo cfg later db' u" using assms(4) u by (simp add: idle_demo_def)
  then have "u \<in> set (filter (idle_demo cfg later db') (demo_users db'))"
    using u assms(2) by (simp add: demo_users_def is_ephemeral_demo_def)
  then show ?thesis using u by (auto simp: reap_eq purge_all_tables)
qed

definition no_tables :: tables where
  "no_tables = \<lparr>tb_users = [], tb_convs = [], tb_messages = [], tb_files = [], tb_chunks = [], tb_invites = [], tb_entities = [], tb_blobs = []\<rparr>"

theorem registered_demo_name_reaped_witness:
  "\<exists>u db'. register False id 7 0 True ''demo_ann'' ''secret1'' None no_tables = (Inr u, db')
     \<and> u \<in> set (tb_users db') \<and> u \<notin> set (tb_users (snd (reap_idle_demos default_config 8000 (\<lambda>_. True) (\<lambda>_. True) db')))"
proof -
  have n: "strip ''demo_ann'' = ''demo_ann''" by code_simp
  obtain u db' where r: "register False id 7 0 True ''demo_ann'' ''secret1'' None no_tables = (Inr u, db')" and c: "tb_convs db' = []"
    by (simp add: register_def n no_tables_def get_user_def check_invite_def use_invite_def Let_def)
  show ?thesis
    using registered_demo_name_reaped [OF r, of 8000 default_config "\<lambda>_. True" "\<lambda>_. True"] r c
    by (auto simp: n startswith_def default_config_def)
qed

section \<open>The ledger reaches the cap\<close>

text \<open>
  Spend of the stateless endpoints counts: once a call of a user has been recorded, the spend
  that the cost cap adds up for that user is higher by exactly the cost of the call, and that of
  every other user is unchanged.
\<close>

theorem ledger_counts:
  assumes "tokens_and_cost cfg cat usage prompt_text response_text model = Some (pt, ct, tt, cost, est)"
    and "new_conv \<notin> cv_id ` set (tb_convs db)" and "new_conv \<notin> me_conv ` set (tb_messages db)"
    and "distinct (map cv_id (tb_convs db))" and "cutoff \<le> now"
  shows "user_spend (record_stateless_usage cfg cat new_conv now True uid endpoint model prompt_text response_text usage db) (Some cutoff) v
    = user_spend db (Some cutoff) v + (if v = uid then cost else 0)"
proof -
  define ledger where "ledger = List.find (\<lambda>c. cv_user c = uid \<and> cv_title c = LEDGER_TITLE) (tb_convs db)"
  define conv where "conv = (case ledger of Some c \<Rightarrow> c
      | None \<Rightarrow> \<lparr>cv_id = new_conv, cv_user = uid, cv_title = LEDGER_TITLE, cv_archived = True\<rparr>)"
  define db1 where "db1 = (if ledger = None then db\<lparr>tb_convs := tb_convs db @ [conv]\<rparr> else db)"
  define m where "m = \<lparr>me_conv = cv_id conv, me_role = ''assistant'', me_content = ''['' @ endpoint @ ''] '' @ model,
      me_model = Some model, me_tokens = Some (pt, ct, tt), me_cost = Some cost,
      me_estimate = (if est then Some True else None), me_created_at = now\<rparr>"
  have rec: "record_stateless_usage cfg cat new_conv now True uid endpoint model prompt_text response_text usage db =
      db1\<lparr>tb_messages := tb_messages db1 @ [m]\<rparr>"
    using assms(1) by (simp add: record_stateless_usage_def ledger_def conv_def db1_def m_def Let_def)
  have found: "cv_user c = uid \<and> c \<in> set (tb_convs db)" if "ledger = Some c" for c
    using that unfolding ledger_def by (auto simp: find_Some_iff)
  have own: "cv_user conv = uid" "conv \<in> set (tb_convs db1)"
    using found by (auto simp: conv_def db1_def split: option.splits)
  have d1: "distinct (map cv_id (tb_convs db1))"
    using assms(2,4) by (auto simp: db1_def conv_def split: option.splits)
  have mem: "cv_id conv \<in> set (user_convs db1 v) \<longleftrightarrow> v = uid"
    using own user_convs_disjoint [OF d1, of v uid] by (auto simp: user_convs_def)
  have old: "me_conv k \<in> set (user_convs db1 v) \<longleftrightarrow> me_conv k \<in> set (user_convs db v)" if "k \<in> set (tb_messages db)" for k
    using that assms(3) by (auto simp: db1_def user_convs_def conv_def split: option.splits)
  have "tb_messages db1 = tb_messages db" by (simp add: db1_def)
  moreover have "user_convs (db1\<lparr>tb_messages := ms\<rparr>) v = user_convs db1 v" for ms by (simp add: user_convs_def)
  ultimately show ?thesis
    unfolding rec user_spend_def using mem old assms(5)
    by (auto simp: m_def intro!: arg_cong [where f = sum_list] arg_cong [where f = "map _"] filter_cong)
qed

theorem ledger_counts_witness:
  "user_spend (record_stateless_usage default_config reset_cache ''n'' 5 True 1 ''/chat'' ''m'' ''12345678'' [] None no_tables) (Some 0) 1
     = user_spend no_tables (Some 0) 1 + 1 / 1000000"
proof -
  have t: "tokens_and_cost default_config reset_cache None ''12345678'' [] ''m'' = Some (2, 0, 2, 1 / 1000000, True)"
    by (simp add: tokens_and_cost_def get_pricing_def get_entry_def reset_cache_def default_config_def static_model_pricing_def
        dget_def cost_of_def Let_def)
  show ?thesis
    using ledger_counts [OF t, of "''n''" no_tables 0 5 1 "''/chat''" 1] by (simp add: no_tables_def)
qed

end
