(* ===== verification/Locks.thy ===== *)
theory Locks
  imports Py_Prelude
begin

text \<open>
  \<^verbatim>\<open>backend/core/locks.py\<close>: the per-user write lock on Redis, its acquisition loop with a deadline and
  its release by token. The Redis server is a parameter: the record holds the commands the code
  issues, \<open>lock_laws\<close> what their documentation says of them. The advisory lock of the PostgreSQL
  backend is the database's and appears only as a branch. Sessions of different processes
  interleave: each round of the acquisition loop (\<open>acquire_once\<close>, the very one \<open>acquire_loop\<close> repeats) and each release is one
  step of \<open>lock_step\<close>.
\<close>

section \<open>The server\<close>

record 'r lock_redis =
  lk_get :: "'r \<Rightarrow> real \<Rightarrow> string \<Rightarrow> string option"
  lk_set_nx :: "'r \<Rightarrow> real \<Rightarrow> string \<Rightarrow> string \<Rightarrow> int \<Rightarrow> bool \<times> 'r"
  lk_del :: "'r \<Rightarrow> real \<Rightarrow> string \<Rightarrow> 'r"

text \<open>
  \<^verbatim>\<open>SET key value NX EX ttl\<close> writes exactly when the key is absent, and the value lives for \<open>ttl\<close>
  seconds; \<^verbatim>\<open>DEL\<close> removes a key; a value that is not written changes only by expiring.
\<close>

definition lock_laws :: "'r lock_redis \<Rightarrow> bool" where
  "lock_laws lr =
     ((\<forall>r t k v ttl. lk_get lr r t k = None \<longrightarrow> fst (lk_set_nx lr r t k v ttl) \<and>
         (\<forall>t' k'. t \<le> t' \<longrightarrow> lk_get lr (snd (lk_set_nx lr r t k v ttl)) t' k' =
            (if k' = k then (if t' < t + of_int ttl then Some v else None) else lk_get lr r t' k')))
      \<and> (\<forall>r t k v ttl. lk_get lr r t k \<noteq> None \<longrightarrow> lk_set_nx lr r t k v ttl = (False, r))
      \<and> (\<forall>r t k t' k'. t \<le> t' \<longrightarrow> lk_get lr (lk_del lr r t k) t' k' = (if k' = k then None else lk_get lr r t' k'))
      \<and> (\<forall>r t t' k v. t \<le> t' \<longrightarrow> lk_get lr r t' k = Some v \<longrightarrow> lk_get lr r t k = Some v))"

section \<open>The code\<close>

definition LOCK_PREFIX :: string where
  "LOCK_PREFIX = ''lock:mem:''"

text \<open>
  One round of the loop: the attempt at one time, the look at the deadline at another. It answers
  that the lock is taken, that the caller gives up, or nothing, and then the loop goes on.
\<close>

definition acquire_once :: "'r lock_redis \<Rightarrow> real \<Rightarrow> real \<Rightarrow> string \<Rightarrow> string \<Rightarrow> int \<Rightarrow> real \<Rightarrow> 'r \<Rightarrow> bool option \<times> 'r" where
  "acquire_once lr set_at check_at key token ttl deadline r =
     (let p = lk_set_nx lr r set_at key token ttl
      in (if fst p then Some True else if check_at \<ge> deadline then Some False else None, snd p))"

text \<open>
  The loop of the acquisition. Before attempt \<open>i\<close> others may have changed the server (\<open>others i\<close>);
  the attempt is made at \<open>set_at i\<close>, the deadline is looked at at \<open>check_at i\<close>.
\<close>

partial_function (option) acquire_loop :: "'r lock_redis \<Rightarrow> (nat \<Rightarrow> 'r \<Rightarrow> 'r) \<Rightarrow> (nat \<Rightarrow> real) \<Rightarrow> (nat \<Rightarrow> real) \<Rightarrow>
    string \<Rightarrow> string \<Rightarrow> int \<Rightarrow> real \<Rightarrow> nat \<Rightarrow> 'r \<Rightarrow> (bool \<times> 'r) option" where
  "acquire_loop lr others set_at check_at key token ttl deadline i r =
     (let p = acquire_once lr (set_at i) (check_at i) key token ttl deadline (others i r) in
      case fst p of
        Some b \<Rightarrow> Some (b, snd p)
      | None \<Rightarrow> acquire_loop lr others set_at check_at key token ttl deadline (Suc i) (snd p))"

definition acquire_redis_lock :: "'r lock_redis \<Rightarrow> (nat \<Rightarrow> 'r \<Rightarrow> 'r) \<Rightarrow> (nat \<Rightarrow> real) \<Rightarrow> (nat \<Rightarrow> real) \<Rightarrow> real \<Rightarrow>
    string \<Rightarrow> string \<Rightarrow> int \<Rightarrow> real \<Rightarrow> 'r \<Rightarrow> (bool \<times> 'r) option" where
  "acquire_redis_lock lr others set_at check_at start key token ttl wait r =
     acquire_loop lr others set_at check_at key token ttl (start + wait) 0 r"

text \<open>The pauses between attempts: 0.05 s, doubled up to 0.5 s.\<close>

fun delay_of :: "nat \<Rightarrow> real" where
  "delay_of 0 = 5 / 100"
| "delay_of (Suc i) = min (delay_of i * 2) (5 / 10)"

text \<open>The release script; a script that fails is logged and changes nothing.\<close>

definition release_redis_lock :: "'r lock_redis \<Rightarrow> bool \<Rightarrow> real \<Rightarrow> string \<Rightarrow> string \<Rightarrow> 'r \<Rightarrow> 'r" where
  "release_redis_lock lr eval_ok now key token r =
     (if eval_ok \<and> lk_get lr r now key = Some token then lk_del lr r now key else r)"

text \<open>
  Entering the lock: the Redis backend waits for it or raises, the PostgreSQL backend leaves the
  waiting to the database, anything else is an error (its text shows a backend name without quotes
  or escapes in it). The protected body and the release follow.
\<close>

definition lock_key :: "int \<Rightarrow> string" where
  "lock_key user_id = LOCK_PREFIX @ int_str user_id"

definition quoted :: "string \<Rightarrow> string" where
  "quoted s = [CHR 0x27] @ s @ [CHR 0x27]"

definition user_write_lock :: "'r lock_redis \<Rightarrow> string \<Rightarrow> (nat \<Rightarrow> 'r \<Rightarrow> 'r) \<Rightarrow> (nat \<Rightarrow> real) \<Rightarrow> (nat \<Rightarrow> real) \<Rightarrow> real \<Rightarrow>
    int \<Rightarrow> string \<Rightarrow> int \<Rightarrow> real \<Rightarrow> ('r \<Rightarrow> 'a result \<times> 'r) \<Rightarrow> bool \<Rightarrow> real \<Rightarrow> 'r \<Rightarrow> ('a result \<times> 'r) option" where
  "user_write_lock lr backend others set_at check_at start user_id token ttl wait body eval_ok done_at r =
     (if backend = ''pg'' then Some (body r)
      else if backend = ''redis'' then
        (case acquire_redis_lock lr others set_at check_at start (lock_key user_id) token ttl wait r of
           None \<Rightarrow> None
         | Some (False, r1) \<Rightarrow> Some (Inl (TimeoutError (''Could not acquire memory write lock for user '' @ int_str user_id)), r1)
         | Some (True, r1) \<Rightarrow>
             (case body r1 of (res, r2) \<Rightarrow> Some (res, release_redis_lock lr eval_ok done_at (lock_key user_id) token r2)))
      else Some (Inl (ValueError (''Unknown MEMORY_LOCK_BACKEND: '' @ quoted backend)), r))"

section \<open>The acquisition ends\<close>

lemma delay_pos: "5 / 100 \<le> delay_of i"
  by (induction i) auto

text \<open>A loop that looks at the deadline after it has passed ends there; what comes later does not matter to it.\<close>

lemma acquire_loop_ends:
  assumes "deadline \<le> check_at (i + n)" and "\<And>j. j \<le> i + n \<Longrightarrow> others' j = others j \<and> set_at' j = set_at j \<and> check_at' j = check_at j"
  shows "\<exists>res. acquire_loop lr others set_at check_at key token ttl deadline i r = Some res
    \<and> acquire_loop lr others' set_at' check_at' key token ttl deadline i r = Some res"
  using assms
proof (induction n arbitrary: i r)
  case 0
  then have "others' i = others i" "set_at' i = set_at i" "check_at' i = check_at i" "deadline \<le> check_at i" by simp_all
  then show ?case
    by (subst (1 2) acquire_loop.simps) (auto simp: acquire_once_def Let_def split: if_splits)
next
  case (Suc n)
  from Suc.prems(2) [of i] have here: "others' i = others i" "set_at' i = set_at i" "check_at' i = check_at i" by simp_all
  show ?case
  proof (cases "fst (acquire_once lr (set_at i) (check_at i) key token ttl deadline (others i r))")
    case None
    from Suc.IH [of "Suc i" "snd (acquire_once lr (set_at i) (check_at i) key token ttl deadline (others i r))"] Suc.prems
    show ?thesis by (subst (1 2) acquire_loop.simps) (simp add: Let_def None here)
  next
    case (Some b)
    then show ?thesis by (subst (1 2) acquire_loop.simps) (simp add: Let_def here)
  qed
qed

text \<open>
  C27. Waiting for the lock always ends: if every pause lasts at least as long as asked for, the
  acquisition returns, with the lock or without it, whatever the other sessions and the server do.
  A wait of \<open>w\<close> seconds takes at most \<open>20 w + 1\<close> attempts: what others do and the clock shows at later
  ones has no influence on the result.
\<close>

theorem acquisition_ends:
  assumes "\<And>i. check_at i + delay_of i \<le> check_at (Suc i)" and "start \<le> check_at 0"
    and "\<And>i. i \<le> nat \<lceil>20 * wait\<rceil> \<Longrightarrow> others' i = others i \<and> set_at' i = set_at i \<and> check_at' i = check_at i"
  shows "\<exists>res. acquire_redis_lock lr others set_at check_at start key token ttl wait r = Some res
    \<and> acquire_redis_lock lr others' set_at' check_at' start key token ttl wait r = Some res"
proof -
  have grows: "check_at 0 + of_nat n / 20 \<le> check_at n" for n
  proof (induction n)
    case (Suc n)
    have "check_at n + 5 / 100 \<le> check_at (Suc n)" using assms(1) [of n] delay_pos [of n] by linarith
    with Suc show ?case by (simp add: add_divide_distrib)
  qed simp
  have "wait \<le> of_nat (nat \<lceil>20 * wait\<rceil>) / 20" by linarith
  then have "start + wait \<le> check_at (0 + nat \<lceil>20 * wait\<rceil>)" using grows [of "nat \<lceil>20 * wait\<rceil>"] assms(2) by simp
  from acquire_loop_ends [of "start + wait" check_at 0 "nat \<lceil>20 * wait\<rceil>" others' others set_at' set_at check_at'
      lr key token ttl r, OF this] assms(3)
  show ?thesis by (simp add: acquire_redis_lock_def)
qed

section \<open>Exclusion\<close>

text \<open>
  Sessions on one key. Time passes; a session enters \<^const>\<open>acquire_redis_lock\<close> with a token of its own and a
  deadline; a waiting session makes one round of the loop and gets into its protected body, gives up or goes on
  as \<^const>\<open>acquire_once\<close> tells it; a session that is inside releases. \<open>lx_held\<close> lists the sessions
  inside with the time their lease ends.
\<close>

record 'r lock_state =
  lx_redis :: 'r
  lx_now :: real
  lx_waiting :: "(string \<times> real) list"
  lx_held :: "(string \<times> real) list"

text \<open>What follows from the answer of a round: the body is entered, a \<^verbatim>\<open>TimeoutError\<close> raised, or the loop continued.\<close>

definition settle :: "int \<Rightarrow> string \<Rightarrow> bool option \<times> 'r \<Rightarrow> 'r lock_state \<Rightarrow> 'r lock_state" where
  "settle ttl token p s =
     (case fst p of
        None \<Rightarrow> s\<lparr>lx_redis := snd p\<rparr>
      | Some acquired \<Rightarrow>
          s\<lparr>lx_redis := snd p, lx_waiting := filter (\<lambda>w. fst w \<noteq> token) (lx_waiting s),
            lx_held := (if acquired then [(token, lx_now s + of_int ttl)] else []) @ lx_held s\<rparr>)"

inductive lock_step :: "'r lock_redis \<Rightarrow> string \<Rightarrow> int \<Rightarrow> 'r lock_state \<Rightarrow> 'r lock_state \<Rightarrow> bool"
  for lr key ttl where
  tick: "lx_now s \<le> t \<Longrightarrow> lock_step lr key ttl s (s\<lparr>lx_now := t\<rparr>)"
| enter: "token \<notin> fst ` set (lx_waiting s) \<Longrightarrow> token \<notin> fst ` set (lx_held s) \<Longrightarrow>
    lock_step lr key ttl s (s\<lparr>lx_waiting := (token, lx_now s + wait) # lx_waiting s\<rparr>)"
| round: "(token, deadline) \<in> set (lx_waiting s) \<Longrightarrow> lx_now s \<le> check \<Longrightarrow>
    lock_step lr key ttl s (settle ttl token (acquire_once lr (lx_now s) check key token ttl deadline (lx_redis s)) s)"
| released: "token \<in> fst ` set (lx_held s) \<Longrightarrow>
    lock_step lr key ttl s (s\<lparr>lx_redis := release_redis_lock lr eval_ok (lx_now s) key token (lx_redis s),
                              lx_held := filter (\<lambda>h. fst h \<noteq> token) (lx_held s)\<rparr>)"

inductive lock_run :: "'r lock_redis \<Rightarrow> string \<Rightarrow> int \<Rightarrow> 'r lock_state \<Rightarrow> 'r lock_state \<Rightarrow> bool"
  for lr key ttl where
  stay: "lock_run lr key ttl s s"
| step: "lock_run lr key ttl s s1 \<Longrightarrow> lock_step lr key ttl s1 s2 \<Longrightarrow> lock_run lr key ttl s s2"

text \<open>A lease that has not ended is the server's value of the key.\<close>

definition leases_ok :: "'r lock_redis \<Rightarrow> string \<Rightarrow> 'r lock_state \<Rightarrow> bool" where
  "leases_ok lr key s =
     (\<forall>(token, e) \<in> set (lx_held s). \<forall>t. lx_now s \<le> t \<and> t < e \<longrightarrow> lk_get lr (lx_redis s) t key = Some token)"

lemma lock_laws_D:
  assumes "lock_laws lr"
  shows set_free: "lk_get lr r t k = None \<Longrightarrow> lk_set_nx lr r t k v ttl = (b, r1) \<Longrightarrow> b \<and>
      (\<forall>t' k'. t \<le> t' \<longrightarrow> lk_get lr r1 t' k' = (if k' = k then (if t' < t + of_int ttl then Some v else None) else lk_get lr r t' k'))"
    and set_busy: "lk_get lr r t k \<noteq> None \<Longrightarrow> lk_set_nx lr r t k v ttl = (False, r)"
    and del_get: "t \<le> t' \<Longrightarrow> lk_get lr (lk_del lr r t k) t' k' = (if k' = k then None else lk_get lr r t' k')"
    and get_back: "t \<le> t' \<Longrightarrow> lk_get lr r t' k = Some v' \<Longrightarrow> lk_get lr r t k = Some v'"
  using assms unfolding lock_laws_def by (blast+ | (metis fst_conv snd_conv))+

text \<open>A round that takes the lock found the key free and leaves the token there for the lease; any other changes nothing.\<close>

lemma acquire_once_effect:
  assumes "lock_laws lr" and "acquire_once lr now check key token ttl deadline r = (res, r1)"
  shows "(res = Some True \<and> lk_get lr r now key = None
      \<and> (\<forall>t. now \<le> t \<longrightarrow> lk_get lr r1 t key = (if t < now + of_int ttl then Some token else None)))
    \<or> (res \<noteq> Some True \<and> r1 = r)"
proof (cases "lk_get lr r now key")
  case None
  with assms set_free [OF assms(1) None, of token ttl] show ?thesis
    by (cases "lk_set_nx lr r now key token ttl") (auto simp: acquire_once_def Let_def)
next
  case (Some v)
  with assms set_busy [OF assms(1), of r now key token ttl] show ?thesis by (auto simp: acquire_once_def Let_def split: if_splits)
qed

lemma leases_ok_step:
  assumes "lock_laws lr" and "lock_step lr key ttl s s'" and "leases_ok lr key s"
  shows "leases_ok lr key s'"
  using assms(2)
proof (cases rule: lock_step.cases)
  case (tick t)
  then show ?thesis using assms(3) by (force simp: leases_ok_def)
next
  case (enter token wait)
  then show ?thesis using assms(3) by (simp add: leases_ok_def)
next
  case (round token deadline check)
  obtain res r1 where once: "acquire_once lr (lx_now s) check key token ttl deadline (lx_redis s) = (res, r1)" by fastforce
  from acquire_once_effect [OF assms(1) once] show ?thesis
  proof
    assume got: "res = Some True \<and> lk_get lr (lx_redis s) (lx_now s) key = None
      \<and> (\<forall>t. lx_now s \<le> t \<longrightarrow> lk_get lr r1 t key = (if t < lx_now s + of_int ttl then Some token else None))"
    have "\<not> lx_now s < e" if "(tok, e) \<in> set (lx_held s)" for tok e
      using assms(3) that got by (force simp: leases_ok_def)
    with got show ?thesis unfolding round(1) once leases_ok_def settle_def by fastforce
  next
    assume "res \<noteq> Some True \<and> r1 = lx_redis s"
    then show ?thesis using assms(3) unfolding round(1) once by (auto simp: leases_ok_def settle_def split: option.splits)
  qed
next
  case (released token ok)
  show ?thesis
  proof (cases "ok \<and> lk_get lr (lx_redis s) (lx_now s) key = Some token")
    case True
    have "\<not> lx_now s < e" if "(tok, e) \<in> set (lx_held s)" "tok \<noteq> token" for tok e
      using assms(3) that True by (force simp: leases_ok_def)
    then show ?thesis unfolding released(1) leases_ok_def by (auto dest: order.strict_trans1)
  next
    case False
    then show ?thesis using released(1) assms(3) by (auto simp: leases_ok_def release_redis_lock_def)
  qed
qed

lemma leases_ok_run:
  assumes "lock_run lr key ttl s s'" and "lock_laws lr" and "leases_ok lr key s"
  shows "leases_ok lr key s'"
  using assms by (induction rule: lock_run.induct) (auto intro: leases_ok_step)

text \<open>The token is the value of the key for a whole lease after one of the attempts.\<close>

definition holds_lease :: "'r lock_redis \<Rightarrow> (nat \<Rightarrow> real) \<Rightarrow> string \<Rightarrow> string \<Rightarrow> int \<Rightarrow> 'r \<Rightarrow> bool" where
  "holds_lease lr set_at key token ttl r =
     (\<exists>n. \<forall>t. set_at n \<le> t \<and> t < set_at n + of_int ttl \<longrightarrow> lk_get lr r t key = Some token)"

lemma acquired_holds_lease:
  assumes "lock_laws lr" and "acquire_loop lr others set_at check_at key token ttl deadline i r = Some (True, r1)"
  shows "holds_lease lr set_at key token ttl r1"
proof -
  have "fst res \<longrightarrow> holds_lease lr set_at key token ttl (snd res)"
    if "acquire_loop lr others set_at check_at key token ttl deadline i r = Some res" for res
    using that assms(1)
  proof (induction rule: acquire_loop.raw_induct [rotated, consumes 1, case_names round])
    case (round loop lr others set_at check_at key token ttl deadline i r res)
    obtain a r' where once: "acquire_once lr (set_at i) (check_at i) key token ttl deadline (others i r) = (a, r')" by fastforce
    show ?case
    proof (cases a)
      case None
      with round once show ?thesis by (auto simp: Let_def)
    next
      case (Some b)
      with round once acquire_once_effect [OF \<open>lock_laws lr\<close> once] show ?thesis
        by (auto simp: Let_def holds_lease_def intro: exI [of _ i])
    qed
  qed
  from this [OF assms(2)] show ?thesis by simp
qed

text \<open>
  C8. The write lock excludes: along every interleaving of sessions that start from an unheld lock and enter
  their bodies when the acquisition tells them so, two sessions inside within their leases are the same session.
  The body of \<^verbatim>\<open>user_write_lock\<close> is run only on a server on which the token of the session holds the key for a
  whole lease: on all others it may be any other body. And the release takes the
  lock from nobody else: it leaves the value of every other token, and of every other key, as it was.
\<close>

theorem write_lock_excludes:
  assumes "lock_laws lr" and "lx_held s0 = []" and "lock_run lr key ttl s0 s"
    and "(a, ea) \<in> set (lx_held s)" and "(b, eb) \<in> set (lx_held s)" and "lx_now s < ea" and "lx_now s < eb"
    and "token \<noteq> holder" and "lk_get lr r now k = Some holder" and "now \<le> later"
    and "\<forall>r1. holds_lease lr set_at (lock_key uid) token ttl r1 \<longrightarrow> body' r1 = body r1"
  shows "a = b \<and> release_redis_lock lr ok now k token r = r
    \<and> (other \<noteq> k \<longrightarrow> lk_get lr (release_redis_lock lr ok now k holder r) later other = lk_get lr r later other)
    \<and> user_write_lock lr ''redis'' others set_at check_at start uid token ttl wait body' ok done_at r0
        = user_write_lock lr ''redis'' others set_at check_at start uid token ttl wait body ok done_at r0"
proof -
  have "leases_ok lr key s0" using assms(2) by (simp add: leases_ok_def)
  then have ok: "leases_ok lr key s" using leases_ok_run [OF assms(3,1)] by blast
  have "lk_get lr (lx_redis s) (lx_now s) key = Some a" "lk_get lr (lx_redis s) (lx_now s) key = Some b"
    using ok assms(4-7) unfolding leases_ok_def by force+
  moreover have "user_write_lock lr ''redis'' others set_at check_at start uid token ttl wait body' ok done_at r0
      = user_write_lock lr ''redis'' others set_at check_at start uid token ttl wait body ok done_at r0"
    using assms(11) acquired_holds_lease [OF assms(1)]
    by (auto simp: user_write_lock_def acquire_redis_lock_def split: option.splits bool.splits)
  ultimately show ?thesis
    using assms(8-10) del_get [OF assms(1,10)] by (simp add: release_redis_lock_def)
qed

text \<open>A server that satisfies the laws: one value and its expiry per key.\<close>

definition sample_redis :: "(string \<Rightarrow> (string \<times> real) option) lock_redis" where
  "sample_redis =
     (let get = (\<lambda>r t k. case r k of Some (v, e) \<Rightarrow> if t < e then Some v else None | None \<Rightarrow> None)
      in \<lparr>lk_get = get,
          lk_set_nx = (\<lambda>r t k v ttl. if get r t k = None then (True, r(k := Some (v, t + of_int ttl))) else (False, r)),
          lk_del = (\<lambda>r t k. r(k := None))\<rparr>)"

lemma sample_redis_laws: "lock_laws sample_redis"
  by (auto simp: lock_laws_def sample_redis_def Let_def split: option.splits if_splits)

theorem write_lock_excludes_witness:
  "lock_laws sample_redis
   \<and> lock_run sample_redis ''k'' 30 \<lparr>lx_redis = (\<lambda>_. None), lx_now = 0, lx_waiting = [], lx_held = []\<rparr>
       \<lparr>lx_redis = (\<lambda>_. None)(''k'' := Some (''a'', 30)), lx_now = 0, lx_waiting = [], lx_held = [(''a'', 30)]\<rparr>
   \<and> release_redis_lock sample_redis True 0 ''k'' ''b'' ((\<lambda>_. None)(''k'' := Some (''a'', 30))) = (\<lambda>_. None)(''k'' := Some (''a'', 30))"
proof -
  let ?r = "(\<lambda>_. None)(''k'' := Some (''a'', 30 :: real))"
  let ?start = "\<lparr>lx_redis = (\<lambda>_. None), lx_now = 0, lx_waiting = [], lx_held = []\<rparr>"
    and ?waits = "\<lparr>lx_redis = (\<lambda>_. None), lx_now = 0, lx_waiting = [(''a'', 5)], lx_held = []\<rparr>"
    and ?s = "\<lparr>lx_redis = ?r, lx_now = 0, lx_waiting = [], lx_held = [(''a'', 30)]\<rparr>"
  have "lock_step sample_redis ''k'' 30 ?start ?waits"
    using lock_step.enter [of "''a''" ?start sample_redis "''k''" 30 5] by simp
  moreover have "lock_step sample_redis ''k'' 30 ?waits ?s"
    using lock_step.round [of "''a''" 5 ?waits 0 sample_redis "''k''" 30]
    by (simp add: settle_def acquire_once_def sample_redis_def Let_def)
  ultimately have run: "lock_run sample_redis ''k'' 30 ?start ?s" by (blast intro: lock_run.intros)
  let ?body = "\<lambda>r. (if lk_get sample_redis r 0 (lock_key 7) = Some ''b'' then Inr () else Inl (ValueError ''not held''), r)"
  have "release_redis_lock sample_redis True 0 ''k'' ''b'' ?r = ?r"
    using write_lock_excludes [where body = "\<lambda>r. (Inr (), r)" and body' = ?body and set_at = "\<lambda>_. 0" and uid = 7 and token = "''b''" and ttl = 30,
        OF sample_redis_laws _ run, of "''a''" 30 "''a''" 30 "''a''" ?r 0 "''k''" 0]
    by (simp add: sample_redis_def Let_def holds_lease_def)
  then show ?thesis using run sample_redis_laws by blast
qed

theorem acquisition_ends_witness:
  "\<exists>res. acquire_redis_lock sample_redis (\<lambda>_ r. r) (\<lambda>i. of_nat i) (\<lambda>i. of_nat i) 0 ''k'' ''a'' 30 5 (\<lambda>_. None) = Some res
   \<and> acquire_redis_lock sample_redis (\<lambda>i r. if i \<le> 100 then r else (\<lambda>_. None)) (\<lambda>i. of_nat i) (\<lambda>i. of_nat i) 0 ''k'' ''a'' 30 5 (\<lambda>_. None) = Some res"
proof (rule acquisition_ends)
  have "delay_of i \<le> 1" for i by (cases i) auto
  then show "of_nat i + delay_of i \<le> of_nat (Suc i)" for i by simp
qed simp_all

end
