(* ===== verification/Fetch_Url.thy ===== *)
theory Fetch_Url
  imports Settings "HOL-Library.Word"
begin

text \<open>
  \<^verbatim>\<open>backend/llm/tools/fetch_url.py\<close>: the tool that fetches a web page for the model. Every URL it
  connects to, the given one and each redirect, is resolved and refused when an address of the host
  is not public; the connection then goes to the address that was checked. The name service, the
  HTTP client and the HTML parser are parameters, and so is the reading of a textual address by
  \<^verbatim>\<open>ipaddress.ip_address\<close>; the URL parser of the standard library and the address classes of
  \<^verbatim>\<open>ipaddress\<close> (Python 3.11.10) are modelled, over the 8-bit characters, on which the normalisation
  check of \<^verbatim>\<open>urlsplit\<close> never raises.
\<close>

section \<open>Addresses\<close>

datatype ip = V4 "32 word" | V6 "128 word"

text \<open>A network is an address and the length of its prefix.\<close>

definition in_net :: "'a::len word \<Rightarrow> 'a word \<times> nat \<Rightarrow> bool" where
  "in_net a n = (drop_bit (LENGTH('a) - snd n) a = drop_bit (LENGTH('a) - snd n) (fst n))"

definition private4 :: "(32 word \<times> nat) list" where
  "private4 = [(0x00000000, 8), (0x0A000000, 8), (0x7F000000, 8), (0xA9FE0000, 16), (0xAC100000, 12), (0xC0000000, 24),
     (0xC00000AA, 31), (0xC0000200, 24), (0xC0A80000, 16), (0xC6120000, 15), (0xC6336400, 24), (0xCB007100, 24),
     (0xF0000000, 4), (0xFFFFFFFF, 32)]"

definition private4_exceptions :: "(32 word \<times> nat) list" where
  "private4_exceptions = [(0xC0000009, 32), (0xC000000A, 32)]"

definition is_private4 :: "32 word \<Rightarrow> bool" where
  "is_private4 a = (list_ex (in_net a) private4 \<and> \<not> list_ex (in_net a) private4_exceptions)"

definition private6 :: "(128 word \<times> nat) list" where
  "private6 = [(1, 128), (0, 128), (0xFFFF00000000, 96), (0x0064FF9B000100000000000000000000, 48),
     (0x01000000000000000000000000000000, 64), (0x20010000000000000000000000000000, 23),
     (0x20010DB8000000000000000000000000, 32), (0x20020000000000000000000000000000, 16),
     (0xFC000000000000000000000000000000, 7), (0xFE800000000000000000000000000000, 10)]"

definition private6_exceptions :: "(128 word \<times> nat) list" where
  "private6_exceptions = [(0x20010001000000000000000000000001, 128), (0x20010001000000000000000000000002, 128),
     (0x20010003000000000000000000000000, 32), (0x20010004011200000000000000000000, 48),
     (0x20010020000000000000000000000000, 28), (0x20010030000000000000000000000000, 28)]"

definition reserved6 :: "(128 word \<times> nat) list" where
  "reserved6 = [(0, 8), (0x01000000000000000000000000000000, 8), (0x02000000000000000000000000000000, 7),
     (0x04000000000000000000000000000000, 6), (0x08000000000000000000000000000000, 5), (0x10000000000000000000000000000000, 4),
     (0x40000000000000000000000000000000, 3), (0x60000000000000000000000000000000, 3), (0x80000000000000000000000000000000, 3),
     (0xA0000000000000000000000000000000, 3), (0xC0000000000000000000000000000000, 3), (0xE0000000000000000000000000000000, 4),
     (0xF0000000000000000000000000000000, 5), (0xF8000000000000000000000000000000, 6), (0xFE000000000000000000000000000000, 9)]"

definition ipv4_mapped :: "128 word \<Rightarrow> 32 word option" where
  "ipv4_mapped a = (if drop_bit 32 a = 0xFFFF then Some (ucast a) else None)"

definition is_loopback :: "ip \<Rightarrow> bool" where
  "is_loopback i = (case i of V4 a \<Rightarrow> in_net a (0x7F000000, 8) | V6 a \<Rightarrow> a = 1)"

definition is_private :: "ip \<Rightarrow> bool" where
  "is_private i =
     (case i of
        V4 a \<Rightarrow> is_private4 a
      | V6 a \<Rightarrow> (case ipv4_mapped a of
          Some m \<Rightarrow> is_private4 m
        | None \<Rightarrow> list_ex (in_net a) private6 \<and> \<not> list_ex (in_net a) private6_exceptions))"

definition is_link_local :: "ip \<Rightarrow> bool" where
  "is_link_local i = (case i of V4 a \<Rightarrow> in_net a (0xA9FE0000, 16) | V6 a \<Rightarrow> in_net a (0xFE800000000000000000000000000000, 10))"

definition is_reserved :: "ip \<Rightarrow> bool" where
  "is_reserved i = (case i of V4 a \<Rightarrow> in_net a (0xF0000000, 4) | V6 a \<Rightarrow> list_ex (in_net a) reserved6)"

definition is_multicast :: "ip \<Rightarrow> bool" where
  "is_multicast i = (case i of V4 a \<Rightarrow> in_net a (0xE0000000, 4) | V6 a \<Rightarrow> in_net a (0xFF000000000000000000000000000000, 8))"

definition is_unspecified :: "ip \<Rightarrow> bool" where
  "is_unspecified i = (case i of V4 a \<Rightarrow> a = 0 | V6 a \<Rightarrow> a = 0)"

definition non_public :: "ip \<Rightarrow> bool" where
  "non_public i = (is_loopback i \<or> is_private i \<or> is_link_local i \<or> is_reserved i \<or> is_multicast i \<or> is_unspecified i)"

section \<open>URLs\<close>

text \<open>
  \<^verbatim>\<open>urlparse\<close> and the properties \<^verbatim>\<open>hostname\<close> and \<^verbatim>\<open>port\<close> of its result. \<open>before c s\<close> and
  \<open>behind c s\<close> are the outer parts of \<^verbatim>\<open>s.partition(c)\<close>.
\<close>

definition before :: "char \<Rightarrow> string \<Rightarrow> string" where
  "before c s = takeWhile (\<lambda>d. d \<noteq> c) s"

definition behind :: "char \<Rightarrow> string \<Rightarrow> string" where
  "behind c s = drop 1 (dropWhile (\<lambda>d. d \<noteq> c) s)"

definition behind_last :: "char \<Rightarrow> string \<Rightarrow> string" where
  "behind_last c s = rev (before c (rev s))"

definition ascii_alpha :: "char \<Rightarrow> bool" where
  "ascii_alpha c = ((65 \<le> code c \<and> code c \<le> 90) \<or> (97 \<le> code c \<and> code c \<le> 122))"

definition ascii_num :: "char \<Rightarrow> bool" where
  "ascii_num c = (48 \<le> code c \<and> code c \<le> 57)"

definition scheme_char :: "char \<Rightarrow> bool" where
  "scheme_char c = (ascii_alpha c \<or> ascii_num c \<or> c \<in> set ''+-.'')"

definition uses_params :: "string list" where
  "uses_params = [[], ''ftp'', ''hdl'', ''prospero'', ''http'', ''imap'', ''https'', ''shttp'', ''rtsp'', ''rtsps'', ''rtspu'',
     ''sip'', ''sips'', ''mms'', ''sftp'', ''tel'']"

definition split_scheme :: "string \<Rightarrow> string \<times> string" where
  "split_scheme url =
     (let pre = before CHR '':'' url in
      if CHR '':'' \<in> set url \<and> pre \<noteq> [] \<and> ascii_alpha (hd pre) \<and> list_all scheme_char pre
      then (lower pre, behind CHR '':'' url) else ([], url))"

definition split_netloc :: "string \<Rightarrow> string \<times> string" where
  "split_netloc url =
     (if startswith url ''//''
      then (takeWhile (\<lambda>c. c \<notin> set ''/?#'') (drop 2 url), dropWhile (\<lambda>c. c \<notin> set ''/?#'') (drop 2 url))
      else ([], url))"

definition hex_char :: "char \<Rightarrow> bool" where
  "hex_char c = (ascii_num c \<or> (65 \<le> code c \<and> code c \<le> 70) \<or> (97 \<le> code c \<and> code c \<le> 102))"

definition check_bracketed_host :: "(string \<Rightarrow> ip option) \<Rightarrow> string \<Rightarrow> unit result" where
  "check_bracketed_host ip_address h =
     (if startswith h ''v'' then
        (let ver = takeWhile hex_char (drop 1 h); rest = dropWhile hex_char (drop 1 h) in
         if ver \<noteq> [] \<and> startswith rest ''.'' \<and> length rest > 1 then Inr () else Inl (ValueError ''IPvFuture address is invalid''))
      else case ip_address h of
        None \<Rightarrow> Inl (ValueError h)
      | Some (V4 _) \<Rightarrow> Inl (ValueError ''An IPv4 address cannot be in brackets'')
      | Some (V6 _) \<Rightarrow> Inr ())"

definition check_brackets :: "(string \<Rightarrow> ip option) \<Rightarrow> string \<Rightarrow> unit result" where
  "check_brackets ip_address netloc =
     (if (CHR ''['' \<in> set netloc) \<noteq> (CHR '']'' \<in> set netloc) then Inl (ValueError ''Invalid IPv6 URL'')
      else if CHR ''['' \<in> set netloc then check_bracketed_host ip_address (before CHR '']'' (behind CHR ''['' netloc))
      else Inr ())"

text \<open>The parameters of the last path segment are cut off the path.\<close>

definition split_params :: "string \<Rightarrow> string" where
  "split_params path =
     (let seg = rev (takeWhile (\<lambda>c. c \<noteq> CHR ''/'') (rev path))
      in take (length path - length seg) path @ before CHR '';'' seg)"

record url_parts =
  up_scheme :: string
  up_netloc :: string
  up_path :: string
  up_query :: string

definition urlparse :: "(string \<Rightarrow> ip option) \<Rightarrow> string \<Rightarrow> url_parts result" where
  "urlparse ip_address raw =
     (let url = filter (\<lambda>c. code c \<notin> {9, 10, 13}) (dropWhile (\<lambda>c. code c \<le> 32) raw);
          (scheme, rest) = split_scheme url;
          (netloc, tail) = split_netloc rest
      in case check_brackets ip_address netloc of
           Inl e \<Rightarrow> Inl e
         | Inr _ \<Rightarrow>
             let unfragmented = before CHR ''#'' tail;
                 path = before CHR ''?'' unfragmented
             in Inr \<lparr>up_scheme = scheme, up_netloc = netloc,
                     up_path = (if scheme \<in> set uses_params then split_params path else path),
                     up_query = behind CHR ''?'' unfragmented\<rparr>)"

text \<open>The host and the text of the port.\<close>

definition hostinfo :: "string \<Rightarrow> string \<times> string" where
  "hostinfo netloc =
     (let info = behind_last CHR ''@'' netloc in
      if CHR ''['' \<in> set info
      then (let bracketed = behind CHR ''['' info in (before CHR '']'' bracketed, behind CHR '':'' (behind CHR '']'' bracketed)))
      else (before CHR '':'' info, behind CHR '':'' info))"

definition url_hostname :: "url_parts \<Rightarrow> string option" where
  "url_hostname u =
     (let h = fst (hostinfo (up_netloc u)) in
      if h = [] then None
      else Some (lower (before CHR ''%'' h) @ dropWhile (\<lambda>c. c \<noteq> CHR ''%'') h))"

definition url_port :: "url_parts \<Rightarrow> int option result" where
  "url_port u =
     (let p = snd (hostinfo (up_netloc u)) in
      if p = [] then Inr None
      else if list_all ascii_num p then
        (let n = the (int_digits 0 False p) in if n \<le> 65535 then Inr (Some n) else Inl (ValueError ''Port out of range 0-65535''))
      else Inl (ValueError (''Port could not be cast to integer value as '' @ p)))"

section \<open>The guard\<close>

record fetch_env =
  fe_ip_address :: "string \<Rightarrow> ip option"
  fe_getaddrinfo :: "nat \<Rightarrow> string \<Rightarrow> (string + string list) result"
  \<comment> \<open>the answer to the \<open>k\<close>-th question: addresses, the text of a \<^verbatim>\<open>gaierror\<close>, or another exception\<close>

abbreviation apostrophe :: string where
  "apostrophe \<equiv> [CHR 0x27]"

definition non_public_raw :: "fetch_env \<Rightarrow> string \<Rightarrow> bool" where
  "non_public_raw fe raw = (case fe_ip_address fe raw of None \<Rightarrow> False | Some i \<Rightarrow> non_public i)"

definition resolve_and_validate :: "fetch_env \<Rightarrow> nat \<Rightarrow> string \<Rightarrow> (string + string) result" where
  "resolve_and_validate fe k hostname =
     bindR (fe_getaddrinfo fe k hostname) (\<lambda>answer.
       case answer of
         Inl e \<Rightarrow> Inr (Inl (''Rejected: could not resolve '' @ apostrophe @ hostname @ apostrophe @ '': '' @ e))
       | Inr infos \<Rightarrow>
           (case List.find (non_public_raw fe) infos of
              Some raw \<Rightarrow> Inr (Inl (''Rejected: '' @ apostrophe @ hostname @ apostrophe @ '' resolves to non-public address '' @ raw))
            | None \<Rightarrow>
                (case infos of
                   [] \<Rightarrow> Inr (Inl (''Rejected: no addresses resolved for '' @ apostrophe @ hostname @ apostrophe))
                 | raw # _ \<Rightarrow> Inr (Inr raw))))"

text \<open>The parsed URL with its host and the address, or the text of the refusal; the parser may raise.\<close>

definition validate_url :: "fetch_env \<Rightarrow> nat \<Rightarrow> string \<Rightarrow> (string + url_parts \<times> string \<times> string) result" where
  "validate_url fe k url =
     bindR (urlparse (fe_ip_address fe) url) (\<lambda>u.
       if up_scheme u \<notin> {''http'', ''https''}
       then Inr (Inl (''Rejected: scheme '' @ apostrophe @ up_scheme u @ apostrophe @ '' not allowed (only http/https)''))
       else case url_hostname u of
         None \<Rightarrow> Inr (Inl ''Rejected: missing hostname'')
       | Some h \<Rightarrow>
           bindR (url_port u) (\<lambda>p.
             if p \<notin> {Some 80, Some 443, None}
             then Inr (Inl (''Rejected: port '' @ int_str (the p) @ '' not allowed (only 80 or 443)''))
             else bindR (resolve_and_validate fe k h) (\<lambda>r.
               case r of Inl e \<Rightarrow> Inr (Inl e) | Inr ip \<Rightarrow> Inr (Inr (u, h, ip)))))"

section \<open>Fetching\<close>

definition MAX_BYTES :: nat where
  "MAX_BYTES = 1000000"

definition ALLOWED_CT :: "string list" where
  "ALLOWED_CT = [''text/html'', ''text/plain'', ''application/xhtml+xml'']"

text \<open>
  A connection: the address and port it is made to, the URL of the request and the host it names. A
  response: what the client says of its status, its headers by lower-case name, the pieces of its
  body and an exception that reading it may end in.
\<close>

record connection =
  cn_ip :: string
  cn_port :: int
  cn_target :: string
  cn_host :: string

record response =
  rs_is_redirect :: bool
  rs_is_success :: bool
  rs_status :: int
  rs_headers :: "(string \<times> string) list"
  rs_chunks :: "string list"
  rs_break :: "pyexc option"

record page_env =
  pe_names :: fetch_env
  pe_send :: "nat \<Rightarrow> connection \<Rightarrow> response result"
  pe_soup_installed :: bool
  pe_soup :: "string \<Rightarrow> (string \<times> string) result"
  \<comment> \<open>title and text of the page without scripts and navigation\<close>
  pe_exc_text :: "pyexc \<Rightarrow> string"

fun read_capped :: "nat \<Rightarrow> string list \<Rightarrow> pyexc option \<Rightarrow> string result" where
  "read_capped got [] broken = (case broken of Some e \<Rightarrow> Inl e | None \<Rightarrow> Inr [])"
| "read_capped got (c # cs) broken =
     (if got + length c \<ge> MAX_BYTES then Inr c
      else bindR (read_capped (got + length c) cs broken) (\<lambda>b. Inr (c @ b)))"

definition oversized :: "(string \<times> string) list \<Rightarrow> bool" where
  "oversized hs = (case dget hs ''content-length'' of
     None \<Rightarrow> False
   | Some cl \<Rightarrow> cl \<noteq> [] \<and> (case py_int cl of Some n \<Rightarrow> n > int MAX_BYTES | None \<Rightarrow> False))"

definition pin :: "url_parts \<Rightarrow> string \<Rightarrow> string \<Rightarrow> int option \<Rightarrow> connection" where
  "pin u hostname ip p =
     (let port = (case p of Some n \<Rightarrow> if n \<noteq> 0 then n else if up_scheme u = ''https'' then 443 else 80
                  | None \<Rightarrow> if up_scheme u = ''https'' then 443 else 80);
          ip_host = (if CHR '':'' \<in> set ip then ''['' @ ip @ '']'' else ip);
          path = (if up_path u = [] then ''/'' else up_path u) @ (if up_query u \<noteq> [] then ''?'' @ up_query u else [])
      in \<lparr>cn_ip = ip, cn_port = port, cn_target = up_scheme u @ ''://'' @ ip_host @ '':'' @ int_str port @ path, cn_host = hostname\<rparr>)"

definition ascii_only :: "string \<Rightarrow> bool" where
  "ascii_only s = list_all (\<lambda>c. code c < 128) s"

text \<open>
  The host of an https request is encoded as ASCII before the request is sent. A redirect and an
  oversized reply come back with an empty body.
\<close>

definition pinned_fetch :: "page_env \<Rightarrow> nat \<Rightarrow> string \<Rightarrow> string \<Rightarrow> string \<Rightarrow> (response \<times> string) result \<times> connection list" where
  "pinned_fetch pe k url hostname ip =
     (case bindR (urlparse (fe_ip_address (pe_names pe)) url) (\<lambda>u. bindR (url_port u) (\<lambda>p. Inr (u, p))) of
        Inl e \<Rightarrow> (Inl e, [])
      | Inr (u, p) \<Rightarrow>
          let c = pin u hostname ip p in
          if up_scheme u = ''https'' \<and> \<not> ascii_only hostname then (Inl (ValueError hostname), [])
          else (bindR (pe_send pe k c) (\<lambda>r.
                  if rs_is_redirect r \<or> oversized (rs_headers r) then Inr (r, [])
                  else bindR (read_capped 0 (rs_chunks r) (rs_break r)) (\<lambda>b. Inr (r, b))), [c]))"

text \<open>The URL of a redirect: an absolute location as it is, anything else behind the present host.\<close>

definition redirect_url :: "url_parts \<Rightarrow> (string \<times> string) list \<Rightarrow> string" where
  "redirect_url u hs =
     (let location = (case dget hs ''location'' of Some l \<Rightarrow> l | None \<Rightarrow> []) in
      if startswith location ''http://'' \<or> startswith location ''https://'' then location
      else up_scheme u @ ''://'' @ up_netloc u @ location)"

datatype hop_end =
    Fetched string response string
  | Exhausted string
  | Refused string
  | HopRaised pyexc
  | StatusError int

fun hops :: "page_env \<Rightarrow> nat \<Rightarrow> nat \<Rightarrow> string \<Rightarrow> string \<Rightarrow> string \<Rightarrow> hop_end \<times> connection list" where
  "hops pe 0 k url hostname ip = (Exhausted url, [])"
| "hops pe (Suc n) k url hostname ip =
     (case pinned_fetch pe k url hostname ip of
        (Inl e, cs) \<Rightarrow> (HopRaised e, cs)
      | (Inr (r, body), cs) \<Rightarrow>
          if rs_is_redirect r then
            (case bindR (urlparse (fe_ip_address (pe_names pe)) url) (\<lambda>u. Inr (redirect_url u (rs_headers r))) of
               Inl e \<Rightarrow> (HopRaised e, cs)
             | Inr location \<Rightarrow>
                 (case validate_url (pe_names pe) (Suc k) location of
                    Inl e \<Rightarrow> (HopRaised e, cs)
                  | Inr (Inl refusal) \<Rightarrow> (Refused refusal, cs)
                  | Inr (Inr (u, h, hop_ip)) \<Rightarrow>
                      (case hops pe n (Suc k) location h hop_ip of (res, cs') \<Rightarrow> (res, cs @ cs'))))
          else if rs_is_success r then (Fetched url r body, cs)
          else (StatusError (rs_status r), cs))"

definition page_text :: "page_env \<Rightarrow> string \<Rightarrow> string \<Rightarrow> response \<Rightarrow> string \<Rightarrow> string result" where
  "page_text pe url current r body =
     (let ct = lower (strip (before CHR '';'' (case dget (rs_headers r) ''content-type'' of Some t \<Rightarrow> t | None \<Rightarrow> []))) in
      if body = [] then Inr (''Could not extract content from '' @ url @ '' (empty or oversized response)'')
      else if ct \<noteq> [] \<and> ct \<notin> set ALLOWED_CT
      then Inr (''Rejected: content type '' @ apostrophe @ ct @ apostrophe @ '' not supported (expected HTML or plain text)'')
      else bindR (pe_soup pe body) (\<lambda>(title, content).
        if strip content = [] then Inr (''Could not extract text content from '' @ current)
        else Inr ((if title \<noteq> [] \<and> title \<noteq> current
                   then ''Title: '' @ title @ newline @ ''URL: '' @ current @ newline @ newline
                   else ''URL: '' @ current @ newline @ newline) @ take 8000 content)))"

definition MAX_HOPS :: nat where
  "MAX_HOPS = 5"

definition run_fetch_url :: "page_env \<Rightarrow> string \<Rightarrow> string result \<times> connection list" where
  "run_fetch_url pe url =
     (case validate_url (pe_names pe) 0 url of
        Inl e \<Rightarrow> (Inl e, [])
      | Inr (Inl refusal) \<Rightarrow> (Inr refusal, [])
      | Inr (Inr (u, h, ip)) \<Rightarrow>
          if \<not> pe_soup_installed pe then (Inr ''Error: beautifulsoup4 not installed'', [])
          else
            (case hops pe MAX_HOPS 0 url h ip of
               (res, cs) \<Rightarrow>
                 (case res of
                    Fetched current r body \<Rightarrow>
                      (case page_text pe url current r body of
                         Inr t \<Rightarrow> Inr t
                       | Inl e \<Rightarrow> Inr (''Error fetching '' @ url @ '': '' @ pe_exc_text pe e))
                  | Exhausted _ \<Rightarrow> Inr (''Could not extract content from '' @ url @ '' (empty or oversized response)'')
                  | Refused refusal \<Rightarrow> Inr (''Rejected redirect: '' @ refusal)
                  | HopRaised e \<Rightarrow> Inr (''Error fetching '' @ url @ '': '' @ pe_exc_text pe e)
                  | StatusError n \<Rightarrow> Inr (''HTTP error fetching '' @ url @ '': '' @ int_str n),
                  cs)))"


section \<open>Networks are intervals\<close>

text \<open>The special ranges of IPv4, by their first and last address.\<close>

definition special4 :: "(nat \<times> nat) list" where
  "special4 = [(0x00000000, 0x00FFFFFF), (0x0A000000, 0x0AFFFFFF), (0x7F000000, 0x7FFFFFFF), (0xA9FE0000, 0xA9FEFFFF),
     (0xAC100000, 0xAC1FFFFF), (0xC0000000, 0xC00000FF), (0xC00000AA, 0xC00000AB), (0xC0000200, 0xC00002FF), (0xC0A80000, 0xC0A8FFFF),
     (0xC6120000, 0xC613FFFF), (0xC6336400, 0xC63364FF), (0xCB007100, 0xCB0071FF), (0xF0000000, 0xFFFFFFFF), (0xFFFFFFFF, 0xFFFFFFFF)]"

lemma net4_intervals:
  "in_net a (0x00000000, 8) \<longleftrightarrow> 0 \<le> unat a \<and> unat a \<le> 0x00FFFFFF"
  "in_net a (0x0A000000, 8) \<longleftrightarrow> 0x0A000000 \<le> unat a \<and> unat a \<le> 0x0AFFFFFF"
  "in_net a (0x7F000000, 8) \<longleftrightarrow> 0x7F000000 \<le> unat a \<and> unat a \<le> 0x7FFFFFFF"
  "in_net a (0xA9FE0000, 16) \<longleftrightarrow> 0xA9FE0000 \<le> unat a \<and> unat a \<le> 0xA9FEFFFF"
  "in_net a (0xAC100000, 12) \<longleftrightarrow> 0xAC100000 \<le> unat a \<and> unat a \<le> 0xAC1FFFFF"
  "in_net a (0xC0000000, 24) \<longleftrightarrow> 0xC0000000 \<le> unat a \<and> unat a \<le> 0xC00000FF"
  "in_net a (0xC00000AA, 31) \<longleftrightarrow> 0xC00000AA \<le> unat a \<and> unat a \<le> 0xC00000AB"
  "in_net a (0xC0000200, 24) \<longleftrightarrow> 0xC0000200 \<le> unat a \<and> unat a \<le> 0xC00002FF"
  "in_net a (0xC0A80000, 16) \<longleftrightarrow> 0xC0A80000 \<le> unat a \<and> unat a \<le> 0xC0A8FFFF"
  "in_net a (0xC6120000, 15) \<longleftrightarrow> 0xC6120000 \<le> unat a \<and> unat a \<le> 0xC613FFFF"
  "in_net a (0xC6336400, 24) \<longleftrightarrow> 0xC6336400 \<le> unat a \<and> unat a \<le> 0xC63364FF"
  "in_net a (0xCB007100, 24) \<longleftrightarrow> 0xCB007100 \<le> unat a \<and> unat a \<le> 0xCB0071FF"
  "in_net a (0xF0000000, 4) \<longleftrightarrow> 0xF0000000 \<le> unat a \<and> unat a \<le> 0xFFFFFFFF"
  "in_net a (0xE0000000, 4) \<longleftrightarrow> 0xE0000000 \<le> unat a \<and> unat a \<le> 0xEFFFFFFF"
  "in_net a (0xFFFFFFFF, 32) \<longleftrightarrow> 0xFFFFFFFF \<le> unat a \<and> unat a \<le> 0xFFFFFFFF"
  "in_net a (0xC0000009, 32) \<longleftrightarrow> unat a = 0xC0000009"
  "in_net a (0xC000000A, 32) \<longleftrightarrow> unat a = 0xC000000A"
  for a :: "32 word"
  by (simp_all add: in_net_def word_unat_eq_iff drop_bit_eq_div unat_div_distrib) arith+

lemma is_private4_special:
  "is_private4 a \<longleftrightarrow> list_ex (\<lambda>(lo, hi). lo \<le> unat a \<and> unat a \<le> hi) special4 \<and> unat a \<noteq> 0xC0000009 \<and> unat a \<noteq> 0xC000000A"
proof -
  have "list_ex (in_net a) private4 \<longleftrightarrow> list_ex (\<lambda>(lo, hi). lo \<le> unat a \<and> unat a \<le> hi) special4"
    unfolding private4_def special4_def list_ex_Cons_iff list_ex_Nil_iff net4_intervals case_prod_conv by (rule refl)
  then show ?thesis by (simp add: is_private4_def private4_exceptions_def net4_intervals)
qed

lemma non_public_V4: "non_public (V4 a) \<longleftrightarrow> is_private4 a \<or> (0xE0000000 \<le> unat a \<and> unat a \<le> 0xEFFFFFFF)"
proof -
  have "in_net a (0x7F000000, 8) \<Longrightarrow> is_private4 a" "in_net a (0xA9FE0000, 16) \<Longrightarrow> is_private4 a"
    "in_net a (0xF0000000, 4) \<Longrightarrow> is_private4 a" "a = 0 \<Longrightarrow> is_private4 a"
    unfolding is_private4_special net4_intervals by (simp_all add: special4_def)
  then show ?thesis
    unfolding net4_intervals(14) [symmetric]
    by (auto simp: non_public_def is_loopback_def is_private_def is_link_local_def is_reserved_def is_multicast_def is_unspecified_def)
qed

lemma shared_space_public: "\<not> non_public (V4 (0x64400000 + ucast (x :: 22 word)))"
proof -
  have x: "unat x < 0x400000" using unsigned_less [of x, where 'a = nat] by simp
  then have "unat (0x64400000 + ucast x :: 32 word) = 0x64400000 + unat x"
    by (simp add: unat_plus_if' unsigned_ucast_eq take_bit_nat_eq_self)
  with x show ?thesis unfolding non_public_V4 is_private4_special special4_def by simp
qed

text \<open>The addresses of one's own machine and network in IPv6, IPv4 addresses in disguise included.\<close>

lemma exceptions6_low: "list_ex (in_net a) private6_exceptions \<Longrightarrow> unat a < 0x20020000000000000000000000000000"
  unfolding private6_exceptions_def list_ex_Cons_iff list_ex_Nil_iff in_net_def word_unat_eq_iff
  by (elim disjE) (simp_all add: drop_bit_eq_div unat_div_distrib)

lemma internal_V6_refused:
  assumes "ipv4_mapped a \<noteq> None \<or> a = 0 \<or> a = 1 \<or> in_net a (0xFC000000000000000000000000000000, 7)
    \<or> in_net a (0xFE800000000000000000000000000000, 10)"
  shows "non_public (V6 a)"
  using assms
proof (elim disjE)
  assume "ipv4_mapped a \<noteq> None"
  then have "drop_bit 32 a = 0xFFFF" by (simp add: ipv4_mapped_def split: if_splits)
  then have "in_net a (0, 8)"
    by (simp add: in_net_def word_unat_eq_iff drop_bit_eq_div unat_div_distrib)
  then show ?thesis by (simp add: non_public_def is_reserved_def reserved6_def)
next
  assume ula: "in_net a (0xFC000000000000000000000000000000, 7)"
  then have "0xFC000000000000000000000000000000 \<le> unat a"
    by (simp add: in_net_def word_unat_eq_iff drop_bit_eq_div unat_div_distrib)
  then have "\<not> list_ex (in_net a) private6_exceptions" using exceptions6_low [of a] by linarith
  moreover have "list_ex (in_net a) private6" using ula by (simp add: private6_def)
  moreover have "ipv4_mapped a = None"
    using ula by (auto simp: ipv4_mapped_def in_net_def word_unat_eq_iff drop_bit_eq_div unat_div_distrib)
  ultimately show ?thesis by (simp add: non_public_def is_private_def)
qed (simp_all add: non_public_def is_loopback_def is_link_local_def is_unspecified_def)

text \<open>
  Which IPv4 addresses the guard refuses, exactly: those of the special ranges (this network,
  the three private ranges, loopback, link-local, the documentation and benchmark ranges, reserved),
  but for 192.0.0.9 and 192.0.0.10, and the multicast addresses. In particular the shared address
  space 100.64.0.0/10 is in none of them, so that a host behind a carrier's or an overlay network's
  address translation is accepted.
\<close>

theorem refused_ipv4_exact:
  "(non_public (V4 a) \<longleftrightarrow>
     (list_ex (\<lambda>(lo, hi). lo \<le> unat a \<and> unat a \<le> hi) special4 \<and> unat a \<noteq> 0xC0000009 \<and> unat a \<noteq> 0xC000000A)
     \<or> (0xE0000000 \<le> unat a \<and> unat a \<le> 0xEFFFFFFF))
   \<and> \<not> non_public (V4 (0x64400000 + ucast (x :: 22 word)))"
  using shared_space_public [of x] non_public_V4 [of a] is_private4_special [of a] by blast


section \<open>Every connection was checked\<close>

text \<open>
  A connection is admissible when the name service gave its address first in an answer for its host
  in which no address is known to be internal, and its request names that address, port 80 or 443
  and a path.
\<close>

definition admissible :: "fetch_env \<Rightarrow> connection \<Rightarrow> bool" where
  "admissible fe c =
     ((\<exists>k infos. fe_getaddrinfo fe k (cn_host c) = Inr (Inr (cn_ip c # infos)) \<and> \<not> list_ex (non_public_raw fe) (cn_ip c # infos))
      \<and> (cn_port c = 80 \<or> cn_port c = 443)
      \<and> (\<exists>scheme path. (scheme = ''http'' \<or> scheme = ''https'')
           \<and> cn_target c = scheme @ ''://'' @ (if CHR '':'' \<in> set (cn_ip c) then ''['' @ cn_ip c @ '']'' else cn_ip c)
               @ '':'' @ int_str (cn_port c) @ ''/'' @ path))"

lemma before_starts: "s = [] \<or> hd s = d \<Longrightarrow> c \<noteq> d \<Longrightarrow> before c s = [] \<or> hd (before c s) = d"
  by (cases s) (auto simp: before_def)

lemma split_params_starts:
  assumes "s = [] \<or> hd s = CHR ''/''"
  shows "split_params s = [] \<or> hd (split_params s) = CHR ''/''"
proof (cases s)
  case (Cons c s')
  let ?seg = "takeWhile (\<lambda>c. c \<noteq> CHR ''/'') (rev s)"
  have "rev s = rev s' @ [CHR ''/'']" using Cons assms by simp
  then have "length ?seg \<le> length s'"
    using length_takeWhile_le [of "\<lambda>c. c \<noteq> CHR ''/''" "rev s'"] by (simp add: takeWhile_append)
  then obtain n where "length s - length ?seg = Suc n" using Cons by (metis Suc_diff_le length_Cons)
  then have "split_params s = c # (take n s' @ before CHR '';'' (rev ?seg))"
    by (simp add: split_params_def Let_def Cons)
  then show ?thesis using Cons assms by simp
qed (simp add: split_params_def before_def)

lemma urlparse_path:
  assumes "urlparse ipa raw = Inr u" and "up_netloc u \<noteq> []"
  shows "up_path u = [] \<or> hd (up_path u) = CHR ''/''"
proof -
  define url where "url = filter (\<lambda>c. code c \<notin> {9, 10, 13}) (dropWhile (\<lambda>c. code c \<le> 32) raw)"
  define rest where "rest = snd (split_scheme url)"
  define netloc where "netloc = fst (split_netloc rest)"
  define tl where "tl = snd (split_netloc rest)"
  have u: "up_netloc u = netloc"
    "up_path u = (if fst (split_scheme url) \<in> set uses_params then split_params (before CHR ''?'' (before CHR ''#'' tl))
                  else before CHR ''?'' (before CHR ''#'' tl))"
    using assms(1) unfolding urlparse_def Let_def url_def [symmetric] split_beta rest_def [symmetric] netloc_def [symmetric] tl_def [symmetric]
    by (cases "check_brackets ipa netloc"; auto)+
  have "startswith rest ''//''" using assms(2) u(1) by (auto simp: netloc_def split_netloc_def split: if_splits)
  then have "tl = dropWhile (\<lambda>c. c \<notin> set ''/?#'') (drop 2 rest)" by (simp add: tl_def split_netloc_def)
  then have "tl = [] \<or> hd tl = CHR ''/'' \<or> hd tl = CHR ''?'' \<or> hd tl = CHR ''#''"
    using hd_dropWhile [of "\<lambda>c. c \<notin> set ''/?#''" "drop 2 rest"] by auto
  then have "before CHR ''?'' (before CHR ''#'' tl) = [] \<or> hd (before CHR ''?'' (before CHR ''#'' tl)) = CHR ''/''"
    by (cases tl) (auto simp: before_def)
  then show ?thesis using split_params_starts by (simp add: u(2))
qed

lemma resolve_ok:
  assumes "resolve_and_validate fe k h = Inr (Inr ip)"
  shows "\<exists>infos. fe_getaddrinfo fe k h = Inr (Inr (ip # infos)) \<and> \<not> list_ex (non_public_raw fe) (ip # infos)"
proof -
  obtain infos where a: "fe_getaddrinfo fe k h = Inr (Inr infos)" and f: "List.find (non_public_raw fe) infos = None"
    and ip: "infos \<noteq> []" "hd infos = ip"
    using assms unfolding resolve_and_validate_def bindR_eq_Inr
    by (fastforce split: sum.split_asm option.split_asm list.split_asm)
  from f have "\<not> list_ex (non_public_raw fe) infos" by (auto simp: find_None_iff list_ex_iff)
  with a ip show ?thesis by (cases infos) auto
qed

lemma validate_url_ok:
  assumes "validate_url fe k url = Inr (Inr (u, h, ip))"
  obtains p where "urlparse (fe_ip_address fe) url = Inr u" "up_scheme u \<in> {''http'', ''https''}" "up_netloc u \<noteq> []"
    "url_port u = Inr p" "p \<in> {Some 80, Some 443, None}" "resolve_and_validate fe k h = Inr (Inr ip)"
proof -
  obtain u' where u': "urlparse (fe_ip_address fe) url = Inr u'" and s: "up_scheme u' \<in> {''http'', ''https''}"
    using assms by (cases "urlparse (fe_ip_address fe) url") (auto simp: validate_url_def bindR_def split: if_split_asm)
  obtain h' where h': "url_hostname u' = Some h'"
    using assms u' s by (cases "url_hostname u'") (auto simp: validate_url_def bindR_def)
  obtain p where p: "url_port u' = Inr p" "p \<in> {Some 80, Some 443, None}"
    using assms u' s h' by (cases "url_port u'") (auto simp: validate_url_def bindR_def split: if_split_asm)
  obtain r where r: "resolve_and_validate fe k h' = Inr r"
    using assms u' s h' p by (cases "resolve_and_validate fe k h'") (auto simp: validate_url_def bindR_def)
  have "r = Inr ip \<and> u' = u \<and> h' = h"
    using assms u' s h' p r by (cases r) (auto simp: validate_url_def bindR_def)
  moreover have "up_netloc u' \<noteq> []"
    using h' by (auto simp: url_hostname_def hostinfo_def behind_last_def before_def Let_def)
  ultimately show ?thesis using that u' s p r by blast
qed

lemma pinned_fetch_admissible:
  assumes "validate_url (pe_names pe) k url = Inr (Inr (u, h, ip))"
  shows "list_all (admissible (pe_names pe)) (snd (pinned_fetch pe j url h ip)) \<and> length (snd (pinned_fetch pe j url h ip)) \<le> 1"
proof -
  obtain p where u: "urlparse (fe_ip_address (pe_names pe)) url = Inr u" "up_scheme u \<in> {''http'', ''https''}" "up_netloc u \<noteq> []"
    and p: "url_port u = Inr p" "p \<in> {Some 80, Some 443, None}" and r: "resolve_and_validate (pe_names pe) k h = Inr (Inr ip)"
    using validate_url_ok [OF assms] by blast
  obtain path where path: "(if up_path u = [] then ''/'' else up_path u) = ''/'' @ path"
    using urlparse_path [OF u(1,3)] by (cases "up_path u") auto
  let ?c = "pin u h ip p"
  have "cn_port ?c = 80 \<or> cn_port ?c = 443" using p(2) by (auto simp: pin_def Let_def)
  moreover have "cn_target ?c = up_scheme u @ ''://'' @ (if CHR '':'' \<in> set ip then ''['' @ ip @ '']'' else ip)
      @ '':'' @ int_str (cn_port ?c) @ ''/'' @ path @ (if up_query u \<noteq> [] then ''?'' @ up_query u else [])"
    unfolding pin_def Let_def connection.simps path by simp
  moreover have c: "cn_ip ?c = ip" "cn_host ?c = h" by (simp_all add: pin_def Let_def)
  ultimately have "admissible (pe_names pe) ?c"
    using resolve_ok [OF r] u(2) unfolding admissible_def c by blast
  then show ?thesis using u(1) p(1) by (auto simp: pinned_fetch_def bindR_def Let_def)
qed

lemma hops_admissible:
  assumes "validate_url (pe_names pe) j url = Inr (Inr (u, h, ip))"
  shows "list_all (admissible (pe_names pe)) (snd (hops pe n k url h ip)) \<and> length (snd (hops pe n k url h ip)) \<le> n"
  using assms
proof (induction n arbitrary: j k url u h ip)
  case (Suc n)
  obtain res cs where pf: "pinned_fetch pe k url h ip = (res, cs)" by fastforce
  have first: "list_all (admissible (pe_names pe)) cs" "length cs \<le> 1"
    using pinned_fetch_admissible [OF Suc.prems, of k] pf by simp_all
  show ?case
  proof (cases "\<exists>cs'. snd (hops pe (Suc n) k url h ip) = cs @ cs'
      \<and> (\<exists>l u' h' ip'. validate_url (pe_names pe) (Suc k) l = Inr (Inr (u', h', ip')) \<and> cs' = snd (hops pe n (Suc k) l h' ip'))")
    case True
    then obtain l u' h' ip' where "snd (hops pe (Suc n) k url h ip) = cs @ snd (hops pe n (Suc k) l h' ip')"
      and "validate_url (pe_names pe) (Suc k) l = Inr (Inr (u', h', ip'))" by blast
    with first Suc.IH [of "Suc k" l u' h' ip' "Suc k"] show ?thesis by simp
  next
    case False
    then have "snd (hops pe (Suc n) k url h ip) = cs"
      by (force simp: pf split: sum.splits prod.splits)
    with first show ?thesis by simp
  qed
qed simp

text \<open>
  C4. The page tool never connects anywhere it has not checked: whatever URL the model asks for and
  wherever it is redirected, each connection goes to an address the name service gave for the host
  of the URL, in an answer without an address known to be internal, on port 80 or 443; the request
  names that address itself, so that a second answer of the name service has no effect; and there
  are at most five connections.
\<close>

theorem connections_checked:
  "list_all (admissible (pe_names pe)) (snd (run_fetch_url pe url)) \<and> length (snd (run_fetch_url pe url)) \<le> 5"
proof (cases "validate_url (pe_names pe) 0 url")
  case (Inr r)
  then show ?thesis
  proof (cases r)
    case (Inr uhi)
    obtain u h ip where uhi: "uhi = (u, h, ip)" by (cases uhi)
    have "list_all (admissible (pe_names pe)) (snd (hops pe 5 0 url h ip)) \<and> length (snd (hops pe 5 0 url h ip)) \<le> 5"
      by (rule hops_admissible) (use Inr \<open>validate_url _ 0 url = Inr r\<close> uhi in simp)
    then show ?thesis
      using Inr \<open>validate_url _ 0 url = Inr r\<close> uhi by (auto simp: run_fetch_url_def MAX_HOPS_def split: prod.splits)
  qed (simp add: run_fetch_url_def)
qed (simp add: run_fetch_url_def)


section \<open>Redirects and path parameters\<close>

text \<open>Hosts and paths of plain characters are read back from a URL as they were written.\<close>

definition plain :: "string \<Rightarrow> bool" where
  "plain s = list_all (\<lambda>c. ascii_alpha c \<or> ascii_num c \<or> c \<in> set ''.-_'') s"

lemma plain_chars:
  assumes "plain s" and "c \<in> set s"
  shows "32 < code c" "c \<notin> set '':/?#@[]%;''"
proof -
  have "(65 \<le> code c \<and> code c \<le> 90) \<or> (97 \<le> code c \<and> code c \<le> 122) \<or> (48 \<le> code c \<and> code c \<le> 57) \<or> c \<in> set ''.-_''"
    using assms unfolding plain_def list_all_iff ascii_alpha_def ascii_num_def by auto
  then show "32 < code c" by (auto simp: code_def)
  show "c \<notin> set '':/?#@[]%;''"
  proof
    assume "c \<in> set '':/?#@[]%;''"
    then have "code c \<in> {58, 47, 63, 35, 64, 91, 93, 37, 59} \<and> c \<notin> set ''.-_''" by (auto simp: code_def)
    with \<open>_ \<or> _\<close> show False by auto
  qed
qed

lemma plain_append [simp]: "plain (s @ t) \<longleftrightarrow> plain s \<and> plain t"
  by (simp add: plain_def)

lemma absent_parts:
  assumes "c \<notin> set s"
  shows "before c s = s" "behind c s = []" "behind_last c s = s" "dropWhile (\<lambda>d. d \<noteq> c) s = []"
proof -
  have all: "\<forall>d \<in> set s. d \<noteq> c" using assms by blast
  then show "before c s = s" and none: "dropWhile (\<lambda>d. d \<noteq> c) s = []" by (simp_all add: before_def)
  show "behind c s = []" unfolding behind_def none by simp
  have rv: "takeWhile (\<lambda>d. d \<noteq> c) (rev s) = rev s" using all by simp
  show "behind_last c s = s" unfolding behind_last_def before_def rv by simp
qed

lemma url_roundtrip:
  assumes "scheme = ''http'' \<or> scheme = ''https''" and "plain h" and "h \<noteq> []"
    and "rest = [] \<or> hd rest = CHR ''/''" and "\<forall>c \<in> set rest. 32 < code c"
  shows "\<exists>u. urlparse ipa (scheme @ ''://'' @ h @ rest) = Inr u \<and> up_scheme u = scheme \<and> up_netloc u = h
    \<and> url_hostname u = Some (lower h) \<and> url_port u = Inr None
    \<and> up_path u = split_params (before CHR ''?'' (before CHR ''#'' rest)) \<and> up_query u = behind CHR ''?'' (before CHR ''#'' rest)"
proof -
  let ?raw = "scheme @ ''://'' @ h @ rest"
  have h: "\<And>c. c \<in> set h \<Longrightarrow> 32 < code c \<and> c \<notin> set '':/?#@[]%;''" using plain_chars [OF assms(2)] by blast
  have no: "c \<notin> set h" if "c \<in> set '':/?#@[]%;''" for c using h that by blast
  have s: "scheme \<noteq> []" "hd scheme = CHR ''h''" "\<forall>c \<in> set scheme. 32 < code c" "CHR '':'' \<notin> set scheme" "lower scheme = scheme"
    "list_all scheme_char scheme" "ascii_alpha (hd scheme)" "scheme \<in> set uses_params"
    using assms(1) by (auto simp: code_def scheme_char_def ascii_alpha_def lower_char_def uses_params_def)
  have chars: "32 < code c" if "c \<in> set ?raw" for c using that s(3) h assms(5) by (auto simp: code_def)
  have "dropWhile (\<lambda>c. code c \<le> 32) ?raw = ?raw"
    using s(1) chars [of "hd ?raw"] by (cases scheme) auto
  moreover have "filter (\<lambda>c. code c \<notin> {9, 10, 13}) ?raw = ?raw"
    by (rule filter_True) (use chars in fastforce)
  moreover have "split_scheme ?raw = (scheme, ''//'' @ h @ rest)"
    using s by (simp add: split_scheme_def Let_def before_def behind_def takeWhile_append dropWhile_append)
  moreover have "split_netloc (''//'' @ h @ rest) = (h, rest)"
  proof -
    have "takeWhile (\<lambda>c. c \<notin> set ''/?#'') (h @ rest) = h @ takeWhile (\<lambda>c. c \<notin> set ''/?#'') rest"
      "dropWhile (\<lambda>c. c \<notin> set ''/?#'') (h @ rest) = dropWhile (\<lambda>c. c \<notin> set ''/?#'') rest"
      by (rule takeWhile_append2 dropWhile_append2, use h in fastforce)+
    moreover have "takeWhile (\<lambda>c. c \<notin> set ''/?#'') rest = []" "dropWhile (\<lambda>c. c \<notin> set ''/?#'') rest = rest"
      using assms(4) by (cases rest; simp)+
    ultimately show ?thesis by (simp add: split_netloc_def startswith_def)
  qed
  moreover have "check_brackets ipa h = Inr ()" using no by (simp add: check_brackets_def)
  ultimately have u: "urlparse ipa ?raw = Inr \<lparr>up_scheme = scheme, up_netloc = h,
      up_path = split_params (before CHR ''?'' (before CHR ''#'' rest)), up_query = behind CHR ''?'' (before CHR ''#'' rest)\<rparr>"
    unfolding urlparse_def Let_def using s(8) by simp
  have "behind_last CHR ''@'' h = h" "before CHR '':'' h = h" "behind CHR '':'' h = []" "before CHR ''%'' h = h"
    "dropWhile (\<lambda>c. c \<noteq> CHR ''%'') h = []"
    by (simp_all add: absent_parts no)
  then have "hostinfo h = (h, [])" using no by (simp add: hostinfo_def Let_def)
  then show ?thesis using u assms(3) \<open>before CHR ''%'' h = h\<close> \<open>dropWhile _ h = []\<close>
    by (auto simp: url_hostname_def url_port_def)
qed


text \<open>
  A relative redirect is not resolved against the page but glued to its host: when a page of
  host \<open>h\<close> redirects to a relative location that starts with a plain word \<open>d\<close>, the next request is
  for the host \<open>h\<close> followed by \<open>d\<close>, another host.
\<close>

theorem relative_redirect_changes_host:
  assumes "scheme = ''http'' \<or> scheme = ''https''" and "plain h" and "h \<noteq> []" and "plain d" and "d \<noteq> []"
    and "path = [] \<or> hd path = CHR ''/''" and "\<forall>c \<in> set path. 32 < code c"
    and "rest = [] \<or> hd rest = CHR ''/''" and "\<forall>c \<in> set rest. 32 < code c"
    and "urlparse ipa (scheme @ ''://'' @ h @ path) = Inr u" and "dget hs ''location'' = Some (d @ rest)"
  shows "\<exists>v. urlparse ipa (redirect_url u hs) = Inr v \<and> url_hostname v = Some (lower h @ lower d) \<and> url_hostname v \<noteq> url_hostname u"
proof -
  obtain u' where u': "urlparse ipa (scheme @ ''://'' @ h @ path) = Inr u'" "up_scheme u' = scheme" "up_netloc u' = h"
    "url_hostname u' = Some (lower h)"
    using url_roundtrip [OF assms(1-3,6,7)] by blast
  then have u: "up_scheme u = scheme" "up_netloc u = h" "url_hostname u = Some (lower h)" using assms(10) by auto
  have no_scheme: "\<not> startswith (d @ rest) w" if "w = ''http://'' \<or> w = ''https://''" for w
  proof
    assume "startswith (d @ rest) w"
    then obtain z where z: "d @ rest = w @ z" by (auto simp: startswith_prefix prefix_def)
    have "\<forall>c \<in> set d. c \<notin> set '':/''" using plain_chars(2) [OF assms(4)] by fastforce
    then have "dropWhile (\<lambda>c. c \<notin> set '':/'') (d @ rest) = dropWhile (\<lambda>c. c \<notin> set '':/'') rest" by (intro dropWhile_append2) blast
    also have "\<dots> = rest" using assms(8) by (cases rest) auto
    finally have "rest = dropWhile (\<lambda>c. c \<notin> set '':/'') (w @ z)" by (simp add: z)
    moreover have "dropWhile (\<lambda>c. c \<notin> set '':/'') (w @ z) = ''://'' @ z" using that by (elim disjE) simp_all
    ultimately show False using assms(8) by simp
  qed
  have "redirect_url u hs = scheme @ ''://'' @ (h @ d) @ rest"
    using no_scheme by (simp add: redirect_url_def assms(11) u)
  moreover have "\<exists>v. urlparse ipa (scheme @ ''://'' @ (h @ d) @ rest) = Inr v \<and> url_hostname v = Some (lower (h @ d))"
    using url_roundtrip [OF assms(1) _ _ assms(8,9), of "h @ d"] assms(2-4) by auto
  ultimately show ?thesis using u(3) assms(5) by (auto simp: lower_def)
qed


theorem relative_redirect_changes_host_witness:
  "\<exists>u v. urlparse (\<lambda>_. None) ''http://a.org/x'' = Inr u
     \<and> urlparse (\<lambda>_. None) (redirect_url u [(''location'', ''next/'')]) = Inr v
     \<and> url_hostname v = Some ''a.orgnext'' \<and> url_hostname v \<noteq> url_hostname u"
proof -
  obtain u where u: "urlparse (\<lambda>_. None) (''http'' @ ''://'' @ ''a.org'' @ ''/x'') = Inr u"
    using url_roundtrip [of "''http''" "''a.org''" "''/x''" "\<lambda>_. None"]
    by (auto simp: plain_def ascii_alpha_def ascii_num_def code_def)
  have "\<exists>v. urlparse (\<lambda>_. None) (redirect_url u [(''location'', ''next'' @ ''/'')]) = Inr v
     \<and> url_hostname v = Some (lower ''a.org'' @ lower ''next'') \<and> url_hostname v \<noteq> url_hostname u"
    by (rule relative_redirect_changes_host [OF _ _ _ _ _ _ _ _ _ u])
      (simp_all add: plain_def ascii_alpha_def ascii_num_def code_def dget_Cons)
  then show ?thesis using u by (simp add: lower_char_def code_def)
qed

text \<open>The parameters of the last path segment never reach the server.\<close>

lemma request_drops_params:
  assumes "scheme = ''http'' \<or> scheme = ''https''" and "plain h" and "h \<noteq> []" and "plain p" and "plain q"
  shows "\<exists>u. urlparse ipa (scheme @ ''://'' @ h @ ''/'' @ p @ '';'' @ q) = Inr u \<and> up_path u = ''/'' @ p \<and> up_query u = []"
proof -
  let ?r = "''/'' @ p @ '';'' @ q"
  have no: "c \<notin> set p \<and> c \<notin> set q" if "c \<in> set '':/?#@[]%;''" for c
    using plain_chars(2) [OF assms(4)] plain_chars(2) [OF assms(5)] that by blast
  have "\<forall>c \<in> set ?r. 32 < code c" using plain_chars(1) [OF assms(4)] plain_chars(1) [OF assms(5)] by (auto simp: code_def)
  then obtain u where u: "urlparse ipa (scheme @ ''://'' @ h @ ?r) = Inr u"
    "up_path u = split_params (before CHR ''?'' (before CHR ''#'' ?r))" "up_query u = behind CHR ''?'' (before CHR ''#'' ?r)"
    using url_roundtrip [OF assms(1-3), of ?r ipa] by auto
  have b: "before CHR ''#'' ?r = ?r" "before CHR ''?'' ?r = ?r" "behind CHR ''?'' ?r = []"
    using no by (simp_all add: absent_parts)
  have "takeWhile (\<lambda>c. c \<noteq> CHR ''/'') (rev (p @ '';'' @ q) @ ''/'') = rev (p @ '';'' @ q)"
    using no [of "CHR ''/''"] by (subst takeWhile_append2) auto
  then have seg: "rev (takeWhile (\<lambda>c. c \<noteq> CHR ''/'') (rev ?r)) = p @ '';'' @ q" by simp
  have "before CHR '';'' (p @ '';'' @ q) = p"
    unfolding before_def using no [of "CHR '';''"] by (subst takeWhile_append2) auto
  then have "split_params ?r = ''/'' @ p" unfolding split_params_def Let_def seg by simp
  then show ?thesis using u b by auto
qed

end
