(* ===== verification/File_Chunks.thy ===== *)
theory File_Chunks
  imports Connector_Intent
begin

text \<open>
  \<^verbatim>\<open>backend/services/processor.py\<close>: how an uploaded file becomes searchable. The text of a file is cut
  into units (paragraphs, sentences, words), the units are packed into overlapping chunks, and every
  chunk is embedded and stored; the row of the file records how far that went. Which library reads
  which kind of file is modelled; what the libraries extract is a parameter, as is the embedding
  service (\<open>embed\<close> of \<open>Connector_Intent\<close> would be one). The progress key in Redis and the metrics
  are left out.
\<close>

section \<open>Units\<close>

definition CHUNK_SIZE :: nat where
  "CHUNK_SIZE = 1600"

definition CHUNK_OVERLAP :: nat where
  "CHUNK_OVERLAP = 200"

text \<open>
  \<^verbatim>\<open>re.split(r"\n{2,}", text)\<close>: the text between the runs of at least two newlines. \<open>w\<close> is the
  present piece, reversed; \<open>n\<close> counts the newlines that have just been read.
\<close>

fun split_paras :: "string \<Rightarrow> nat \<Rightarrow> string \<Rightarrow> string list" where
  "split_paras w n [] = (if n \<ge> 2 then [rev w, []] else [rev w @ replicate n CHR 0x0A])"
| "split_paras w n (c # s) =
     (if c = CHR 0x0A then split_paras w (Suc n) s
      else if n \<ge> 2 then rev w # split_paras [c] 0 s
      else split_paras (c # replicate n CHR 0x0A @ w) 0 s)"

text \<open>
  \<^verbatim>\<open>re.split(r"(?<=[.!?])\s+", para)\<close>: cut at the blanks that directly follow a full stop, an
  exclamation or a question mark. \<open>stop\<close> says that the last character was one of these.
\<close>

definition stop_char :: "char \<Rightarrow> bool" where
  "stop_char c = (c \<in> set ''.!?'')"

function split_sentences :: "string \<Rightarrow> bool \<Rightarrow> string \<Rightarrow> string list" where
  "split_sentences w stop [] = [rev w]"
| "split_sentences w stop (c # s) =
     (if stop \<and> py_isspace c then rev w # split_sentences [] False (dropWhile py_isspace s)
      else split_sentences (c # w) (stop_char c) s)"
  by pat_completeness auto
termination
  by (relation "measure (\<lambda>(w, stop, s). length s)") (auto simp: le_imp_less_Suc length_dropWhile_le)

text \<open>Packing the words of an overlong sentence: \<open>buf_len\<close> counts a blank after every word.\<close>

fun pack_words :: "string list \<Rightarrow> nat \<Rightarrow> string list \<Rightarrow> string list" where
  "pack_words buf buf_len [] = (if buf \<noteq> [] then [join '' '' buf] else [])"
| "pack_words buf buf_len (w # ws) =
     (if buf_len + length w + 1 > CHUNK_SIZE \<and> buf \<noteq> []
      then join '' '' buf # pack_words [w] (length w + 1) ws
      else pack_words (buf @ [w]) (buf_len + length w + 1) ws)"

definition sentence_units :: "string \<Rightarrow> string list" where
  "sentence_units raw =
     (let sent = strip raw in
      if sent = [] then [] else if length sent \<le> CHUNK_SIZE then [sent] else pack_words [] 0 (split_ws sent))"

definition para_units :: "string \<Rightarrow> string list" where
  "para_units raw =
     (let para = strip raw in
      if para = [] then []
      else if length para \<le> CHUNK_SIZE then [para]
      else concat (map sentence_units (split_sentences [] False para)))"

definition split_semantic :: "string \<Rightarrow> string list" where
  "split_semantic txt_in = concat (map para_units (split_paras [] 0 txt_in))"

section \<open>Chunks\<close>

text \<open>
  The tail of a finished chunk that opens the next one: its last characters, from the first place
  behind a stop or a newline at which something follows
  (\<^verbatim>\<open>re.search(r"(?<=[.!?\n])\s*\S", tail)\<close>), or all of them.
\<close>

fun after_stop :: "string \<Rightarrow> string option" where
  "after_stop [] = None"
| "after_stop (c # s) =
     (if (stop_char c \<or> c = CHR 0x0A) \<and> list_ex (\<lambda>d. \<not> py_isspace d) s then Some s else after_stop s)"

definition overlap_tail :: "nat \<Rightarrow> string \<Rightarrow> string" where
  "overlap_tail overlap chunk =
     (let tail = (if length chunk > overlap then drop (length chunk - overlap) chunk else chunk)
      in strip (case after_stop tail of Some t \<Rightarrow> t | None \<Rightarrow> tail))"

fun merge_units :: "nat \<Rightarrow> nat \<Rightarrow> string list \<Rightarrow> nat \<Rightarrow> string list \<Rightarrow> string list" where
  "merge_units limit overlap buf buf_len [] =
     (if buf \<noteq> [] \<and> strip (join_lines buf) \<noteq> [] then [strip (join_lines buf)] else [])"
| "merge_units limit overlap buf buf_len (u # us) =
     (let sep = (if buf \<noteq> [] then 1 else 0) in
      if buf \<noteq> [] \<and> buf_len + sep + length u > limit
      then (let chunk = join_lines buf; tail = overlap_tail overlap chunk
            in chunk # merge_units limit overlap ((if tail \<noteq> [] then [tail] else []) @ [u]) (length tail + sep + length u) us)
      else merge_units limit overlap (buf @ [u]) (buf_len + sep + length u) us)"

definition merge_with_overlap :: "string list \<Rightarrow> nat \<Rightarrow> nat \<Rightarrow> string list" where
  "merge_with_overlap units limit overlap = merge_units limit overlap [] 0 units"

definition chunk_text :: "string \<Rightarrow> string list" where
  "chunk_text txt_in =
     (if strip txt_in = [] then [] else merge_with_overlap (split_semantic txt_in) CHUNK_SIZE CHUNK_OVERLAP)"


section \<open>Words\<close>

lemma split_acc_space: "py_isspace c \<Longrightarrow> split_acc w (a @ c # b) = split_acc w a @ split_acc [] b"
  by (induction w a rule: split_acc.induct) auto

lemma split_ws_space: "py_isspace c \<Longrightarrow> split_ws (a @ c # b) = split_ws a @ split_ws b"
  by (simp add: split_ws_def split_acc_space)

lemma split_ws_Nil [simp]: "split_ws [] = []"
  by (simp add: split_ws_def)

lemma split_ws_blank: "\<forall>c \<in> set s. py_isspace c \<Longrightarrow> split_ws s = []"
  by (induction s) (auto simp: split_ws_def)

lemma split_ws_blanks:
  assumes "s \<noteq> []" and "\<forall>c \<in> set s. py_isspace c"
  shows "split_ws (a @ s @ b) = split_ws a @ split_ws b"
proof (cases s)
  case (Cons c s')
  have "split_ws (s' @ b) = split_ws b" using assms(2) Cons by (induction s' arbitrary: s c) (auto simp: split_ws_def)
  then show ?thesis using assms(2) Cons by (simp add: split_ws_space)
qed (use assms(1) in simp)

lemma strip_parts: "\<exists>a b. s = a @ strip s @ b \<and> (\<forall>c \<in> set a. py_isspace c) \<and> (\<forall>c \<in> set b. py_isspace c)"
proof (intro exI conjI)
  let ?l = "lstrip s"
  show "s = takeWhile py_isspace s @ strip s @ rev (takeWhile py_isspace (rev ?l))"
    by (metis (no_types) append.assoc append_eq_append_conv2 lstrip_def rev_append rev_rev_ident rstrip_def strip_def takeWhile_dropWhile_id)
qed (auto dest: set_takeWhileD)

lemma split_ws_strip [simp]: "split_ws (strip s) = split_ws s"
proof -
  obtain a b where s: "s = a @ strip s @ b" and blank: "\<forall>c \<in> set a. py_isspace c" "\<forall>c \<in> set b. py_isspace c"
    using strip_parts by blast
  have "split_ws (x @ b) = split_ws x" for x
    using split_ws_blanks [of b x "[]"] blank(2) by (cases "b = []") auto
  moreover have "split_ws (a @ x) = split_ws x" for x
    using split_ws_blanks [of a "[]" x] blank(1) by (cases "a = []") auto
  ultimately show ?thesis by (metis s)
qed

definition word :: "string \<Rightarrow> bool" where
  "word w = (w \<noteq> [] \<and> list_all (\<lambda>c. \<not> py_isspace c) w)"

lemma split_acc_word: "list_all (\<lambda>c. \<not> py_isspace c) w \<Longrightarrow> split_acc v w = (if v = [] \<and> w = [] then [] else [rev v @ w])"
  by (induction w arbitrary: v) auto

lemma split_ws_word: "word w \<Longrightarrow> split_ws w = [w]"
  by (simp add: word_def split_ws_def split_acc_word)

lemma split_acc_words: "list_all (\<lambda>c. \<not> py_isspace c) v \<Longrightarrow> list_all word (split_acc v s)"
  by (induction v s rule: split_acc.induct) (auto simp: word_def list_all_rev)

lemma split_acc_nonempty: "w \<noteq> [] \<Longrightarrow> split_acc w s \<noteq> []"
  by (induction w s rule: split_acc.induct) auto

lemma split_ws_words: "list_all word (split_ws s)"
  by (simp add: split_ws_def split_acc_words)

lemma split_ws_join: "list_all word ws \<Longrightarrow> split_ws (join '' '' ws) = ws"
proof (induction ws)
  case (Cons w ws)
  have "py_isspace CHR '' ''" by (simp add: py_isspace_def code_def)
  then show ?case using Cons split_ws_word [of w] split_ws_space [of "CHR '' ''" w "join '' '' ws"] by (auto simp: join_Cons)
qed simp

section \<open>No word is lost\<close>

lemma newline_space [simp]: "py_isspace CHR 0x0A"
  by (simp add: py_isspace_def code_def)

lemma split_paras_words: "concat (map split_ws (split_paras w n s)) = split_ws (rev w @ replicate n CHR 0x0A @ s)"
proof (induction w n s rule: split_paras.induct)
  case (1 w n)
  have "split_ws (rev w @ replicate n CHR 0x0A) = split_ws (rev w)"
    using split_ws_blanks [of "replicate n CHR 0x0A" "rev w" "[]"] by (cases "n = 0") auto
  then show ?case by simp
next
  case (2 w n c s)
  note IH = 2
  consider "c = CHR 0x0A" | "c \<noteq> CHR 0x0A" "n \<ge> 2" | "c \<noteq> CHR 0x0A" "n < 2" by linarith
  then show ?case
  proof cases
    case 1
    then show ?thesis using IH by (simp add: replicate_app_Cons_same)
  next
    case 2
    then have "split_ws (rev w @ replicate n CHR 0x0A @ c # s) = split_ws (rev w) @ split_ws (c # s)"
      by (intro split_ws_blanks) auto
    then show ?thesis using IH 2 by simp
  qed (use IH in simp)
qed

lemma split_sentences_words: "concat (map split_ws (split_sentences w stop s)) = split_ws (rev w @ s)"
proof (induction w stop s rule: split_sentences.induct)
  case (2 w stop c s)
  show ?case
  proof (cases "stop \<and> py_isspace c")
    case True
    have "split_ws (rev w @ c # s) = split_ws (rev w @ (c # takeWhile py_isspace s) @ dropWhile py_isspace s)" by simp
    also have "\<dots> = split_ws (rev w) @ split_ws (dropWhile py_isspace s)"
      by (rule split_ws_blanks) (use True in \<open>auto dest: set_takeWhileD\<close>)
    finally show ?thesis using 2 True by simp
  qed (use 2 in auto)
qed simp

lemma pack_words_words:
  "list_all word buf \<Longrightarrow> list_all word ws \<Longrightarrow> concat (map split_ws (pack_words buf n ws)) = buf @ ws"
  by (induction buf n ws rule: pack_words.induct) (auto simp: split_ws_join)

lemma sentence_units_words: "concat (map split_ws (sentence_units s)) = split_ws s"
proof (cases "strip s = []")
  case True
  then have "split_ws s = []" by (metis split_ws_Nil split_ws_strip)
  with True show ?thesis by (simp add: sentence_units_def)
next
  case False
  have "concat (map split_ws (pack_words [] 0 (split_ws (strip s)))) = split_ws s"
    by (subst pack_words_words) (simp_all add: split_ws_words)
  with False show ?thesis by (simp add: sentence_units_def Let_def)
qed

lemma concat_map_units:
  assumes "\<And>x. concat (map split_ws (f x)) = split_ws x"
  shows "concat (map split_ws (concat (map f xs))) = concat (map split_ws xs)"
  by (induction xs) (simp_all add: assms)

lemma para_units_words: "concat (map split_ws (para_units s)) = split_ws s"
proof (cases "strip s = []")
  case True
  then have "split_ws s = []" by (metis split_ws_Nil split_ws_strip)
  with True show ?thesis by (simp add: para_units_def)
next
  case False
  have "concat (map split_ws (concat (map sentence_units (split_sentences [] False (strip s))))) =
      concat (map split_ws (split_sentences [] False (strip s)))"
    by (rule concat_map_units [OF sentence_units_words])
  also have "\<dots> = split_ws s" by (simp add: split_sentences_words)
  finally show ?thesis using False by (simp add: para_units_def Let_def)
qed

lemma split_semantic_words: "concat (map split_ws (split_semantic s)) = split_ws s"
  unfolding split_semantic_def concat_map_units [of para_units, OF para_units_words] by (simp add: split_paras_words)


section \<open>Units are tidy and short\<close>

text \<open>A tidy text is not empty and has no blanks around it.\<close>

definition tidy :: "string \<Rightarrow> bool" where
  "tidy u = (u \<noteq> [] \<and> \<not> py_isspace (hd u) \<and> \<not> py_isspace (last u))"

lemma strip_tidy:
  assumes "tidy u"
  shows "strip u = u"
proof -
  have "lstrip u = u" using assms by (cases u) (auto simp: tidy_def lstrip_def)
  have "rev (butlast u @ [last u]) = last u # rev (butlast u)" by simp
  then have "rev u = last u # rev (butlast u)" using assms by (simp add: tidy_def)
  then have "rstrip u = u" using assms by (metis dropWhile.simps(2) rev_rev_ident rstrip_def tidy_def)
  with \<open>lstrip u = u\<close> show ?thesis by (simp add: strip_def)
qed

lemma tidy_strip:
  assumes "strip s \<noteq> []"
  shows "tidy (strip s)"
proof -
  define t where "t = lstrip s"
  define v where "v = rev (takeWhile py_isspace (rev t))"
  have d: "dropWhile py_isspace (rev t) \<noteq> []" using assms by (simp add: strip_def rstrip_def t_def)
  have st: "strip s = rev (dropWhile py_isspace (rev t))" by (simp add: strip_def rstrip_def t_def)
  have "rev (takeWhile py_isspace (rev t) @ dropWhile py_isspace (rev t)) = t" by simp
  then have tuv: "t = strip s @ v" by (simp only: rev_append st v_def)
  then have "t \<noteq> []" using assms by simp
  then have "\<not> py_isspace (hd t)" unfolding t_def lstrip_def by (rule hd_dropWhile)
  moreover have "hd t = hd (strip s)" using tuv assms by (metis hd_append2)
  moreover have "\<not> py_isspace (last (strip s))" using hd_dropWhile [OF d] d by (simp add: st last_rev)
  ultimately show ?thesis using assms by (simp add: tidy_def)
qed

lemma tidy_join: "us \<noteq> [] \<Longrightarrow> list_all tidy us \<Longrightarrow> tidy (join sep us)"
  by (induction us rule: list_nonempty_induct) (auto simp: tidy_def join_Cons)

lemma tidy_word: "word w \<Longrightarrow> tidy w"
  by (auto simp: word_def tidy_def list_all_iff)

lemma pack_words_tidy: "list_all word buf \<Longrightarrow> list_all word ws \<Longrightarrow> list_all tidy (pack_words buf n ws)"
  by (induction buf n ws rule: pack_words.induct) (auto intro!: tidy_join simp: list_all_iff tidy_word)

lemma sentence_units_tidy: "list_all tidy (sentence_units s)"
  by (auto simp: sentence_units_def Let_def tidy_strip intro!: pack_words_tidy split_ws_words)

lemma split_semantic_tidy: "list_all tidy (split_semantic s)"
proof -
  have "list_all tidy (para_units p)" for p
    using sentence_units_tidy by (auto simp: para_units_def Let_def tidy_strip list_all_iff)
  then show ?thesis by (auto simp: split_semantic_def list_all_iff)
qed

lemma length_join: "ws \<noteq> [] \<Longrightarrow> Suc (length (join '' '' ws)) = sum_list (map (\<lambda>w. Suc (length w)) ws)"
  by (induction ws rule: list_nonempty_induct) (auto simp: join_Cons)

lemma pack_words_short:
  assumes "n = sum_list (map (\<lambda>w. Suc (length w)) buf)" and "n \<le> CHUNK_SIZE \<or> length buf \<le> 1"
  shows "u \<in> set (pack_words buf n ws) \<Longrightarrow> length u \<le> CHUNK_SIZE \<or> u \<in> set (buf @ ws)"
  using assms
proof (induction buf n ws rule: pack_words.induct)
  case (1 buf n)
  then show ?case using length_join [of buf] by (cases buf) (auto simp: le_Suc_eq split: if_splits)
next
  case (2 buf n w ws)
  show ?case
  proof (cases "n + length w + 1 > CHUNK_SIZE \<and> buf \<noteq> []")
    case True
    then consider "u = join '' '' buf" | "u \<in> set (pack_words [w] (length w + 1) ws)" using "2.prems"(1) by auto
    then show ?thesis
    proof cases
      case 1
      then show ?thesis using True "2.prems"(2,3) length_join [of buf] by (cases buf) (auto simp: le_Suc_eq)
    next
      case 2
      then show ?thesis using "2.IH"(1) True by auto
    qed
  next
    case False
    then have "n + length w + 1 \<le> CHUNK_SIZE \<or> length (buf @ [w]) \<le> 1" by auto
    then show ?thesis using "2.IH"(2) "2.prems" False by auto
  qed
qed

lemma split_ws_part: "w \<in> set (split_ws u) \<Longrightarrow> u \<in> set us \<Longrightarrow> w \<in> set (concat (map split_ws us))"
  by auto

lemma sentence_units_short: "u \<in> set (sentence_units s) \<Longrightarrow> length u \<le> CHUNK_SIZE \<or> u \<in> set (split_ws s)"
  using pack_words_short [of 0 "[]" u "split_ws (strip s)"] by (auto simp: sentence_units_def Let_def split: if_splits)

lemma split_semantic_short: "u \<in> set (split_semantic s) \<Longrightarrow> length u \<le> CHUNK_SIZE \<or> u \<in> set (split_ws s)"
proof -
  assume "u \<in> set (split_semantic s)"
  then obtain p where p: "p \<in> set (split_paras [] 0 s)" "u \<in> set (para_units p)" by (auto simp: split_semantic_def)
  have "length u \<le> CHUNK_SIZE \<or> u \<in> set (split_ws p)"
  proof (cases "length (strip p) \<le> CHUNK_SIZE")
    case True
    then show ?thesis using p(2) by (auto simp: para_units_def Let_def split: if_splits)
  next
    case False
    then obtain q where q: "q \<in> set (split_sentences [] False (strip p))" "u \<in> set (sentence_units q)"
      using p(2) by (auto simp: para_units_def Let_def split: if_splits)
    then show ?thesis
      using sentence_units_short [OF q(2)] split_ws_part [OF _ q(1), of u] split_sentences_words [of "[]" False "strip p"] by auto
  qed
  then show ?thesis using split_ws_part [OF _ p(1), of u] split_paras_words [of "[]" 0 s] by auto
qed


section \<open>What the chunks are\<close>

text \<open>
  The chunks of a grouping of the units: each is its group, one unit per line, behind the tail of
  the chunk before it.
\<close>

definition carried :: "nat \<Rightarrow> string \<Rightarrow> string list" where
  "carried overlap chunk = (if overlap_tail overlap chunk \<noteq> [] then [overlap_tail overlap chunk] else [])"

fun assemble :: "nat \<Rightarrow> string list \<Rightarrow> string list list \<Rightarrow> string list" where
  "assemble overlap pre [] = []"
| "assemble overlap pre (g # gs) = join_lines (pre @ g) # assemble overlap (carried overlap (join_lines (pre @ g))) gs"

lemma carried_tidy: "list_all tidy (carried overlap chunk)"
  by (auto simp: carried_def overlap_tail_def Let_def intro!: tidy_strip)

lemma merge_units_assemble:
  assumes "list_all tidy (pre @ g @ us)" and "g \<noteq> [] \<or> pre = []"
  shows "\<exists>gs. merge_units limit overlap (pre @ g) n us = assemble overlap pre gs \<and> concat gs = g @ us \<and> [] \<notin> set gs"
  using assms
proof (induction us arbitrary: pre g n)
  case Nil
  show ?case
  proof (cases "g = []")
    case True
    then show ?thesis using Nil by (auto intro!: exI [of _ "[]"])
  next
    case False
    then have "tidy (join_lines (pre @ g))" using Nil.prems unfolding join_lines_def by (intro tidy_join) auto
    then have "strip (join_lines (pre @ g)) = join_lines (pre @ g)" "join_lines (pre @ g) \<noteq> []"
      by (auto simp: strip_tidy tidy_def)
    then show ?thesis using False by (auto intro!: exI [of _ "[g]"])
  qed
next
  case (Cons u us)
  show ?case
  proof (cases "pre @ g \<noteq> [] \<and> n + 1 + length u > limit")
    case True
    let ?c = "join_lines (pre @ g)"
    have "list_all tidy (carried overlap ?c @ [u] @ us)" using Cons.prems carried_tidy by simp
    then have "\<exists>gs. merge_units limit overlap (carried overlap ?c @ [u]) (length (overlap_tail overlap ?c) + 1 + length u) us =
        assemble overlap (carried overlap ?c) gs \<and> concat gs = [u] @ us \<and> [] \<notin> set gs"
      by (rule Cons.IH) simp
    then obtain gs where "merge_units limit overlap (carried overlap ?c @ [u]) (length (overlap_tail overlap ?c) + 1 + length u) us =
        assemble overlap (carried overlap ?c) gs" "concat gs = [u] @ us" "[] \<notin> set gs" by blast
    moreover have "g \<noteq> []" using True Cons.prems(2) by (cases g) simp_all
    moreover have "merge_units limit overlap (pre @ g) n (u # us) =
        ?c # merge_units limit overlap (carried overlap ?c @ [u]) (length (overlap_tail overlap ?c) + 1 + length u) us"
      using True by (simp add: carried_def Let_def)
    ultimately show ?thesis by (intro exI [of _ "g # gs"]) simp
  next
    case False
    have "list_all tidy (pre @ (g @ [u]) @ us)" using Cons.prems by simp
    then have "\<exists>gs. merge_units limit overlap (pre @ g @ [u]) (n + (if pre @ g \<noteq> [] then 1 else 0) + length u) us = assemble overlap pre gs
        \<and> concat gs = (g @ [u]) @ us \<and> [] \<notin> set gs"
      by (rule Cons.IH) simp
    then obtain gs where
      "merge_units limit overlap (pre @ g @ [u]) (n + (if pre @ g \<noteq> [] then 1 else 0) + length u) us = assemble overlap pre gs"
      "concat gs = (g @ [u]) @ us" "[] \<notin> set gs" by blast
    moreover have "merge_units limit overlap (pre @ g) n (u # us) =
        merge_units limit overlap (pre @ g @ [u]) (n + (if pre @ g \<noteq> [] then 1 else 0) + length u) us"
      using False by (auto simp: Let_def)
    ultimately show ?thesis by auto
  qed
qed

lemma chunks_grouped:
  "\<exists>gs. chunk_text s = assemble CHUNK_OVERLAP [] gs \<and> [] \<notin> set gs \<and> concat (map split_ws (concat gs)) = split_ws s"
proof (cases "strip s = []")
  case True
  then have "split_ws s = []" by (metis split_ws_Nil split_ws_strip)
  with True show ?thesis by (intro exI [of _ "[]"]) (simp add: chunk_text_def)
next
  case False
  obtain gs where "merge_units CHUNK_SIZE CHUNK_OVERLAP [] 0 (split_semantic s) = assemble CHUNK_OVERLAP [] gs"
    "concat gs = split_semantic s" "[] \<notin> set gs"
    using merge_units_assemble [of "[]" "[]" "split_semantic s" CHUNK_SIZE CHUNK_OVERLAP 0] split_semantic_tidy by auto
  then show ?thesis using False split_semantic_words [of s]
    by (intro exI [of _ gs]) (simp add: chunk_text_def merge_with_overlap_def)
qed

text \<open>
  C10. Nothing of a text is lost in chunking, and nothing is made up: the chunks are the assembly of a
  grouping of units, without empty groups, each chunk opening with the tail of the one before it;
  and the words of the units, in order, are exactly the words of the text.
\<close>

theorem no_word_lost:
  "\<exists>gs. chunk_text s = assemble CHUNK_OVERLAP [] gs \<and> [] \<notin> set gs \<and> concat (map split_ws (concat gs)) = split_ws s"
  by (rule chunks_grouped)

section \<open>How long the chunks are\<close>

lemma after_stop_shorter: "after_stop s = Some t \<Longrightarrow> length t \<le> length s"
  by (induction s) (auto split: if_splits)

lemma overlap_tail_short: "length (overlap_tail overlap c) \<le> overlap"
proof -
  define t where "t = (if length c > overlap then drop (length c - overlap) c else c)"
  have "length t \<le> overlap" by (simp add: t_def)
  moreover have "length (case after_stop t of Some x \<Rightarrow> x | None \<Rightarrow> t) \<le> length t"
    by (auto dest: after_stop_shorter split: option.split)
  ultimately show ?thesis
    unfolding overlap_tail_def Let_def t_def [symmetric]
    using length_strip_le [of "case after_stop t of Some x \<Rightarrow> x | None \<Rightarrow> t"] by linarith
qed

lemma length_join_lines: "length (join_lines (xs @ [y])) = (if xs = [] then length y else length (join_lines xs) + 1 + length y)"
proof (induction xs)
  case (Cons x xs)
  then show ?case by (cases xs) (auto simp: join_lines_def join_Cons)
qed (simp add: join_lines_def)

lemma merge_units_short:
  assumes "list_all (\<lambda>u. length u \<le> limit) us" and "length (join_lines buf) \<le> n" and "n \<le> limit + overlap + 1"
    and "buf = [] \<longrightarrow> n = 0"
  shows "list_all (\<lambda>c. length c \<le> limit + overlap + 1) (merge_units limit overlap buf n us)"
  using assms
proof (induction us arbitrary: buf n)
  case Nil
  then show ?case using length_strip_le [of "join_lines buf"] by auto
next
  case (Cons u us)
  let ?t = "overlap_tail overlap (join_lines buf)"
  have t: "length ?t \<le> overlap" by (rule overlap_tail_short)
  have flushed: "length (join_lines ((if ?t \<noteq> [] then [?t] else []) @ [u])) \<le> length ?t + 1 + length u"
    by (simp add: length_join_lines) (simp add: join_lines_def)
  have grown: "length (join_lines (buf @ [u])) \<le> n + (if buf \<noteq> [] then 1 else 0) + length u"
    using Cons.prems(2) by (simp add: length_join_lines)
  show ?case
  proof (cases "buf \<noteq> [] \<and> n + 1 + length u > limit")
    case True
    then show ?thesis using Cons.prems Cons.IH [OF _ flushed] t by (simp add: Let_def)
  next
    case False
    then have "n + (if buf \<noteq> [] then 1 else 0) + length u \<le> limit + overlap + 1" using Cons.prems by auto
    then have "list_all (\<lambda>c. length c \<le> limit + overlap + 1)
        (merge_units limit overlap (buf @ [u]) (n + (if buf \<noteq> [] then 1 else 0) + length u) us)"
      using Cons.prems grown by (intro Cons.IH) auto
    then show ?thesis using False by (auto simp: Let_def)
  qed
qed


text \<open>
  How long a chunk can be: if no word of the text is longer than the chunk size, every chunk has
  at most the chunk size plus the overlap plus one characters - the tail of the previous chunk is
  not counted against the size. (Without that bound on words there is none: an overlong word is a
  unit of its own.)
\<close>

theorem chunk_length_bounded:
  assumes "list_all (\<lambda>w. length w \<le> CHUNK_SIZE) (split_ws s)"
  shows "list_all (\<lambda>c. length c \<le> CHUNK_SIZE + CHUNK_OVERLAP + 1) (chunk_text s)"
proof -
  have "list_all (\<lambda>u. length u \<le> CHUNK_SIZE) (split_semantic s)"
    using split_semantic_short [of _ s] assms by (auto simp: list_all_iff)
  then have "list_all (\<lambda>c. length c \<le> CHUNK_SIZE + CHUNK_OVERLAP + 1) (merge_units CHUNK_SIZE CHUNK_OVERLAP [] 0 (split_semantic s))"
    by (rule merge_units_short) (simp_all add: join_lines_def)
  then show ?thesis by (simp add: chunk_text_def merge_with_overlap_def)
qed

theorem chunk_length_bounded_witness:
  "list_all (\<lambda>w. length w \<le> CHUNK_SIZE) (split_ws ''One two. Three'')
   \<and> list_all (\<lambda>c. length c \<le> CHUNK_SIZE + CHUNK_OVERLAP + 1) (chunk_text ''One two. Three'')"
proof -
  have "list_all (\<lambda>w. length w \<le> CHUNK_SIZE) (split_ws ''One two. Three'')"
    by (simp add: split_ws_def py_isspace_def code_def CHUNK_SIZE_def)
  then show ?thesis using chunk_length_bounded by blast
qed

end
