(* ===== verification/File_Ingest.thy ===== *)
theory File_Ingest
  imports File_Chunks
begin

text \<open>
  The files of a user: what is read out of them and how that is processed
  (\<^verbatim>\<open>backend/services/processor.py\<close>, \<^verbatim>\<open>process_file_job\<close> of \<^verbatim>\<open>backend/services/arq_worker.py\<close>), how
  they are changed and versioned (\<^verbatim>\<open>backend/services/file_service.py\<close>), the tools and endpoints on
  them (\<^verbatim>\<open>backend/llm/tools/file_ops.py\<close>, \<^verbatim>\<open>backend/api/files/\<close>) and where they are stored
  (\<^verbatim>\<open>backend/storage/storage_manager.py\<close>). The state is the tables of files, chunks and versions, the
  files on disk and the jobs that are waiting. What the document libraries and the character
  recognition read is a parameter, as are new identifiers, the hash and the failures of the disk and
  of a commit. The text of a file stands for its UTF-8 encoding. What a failed operation leaves
  pending in its session counts as rolled back.
\<close>

section \<open>Reading documents\<close>

text \<open>Text mode turns both other line ends into a newline; \<open>cr\<close> says that one has just been turned.\<close>

fun newlines_from :: "bool \<Rightarrow> string \<Rightarrow> string" where
  "newlines_from cr [] = []"
| "newlines_from cr (c # s) =
     (if c = CHR 0x0D then CHR 0x0A # newlines_from True s
      else if c = CHR 0x0A \<and> cr then newlines_from False s
      else c # newlines_from False s)"

definition universal_newlines :: "string \<Rightarrow> string" where
  "universal_newlines s = newlines_from False s"

text \<open>
  The libraries: \<open>None\<close> when one is not installed, \<open>Inl\<close> when it raises. Pages of a PDF with the
  text of each, if any; its rendered pages; paragraphs and tables of a Word document, a cell with
  the identity of its element; sheets of a workbook; the lines recognised on each page of an image.
\<close>

record readers =
  rd_pdf :: "string \<Rightarrow> string option list result option"
  rd_pdf_images :: "string \<Rightarrow> string list result option"
  rd_docx :: "string \<Rightarrow> (string list \<times> (nat \<times> string) list list list) result option"
  rd_excel :: "string \<Rightarrow> (string \<times> string option list list) list result option"
  rd_ocr_file :: "string \<Rightarrow> string list list result option"
  rd_ocr_bytes :: "string \<Rightarrow> string list list result option"

definition or_blank :: "string result option \<Rightarrow> string" where
  "or_blank r = (case r of Some (Inr t) \<Rightarrow> t | _ \<Rightarrow> [])"

definition ocr_lines :: "string list list \<Rightarrow> string" where
  "ocr_lines pages = join newline (map strip (filter (\<lambda>t. strip t \<noteq> []) (concat pages)))"

definition extract_image :: "readers \<Rightarrow> string \<Rightarrow> string" where
  "extract_image rd path = or_blank (map_option (map_sum id ocr_lines) (rd_ocr_file rd path))"

definition extract_image_from_bytes :: "readers \<Rightarrow> string \<Rightarrow> string" where
  "extract_image_from_bytes rd data = or_blank (map_option (map_sum id ocr_lines) (rd_ocr_bytes rd data))"

definition PDF_OCR_MAX_PAGES :: nat where
  "PDF_OCR_MAX_PAGES = 20"

definition extract_pdf :: "bool \<Rightarrow> readers \<Rightarrow> string \<Rightarrow> string" where
  "extract_pdf ocr_enabled rd path =
     (let read = or_blank (map_option (map_sum id (\<lambda>pages. join newline (map (\<lambda>p. case p of Some t \<Rightarrow> t | None \<Rightarrow> []) pages)))
                    (rd_pdf rd path))
      in if strip read \<noteq> [] \<or> \<not> ocr_enabled then read
         else or_blank (map_option (map_sum id (\<lambda>imgs.
                join (newline @ newline)
                  (filter (\<lambda>t. strip t \<noteq> []) (map (extract_image_from_bytes rd) (take PDF_OCR_MAX_PAGES imgs)))))
                (rd_pdf_images rd path)))"

text \<open>Merged cells of a row show up several times with one identity.\<close>

fun first_cells :: "nat list \<Rightarrow> (nat \<times> string) list \<Rightarrow> string list" where
  "first_cells seen [] = []"
| "first_cells seen ((i, t) # cs) =
     (if i \<in> set seen then first_cells seen cs
      else strip (map (\<lambda>c. if c = CHR 0x0A then CHR '' '' else c) t) # first_cells (i # seen) cs)"

definition bar_row :: "string list \<Rightarrow> string" where
  "bar_row cells = join '' | '' cells"

definition head_rule :: "nat \<Rightarrow> string list \<Rightarrow> string list" where
  "head_rule i cells = (if i = 0 then [bar_row (replicate (length cells) ''---'')] else [])"

definition table_rows :: "(nat \<times> string) list list \<Rightarrow> string list" where
  "table_rows rows =
     concat (map (\<lambda>(i, row). let cells = first_cells [] row in if cells \<noteq> [] then bar_row cells # head_rule i cells else [])
       (enumerate 0 rows))"

definition extract_docx :: "readers \<Rightarrow> string \<Rightarrow> string" where
  "extract_docx rd path =
     or_blank (map_option (map_sum id (\<lambda>(paras, tabs).
       join (newline @ newline)
         (filter (\<lambda>p. strip p \<noteq> []) paras @ map (join newline) (filter (\<lambda>r. r \<noteq> []) (map table_rows tabs)))))
       (rd_docx rd path))"

definition sheet_rows :: "string option list list \<Rightarrow> string list" where
  "sheet_rows rows =
     concat (map (\<lambda>(i, row).
       let cells = map (\<lambda>c. case c of Some t \<Rightarrow> t | None \<Rightarrow> []) row
       in if list_ex (\<lambda>t. strip t \<noteq> []) cells then bar_row cells # head_rule i cells else [])
       (enumerate 0 rows))"

definition extract_excel :: "readers \<Rightarrow> string \<Rightarrow> string" where
  "extract_excel rd path =
     or_blank (map_option (map_sum id (\<lambda>sheets.
       join (newline @ newline)
         (concat (map (\<lambda>(title, rows).
            if sheet_rows rows \<noteq> [] then [''## Sheet: '' @ title @ newline @ newline @ join newline (sheet_rows rows)] else []) sheets))))
       (rd_excel rd path))"

definition path_suffix :: "string \<Rightarrow> string" where
  "path_suffix path =
     (let name = rev (takeWhile (\<lambda>c. c \<noteq> CHR ''/'') (rev path));
          ext = rev (takeWhile (\<lambda>c. c \<noteq> CHR ''.'') (rev name))
      in if CHR ''.'' \<in> set name \<and> ext \<noteq> [] \<and> Suc (length ext) < length name then CHR ''.'' # ext else [])"

definition extract_text :: "bool \<Rightarrow> readers \<Rightarrow> (string \<times> string) list \<Rightarrow> string \<Rightarrow> string \<Rightarrow> string" where
  "extract_text ocr_enabled rd disk path mime =
     (let mt = lower mime; suffix = lower (path_suffix path) in
      if startswith mt ''image/'' then (if ocr_enabled then extract_image rd path else [])
      else if mt = ''application/pdf'' \<or> suffix = ''.pdf'' then extract_pdf ocr_enabled rd path
      else if mt \<in> {''application/vnd.openxmlformats-officedocument.wordprocessingml.document'', ''application/msword''}
           \<or> suffix \<in> {''.docx'', ''.doc''} then extract_docx rd path
      else if mt \<in> {''application/vnd.openxmlformats-officedocument.spreadsheetml.sheet'', ''application/vnd.ms-excel''}
           \<or> suffix \<in> {''.xlsx'', ''.xls''} then extract_excel rd path
      else (case dget disk path of Some t \<Rightarrow> universal_newlines t | None \<Rightarrow> []))"

section \<open>Tables\<close>

record stored_file =
  sf_id :: string
  sf_user :: int
  sf_name :: string
  sf_mime :: string
  sf_size :: int
  sf_path :: string
  sf_status :: string
  sf_media :: string
  sf_ocr :: "string option"
  sf_sha256 :: "string option"
  sf_total :: "nat option"
  sf_embedded :: "nat option"
  sf_failed :: nat

record stored_chunk =
  ck_file :: string
  ck_index :: nat
  ck_content :: string
  ck_tokens :: nat
  ck_embedding :: "real list"

record file_version =
  fv_id :: string
  fv_file :: string
  fv_version :: nat
  fv_content :: string

record file_state =
  fs_files :: "stored_file list"
  fs_chunks :: "stored_chunk list"
  fs_versions :: "file_version list"
  fs_links :: "(string \<times> string) list"
  \<comment> \<open>conversations and the files attached to them\<close>
  fs_disk :: "(string \<times> string) list"
  fs_jobs :: "(string \<times> string \<times> string) list"
  \<comment> \<open>file, path and type of the processing jobs that are waiting\<close>

definition db_file :: "file_state \<Rightarrow> string \<Rightarrow> stored_file option" where
  "db_file s i = List.find (\<lambda>f. sf_id f = i) (fs_files s)"

definition update_file :: "string \<Rightarrow> (stored_file \<Rightarrow> stored_file) \<Rightarrow> file_state \<Rightarrow> file_state" where
  "update_file i g s = s\<lparr>fs_files := map (\<lambda>f. if sf_id f = i then g f else f) (fs_files s)\<rparr>"

section \<open>Processing\<close>

text \<open>
  The surroundings of a processing run: the libraries, the embedding client with the replies to the
  request for each chunk, and whether the last commit works.
\<close>

record process_env =
  px_ocr :: bool
  px_readers :: readers
  px_client :: bool
  px_net :: "nat \<Rightarrow> string \<Rightarrow> nat \<Rightarrow> embed_reply"
  px_commit :: "unit result"

definition embeddings_of :: "process_env \<Rightarrow> string list \<Rightarrow> (nat \<times> string \<times> real list option) list" where
  "embeddings_of px chunks = map (\<lambda>(i, c). (i, c, embed (px_client px) (px_net px i) c)) (enumerate 0 chunks)"

definition new_chunks :: "string \<Rightarrow> (nat \<times> string \<times> real list option) list \<Rightarrow> stored_chunk list" where
  "new_chunks fid es =
     concat (map (\<lambda>(i, c, e). case e of
         Some (x # v) \<Rightarrow> [\<lparr>ck_file = fid, ck_index = i, ck_content = c, ck_tokens = length (split_ws c), ck_embedding = x # v\<rparr>]
       | _ \<Rightarrow> []) es)"

definition processed_status :: "nat \<Rightarrow> nat \<Rightarrow> string" where
  "processed_status saved total_chunks =
     (if saved = 0 then ''failed'' else if saved < total_chunks then ''partial'' else ''ready'')"

definition process :: "process_env \<Rightarrow> string \<Rightarrow> string \<Rightarrow> string \<Rightarrow> file_state \<Rightarrow> unit result \<times> file_state" where
  "process px fid path mime s =
     (if db_file s fid = None then (Inr (), s)
      else
        let s1 = update_file fid (\<lambda>f. f\<lparr>sf_status := ''processing''\<rparr>) s;
            is_image = startswith (lower mime) ''image/'';
            content = extract_text (px_ocr px) (px_readers px) (fs_disk s1) path mime;
            noted = (\<lambda>f. if is_image then f\<lparr>sf_media := ''image'', sf_ocr := Some (take 10000 content)\<rparr> else f)
        in if strip content = [] then
             (if is_image
              then (Inr (), update_file fid (\<lambda>f. (noted f)\<lparr>sf_status := ''ready'', sf_total := Some 0, sf_embedded := Some 0\<rparr>) s1)
              else (Inr (), update_file fid (\<lambda>f. (noted f)\<lparr>sf_status := ''error''\<rparr>) s1))
           else
             let chunks = chunk_text content;
                 rows = new_chunks fid (embeddings_of px chunks);
                 saved = length rows
             in case px_commit px of
                  Inl e \<Rightarrow> (Inl e, s1)
                | Inr _ \<Rightarrow>
                    (Inr (), update_file fid (\<lambda>f. (noted f)\<lparr>sf_total := Some (length chunks), sf_embedded := Some saved,
                                 sf_failed := length chunks - saved, sf_status := processed_status saved (length chunks)\<rparr>)
                               (s1\<lparr>fs_chunks := fs_chunks s1 @ rows\<rparr>)))"

text \<open>The inline run when there is no job queue, and the job: three retries, then the error is recorded.\<close>

definition run_inline :: "process_env \<Rightarrow> string \<Rightarrow> string \<Rightarrow> string \<Rightarrow> file_state \<Rightarrow> file_state" where
  "run_inline px fid path mime s =
     (case process px fid path mime s of
        (Inr _, s1) \<Rightarrow> s1
      | (Inl _, s1) \<Rightarrow> update_file fid (\<lambda>f. f\<lparr>sf_status := ''error''\<rparr>) s1)"

definition process_file_async :: "bool \<Rightarrow> process_env \<Rightarrow> string \<Rightarrow> string \<Rightarrow> string \<Rightarrow> file_state \<Rightarrow> file_state" where
  "process_file_async pool px fid path mime s =
     (if pool then s\<lparr>fs_jobs := fs_jobs s @ [(fid, path, mime)]\<rparr> else run_inline px fid path mime s)"

definition RETRY_DELAYS :: "int list" where
  "RETRY_DELAYS = [5, 30, 120]"

datatype job_end = JobDone | JobRetry int

definition process_file_job :: "nat \<Rightarrow> process_env \<Rightarrow> string \<Rightarrow> string \<Rightarrow> string \<Rightarrow> file_state \<Rightarrow> job_end \<times> file_state" where
  "process_file_job attempt px fid path mime s =
     (case process px fid path mime s of
        (Inr _, s1) \<Rightarrow> (JobDone, s1)
      | (Inl _, s1) \<Rightarrow>
          if attempt \<le> length RETRY_DELAYS then (JobRetry (RETRY_DELAYS ! (attempt - 1)), s1)
          else (JobDone, update_file fid (\<lambda>f. f\<lparr>sf_status := ''error''\<rparr>) s1))"

end
