(* ===== verification/File_Service.thy ===== *)
theory File_Service
  imports File_Ingest
begin

text \<open>
  Changing files: the shared mutations of \<^verbatim>\<open>backend/services/file_service.py\<close>, the tools of
  \<^verbatim>\<open>backend/llm/tools/file_ops.py\<close>, the endpoints of \<^verbatim>\<open>backend/api/files/router.py\<close> and
  \<^verbatim>\<open>versions.py\<close>, and the storage of \<^verbatim>\<open>backend/storage/storage_manager.py\<close>. The processing that a
  change schedules is a job of \<open>fs_jobs\<close>, whether it runs in the queue or as a task of the process.
\<close>

section \<open>Texts of the replies\<close>

definition pad3 :: "nat \<Rightarrow> string" where
  "pad3 n = replicate (3 - length (nat_str n)) CHR ''0'' @ nat_str n"

text \<open>\<^verbatim>\<open>f"{n:,}"\<close>.\<close>

fun commas :: "nat \<Rightarrow> string" where
  "commas n = (if n < 1000 then nat_str n else commas (n div 1000) @ '','' @ pad3 (n mod 1000))"

declare commas.simps [simp del]

definition no_access :: string where
  "no_access = ''Error: file not found or access denied.''"

section \<open>Mutations\<close>

text \<open>
  The surroundings of an operation: a new identifier, whether the disk can be written, how much of the text a failing write has
  left in the file (nothing is said when the file could not even be opened), whether the session that has the failed write is committed
  later by its owner, whether the commit works, and the text of an exception.
\<close>

record op_env =
  ox_new_id :: string
  ox_write :: "unit result"
  ox_left :: "nat option"
  ox_goes_on :: bool
  ox_commit :: "unit result"
  ox_exc_text :: "pyexc \<Rightarrow> string"

definition sync_read :: "(string \<times> string) list \<Rightarrow> string \<Rightarrow> string result" where
  "sync_read disk path = (case dget disk path of Some t \<Rightarrow> Inr (universal_newlines t) | None \<Rightarrow> Inl OtherError)"

definition sync_append :: "(string \<times> string) list \<Rightarrow> string \<Rightarrow> string \<Rightarrow> (string \<times> string) list" where
  "sync_append disk path content = dset disk path ((case dget disk path of Some t \<Rightarrow> t | None \<Rightarrow> []) @ content)"

text \<open>A snapshot that cannot be read is skipped.\<close>

definition save_version :: "string \<Rightarrow> string \<Rightarrow> file_state \<Rightarrow> file_state" where
  "save_version new_id fid s =
     (case db_file s fid of
        None \<Rightarrow> s
      | Some f \<Rightarrow>
          (let n = Suc (length (filter (\<lambda>v. fv_file v = fid) (fs_versions s))) in
           case sync_read (fs_disk s) (sf_path f) of
             Inl _ \<Rightarrow> s
           | Inr content \<Rightarrow>
               s\<lparr>fs_versions := fs_versions s @ [\<lparr>fv_id = new_id, fv_file = fid, fv_version = n, fv_content = content\<rparr>]\<rparr>))"

text \<open>What follows every change of the content: the chunks go, the row is reset, a job is scheduled.\<close>

definition reset_row :: "stored_file \<Rightarrow> stored_file" where
  "reset_row f = f\<lparr>sf_status := ''uploaded'', sf_total := None, sf_embedded := None, sf_failed := 0\<rparr>"

definition invalidate :: "stored_file \<Rightarrow> file_state \<Rightarrow> file_state" where
  "invalidate f s =
     (update_file (sf_id f) reset_row (s\<lparr>fs_chunks := filter (\<lambda>c. ck_file c \<noteq> sf_id f) (fs_chunks s)\<rparr>))
       \<lparr>fs_jobs := fs_jobs s @ [(sf_id f, sf_path f, sf_mime f)]\<rparr>"

text \<open>
  A change of the disk that may fail, then the commit that may fail. A write that fails after the file was opened leaves the
  beginning of the text; the snapshot is then pending in the session, and is there when the session goes on and lost when it is closed.
  After a failed commit the tables are those of \<open>s\<close>, with the new disk.
\<close>

definition change_disk :: "op_env \<Rightarrow> stored_file \<Rightarrow> (string \<Rightarrow> (string \<times> string) list) \<Rightarrow> string \<Rightarrow> file_state \<Rightarrow> file_state \<Rightarrow> unit result \<times> file_state" where
  "change_disk ox f put content s1 s =
     (case ox_write ox of
        Inl e \<Rightarrow>
          (let s' = (if ox_goes_on ox then s1 else s) in
           (Inl e, case ox_left ox of None \<Rightarrow> s' | Some n \<Rightarrow> s'\<lparr>fs_disk := put (take n content)\<rparr>))
      | Inr _ \<Rightarrow>
          (case ox_commit ox of
             Inl e \<Rightarrow> (Inl e, s\<lparr>fs_disk := put content\<rparr>)
           | Inr _ \<Rightarrow> (Inr (), invalidate f (s1\<lparr>fs_disk := put content\<rparr>))))"

definition owned :: "file_state \<Rightarrow> int \<Rightarrow> string \<Rightarrow> stored_file option" where
  "owned s user_id fid = (case db_file s fid of Some f \<Rightarrow> if sf_user f = user_id then Some f else None | None \<Rightarrow> None)"

definition write_content :: "op_env \<Rightarrow> int \<Rightarrow> string \<Rightarrow> string \<Rightarrow> file_state \<Rightarrow> string \<times> file_state" where
  "write_content ox user_id fid content s =
     (case owned s user_id fid of
        None \<Rightarrow> (no_access, s)
      | Some f \<Rightarrow>
          (let s1 = save_version (ox_new_id ox) fid s in
           case change_disk ox f (dset (fs_disk s1) (sf_path f)) content s1 s of
             (Inr _, s2) \<Rightarrow> (''File updated ('' @ commas (length content) @ '' chars). Re-embedding in background.'', s2)
           | (Inl e, s2) \<Rightarrow> (''Error writing file: '' @ ox_exc_text ox e, s2)))"

definition append_content :: "op_env \<Rightarrow> int \<Rightarrow> string \<Rightarrow> string \<Rightarrow> file_state \<Rightarrow> string \<times> file_state" where
  "append_content ox user_id fid content s =
     (case owned s user_id fid of
        None \<Rightarrow> (no_access, s)
      | Some f \<Rightarrow>
          (let s1 = save_version (ox_new_id ox) fid s;
               separator = (if content \<noteq> [] \<and> \<not> startswith content newline then newline @ newline else [])
           in case change_disk ox f (sync_append (fs_disk s1) (sf_path f)) (separator @ content) s1 s of
             (Inr _, s2) \<Rightarrow> (''Appended '' @ commas (length content) @ '' chars. Re-embedding in background.'', s2)
           | (Inl e, s2) \<Rightarrow> (''Error appending: '' @ ox_exc_text ox e, s2)))"

text \<open>
  \<open>find_sub p s\<close> is \<^verbatim>\<open>s.index(p)\<close> when \<open>p\<close> occurs in \<open>s\<close>, and \<open>replace_first\<close> is
  \<^verbatim>\<open>s.replace(p, q, 1)\<close>; \<open>crlf_to_lf\<close> is \<^verbatim>\<open>s.replace("\r\n", "\n")\<close>.
\<close>

fun find_sub :: "string \<Rightarrow> string \<Rightarrow> nat option" where
  "find_sub p [] = (if p = [] then Some 0 else None)"
| "find_sub p (c # s) = (if startswith (c # s) p then Some 0 else map_option Suc (find_sub p s))"

definition splice :: "string \<Rightarrow> nat \<Rightarrow> nat \<Rightarrow> string \<Rightarrow> string" where
  "splice s i n q = take i s @ q @ drop (i + n) s"

definition replace_first :: "string \<Rightarrow> string \<Rightarrow> string \<Rightarrow> string" where
  "replace_first s p q = (case find_sub p s of Some i \<Rightarrow> splice s i (length p) q | None \<Rightarrow> s)"

fun crlf_to_lf :: "string \<Rightarrow> string" where
  "crlf_to_lf (c # d # s) =
     (if c = CHR 0x0D \<and> d = CHR 0x0A then CHR 0x0A # crlf_to_lf s else c # crlf_to_lf (d # s))"
| "crlf_to_lf s = s"

definition fuzzy_replace :: "string \<Rightarrow> string \<Rightarrow> string \<Rightarrow> string \<times> bool" where
  "fuzzy_replace content old_text new_text =
     (if contains old_text content then (replace_first content old_text new_text, True)
      else
        let n_old = crlf_to_lf old_text; n_con = crlf_to_lf content in
        case find_sub n_old n_con of
          Some i \<Rightarrow> (splice content i (length n_old) new_text, True)
        | None \<Rightarrow>
            let stripped = strip old_text in
            case (if stripped = [] then None else find_sub stripped content) of
              Some i \<Rightarrow> (splice content i (length stripped) new_text, True)
            | None \<Rightarrow> (content, False))"

definition patch_content :: "op_env \<Rightarrow> int \<Rightarrow> string \<Rightarrow> string \<Rightarrow> string \<Rightarrow> file_state \<Rightarrow> string \<times> file_state" where
  "patch_content ox user_id fid old_text new_text s =
     (case owned s user_id fid of
        None \<Rightarrow> (no_access, s)
      | Some f \<Rightarrow>
          (case sync_read (fs_disk s) (sf_path f) of
             Inl e \<Rightarrow> (''Error patching: '' @ ox_exc_text ox e, s)
           | Inr current \<Rightarrow>
               (case fuzzy_replace current old_text new_text of
                  (_, False) \<Rightarrow> (''Error: text not found in file. Use read_file to get the exact text, then retry.'', s)
                | (updated, True) \<Rightarrow>
                    (let s1 = save_version (ox_new_id ox) fid s in
                     case change_disk ox f (dset (fs_disk s1) (sf_path f)) updated s1 s of
                       (Inr _, s2) \<Rightarrow> (''Patched: replaced '' @ commas (length old_text) @ '' chars with ''
                                      @ commas (length new_text) @ '' chars. Re-embedding in background.'', s2)
                     | (Inl e, s2) \<Rightarrow> (''Error patching: '' @ ox_exc_text ox e, s2)))))"

text \<open>The reply of the write is not looked at.\<close>

definition restore_version :: "op_env \<Rightarrow> int \<Rightarrow> string \<Rightarrow> string \<Rightarrow> file_state \<Rightarrow> string option \<times> file_state" where
  "restore_version ox user_id fid version_id s =
     (case owned s user_id fid of
        None \<Rightarrow> (None, s)
      | Some f \<Rightarrow>
          (case List.find (\<lambda>v. fv_id v = version_id) (fs_versions s) of
             None \<Rightarrow> (None, s)
           | Some v \<Rightarrow>
               if fv_file v \<noteq> fid then (None, s)
               else (Some (fv_content v), snd (write_content ox user_id fid (fv_content v) s))))"

section \<open>The tools on files\<close>

definition MAX_FILE_READ :: nat where
  "MAX_FILE_READ = 100000"

definition file_line :: "stored_file \<Rightarrow> string" where
  "file_line f = ''- '' @ sf_name f @ '' (id='' @ sf_id f @ '', size='' @ int_str (sf_size f) @ '' bytes, status='' @ sf_status f @ '')''"

definition list_files :: "string \<Rightarrow> int \<Rightarrow> file_state \<Rightarrow> string" where
  "list_files conv user_id s =
     (let attached = filter (\<lambda>f. (conv, sf_id f) \<in> set (fs_links s)) (fs_files s);
          rows = (if attached \<noteq> [] then attached
                  else filter (\<lambda>f. sf_user f = user_id \<and> sf_status f = ''ready'') (fs_files s))
      in if rows = [] then ''No files available.''
         else join newline (map file_line rows
                @ [''['' @ nat_str (length rows) @ '' file(s) total. This list is complete '' @ em_dash
                   @ '' use search_in_file or read_file to access content.]'']))"

definition read_file :: "op_env \<Rightarrow> int \<Rightarrow> string \<Rightarrow> file_state \<Rightarrow> string" where
  "read_file ox user_id fid s =
     (case owned s user_id fid of
        None \<Rightarrow> no_access
      | Some f \<Rightarrow>
          (case sync_read (fs_disk s) (sf_path f) of
             Inl e \<Rightarrow> ''Error reading file: '' @ ox_exc_text ox e
           | Inr t \<Rightarrow>
               let content = take MAX_FILE_READ t in
               if length content = MAX_FILE_READ
               then content @ newline @ newline @ ''[File truncated at '' @ commas MAX_FILE_READ @ '' characters '' @ em_dash
                    @ '' use search_in_file to find specific sections]''
               else content @ newline @ newline @ ''[Complete file '' @ em_dash @ '' '' @ commas (length content)
                    @ '' chars. No further reads needed.]''))"

section \<open>Storage and endpoints\<close>

definition utf8_length :: "string \<Rightarrow> nat" where
  "utf8_length t = sum_list (map (\<lambda>c. if code c < 128 then 1 else 2) t)"

text \<open>The path is new, because it holds a fresh identifier. The result is a triple.\<close>

definition save_text :: "op_env \<Rightarrow> string \<Rightarrow> (string \<Rightarrow> string) \<Rightarrow> string \<Rightarrow> string \<Rightarrow> file_state \<Rightarrow> (string \<times> nat \<times> string) result \<times> file_state" where
  "save_text ox base sha256 content filename s =
     (let path = base @ ''/'' @ ox_new_id ox @ ''_'' @ filename in
      case ox_write ox of
        Inl e \<Rightarrow> (Inl e, s)
      | Inr _ \<Rightarrow> (Inr (path, utf8_length content, sha256 content), s\<lparr>fs_disk := dset (fs_disk s) path content\<rparr>))"

text \<open>Python unpacks a sequence into exactly as many names as it has elements.\<close>

definition unpack2 :: "'a \<times> 'b \<times> 'c \<Rightarrow> ('a \<times> 'b) result" where
  "unpack2 t = Inl (ValueError ''too many values to unpack (expected 2)'')"

definition create_file :: "op_env \<Rightarrow> string \<Rightarrow> (string \<Rightarrow> string) \<Rightarrow> int \<Rightarrow> string \<Rightarrow> string \<Rightarrow> string \<Rightarrow> string \<Rightarrow> file_state \<Rightarrow> string \<times> file_state" where
  "create_file ox base sha256 user_id conv new_file name content s =
     (case save_text ox base sha256 content (take 80 name) s of
        (Inl e, s1) \<Rightarrow> (''Error creating file: '' @ ox_exc_text ox e, s1)
      | (Inr triple, s1) \<Rightarrow>
          (case unpack2 triple of
             Inl e \<Rightarrow> (''Error creating file: '' @ ox_exc_text ox e, s1)
           | Inr (path, size_bytes) \<Rightarrow>
               let f = \<lparr>sf_id = new_file, sf_user = user_id, sf_name = take 255 name, sf_mime = ''text/plain'', sf_size = int size_bytes,
                        sf_path = path, sf_status = ''uploaded'', sf_media = ''document'', sf_ocr = None, sf_sha256 = None,
                        sf_total = None, sf_embedded = None, sf_failed = 0\<rparr>
               in case ox_commit ox of
                    Inl e \<Rightarrow> (''Error creating file: '' @ ox_exc_text ox e, s1)
                  | Inr _ \<Rightarrow>
                      (''File '' @ [CHR 0x27] @ name @ [CHR 0x27] @ '' created and attached to conversation (id='' @ new_file
                         @ ''). Processing in background.'',
                       s1\<lparr>fs_files := fs_files s1 @ [f], fs_links := fs_links s1 @ [(conv, new_file)],
                          fs_jobs := fs_jobs s1 @ [(new_file, path, ''text/plain'')]\<rparr>)))"

definition not_found :: pyexc where
  "not_found = HTTPException 404 ''Not found''"

definition get_file_or_404 :: "(string \<Rightarrow> string option) \<Rightarrow> string \<Rightarrow> int \<Rightarrow> file_state \<Rightarrow> stored_file result" where
  "get_file_or_404 parse_uuid raw user_id s =
     (case parse_uuid raw of
        None \<Rightarrow> Inl not_found
      | Some fid \<Rightarrow> (case owned s user_id fid of None \<Rightarrow> Inl not_found | Some f \<Rightarrow> Inr f))"

definition MAX_FILE_SIZE :: int where
  "MAX_FILE_SIZE = 50 * 1024 * 1024"

record upload =
  up_size :: "int option"
  up_name :: string
  up_type :: "string option"
  up_content :: string

text \<open>
  An upload is written to disk first; when the user already has a row with its hash, it is removed
  again and that row is the answer.
\<close>

definition upload_file :: "op_env \<Rightarrow> string \<Rightarrow> (string \<Rightarrow> string) \<Rightarrow> int \<Rightarrow> string \<Rightarrow> upload \<Rightarrow> file_state \<Rightarrow>
    (stored_file \<times> bool) result \<times> file_state" where
  "upload_file ox base sha256 user_id new_file u s =
     (let path = base @ ''/'' @ ox_new_id ox @ ''_'' @ up_name u; failed = HTTPException 500 ''Upload failed'' in
      if (case up_size u of Some n \<Rightarrow> n > MAX_FILE_SIZE | None \<Rightarrow> False)
      then (Inl (HTTPException 413 ''File too large (max 50 MB)''), s)
      else case ox_write ox of
        Inl _ \<Rightarrow> (Inl failed, s)
      | Inr _ \<Rightarrow>
          let s1 = s\<lparr>fs_disk := dset (fs_disk s) path (up_content u)\<rparr>;
              h = sha256 (up_content u)
          in case List.find (\<lambda>f. sf_user f = user_id \<and> sf_sha256 f = Some h) (fs_files s1) of
               Some f \<Rightarrow> (Inr (f, True), s1\<lparr>fs_disk := ddel (fs_disk s1) path\<rparr>)
             | None \<Rightarrow>
                 let mt = (case up_type u of Some t \<Rightarrow> if t \<noteq> [] then t else ''application/octet-stream'' | None \<Rightarrow> ''application/octet-stream'');
                     f = \<lparr>sf_id = new_file, sf_user = user_id, sf_name = up_name u, sf_mime = mt, sf_size = int (utf8_length (up_content u)),
                          sf_path = path, sf_status = ''uploaded'', sf_media = (if startswith mt ''image/'' then ''image'' else ''document''),
                          sf_ocr = None, sf_sha256 = Some h, sf_total = None, sf_embedded = None, sf_failed = 0\<rparr>
                 in case ox_commit ox of
                      Inl _ \<Rightarrow> (Inl failed, s1)
                    | Inr _ \<Rightarrow> (Inr (f, False), s1\<lparr>fs_files := fs_files s1 @ [f], fs_jobs := fs_jobs s1 @ [(new_file, path, mt)]\<rparr>))"

text \<open>Deleting a row takes its versions and its links to conversations with it.\<close>

definition delete_file :: "(string \<Rightarrow> string option) \<Rightarrow> string \<Rightarrow> int \<Rightarrow> bool \<Rightarrow> file_state \<Rightarrow> unit result \<times> file_state" where
  "delete_file parse_uuid raw user_id unlink_ok s =
     (case get_file_or_404 parse_uuid raw user_id s of
        Inl e \<Rightarrow> (Inl e, s)
      | Inr f \<Rightarrow>
          (Inr (), s\<lparr>fs_chunks := filter (\<lambda>c. ck_file c \<noteq> sf_id f) (fs_chunks s),
                     fs_files := filter (\<lambda>g. sf_id g \<noteq> sf_id f) (fs_files s),
                     fs_versions := filter (\<lambda>v. fv_file v \<noteq> sf_id f) (fs_versions s),
                     fs_links := filter (\<lambda>l. snd l \<noteq> sf_id f) (fs_links s),
                     fs_disk := (if unlink_ok then ddel (fs_disk s) (sf_path f) else fs_disk s)\<rparr>))"

definition get_file_content :: "(string \<Rightarrow> string option) \<Rightarrow> string \<Rightarrow> int \<Rightarrow> file_state \<Rightarrow> string result" where
  "get_file_content parse_uuid raw user_id s =
     (case get_file_or_404 parse_uuid raw user_id s of
        Inl e \<Rightarrow> Inl e
      | Inr f \<Rightarrow> (case sync_read (fs_disk s) (sf_path f) of
          Inl _ \<Rightarrow> Inl (HTTPException 500 ''Could not read file'') | Inr t \<Rightarrow> Inr t))"

definition rename_file :: "(string \<Rightarrow> string option) \<Rightarrow> string \<Rightarrow> int \<Rightarrow> string \<Rightarrow> file_state \<Rightarrow> unit result \<times> file_state" where
  "rename_file parse_uuid raw user_id name s =
     (case get_file_or_404 parse_uuid raw user_id s of
        Inl e \<Rightarrow> (Inl e, s)
      | Inr f \<Rightarrow>
          if strip name = [] then (Inl (HTTPException 400 ''Filename required''), s)
          else (Inr (), update_file (sf_id f) (\<lambda>g. g\<lparr>sf_name := take 512 (strip name)\<rparr>) s))"

definition put_file_content :: "op_env \<Rightarrow> (string \<Rightarrow> string option) \<Rightarrow> string \<Rightarrow> int \<Rightarrow> string \<Rightarrow> file_state \<Rightarrow> string result \<times> file_state" where
  "put_file_content ox parse_uuid raw user_id content s =
     (case get_file_or_404 parse_uuid raw user_id s of
        Inl e \<Rightarrow> (Inl e, s)
      | Inr f \<Rightarrow>
          (case write_content ox user_id (sf_id f) content s of
             (reply, s1) \<Rightarrow> if startswith reply ''Error'' then (Inl (HTTPException 400 reply), s1) else (Inr reply, s1)))"

definition get_file_version :: "(string \<Rightarrow> string option) \<Rightarrow> string \<Rightarrow> string \<Rightarrow> int \<Rightarrow> file_state \<Rightarrow> file_version result" where
  "get_file_version parse_uuid raw raw_version user_id s =
     (case get_file_or_404 parse_uuid raw user_id s of
        Inl e \<Rightarrow> Inl e
      | Inr f \<Rightarrow>
          (case parse_uuid raw_version of
             None \<Rightarrow> Inl not_found
           | Some vid \<Rightarrow>
               (case List.find (\<lambda>v. fv_id v = vid) (fs_versions s) of
                  None \<Rightarrow> Inl not_found
                | Some v \<Rightarrow> if fv_file v \<noteq> sf_id f then Inl not_found else Inr v)))"

definition restore_file_version :: "op_env \<Rightarrow> (string \<Rightarrow> string option) \<Rightarrow> string \<Rightarrow> string \<Rightarrow> int \<Rightarrow> file_state \<Rightarrow> nat result \<times> file_state" where
  "restore_file_version ox parse_uuid raw raw_version user_id s =
     (case get_file_or_404 parse_uuid raw user_id s of
        Inl e \<Rightarrow> (Inl e, s)
      | Inr f \<Rightarrow>
          (case parse_uuid raw_version of
             None \<Rightarrow> (Inl not_found, s)
           | Some vid \<Rightarrow>
               (case restore_version ox user_id (sf_id f) vid s of
                  (None, s1) \<Rightarrow> (Inl not_found, s1)
                | (Some content, s1) \<Rightarrow> (Inr (length content), s1))))"


section \<open>The invariant of the tables\<close>

datatype file_op =
    Write string string
  | Append string string
  | Patch string string string
  | Restore string string
  | Rename string string
  | Delete string bool
  | Upload string "string \<Rightarrow> string" string upload
  | Process process_env string string string

text \<open>New identifiers are new: an upload whose identifiers are taken does not occur.\<close>

definition fresh_upload :: "op_env \<Rightarrow> string \<Rightarrow> string \<Rightarrow> upload \<Rightarrow> file_state \<Rightarrow> bool" where
  "fresh_upload ox base new_file u s =
     (new_file \<notin> set (map sf_id (fs_files s))
      \<and> base @ ''/'' @ ox_new_id ox @ ''_'' @ up_name u \<notin> set (map sf_path (fs_files s)))"

fun do_op :: "op_env \<times> int \<times> file_op \<Rightarrow> file_state \<Rightarrow> file_state" where
  "do_op (ox, uid, Write fid t) s = snd (write_content ox uid fid t s)"
| "do_op (ox, uid, Append fid t) s = snd (append_content ox uid fid t s)"
| "do_op (ox, uid, Patch fid o' n) s = snd (patch_content ox uid fid o' n s)"
| "do_op (ox, uid, Restore fid v) s = snd (restore_version ox uid fid v s)"
| "do_op (ox, uid, Rename fid n) s = snd (rename_file Some fid uid n s)"
| "do_op (ox, uid, Delete fid b) s = snd (delete_file Some fid uid b s)"
| "do_op (ox, uid, Upload base h new_file u) s =
     (if fresh_upload ox base new_file u s then snd (upload_file ox base h uid new_file u s) else s)"
| "do_op (ox, uid, Process px fid path mime) s = snd (process px fid path mime s)"

definition versions_of :: "file_state \<Rightarrow> string \<Rightarrow> file_version list" where
  "versions_of s i = filter (\<lambda>v. fv_file v = i) (fs_versions s)"

definition chunks_of :: "file_state \<Rightarrow> string \<Rightarrow> stored_chunk list" where
  "chunks_of s i = filter (\<lambda>c. ck_file c = i) (fs_chunks s)"

text \<open>Identifiers and paths are unique, and the versions of a file are numbered from one in their order.\<close>

definition files_ok :: "file_state \<Rightarrow> bool" where
  "files_ok s = (distinct (map sf_id (fs_files s)) \<and> distinct (map sf_path (fs_files s))
     \<and> (\<forall>i. map fv_version (versions_of s i) = [1 ..< Suc (length (versions_of s i))]))"

lemma owned_db: "owned s uid fid = Some f \<longleftrightarrow> db_file s fid = Some f \<and> sf_user f = uid"
  by (auto simp: owned_def split: option.splits)

lemma db_file_in: "db_file s fid = Some f \<Longrightarrow> f \<in> set (fs_files s) \<and> sf_id f = fid"
  by (auto simp: db_file_def find_Some_iff)

lemma update_file_maps:
  assumes "\<And>f. sf_id (g f) = sf_id f" and "\<And>f. sf_path (g f) = sf_path f"
  shows "map sf_id (fs_files (update_file i g s)) = map sf_id (fs_files s)"
    "map sf_path (fs_files (update_file i g s)) = map sf_path (fs_files s)"
  by (simp_all add: update_file_def assms)

lemma update_file_rest [simp]:
  "fs_chunks (update_file i g s) = fs_chunks s" "fs_versions (update_file i g s) = fs_versions s"
  "fs_disk (update_file i g s) = fs_disk s" "fs_jobs (update_file i g s) = fs_jobs s" "fs_links (update_file i g s) = fs_links s"
  by (simp_all add: update_file_def)

lemma db_file_update:
  assumes "\<And>f. sf_id (g f) = sf_id f"
  shows "db_file (update_file i g s) j = (if j = i then map_option g (db_file s j) else db_file s j)"
proof -
  have "List.find (\<lambda>f. sf_id f = j) (map (\<lambda>f. if sf_id f = i then g f else f) fs) =
      (if j = i then map_option g (List.find (\<lambda>f. sf_id f = j) fs) else List.find (\<lambda>f. sf_id f = j) fs)" for fs
    by (induction fs) (auto simp: assms)
  then show ?thesis by (simp add: db_file_def update_file_def)
qed

lemma reset_row_keeps [simp]: "sf_id (reset_row f) = sf_id f" "sf_path (reset_row f) = sf_path f" "sf_user (reset_row f) = sf_user f"
  by (simp_all add: reset_row_def)

lemma save_version_rest [simp]:
  "fs_files (save_version i fid s) = fs_files s" "fs_chunks (save_version i fid s) = fs_chunks s"
  "fs_disk (save_version i fid s) = fs_disk s" "fs_jobs (save_version i fid s) = fs_jobs s" "fs_links (save_version i fid s) = fs_links s"
  by (simp_all add: save_version_def split: option.splits sum.splits)

lemma versions_save:
  "versions_of (save_version i fid s) j = versions_of s j
   \<or> (j = fid \<and> (\<exists>content. versions_of (save_version i fid s) j =
        versions_of s j @ [\<lparr>fv_id = i, fv_file = fid, fv_version = Suc (length (versions_of s j)), fv_content = content\<rparr>]))"
  by (auto simp: save_version_def versions_of_def Let_def split: option.splits sum.splits)

text \<open>
  What a change of a content can do to the state: take the snapshot or not, write something to the file or not, and, after
  the snapshot, invalidate what was derived from the content.
\<close>

definition touched :: "string \<Rightarrow> int \<Rightarrow> string \<Rightarrow> file_state \<Rightarrow> file_state \<Rightarrow> bool" where
  "touched new_id uid fid s s' =
     (s' = s \<or> (\<exists>f d. owned s uid fid = Some f \<and> (d = fs_disk s \<or> (\<exists>t. d = dset (fs_disk s) (sf_path f) t)) \<and>
        (s' = s\<lparr>fs_disk := d\<rparr> \<or> s' = (save_version new_id fid s)\<lparr>fs_disk := d\<rparr>
         \<or> s' = invalidate f ((save_version new_id fid s)\<lparr>fs_disk := d\<rparr>))))"

lemma touched_refl: "touched i uid fid s s"
  by (simp add: touched_def)

lemma save_version_disk: "fs_disk (save_version i fid s) = fs_disk s" "(save_version i fid s)\<lparr>fs_disk := fs_disk s\<rparr> = save_version i fid s"
  by (simp_all add: save_version_def Let_def split: option.split sum.split)

lemma change_disk_cases:
  "\<exists>d. (d = fs_disk s \<or> (\<exists>t. d = put t)) \<and>
     (snd (change_disk ox f put content (save_version i fid s) s) \<in> {s\<lparr>fs_disk := d\<rparr>, (save_version i fid s)\<lparr>fs_disk := d\<rparr>, invalidate f ((save_version i fid s)\<lparr>fs_disk := d\<rparr>)})"
proof (cases "ox_write ox")
  case (Inl e)
  show ?thesis
  proof (cases "ox_left ox")
    case None
    then show ?thesis using Inl by (intro exI [of _ "fs_disk s"]) (simp add: change_disk_def save_version_disk)
  next
    case (Some n)
    then show ?thesis using Inl by (intro exI [of _ "put (take n content)"]) (auto simp: change_disk_def)
  qed
next
  case (Inr u)
  then show ?thesis by (intro exI [of _ "put content"]) (auto simp: change_disk_def split: sum.split)
qed

lemma snd_reply [simp]: "snd (case p of (Inl e, s') \<Rightarrow> (h e, s') | (Inr u, s') \<Rightarrow> (g u, s')) = snd p"
  by (simp split: prod.split sum.split)

lemma change_disk_touched:
  assumes "owned s uid fid = Some f" and "\<And>t. \<exists>t'. put t = dset (fs_disk s) (sf_path f) t'"
  shows "touched (ox_new_id ox) uid fid s (snd (change_disk ox f put content (save_version (ox_new_id ox) fid s) s))"
  using change_disk_cases [of s put ox f content "ox_new_id ox" fid] assms unfolding touched_def by (metis empty_iff insert_iff)

lemma write_touched: "touched (ox_new_id ox) uid fid s (snd (write_content ox uid fid content s))"
proof (cases "owned s uid fid")
  case (Some f)
  then show ?thesis unfolding write_content_def by (auto simp: save_version_disk intro!: change_disk_touched)
qed (simp add: write_content_def touched_def)

lemma append_touched: "touched (ox_new_id ox) uid fid s (snd (append_content ox uid fid content s))"
proof (cases "owned s uid fid")
  case (Some f)
  then show ?thesis unfolding append_content_def sync_append_def by (auto simp: save_version_disk intro!: change_disk_touched)
qed (simp add: append_content_def touched_def)

lemma patch_touched: "touched (ox_new_id ox) uid fid s (snd (patch_content ox uid fid old_text new_text s))"
proof (cases "owned s uid fid")
  case (Some f)
  show ?thesis
  proof (cases "sync_read (fs_disk s) (sf_path f)")
    case (Inr current)
    obtain c b where "fuzzy_replace current old_text new_text = (c, b)" by fastforce
    then show ?thesis using Some Inr
      by (cases b) (auto simp: patch_content_def touched_refl save_version_disk intro!: change_disk_touched)
  qed (simp add: patch_content_def Some touched_refl)
qed (simp add: patch_content_def touched_def)

lemma restore_touched: "touched (ox_new_id ox) uid fid s (snd (restore_version ox uid fid v s))"
  using write_touched touched_refl by (simp add: restore_version_def split: option.split)

lemma numbered_append: "map fv_version (vs @ [v]) = [1 ..< Suc (length (vs @ [v]))]
    \<longleftrightarrow> map fv_version vs = [1 ..< Suc (length vs)] \<and> fv_version v = Suc (length vs)"
  by auto

lemma save_version_ok:
  assumes "files_ok s"
  shows "files_ok (save_version i fid s)"
proof -
  have "map fv_version (versions_of (save_version i fid s) j) = [1 ..< Suc (length (versions_of (save_version i fid s) j))]" for j
  proof -
    have old: "map fv_version (versions_of s j) = [1 ..< Suc (length (versions_of s j))]" using assms by (simp add: files_ok_def)
    from versions_save [of i fid s j] show ?thesis
    proof (elim disjE exE conjE)
      fix content
      assume "versions_of (save_version i fid s) j =
          versions_of s j @ [\<lparr>fv_id = i, fv_file = fid, fv_version = Suc (length (versions_of s j)), fv_content = content\<rparr>]"
      then show ?thesis unfolding numbered_append using old by simp
    qed (use old in simp)
  qed
  then show ?thesis using assms by (simp add: files_ok_def)
qed

lemma files_ok_parts:
  assumes "files_ok s" and "map sf_id (fs_files s') = map sf_id (fs_files s)" and "map sf_path (fs_files s') = map sf_path (fs_files s)"
    and "fs_versions s' = fs_versions s"
  shows "files_ok s'"
  using assms by (simp add: files_ok_def versions_of_def)

lemma touched_ok:
  assumes "touched i uid fid s s'" and "files_ok s"
  shows "files_ok s'"
proof -
  consider "s' = s" | d where "s' = s\<lparr>fs_disk := d\<rparr>" | d where "s' = (save_version i fid s)\<lparr>fs_disk := d\<rparr>"
    | f d where "s' = invalidate f ((save_version i fid s)\<lparr>fs_disk := d\<rparr>)"
    using assms(1) unfolding touched_def by blast
  then show ?thesis
  proof cases
    case 2
    then show ?thesis using files_ok_parts [OF assms(2)] by simp
  next
    case 3
    then show ?thesis using files_ok_parts [OF save_version_ok [OF assms(2), of i fid]] by simp
  next
    case 4
    show ?thesis
      by (rule files_ok_parts [OF save_version_ok [OF assms(2), of i fid]]) (simp_all add: 4 invalidate_def update_file_def)
  qed (use assms(2) in simp)
qed

lemma do_op_ok:
  assumes "files_ok s"
  shows "files_ok (do_op e s)"
proof -
  obtain ox uid op where e: "e = (ox, uid, op)" by (metis prod_cases3)
  show ?thesis
  proof (cases op)
    case (Write fid t)
    then show ?thesis using touched_ok [OF write_touched assms] by (simp add: e)
  next
    case (Append fid t)
    then show ?thesis using touched_ok [OF append_touched assms] by (simp add: e)
  next
    case (Patch fid p q)
    then show ?thesis using touched_ok [OF patch_touched assms] by (simp add: e)
  next
    case (Restore fid v)
    then show ?thesis using touched_ok [OF restore_touched assms] by (simp add: e)
  next
    case (Rename fid n)
    have "files_ok (update_file i (\<lambda>g. g\<lparr>sf_name := m\<rparr>) s)" for i m
      by (rule files_ok_parts [OF assms]) (simp_all add: update_file_def)
    then show ?thesis using assms by (simp add: e Rename rename_file_def split: sum.split)
  next
    case (Delete fid b)
    have "files_ok (snd (delete_file Some fid uid b s))"
    proof (cases "get_file_or_404 Some fid uid s")
      case (Inr f)
      have "versions_of (snd (delete_file Some fid uid b s)) j = (if j = sf_id f then [] else versions_of s j)" for j
        by (auto simp: delete_file_def Inr versions_of_def filter_empty_conv intro!: filter_cong)
      then show ?thesis using assms by (auto simp: files_ok_def delete_file_def Inr distinct_map_filter simp del: upt_Suc)
    qed (simp add: delete_file_def assms)
    then show ?thesis by (simp add: e Delete)
  next
    case (Upload base h new_file u)
    have "files_ok (snd (upload_file ox base h uid new_file u s))" if "fresh_upload ox base new_file u s"
    proof -
      have "fs_versions (snd (upload_file ox base h uid new_file u s)) = fs_versions s"
        by (simp add: upload_file_def Let_def split: sum.split option.split)
      moreover have "fs_files (snd (upload_file ox base h uid new_file u s)) = fs_files s
          \<or> (\<exists>f. fs_files (snd (upload_file ox base h uid new_file u s)) = fs_files s @ [f]
                \<and> sf_id f = new_file \<and> sf_path f = base @ ''/'' @ ox_new_id ox @ ''_'' @ up_name u)"
        by (simp add: upload_file_def Let_def split: sum.split option.split)
      ultimately show ?thesis
        using assms that unfolding files_ok_def versions_of_def fresh_upload_def by (auto simp del: upt_Suc)
    qed
    then show ?thesis using assms by (simp add: e Upload)
  next
    case (Process px fid path mime)
    have "fs_versions (snd (process px fid path mime s)) = fs_versions s"
      "map sf_id (fs_files (snd (process px fid path mime s))) = map sf_id (fs_files s)"
      "map sf_path (fs_files (snd (process px fid path mime s))) = map sf_path (fs_files s)"
      by (simp_all add: process_def Let_def update_file_def split: sum.split)
    then show ?thesis using files_ok_parts [OF assms] by (simp add: e Process)
  qed
qed

definition no_files :: file_state where
  "no_files = \<lparr>fs_files = [], fs_chunks = [], fs_versions = [], fs_links = [], fs_disk = [], fs_jobs = []\<rparr>"

interpretation file_machine: guarded_machine do_op files_ok no_files
  by unfold_locales (simp add: files_ok_def no_files_def versions_of_def, erule do_op_ok)

text \<open>
  C9. Along every sequence of uploads, writes, appends, patches, restorations, renamings, deletions
  and processing runs, by any users and with any failures of the disk and of the commits, the
  identifiers and the paths of the files are distinct and the versions of each file are numbered
  1, 2, 3 and so on, without gap or repetition.
\<close>

theorem versions_numbered:
  "files_ok (fold do_op es no_files)"
  by (rule file_machine.inv_reach)


section \<open>Files of others\<close>

text \<open>What there is of a file: its row, its content on disk, its chunks and its versions.\<close>

definition view_of :: "stored_file \<Rightarrow> file_state \<Rightarrow> stored_file option \<times> string option \<times> stored_chunk list \<times> file_version list" where
  "view_of g s = (db_file s (sf_id g), dget (fs_disk s) (sf_path g), chunks_of s (sf_id g), versions_of s (sf_id g))"

fun by_other :: "int \<Rightarrow> op_env \<times> int \<times> file_op \<Rightarrow> bool" where
  "by_other u (ox, uid, op) = (uid \<noteq> u \<and> (case op of Process _ _ _ _ \<Rightarrow> False | _ \<Rightarrow> True))"

lemma other_file:
  assumes "files_ok s" and "db_file s (sf_id g) = Some g" and "owned s uid fid = Some f" and "uid \<noteq> sf_user g"
  shows "sf_id f \<noteq> sf_id g" "sf_path f \<noteq> sf_path g" "sf_id f = fid"
proof -
  have f: "f \<in> set (fs_files s)" "sf_id f = fid" "sf_user f = uid" and g: "g \<in> set (fs_files s)"
    using assms(2,3) db_file_in by (auto simp: owned_db)
  then show "sf_id f = fid" by simp
  have "f \<noteq> g" using f(3) assms(4) by auto
  then show "sf_id f \<noteq> sf_id g" "sf_path f \<noteq> sf_path g"
    using assms(1) f g unfolding files_ok_def by (auto dest: inj_onD simp: distinct_map)
qed

lemma frame [simp]:
  "db_file (s\<lparr>fs_disk := d\<rparr>) i = db_file s i" "chunks_of (s\<lparr>fs_disk := d\<rparr>) i = chunks_of s i"
  "versions_of (s\<lparr>fs_disk := d\<rparr>) i = versions_of s i"
  "db_file (save_version n j s) i = db_file s i" "chunks_of (save_version n j s) i = chunks_of s i"
  by (simp_all add: db_file_def chunks_of_def versions_of_def)

lemma after_invalidate [simp]:
  "db_file (invalidate f s) i = (if i = sf_id f then map_option reset_row (db_file s i) else db_file s i)"
  "chunks_of (invalidate f s) i = (if i = sf_id f then [] else chunks_of s i)"
  "versions_of (invalidate f s) i = versions_of s i" "fs_disk (invalidate f s) = fs_disk s"
proof -
  have "db_file (invalidate f s) i = db_file (update_file (sf_id f) reset_row s) i"
    by (simp add: db_file_def invalidate_def update_file_def)
  then show "db_file (invalidate f s) i = (if i = sf_id f then map_option reset_row (db_file s i) else db_file s i)"
    by (simp add: db_file_update)
  show "chunks_of (invalidate f s) i = (if i = sf_id f then [] else chunks_of s i)"
    by (auto simp: chunks_of_def invalidate_def filter_empty_conv intro: filter_cong)
qed (simp_all add: versions_of_def invalidate_def)

lemma find_append: "List.find P (xs @ ys) = (case List.find P xs of None \<Rightarrow> List.find P ys | Some x \<Rightarrow> Some x)"
  by (induction xs) auto

lemma touched_view:
  assumes "touched i uid fid s s'" and "files_ok s" and "db_file s (sf_id g) = Some g" and "uid \<noteq> sf_user g"
  shows "view_of g s' = view_of g s"
proof (cases "s' = s")
  case False
  then obtain f d where f: "owned s uid fid = Some f" and d: "d = fs_disk s \<or> (\<exists>t. d = dset (fs_disk s) (sf_path f) t)"
    and s': "s' = s\<lparr>fs_disk := d\<rparr> \<or> s' = (save_version i fid s)\<lparr>fs_disk := d\<rparr> \<or> s' = invalidate f ((save_version i fid s)\<lparr>fs_disk := d\<rparr>)"
    using assms(1) unfolding touched_def by blast
  note o = other_file [OF assms(2,3) f assms(4)]
  have "versions_of (save_version i fid s) (sf_id g) = versions_of s (sf_id g)" using versions_save [of i fid s "sf_id g"] o by auto
  moreover have "dget d (sf_path g) = dget (fs_disk s) (sf_path g)" using d o(2) by (auto simp: dget_dset)
  ultimately show ?thesis
    using s' o by (auto simp: view_of_def)
qed simp


lemma do_op_view:
  assumes "by_other (sf_user g) e" and "files_ok s" and "db_file s (sf_id g) = Some g"
  shows "view_of g (do_op e s) = view_of g s"
proof -
  obtain ox uid op where e: "e = (ox, uid, op)" by (metis prod_cases3)
  have uid: "uid \<noteq> sf_user g" using assms(1) by (simp add: e)
  note tv = touched_view [OF _ assms(2,3) uid]
  show ?thesis
  proof (cases op)
    case (Write fid t)
    then show ?thesis using tv [OF write_touched] by (simp add: e)
  next
    case (Append fid t)
    then show ?thesis using tv [OF append_touched] by (simp add: e)
  next
    case (Patch fid p q)
    then show ?thesis using tv [OF patch_touched] by (simp add: e)
  next
    case (Restore fid v)
    then show ?thesis using tv [OF restore_touched] by (simp add: e)
  next
    case (Rename fid n)
    show ?thesis
    proof (cases "owned s uid fid")
      case (Some f)
      then have "sf_id f \<noteq> sf_id g" using other_file [OF assms(2,3) _ uid] by blast
      then show ?thesis
        using Some by (simp add: e Rename rename_file_def get_file_or_404_def view_of_def db_file_update chunks_of_def versions_of_def)
    qed (simp add: e Rename rename_file_def get_file_or_404_def)
  next
    case (Delete fid b)
    show ?thesis
    proof (cases "owned s uid fid")
      case (Some f)
      note o = other_file [OF assms(2,3) Some uid]
      have "List.find (\<lambda>h. sf_id h = sf_id g) (filter (\<lambda>h. sf_id h \<noteq> sf_id f) fs) = List.find (\<lambda>h. sf_id h = sf_id g) fs" for fs
        using o(1) by (induction fs) auto
      then show ?thesis
        using Some o
        by (simp add: e Delete delete_file_def get_file_or_404_def view_of_def chunks_of_def versions_of_def db_file_def dget_ddel)
          (auto intro!: filter_cong)
    qed (simp add: e Delete delete_file_def get_file_or_404_def)
  next
    case (Upload base h new_file u)
    show ?thesis
    proof (cases "fresh_upload ox base new_file u s")
      case True
      let ?s = "snd (upload_file ox base h uid new_file u s)" and ?path = "base @ ''/'' @ ox_new_id ox @ ''_'' @ up_name u"
      have g: "g \<in> set (fs_files s)" using db_file_in [OF assms(3)] by blast
      then have path: "sf_path g \<noteq> ?path" using True unfolding fresh_upload_def by (metis image_eqI set_map)
      have "fs_chunks ?s = fs_chunks s" "fs_versions ?s = fs_versions s" "dget (fs_disk ?s) (sf_path g) = dget (fs_disk s) (sf_path g)"
        "\<exists>fs. fs_files ?s = fs_files s @ fs"
        using path by (simp_all add: upload_file_def Let_def dget_dset dget_ddel split: sum.split option.split)
      moreover have "List.find (\<lambda>f. sf_id f = sf_id g) (fs_files s @ fs) = Some g" for fs
        using assms(3) by (simp add: db_file_def find_append)
      ultimately show ?thesis using True assms(3) by (auto simp: e Upload view_of_def chunks_of_def versions_of_def db_file_def)
    qed (simp add: e Upload)
  next
    case (Process px fid path mime)
    then show ?thesis using assms(1) by (simp add: e)
  qed
qed

text \<open>
  C5. Nobody changes the files of others: along every sequence of uploads, writes, appends, patches,
  restorations, renamings and deletions requested by other users, with whatever file and version
  identifiers, the row of a file, its content on disk, its chunks and its versions stay as they are.
\<close>

theorem files_of_others_untouched:
  assumes "files_ok s" and "db_file s (sf_id g) = Some g" and "list_all (by_other (sf_user g)) es"
  shows "view_of g (fold do_op es s) = view_of g s"
  using assms
proof (induction es arbitrary: s)
  case (Cons e es)
  have same: "view_of g (do_op e s) = view_of g s" using Cons.prems by (intro do_op_view) auto
  then have "db_file (do_op e s) (sf_id g) = Some g" using Cons.prems(2) by (simp add: view_of_def)
  with Cons same show ?case by (simp add: do_op_ok)
qed simp


definition sample_file :: stored_file where
  "sample_file = \<lparr>sf_id = ''f'', sf_user = 1, sf_name = ''n'', sf_mime = ''text/plain'', sf_size = 3, sf_path = ''p'', sf_status = ''ready'',
     sf_media = ''document'', sf_ocr = None, sf_sha256 = None, sf_total = None, sf_embedded = None, sf_failed = 0\<rparr>"

definition sample_files :: file_state where
  "sample_files = no_files\<lparr>fs_files := [sample_file], fs_disk := [(''p'', ''One'')]\<rparr>"

definition sample_op :: op_env where
  "sample_op = \<lparr>ox_new_id = ''v'', ox_write = Inr (), ox_left = None, ox_goes_on = True, ox_commit = Inr (), ox_exc_text = (\<lambda>_. [])\<rparr>"

lemma sample_files_ok: "files_ok sample_files" "db_file sample_files ''f'' = Some sample_file" "sf_id sample_file = ''f''"
  "sf_user sample_file = 1" "sf_path sample_file = ''p''" "dget (fs_disk sample_files) ''p'' = Some ''One''"
  "owned sample_files 1 ''f'' = Some sample_file"
  by (simp_all add: files_ok_def sample_files_def no_files_def versions_of_def db_file_def sample_file_def dget_def owned_def)

theorem files_of_others_untouched_witness:
  "view_of sample_file (fold do_op [(sample_op, 2, Write ''f'' ''x''), (sample_op, 2, Delete ''f'' True)] sample_files)
     = view_of sample_file sample_files"
  by (rule files_of_others_untouched) (simp_all add: sample_files_ok)

section \<open>Snapshots and restoration\<close>

lemma newlines_no_cr: "CHR 0x0D \<notin> set (newlines_from cr s)"
  by (induction cr s rule: newlines_from.induct) auto

lemma newlines_id: "CHR 0x0D \<notin> set s \<Longrightarrow> newlines_from False s = s"
  by (induction s) auto

lemma universal_newlines_idem [simp]: "universal_newlines (universal_newlines s) = universal_newlines s"
  by (simp add: universal_newlines_def newlines_id newlines_no_cr)

lemma write_ok:
  assumes "owned s uid fid = Some f" and "dget (fs_disk s) (sf_path f) = Some t" and "ox_write ox = Inr ()" and "ox_commit ox = Inr ()"
  shows "snd (write_content ox uid fid content s) =
    invalidate f ((s\<lparr>fs_versions := fs_versions s @ [\<lparr>fv_id = ox_new_id ox, fv_file = fid,
        fv_version = Suc (length (versions_of s fid)), fv_content = universal_newlines t\<rparr>]\<rparr>)
      \<lparr>fs_disk := dset (fs_disk s) (sf_path f) content\<rparr>)"
proof -
  have db: "db_file s fid = Some f" using assms(1) by (simp add: owned_db)
  have "save_version (ox_new_id ox) fid s = s\<lparr>fs_versions := fs_versions s @ [\<lparr>fv_id = ox_new_id ox, fv_file = fid,
        fv_version = Suc (length (versions_of s fid)), fv_content = universal_newlines t\<rparr>]\<rparr>"
    by (simp add: save_version_def db sync_read_def assms(2) versions_of_def)
  then show ?thesis using assms(1,3,4) by (simp add: write_content_def change_disk_def)
qed

lemma owned_after_write:
  assumes "owned s uid fid = Some f" and "ox_write ox = Inr ()" and "ox_commit ox = Inr ()" and "dget (fs_disk s) (sf_path f) = Some t"
  shows "owned (snd (write_content ox uid fid content s)) uid fid = Some (reset_row f)"
    "dget (fs_disk (snd (write_content ox uid fid content s))) (sf_path f) = Some content"
proof -
  have f: "db_file s fid = Some f" "sf_user f = uid" "sf_id f = fid" using assms(1) db_file_in by (auto simp: owned_db)
  have "db_file (s\<lparr>fs_versions := vs, fs_disk := d\<rparr>) fid = Some f" for vs d using f(1) by (simp add: db_file_def)
  then show "owned (snd (write_content ox uid fid content s)) uid fid = Some (reset_row f)"
    unfolding write_ok [OF assms(1,4,2,3)] owned_db using f by simp
  show "dget (fs_disk (snd (write_content ox uid fid content s))) (sf_path f) = Some content"
    unfolding write_ok [OF assms(1,4,2,3)] by simp
qed

text \<open>
  C28. A write can be undone: after a successful write, restoring the version that the write has
  saved brings back what the file read before, line ends counted as one, and what was written in
  between is in turn the newest version.
\<close>

theorem restore_undoes_write:
  fixes content :: string
  assumes "owned s uid fid = Some f" and "dget (fs_disk s) (sf_path f) = Some t"
    and "ox_write ox = Inr ()" and "ox_commit ox = Inr ()" and "ox_write ox' = Inr ()" and "ox_commit ox' = Inr ()"
    and "ox_new_id ox \<notin> fv_id ` set (fs_versions s)"
  defines "s1 \<equiv> snd (write_content ox uid fid content s)"
  shows "fst (restore_version ox' uid fid (ox_new_id ox) s1) = Some (universal_newlines t)
    \<and> sync_read (fs_disk (snd (restore_version ox' uid fid (ox_new_id ox) s1))) (sf_path f) = sync_read (fs_disk s) (sf_path f)
    \<and> fv_content (last (versions_of (snd (restore_version ox' uid fid (ox_new_id ox) s1)) fid)) = universal_newlines content"
proof -
  note w = owned_after_write [OF assms(1,3,4,2), of content, folded s1_def]
  have vs: "fs_versions s1 = fs_versions s @ [\<lparr>fv_id = ox_new_id ox, fv_file = fid,
        fv_version = Suc (length (versions_of s fid)), fv_content = universal_newlines t\<rparr>]"
    unfolding s1_def write_ok [OF assms(1-4)] by (simp add: invalidate_def)
  have none: "List.find (\<lambda>v. fv_id v = ox_new_id ox) (fs_versions s) = None" unfolding find_None_iff
  proof clarify
    fix x
    assume "x \<in> set (fs_versions s)" "fv_id x = ox_new_id ox"
    then show False using assms(7) imageI [of x "set (fs_versions s)" fv_id] by simp
  qed
  have v: "List.find (\<lambda>v. fv_id v = ox_new_id ox) (fs_versions s1) = Some \<lparr>fv_id = ox_new_id ox, fv_file = fid,
        fv_version = Suc (length (versions_of s fid)), fv_content = universal_newlines t\<rparr>"
    unfolding vs find_append none by simp
  have w2: "dget (fs_disk s1) (sf_path (reset_row f)) = Some content" using w(2) by simp
  have r: "restore_version ox' uid fid (ox_new_id ox) s1 =
      (Some (universal_newlines t), snd (write_content ox' uid fid (universal_newlines t) s1))"
    by (simp add: restore_version_def w(1) v)
  show ?thesis
    unfolding r fst_conv snd_conv write_ok [OF w(1) w2 assms(5,6)]
    by (simp add: sync_read_def dget_dset assms(2)) (simp add: versions_of_def)
qed

theorem restore_undoes_write_witness:
  "fst (restore_version sample_op 1 ''f'' ''v'' (snd (write_content sample_op 1 ''f'' ''Two'' sample_files))) = Some ''One''"
  using restore_undoes_write [of sample_files 1 "''f''" sample_file "''One''" sample_op sample_op "''Two''"] sample_files_ok
  by (simp add: sample_op_def sample_files_def no_files_def universal_newlines_def)

text \<open>
  The endpoint that restores a version does not notice that it failed: when the disk refuses the
  write, it still answers with the size of the restored content, as after a success; the file holds what
  it held before, or the beginning of the restored content, down to nothing, and its chunks and its row are those of the old content.
\<close>

theorem failed_restore_reported_done:
  assumes "parse_uuid raw = Some fid" and "owned s uid fid = Some f" and "parse_uuid raw_version = Some vid"
    and "List.find (\<lambda>v. fv_id v = vid) (fs_versions s) = Some v" and "fv_file v = fid" and "ox_write ox = Inl e"
  shows "let (r, s') = restore_file_version ox parse_uuid raw raw_version uid s in
    r = Inr (length (fv_content v))
    \<and> dget (fs_disk s') (sf_path f) = (case ox_left ox of None \<Rightarrow> dget (fs_disk s) (sf_path f) | Some n \<Rightarrow> Some (take n (fv_content v)))
    \<and> db_file s' fid = Some f \<and> chunks_of s' fid = chunks_of s fid \<and> fs_jobs s' = fs_jobs s"
proof -
  have f: "sf_id f = fid" "db_file s fid = Some f" using assms(2) db_file_in by (auto simp: owned_db)
  have jobs: "fs_jobs (save_version i fid s) = fs_jobs s" for i by (simp add: save_version_def Let_def split: option.split sum.split)
  have r: "restore_file_version ox parse_uuid raw raw_version uid s = (Inr (length (fv_content v)), snd (write_content ox uid fid (fv_content v) s))"
    using assms by (simp add: restore_version_def restore_file_version_def get_file_or_404_def f(1))
  have w: "snd (write_content ox uid fid (fv_content v) s)
      = snd (change_disk ox f (dset (fs_disk s) (sf_path f)) (fv_content v) (save_version (ox_new_id ox) fid s) s)"
    using assms(2) by (simp add: write_content_def save_version_disk)
  show ?thesis unfolding r w
    by (cases "ox_left ox"; cases "ox_goes_on ox") (simp_all add: change_disk_def assms(6) save_version_disk jobs f)
qed

theorem failed_restore_reported_done_witness:
  "let (r, s') = restore_file_version (sample_op\<lparr>ox_write := Inl OtherError, ox_left := Some 0\<rparr>) Some ''f'' ''w'' 1
     (sample_files\<lparr>fs_versions := [\<lparr>fv_id = ''w'', fv_file = ''f'', fv_version = 1, fv_content = ''Old''\<rparr>]\<rparr>)
   in r = Inr 3 \<and> dget (fs_disk s') ''p'' = Some []"
  using failed_restore_reported_done [of Some "''f''" "''f''" "sample_files\<lparr>fs_versions := [\<lparr>fv_id = ''w'', fv_file = ''f'', fv_version = 1, fv_content = ''Old''\<rparr>]\<rparr>"
      1 sample_file "''w''" "''w''" "\<lparr>fv_id = ''w'', fv_file = ''f'', fv_version = 1, fv_content = ''Old''\<rparr>"
      "sample_op\<lparr>ox_write := Inl OtherError, ox_left := Some 0\<rparr>" OtherError]
  by (simp add: owned_def db_file_def sample_files_def no_files_def sample_file_def Let_def split: prod.splits)

text \<open>A file of exactly the limit is reported as truncated, though all of it was read.\<close>

lemma read_file_exact_limit:
  assumes "owned s uid fid = Some f" and "sync_read (fs_disk s) (sf_path f) = Inr t" and "length t = MAX_FILE_READ"
  shows "\<exists>rest. read_file ox uid fid s = t @ newline @ newline @ ''[File truncated at '' @ rest"
  using assms by (simp add: read_file_def Let_def)

section \<open>Creation and repeated uploads\<close>

text \<open>
  The tool that creates a file never creates one: its result is always the error of unpacking the
  three values of \<open>save_text\<close> into two names (or the error of writing), no row, link or job comes of
  it, and when the disk works the text stays behind in a file that belongs to nobody.
\<close>

theorem create_file_never_creates:
  "\<exists>e. fst (create_file ox base sha256 uid conv new_file name content s) = ''Error creating file: '' @ ox_exc_text ox e
     \<and> fs_files (snd (create_file ox base sha256 uid conv new_file name content s)) = fs_files s
     \<and> fs_links (snd (create_file ox base sha256 uid conv new_file name content s)) = fs_links s
     \<and> fs_jobs (snd (create_file ox base sha256 uid conv new_file name content s)) = fs_jobs s
     \<and> fs_disk (snd (create_file ox base sha256 uid conv new_file name content s)) =
         (case ox_write ox of Inl _ \<Rightarrow> fs_disk s
          | Inr _ \<Rightarrow> dset (fs_disk s) (base @ ''/'' @ ox_new_id ox @ ''_'' @ take 80 name) content)"
proof (cases "ox_write ox")
  case (Inl e)
  then show ?thesis by (intro exI [of _ e]) (simp add: create_file_def save_text_def Let_def)
next
  case (Inr u)
  then show ?thesis
    by (intro exI [of _ "ValueError ''too many values to unpack (expected 2)''"])
      (simp add: create_file_def save_text_def unpack2_def Let_def)
qed

text \<open>
  Edited files shadow their original: a content that was uploaded, then edited in place, cannot be
  uploaded again by the same user; the second upload is answered with the edited file as a duplicate
  and leaves no copy of the content on disk, because an edit does not change the stored hash.
\<close>

theorem reupload_returns_edited:
  fixes edited :: string
  assumes "owned s uid fid = Some f" and "sf_sha256 f = Some (sha256 original)" and "dget (fs_disk s) (sf_path f) = Some original"
    and "ox_write ox = Inr ()" and "ox_commit ox = Inr ()" and "ox_write ox' = Inr ()"
    and "List.find (\<lambda>g. sf_user g = uid \<and> sf_sha256 g = Some (sha256 original)) (fs_files s) = Some f"
    and "up_content u = original" and "case up_size u of Some n \<Rightarrow> n \<le> MAX_FILE_SIZE | None \<Rightarrow> True"
    and "base @ ''/'' @ ox_new_id ox' @ ''_'' @ up_name u \<noteq> sf_path f" and "distinct (map sf_id (fs_files s))"
  defines "s1 \<equiv> snd (write_content ox uid fid edited s)"
  shows "fst (upload_file ox' base sha256 uid new_file u s1) = Inr (reset_row f, True)
    \<and> dget (fs_disk (snd (upload_file ox' base sha256 uid new_file u s1))) (sf_path f) = Some edited
    \<and> dget (fs_disk (snd (upload_file ox' base sha256 uid new_file u s1))) (base @ ''/'' @ ox_new_id ox' @ ''_'' @ up_name u) = None"
proof -
  have fid: "sf_id f = fid" and f: "f \<in> set (fs_files s)" using assms(1) db_file_in by (auto simp: owned_db)
  have files: "fs_files s1 = map (\<lambda>g. if sf_id g = fid then reset_row g else g) (fs_files s)"
    unfolding s1_def write_ok [OF assms(1,3-5)] by (simp add: invalidate_def update_file_def fid)
  have find_map: "List.find P (map h xs) = map_option h (List.find P xs)" if "\<And>x. P (h x) = P x" for P h and xs :: "stored_file list"
    using that by (induction xs) auto
  have "List.find (\<lambda>g. sf_user g = uid \<and> sf_sha256 g = Some (sha256 original)) (fs_files s1) = Some (reset_row f)"
    unfolding files by (subst find_map) (auto simp: assms(7) fid reset_row_def)
  moreover have "dget (fs_disk s1) (sf_path f) = Some edited" using owned_after_write(2) [OF assms(1,4,5,3)] by (simp add: s1_def)
  ultimately show ?thesis
    using assms(6,8-10) by (auto simp: upload_file_def Let_def dget_ddel dget_dset split: option.splits)
qed

theorem reupload_returns_edited_witness:
  "fst (upload_file (sample_op\<lparr>ox_new_id := ''w''\<rparr>) ''d'' (\<lambda>c. c) 1 ''g'' \<lparr>up_size = None, up_name = ''n'', up_type = None, up_content = ''One''\<rparr>
     (snd (write_content sample_op 1 ''f'' ''Two'' (sample_files\<lparr>fs_files := [sample_file\<lparr>sf_sha256 := Some ''One''\<rparr>]\<rparr>))))
   = Inr (reset_row (sample_file\<lparr>sf_sha256 := Some ''One''\<rparr>), True)"
  by (rule reupload_returns_edited [where original = "''One''", THEN conjunct1])
    (simp_all add: owned_def db_file_def sample_files_def no_files_def sample_file_def sample_op_def dget_def)


section \<open>Patches\<close>

lemma find_sub_Some: "find_sub p s = Some i \<Longrightarrow> \<exists>a b. s = a @ p @ b \<and> length a = i"
proof (induction p s arbitrary: i rule: find_sub.induct)
  case (2 p c s)
  show ?case
  proof (cases "startswith (c # s) p")
    case True
    then obtain b where "c # s = p @ b" by (auto simp: startswith_prefix prefix_def)
    moreover have "i = 0" using 2(2) True by simp
    ultimately show ?thesis by simp
  next
    case False
    then obtain j where j: "find_sub p s = Some j" "i = Suc j" using 2(2) by auto
    from 2(1) [OF False j(1)] obtain a b where "s = a @ p @ b" "length a = j" by blast
    then show ?thesis using j(2) by (intro exI [of _ "c # a"] exI [of _ b]) simp
  qed
qed (auto split: if_splits)

lemma find_sub_None: "find_sub p s = None \<longleftrightarrow> \<not> contains p s"
  by (induction p s rule: find_sub.induct) (auto simp: startswith_def)

lemma splice_found: "length a = i \<Longrightarrow> splice (a @ p @ b) i (length p) q = a @ q @ b"
  by (simp add: splice_def)

lemma crlf_to_lf_id: "CHR 0x0D \<notin> set s \<Longrightarrow> crlf_to_lf s = s"
  by (induction s rule: crlf_to_lf.induct) auto

definition patch_spec :: "string \<Rightarrow> string \<Rightarrow> string \<Rightarrow> string \<times> bool \<Rightarrow> bool" where
  "patch_spec c old_text new_text res =
     (if snd res
      then \<exists>a p b. c = a @ p @ b \<and> fst res = a @ new_text @ b \<and> p \<in> {old_text, crlf_to_lf old_text, strip old_text}
      else fst res = c \<and> \<not> contains old_text c \<and> \<not> contains (crlf_to_lf old_text) c
        \<and> (strip old_text = [] \<or> \<not> contains (strip old_text) c))"

lemma patch_spec_hit:
  assumes "find_sub p c = Some i" and "p \<in> {old_text, crlf_to_lf old_text, strip old_text}"
  shows "patch_spec c old_text new_text (splice c i (length p) new_text, True)"
proof -
  obtain a b where "c = a @ p @ b" "length a = i" using find_sub_Some [OF assms(1)] by blast
  then show ?thesis using assms(2) splice_found [of a i p b new_text] unfolding patch_spec_def by auto
qed

text \<open>
  A patch changes one place or nothing: on the content that was read from the file, it replaces one
  occurrence of the old text, of the old text with its line ends normalised, or of the old text
  without the blanks around it, and leaves everything before and behind it; and it fails only when
  none of the three occurs.
\<close>

theorem patch_replaces_one_place:
  "patch_spec (universal_newlines t) old_text new_text (fuzzy_replace (universal_newlines t) old_text new_text)"
proof -
  define c where "c = universal_newlines t"
  have lf: "crlf_to_lf c = c" by (simp add: c_def universal_newlines_def crlf_to_lf_id newlines_no_cr)
  consider (exact) i where "find_sub old_text c = Some i" "contains old_text c"
    | (ends) i where "\<not> contains old_text c" "find_sub (crlf_to_lf old_text) c = Some i"
    | (stripped) i where "\<not> contains old_text c" "find_sub (crlf_to_lf old_text) c = None" "strip old_text \<noteq> []" "find_sub (strip old_text) c = Some i"
    | (none) "\<not> contains old_text c" "find_sub (crlf_to_lf old_text) c = None" "strip old_text = [] \<or> find_sub (strip old_text) c = None"
    using find_sub_None [of old_text c]
    by (cases "find_sub old_text c"; cases "find_sub (crlf_to_lf old_text) c"; cases "find_sub (strip old_text) c") auto
  then have "patch_spec c old_text new_text (fuzzy_replace c old_text new_text)"
  proof cases
    case exact
    then show ?thesis using patch_spec_hit [OF exact(1)] by (simp add: fuzzy_replace_def replace_first_def)
  next
    case ends
    then show ?thesis using patch_spec_hit [OF ends(2)] by (simp add: fuzzy_replace_def Let_def lf)
  next
    case stripped
    then show ?thesis using patch_spec_hit [OF stripped(4)] by (simp add: fuzzy_replace_def Let_def lf)
  next
    case none
    then have "fuzzy_replace c old_text new_text = (c, False)" by (auto simp: fuzzy_replace_def Let_def lf)
    then show ?thesis using none find_sub_None [of "crlf_to_lf old_text" c] find_sub_None [of "strip old_text" c]
      by (auto simp: patch_spec_def)
  qed
  then show ?thesis by (simp add: c_def)
qed

section \<open>Processing\<close>

lemma new_chunks_file: "c \<in> set (new_chunks fid es) \<Longrightarrow> ck_file c = fid"
  by (auto simp: new_chunks_def split: option.splits list.splits)

lemma new_chunks_length: "length (new_chunks fid es) \<le> length es"
  by (induction es) (auto simp: new_chunks_def split: option.split list.split)

lemma chunk_text_nonempty:
  assumes "strip t \<noteq> []"
  shows "chunk_text t \<noteq> []"
proof
  assume empty: "chunk_text t = []"
  obtain gs where gs: "chunk_text t = assemble CHUNK_OVERLAP [] gs" "concat (map split_ws (concat gs)) = split_ws t"
    using chunks_grouped by blast
  then have "split_ws t = []" using empty by (cases gs) auto
  moreover have "split_ws (strip t) \<noteq> []"
    using tidy_strip [OF assms] by (cases "strip t") (auto simp: tidy_def split_ws_def split_acc_nonempty)
  ultimately show False by simp
qed


lemma process_parts:
  assumes "db_file s fid = Some f" and "px_commit px = Inr ()"
    and "strip (extract_text (px_ocr px) (px_readers px) (fs_disk s) path mime) \<noteq> []"
  defines "chunks \<equiv> chunk_text (extract_text (px_ocr px) (px_readers px) (fs_disk s) path mime)"
  defines "rows \<equiv> new_chunks fid (embeddings_of px chunks)"
  shows "\<exists>g. db_file (snd (process px fid path mime s)) fid = Some g \<and> sf_total g = Some (length chunks)
      \<and> sf_embedded g = Some (length rows) \<and> sf_failed g = length chunks - length rows
      \<and> sf_status g = processed_status (length rows) (length chunks) \<and> sf_user g = sf_user f \<and> sf_path g = sf_path f"
    "fs_chunks (snd (process px fid path mime s)) = fs_chunks s @ rows"
    "fs_disk (snd (process px fid path mime s)) = fs_disk s"
    "length rows \<le> length chunks" "chunks \<noteq> []" "\<And>c. c \<in> set rows \<Longrightarrow> ck_file c = fid"
proof -
  show "length rows \<le> length chunks"
    using new_chunks_length [of fid "embeddings_of px chunks"] by (simp add: rows_def embeddings_of_def)
  show "chunks \<noteq> []" unfolding chunks_def by (rule chunk_text_nonempty [OF assms(3)])
  show "\<And>c. c \<in> set rows \<Longrightarrow> ck_file c = fid" unfolding rows_def by (rule new_chunks_file)
  define noted where "noted = (\<lambda>f :: stored_file. if startswith (lower mime) ''image/''
      then f\<lparr>sf_media := ''image'', sf_ocr := Some (take 10000 (extract_text (px_ocr px) (px_readers px) (fs_disk s) path mime))\<rparr> else f)"
  define final where "final = (\<lambda>f :: stored_file. (noted f)\<lparr>sf_total := Some (length chunks), sf_embedded := Some (length rows),
      sf_failed := length chunks - length rows, sf_status := processed_status (length rows) (length chunks)\<rparr>)"
  define s1 where "s1 = update_file fid (\<lambda>f :: stored_file. f\<lparr>sf_status := ''processing''\<rparr>) s"
  have p: "snd (process px fid path mime s) = update_file fid final (s1\<lparr>fs_chunks := fs_chunks s1 @ rows\<rparr>)"
    using assms(1-3) unfolding process_def Let_def s1_def final_def noted_def chunks_def rows_def
    by (cases "startswith (lower mime) ''image/''") simp_all
  show "fs_chunks (snd (process px fid path mime s)) = fs_chunks s @ rows" "fs_disk (snd (process px fid path mime s)) = fs_disk s"
    by (simp_all add: p s1_def)
  have "db_file (s1\<lparr>fs_chunks := fs_chunks s1 @ rows\<rparr>) fid = Some (f\<lparr>sf_status := ''processing''\<rparr>)"
    using assms(1) db_file_update [of "\<lambda>f :: stored_file. f\<lparr>sf_status := ''processing''\<rparr>" fid s fid] by (simp add: s1_def db_file_def)
  moreover have "sf_id (final g) = sf_id g" for g by (simp add: final_def noted_def)
  ultimately have "db_file (snd (process px fid path mime s)) fid = Some (final (f\<lparr>sf_status := ''processing''\<rparr>))"
    unfolding p by (simp add: db_file_update)
  then show "\<exists>g. db_file (snd (process px fid path mime s)) fid = Some g \<and> sf_total g = Some (length chunks)
      \<and> sf_embedded g = Some (length rows) \<and> sf_failed g = length chunks - length rows
      \<and> sf_status g = processed_status (length rows) (length chunks) \<and> sf_user g = sf_user f \<and> sf_path g = sf_path f"
    by (simp add: final_def noted_def)
qed

text \<open>
  Processing keeps its books: when a file with text has been processed, its row says how many
  chunks the text has (at least one) and how many were embedded and how many failed, the two add up,
  the embedded ones are exactly the chunks stored for the file, and the status is ready when all of
  them were, failed when none was, and partial otherwise.
\<close>

theorem processing_keeps_books:
  assumes "db_file s fid = Some f" and "px_commit px = Inr ()" and "chunks_of s fid = []"
    and "strip (extract_text (px_ocr px) (px_readers px) (fs_disk s) path mime) \<noteq> []"
  shows "\<exists>g n m. db_file (snd (process px fid path mime s)) fid = Some g \<and> sf_total g = Some n \<and> sf_embedded g = Some m
    \<and> 0 < n \<and> m + sf_failed g = n \<and> length (chunks_of (snd (process px fid path mime s)) fid) = m
    \<and> (sf_status g = ''ready'') = (m = n) \<and> (sf_status g = ''failed'') = (m = 0) \<and> (sf_status g = ''partial'') = (0 < m \<and> m < n)"
proof -
  let ?chunks = "chunk_text (extract_text (px_ocr px) (px_readers px) (fs_disk s) path mime)"
  let ?rows = "new_chunks fid (embeddings_of px ?chunks)"
  note pp = process_parts [OF assms(1,2,4)]
  obtain g where g: "db_file (snd (process px fid path mime s)) fid = Some g" "sf_total g = Some (length ?chunks)"
    "sf_embedded g = Some (length ?rows)" "sf_failed g = length ?chunks - length ?rows"
    "sf_status g = processed_status (length ?rows) (length ?chunks)" using pp(1) by blast
  have "chunks_of (snd (process px fid path mime s)) fid = ?rows"
    using assms(3) pp(6) unfolding chunks_of_def pp(2) by (simp add: filter_id_conv)
  moreover have "0 < length ?chunks" "length ?rows \<le> length ?chunks" using pp(4,5) by simp_all
  ultimately show ?thesis
    using g by (intro exI [of _ g] exI [of _ "length ?chunks"] exI [of _ "length ?rows"]) (auto simp: processed_status_def)
qed

text \<open>
  Two quick writes index a file twice: each write deletes the chunks and schedules a processing
  job, and the jobs do not delete; so when both jobs run after both writes, the chunks of the final
  content are stored twice.
\<close>

theorem two_writes_index_twice:
  fixes a b :: string
  assumes "owned s uid fid = Some f" and "dget (fs_disk s) (sf_path f) = Some t"
    and "ox_write ox = Inr ()" and "ox_commit ox = Inr ()" and "ox_write ox' = Inr ()" and "ox_commit ox' = Inr ()"
    and "px_commit px = Inr ()"
  defines "s2 \<equiv> snd (write_content ox' uid fid b (snd (write_content ox uid fid a s)))"
  assumes "strip (extract_text (px_ocr px) (px_readers px) (fs_disk s2) (sf_path f) (sf_mime f)) \<noteq> []"
  shows "chunks_of (snd (process px fid (sf_path f) (sf_mime f) (snd (process px fid (sf_path f) (sf_mime f) s2)))) fid =
    (let rows = new_chunks fid (embeddings_of px (chunk_text (extract_text (px_ocr px) (px_readers px) (fs_disk s2) (sf_path f) (sf_mime f))))
     in rows @ rows)"
proof -
  note w1 = owned_after_write [OF assms(1,3,4,2), of a]
  have w2: "dget (fs_disk (snd (write_content ox uid fid a s))) (sf_path (reset_row f)) = Some a" using w1(2) by simp
  note w3 = owned_after_write [OF w1(1) assms(5,6) w2, of b, folded s2_def]
  have db: "db_file s2 fid = Some (reset_row (reset_row f))" and fid: "sf_id f = fid"
    using w3(1) assms(1) db_file_in by (auto simp: owned_db)
  have none: "chunks_of s2 fid = []"
    unfolding s2_def write_ok [OF w1(1) w2 assms(5,6)] by (simp add: fid)
  let ?s3 = "snd (process px fid (sf_path f) (sf_mime f) s2)"
  note p1 = process_parts [OF db assms(7,9)]
  obtain g where g: "db_file ?s3 fid = Some g" using p1(1) by blast
  have "strip (extract_text (px_ocr px) (px_readers px) (fs_disk ?s3) (sf_path f) (sf_mime f)) \<noteq> []" using assms(9) p1(3) by simp
  note p2 = process_parts [OF g assms(7) this]
  have "filter (\<lambda>c. ck_file c = fid) rows = rows" if "\<And>c. c \<in> set rows \<Longrightarrow> ck_file c = fid" for rows using that by simp
  then show ?thesis
    using none new_chunks_file unfolding chunks_of_def p2(2) p1(2) p1(3) Let_def filter_append by (simp add: filter_id_conv)
qed


definition sample_readers :: readers where
  "sample_readers = \<lparr>rd_pdf = (\<lambda>_. None), rd_pdf_images = (\<lambda>_. None), rd_docx = (\<lambda>_. None), rd_excel = (\<lambda>_. None),
     rd_ocr_file = (\<lambda>_. None), rd_ocr_bytes = (\<lambda>_. None)\<rparr>"

definition sample_px :: process_env where
  "sample_px = \<lparr>px_ocr = False, px_readers = sample_readers, px_client = True, px_net = (\<lambda>_ _ _. Embedding [1]), px_commit = Inr ()\<rparr>"

lemma sample_extract: "dget d ''p'' = Some t \<Longrightarrow> extract_text False sample_readers d ''p'' ''text/plain'' = universal_newlines t"
  by (simp add: extract_text_def Let_def lower_char_def code_def startswith_def path_suffix_def)

lemma strip_nonblank: "\<not> py_isspace c \<Longrightarrow> strip (c # s) \<noteq> []"
  by (simp add: strip_def lstrip_def rstrip_def dropWhile_eq_Nil_conv)

theorem processing_keeps_books_witness:
  "\<exists>g n m. db_file (snd (process sample_px ''f'' ''p'' ''text/plain'' sample_files)) ''f'' = Some g \<and> sf_total g = Some n \<and> sf_embedded g = Some m
    \<and> 0 < n \<and> m + sf_failed g = n \<and> length (chunks_of (snd (process sample_px ''f'' ''p'' ''text/plain'' sample_files)) ''f'') = m
    \<and> (sf_status g = ''ready'') = (m = n) \<and> (sf_status g = ''failed'') = (m = 0) \<and> (sf_status g = ''partial'') = (0 < m \<and> m < n)"
proof (rule processing_keeps_books)
  have "extract_text False sample_readers (fs_disk sample_files) ''p'' ''text/plain'' = ''One''"
    by (simp add: sample_extract [OF sample_files_ok(6)] universal_newlines_def)
  then show "strip (extract_text (px_ocr sample_px) (px_readers sample_px) (fs_disk sample_files) ''p'' ''text/plain'') \<noteq> []"
    by (simp add: sample_px_def strip_nonblank py_isspace_def code_def)
  show "db_file sample_files ''f'' = Some sample_file" by (simp add: sample_files_ok)
qed (simp_all add: sample_px_def chunks_of_def sample_files_def no_files_def)

theorem two_writes_index_twice_witness:
  "let s2 = snd (write_content sample_op 1 ''f'' ''Two'' (snd (write_content sample_op 1 ''f'' ''One'' sample_files)));
       rows = new_chunks ''f'' (embeddings_of sample_px (chunk_text (extract_text False sample_readers (fs_disk s2) ''p'' ''text/plain'')))
   in chunks_of (snd (process sample_px ''f'' ''p'' ''text/plain'' (snd (process sample_px ''f'' ''p'' ''text/plain'' s2)))) ''f'' = rows @ rows"
proof -
  define s1 where "s1 = snd (write_content sample_op 1 ''f'' ''One'' sample_files)"
  define s2 where "s2 = snd (write_content sample_op 1 ''f'' ''Two'' s1)"
  have op: "ox_write sample_op = Inr ()" "ox_commit sample_op = Inr ()" by (simp_all add: sample_op_def)
  have d: "dget (fs_disk sample_files) (sf_path sample_file) = Some ''One''" by (simp add: sample_files_ok)
  note w1 = owned_after_write [OF sample_files_ok(7) op d, of "''One''", folded s1_def]
  have "dget (fs_disk s1) (sf_path (reset_row sample_file)) = Some ''One''" using w1(2) by simp
  then have "dget (fs_disk s2) ''p'' = Some ''Two''"
    using owned_after_write(2) [OF w1(1) op, of "''One''" "''Two''"] by (simp add: s2_def sample_files_ok)
  then have "strip (extract_text (px_ocr sample_px) (px_readers sample_px) (fs_disk s2) (sf_path sample_file) (sf_mime sample_file)) \<noteq> []"
    by (simp add: sample_px_def sample_extract universal_newlines_def strip_nonblank py_isspace_def code_def sample_files_ok)
      (simp add: sample_file_def sample_extract universal_newlines_def strip_nonblank py_isspace_def code_def)
  then show ?thesis
    using two_writes_index_twice [OF sample_files_ok(7) d op op, of sample_px "''Two''" "''One''"]
    by (simp add: s2_def s1_def sample_px_def sample_file_def Let_def)
qed

end
