(* ===== verification/Chat_Store.thy ===== *)
theory Chat_Store
  imports Retrieval Model_Catalog
begin

text \<open>
  Conversations and their messages: the tables and the database session of a request, the choice
  and the rotation of the conversation a request belongs to (\<^verbatim>\<open>backend/api/chat/helpers.py\<close>),
  the endpoints on conversations (\<^verbatim>\<open>backend/api/conversations/\<close>), the compression of a history
  (\<^verbatim>\<open>backend/llm/summarizer/history.py\<close>), the automatic title and the index entry of an exchange
  (\<^verbatim>\<open>backend/api/chat/background.py\<close>), and the provenance and grounding of a reply, which are stored with it
  (\<^verbatim>\<open>backend/api/chat/stream.py\<close>).

  A session holds the saved tables and its own working copy; a commit saves the copy, a rollback
  drops it. PostgreSQL's \<^verbatim>\<open>now()\<close>, the default of the time columns, is the start of the
  transaction: \<open>txn n\<close> is the start of the \<open>n\<close>-th transaction of a session. A query sorted by a
  time leaves the order of equal times open; it is an argument (\<open>ord\<close>), as are the reading of a
  UUID, fresh identifiers and the model that is called with a fixed instruction (named) and a text.
\<close>

section \<open>Provenance and grounding of a reply\<close>

record provenance =
  pv_chunk :: string
  pv_source :: "string option"
  pv_dense :: real
  pv_sparse :: real
  pv_final :: real
  pv_type :: string

fun provenance_of :: "string list \<Rightarrow> hit list \<Rightarrow> provenance list" where
  "provenance_of seen [] = []"
| "provenance_of seen (h # hs) =
     (if chunk_id h = [] \<or> chunk_id h \<in> set seen then provenance_of seen hs
      else \<lparr>pv_chunk = chunk_id h, pv_source = source_id h, pv_dense = dense_score h, pv_sparse = sparse_score h,
            pv_final = final_score h, pv_type = retrieval_type h\<rparr> # provenance_of (chunk_id h # seen) hs)"

definition build_provenance :: "hit list \<Rightarrow> hit list \<Rightarrow> provenance list" where
  "build_provenance retrieved file_chunks = provenance_of [] (retrieved @ file_chunks)"

definition round3 :: "real \<Rightarrow> real" where
  "round3 x = of_int (round_half_even (x * 1000)) / 1000"

record grounding =
  gr_level :: string
  gr_score :: "int option"
  gr_sources :: "(string option \<times> real \<times> string) list"

definition compute_grounding :: "provenance list \<Rightarrow> nat \<Rightarrow> grounding" where
  "compute_grounding prov k =
     (if prov = [] then \<lparr>gr_level = ''none'', gr_score = None, gr_sources = []\<rparr>
      else
        let best = take (max k 1) (py_sort_key (\<lambda>p. - pv_dense p) prov);
            avg_dense = sum_list (map pv_dense best) / of_nat (length best);
            coverage = min (of_nat (length prov) / of_nat (max k 1)) 1;
            score = round_half_even (100 * (7 / 10 * avg_dense + 3 / 10 * coverage))
        in \<lparr>gr_level = (if score \<ge> 70 then ''high'' else if score \<ge> 40 then ''medium'' else ''low''),
            gr_score = Some score,
            gr_sources = map (\<lambda>p. (pv_source p, round3 (pv_dense p), pv_type p)) best\<rparr>)"

record render_meta =
  rm_grounding :: grounding
  rm_query_type :: string
  rm_src_count :: nat
  rm_provenance :: "provenance list"

definition build_render_meta :: "nat \<Rightarrow> string \<Rightarrow> provenance list \<Rightarrow> render_meta" where
  "build_render_meta k policy_used prov =
     \<lparr>rm_grounding = compute_grounding prov k, rm_query_type = policy_used, rm_src_count = length prov,
      rm_provenance = prov\<rparr>"

section \<open>Tables and sessions\<close>

record conversation =
  cn_id :: string
  cn_user :: int
  cn_title :: string
  cn_summary :: "string option"
  cn_system_prompt :: "string option"
  cn_locked_model :: "string option"
  cn_archived :: bool
  cn_archived_at :: "real option"
  cn_updated :: real

text \<open>A step of the trace is its stage and its level; the detail texts are not modelled.\<close>

type_synonym trace = "(string \<times> string) list"

record chat_message =
  mg_id :: string
  mg_conv :: string
  mg_role :: string
  mg_content :: string
  mg_model :: "string option"
  mg_tokens :: "(int \<times> int \<times> int) option"
  mg_cost :: "real option"
  mg_trace :: "trace option"
  mg_meta :: "render_meta option"
  mg_created :: real

record file_ref =
  fr_id :: string
  fr_user :: int
  fr_name :: string
  fr_status :: string

record chat_db =
  cd_convs :: "conversation list"
  cd_messages :: "chat_message list"
  cd_files :: "file_ref list"
  cd_links :: "(string \<times> string) list"
  \<comment> \<open>a conversation and a file attached to it\<close>

record session =
  se_saved :: chat_db
  se_work :: chat_db
  se_count :: nat

definition open_session :: "chat_db \<Rightarrow> session" where
  "open_session db = \<lparr>se_saved = db, se_work = db, se_count = 0\<rparr>"

definition commit :: "session \<Rightarrow> session" where
  "commit s = s\<lparr>se_saved := se_work s, se_count := Suc (se_count s)\<rparr>"

definition rollback :: "session \<Rightarrow> session" where
  "rollback s = s\<lparr>se_work := se_saved s, se_count := Suc (se_count s)\<rparr>"

definition change :: "(chat_db \<Rightarrow> chat_db) \<Rightarrow> session \<Rightarrow> session" where
  "change f s = s\<lparr>se_work := f (se_work s)\<rparr>"

definition get_conv :: "chat_db \<Rightarrow> string \<Rightarrow> conversation option" where
  "get_conv db cid = List.find (\<lambda>c. cn_id c = cid) (cd_convs db)"

definition own_conv :: "chat_db \<Rightarrow> int \<Rightarrow> string \<Rightarrow> conversation option" where
  "own_conv db uid cid =
     (case get_conv db cid of Some c \<Rightarrow> if cn_user c = uid then Some c else None | None \<Rightarrow> None)"

definition update_conv :: "string \<Rightarrow> (conversation \<Rightarrow> conversation) \<Rightarrow> chat_db \<Rightarrow> chat_db" where
  "update_conv cid f db = db\<lparr>cd_convs := map (\<lambda>c. if cn_id c = cid then f c else c) (cd_convs db)\<rparr>"

definition add_conv :: "conversation \<Rightarrow> chat_db \<Rightarrow> chat_db" where
  "add_conv c db = db\<lparr>cd_convs := cd_convs db @ [c]\<rparr>"

definition add_message :: "chat_message \<Rightarrow> chat_db \<Rightarrow> chat_db" where
  "add_message m db = db\<lparr>cd_messages := cd_messages db @ [m]\<rparr>"

definition messages_of :: "chat_db \<Rightarrow> string \<Rightarrow> chat_message list" where
  "messages_of db cid = filter (\<lambda>m. mg_conv m = cid) (cd_messages db)"

definition newest_first :: "(chat_message list \<Rightarrow> chat_message list) \<Rightarrow> chat_message list \<Rightarrow> chat_message list" where
  "newest_first ord ms = py_sort_key (\<lambda>m. - mg_created m) (set_order ord ms)"

definition oldest_first :: "(chat_message list \<Rightarrow> chat_message list) \<Rightarrow> chat_message list \<Rightarrow> chat_message list" where
  "oldest_first ord ms = py_sort_key mg_created (set_order ord ms)"

section \<open>The conversation of a request\<close>

definition new_conversation :: "string \<Rightarrow> int \<Rightarrow> string \<Rightarrow> real \<Rightarrow> conversation" where
  "new_conversation cid uid title now =
     \<lparr>cn_id = cid, cn_user = uid, cn_title = title, cn_summary = None, cn_system_prompt = None, cn_locked_model = None,
      cn_archived = False, cn_archived_at = None, cn_updated = now\<rparr>"

text \<open>The conversation that carries on after an archived one.\<close>

definition successor :: "string \<Rightarrow> conversation \<Rightarrow> real \<Rightarrow> conversation" where
  "successor cid c now =
     (new_conversation cid (cn_user c) (cn_title c) now)\<lparr>cn_system_prompt := cn_system_prompt c, cn_locked_model := cn_locked_model c\<rparr>"

definition token_sum :: "chat_message list \<Rightarrow> int" where
  "token_sum ms = sum_list (map (\<lambda>m. case mg_tokens m of Some (_, _, tt) \<Rightarrow> tt | None \<Rightarrow> 0) ms)"

definition needs_rotation :: "real \<Rightarrow> conversation \<Rightarrow> chat_message list \<Rightarrow> bool" where
  "needs_rotation now c ms =
     (\<not> (length ms \<le> 80 \<and> token_sum (filter (\<lambda>m. mg_role m = ''assistant'') ms) \<le> 120000
         \<and> \<lfloor>(now - cn_updated c) / 86400\<rfloor> \<le> 3))"

definition handoff :: "(chat_message list \<Rightarrow> chat_message list) \<Rightarrow> conversation \<Rightarrow> chat_message list \<Rightarrow> string" where
  "handoff ord c ms =
     join (newline @ newline)
       ((case cn_summary c of
           Some (x # xs) \<Rightarrow> [''Previous conversation summary:'' @ newline @ (x # xs)]
         | _ \<Rightarrow> [])
        @ map (\<lambda>m. (if mg_role m = ''user'' then ''User'' else ''Assistant'') @ '': '' @ take 500 (mg_content m))
            (rev (take 5 (newest_first ord ms))))"

definition check_rotation :: "(chat_message list \<Rightarrow> chat_message list) \<Rightarrow> (nat \<Rightarrow> real) \<Rightarrow> real \<Rightarrow> string \<Rightarrow> conversation \<Rightarrow> session \<Rightarrow>
    conversation option \<times> session" where
  "check_rotation ord txn now fresh c s =
     (let ms = messages_of (se_work s) (cn_id c) in
      if cn_archived c \<or> \<not> needs_rotation now c ms then (None, s)
      else
        let next = (successor fresh c (txn (se_count s)))\<lparr>cn_summary := Some (take 2000 (handoff ord c ms))\<rparr>
        in (Some next,
            commit (change (\<lambda>db. add_conv next (update_conv (cn_id c) (\<lambda>c. c\<lparr>cn_archived := True, cn_archived_at := Some now\<rparr>) db)) s)))"

text \<open>
  The conversation a request continues or starts. The second part of the value names the new and
  the old conversation when the one asked for is archived.
\<close>

definition resolve_conversation :: "(string \<Rightarrow> string option) \<Rightarrow> (chat_message list \<Rightarrow> chat_message list) \<Rightarrow> (nat \<Rightarrow> real) \<Rightarrow> real \<Rightarrow>
    string \<Rightarrow> string option \<Rightarrow> string \<Rightarrow> int \<Rightarrow> session \<Rightarrow> (conversation \<times> (string \<times> string) option) result \<times> session" where
  "resolve_conversation parse_uuid ord txn now fresh conversation_id message uid s =
     (case conversation_id of
        Some (x # xs) \<Rightarrow>
          (case parse_uuid (x # xs) of
             None \<Rightarrow> (Inl (HTTPException 400 ''Invalid conversation_id''), s)
           | Some cid \<Rightarrow>
               (case own_conv (se_work s) uid cid of
                  None \<Rightarrow> (Inl (HTTPException 404 ''Conversation not found''), s)
                | Some c \<Rightarrow>
                    if cn_archived c then
                      let next = successor fresh c (txn (se_count s))
                      in (Inr (next, Some (fresh, cn_id c)), commit (change (add_conv next) s))
                    else
                      (case check_rotation ord txn now fresh c s of
                         (Some next, s1) \<Rightarrow> (Inr (next, Some (fresh, cn_id c)), s1)
                       | (None, s1) \<Rightarrow> (Inr (c, None), s1))))
      | _ \<Rightarrow>
          let c = new_conversation fresh uid (strip (take 60 message)) (txn (se_count s))
          in (Inr (c, None), change (add_conv c) s))"

section \<open>Endpoints on conversations\<close>

text \<open>Without a conversation id the endpoints answer 404, as for a conversation of somebody else.\<close>

definition conv_or_404 :: "(string \<Rightarrow> string option) \<Rightarrow> string \<Rightarrow> int \<Rightarrow> chat_db \<Rightarrow> conversation result" where
  "conv_or_404 parse_uuid raw uid db =
     (case parse_uuid raw of
        None \<Rightarrow> Inl (HTTPException 404 ''Not found'')
      | Some cid \<Rightarrow> (case own_conv db uid cid of None \<Rightarrow> Inl (HTTPException 404 ''Not found'') | Some c \<Rightarrow> Inr c))"

text \<open>
  The overview, with the state of the lock of each; \<open>found\<close> is the full-text match of a query with
  a message, \<open>ord\<close> the order of conversations with equal times.
\<close>

definition lock_available :: "config \<Rightarrow> catalog_cache \<Rightarrow> conversation \<Rightarrow> bool option" where
  "lock_available cfg cat c =
     (case cn_locked_model c of
        Some (x # xs) \<Rightarrow> Some (resolve_model cfg cat (Some (x # xs)) \<noteq> None)
      | _ \<Rightarrow> None)"

definition list_conversations :: "config \<Rightarrow> catalog_cache \<Rightarrow> (string \<Rightarrow> chat_message \<Rightarrow> bool) \<Rightarrow>
    (conversation list \<Rightarrow> conversation list) \<Rightarrow> string option \<Rightarrow> int \<Rightarrow> chat_db \<Rightarrow>
    (string \<times> string \<times> bool option) list" where
  "list_conversations cfg cat found ord q uid db =
     map (\<lambda>c. (cn_id c, cn_title c, lock_available cfg cat c))
       (take 100 (py_sort_key (\<lambda>c. - cn_updated c) (set_order ord
          (filter (\<lambda>c. cn_user c = uid \<and> \<not> cn_archived c
                     \<and> (case q of
                          Some t \<Rightarrow> strip t = [] \<or> list_ex (found (strip t)) (messages_of db (cn_id c))
                        | None \<Rightarrow> True)) (cd_convs db)))))"

definition get_messages :: "(string \<Rightarrow> string option) \<Rightarrow> (chat_message list \<Rightarrow> chat_message list) \<Rightarrow> string \<Rightarrow> int \<Rightarrow> chat_db \<Rightarrow>
    chat_message list result" where
  "get_messages parse_uuid ord raw uid db =
     bindR (conv_or_404 parse_uuid raw uid db) (\<lambda>c. Inr (oldest_first ord (messages_of db (cn_id c))))"

definition safe_filename :: "string \<Rightarrow> string \<Rightarrow> string" where
  "safe_filename title ext =
     (let safe = strip (take 40 (filter (\<lambda>ch. ch \<noteq> CHR 0x22 \<and> ch \<noteq> CHR 0x5C \<and> \<not> code ch \<le> 31) title))
      in (if safe = [] then ''conversation'' else safe) @ ''.'' @ ext)"

definition apply_locked_model :: "config \<Rightarrow> catalog_cache \<Rightarrow> string option \<Rightarrow> conversation \<Rightarrow> conversation result" where
  "apply_locked_model cfg cat raw c =
     (let v = strip (case raw of Some r \<Rightarrow> r | None \<Rightarrow> []) in
      if v = [] then Inr (c\<lparr>cn_locked_model := None\<rparr>)
      else bindR (resolve_model_strict cfg cat (Some v)) (\<lambda>m. Inr (c\<lparr>cn_locked_model := Some m\<rparr>)))"

text \<open>A field of the body is absent, or present with a value that may be null.\<close>

definition patch_conversation :: "config \<Rightarrow> catalog_cache \<Rightarrow> (string \<Rightarrow> string option) \<Rightarrow> string \<Rightarrow> int \<Rightarrow>
    string option option \<Rightarrow> string option option \<Rightarrow> chat_db \<Rightarrow> conversation result \<times> chat_db" where
  "patch_conversation cfg cat parse_uuid raw uid system_prompt locked_model db =
     (case conv_or_404 parse_uuid raw uid db of
        Inl e \<Rightarrow> (Inl e, db)
      | Inr c \<Rightarrow>
          let c1 = (case system_prompt of
                      None \<Rightarrow> c
                    | Some None \<Rightarrow> c\<lparr>cn_system_prompt := None\<rparr>
                    | Some (Some p) \<Rightarrow> c\<lparr>cn_system_prompt := (if strip p = [] then None else Some (strip p))\<rparr>)
          in case (case locked_model of None \<Rightarrow> Inr c1 | Some v \<Rightarrow> apply_locked_model cfg cat v c1) of
               Inl e \<Rightarrow> (Inl e, db)
             | Inr c2 \<Rightarrow> (Inr c2, update_conv (cn_id c) (\<lambda>_. c2) db))"

definition export_markdown :: "(string \<Rightarrow> string option) \<Rightarrow> (chat_message list \<Rightarrow> chat_message list) \<Rightarrow> string \<Rightarrow> int \<Rightarrow> chat_db \<Rightarrow>
    (string list \<times> string) result" where
  "export_markdown parse_uuid ord raw uid db =
     bindR (conv_or_404 parse_uuid raw uid db) (\<lambda>c.
       Inr ((''# '' @ cn_title c @ newline @ newline)
            # map (\<lambda>m. (if mg_role m = ''user'' then ''**User:**''
                        else ''**AI** ('' @ (case mg_model m of Some (x # xs) \<Rightarrow> x # xs | _ \<Rightarrow> ''unknown'') @ ''):'')
                       @ newline @ newline @ mg_content m @ newline @ newline @ ''---'' @ newline @ newline)
                (oldest_first ord (messages_of db (cn_id c))),
            safe_filename (cn_title c) ''md''))"

text \<open>The deletion takes the messages and the attachments of the conversation along.\<close>

definition delete_conversation :: "(string \<Rightarrow> string option) \<Rightarrow> string \<Rightarrow> int \<Rightarrow> chat_db \<Rightarrow> unit result \<times> chat_db" where
  "delete_conversation parse_uuid raw uid db =
     (case conv_or_404 parse_uuid raw uid db of
        Inl e \<Rightarrow> (Inl e, db)
      | Inr c \<Rightarrow> (Inr (), db\<lparr>cd_convs := filter (\<lambda>x. cn_id x \<noteq> cn_id c) (cd_convs db),
                              cd_messages := filter (\<lambda>m. mg_conv m \<noteq> cn_id c) (cd_messages db),
                              cd_links := filter (\<lambda>l. fst l \<noteq> cn_id c) (cd_links db)\<rparr>))"

definition own_file :: "chat_db \<Rightarrow> int \<Rightarrow> string \<Rightarrow> file_ref option" where
  "own_file db uid fid = List.find (\<lambda>f. fr_id f = fid \<and> fr_user f = uid) (cd_files db)"

definition conversation_files :: "(string \<Rightarrow> string option) \<Rightarrow> string \<Rightarrow> int \<Rightarrow> chat_db \<Rightarrow> (string \<times> string \<times> string) list result" where
  "conversation_files parse_uuid raw uid db =
     bindR (conv_or_404 parse_uuid raw uid db) (\<lambda>c.
       Inr (map (\<lambda>f. (fr_id f, fr_name f, fr_status f)) (filter (\<lambda>f. (cn_id c, fr_id f) \<in> set (cd_links db)) (cd_files db))))"

definition attach_file :: "(string \<Rightarrow> string option) \<Rightarrow> string \<Rightarrow> string \<Rightarrow> int \<Rightarrow> chat_db \<Rightarrow> unit result \<times> chat_db" where
  "attach_file parse_uuid raw raw_file uid db =
     (case (parse_uuid raw, parse_uuid raw_file) of
        (Some cid, Some fid) \<Rightarrow>
          (case own_conv db uid cid of
             None \<Rightarrow> (Inl (HTTPException 404 ''Conversation not found''), db)
           | Some c \<Rightarrow>
               (case own_file db uid fid of
                  None \<Rightarrow> (Inl (HTTPException 404 ''File not found''), db)
                | Some f \<Rightarrow> (Inr (), if (cid, fid) \<in> set (cd_links db) then db else db\<lparr>cd_links := cd_links db @ [(cid, fid)]\<rparr>)))
      | _ \<Rightarrow> (Inl (HTTPException 400 ''Invalid id''), db))"

definition detach_file :: "(string \<Rightarrow> string option) \<Rightarrow> string \<Rightarrow> string \<Rightarrow> int \<Rightarrow> chat_db \<Rightarrow> unit result \<times> chat_db" where
  "detach_file parse_uuid raw raw_file uid db =
     (case (parse_uuid raw, parse_uuid raw_file) of
        (Some cid, Some fid) \<Rightarrow>
          (case own_conv db uid cid of
             None \<Rightarrow> (Inl (HTTPException 404 ''Not found''), db)
           | Some c \<Rightarrow> (Inr (), db\<lparr>cd_links := filter (\<lambda>l. l \<noteq> (cid, fid)) (cd_links db)\<rparr>))
      | _ \<Rightarrow> (Inl (HTTPException 404 ''Not found''), db))"

section \<open>Background work on a conversation\<close>

text \<open>A model called with a fixed instruction, given by its name, and a text: success and content, or an exception.\<close>

type_synonym chat_llm = "string \<Rightarrow> string \<Rightarrow> (bool \<times> string option) result"

definition content_of :: "string option \<Rightarrow> string" where
  "content_of c = strip (case c of Some x \<Rightarrow> x | None \<Rightarrow> [])"

text \<open>At most so many words, joined by single blanks when the text is longer.\<close>

definition limit_words :: "nat \<Rightarrow> string \<Rightarrow> string" where
  "limit_words n t = (if length (split_ws t) > n then join '' '' (take n (split_ws t)) else t)"

definition old_exchanges :: "chat_message list \<Rightarrow> string" where
  "old_exchanges ms = join_lines (map (\<lambda>m. mg_role m @ '': '' @ take 400 (mg_content m)) (take (length ms - 10) ms))"

definition compress_history :: "chat_llm \<Rightarrow> (chat_message list \<Rightarrow> chat_message list) \<Rightarrow> string \<Rightarrow> chat_db \<Rightarrow> chat_db" where
  "compress_history llm ord cid db =
     (let ms = oldest_first ord (messages_of db cid) in
      if length ms \<le> 10 then db
      else case llm ''_COMPRESS_SYSTEM'' (old_exchanges ms) of
        Inr (True, reply) \<Rightarrow> update_conv cid (\<lambda>c. c\<lparr>cn_summary := Some (limit_words 500 (content_of reply))\<rparr>) db
      | _ \<Rightarrow> db)"

definition title_prompt :: "string \<Rightarrow> string \<Rightarrow> string" where
  "title_prompt user_msg ai_msg =
     ''Summarize this exchange in 6 words or fewer:'' @ newline @ ''User: '' @ take 200 user_msg @ newline @ ''AI: '' @ take 200 ai_msg"

definition auto_title :: "chat_llm \<Rightarrow> string \<Rightarrow> string \<Rightarrow> string \<Rightarrow> chat_db \<Rightarrow> chat_db" where
  "auto_title llm cid user_msg ai_msg db =
     (case llm [] (title_prompt user_msg ai_msg) of
        Inl e \<Rightarrow> db
      | Inr (_, reply) \<Rightarrow>
          let title = strip_chars [CHR 0x27] (strip_chars [CHR 0x22] (content_of reply))
          in if title \<noteq> [] \<and> length title \<le> 80
             then update_conv cid (\<lambda>c. if cn_title c = strip (take 60 user_msg) then c\<lparr>cn_title := title\<rparr> else c) db
             else db)"

text \<open>
  The embedding of an exchange is tried again once after an exception; a missing embedding ends
  it. The value is the vector that \<^const>\<open>store_exchange\<close> is called with.
\<close>

fun embed_exchange_tries :: "(nat \<Rightarrow> string \<Rightarrow> real list option result) \<Rightarrow> string \<Rightarrow> nat list \<Rightarrow> real list option" where
  "embed_exchange_tries net exchange [] = None"
| "embed_exchange_tries net exchange (a # as) =
     (case net a exchange of
        Inr (Some (x # xs)) \<Rightarrow> Some (x # xs)
      | Inr _ \<Rightarrow> None
      | Inl _ \<Rightarrow> embed_exchange_tries net exchange as)"

definition embed_exchange :: "(nat \<Rightarrow> string \<Rightarrow> real list option result) \<Rightarrow> string \<Rightarrow> string \<Rightarrow> real list option" where
  "embed_exchange net user_text assistant_text =
     embed_exchange_tries net (take 300 user_text @ newline @ take 400 assistant_text) [0, 1]"

section \<open>Lemmas on the tables\<close>

lemma find_snoc: "List.find P (xs @ [y]) = (case List.find P xs of Some x \<Rightarrow> Some x | None \<Rightarrow> if P y then Some y else None)"
  by (induction xs) auto

lemma get_conv_add: "get_conv (add_conv c db) cid = (case get_conv db cid of Some x \<Rightarrow> Some x | None \<Rightarrow> if cn_id c = cid then Some c else None)"
  by (simp add: get_conv_def add_conv_def find_snoc)

lemma find_map_keep:
  "(\<And>x. P (g x) = P x) \<Longrightarrow> List.find P (map g xs) = map_option g (List.find P xs)"
  by (induction xs) auto

lemma get_conv_update:
  assumes "\<And>c. cn_id (f c) = cn_id c"
  shows "get_conv (update_conv cid f db) k = map_option (\<lambda>c. if cn_id c = cid then f c else c) (get_conv db k)"
  unfolding get_conv_def update_conv_def by (simp add: find_map_keep assms)

lemma get_conv_id: "get_conv db cid = Some c \<Longrightarrow> cn_id c = cid"
  unfolding get_conv_def by (induction "cd_convs db") (auto simp: find_Some_iff)

lemma get_conv_None: "get_conv db cid = None \<longleftrightarrow> cid \<notin> cn_id ` set (cd_convs db)"
  unfolding get_conv_def by (auto simp: find_None_iff)

lemma own_convD: "own_conv db uid cid = Some c \<Longrightarrow> get_conv db cid = Some c \<and> cn_user c = uid \<and> cn_id c = cid"
  by (auto simp: own_conv_def get_conv_id split: option.splits if_splits)

lemma change_work [simp]: "se_work (change f s) = f (se_work s)" "se_saved (change f s) = se_saved s" "se_count (change f s) = se_count s"
  and commit_work [simp]: "se_work (commit s) = se_work s" "se_saved (commit s) = se_work s" "se_count (commit s) = Suc (se_count s)"
  by (simp_all add: change_def commit_def)

lemma new_conversation_fields [simp]:
  "cn_id (new_conversation cid uid t now) = cid" "cn_user (new_conversation cid uid t now) = uid"
  "\<not> cn_archived (new_conversation cid uid t now)"
  by (simp_all add: new_conversation_def)

lemma successor_fields [simp]:
  "cn_id (successor cid c t) = cid" "cn_user (successor cid c t) = cn_user c" "\<not> cn_archived (successor cid c t)"
  "cn_title (successor cid c t) = cn_title c" "cn_system_prompt (successor cid c t) = cn_system_prompt c"
  "cn_locked_model (successor cid c t) = cn_locked_model c"
  by (simp_all add: successor_def) (simp_all add: new_conversation_def)

lemma keep_conv [simp]:
  "cd_messages (add_conv c db) = cd_messages db" "cd_messages (update_conv cid f db) = cd_messages db"
  "cd_links (add_conv c db) = cd_links db" "cd_links (update_conv cid f db) = cd_links db"
  by (simp_all add: add_conv_def update_conv_def)


section \<open>The conversation of a request\<close>

text \<open>
  C29. A request is answered within a conversation of its own user: whichever conversation it names,
  the one it is given belongs to the user and is not archived; when the one named was archived,
  now or before, the two are linked and the old one is archived from then on. No other
  conversation changes, and no message is touched.
\<close>

theorem request_stays_with_owner:
  assumes "resolve_conversation parse_uuid ord txn now fresh conversation_id message uid s = (Inr (c, rot), s')"
    and "get_conv (se_work s) fresh = None"
  shows "own_conv (se_work s') uid (cn_id c) = Some c \<and> \<not> cn_archived c
    \<and> cd_messages (se_work s') = cd_messages (se_work s)
    \<and> (case rot of
         None \<Rightarrow> True
       | Some (new, old) \<Rightarrow> new = cn_id c \<and> (\<exists>c0. own_conv (se_work s') uid old = Some c0 \<and> cn_archived c0))
    \<and> (\<forall>k. k \<noteq> cn_id c \<and> rot \<noteq> Some (cn_id c, k) \<longrightarrow> get_conv (se_work s') k = get_conv (se_work s) k)"
proof (cases "conversation_id = None \<or> conversation_id = Some []")
  case True
  with assms(1) have c: "c = new_conversation fresh uid (strip (take 60 message)) (txn (se_count s))" "rot = None"
    and s': "s' = change (add_conv c) s" by (auto simp: resolve_conversation_def Let_def)
  show ?thesis using assms(2) unfolding s' by (simp add: c own_conv_def get_conv_add split: option.split)
next
  case False
  then obtain x xs where cid: "conversation_id = Some (x # xs)" by (cases conversation_id) (auto simp: neq_Nil_conv)
  from assms(1) cid obtain k where k: "parse_uuid (x # xs) = Some k"
    by (auto simp: resolve_conversation_def split: option.splits)
  from assms(1) cid k obtain c0 where own: "own_conv (se_work s) uid k = Some c0"
    by (auto simp: resolve_conversation_def split: option.splits)
  then have c0: "get_conv (se_work s) k = Some c0" "cn_user c0 = uid" "cn_id c0 = k" by (auto dest: own_convD)
  from assms(2) c0(1) have fresh: "fresh \<noteq> k" by auto
  consider (archived) "cn_archived c0" | (kept) "\<not> cn_archived c0" "\<not> needs_rotation now c0 (messages_of (se_work s) k)"
    | (rotated) "\<not> cn_archived c0" "needs_rotation now c0 (messages_of (se_work s) k)" by blast
  then show ?thesis
  proof cases
    case archived
    let ?next = "successor fresh c0 (txn (se_count s))"
    from archived assms(1) cid k own c0 have c: "c = ?next" "rot = Some (fresh, k)" and s': "s' = commit (change (add_conv ?next) s)"
      by (auto simp: resolve_conversation_def Let_def)
    have "get_conv (se_work s') j = (if j = fresh then Some ?next else get_conv (se_work s) j)" for j
      unfolding s' using assms(2) by (simp add: get_conv_add split: option.split)
    then show ?thesis using c0 fresh archived by (auto simp: c own_conv_def s' split: option.split)
  next
    case kept
    with assms(1) cid k own c0 have "c = c0" "rot = None" "s' = s"
      by (auto simp: resolve_conversation_def check_rotation_def Let_def)
    with own c0 kept show ?thesis by simp
  next
    case rotated
    let ?next = "(successor fresh c0 (txn (se_count s)))\<lparr>cn_summary := Some (take 2000 (handoff ord c0 (messages_of (se_work s) k)))\<rparr>"
    from rotated assms(1) cid k own c0 have c: "c = ?next" "rot = Some (fresh, k)" and
      s': "s' = commit (change (\<lambda>db. add_conv ?next (update_conv k (\<lambda>c. c\<lparr>cn_archived := True, cn_archived_at := Some now\<rparr>) db)) s)"
      by (auto simp: resolve_conversation_def check_rotation_def Let_def)
    have "get_conv (se_work s') j = (if j = fresh then Some ?next
        else map_option (\<lambda>c. if cn_id c = k then c\<lparr>cn_archived := True, cn_archived_at := Some now\<rparr> else c) (get_conv (se_work s) j))" for j
      unfolding s' using assms(2) fresh by (simp add: get_conv_add get_conv_update split: option.split)
    moreover have "map_option (\<lambda>c. if cn_id c = k then c\<lparr>cn_archived := True, cn_archived_at := Some now\<rparr> else c) (get_conv (se_work s) j)
        = get_conv (se_work s) j" if "j \<noteq> k" for j
      using that by (cases "get_conv (se_work s) j") (auto dest: get_conv_id)
    moreover have "cd_messages (se_work s') = cd_messages (se_work s)" by (simp add: s')
    ultimately show ?thesis using c0 fresh by (auto simp: c own_conv_def split: option.split)
  qed
qed

definition sample_conv :: conversation where
  "sample_conv = (new_conversation ''c1'' 7 ''Trip'' 0)\<lparr>cn_summary := Some ''to Rome'', cn_locked_model := Some ''m''\<rparr>"

definition sample_message :: "string \<Rightarrow> string \<Rightarrow> real \<Rightarrow> chat_message" where
  "sample_message role text t =
     \<lparr>mg_id = role @ text, mg_conv = ''c1'', mg_role = role, mg_content = text, mg_model = None, mg_tokens = None, mg_cost = None,
      mg_trace = None, mg_meta = None, mg_created = t\<rparr>"

definition sample_db :: chat_db where
  "sample_db = \<lparr>cd_convs = [sample_conv], cd_messages = [sample_message ''user'' ''Hi'' 0], cd_files = [], cd_links = []\<rparr>"

theorem request_stays_with_owner_witness:
  "own_conv (se_work (snd (resolve_conversation Some id (\<lambda>_. 0) 400000 ''c2'' (Some ''c1'') ''On'' 7 (open_session sample_db)))) 7 ''c2''
   = Some ((successor ''c2'' sample_conv 0)\<lparr>cn_summary := Some (''Previous conversation summary:'' @ newline @ ''to Rome'' @ newline @ newline @ ''User: Hi'')\<rparr>)"
proof -
  have own: "own_conv (se_work (open_session sample_db)) 7 ''c1'' = Some sample_conv"
    by (simp add: open_session_def sample_db_def own_conv_def get_conv_def sample_conv_def)
  have msgs: "messages_of sample_db ''c1'' = [sample_message ''user'' ''Hi'' 0]"
    by (simp add: messages_of_def sample_db_def sample_message_def)
  have rot: "needs_rotation 400000 sample_conv [sample_message ''user'' ''Hi'' 0]"
    by (simp add: needs_rotation_def sample_conv_def new_conversation_def)
  have hand: "handoff id sample_conv [sample_message ''user'' ''Hi'' 0]
      = ''Previous conversation summary:'' @ newline @ ''to Rome'' @ newline @ newline @ ''User: Hi''"
    by (simp add: handoff_def newest_first_def set_order_def py_sort_key_def sample_conv_def sample_message_def)
  let ?next = "(successor ''c2'' sample_conv 0)\<lparr>cn_summary := Some (''Previous conversation summary:'' @ newline @ ''to Rome'' @ newline @ newline @ ''User: Hi'')\<rparr>"
  have id: "cn_id sample_conv = ''c1''" "\<not> cn_archived sample_conv" by (simp_all add: sample_conv_def)
  obtain s' where run: "resolve_conversation Some id (\<lambda>_. 0) 400000 ''c2'' (Some ''c1'') ''On'' 7 (open_session sample_db)
      = (Inr (?next, Some (''c2'', ''c1'')), s')"
    using own msgs rot id by (simp add: resolve_conversation_def check_rotation_def Let_def hand open_session_def)
  have "get_conv (se_work (open_session sample_db)) ''c2'' = None"
    by (simp add: open_session_def sample_db_def get_conv_def id)
  from request_stays_with_owner [OF run this] show ?thesis by (simp add: run)
qed

section \<open>Rotation and the summary\<close>

text \<open>
  The hand-over that starts the next conversation is cut to 2,000 characters, and the previous summary comes
  first: when that summary is long, the last messages, which the hand-over is there to carry, are
  not in it.
\<close>

theorem long_summary_hides_recent:
  assumes "cn_summary c = Some h" and "length h \<ge> 1969"
  shows "take 2000 (handoff ord c ms) = take 2000 (''Previous conversation summary:'' @ newline @ h)"
proof -
  from assms obtain x xs where h: "h = x # xs" by (cases h) auto
  have "\<exists>r. handoff ord c ms = (''Previous conversation summary:'' @ newline @ h) @ r"
    using assms(1) by (auto simp: handoff_def h join_Cons)
  with assms(2) show ?thesis by auto
qed

theorem long_summary_hides_recent_witness:
  "take 2000 (handoff id (sample_conv\<lparr>cn_summary := Some (replicate 1969 CHR ''x'')\<rparr>) [sample_message ''user'' ''Hi'' 0])
   = take 2000 (''Previous conversation summary:'' @ newline @ replicate 1969 CHR ''x'')"
  by (rule long_summary_hides_recent) simp_all

text \<open>
  The summary of a history does not build on the one before: whatever the conversation carried as its summary,
  such as the hand-over of the conversation it continues, the compression replaces it by a
  summary of its own old messages.
\<close>

theorem compression_forgets_summary:
  assumes "length (messages_of db cid) > 10"
    and "llm ''_COMPRESS_SYSTEM'' (old_exchanges (oldest_first ord (messages_of db cid))) = Inr (True, reply)"
  shows "compress_history llm ord cid (update_conv cid (\<lambda>c. c\<lparr>cn_summary := v\<rparr>) db) = compress_history llm ord cid db"
proof -
  have ms: "messages_of (update_conv cid f db) cid = messages_of db cid" for f by (simp add: messages_of_def)
  have "length (oldest_first ord (messages_of db cid)) > 10" using assms(1) by (simp add: oldest_first_def)
  then show ?thesis using assms(2) unfolding compress_history_def Let_def ms
    by (simp add: update_conv_def comp_def cong: if_cong)
qed

definition long_db :: chat_db where
  "long_db = sample_db\<lparr>cd_messages := replicate 11 (sample_message ''user'' ''Hi'' 0)\<rparr>"

theorem compression_forgets_summary_witness:
  "compress_history (\<lambda>_ _. Inr (True, Some ''greetings'')) id ''c1'' (update_conv ''c1'' (\<lambda>c. c\<lparr>cn_summary := None\<rparr>) long_db)
   = compress_history (\<lambda>_ _. Inr (True, Some ''greetings'')) id ''c1'' long_db"
  by (rule compression_forgets_summary) (simp_all add: messages_of_def long_db_def sample_message_def)

section \<open>Provenance\<close>

lemma provenance_of_chunks: "set (map pv_chunk (provenance_of seen hs)) = chunk_id ` set hs - insert [] (set seen)"
  by (induction seen hs rule: provenance_of.induct) auto

lemma provenance_of_distinct: "distinct (map pv_chunk (provenance_of seen hs))"
proof (induction seen hs rule: provenance_of.induct)
  case (2 seen h hs)
  then show ?case using provenance_of_chunks [of "chunk_id h # seen" hs] by auto
qed simp

lemma provenance_of_dense:
  "p \<in> set (provenance_of seen hs) \<Longrightarrow> \<exists>h \<in> set hs. pv_dense p = dense_score h"
  by (induction seen hs rule: provenance_of.induct) (auto split: if_splits)

lemma mean_bounds:
  fixes f :: "'a \<Rightarrow> real"
  assumes "xs \<noteq> []" and "\<And>x. x \<in> set xs \<Longrightarrow> 0 \<le> f x \<and> f x \<le> 1"
  shows "0 \<le> sum_list (map f xs) / of_nat (length xs) \<and> sum_list (map f xs) / of_nat (length xs) \<le> 1"
proof -
  have "0 \<le> sum_list (map f xs) \<and> sum_list (map f xs) \<le> of_nat (length xs)"
    using assms(2) by (induction xs) fastforce+
  with assms(1) show ?thesis by simp
qed

lemma percent_bounds:
  fixes a b :: real
  assumes "0 \<le> a" "a \<le> 1" "0 \<le> b" "b \<le> 1"
  shows "0 \<le> 100 * (7 / 10 * a + 3 / 10 * b) \<and> 100 * (7 / 10 * a + 3 / 10 * b) \<le> 100"
  using assms by simp

lemma round_half_even_le: "x \<le> of_int n \<Longrightarrow> round_half_even x \<le> n"
  unfolding round_half_even_def Let_def by (auto simp: floor_le_iff) (linarith+)?

lemma round_half_even_ge: "of_int n \<le> x \<Longrightarrow> n \<le> round_half_even x"
  unfolding round_half_even_def Let_def by (auto simp: le_floor_iff) (linarith+)?

lemma round_percent:
  assumes "0 \<le> a" "a \<le> 1" "0 \<le> b" "b \<le> 1"
  shows "0 \<le> round_half_even (100 * (7 / 10 * a + 3 / 10 * b)) \<and> round_half_even (100 * (7 / 10 * a + 3 / 10 * b)) \<le> 100"
  using percent_bounds [OF assms] round_half_even_le [of _ 100] round_half_even_ge [of 0] by simp

text \<open>
  The grounding of a reply is honest about its sources: every retrieved chunk with an identifier is named
  once; without chunks the level is \<^verbatim>\<open>none\<close>, otherwise the score of similarities between 0 and 1 is between 0 and 100
  and no more sources are shown than were asked for.
\<close>

theorem grounding_bounds:
  assumes "prov = build_provenance retrieved file_chunks" and "\<forall>h \<in> set (retrieved @ file_chunks). 0 \<le> dense_score h \<and> dense_score h \<le> 1"
  shows "distinct (map pv_chunk prov) \<and> set (map pv_chunk prov) = chunk_id ` set (retrieved @ file_chunks) - {[]}
    \<and> (case gr_score (compute_grounding prov k) of
         None \<Rightarrow> prov = [] \<and> gr_level (compute_grounding prov k) = ''none''
       | Some score \<Rightarrow> prov \<noteq> [] \<and> 0 \<le> score \<and> score \<le> 100)
    \<and> length (gr_sources (compute_grounding prov k)) = min (max k 1) (length prov)"
proof -
  let ?best = "take (max k 1) (py_sort_key (\<lambda>p. - pv_dense p) prov)"
  let ?avg = "sum_list (map pv_dense ?best) / of_nat (length ?best)"
  let ?cov = "min (of_nat (length prov) / of_nat (max k 1)) (1 :: real)"
  have dense: "0 \<le> pv_dense p \<and> pv_dense p \<le> 1" if "p \<in> set prov" for p
    using provenance_of_dense [of p "[]" "retrieved @ file_chunks"] assms that by (auto simp: build_provenance_def)
  have best: "set ?best \<subseteq> set prov" by (metis set_py_sort_key set_take_subset)
  have avg: "0 \<le> ?avg \<and> ?avg \<le> 1" if "prov \<noteq> []"
  proof (rule mean_bounds)
    show "?best \<noteq> []" using that by (metis length_0_conv length_py_sort_key max.cobounded2 not_one_le_zero take_eq_Nil)
    show "0 \<le> pv_dense p \<and> pv_dense p \<le> 1" if "p \<in> set ?best" for p using that best dense by blast
  qed
  have cov: "0 \<le> ?cov" "?cov \<le> 1" by (auto intro!: min.boundedI divide_nonneg_nonneg)
  have score: "0 \<le> round_half_even (100 * (7 / 10 * ?avg + 3 / 10 * ?cov)) \<and> round_half_even (100 * (7 / 10 * ?avg + 3 / 10 * ?cov)) \<le> 100"
    if "prov \<noteq> []"
    by (rule round_percent [OF conjunct1 [OF avg [OF that]] conjunct2 [OF avg [OF that]] cov])
  have "distinct (map pv_chunk prov) \<and> set (map pv_chunk prov) = chunk_id ` set (retrieved @ file_chunks) - {[]}"
    using provenance_of_chunks [of "[]"] provenance_of_distinct [of "[]"] by (simp add: assms(1) build_provenance_def)
  moreover have "length (gr_sources (compute_grounding prov k)) = min (max k 1) (length prov)"
    by (simp add: compute_grounding_def Let_def min.commute)
  moreover have "case gr_score (compute_grounding prov k) of None \<Rightarrow> prov = [] \<and> gr_level (compute_grounding prov k) = ''none''
      | Some score \<Rightarrow> prov \<noteq> [] \<and> 0 \<le> score \<and> score \<le> 100"
    using score by (cases "prov = []") (simp_all add: compute_grounding_def Let_def)
  ultimately show ?thesis by blast
qed

theorem grounding_bounds_witness:
  "gr_score (compute_grounding (build_provenance [\<lparr>chunk_id = ''h'', source_id = None, content = ''x'', dense_score = 1, sparse_score = 0,
      final_score = 1, retrieval_type = ''vector''\<rparr>] []) 1) = Some 100
   \<and> length (gr_sources (compute_grounding (build_provenance [\<lparr>chunk_id = ''h'', source_id = None, content = ''x'', dense_score = 1,
      sparse_score = 0, final_score = 1, retrieval_type = ''vector''\<rparr>] []) 1)) = 1"
  using grounding_bounds [OF refl, of "[\<lparr>chunk_id = ''h'', source_id = None, content = ''x'', dense_score = 1, sparse_score = 0,
      final_score = 1, retrieval_type = ''vector''\<rparr>]" "[]" 1]
  by (simp add: build_provenance_def compute_grounding_def round_half_even_def py_sort_key_def Let_def)

section \<open>Endpoints\<close>

lemma strip_subset: "set (strip s) \<subseteq> set s"
proof -
  have "set (rstrip t) \<subseteq> set t" for t unfolding rstrip_def by (auto dest: set_dropWhileD)
  moreover have "set (lstrip s) \<subseteq> set s" unfolding lstrip_def by (auto dest: set_dropWhileD)
  ultimately show ?thesis unfolding strip_def by blast
qed

text \<open>
  The name in the download header cannot break out of it: whatever the title of the conversation, the file name
  holds no quote, no backslash and no control character, and is not empty.
\<close>

theorem export_filename_safe:
  "CHR 0x22 \<notin> set (safe_filename title ''md'') \<and> CHR 0x5C \<notin> set (safe_filename title ''md'')
   \<and> list_all (\<lambda>ch. code ch > 31) (safe_filename title ''md'') \<and> length (safe_filename title ''md'') \<le> 43
   \<and> safe_filename title ''md'' \<noteq> ''.md''"
proof -
  let ?f = "filter (\<lambda>ch. ch \<noteq> CHR 0x22 \<and> ch \<noteq> CHR 0x5C \<and> \<not> code ch \<le> 31) title"
  have sub: "set (strip (take 40 ?f)) \<subseteq> {ch. ch \<noteq> CHR 0x22 \<and> ch \<noteq> CHR 0x5C \<and> code ch > 31}"
    using strip_subset [of "take 40 ?f"] set_take_subset [of 40 ?f] by force
  have len: "length (strip (take 40 ?f)) \<le> 40"
    using length_strip_le [of "take 40 ?f"] by simp
  define safe where "safe = (if strip (take 40 ?f) = [] then ''conversation'' else strip (take 40 ?f))"
  have name: "safe_filename title ''md'' = safe @ ''.md''" by (simp add: safe_filename_def Let_def safe_def)
  have "set safe \<subseteq> {ch. ch \<noteq> CHR 0x22 \<and> ch \<noteq> CHR 0x5C \<and> code ch > 31}"
    using sub by (simp add: safe_def code_def)
  moreover have "length safe \<le> 40" "safe \<noteq> []" using len by (simp_all add: safe_def)
  ultimately show ?thesis unfolding name by (auto simp: list_all_iff code_def)
qed

text \<open>A lock that has just been set names a model that can be routed to.\<close>

lemma resolved_is_routable: "resolve_model cfg cat n = Some (x # xs) \<Longrightarrow> resolve_model cfg cat (Some (x # xs)) \<noteq> None"
  by (auto simp: resolve_model_def dget_def split: option.splits if_splits intro!: image_eqI dest!: map_of_SomeD)

lemma patched_lock_available:
  assumes "fst (patch_conversation cfg cat parse_uuid raw uid system_prompt (Some v) db) = Inr c"
  shows "lock_available cfg cat c \<noteq> Some False"
proof -
  from assms obtain c1 where lock: "apply_locked_model cfg cat v c1 = Inr c"
    by (auto simp: patch_conversation_def Let_def split: sum.splits)
  then show ?thesis
    by (auto simp: apply_locked_model_def Let_def resolve_model_strict_def bindR_def lock_available_def
        split: if_splits option.splits list.splits dest!: resolved_is_routable)
qed

end
