(* ===== verification/Memory_Sheet.thy ===== *)
theory Memory_Sheet
  imports Chat_Store
begin

text \<open>
  The long-term memory of a user: one sheet of facts with a salience, its snapshots and the
  conflicts found in it (\<^verbatim>\<open>backend/llm/summarizer/\<close>, \<^verbatim>\<open>backend/api/memory.py\<close>, the restore and the
  reset of \<^verbatim>\<open>backend/api/admin/memory.py\<close>, and the part of \<^verbatim>\<open>backend/api/chat/helpers.py\<close> that loads the sheet
  for a turn). The tables are an explicit state; the model that is called, the JSON reader and the
  template of \<^verbatim>\<open>re.sub\<close> for a replacement with backslashes are arguments, as are clocks. A job that fails leaves the tables as
  they were: its session is dropped. Every operation is first given as if nothing ran beside it. In the machine, a session
  first reads the row of the sheet and later writes what the operation makes of the row it read, with any other steps in between; only the two endpoints that
  read the row for update are one step.
\<close>

section \<open>Salience\<close>

definition round4 :: "real \<Rightarrow> real" where
  "round4 x = of_int (round_half_even (x * 10000)) / 10000"

definition compute_salience :: "real \<Rightarrow> nat \<Rightarrow> real \<Rightarrow> real \<Rightarrow> real" where
  "compute_salience base_salience access_count age_days emphasis =
     (let access_boost = 1 + of_nat (min access_count 10) * (1 / 10);
          age_decay = exp (- (5 / 100) * age_days)
      in round4 (min (max (base_salience * access_boost * age_decay * emphasis) 0) 2))"

definition decay_salience :: "real \<Rightarrow> nat \<Rightarrow> real" where
  "decay_salience salience cycles = round4 (max (((\<lambda>x. x * (95 / 100)) ^^ cycles) salience) 0)"

definition score_facts :: "string \<Rightarrow> (string \<times> real) list \<Rightarrow> (string \<times> real) list" where
  "score_facts content_text fact_saliences =
     py_sort_key (\<lambda>x. - snd x)
       (map (\<lambda>l. (l, case dget fact_saliences (strip l) of Some v \<Rightarrow> v | None \<Rightarrow> 1))
          (filter (\<lambda>l. strip l \<noteq> []) (split_lines content_text)))"

definition bump_fact :: "string \<Rightarrow> (string \<times> real) list \<Rightarrow> (string \<times> real) list" where
  "bump_fact f result =
     (let key = strip f in
      if key = [] then result
      else dset result key (compute_salience (case dget result key of Some v \<Rightarrow> v | None \<Rightarrow> 1) 1 0 1))"

definition bump_fact_saliences :: "string list \<Rightarrow> (string \<times> real) list \<Rightarrow> (string \<times> real) list" where
  "bump_fact_saliences facts fact_saliences = fold bump_fact facts fact_saliences"

definition decay_fact_saliences :: "(string \<times> real) list \<Rightarrow> (string \<times> real) list" where
  "decay_fact_saliences fact_saliences =
     filter (\<lambda>p. snd p \<ge> 5 / 100) (map (\<lambda>(key, v). (key, decay_salience v 1)) fact_saliences)"

section \<open>Tables\<close>

record memory_row =
  um_content :: string
  um_project :: "string option"
  um_version :: int
  um_salience :: real
  um_confidence :: real
  um_fact_saliences :: "(string \<times> real) list"
  um_last_used :: "real option"
  um_updated :: real
  um_last_summarized :: "real option"

record memory_version =
  mv_user :: int
  mv_version :: int
  mv_content :: string
  mv_project :: string

record conflict_row =
  mc_id :: string
  mc_user :: int
  mc_fact_a :: string
  mc_fact_b :: string
  mc_type :: string
  mc_resolution :: string
  mc_resolved_at :: "real option"
  mc_expires_at :: "real option"

record memory_db =
  md_rows :: "(int \<times> memory_row) list"
  md_versions :: "memory_version list"
  md_conflicts :: "conflict_row list"

definition sheet_of :: "memory_db \<Rightarrow> int \<Rightarrow> memory_row option" where
  "sheet_of md uid = dget (md_rows md) uid"

definition put_sheet :: "int \<Rightarrow> memory_row \<Rightarrow> memory_db \<Rightarrow> memory_db" where
  "put_sheet uid r md = md\<lparr>md_rows := dset (md_rows md) uid r\<rparr>"

definition or_nil :: "string option \<Rightarrow> string" where
  "or_nil v = (case v of Some x \<Rightarrow> x | None \<Rightarrow> [])"

definition keep_version :: "int \<Rightarrow> memory_row \<Rightarrow> memory_db \<Rightarrow> memory_db" where
  "keep_version uid r md =
     md\<lparr>md_versions := md_versions md @
          [\<lparr>mv_user = uid, mv_version = um_version r, mv_content = um_content r, mv_project = or_nil (um_project r)\<rparr>]\<rparr>"

definition new_sheet :: "string \<Rightarrow> int \<Rightarrow> real \<Rightarrow> memory_row" where
  "new_sheet text version now =
     \<lparr>um_content = text, um_project = None, um_version = version, um_salience = 1, um_confidence = 1, um_fact_saliences = [],
      um_last_used = None, um_updated = now, um_last_summarized = None\<rparr>"

section \<open>Loading the sheet for a turn\<close>

definition ranking_saliences :: "real \<Rightarrow> memory_row \<Rightarrow> (string \<times> real) list" where
  "ranking_saliences now r =
     (case um_last_summarized r of
        None \<Rightarrow> um_fact_saliences r
      | Some t \<Rightarrow>
          let time_decay = (95 / 100) powr (max 0 ((now - t) / 3600) / 24)
          in if time_decay < 999 / 1000 then map (\<lambda>(k, v). (k, round4 (v * time_decay))) (um_fact_saliences r)
             else um_fact_saliences r)"

definition loaded_facts :: "real \<Rightarrow> memory_row \<Rightarrow> string list" where
  "loaded_facts now r = take 20 (map fst (score_facts (um_content r) (ranking_saliences now r)))"

definition touch_sheet :: "real \<Rightarrow> memory_row \<Rightarrow> memory_row" where
  "touch_sheet now r =
     r\<lparr>um_salience := compute_salience (um_salience r) 1 0 1, um_last_used := Some now,
       um_fact_saliences := bump_fact_saliences (loaded_facts now r) (um_fact_saliences r)\<rparr>"

text \<open>The sheet and the project summary a turn sees, and the sheet the turn leaves.\<close>

definition load_memory :: "real \<Rightarrow> memory_row option \<Rightarrow> string \<times> string \<times> memory_row option" where
  "load_memory now row =
     (case row of
        None \<Rightarrow> ([], [], None)
      | Some r \<Rightarrow> (join_lines (loaded_facts now r), or_nil (um_project r), Some (touch_sheet now r)))"

section \<open>Conflicts between facts\<close>

fun fact_pairs :: "string list \<Rightarrow> (string \<times> string) list" where
  "fact_pairs [] = []"
| "fact_pairs (f # fs) = map (Pair f) fs @ fact_pairs fs"

definition conflict_prompt :: "string \<Rightarrow> string \<Rightarrow> string" where
  "conflict_prompt fact_a fact_b = ''Fact A: '' @ fact_a @ newline @ ''Fact B: '' @ fact_b"

definition verdict :: "(string \<Rightarrow> pyval option) \<Rightarrow> string option \<Rightarrow> pyval" where
  "verdict loads reply =
     (case loads (content_of reply) of
        Some (PDict d) \<Rightarrow> (case dget d ''conflict_type'' of Some v \<Rightarrow> v | None \<Rightarrow> PStr ''none'')
      | _ \<Rightarrow> PStr ''none'')"

fun judge_pairs :: "chat_llm \<Rightarrow> (string \<Rightarrow> pyval option) \<Rightarrow> (string \<times> string) list \<Rightarrow> (string \<times> string \<times> pyval) list result" where
  "judge_pairs llm loads [] = Inr []"
| "judge_pairs llm loads ((a, b) # ps) =
     (case llm ''_SYSTEM'' (conflict_prompt a b) of
        Inl e \<Rightarrow> Inl e
      | Inr (ok, reply) \<Rightarrow>
          bindR (judge_pairs llm loads ps) (\<lambda>rest.
            Inr (if ok \<and> verdict loads reply \<noteq> PStr ''none'' then (a, b, verdict loads reply) # rest else rest)))"

definition facts_of :: "string \<Rightarrow> string list" where
  "facts_of text = filter (\<lambda>l. l \<noteq> []) (map strip (split_lines text))"

definition detect_conflicts :: "chat_llm \<Rightarrow> (string \<Rightarrow> pyval option) \<Rightarrow> string \<Rightarrow> (string \<times> string \<times> pyval) list result" where
  "detect_conflicts llm loads text =
     (if length (facts_of text) < 2 then Inr [] else judge_pairs llm loads (fact_pairs (facts_of text)))"

text \<open>The column of the type holds a text of at most 32 characters; anything else makes the insertion fail.\<close>

fun conflict_rows :: "(nat \<Rightarrow> string) \<Rightarrow> int \<Rightarrow> real option \<Rightarrow> (string \<times> string \<times> pyval) list \<Rightarrow> conflict_row list option" where
  "conflict_rows ids uid expires [] = Some []"
| "conflict_rows ids uid expires ((a, b, ct) # cs) =
     (case ct of
        PStr t \<Rightarrow>
          if length t \<le> 32 then
            map_option ((#) \<lparr>mc_id = ids (length cs), mc_user = uid, mc_fact_a = a, mc_fact_b = b, mc_type = t,
                             mc_resolution = ''unresolved'', mc_resolved_at = None, mc_expires_at = expires\<rparr>)
              (conflict_rows ids uid expires cs)
          else None
      | _ \<Rightarrow> None)"

definition add_conflicts :: "conflict_row list \<Rightarrow> memory_db \<Rightarrow> memory_db" where
  "add_conflicts rows md = md\<lparr>md_conflicts := md_conflicts md @ rows\<rparr>"

definition scan_conflicts :: "chat_llm \<Rightarrow> (string \<Rightarrow> pyval option) \<Rightarrow> (nat \<Rightarrow> string) \<Rightarrow> real \<Rightarrow> int \<Rightarrow> memory_db \<Rightarrow> nat result \<times> memory_db" where
  "scan_conflicts llm loads ids now uid md =
     (case sheet_of md uid of
        None \<Rightarrow> (Inr 0, md)
      | Some r \<Rightarrow>
          if um_content r = [] then (Inr 0, md)
          else case detect_conflicts llm loads (um_content r) of
            Inl e \<Rightarrow> (Inl e, md)
          | Inr cs \<Rightarrow>
              (case conflict_rows ids uid (Some (now + 7 * 86400)) cs of
                 None \<Rightarrow> (Inl OtherError, md)
               | Some rows \<Rightarrow> (Inr (length cs), add_conflicts rows md)))"

definition keep_lines :: "(string \<Rightarrow> bool) \<Rightarrow> string \<Rightarrow> string list" where
  "keep_lines keep text = filter (\<lambda>l. strip l \<noteq> [] \<and> keep (strip l)) (split_lines text)"

definition resolved_content :: "string \<Rightarrow> conflict_row \<Rightarrow> string \<Rightarrow> string" where
  "resolved_content strategy c text =
     (let a = mc_fact_a c; b = mc_fact_b c in
      join_lines
        (if strategy = ''keep_a'' then keep_lines (\<lambda>l. l \<noteq> b) text
         else if strategy = ''keep_b'' then keep_lines (\<lambda>l. l \<noteq> a) text
         else if strategy = ''discard_both'' then keep_lines (\<lambda>l. l \<noteq> a \<and> l \<noteq> b) text
         else keep_lines (\<lambda>l. l \<noteq> a \<and> l \<noteq> b) text @ [a @ '' / '' @ b]))"

definition resolve_conflict :: "real \<Rightarrow> conflict_row \<Rightarrow> string \<Rightarrow> memory_db \<Rightarrow> memory_db" where
  "resolve_conflict now c strategy md =
     (let md1 = md\<lparr>md_conflicts := map (\<lambda>x. if mc_id x = mc_id c then x\<lparr>mc_resolution := strategy, mc_resolved_at := Some now\<rparr> else x)
                                     (md_conflicts md)\<rparr>
      in if strategy \<notin> {''keep_a'', ''keep_b'', ''merge'', ''discard_both''} then md1
         else case sheet_of md (mc_user c) of
           None \<Rightarrow> md1
         | Some r \<Rightarrow> put_sheet (mc_user c) (r\<lparr>um_content := resolved_content strategy c (um_content r), um_version := um_version r + 1,
                                             um_updated := now\<rparr>) md1)"

definition resolve_conflict_endpoint :: "(string \<Rightarrow> string option) \<Rightarrow> real \<Rightarrow> string \<Rightarrow> string \<Rightarrow> int \<Rightarrow> memory_db \<Rightarrow> string result \<times> memory_db" where
  "resolve_conflict_endpoint parse_uuid now raw strategy uid md =
     (case parse_uuid raw of
        None \<Rightarrow> (Inl (HTTPException 400 ''Invalid conflict_id''), md)
      | Some cid \<Rightarrow>
          (case List.find (\<lambda>c. mc_id c = cid) (md_conflicts md) of
             None \<Rightarrow> (Inl (HTTPException 404 ''Conflict not found''), md)
           | Some c \<Rightarrow>
               if mc_user c \<noteq> uid then (Inl (HTTPException 404 ''Conflict not found''), md)
               else if strategy \<notin> {''keep_a'', ''keep_b'', ''merge'', ''discard_both''}
               then (Inl (HTTPException 400 ''strategy must be one of the four''), md)
               else (Inr strategy, resolve_conflict now c strategy md)))"

text \<open>Conflicts whose time has passed are settled for the first fact when a turn meets them.\<close>

definition expired :: "real \<Rightarrow> conflict_row \<Rightarrow> bool" where
  "expired now c = (case mc_expires_at c of Some t \<Rightarrow> t \<le> now | None \<Rightarrow> False)"

definition active_conflicts :: "real \<Rightarrow> int \<Rightarrow> memory_db \<Rightarrow> conflict_row list" where
  "active_conflicts now uid md =
     filter (\<lambda>c. mc_user c = uid \<and> mc_resolution c = ''unresolved'' \<and> \<not> expired now c) (md_conflicts md)"

definition settle_expired :: "real \<Rightarrow> int \<Rightarrow> memory_db \<Rightarrow> memory_db" where
  "settle_expired now uid md =
     md\<lparr>md_conflicts := map (\<lambda>c. if mc_user c = uid \<and> mc_resolution c = ''unresolved'' \<and> expired now c
                                 then c\<lparr>mc_resolution := ''keep_a'', mc_resolved_at := Some now\<rparr> else c) (md_conflicts md)\<rparr>"

section \<open>The summary of new messages\<close>

definition NO_UPDATE :: string where
  "NO_UPDATE = ''NO_UPDATE''"

text \<open>The sheet a model replies with: nothing when it failed, is empty or says that nothing is new.\<close>

definition sheet_reply :: "nat \<Rightarrow> (bool \<times> string option) result \<Rightarrow> string option" where
  "sheet_reply n reply =
     (case reply of
        Inr (True, c) \<Rightarrow> (if content_of c = [] \<or> content_of c = NO_UPDATE then None else Some (limit_words n (content_of c)))
      | _ \<Rightarrow> None)"

definition or_empty_mark :: "string \<Rightarrow> string" where
  "or_empty_mark t = (if t = [] then ''(empty)'' else t)"

definition new_messages :: "(chat_message list \<Rightarrow> chat_message list) \<Rightarrow> memory_row option \<Rightarrow> string \<Rightarrow> chat_db \<Rightarrow> chat_message list" where
  "new_messages ord row cid db =
     filter (\<lambda>m. case row of Some r \<Rightarrow> (case um_last_summarized r of Some t \<Rightarrow> mg_created m > t | None \<Rightarrow> True) | None \<Rightarrow> True)
       (oldest_first ord (messages_of db cid))"

definition update_prompt :: "memory_row option \<Rightarrow> chat_message list \<Rightarrow> string" where
  "update_prompt row ms =
     ''Current memory sheet:'' @ newline @ or_empty_mark (case row of Some r \<Rightarrow> um_content r | None \<Rightarrow> []) @ newline @ newline
     @ ''New exchanges to process:'' @ newline
     @ join_lines (map (\<lambda>m. capitalize (mg_role m) @ '': '' @ take 400 (mg_content m)) ms) @ newline @ newline
     @ ''Update the memory sheet. Reply with the full updated sheet or '' @ NO_UPDATE @ ''.''"

text \<open>The sheet the summary asks to write, if any, from the sheet and the messages it read.\<close>

definition summarize :: "chat_llm \<Rightarrow> (chat_message list \<Rightarrow> chat_message list) \<Rightarrow> memory_row option \<Rightarrow> string \<Rightarrow> chat_db \<Rightarrow> string option" where
  "summarize llm ord row cid db =
     (let ms = new_messages ord row cid db in
      if ms = [] then None else sheet_reply 500 (llm ''_MEMORY_SYSTEM'' (update_prompt row ms)))"

definition update_memory :: "chat_llm \<Rightarrow> (chat_message list \<Rightarrow> chat_message list) \<Rightarrow> bool \<Rightarrow> real \<Rightarrow> int \<Rightarrow> string \<Rightarrow> chat_db \<Rightarrow> memory_db \<Rightarrow> memory_db" where
  "update_memory llm ord locked now uid cid db md =
     (if \<not> locked then md
      else case summarize llm ord (sheet_of md uid) cid db of
        None \<Rightarrow> md
      | Some updated \<Rightarrow>
          (case sheet_of md uid of
             Some r \<Rightarrow> put_sheet uid (r\<lparr>um_content := updated, um_version := um_version r + 1, um_updated := now, um_last_summarized := Some now\<rparr>)
                         (keep_version uid r md)
           | None \<Rightarrow> put_sheet uid ((new_sheet updated 1 now)\<lparr>um_last_summarized := Some now\<rparr>) md))"

section \<open>Rewriting the sheet\<close>

definition restructure_prompt :: "string \<Rightarrow> string" where
  "restructure_prompt current =
     ''Memory content to restructure:'' @ newline @ current @ newline @ newline
     @ ''Convert into proper key:value format under the correct headers. Deduplicate. Preserve all information. Reply with the full restructured sheet or ''
     @ NO_UPDATE @ ''.''"

definition restructure_memory :: "chat_llm \<Rightarrow> bool \<Rightarrow> real \<Rightarrow> int \<Rightarrow> memory_db \<Rightarrow> memory_db" where
  "restructure_memory llm locked now uid md =
     (case sheet_of md uid of
        None \<Rightarrow> md
      | Some r \<Rightarrow>
          if \<not> locked \<or> um_content r = [] then md
          else case sheet_reply 500 (llm ''_MEMORY_SYSTEM'' (restructure_prompt (strip (um_content r)))) of
            None \<Rightarrow> md
          | Some updated \<Rightarrow>
              put_sheet uid (r\<lparr>um_content := updated, um_version := um_version r + 1, um_updated := now\<rparr>) (keep_version uid r md))"

definition compact_prompt :: "string \<Rightarrow> string" where
  "compact_prompt current =
     ''Current memory sheet:'' @ newline @ current @ newline @ newline
     @ ''Compact this sheet. Remove stale, duplicate, and low-value information.'' @ newline
     @ ''Keep high-salience facts only. Output the full compacted sheet or '' @ NO_UPDATE @ ''.''"

definition cleared_sheet :: "real \<Rightarrow> memory_row \<Rightarrow> memory_row" where
  "cleared_sheet now r =
     r\<lparr>um_content := [], um_project := Some [], um_version := um_version r + 1, um_salience := 0, um_confidence := 0,
       um_fact_saliences := [], um_updated := now\<rparr>"

definition compacted_sheet :: "real \<Rightarrow> string \<Rightarrow> memory_row \<Rightarrow> memory_row" where
  "compacted_sheet now updated r =
     r\<lparr>um_content := updated, um_version := um_version r + 1, um_salience := min (um_salience r + 1 / 10) 2,
       um_confidence := min (um_confidence r + 5 / 100) 1, um_updated := now\<rparr>"

definition compact_memory :: "chat_llm \<Rightarrow> (string \<Rightarrow> pyval option) \<Rightarrow> (nat \<Rightarrow> string) \<Rightarrow> bool \<Rightarrow> real \<Rightarrow> int \<Rightarrow> memory_db \<Rightarrow> memory_db" where
  "compact_memory llm loads ids locked now uid md =
     (case sheet_of md uid of
        None \<Rightarrow> md
      | Some r \<Rightarrow>
          let current = strip (um_content r);
              r1 = r\<lparr>um_salience := decay_salience (um_salience r) 1, um_fact_saliences := decay_fact_saliences (um_fact_saliences r)\<rparr>
          in if \<not> locked \<or> um_content r = [] \<or> length (split_ws current) < 100 then md
             else if um_salience r1 < 3 / 10 then put_sheet uid (cleared_sheet now r1) (keep_version uid r md)
             else case sheet_reply 500 (llm ''_COMPACT_SYSTEM'' (compact_prompt current)) of
               None \<Rightarrow> md
             | Some updated \<Rightarrow>
                 (case detect_conflicts llm loads updated of
                    Inl e \<Rightarrow> md
                  | Inr cs \<Rightarrow>
                      (case conflict_rows ids uid None cs of
                         None \<Rightarrow> md
                       | Some rows \<Rightarrow> add_conflicts rows (put_sheet uid (compacted_sheet now updated r1) (keep_version uid r md)))))"

section \<open>The project summary\<close>

definition project_inputs :: "(conversation list \<Rightarrow> conversation list) \<Rightarrow> int \<Rightarrow> chat_db \<Rightarrow> conversation list" where
  "project_inputs ord uid db =
     take 5 (py_sort_key (\<lambda>c. - cn_updated c) (set_order ord (filter (\<lambda>c. cn_user c = uid \<and> cn_summary c \<noteq> None) (cd_convs db))))"

definition project_summaries :: "conversation list \<Rightarrow> string" where
  "project_summaries cs =
     join (newline @ newline) (map (\<lambda>c. ''['' @ cn_title c @ '']'' @ newline @ or_nil (cn_summary c))
       (filter (\<lambda>c. or_nil (cn_summary c) \<noteq> []) cs))"

definition project_prompt :: "string \<Rightarrow> string \<Rightarrow> string" where
  "project_prompt current summaries =
     ''Current project state:'' @ newline @ or_empty_mark current @ newline @ newline
     @ ''Recent conversation summaries:'' @ newline @ summaries @ newline @ newline
     @ ''Update the project state. Reply with the full updated state or '' @ NO_UPDATE @ ''.''"

definition update_project_summary :: "chat_llm \<Rightarrow> (conversation list \<Rightarrow> conversation list) \<Rightarrow> bool \<Rightarrow> real \<Rightarrow> int \<Rightarrow> chat_db \<Rightarrow> memory_db \<Rightarrow> memory_db" where
  "update_project_summary llm ord locked now uid db md =
     (let summaries = project_summaries (project_inputs ord uid db);
          row = sheet_of md uid
      in if \<not> locked \<or> strip summaries = [] then md
         else case sheet_reply 300 (llm ''_PROJECT_SYSTEM'' (project_prompt (case row of Some r \<Rightarrow> or_nil (um_project r) | None \<Rightarrow> []) summaries)) of
           None \<Rightarrow> md
         | Some updated \<Rightarrow>
             (case row of
                Some r \<Rightarrow> put_sheet uid (r\<lparr>um_project := Some updated, um_version := um_version r + 1, um_updated := now\<rparr>) (keep_version uid r md)
              | None \<Rightarrow> put_sheet uid ((new_sheet [] 1 now)\<lparr>um_project := Some updated\<rparr>) md))"

section \<open>Preferences\<close>

fun split_tag :: "string \<Rightarrow> string \<Rightarrow> (string \<times> string) option" where
  "split_tag p [] = (if p = [] then Some ([], []) else None)"
| "split_tag p (c # s) =
     (if startswith (c # s) p then Some ([], drop (length p) (c # s))
      else map_option (\<lambda>(a, b). (c # a, b)) (split_tag p s))"

definition PREF_TAG :: string where
  "PREF_TAG = ''[PREFERENCES]''"

text \<open>\<^verbatim>\<open>(.*?)(?=\[|$)\<close> after the tag: up to a bracket, the end, or a line break that ends the text.\<close>

fun pref_body :: "string \<Rightarrow> string" where
  "pref_body [] = []"
| "pref_body (c # s) = (if c = CHR 0x5B \<or> (c = CHR 0x0A \<and> s = []) then [] else c # pref_body s)"

definition extract_pref_section :: "string \<Rightarrow> string option" where
  "extract_pref_section t = map_option (\<lambda>(_, after). strip (pref_body after)) (split_tag PREF_TAG t)"

definition replace_or_append_pref :: "(string \<Rightarrow> string option) \<Rightarrow> string \<Rightarrow> string \<Rightarrow> string option" where
  "replace_or_append_pref template current pref_block =
     (let new_pref = PREF_TAG @ newline @ pref_block in
      case split_tag PREF_TAG current of
        Some (before_tag, after) \<Rightarrow>
          map_option (\<lambda>t. before_tag @ t @ drop (length (pref_body after)) after)
            (if CHR 0x5C \<in> set new_pref then template new_pref else Some new_pref)
      | None \<Rightarrow> Some (if strip current \<noteq> [] then strip current @ newline @ newline @ new_pref else new_pref))"

definition upper :: "string \<Rightarrow> string" where
  "upper s = map upper_char s"

definition preference_prompt :: "chat_message list \<Rightarrow> string" where
  "preference_prompt ms =
     ''Recent conversation history:'' @ newline
     @ join_lines (map (\<lambda>m. upper (mg_role m) @ '': '' @ take 500 (mg_content m)) ms) @ newline @ newline
     @ ''Extract user preferences from the above.''"

definition user_messages :: "chat_db \<Rightarrow> int \<Rightarrow> chat_message list" where
  "user_messages db uid =
     filter (\<lambda>m. mg_role m \<in> {''user'', ''assistant''} \<and> list_ex (\<lambda>c. cn_id c = mg_conv m \<and> cn_user c = uid) (cd_convs db))
       (cd_messages db)"

definition store_preferences :: "(string \<Rightarrow> string option) \<Rightarrow> real \<Rightarrow> int \<Rightarrow> string \<Rightarrow> memory_db \<Rightarrow> memory_db" where
  "store_preferences template now uid block md =
     (let r = (case sheet_of md uid of Some r \<Rightarrow> r | None \<Rightarrow> new_sheet [] 0 now) in
      case replace_or_append_pref template (um_content r) block of
        None \<Rightarrow> md
      | Some text \<Rightarrow> put_sheet uid (r\<lparr>um_content := text, um_version := um_version r + 1, um_updated := now\<rparr>) (keep_version uid r md))"

definition extract_preferences :: "chat_llm \<Rightarrow> (string \<Rightarrow> string option) \<Rightarrow> (chat_message list \<Rightarrow> chat_message list) \<Rightarrow> bool \<Rightarrow> real \<Rightarrow> int \<Rightarrow>
    chat_db \<Rightarrow> memory_db \<Rightarrow> memory_db" where
  "extract_preferences llm template ord locked now uid db md =
     (let ms = rev (take 40 (newest_first ord (user_messages db uid))) in
      if ms = [] then md
      else case llm ''_PREF_SYSTEM'' (preference_prompt ms) of
        Inr (True, reply) \<Rightarrow>
          (case extract_pref_section (content_of reply) of
             Some (x # xs) \<Rightarrow> if locked then store_preferences template now uid (x # xs) md else md
           | _ \<Rightarrow> md)
      | _ \<Rightarrow> md)"

section \<open>The endpoints\<close>

definition write_memory :: "real \<Rightarrow> string \<Rightarrow> string \<Rightarrow> int \<Rightarrow> memory_db \<Rightarrow> memory_db" where
  "write_memory now text project uid md =
     (let c = limit_words 500 (strip text); p = limit_words 300 (strip project) in
      case sheet_of md uid of
        Some r \<Rightarrow> put_sheet uid (r\<lparr>um_content := c, um_project := Some p, um_version := um_version r + 1, um_updated := now\<rparr>) (keep_version uid r md)
      | None \<Rightarrow> put_sheet uid ((new_sheet c 1 now)\<lparr>um_project := Some p\<rparr>) md)"

definition write_memory_fact :: "real \<Rightarrow> string \<Rightarrow> int \<Rightarrow> memory_db \<Rightarrow> memory_db" where
  "write_memory_fact now raw uid md =
     (let fact = take 500 (strip raw) in
      case sheet_of md uid of
        Some r \<Rightarrow>
          let existing = strip (um_content r)
          in put_sheet uid (r\<lparr>um_content := (if existing \<noteq> [] then existing @ newline @ fact else fact), um_version := um_version r + 1,
                              um_salience := um_salience r + 1 / 10, um_updated := now\<rparr>) (keep_version uid r md)
      | None \<Rightarrow> put_sheet uid ((new_sheet fact 1 now)\<lparr>um_salience := 1 / 10\<rparr>) md)"

definition decay_memory :: "int \<Rightarrow> memory_db \<Rightarrow> (real \<times> real) option \<times> memory_db" where
  "decay_memory uid md =
     (case sheet_of md uid of
        None \<Rightarrow> (None, md)
      | Some r \<Rightarrow> (Some (um_salience r, decay_salience (um_salience r) 1),
                   put_sheet uid (r\<lparr>um_salience := decay_salience (um_salience r) 1, um_last_used := None\<rparr>) md))"

text \<open>The administrator's backup, reset and restore of the sheet; a snapshot is named by its position.\<close>

definition backup_sheet :: "int \<Rightarrow> memory_db \<Rightarrow> memory_db" where
  "backup_sheet uid md =
     (case sheet_of md uid of Some r \<Rightarrow> if um_content r \<noteq> [] then keep_version uid r md else md | None \<Rightarrow> md)"

definition hard_reset_sheet :: "real \<Rightarrow> int \<Rightarrow> memory_db \<Rightarrow> memory_db" where
  "hard_reset_sheet now uid md =
     (case sheet_of md uid of
        None \<Rightarrow> md
      | Some r \<Rightarrow> put_sheet uid ((cleared_sheet now r)\<lparr>um_content := ''[USER]'' @ newline\<rparr>) (keep_version uid r md))"

definition memory_restore :: "real \<Rightarrow> int \<Rightarrow> nat \<Rightarrow> string \<Rightarrow> memory_db \<Rightarrow> int result \<times> memory_db" where
  "memory_restore now uid version_id confirm md =
     (if confirm \<noteq> ''RESTORE '' @ int_str uid then (Inl (HTTPException 400 ''Invalid confirmation''), md)
      else if version_id \<ge> length (md_versions md) \<or> mv_user (md_versions md ! version_id) \<noteq> uid
      then (Inl (HTTPException 404 ''Memory version not found for this user''), md)
      else case sheet_of md uid of
        None \<Rightarrow> (Inl (HTTPException 404 ''User has no memory sheet to restore into''), md)
      | Some r \<Rightarrow>
          let v = md_versions md ! version_id
          in (Inr (um_version r + 1),
              put_sheet uid (r\<lparr>um_content := mv_content v, um_project := Some (mv_project v), um_version := um_version r + 1, um_updated := now\<rparr>)
                (keep_version uid r md)))"

section \<open>The operations as a machine\<close>

datatype memory_action =
    Turn
  | Summarize string
  | Restructure
  | Compact
  | Project
  | Preferences
  | PutSheet string string
  | WriteFact string
  | Decay
  | ScanConflicts
  | ResolveConflict string string
  | Restore nat string
  | HardReset
  | Backup

record memory_env =
  mx_llm :: chat_llm
  mx_loads :: "string \<Rightarrow> pyval option"
  mx_template :: "string \<Rightarrow> string option"
  mx_uuid :: "string \<Rightarrow> string option"
  mx_ids :: "nat \<Rightarrow> string"
  mx_messages :: "chat_message list \<Rightarrow> chat_message list"
  mx_convs :: "conversation list \<Rightarrow> conversation list"
  mx_locked :: bool
  mx_chat :: chat_db

definition take_turn :: "real \<Rightarrow> int \<Rightarrow> memory_db \<Rightarrow> memory_db" where
  "take_turn now uid md =
     (case load_memory now (sheet_of md uid) of (_, _, Some r) \<Rightarrow> put_sheet uid r md | (_, _, None) \<Rightarrow> md)"

fun memory_act :: "memory_env \<Rightarrow> real \<Rightarrow> int \<Rightarrow> memory_action \<Rightarrow> memory_db \<Rightarrow> memory_db" where
  "memory_act x now uid Turn md = take_turn now uid (settle_expired now uid md)"
| "memory_act x now uid (Summarize cid) md = update_memory (mx_llm x) (mx_messages x) (mx_locked x) now uid cid (mx_chat x) md"
| "memory_act x now uid Restructure md = restructure_memory (mx_llm x) (mx_locked x) now uid md"
| "memory_act x now uid Compact md = compact_memory (mx_llm x) (mx_loads x) (mx_ids x) (mx_locked x) now uid md"
| "memory_act x now uid Project md = update_project_summary (mx_llm x) (mx_convs x) (mx_locked x) now uid (mx_chat x) md"
| "memory_act x now uid Preferences md = extract_preferences (mx_llm x) (mx_template x) (mx_messages x) (mx_locked x) now uid (mx_chat x) md"
| "memory_act x now uid (PutSheet c p) md = write_memory now c p uid md"
| "memory_act x now uid (WriteFact f) md = write_memory_fact now f uid md"
| "memory_act x now uid Decay md = snd (decay_memory uid md)"
| "memory_act x now uid ScanConflicts md = snd (scan_conflicts (mx_llm x) (mx_loads x) (mx_ids x) now uid md)"
| "memory_act x now uid (ResolveConflict raw s) md = snd (resolve_conflict_endpoint (mx_uuid x) now raw s uid md)"
| "memory_act x now uid (Restore v c) md = snd (memory_restore now uid v c md)"
| "memory_act x now uid HardReset md = hard_reset_sheet now uid md"
| "memory_act x now uid Backup md = backup_sheet uid md"

text \<open>
  What a session writes: a column whose new value is the one that was read keeps the value it has by then, any other is
  overwritten; a snapshot holds the row that was read. A sheet that appeared in the meantime makes an insertion fail, and with it the whole
  transaction.
\<close>

definition written :: "'a \<Rightarrow> 'a \<Rightarrow> 'a \<Rightarrow> 'a" where
  "written was now current = (if now = was then current else now)"

definition orm_write :: "memory_row \<Rightarrow> memory_row \<Rightarrow> memory_row \<Rightarrow> memory_row" where
  "orm_write r r' cur =
     \<lparr>um_content = written (um_content r) (um_content r') (um_content cur),
      um_project = written (um_project r) (um_project r') (um_project cur),
      um_version = written (um_version r) (um_version r') (um_version cur),
      um_salience = written (um_salience r) (um_salience r') (um_salience cur),
      um_confidence = written (um_confidence r) (um_confidence r') (um_confidence cur),
      um_fact_saliences = written (um_fact_saliences r) (um_fact_saliences r') (um_fact_saliences cur),
      um_last_used = written (um_last_used r) (um_last_used r') (um_last_used cur),
      um_updated = written (um_updated r) (um_updated r') (um_updated cur),
      um_last_summarized = written (um_last_summarized r) (um_last_summarized r') (um_last_summarized cur)\<rparr>"

text \<open>The tables as a session sees them that has read the row of a user before.\<close>

definition as_read :: "int \<Rightarrow> memory_row option \<Rightarrow> memory_db \<Rightarrow> memory_db" where
  "as_read uid read md = (case read of Some r \<Rightarrow> put_sheet uid r md | None \<Rightarrow> md\<lparr>md_rows := ddel (md_rows md) uid\<rparr>)"

definition late_write :: "memory_env \<Rightarrow> real \<Rightarrow> int \<Rightarrow> memory_action \<Rightarrow> memory_row option \<Rightarrow> memory_db \<Rightarrow> memory_db" where
  "late_write x now uid a read md =
     (let md' = memory_act x now uid a (as_read uid read md) in
      case (read, sheet_of md' uid, sheet_of md uid) of
        (Some r, Some r', Some cur) \<Rightarrow> md'\<lparr>md_rows := dset (md_rows md) uid (orm_write r r' cur)\<rparr>
      | (None, Some r', None) \<Rightarrow> md'
      | (None, None, cur) \<Rightarrow> md'\<lparr>md_rows := md_rows md\<rparr>
      | _ \<Rightarrow> md)"

text \<open>
  The sessions on the sheets: one reads the row of a user, one that has read it writes what its operation makes of it, one fails or
  ends without a write. A session is known by a number.
\<close>

fun locks_row :: "memory_action \<Rightarrow> bool" where
  "locks_row (PutSheet _ _) = True"
| "locks_row (WriteFact _) = True"
| "locks_row _ = False"

record memory_world =
  mw_db :: memory_db
  mw_reads :: "(nat \<times> int \<times> memory_row option) list"

datatype memory_event =
    Reads nat int
  | Acts nat memory_env real int memory_action
  | Abandons nat

definition row_read :: "nat \<Rightarrow> int \<Rightarrow> memory_world \<Rightarrow> memory_row option option" where
  "row_read j uid w = map_option (\<lambda>p. snd (snd p)) (List.find (\<lambda>p. fst p = j \<and> fst (snd p) = uid) (mw_reads w))"

definition end_session :: "nat \<Rightarrow> memory_world \<Rightarrow> memory_world" where
  "end_session j w = w\<lparr>mw_reads := filter (\<lambda>p. fst p \<noteq> j) (mw_reads w)\<rparr>"

fun memory_step :: "memory_event \<Rightarrow> memory_world \<Rightarrow> memory_world" where
  "memory_step (Reads j uid) w = (end_session j w)\<lparr>mw_reads := (j, uid, sheet_of (mw_db w) uid) # mw_reads (end_session j w)\<rparr>"
| "memory_step (Acts j x now uid a) w =
     (if locks_row a then w\<lparr>mw_db := memory_act x now uid a (mw_db w)\<rparr>
      else case row_read j uid w of
        None \<Rightarrow> w
      | Some read \<Rightarrow> (end_session j w)\<lparr>mw_db := late_write x now uid a read (mw_db w)\<rparr>)"
| "memory_step (Abandons j) w = end_session j w"

definition no_memory :: memory_db where
  "no_memory = \<lparr>md_rows = [], md_versions = [], md_conflicts = []\<rparr>"

definition no_memory_world :: memory_world where
  "no_memory_world = \<lparr>mw_db = no_memory, mw_reads = []\<rparr>"

text \<open>Operations that run one after another, each on the row as it is.\<close>

type_synonym memory_call = "memory_env \<times> real \<times> int \<times> memory_action"

definition serial_step :: "memory_call \<Rightarrow> memory_db \<Rightarrow> memory_db" where
  "serial_step e md = (case e of (x, now, uid, a) \<Rightarrow> memory_act x now uid a md)"

section \<open>One operation changes one sheet\<close>

text \<open>
  What an operation of a user can do to the sheet of the user: nothing but conflicts; a rewriting
  that keeps the text; a snapshot and a new text under the next version; a text under the next version
  alone (the resolution of a conflict); a first sheet; or a snapshot alone.
\<close>

inductive sheet_change :: "int \<Rightarrow> bool \<Rightarrow> memory_db \<Rightarrow> memory_db \<Rightarrow> bool" where
  same: "md_rows md' = md_rows md \<Longrightarrow> md_versions md' = md_versions md \<Longrightarrow> sheet_change uid b md md'"
| kept: "sheet_of md uid = Some r \<Longrightarrow> md_rows md' = dset (md_rows md) uid r' \<Longrightarrow> md_versions md' = md_versions md \<Longrightarrow>
         um_content r' = um_content r \<Longrightarrow> um_version r' = um_version r \<Longrightarrow> sheet_change uid b md md'"
| saved: "sheet_of md uid = Some r \<Longrightarrow> md_rows md' = dset (md_rows md) uid r' \<Longrightarrow> md_versions md' = md_versions (keep_version uid r md) \<Longrightarrow>
          um_version r' = um_version r + 1 \<Longrightarrow> sheet_change uid b md md'"
| unsaved: "sheet_of md uid = Some r \<Longrightarrow> md_rows md' = dset (md_rows md) uid r' \<Longrightarrow> md_versions md' = md_versions md \<Longrightarrow>
            um_version r' = um_version r + 1 \<Longrightarrow> sheet_change uid True md md'"
| created: "sheet_of md uid = None \<Longrightarrow> md_rows md' = dset (md_rows md) uid r' \<Longrightarrow> md_versions md' = md_versions md \<Longrightarrow>
          um_version r' = 1 \<Longrightarrow> sheet_change uid b md md'"
| created_saved: "sheet_of md uid = None \<Longrightarrow> md_rows md' = dset (md_rows md) uid r' \<Longrightarrow> um_version old = 0 \<Longrightarrow>
          md_versions md' = md_versions (keep_version uid old md) \<Longrightarrow> um_version r' = 1 \<Longrightarrow> sheet_change uid b md md'"
| backed_up: "sheet_of md uid = Some r \<Longrightarrow> md_rows md' = md_rows md \<Longrightarrow> md_versions md' = md_versions (keep_version uid r md) \<Longrightarrow>
          sheet_change uid b md md'"

lemma new_sheet_fields [simp]: "um_version (new_sheet t n now) = n" "um_content (new_sheet t n now) = t"
  by (simp_all add: new_sheet_def)

lemma sheet_put [simp]: "sheet_of (put_sheet uid r md) k = (if k = uid then Some r else sheet_of md k)"
  by (simp add: sheet_of_def put_sheet_def dget_dset)

lemma frames [simp]:
  "md_rows (keep_version uid r md) = md_rows md" "md_rows (add_conflicts cs md) = md_rows md"
  "md_versions (put_sheet uid r md) = md_versions md" "md_versions (add_conflicts cs md) = md_versions md"
  "md_rows (put_sheet uid r md) = dset (md_rows md) uid r" "md_rows (settle_expired now uid md) = md_rows md"
  "md_versions (settle_expired now uid md) = md_versions md" "sheet_of (keep_version uid r md) k = sheet_of md k"
  "sheet_of (add_conflicts cs md) k = sheet_of md k" "sheet_of (settle_expired now uid md) k = sheet_of md k"
  "keep_version uid (r\<lparr>um_salience := v\<rparr>) md = keep_version uid r md" "keep_version uid (r\<lparr>um_fact_saliences := w\<rparr>) md = keep_version uid r md"
  by (simp_all add: keep_version_def add_conflicts_def put_sheet_def settle_expired_def sheet_of_def)

fun unsaved_action :: "memory_action \<Rightarrow> bool" where
  "unsaved_action (ResolveConflict _ _) = True"
| "unsaved_action _ = False"

lemma act_sheet_change: "sheet_change uid (unsaved_action a) md (memory_act x now uid a md)"
proof (cases a)
  case Turn
  then show ?thesis
    by (cases "sheet_of md uid")
      (auto simp: take_turn_def load_memory_def touch_sheet_def intro: sheet_change.same sheet_change.kept)
next
  case (Summarize cid)
  then show ?thesis
    by (cases "sheet_of md uid")
      (auto simp: update_memory_def intro: sheet_change.same sheet_change.saved sheet_change.created split: option.split)
next
  case Restructure
  then show ?thesis
    by (auto simp: restructure_memory_def intro: sheet_change.same sheet_change.saved split: option.split)
next
  case Compact
  then show ?thesis
    by (auto simp: compact_memory_def Let_def cleared_sheet_def compacted_sheet_def intro: sheet_change.same sheet_change.saved
        split: option.split sum.split)
next
  case Project
  then show ?thesis
    by (auto simp: update_project_summary_def Let_def intro: sheet_change.same sheet_change.saved sheet_change.created
        split: option.split)
next
  case Preferences
  have "sheet_change uid False md (store_preferences t now uid block md)" for t block
    by (cases "sheet_of md uid")
      (auto simp: store_preferences_def Let_def intro: sheet_change.same sheet_change.saved
        sheet_change.created_saved [where old = "new_sheet [] 0 now"] split: option.split)
  then show ?thesis using Preferences
    by (auto simp: extract_preferences_def Let_def intro: sheet_change.same split: option.split sum.split list.split bool.split)
next
  case (PutSheet c p)
  then show ?thesis
    by (auto simp: write_memory_def Let_def intro: sheet_change.saved sheet_change.created split: option.split)
next
  case (WriteFact f)
  then show ?thesis
    by (auto simp: write_memory_fact_def Let_def intro: sheet_change.saved sheet_change.created split: option.split)
next
  case Decay
  then show ?thesis by (auto simp: decay_memory_def intro: sheet_change.same sheet_change.kept split: option.split)
next
  case ScanConflicts
  then show ?thesis by (auto simp: scan_conflicts_def intro: sheet_change.same split: option.split sum.split)
next
  case (ResolveConflict raw s)
  then show ?thesis
    by (auto simp: resolve_conflict_endpoint_def resolve_conflict_def Let_def put_sheet_def intro: sheet_change.same sheet_change.unsaved
        split: option.split)
next
  case (Restore v c)
  then show ?thesis by (auto simp: memory_restore_def Let_def intro: sheet_change.same sheet_change.saved split: option.split)
next
  case HardReset
  then show ?thesis by (auto simp: hard_reset_sheet_def cleared_sheet_def intro: sheet_change.same sheet_change.saved split: option.split)
next
  case Backup
  then show ?thesis by (auto simp: backup_sheet_def intro: sheet_change.same sheet_change.backed_up split: option.split)
qed

inductive_cases sheet_changeE: "sheet_change uid b md md'"

lemma other_sheet: "sheet_change uid b md md' \<Longrightarrow> k \<noteq> uid \<Longrightarrow> sheet_of md' k = sheet_of md k"
  by (erule sheet_changeE) (auto simp: sheet_of_def dget_dset)

section \<open>Snapshots\<close>

definition versions_by :: "memory_db \<Rightarrow> int \<Rightarrow> int list" where
  "versions_by md uid = map mv_version (filter (\<lambda>v. mv_user v = uid) (md_versions md))"

definition book_ok :: "memory_db \<Rightarrow> int \<Rightarrow> bool" where
  "book_ok md uid \<longleftrightarrow> sorted (versions_by md uid)
     \<and> (case sheet_of md uid of None \<Rightarrow> versions_by md uid = [] | Some r \<Rightarrow> \<forall>n \<in> set (versions_by md uid). n \<le> um_version r)"

lemma versions_by_keep: "versions_by (keep_version u r md) uid = versions_by md uid @ (if u = uid then [um_version r] else [])"
  by (simp add: versions_by_def keep_version_def)

lemma versions_by_same: "md_versions md' = md_versions md \<Longrightarrow> versions_by md' uid = versions_by md uid"
  by (simp add: versions_by_def)

lemma sheet_rows: "md_rows md' = dset (md_rows md) uid r \<Longrightarrow> sheet_of md' = (sheet_of md)(uid := Some r)"
  by (rule ext) (simp add: sheet_of_def dget_dset)

lemma book_cases:
  "sheet_of md k = None \<Longrightarrow> book_ok md k \<longleftrightarrow> versions_by md k = []"
  "sheet_of md k = Some r \<Longrightarrow> book_ok md k \<longleftrightarrow> sorted (versions_by md k) \<and> (\<forall>n \<in> set (versions_by md k). n \<le> um_version r)"
  by (auto simp: book_ok_def)

lemma other_book:
  assumes "sheet_change uid b md md'" and "k \<noteq> uid"
  shows "book_ok md' k = book_ok md k"
proof -
  have "versions_by md' k = versions_by md k"
    using assms by (cases rule: sheet_change.cases) (auto simp: versions_by_def keep_version_def)
  then show ?thesis using other_sheet [OF assms] by (simp add: book_ok_def cong: option.case_cong)
qed

lemma book_change:
  assumes "sheet_change uid b md md'" and "book_ok md uid"
  shows "book_ok md' uid"
  using assms
proof (cases rule: sheet_change.cases)
  case same
  then have "versions_by md' uid = versions_by md uid" "sheet_of md' uid = sheet_of md uid"
    by (simp_all add: versions_by_def sheet_of_def)
  with assms(2) show ?thesis by (simp add: book_ok_def cong: option.case_cong)
next
  case (kept r r')
  with assms(2) show ?thesis by (simp add: book_cases sheet_rows versions_by_same [of md' md])
next
  case (saved r r')
  then have "versions_by md' uid = versions_by md uid @ [um_version r]"
    using versions_by_keep [of uid r md uid] by (simp add: versions_by_def)
  with saved assms(2) show ?thesis by (auto simp: book_cases sheet_rows sorted_append dest!: bspec)
next
  case (unsaved r r')
  with assms(2) show ?thesis by (fastforce simp: book_cases sheet_rows versions_by_same [of md' md])
next
  case (created r')
  with assms(2) show ?thesis by (simp add: book_cases sheet_rows versions_by_same [of md' md])
next
  case (created_saved r' old)
  then have "versions_by md' uid = versions_by md uid @ [um_version old]"
    using versions_by_keep [of uid old md uid] by (simp add: versions_by_def)
  with created_saved assms(2) show ?thesis by (simp add: book_cases sheet_rows)
next
  case (backed_up r)
  then have "versions_by md' uid = versions_by md uid @ [um_version r]" "sheet_of md' uid = sheet_of md uid"
    using versions_by_keep [of uid r md uid] by (simp_all add: versions_by_def sheet_of_def)
  with backed_up assms(2) show ?thesis by (auto simp: book_cases sorted_append)
qed

definition books_ok :: "memory_db \<Rightarrow> bool" where
  "books_ok md \<longleftrightarrow> (\<forall>uid. book_ok md uid)"

lemma books_change: "sheet_change uid b md md' \<Longrightarrow> books_ok md \<Longrightarrow> books_ok md'"
  unfolding books_ok_def using book_change other_book by metis

section \<open>What a session leaves that wrote late\<close>

lemma as_read_simps [simp]:
  "sheet_of (as_read uid read md) k = (if k = uid then read else sheet_of md k)" "md_versions (as_read uid read md) = md_versions md"
  by (simp_all add: as_read_def sheet_of_def put_sheet_def dget_dset dget_ddel split: option.split)

text \<open>A sheet that is there is not removed.\<close>

lemma act_keeps_sheet:
  assumes "sheet_of md uid = Some r"
  shows "\<exists>r'. sheet_of (memory_act x now uid a md) uid = Some r'"
  using act_sheet_change [of uid a md x now] assms
  by (cases rule: sheet_change.cases) (simp_all add: sheet_of_def dget_dset)

lemma late_write_some:
  assumes "sheet_of md uid = Some cur" and "sheet_of (memory_act x now uid a (as_read uid (Some r) md)) uid = Some r'"
  shows "late_write x now uid a (Some r) md =
    (memory_act x now uid a (as_read uid (Some r) md))\<lparr>md_rows := dset (md_rows md) uid (orm_write r r' cur)\<rparr>"
  using assms by (simp add: late_write_def Let_def)

lemma late_write_gone: "sheet_of md uid = None \<Longrightarrow> late_write x now uid a (Some r) md = md"
  using act_keeps_sheet [of "as_read uid (Some r) md" uid r x now a] by (auto simp: late_write_def Let_def)

text \<open>A late write is the write of the operation, up to the rows, or nothing.\<close>

lemma late_write_versions_eq:
  "md_versions (late_write x now uid a read md) \<in> {md_versions md, md_versions (memory_act x now uid a (as_read uid read md))}"
  by (cases read; cases "sheet_of (memory_act x now uid a (as_read uid read md)) uid"; cases "sheet_of md uid")
    (simp_all add: late_write_def Let_def)

lemma late_write_other:
  assumes "k \<noteq> uid"
  shows "sheet_of (late_write x now uid a read md) k = sheet_of md k"
proof -
  have same: "sheet_of (memory_act x now uid a (as_read uid read md)) k = sheet_of md k"
    using other_sheet [OF act_sheet_change [of uid a "as_read uid read md" x now] assms] assms by simp
  have rows: "sheet_of (m\<lparr>md_rows := dset (md_rows md) uid v\<rparr>) k = sheet_of md k" "sheet_of (m\<lparr>md_rows := md_rows md\<rparr>) k = sheet_of md k" for m v
    using assms by (simp_all add: sheet_of_def dget_dset)
  show ?thesis
    using same rows
    by (cases read; cases "sheet_of (memory_act x now uid a (as_read uid read md)) uid"; cases "sheet_of md uid")
      (simp_all add: late_write_def Let_def)
qed

text \<open>The snapshots a late write adds are of the row that was read; a write that adds none, resolutions apart, leaves the text alone.\<close>

lemma late_write_snapshots:
  assumes "sheet_of md uid = Some cur" and "\<not> unsaved_action a"
  shows "md_versions (late_write x now uid a (Some r) md) = md_versions md
      \<and> (\<exists>r'. sheet_of (late_write x now uid a (Some r) md) uid = Some r' \<and> um_content r' = um_content cur)
    \<or> md_versions (late_write x now uid a (Some r) md) = md_versions (keep_version uid r md)"
proof -
  let ?view = "as_read uid (Some r) md" and ?late = "late_write x now uid a (Some r) md"
  have view: "sheet_of ?view uid = Some r" "md_versions ?view = md_versions md" "md_versions (keep_version uid r ?view) = md_versions (keep_version uid r md)"
    by (simp_all add: keep_version_def)
  obtain r' where r': "sheet_of (memory_act x now uid a ?view) uid = Some r'" using act_keeps_sheet [OF view(1)] by blast
  note late = late_write_some [OF assms(1) r']
  have sheet: "sheet_of ?late uid = Some (orm_write r r' cur)" unfolding late by (simp add: sheet_of_def dget_dset)
  have versions: "md_versions ?late = md_versions (memory_act x now uid a ?view)" unfolding late by simp
  have content: "um_content r' = um_content r \<Longrightarrow> um_content (orm_write r r' cur) = um_content cur" by (simp add: orm_write_def written_def)
  from act_sheet_change [of uid a ?view x now] show ?thesis
  proof (cases rule: sheet_change.cases)
    case same
    then have "r' = r" using r' view(1) by (simp add: sheet_of_def)
    then show ?thesis using same versions view sheet content by simp
  next
    case (kept r0 r1)
    then have "um_content r' = um_content r" using r' view(1) by (simp add: sheet_rows)
    then show ?thesis using kept versions view sheet content by simp
  next
    case (saved r0 r1)
    then show ?thesis using versions view by simp
  next
    case (backed_up r0)
    then show ?thesis using versions view by simp
  qed (use view assms(2) in simp_all)
qed

section \<open>What a sheet said\<close>

definition snapshot_kept :: "memory_db \<Rightarrow> int \<Rightarrow> string \<Rightarrow> bool" where
  "snapshot_kept md uid text \<longleftrightarrow> (\<exists>v \<in> set (md_versions md). mv_user v = uid \<and> mv_content v = text)"

text \<open>What a sheet said is still there: in the sheet, or in a snapshot.\<close>

definition recoverable :: "memory_db \<Rightarrow> int \<Rightarrow> string \<Rightarrow> bool" where
  "recoverable md uid text \<longleftrightarrow> (\<exists>r. sheet_of md uid = Some r \<and> um_content r = text) \<or> snapshot_kept md uid text"

text \<open>Every session that is under way on a sheet has read the text.\<close>

definition all_read :: "memory_world \<Rightarrow> int \<Rightarrow> string \<Rightarrow> bool" where
  "all_read w uid text \<longleftrightarrow> list_all (\<lambda>(_, u, read). u = uid \<longrightarrow> map_option um_content read = Some text) (mw_reads w)"

definition text_safe :: "memory_world \<Rightarrow> int \<Rightarrow> string \<Rightarrow> bool" where
  "text_safe w uid text \<longleftrightarrow> snapshot_kept (mw_db w) uid text
     \<or> (\<exists>r. sheet_of (mw_db w) uid = Some r \<and> um_content r = text) \<and> all_read w uid text"

fun resolves :: "int \<Rightarrow> memory_event \<Rightarrow> bool" where
  "resolves uid (Acts _ _ _ u a) = (u = uid \<and> unsaved_action a)"
| "resolves uid _ = False"

lemma all_read_end: "all_read w uid text \<Longrightarrow> all_read (end_session j w) uid text"
  by (auto simp: all_read_def end_session_def list_all_iff)

lemma end_session_db [simp]: "mw_db (end_session j w) = mw_db w"
  by (simp add: end_session_def)

lemma more_snapshots:
  assumes "set (md_versions md) \<subseteq> set (md_versions md')" and "snapshot_kept md uid text"
  shows "snapshot_kept md' uid text"
  using assms by (auto simp: snapshot_kept_def)

lemma act_versions: "set (md_versions md) \<subseteq> set (md_versions (memory_act x now uid a md))"
  using act_sheet_change [of uid a md x now] by (cases rule: sheet_change.cases) (auto simp: keep_version_def)

lemma late_write_versions: "set (md_versions md) \<subseteq> set (md_versions (late_write x now uid a read md))"
  using act_versions [of "as_read uid read md" x now uid a] late_write_versions_eq [of x now uid a read md] by auto

lemma row_read_text: "all_read w uid text \<Longrightarrow> row_read j uid w = Some read \<Longrightarrow> map_option um_content read = Some text"
proof -
  assume reads: "all_read w uid text" and "row_read j uid w = Some read"
  then obtain p where "List.find (\<lambda>p. fst p = j \<and> fst (snd p) = uid) (mw_reads w) = Some p" "snd (snd p) = read" by (auto simp: row_read_def)
  then have "p \<in> set (mw_reads w)" "fst (snd p) = uid" "snd (snd p) = read" by (auto simp: find_Some_iff)
  with reads show ?thesis by (cases p) (auto simp: all_read_def list_all_iff)
qed

text \<open>An operation that reads the row for update keeps a snapshot of it.\<close>

lemma locked_snapshot:
  assumes "locks_row a" and "sheet_of md uid = Some r"
  shows "snapshot_kept (memory_act x now uid a md) uid (um_content r)"
  using assms by (cases a) (simp_all add: write_memory_def write_memory_fact_def Let_def snapshot_kept_def keep_version_def)

lemma text_safe_step:
  assumes "text_safe w uid text" and "\<not> resolves uid e"
  shows "text_safe (memory_step e w) uid text"
proof (cases e)
  case (Reads j u)
  with assms(1) show ?thesis by (auto simp: text_safe_def all_read_def end_session_def list_all_iff)
next
  case (Abandons j)
  with assms(1) show ?thesis by (auto simp: text_safe_def dest: all_read_end)
next
  case (Acts j x now u a)
  show ?thesis
  proof (cases "snapshot_kept (mw_db w) uid text")
    case True
    then show ?thesis
      using more_snapshots [OF act_versions True] more_snapshots [OF late_write_versions True]
      by (auto simp: Acts text_safe_def split: option.split)
  next
    case False
    then obtain r where r: "sheet_of (mw_db w) uid = Some r" "um_content r = text" "all_read w uid text"
      using assms(1) by (auto simp: text_safe_def)
    show ?thesis
    proof (cases "u = uid")
      case False
      then have "sheet_of (memory_act x now u a (mw_db w)) uid = Some r" "\<And>read. sheet_of (late_write x now u a read (mw_db w)) uid = Some r"
        using other_sheet [OF act_sheet_change [of u a "mw_db w" x now], of uid] late_write_other [of uid u] r(1) by auto
      then show ?thesis
        using r all_read_end [OF r(3), of j] by (cases "row_read j u w") (simp_all add: Acts text_safe_def all_read_def)
    next
      case True
      then have free: "\<not> unsaved_action a" using assms(2) by (simp add: Acts)
      show ?thesis
      proof (cases "locks_row a")
        case True
        then show ?thesis using locked_snapshot [OF True r(1), of x now] r(2) \<open>u = uid\<close> by (simp add: Acts text_safe_def)
      next
        case unlocked: False
        show ?thesis
        proof (cases "row_read j uid w")
          case None
          then show ?thesis using assms(1) unlocked \<open>u = uid\<close> by (simp add: Acts)
        next
          case (Some read)
          from row_read_text [OF r(3) this] obtain rd where rd: "read = Some rd" "um_content rd = text" by auto
          have step: "memory_step e w = (end_session j w)\<lparr>mw_db := late_write x now uid a read (mw_db w)\<rparr>"
            using Some unlocked \<open>u = uid\<close> by (simp add: Acts)
          from late_write_snapshots [OF r(1) free, of x now rd] show ?thesis
          proof
            assume "md_versions (late_write x now uid a (Some rd) (mw_db w)) = md_versions (mw_db w)
              \<and> (\<exists>r'. sheet_of (late_write x now uid a (Some rd) (mw_db w)) uid = Some r' \<and> um_content r' = um_content r)"
            then show ?thesis unfolding step using r(2) rd(1) all_read_end [OF r(3), of j] by (auto simp: text_safe_def all_read_def)
          next
            assume "md_versions (late_write x now uid a (Some rd) (mw_db w)) = md_versions (keep_version uid rd (mw_db w))"
            then have "snapshot_kept (mw_db (memory_step e w)) uid text"
              unfolding step using rd by (simp add: snapshot_kept_def keep_version_def)
            then show ?thesis by (simp add: text_safe_def)
          qed
        qed
      qed
    qed
  qed
qed

text \<open>
  C31. Nothing a sheet said is lost by the operations on it. Let all sessions that are under way on the sheet of a user have read its present text,
  as when there are none. Whatever follows - turns, summaries, rewritings, compactions, edits, resets and restores, each reading the row at one time and
  writing at another, overlapping in any way, or failing - the text is still in the sheet or in a snapshot of the user, unless the user
  resolves a conflict, the one operation that rewrites the sheet without a snapshot. The removal of the whole user is no
  operation on the sheet. The hypothesis on the sessions cannot be dropped: one that
  has read an older text can overwrite the present one and leave no snapshot of it.
\<close>

theorem sheet_stays_recoverable:
  assumes "sheet_of (mw_db w) uid = Some r" and "all_read w uid (um_content r)" and "list_all (\<lambda>e. \<not> resolves uid e) es"
  shows "recoverable (mw_db (fold memory_step es w)) uid (um_content r)"
proof -
  have "text_safe w uid (um_content r)" using assms(1,2) by (simp add: text_safe_def)
  then have "text_safe (fold memory_step es w) uid (um_content r)"
    using assms(3) by (induction es arbitrary: w) (auto intro: text_safe_step)
  then show ?thesis by (auto simp: text_safe_def recoverable_def)
qed

section \<open>Snapshots in order\<close>

text \<open>An event that finds the version it has read: the row has not been given another in between.\<close>

definition unmoved :: "memory_event \<Rightarrow> memory_world \<Rightarrow> bool" where
  "unmoved e w =
     (case e of
        Acts j x now uid a \<Rightarrow>
          locks_row a \<or> (case row_read j uid w of
                           None \<Rightarrow> True
                         | Some read \<Rightarrow> map_option um_version read = map_option um_version (sheet_of (mw_db w) uid))
      | _ \<Rightarrow> True)"

fun never_overtaken :: "memory_event list \<Rightarrow> memory_world \<Rightarrow> bool" where
  "never_overtaken [] w = True"
| "never_overtaken (e # es) w = (unmoved e w \<and> never_overtaken es (memory_step e w))"

lemma late_write_book:
  assumes "map_option um_version read = map_option um_version (sheet_of md uid)" and "book_ok md uid"
  shows "book_ok (late_write x now uid a read md) uid"
proof -
  let ?view = "as_read uid read md" and ?new = "late_write x now uid a read md"
  have "versions_by ?view uid = versions_by md uid" by (simp add: versions_by_def)
  with assms have "book_ok ?view uid" by (cases read; cases "sheet_of md uid") (simp_all add: book_ok_def)
  then have book: "book_ok (memory_act x now uid a ?view) uid" using book_change [OF act_sheet_change] by blast
  show ?thesis
  proof (cases read)
    case None
    then have none: "sheet_of md uid = None" using assms(1) by simp
    show ?thesis
    proof (cases "sheet_of (memory_act x now uid a ?view) uid")
      case sheet: None
      then have "?new = (memory_act x now uid a ?view)\<lparr>md_rows := md_rows md\<rparr>" by (simp add: late_write_def Let_def None none)
      then show ?thesis using book sheet none by (simp add: book_ok_def versions_by_def sheet_of_def)
    next
      case (Some r')
      then show ?thesis using book None none by (simp add: late_write_def Let_def)
    qed
  next
    case (Some r)
    then obtain cur where cur: "sheet_of md uid = Some cur" "um_version cur = um_version r"
      using assms(1) by (cases "sheet_of md uid") auto
    have "sheet_of ?view uid = Some r" by (simp add: Some)
    from act_keeps_sheet [OF this] obtain r' where r': "sheet_of (memory_act x now uid a ?view) uid = Some r'" by blast
    have new: "?new = (memory_act x now uid a ?view)\<lparr>md_rows := dset (md_rows md) uid (orm_write r r' cur)\<rparr>"
      unfolding Some by (rule late_write_some [OF cur(1) r' [unfolded Some]])
    have "sheet_of ?new uid = Some (orm_write r r' cur)" "versions_by ?new uid = versions_by (memory_act x now uid a ?view) uid"
      by (simp_all add: new sheet_of_def dget_dset versions_by_def)
    moreover have "um_version (orm_write r r' cur) = um_version r'" using cur(2) by (simp add: orm_write_def written_def)
    ultimately show ?thesis using book r' by (simp add: book_ok_def)
  qed
qed

lemma late_write_other_book:
  assumes "k \<noteq> uid"
  shows "book_ok (late_write x now uid a read md) k = book_ok md k"
proof -
  have "versions_by (memory_act x now uid a (as_read uid read md)) k = versions_by md k"
    using act_sheet_change [of uid a "as_read uid read md" x now] assms
    by (cases rule: sheet_change.cases) (auto simp: versions_by_def keep_version_def)
  then have "versions_by (late_write x now uid a read md) k = versions_by md k"
    using late_write_versions_eq [of x now uid a read md] by (auto simp: versions_by_def)
  then show ?thesis using late_write_other [OF assms] by (simp add: book_ok_def cong: option.case_cong)
qed

lemma books_step:
  assumes "unmoved e w" and "books_ok (mw_db w)"
  shows "books_ok (mw_db (memory_step e w))"
proof (cases e)
  case (Acts j x now uid a)
  have "books_ok (memory_act x now uid a (mw_db w))" using act_sheet_change books_change assms(2) by blast
  moreover have "books_ok (late_write x now uid a read (mw_db w))" if "row_read j uid w = Some read" "\<not> locks_row a" for read
    unfolding books_ok_def
  proof
    fix k
    show "book_ok (late_write x now uid a read (mw_db w)) k"
      using that assms late_write_book [of read "mw_db w" uid x now a] late_write_other_book [of k uid x now a read "mw_db w"]
      by (cases "k = uid") (auto simp: unmoved_def Acts books_ok_def)
  qed
  ultimately show ?thesis using assms(2) by (auto simp: Acts split: option.split)
qed (use assms in simp_all)

interpretation memory_machine: guarded_machine "\<lambda>e w. if unmoved e w then memory_step e w else w" "\<lambda>w. books_ok (mw_db w)" no_memory_world
proof unfold_locales
  show "books_ok (mw_db no_memory_world)"
    by (simp add: books_ok_def book_ok_def no_memory_world_def no_memory_def sheet_of_def versions_by_def)
  show "books_ok (mw_db (if unmoved e w then memory_step e w else w))" if "books_ok (mw_db w)" for w e
    using that books_step by simp
qed

text \<open>
  C30. The history of a sheet stays in order as long as nobody is overtaken: after any interleaving of turns, summaries, compactions, edits, resets and
  restores of any users in which every session, when it writes, finds the version of the sheet that it has read, the snapshots of a user carry versions that
  never go down and never exceed the version of the sheet, and a user without a sheet has none. The code does nothing to ensure the condition: no
  lock keeps an endpoint from giving the sheet a new version while a summary waits for its model.
\<close>

theorem snapshots_in_order:
  assumes "never_overtaken es no_memory_world"
  shows "sorted (versions_by (mw_db (fold memory_step es no_memory_world)) uid)
    \<and> (case sheet_of (mw_db (fold memory_step es no_memory_world)) uid of
         None \<Rightarrow> versions_by (mw_db (fold memory_step es no_memory_world)) uid = []
       | Some r \<Rightarrow> list_all (\<lambda>n. n \<le> um_version r) (versions_by (mw_db (fold memory_step es no_memory_world)) uid))"
proof -
  have "fold (\<lambda>e w. if unmoved e w then memory_step e w else w) es w = fold memory_step es w" if "never_overtaken es w" for w
    using that by (induction es arbitrary: w) auto
  then have "books_ok (mw_db (fold memory_step es no_memory_world))"
    using memory_machine.inv_reach [of es] assms by simp
  then have "book_ok (mw_db (fold memory_step es no_memory_world)) uid" by (simp add: books_ok_def)
  then show ?thesis by (auto simp: book_ok_def list_all_iff split: option.splits)
qed

section \<open>A restore can be undone\<close>

text \<open>
  A restore of a snapshot is itself reversible: it leaves a snapshot of the sheet it replaces, at the end of the list,
  and restoring that one gives the text and the project summary of before.
\<close>

theorem restore_reversible:
  assumes "sheet_of md uid = Some r" and "memory_restore t1 uid v1 confirm md = (Inr n, md1)"
  shows "\<exists>md2 r2. memory_restore t2 uid (length (md_versions md)) confirm md1 = (Inr (n + 1), md2)
    \<and> sheet_of md2 uid = Some r2 \<and> um_content r2 = um_content r \<and> or_nil (um_project r2) = or_nil (um_project r)"
proof -
  from assms have conf: "confirm = ''RESTORE '' @ int_str uid" and n: "n = um_version r + 1"
    and md1: "md1 = put_sheet uid (r\<lparr>um_content := mv_content (md_versions md ! v1), um_project := Some (mv_project (md_versions md ! v1)),
       um_version := um_version r + 1, um_updated := t1\<rparr>) (keep_version uid r md)"
    by (auto simp: memory_restore_def Let_def split: if_splits)
  have last: "md_versions md1 ! length (md_versions md) = \<lparr>mv_user = uid, mv_version = um_version r, mv_content = um_content r, mv_project = or_nil (um_project r)\<rparr>"
    "length (md_versions md) < length (md_versions md1)"
    by (simp_all add: md1 keep_version_def)
  have "sheet_of md1 uid \<noteq> None" by (simp add: md1)
  then show ?thesis using conf last n
    by (auto simp: memory_restore_def Let_def or_nil_def md1)
qed

section \<open>The salience of a sheet\<close>

lemma round4_le: "x \<le> of_int n / 10000 \<Longrightarrow> round4 x \<le> of_int n / 10000"
  using round_half_even_le [of "x * 10000" n] by (simp add: round4_def)

lemma round4_ge: "of_int n / 10000 \<le> x \<Longrightarrow> of_int n / 10000 \<le> round4 x"
  using round_half_even_ge [of n "x * 10000"] by (simp add: round4_def)

lemma compute_salience_bounds: "0 \<le> compute_salience s n a e \<and> compute_salience s n a e \<le> 2"
  using round4_le [of _ 20000] round4_ge [of 0] by (simp add: compute_salience_def Let_def)

lemma round4_0 [simp]: "round4 0 = 0"
  by (simp add: round4_def round_half_even_def)

lemma salience_zero [simp]: "compute_salience 0 n a e = 0" "decay_salience 0 1 = 0" "decay_salience 0 (Suc 0) = 0"
  by (simp_all add: compute_salience_def decay_salience_def)

lemma round4_near: "x - 1 / 20000 \<le> round4 x"
proof -
  have "of_int (round_half_even y) \<ge> y - 1 / 2" for y :: real
    unfolding round_half_even_def Let_def by (auto; linarith)
  from this [of "x * 10000"] show ?thesis by (simp add: round4_def)
qed

text \<open>
  Compaction, meant to let the salience of a sheet decay, never lowers it in the usual range: the decay by five percent is saved
  only when the model rewrote the sheet, and then a tenth is added to it.
\<close>

theorem compaction_never_lowers_salience:
  assumes "sheet_of md uid = Some r" and "32 / 100 \<le> um_salience r" and "um_salience r \<le> 1999 / 1000"
  shows "\<exists>r'. sheet_of (compact_memory llm loads ids locked now uid md) uid = Some r' \<and> um_salience r \<le> um_salience r'"
proof -
  let ?d = "decay_salience (um_salience r) 1"
  have d: "95 / 100 * um_salience r - 1 / 20000 \<le> ?d"
    using assms(2) round4_near [of "max (um_salience r * (95 / 100)) 0"] by (simp add: decay_salience_def)
  with assms(2,3) have "\<not> ?d < 3 / 10" "um_salience r \<le> min (?d + 1 / 10) 2" by simp_all
  with assms(1) show ?thesis
    by (auto simp: compact_memory_def Let_def compacted_sheet_def split: option.split sum.split)
qed

lemmas memory_defs = Let_def sheet_of_def put_sheet_def dget_dset keep_version_def add_conflicts_def settle_expired_def
  take_turn_def load_memory_def touch_sheet_def update_memory_def restructure_memory_def compact_memory_def
  compacted_sheet_def cleared_sheet_def update_project_summary_def write_memory_def write_memory_fact_def decay_memory_def
  scan_conflicts_def resolve_conflict_endpoint_def resolve_conflict_def memory_restore_def hard_reset_sheet_def backup_sheet_def

fun raises_salience :: "memory_action \<Rightarrow> bool" where
  "raises_salience (WriteFact _) = True"
| "raises_salience _ = False"

definition numb :: "memory_db \<Rightarrow> int \<Rightarrow> bool" where
  "numb md uid \<longleftrightarrow> (\<exists>r. sheet_of md uid = Some r \<and> um_salience r = 0)"

lemma numb_act: "numb md uid \<Longrightarrow> \<not> raises_salience a \<Longrightarrow> numb (memory_act x now uid a md) uid"
proof (cases a)
  case Preferences
  assume "numb md uid"
  then have "numb (store_preferences t now uid block md) uid" for t block
    by (auto simp: numb_def store_preferences_def Let_def split: option.split)
  with \<open>numb md uid\<close> Preferences show ?thesis
    by (auto simp: extract_preferences_def Let_def split: option.split sum.split list.split bool.split)
qed (auto simp: numb_def memory_defs split: option.split sum.split)

lemma numb_run:
  assumes "numb md uid" and "list_all (\<lambda>(_, _, u, a). u = uid \<longrightarrow> \<not> raises_salience a) es"
  shows "numb (fold serial_step es md) uid"
  using assms
proof (induction es arbitrary: md)
  case (Cons e es)
  obtain x now u a where e: "e = (x, now, u, a)" by (cases e)
  have "numb (serial_step e md) uid"
  proof (cases "u = uid")
    case True
    with Cons.prems show ?thesis by (simp add: e serial_step_def numb_act)
  next
    case False
    with Cons.prems other_sheet [OF act_sheet_change [of u a md x now], of uid] show ?thesis
      by (simp add: e serial_step_def numb_def)
  qed
  with Cons show ?case by simp
qed simp

text \<open>
  A sheet that was reset, or cleared by a compaction, is cleared again: its salience is 0 then, and turns, summaries, edits and even
  the restore of a snapshot leave it at 0, so the next compaction empties a sheet of a hundred
  words; only the writing of a single fact raises the salience.
\<close>

theorem reset_sheet_cleared_again:
  assumes "sheet_of md uid = Some r" and "list_all (\<lambda>(_, _, u, a). u = uid \<longrightarrow> \<not> raises_salience a) es"
    and "sheet_of (fold serial_step es (hard_reset_sheet t0 uid md)) uid = Some r'" and "length (split_ws (strip (um_content r'))) \<ge> 100"
  shows "\<exists>r''. sheet_of (compact_memory llm loads ids True now uid (fold serial_step es (hard_reset_sheet t0 uid md))) uid = Some r''
    \<and> um_content r'' = []"
proof -
  have "numb (hard_reset_sheet t0 uid md) uid" using assms(1) by (simp add: numb_def hard_reset_sheet_def cleared_sheet_def)
  from numb_run [OF this assms(2)] assms(3) have "um_salience r' = 0" by (simp add: numb_def)
  moreover have "um_content r' \<noteq> []" using assms(4) by (auto simp: split_ws_def)
  ultimately show ?thesis using assms(3,4) by (simp add: compact_memory_def Let_def cleared_sheet_def)
qed

section \<open>What runs at the same time as a summary\<close>

text \<open>
  A fact written while a summary is being made is lost without a trace: the endpoint does not take the lock of the summary, so the summary
  ends by writing the sheet it made of what it had read; the fact is in neither the sheet nor the snapshots, which hold
  the old sheet twice under one version, and the sheet gets the version it had already.
\<close>

theorem fact_during_summary_lost:
  assumes "sheet_of (mw_db w) uid = Some r" and "summarize (mx_llm x) (mx_messages x) (Some r) cid (mx_chat x) = Some updated"
    and "mx_locked x" and "updated \<noteq> um_content r"
  shows "let w' = fold memory_step [Reads j uid, Acts k y t1 uid (WriteFact remark), Acts j x t2 uid (Summarize cid)] w in \<exists>r1 r2. sheet_of (mw_db (memory_step (Acts k y t1 uid (WriteFact remark)) w)) uid = Some r1
    \<and> sheet_of (mw_db w') uid = Some r2 \<and> um_content r2 = updated \<and> um_version r2 = um_version r1
    \<and> md_versions (mw_db w') = md_versions (keep_version uid r (keep_version uid r (mw_db w)))"
  using assms
  by (simp add: row_read_def end_session_def write_memory_fact_def Let_def late_write_def as_read_def update_memory_def
      keep_version_def put_sheet_def sheet_of_def dget_dset orm_write_def written_def)

section \<open>Which messages are summarized\<close>

definition summarized_until :: "memory_db \<Rightarrow> int \<Rightarrow> real \<Rightarrow> bool" where
  "summarized_until md uid t \<longleftrightarrow> (\<exists>r t'. sheet_of md uid = Some r \<and> um_last_summarized r = Some t' \<and> t \<le> t')"

lemma summarized_act:
  assumes "summarized_until md uid t" and "t \<le> now"
  shows "summarized_until (memory_act x now uid a md) uid t"
proof (cases a)
  case Preferences
  from assms have "summarized_until (store_preferences t' now uid block md) uid t" for t' block
    by (auto simp: summarized_until_def store_preferences_def Let_def split: option.split)
  with assms Preferences show ?thesis
    by (auto simp: extract_preferences_def Let_def split: option.split sum.split list.split bool.split)
qed (use assms in \<open>auto simp: summarized_until_def memory_defs split: option.split sum.split\<close>)

lemma summarized_run:
  assumes "summarized_until md uid t" and "list_all (\<lambda>(_, now, u, _). u = uid \<longrightarrow> t \<le> now) es"
  shows "summarized_until (fold serial_step es md) uid t"
  using assms
proof (induction es arbitrary: md)
  case (Cons e es)
  obtain x now u a where e: "e = (x, now, u, a)" by (cases e)
  have "summarized_until (serial_step e md) uid t"
  proof (cases "u = uid")
    case True
    with Cons.prems show ?thesis by (simp add: e serial_step_def summarized_act)
  next
    case False
    with Cons.prems other_sheet [OF act_sheet_change [of u a md x now], of uid] show ?thesis
      by (simp add: e serial_step_def summarized_until_def)
  qed
  with Cons show ?case by simp
qed simp

text \<open>
  The time of the last summary belongs to the user, the messages a summary reads to one conversation: once the sheet was updated from a conversation,
  the messages other conversations hold by then are never read by a later summary.
\<close>

theorem other_conversations_never_summarized:
  assumes "summarize llm ord (sheet_of md uid) cid db = Some updated"
    and "list_all (\<lambda>(_, t, u, _). u = uid \<longrightarrow> now \<le> t) es"
    and "m \<in> set (messages_of db' cid')" and "mg_created m \<le> now"
  shows "m \<notin> set (new_messages ord' (sheet_of (fold serial_step es (update_memory llm ord True now uid cid db md)) uid) cid' db')"
proof -
  have "summarized_until (update_memory llm ord True now uid cid db md) uid now"
    using assms(1) by (cases "sheet_of md uid") (simp_all add: update_memory_def summarized_until_def)
  from summarized_run [OF this assms(2)] assms(4) show ?thesis
    by (auto simp: summarized_until_def new_messages_def)
qed

section \<open>Preferences are read back\<close>

lemma startswith_append_short: "length p \<le> length s \<Longrightarrow> startswith (s @ t) p = startswith s p"
  by (simp add: startswith_def)

lemma split_tag_None: "p \<noteq> [] \<Longrightarrow> split_tag p s = None \<longleftrightarrow> \<not> contains p s"
  by (induction s) auto

lemma split_tag_here: "split_tag p (p @ b) = Some ([], b)"
proof (cases "p @ b")
  case (Cons c t)
  have "startswith (c # t) p" "drop (length p) (c # t) = b"
    using startswith_self_append [of p b] append_eq_conv_conj [of p b "c # t"] Cons by simp_all
  then show ?thesis unfolding Cons by simp
qed simp

lemma split_tag_again: "split_tag p s = Some (a, b) \<Longrightarrow> split_tag p (a @ p @ b') = Some (a, b')"
proof (induction s arbitrary: a)
  case Nil
  then show ?case by (cases b') (auto split: if_splits)
next
  case (Cons c s)
  show ?case
  proof (cases "startswith (c # s) p")
    case True
    with Cons.prems have "a = []" by simp
    then show ?thesis by (simp add: split_tag_here)
  next
    case False
    with Cons.prems obtain a' where a: "a = c # a'" "split_tag p s = Some (a', b)" by (auto)
    from a(2) have s: "s = a' @ p @ b"
    proof (induction s arbitrary: a')
      case (Cons d s)
      then show ?case by (cases "startswith (d # s) p") (auto simp: startswith_def, metis append_take_drop_id)
    qed (auto split: if_splits)
    have "\<not> startswith ((c # a' @ p) @ b') p"
      using False startswith_append_short [of p "c # a' @ p" b] startswith_append_short [of p "c # a' @ p" b'] by (simp add: s)
    with Cons.IH [OF a(2)] show ?thesis by (simp add: a(1))
  qed
qed

lemma split_tag_after:
  assumes "\<not> contains p u" and "CHR 0x0A \<notin> set p" and "p \<noteq> []"
  shows "split_tag p (u @ newline @ newline @ p @ b) = Some (u @ newline @ newline, b)"
  using assms(1)
proof (induction u)
  case Nil
  note split_tag_here [of p b]
  moreover have "\<not> startswith (CHR 0x0A # t) p" for t using assms(2,3) by (cases p) (auto simp: startswith_def)
  ultimately show ?case by simp
next
  case (Cons c u)
  have "\<not> startswith (c # u @ newline @ newline @ p @ b) p"
  proof
    assume st: "startswith (c # u @ newline @ newline @ p @ b) p"
    show False
    proof (cases "length p \<le> length (c # u)")
      case True
      with st startswith_append_short [OF True, of "newline @ newline @ p @ b"] Cons.prems show False by simp
    next
      case False
      with st have "p = take (length p) ((c # u) @ newline @ newline @ p @ b)" by (simp add: startswith_def)
      with False have "CHR 0x0A \<in> set p"
        by (metis append_Cons in_set_conv_decomp in_set_takeD le_add1 le_neq_implies_less linorder_not_le nth_append_length nth_mem
            length_take nth_take append_eq_conv_conj)
      with assms(2) show False by simp
    qed
  qed
  with Cons show ?case by simp
qed

lemma pref_rest: "drop (length (pref_body s)) s = [] \<or> hd (drop (length (pref_body s)) s) = CHR 0x5B \<or> drop (length (pref_body s)) s = newline"
  by (induction s) auto

lemma pref_body_block:
  assumes "CHR 0x5B \<notin> set xs" and "xs = [] \<or> last xs \<noteq> CHR 0x0A" and "rest = [] \<or> hd rest = CHR 0x5B \<or> rest = newline"
  shows "pref_body (xs @ rest) = xs"
  using assms(1,2)
proof (induction xs)
  case Nil
  then show ?case using assms(3) by (cases rest) auto
next
  case (Cons x xs)
  then show ?case by (cases xs) (auto split: if_splits)
qed

lemma last_strip: "strip s \<noteq> [] \<Longrightarrow> \<not> py_isspace (last (strip s))"
  unfolding strip_def rstrip_def by (metis hd_dropWhile last_rev rev_is_Nil_conv)

lemma contains_strip: "contains p (strip s) \<Longrightarrow> contains p s"
proof -
  assume "contains p (strip s)"
  moreover have "sublist (strip s) s"
  proof -
    have "sublist (rstrip (lstrip s)) (lstrip s)"
      unfolding rstrip_def by (metis rev_rev_ident sublist_rev_left suffix_dropWhile suffix_imp_sublist)
    moreover have "sublist (lstrip s) s" by (simp add: lstrip_def suffix_dropWhile suffix_imp_sublist)
    ultimately show ?thesis unfolding strip_def by (meson sublist_order.order_trans)
  qed
  ultimately show ?thesis unfolding contains_iff_sublist by (meson sublist_order.order_trans)
qed

text \<open>
  Preferences that were stored are read back: whatever the sheet said, a block without brackets and backslashes is the section
  that is found in the sheet afterwards.
\<close>

theorem preferences_roundtrip:
  assumes "CHR 0x5B \<notin> set block" and "CHR 0x5C \<notin> set block" and "strip block = block" and "block \<noteq> []"
  shows "\<exists>t. replace_or_append_pref template current block = Some t \<and> extract_pref_section t = Some block"
proof -
  have last: "last block \<noteq> CHR 0x0A" using last_strip [of block] assms(3,4) by (auto simp: py_isspace_def code_def)
  have body: "strip (pref_body (newline @ block @ rest)) = block" if "rest = [] \<or> hd rest = CHR 0x5B \<or> rest = newline" for rest
  proof -
    have "pref_body (newline @ block @ rest) = newline @ block"
      using pref_body_block [OF assms(1) _ that] last assms(4) by simp
    moreover have "strip (newline @ block) = strip block"
      by (simp add: strip_def lstrip_def py_isspace_def code_def)
    ultimately show ?thesis using assms(3) by simp
  qed
  have clean: "CHR 0x5C \<notin> set (PREF_TAG @ newline @ block)" using assms(2) by (simp add: PREF_TAG_def)
  show ?thesis
  proof (cases "split_tag PREF_TAG current")
    case (Some ab)
    obtain a b where ab: "ab = (a, b)" by (cases ab)
    let ?rest = "drop (length (pref_body b)) b"
    have "split_tag PREF_TAG (a @ PREF_TAG @ newline @ block @ ?rest) = Some (a, newline @ block @ ?rest)"
      using split_tag_again Some ab by blast
    with body [OF pref_rest] clean Some ab show ?thesis
      by (auto simp: replace_or_append_pref_def Let_def extract_pref_section_def)
  next
    case None
    have tag: "PREF_TAG \<noteq> []" "CHR 0x0A \<notin> set PREF_TAG" by (simp_all add: PREF_TAG_def)
    from None tag have "\<not> contains PREF_TAG current" by (simp add: split_tag_None)
    then have no: "\<not> contains PREF_TAG (strip current)" using contains_strip by blast
    note split_tag_here [of PREF_TAG "newline @ block"]
    moreover note split_tag_after [OF no tag(2,1), of "newline @ block"]
    ultimately show ?thesis using body [of "[]"] None
      by (auto simp: replace_or_append_pref_def Let_def extract_pref_section_def)
  qed
qed

theorem preferences_roundtrip_witness:
  "\<exists>t. replace_or_append_pref Some ''[USER]'' ''tone: casual'' = Some t \<and> extract_pref_section t = Some ''tone: casual''"
  by (rule preferences_roundtrip) (simp_all add: strip_def lstrip_def rstrip_def py_isspace_def code_def)

section \<open>Examples\<close>

definition sample_sheet :: memory_row where
  "sample_sheet = new_sheet ''name: Ann'' 1 0"

definition sample_memory :: memory_db where
  "sample_memory = put_sheet 7 sample_sheet no_memory"

definition sample_env :: memory_env where
  "sample_env = \<lparr>mx_llm = (\<lambda>_ _. Inr (True, Some ''name: Bob'')), mx_loads = (\<lambda>_. None), mx_template = (\<lambda>_. None), mx_uuid = Some,
     mx_ids = (\<lambda>_. ''k''), mx_messages = id, mx_convs = id, mx_locked = True, mx_chat = sample_db\<rparr>"

lemma sample_sheet_of [simp]: "sheet_of sample_memory 7 = Some sample_sheet"
  by (simp add: sample_memory_def)

definition sample_world :: memory_world where
  "sample_world = \<lparr>mw_db = sample_memory, mw_reads = []\<rparr>"

text \<open>A turn is overtaken by an edit.\<close>

theorem sheet_stays_recoverable_witness:
  "recoverable (mw_db (fold memory_step [Reads 1 7, Acts 2 sample_env 5 7 (PutSheet ''name: Eve'' []), Acts 1 sample_env 6 7 Turn] sample_world)) 7 ''name: Ann''"
  using sheet_stays_recoverable [of sample_world 7 sample_sheet
      "[Reads 1 7, Acts 2 sample_env 5 7 (PutSheet ''name: Eve'' []), Acts 1 sample_env 6 7 Turn]"]
  by (simp add: sample_sheet_def sample_world_def all_read_def)

theorem snapshots_in_order_witness:
  "let md = mw_db (fold memory_step [Acts 1 sample_env 5 7 (PutSheet ''name: Eve'' []), Reads 2 7, Acts 2 sample_env 6 7 HardReset] no_memory_world)
   in sorted (versions_by md 7) \<and> versions_by md 7 = [1]"
proof -
  let ?es = "[Acts 1 sample_env 5 7 (PutSheet ''name: Eve'' []), Reads 2 7, Acts 2 sample_env 6 7 HardReset]"
  have "never_overtaken ?es no_memory_world"
    by (simp add: unmoved_def row_read_def no_memory_world_def no_memory_def write_memory_def end_session_def Let_def)
  from snapshots_in_order [OF this, of 7] have "sorted (versions_by (mw_db (fold memory_step ?es no_memory_world)) 7)" by blast
  moreover have "versions_by (mw_db (fold memory_step ?es no_memory_world)) 7 = [1]"
    by (simp add: row_read_def no_memory_world_def no_memory_def write_memory_def end_session_def Let_def late_write_def as_read_def
        hard_reset_sheet_def versions_by_def keep_version_def put_sheet_def sheet_of_def dget_dset new_sheet_def)
  ultimately show ?thesis by (simp add: Let_def)
qed

theorem restore_reversible_witness:
  "\<exists>md1 md2 r2. memory_restore 5 7 0 (''RESTORE '' @ int_str 7) (keep_version 7 (new_sheet ''name: Old'' 0 0) sample_memory) = (Inr 2, md1)
    \<and> memory_restore 6 7 1 (''RESTORE '' @ int_str 7) md1 = (Inr 3, md2) \<and> sheet_of md2 7 = Some r2 \<and> um_content r2 = ''name: Ann''"
proof -
  let ?md = "keep_version 7 (new_sheet ''name: Old'' 0 0) sample_memory"
  have sheet: "sheet_of ?md 7 = Some sample_sheet" by simp
  have versions: "length (md_versions ?md) = 1" "mv_user (md_versions ?md ! 0) = 7"
    by (simp_all add: keep_version_def sample_memory_def no_memory_def)
  obtain md1 where run: "memory_restore 5 7 0 (''RESTORE '' @ int_str 7) ?md = (Inr 2, md1)"
    unfolding memory_restore_def Let_def sheet by (simp add: versions sample_sheet_def)
  with restore_reversible [OF sheet run, of 6] versions(1) run show ?thesis by (auto simp: sample_sheet_def)
qed

theorem compaction_never_lowers_salience_witness:
  "\<exists>r'. sheet_of (compact_memory (\<lambda>_ _. Inr (True, Some ''a'')) (\<lambda>_. None) (\<lambda>_. ''k'') True 5 7 sample_memory) 7 = Some r' \<and> 1 \<le> um_salience r'"
  using compaction_never_lowers_salience [of sample_memory 7 sample_sheet] by (simp add: sample_sheet_def new_sheet_def)

definition hundred_words :: string where
  "hundred_words = concat (replicate 100 ''ab '')"

lemma hundred_words_kept: "length (split_ws (strip (limit_words 500 (strip hundred_words)))) \<ge> 100"
  by code_simp

theorem reset_sheet_cleared_again_witness:
  "\<exists>r''. sheet_of (compact_memory (\<lambda>_ _. Inr (True, None)) (\<lambda>_. None) (\<lambda>_. ''k'') True 9 7
      (fold serial_step [(sample_env, 6, 7, PutSheet hundred_words [])] (hard_reset_sheet 5 7 sample_memory))) 7 = Some r'' \<and> um_content r'' = []"
proof (rule reset_sheet_cleared_again [OF sample_sheet_of])
  show "sheet_of (fold serial_step [(sample_env, 6, 7, PutSheet hundred_words [])] (hard_reset_sheet 5 7 sample_memory)) 7
     = Some ((cleared_sheet 5 sample_sheet)\<lparr>um_content := limit_words 500 (strip hundred_words), um_project := Some [], um_version := 3, um_updated := 6\<rparr>)"
    by (simp add: serial_step_def write_memory_def Let_def hard_reset_sheet_def cleared_sheet_def sample_sheet_def new_sheet_def limit_words_def split_ws_def)
qed (simp_all add: hundred_words_kept)

lemma sample_summary: "summarize (\<lambda>_ _. Inr (True, Some ''name: Bob'')) id (Some sample_sheet) ''c1'' sample_db = Some ''name: Bob''"
  by (simp add: summarize_def Let_def new_messages_def sample_sheet_def new_sheet_def oldest_first_def set_order_def py_sort_key_def messages_of_def
      sample_db_def sample_message_def sheet_reply_def content_of_def strip_def lstrip_def rstrip_def py_isspace_def code_def NO_UPDATE_def
      limit_words_def split_ws_def)

theorem fact_during_summary_lost_witness:
  "\<exists>r2. sheet_of (mw_db (fold memory_step [Reads 1 7, Acts 2 sample_env 5 7 (WriteFact ''likes tea''), Acts 1 sample_env 6 7 (Summarize ''c1'')] sample_world)) 7
      = Some r2 \<and> um_content r2 = ''name: Bob''"
proof -
  have "sheet_of (mw_db sample_world) 7 = Some sample_sheet" by (simp add: sample_world_def)
  moreover have "summarize (mx_llm sample_env) (mx_messages sample_env) (Some sample_sheet) ''c1'' (mx_chat sample_env) = Some ''name: Bob''"
    using sample_summary by (simp add: sample_env_def)
  moreover have "mx_locked sample_env" "''name: Bob'' \<noteq> um_content sample_sheet" by (simp_all add: sample_env_def sample_sheet_def)
  ultimately show ?thesis using fact_during_summary_lost [of sample_world 7 sample_sheet sample_env "''c1''" "''name: Bob''"] unfolding Let_def by blast
qed

theorem other_conversations_never_summarized_witness:
  "sample_message ''user'' ''Hi'' 0 \<notin> set (new_messages id (sheet_of (fold serial_step [(sample_env, 9, 7, Turn)]
      (update_memory (\<lambda>_ _. Inr (True, Some ''name: Bob'')) id True 5 7 ''c1'' sample_db sample_memory)) 7) ''c1'' sample_db)"
  by (rule other_conversations_never_summarized [where updated = "''name: Bob''" and cid' = "''c1''"])
    (simp_all add: sample_summary, simp_all add: messages_of_def sample_db_def sample_message_def)

end
