(* ===== verification/Chat_Context.thy ===== *)
theory Chat_Context
  imports Memory_Sheet Intent_Router Connector_Intent Context_Budget
begin

text \<open>
  What is put together for a turn before a model is asked (\<^verbatim>\<open>_build_stream_context\<close> of
  \<^verbatim>\<open>backend/api/chat/helpers.py\<close>), stage by stage: the memory sheet, the insights, the kind of the
  query and the intent, the closing cascade (\<^verbatim>\<open>backend/llm/closing_intent.py\<close>), the history, the
  retrieval over messages and files, the conflicts, the last session, the graph and the goals.
  Every stage adds its step to the trace; the detail texts and the times of the steps are not
  modelled. The services (embedding, models, graph) and what the queries for insights and goals
  return are fields of the environment. The patterns of trivial messages are those with characters
  below 256.
\<close>

section \<open>The request\<close>

record chat_request =
  rq_message :: string
  rq_conversation_id :: "string option"
  rq_model_override :: "string option"
  rq_temperature :: "real option"
  rq_max_tokens :: "int option"
  rq_top_p :: "real option"
  rq_compare :: bool
  rq_image_b64 :: "string option"
  rq_image_mime_type :: "string option"
  rq_file_ids :: "string list"
  rq_compare_models :: "string list option"

definition extract_model_params :: "chat_request \<Rightarrow> pydict option" where
  "extract_model_params req =
     (let p = (case rq_temperature req of Some t \<Rightarrow> [(''temperature'', PFloat t)] | None \<Rightarrow> [])
            @ (case rq_max_tokens req of Some n \<Rightarrow> [(''max_tokens'', PInt n)] | None \<Rightarrow> [])
            @ (case rq_top_p req of Some x \<Rightarrow> [(''top_p'', PFloat x)] | None \<Rightarrow> [])
      in if p = [] then None else Some p)"

definition estimate_text_tokens :: "string list \<Rightarrow> int" where
  "estimate_text_tokens texts = sum_list (map (\<lambda>t. int (length t div 4)) texts)"

definition TRIVIAL_PATTERNS :: "string list" where
  "TRIVIAL_PATTERNS =
     [''hello'', ''hi'', ''hey'', ''thanks'', ''thank you'', ''ok'', ''okay'', ''bye'', ''goodbye'', ''good morning'',
      ''good afternoon'', ''good evening'', ''yes'', ''no'', ''nice'', ''great'', ''cool'', ''sure'', ''yeah'']"

definition is_trivial :: "string \<Rightarrow> bool" where
  "is_trivial message =
     (let msg = rev (dropWhile (\<lambda>c. c \<in> set ''.!?,'') (rev (lower (strip message))))
      in msg \<in> set TRIVIAL_PATTERNS \<or> length (split_ws msg) \<le> 2)"

section \<open>The closing cascade\<close>

definition CLOSING_PHRASES :: "string list" where
  "CLOSING_PHRASES =
     [''thanks that's all'', ''okay thank you, that's everything'', ''great, thanks so much for the help'',
      ''perfect, that's all i needed'', ''appreciate it, i'm all set now'', ''thank you, no more questions'',
      ''got it, thanks a lot'', ''that's everything for now, thanks'', ''awesome, that works, thank you'',
      ''cool, i think i'm good now'', ''thanks, that answers my question'', ''alright, that's all from me'',
      ''thank you so much, have a good day'', ''no worries, i'm done here thanks'', ''that's exactly what i needed, cheers'',
      ''okay great, i'll take it from here thanks'', ''thanks for walking me through that'', ''that's all i wanted to know, thank you'',
      ''perfect, nothing else for now'', ''thanks, i really appreciate your help'', ''we're all good now, thank you'',
      ''that clears it up, thanks a bunch'', ''goodbye and thanks again'', ''that's it, thank you for everything'']"

definition CLOSING_THRESHOLD :: real where
  "CLOSING_THRESHOLD = 60 / 100"

definition TIER2_MIN_TOKENS :: nat where
  "TIER2_MIN_TOKENS = 3"

definition TIER2_MAX_TOKENS :: nat where
  "TIER2_MAX_TOKENS = 18"

type_synonym closing_anchors = "real list list option"

definition closing_build :: "bool \<Rightarrow> phrase_net \<Rightarrow> closing_anchors" where
  "closing_build client net =
     (let vecs = map normalize_vec (List.map_filter (embed_phrase client net) CLOSING_PHRASES)
      in if length vecs < length CLOSING_PHRASES then None else Some vecs)"

definition closing_get :: "bool \<Rightarrow> phrase_net \<Rightarrow> closing_anchors \<Rightarrow> closing_anchors" where
  "closing_get client net st = (if st = None then closing_build client net else st)"

definition closing_score :: "bool \<Rightarrow> phrase_net \<Rightarrow> real list option \<Rightarrow> closing_anchors \<Rightarrow> real \<times> closing_anchors" where
  "closing_score client net query_emb st =
     (case query_emb of
        None \<Rightarrow> (0, st)
      | Some [] \<Rightarrow> (0, st)
      | Some q \<Rightarrow>
          (case closing_get client net st of
             None \<Rightarrow> (0, None)
           | Some [] \<Rightarrow> (0, Some [])
           | Some as \<Rightarrow> (Max (set (map (dot (normalize_vec q)) as)), Some as)))"

definition has_embedding :: "real list option \<Rightarrow> bool" where
  "has_embedding e = (case e of Some (x # xs) \<Rightarrow> True | _ \<Rightarrow> False)"

text \<open>The second tier: an embedded turn that is no request, of the usual length, near a closing phrase.\<close>

definition closes_by_meaning :: "bool \<Rightarrow> phrase_net \<Rightarrow> string \<Rightarrow> real list option \<Rightarrow> closing_anchors \<Rightarrow> bool \<times> closing_anchors" where
  "closes_by_meaning client net message query_emb st =
     (let n = length (split_ws message) in
      if has_embedding query_emb \<and> \<not> looks_like_request message \<and> TIER2_MIN_TOKENS \<le> n \<and> n \<le> TIER2_MAX_TOKENS
      then let (score, st1) = closing_score client net query_emb st in (score \<ge> CLOSING_THRESHOLD, st1)
      else (False, st))"

section \<open>The retrieval policy of a turn\<close>

definition intent_policy :: "string \<Rightarrow> policy \<Rightarrow> policy" where
  "intent_policy intent p =
     (if intent = ''exploration'' then p\<lparr>top_k := top_k p + 4, k_dense := max (k_dense p) 20\<rparr>
      else if intent = ''question'' then p\<lparr>top_k := max 2 (top_k p - 1)\<rparr>
      else p)"

section \<open>The history\<close>

definition history_candidates :: "(chat_message list \<Rightarrow> chat_message list) \<Rightarrow> chat_db \<Rightarrow> string \<Rightarrow> chat_message list" where
  "history_candidates ord db cid = rev (take 30 (newest_first ord (messages_of db cid)))"

definition history_score :: "(string \<times> real) list \<Rightarrow> nat \<Rightarrow> nat \<times> chat_message \<Rightarrow> real" where
  "history_score relevance n p =
     6 / 10 * (of_nat (fst p) / of_nat (max (n - 1) 1))
     + 4 / 10 * (case dget relevance (mg_id (snd p)) of Some r \<Rightarrow> r | None \<Rightarrow> 0)"

definition select_history :: "(string \<times> real) list \<Rightarrow> chat_message list \<Rightarrow> chat_message list" where
  "select_history relevance cands =
     py_sort_key mg_created
       (map snd (take 10 (py_sort_key (\<lambda>p. - history_score relevance (length cands) p) (enumerate 0 cands))))"

section \<open>The files of a turn\<close>

definition owned_names :: "chat_db \<Rightarrow> int \<Rightarrow> string list \<Rightarrow> (string \<times> string) list" where
  "owned_names db uid fids =
     map (\<lambda>f. (fr_id f, fr_name f)) (filter (\<lambda>f. fr_id f \<in> set fids \<and> fr_user f = uid) (cd_files db))"

definition pick_owned :: "chat_db \<Rightarrow> int \<Rightarrow> string list \<Rightarrow> string list \<times> string list" where
  "pick_owned db uid fids =
     (let names = owned_names db uid fids; safe = filter (\<lambda>f. dget names f \<noteq> None) fids
      in (safe, map (\<lambda>f. the (dget names f)) safe))"

definition request_files :: "(string \<Rightarrow> string option) \<Rightarrow> bool \<Rightarrow> chat_db \<Rightarrow> int \<Rightarrow> chat_request \<Rightarrow> string \<Rightarrow> string list \<times> string list" where
  "request_files parse_uuid up db uid req cid =
     (let req_fids = List.map_filter parse_uuid (rq_file_ids req) in
      if set_and_nonempty (rq_conversation_id req) then
        let (conv_ids, conv_names) = get_conversation_files up (map (\<lambda>f. (fr_id f, fr_name f)) (cd_files db)) (cd_links db) cid;
            (safe, names) = pick_owned db uid (filter (\<lambda>f. f \<notin> set conv_ids) req_fids)
        in (conv_ids @ safe, conv_names @ names)
      else pick_owned db uid req_fids)"

definition context_only_files :: "chat_db \<Rightarrow> int \<Rightarrow> string list \<Rightarrow> real list option \<Rightarrow> string \<Rightarrow> string list" where
  "context_only_files db uid file_ids query_emb message =
     (if file_ids = [] \<and> has_embedding query_emb \<and> needs_file_tools message
      then map fr_id (filter (\<lambda>f. fr_user f = uid \<and> fr_status f = ''ready'') (cd_files db))
      else [])"

section \<open>Services of a turn\<close>

record chat_env =
  ce_cfg :: config
  ce_ask :: ask
  ce_embedding :: "real list option"
  ce_client :: bool
  ce_phrases :: phrase_net
  ce_scores_up :: bool
  ce_scores :: "embedding_row \<Rightarrow> real option"
  ce_retrieval :: "embedding_row retrieval_env"
  ce_rows :: "embedding_row list"
  ce_chunk_retrieval :: "chunk_row retrieval_env"
  ce_chunks :: "chunk_row list"
  ce_files_up :: bool
  ce_insights :: "string list"
  ce_graph_context :: "string result"
  ce_graph_facts :: "string result"
  ce_goals :: "(string \<times> string option) list result"
  ce_uuid :: "string \<Rightarrow> string option"
  ce_ord :: "chat_message list \<Rightarrow> chat_message list"
  ce_conv_ord :: "conversation list \<Rightarrow> conversation list"
  ce_now :: real

text \<open>A sheet in use raises the score of the hits, by at most a tenth, and orders them by it.\<close>

definition boost_hits :: "memory_row option \<Rightarrow> hit list \<Rightarrow> hit list" where
  "boost_hits row hits =
     (case row of
        None \<Rightarrow> hits
      | Some r \<Rightarrow>
          py_sort_key (\<lambda>h. - final_score h)
            (map (\<lambda>h. h\<lparr>final_score := final_score h * (1 + min (um_salience r) 2 * (5 / 100))\<rparr>) hits))"

definition message_hits :: "chat_env \<Rightarrow> policy \<Rightarrow> nat \<Rightarrow> bool \<Rightarrow> chat_db \<Rightarrow> int \<Rightarrow> string \<Rightarrow> string \<Rightarrow> string list \<Rightarrow> hit list" where
  "message_hits ce pol k is_ref db uid cid message exclude =
     (let hits = retrieve (ce_retrieval ce) (pol\<lparr>top_k := k\<rparr>) cid message exclude (ce_rows ce) in
      if is_ref \<and> hits = []
      then retrieve_global (ce_retrieval ce) (pol\<lparr>top_k := 5\<rparr>) (map (\<lambda>c. \<lparr>conversation_row.cr_id = cn_id c, cr_user = cn_user c, cr_archived = cn_archived c\<rparr>) (cd_convs db))
             (ce_now ce) cid uid message (ce_rows ce)
      else hits)"

definition file_hits :: "chat_env \<Rightarrow> policy \<Rightarrow> memory_row option \<Rightarrow> real list option \<Rightarrow> string list \<Rightarrow> string \<Rightarrow> hit list" where
  "file_hits ce pol row query_emb fids message =
     (if fids = [] then []
      else if has_embedding query_emb
      then boost_hits row (retrieve_from_files (ce_chunk_retrieval ce) pol fids message (ce_chunks ce))
      else retrieve_files_sequential (ce_chunk_retrieval ce) fids 10 (ce_chunks ce))"

definition last_session_text :: "chat_env \<Rightarrow> chat_db \<Rightarrow> int \<Rightarrow> chat_request \<Rightarrow> string \<Rightarrow> string" where
  "last_session_text ce db uid req cid =
     (if set_and_nonempty (rq_conversation_id req) then []
      else case py_sort_key (\<lambda>c. - cn_updated c) (set_order (ce_conv_ord ce) (filter (\<lambda>c. cn_user c = uid \<and> cn_id c \<noteq> cid) (cd_convs db))) of
        [] \<Rightarrow> []
      | c # _ \<Rightarrow>
          if cn_title c = [] then []
          else
            let secs = ce_now ce - cn_updated c; hours = secs / 3600
            in ''Last session: '' @ [CHR 0x22] @ cn_title c @ [CHR 0x22] @ '' '' @ em_dash @ '' ''
               @ (if hours < 1 then int_str (max 1 \<lfloor>secs / 60\<rfloor>) @ '' minutes ago''
                  else if hours < 24 then int_str \<lfloor>hours\<rfloor> @ '' hours ago''
                  else int_str \<lfloor>hours / 24\<rfloor> @ '' days ago''))"

definition goal_lines :: "(string \<times> string option) list \<Rightarrow> string" where
  "goal_lines goals =
     join_lines (map (\<lambda>(i, t, d). nat_str (i + 1) @ ''. '' @ t @ (case d of Some (x # xs) \<Rightarrow> '' '' @ em_dash @ '' '' @ (x # xs) | _ \<Rightarrow> []))
       (enumerate 0 goals))"

section \<open>The context of a turn\<close>

record chat_ctx =
  cx_memory_sheet :: string
  cx_project_summary :: string
  cx_history_summary :: string
  cx_history :: "chat_message list"
  cx_retrieved :: "hit list"
  cx_file_chunks :: "hit list"
  cx_file_names :: "string list"
  cx_file_ids :: "string list"
  cx_graph_context :: string
  cx_graph_facts :: string
  cx_active_goals :: string
  cx_recent_insights :: "string list"
  cx_conflicted_facts :: "string list"
  cx_policy_used :: string
  cx_intent :: string
  cx_query_emb :: "real list option"
  cx_embed_status :: string
  cx_top_k :: nat
  cx_fact_saliences :: "(string \<times> real) list"
  cx_last_session :: string
  cx_activity :: trace

record ctx_outcome =
  co_ctx :: chat_ctx
  co_memory :: memory_db
  co_closing :: closing_anchors
  co_settled :: bool
  \<comment> \<open>conflicts had expired, and the session was committed\<close>

definition graph_stage :: "chat_env \<Rightarrow> bool \<Rightarrow> string \<times> string \<times> trace" where
  "graph_stage ce closing =
     (if closing then ([], [], [(''graph'', ''info'')])
      else (case ce_graph_context ce of Inr g \<Rightarrow> g | Inl _ \<Rightarrow> [],
            case ce_graph_facts ce of Inr g \<Rightarrow> g | Inl _ \<Rightarrow> [],
            case (ce_graph_context ce, ce_graph_facts ce) of
              (Inr _, Inr _) \<Rightarrow> [(''graph'', ''info'')]
            | _ \<Rightarrow> [(''graph'', ''error'')]))"

definition goals_stage :: "chat_env \<Rightarrow> string \<times> trace" where
  "goals_stage ce =
     (case ce_goals ce of
        Inl _ \<Rightarrow> ([], [(''goals'', ''error'')])
      | Inr [] \<Rightarrow> ([], [])
      | Inr gs \<Rightarrow> (goal_lines gs, [(''goals'', ''info'')]))"

definition embed_stage :: "chat_env \<Rightarrow> bool \<Rightarrow> string \<Rightarrow> real list option \<times> string \<times> trace" where
  "embed_stage ce closing message =
     (if closing \<or> is_trivial message then (None, ''skipped'', [(''embed'', ''info'')])
      else case ce_embedding ce of
        Some v \<Rightarrow> (Some v, ''ok'', [(''embed'', ''info'')])
      | None \<Rightarrow> (None, ''failed'', [(''embed'', ''error'')]))"

definition build_stream_context :: "chat_env \<Rightarrow> chat_request \<Rightarrow> conversation \<Rightarrow> int \<Rightarrow> chat_db \<Rightarrow> closing_anchors \<Rightarrow> memory_db \<Rightarrow> ctx_outcome" where
  "build_stream_context ce req conv uid db cl md =
     (let now = ce_now ce; message = rq_message req; cid = cn_id conv;
          row0 = sheet_of md uid;
          (sheet, project, row) = load_memory now row0;
          md1 = (case row of Some r \<Rightarrow> put_sheet uid r md | None \<Rightarrow> md);
          is_ref = is_reference_query message;
          query_type = classify_query message;
          intent0 = fst (classify_intent_hybrid (ce_cfg ce) (ce_ask ce) message);
          pol = intent_policy intent0 (get_policy query_type);
          (query_emb, embed_status, act_embed) = embed_stage ce (intent0 = ''closing'') message;
          cands = (if set_and_nonempty (rq_conversation_id req) then history_candidates (ce_ord ce) db cid else []);
          (reclassified, cl1) = (if intent0 = ''closing'' then (False, cl)
                                 else closes_by_meaning (ce_client ce) (ce_phrases ce) message query_emb cl);
          intent = (if reclassified then ''closing'' else intent0);
          closing = (intent = ''closing'');
          relevance = (if has_embedding query_emb \<and> cands \<noteq> []
                       then get_relevance_scores (ce_scores_up ce) (ce_scores ce) cid (Some (map mg_id cands)) (ce_rows ce) else []);
          history = select_history relevance cands;
          k = max (top_k pol) (if is_ref then 8 else 0);
          retrieved0 = (if closing \<or> \<not> has_embedding query_emb then []
                        else message_hits ce pol k is_ref db uid cid message (map mg_id history));
          act_retrieval = (if closing \<or> has_embedding query_emb then [(''retrieval'', ''info'')] else []);
          retrieved = (if retrieved0 = [] then [] else boost_hits row retrieved0);
          (file_ids, file_names) = request_files (ce_uuid ce) (ce_files_up ce) db uid req cid;
          fids = (if file_ids \<noteq> [] then file_ids else context_only_files db uid file_ids query_emb message);
          chunks = file_hits ce pol row query_emb fids message;
          act_files = (if fids = [] then [] else [(''files'', if chunks = [] then ''error'' else ''info'')]);
          settled = (sheet \<noteq> [] \<and> list_ex (\<lambda>c. mc_user c = uid \<and> mc_resolution c = ''unresolved'' \<and> expired now c) (md_conflicts md1));
          conflicted = (if sheet = [] then [] else concat (map (\<lambda>c. [mc_fact_a c, mc_fact_b c]) (active_conflicts now uid md1)));
          md2 = (if sheet = [] then md1 else settle_expired now uid md1);
          (graph_context, graph_facts, act_graph) = graph_stage ce closing;
          (goals, act_goals) = goals_stage ce
      in \<lparr>co_ctx = \<lparr>cx_memory_sheet = sheet, cx_project_summary = project, cx_history_summary = or_nil (cn_summary conv),
                    cx_history = history, cx_retrieved = retrieved, cx_file_chunks = chunks, cx_file_names = file_names,
                    cx_file_ids = file_ids, cx_graph_context = graph_context, cx_graph_facts = graph_facts, cx_active_goals = goals,
                    cx_recent_insights = take 3 (ce_insights ce), cx_conflicted_facts = conflicted, cx_policy_used = query_type,
                    cx_intent = intent, cx_query_emb = query_emb, cx_embed_status = embed_status, cx_top_k = k,
                    cx_fact_saliences = (case row0 of Some r \<Rightarrow> um_fact_saliences r | None \<Rightarrow> []),
                    cx_last_session = last_session_text ce db uid req cid,
                    cx_activity = [(''memory'', ''info''), (''insights'', ''info''), (''classify'', ''info''), (''intent'', ''info'')] @ act_embed
                      @ (if reclassified then [(''intent'', ''info'')] else []) @ act_retrieval @ act_files @ act_graph @ act_goals\<rparr>,
          co_memory = md2, co_closing = cl1, co_settled = settled\<rparr>)"

section \<open>The order of the history\<close>

lemma enumerate_score_order:
  "py_sort_key (\<lambda>p. - history_score [] n p) (enumerate 0 ms) = rev (enumerate 0 ms)"
  unfolding py_sort_key_def
proof (rule sort_key_inj_key_eq)
  let ?d = "of_nat (max (n - 1) 1) :: real"
  have pos: "?d > 0" by simp
  have score: "history_score [] n p = 6 / 10 * (of_nat (fst p) / ?d)" for p :: "nat \<times> chat_message"
    by (simp add: history_score_def)
  have mono: "history_score [] n p \<le> history_score [] n q \<longleftrightarrow> fst p \<le> fst q" for p q :: "nat \<times> chat_message"
    unfolding score using pos by (simp add: divide_le_cancel)
  show "mset (enumerate 0 ms) = mset (rev (enumerate 0 ms))" by simp
  show "inj_on (\<lambda>p. - history_score [] n p) (set (enumerate 0 ms))"
  proof (rule inj_onI)
    fix p q assume p: "p \<in> set (enumerate 0 ms)" and q: "q \<in> set (enumerate 0 ms)"
      and eq: "- history_score [] n p = - history_score [] n q"
    from eq mono [of p q] mono [of q p] have "fst p = fst q" by simp
    moreover have "snd p = ms ! fst p" "snd q = ms ! fst q" using p q unfolding in_set_enumerate_eq by simp_all
    ultimately show "p = q" by (simp add: prod_eq_iff)
  qed
  have "sorted_wrt (\<lambda>p q. fst p \<le> fst q) (enumerate 0 ms)"
    unfolding sorted_wrt_iff_nth_less by (simp add: nth_enumerate_eq)
  then show "sorted (map (\<lambda>p. - history_score [] n p) (rev (enumerate 0 ms)))"
    unfolding sorted_map sorted_wrt_rev by (simp add: mono)
qed

lemma select_history_plain: "select_history [] ms = py_sort_key mg_created (take 10 (rev ms))"
  by (simp add: select_history_def enumerate_score_order take_map [symmetric] rev_map [symmetric])

lemma history_newest: "select_history [] (history_candidates ord db cid) = py_sort_key mg_created (take 10 (newest_first ord (messages_of db cid)))"
  by (simp add: select_history_plain history_candidates_def take_take)

lemma stable: "filter (\<lambda>x. key x = t) (py_sort_key key xs) = filter (\<lambda>x. key x = t) xs"
  by (simp add: py_sort_key_def sort_key_stable)

lemma prefix_filter_take: "prefix (filter P (take n xs)) (filter P xs)"
  by (metis append_take_drop_id filter_append prefixI)

lemma newest_first_at: "filter (\<lambda>m. mg_created m = t) (newest_first ord ms) = filter (\<lambda>m. mg_created m = t) (set_order ord ms)"
  using stable [of "\<lambda>m. - mg_created m" "- t" "set_order ord ms"] by (simp add: newest_first_def)

text \<open>
  C32. Without similarities, the history a turn is given is made of the newest messages of its conversation: as many as there are, at
  most ten, oldest first, and none that is left out is newer than one of them. Messages of one time, such as a question and its reply that were
  stored in one transaction, come in the order in which the database returned them, since nothing but the time is ever compared.
\<close>

theorem history_is_newest_ten:
  "let ms = messages_of db cid; h = select_history [] (history_candidates ord db cid)
   in sorted (map mg_created h) \<and> length h = min 10 (length ms) \<and> mset h \<subseteq># mset ms
      \<and> list_all (\<lambda>m. list_all (\<lambda>k. mg_created m \<le> mg_created k) h) (drop 10 (newest_first ord ms))
      \<and> mset h + mset (drop 10 (newest_first ord ms)) = mset ms
      \<and> prefix (filter (\<lambda>m. mg_created m = t) h) (filter (\<lambda>m. mg_created m = t) (set_order ord ms))"
proof -
  let ?ms = "messages_of db cid"
  let ?new = "newest_first ord ?ms"
  let ?h = "select_history [] (history_candidates ord db cid)"
  have ms: "mset ?new = mset ?ms" by (simp add: newest_first_def py_sort_key_def set_order_def)
  then have len: "length ?new = length ?ms" by (metis size_mset)
  have h: "mset ?h = mset (take 10 ?new)" by (simp add: history_newest py_sort_key_def)
  have all: "mset ?h + mset (drop 10 ?new) = mset ?ms"
    unfolding h ms [symmetric] by (metis append_take_drop_id mset_append)
  have "sorted_wrt (\<lambda>a b. mg_created b \<le> mg_created a) ?new"
    using sorted_py_sort_key [of "\<lambda>m. - mg_created m" "set_order ord ?ms"] by (simp add: newest_first_def sorted_map)
  then have "sorted_wrt (\<lambda>a b. mg_created b \<le> mg_created a) (take 10 ?new @ drop 10 ?new)" by simp
  then have "list_all (\<lambda>m. list_all (\<lambda>k. mg_created m \<le> mg_created k) ?h) (drop 10 ?new)"
    using mset_eq_setD [OF h] unfolding sorted_wrt_append list_all_iff by blast
  moreover have "filter (\<lambda>m. mg_created m = t) ?h = filter (\<lambda>m. mg_created m = t) (take 10 ?new)"
    unfolding history_newest by (rule stable)
  then have "prefix (filter (\<lambda>m. mg_created m = t) ?h) (filter (\<lambda>m. mg_created m = t) (set_order ord ?ms))"
    using prefix_filter_take [of "\<lambda>m. mg_created m = t" 10 ?new] by (simp add: newest_first_at)
  moreover have "length ?h = min 10 (length ?ms)" unfolding history_newest by (simp add: len)
  moreover have "mset ?h \<subseteq># mset ?ms" using all by (metis mset_subset_eq_add_left)
  moreover have "sorted (map mg_created ?h)" by (simp add: history_newest)
  ultimately show ?thesis using all by (simp add: Let_def)
qed

text \<open>
  A question and a reply of one time are shown in either order, as the database returns them: the reply may come before the
  question.
\<close>

theorem exchange_shown_in_query_order:
  assumes "messages_of db cid = [question, reply]" and "mg_created reply = mg_created question"
  shows "select_history [] (history_candidates id db cid) = [question, reply] \<and> select_history [] (history_candidates rev db cid) = [reply, question]"
  using assms by (simp add: history_newest newest_first_def set_order_def py_sort_key_def)

theorem exchange_shown_in_query_order_witness:
  "let q = sample_message ''user'' ''Hi'' 0; r = sample_message ''assistant'' ''Hello'' 0
   in select_history [] (history_candidates rev (sample_db\<lparr>cd_messages := [q, r]\<rparr>) ''c1'') = [r, q]"
  using exchange_shown_in_query_order [of "sample_db\<lparr>cd_messages := [sample_message ''user'' ''Hi'' 0, sample_message ''assistant'' ''Hello'' 0]\<rparr>" "''c1''"
      "sample_message ''user'' ''Hi'' 0" "sample_message ''assistant'' ''Hello'' 0"]
  by (simp add: Let_def messages_of_def sample_message_def)

section \<open>Files, failures and closing turns\<close>

lemma pick_owned_files: "set (fst (pick_owned db uid fids)) \<subseteq> {f. own_file db uid f \<noteq> None}"
  "length (snd (pick_owned db uid fids)) = length (fst (pick_owned db uid fids))"
  by (auto simp: pick_owned_def Let_def owned_names_def own_file_def dget_def find_None_iff map_of_eq_None_iff)

text \<open>
  C33. A turn only gets files the user may see: every file of a turn belongs to the user or was attached to the conversation, each has a name,
  and the files that only feed the context belong to the user.
\<close>

theorem files_of_turn_allowed:
  "set (fst (request_files parse_uuid up db uid req cid)) \<subseteq> {f. own_file db uid f \<noteq> None} \<union> {f. (cid, f) \<in> set (cd_links db)}
   \<and> length (snd (request_files parse_uuid up db uid req cid)) = length (fst (request_files parse_uuid up db uid req cid))
   \<and> set (context_only_files db uid fids query_emb message) \<subseteq> {f. own_file db uid f \<noteq> None}"
proof (intro conjI)
  obtain conv_ids conv_names where g: "get_conversation_files up (map (\<lambda>f. (fr_id f, fr_name f)) (cd_files db)) (cd_links db) cid = (conv_ids, conv_names)"
    by fastforce
  then have conv: "set conv_ids \<subseteq> {f. (cid, f) \<in> set (cd_links db)}" "length conv_names = length conv_ids"
    by (auto simp: get_conversation_files_def Let_def split: if_splits)
  show "set (fst (request_files parse_uuid up db uid req cid)) \<subseteq> {f. own_file db uid f \<noteq> None} \<union> {f. (cid, f) \<in> set (cd_links db)}"
  proof -
    let ?req_fids = "List.map_filter parse_uuid (rq_file_ids req)"
    obtain a1 b1 where p1: "pick_owned db uid (filter (\<lambda>f. f \<notin> set conv_ids) ?req_fids) = (a1, b1)" by fastforce
    have "set a1 \<subseteq> {f. own_file db uid f \<noteq> None}" using pick_owned_files(1) [of db uid "filter (\<lambda>f. f \<notin> set conv_ids) ?req_fids"] p1 by simp
    moreover have "set (fst (pick_owned db uid ?req_fids)) \<subseteq> {f. own_file db uid f \<noteq> None}" by (rule pick_owned_files(1))
    ultimately show ?thesis using conv(1) unfolding request_files_def Let_def g prod.case p1 by auto
  qed
  show "length (snd (request_files parse_uuid up db uid req cid)) = length (fst (request_files parse_uuid up db uid req cid))"
  proof -
    have "length b = length a" if "pick_owned db uid x = (a, b)" for a b x
      using pick_owned_files(2) [of db uid x] that by simp
    then show ?thesis using conv(2) by (simp add: request_files_def Let_def g split: prod.split)
  qed
  show "set (context_only_files db uid fids query_emb message) \<subseteq> {f. own_file db uid f \<noteq> None}"
    by (auto simp: context_only_files_def own_file_def find_None_iff)
qed

lemma embed_stage_shown:
  assumes "embed_stage ce closing message = (e, status, act)"
  shows "(''embed'', ''error'') \<in> set act \<longleftrightarrow> status = ''failed''" "set act \<subseteq> {''embed''} \<times> UNIV"
  using assms by (auto simp: embed_stage_def split: if_splits option.splits)

text \<open>
  A service that failed is shown: the trace of a turn has an error at the embedding, the graph or the goals exactly when the embedding failed,
  the graph failed in a turn that is not closing, or the goals could not be read.
\<close>

theorem failures_are_shown:
  "let ctx = co_ctx (build_stream_context ce req conv uid db cl md) in
     ((''embed'', ''error'') \<in> set (cx_activity ctx) \<longleftrightarrow> cx_embed_status ctx = ''failed'')
     \<and> ((''graph'', ''error'') \<in> set (cx_activity ctx) \<longleftrightarrow>
          cx_intent ctx \<noteq> ''closing'' \<and> (\<nexists>a b. ce_graph_context ce = Inr a \<and> ce_graph_facts ce = Inr b))
     \<and> ((''goals'', ''error'') \<in> set (cx_activity ctx) \<longleftrightarrow> (\<nexists>gs. ce_goals ce = Inr gs))"
proof -
  obtain sheet project row where mem: "load_memory (ce_now ce) (sheet_of md uid) = (sheet, project, row)" by (cases "load_memory (ce_now ce) (sheet_of md uid)")
  let ?intent = "fst (classify_intent_hybrid (ce_cfg ce) (ce_ask ce) (rq_message req))"
  obtain e status act where emb: "embed_stage ce (?intent = ''closing'') (rq_message req) = (e, status, act)"
    by (cases "embed_stage ce (?intent = ''closing'') (rq_message req)")
  obtain re cl1 where cls: "(if ?intent = ''closing'' then (False, cl) else closes_by_meaning (ce_client ce) (ce_phrases ce) (rq_message req) e cl) = (re, cl1)"
    by fastforce
  obtain fids names where files: "request_files (ce_uuid ce) (ce_files_up ce) db uid req (cn_id conv) = (fids, names)" by fastforce
  obtain gc gf actg where graph: "graph_stage ce ((if re then ''closing'' else ?intent) = ''closing'') = (gc, gf, actg)"
    by (cases "graph_stage ce ((if re then ''closing'' else ?intent) = ''closing'')")
  obtain goals acto where goals: "goals_stage ce = (goals, acto)" by fastforce
  let ?ctx = "co_ctx (build_stream_context ce req conv uid db cl md)"
  have status: "cx_embed_status ?ctx = status" and intent: "cx_intent ?ctx = (if re then ''closing'' else ?intent)"
    and act: "\<exists>mid. cx_activity ?ctx = [(''memory'', ''info''), (''insights'', ''info''), (''classify'', ''info''), (''intent'', ''info'')] @ act @ mid @ actg @ acto
        \<and> set mid \<subseteq> {''intent'', ''retrieval'', ''files''} \<times> UNIV"
    unfolding build_stream_context_def Let_def mem emb cls files graph goals prod.case by (simp_all, auto)
  from act obtain mid where act: "cx_activity ?ctx = [(''memory'', ''info''), (''insights'', ''info''), (''classify'', ''info''), (''intent'', ''info'')] @ act @ mid @ actg @ acto"
    "set mid \<subseteq> {''intent'', ''retrieval'', ''files''} \<times> UNIV" by blast
  have "set actg \<subseteq> {''graph''} \<times> UNIV" "(''graph'', ''error'') \<in> set actg \<longleftrightarrow>
      (if re then ''closing'' else ?intent) \<noteq> ''closing'' \<and> (\<nexists>a b. ce_graph_context ce = Inr a \<and> ce_graph_facts ce = Inr b)"
    using graph by (auto simp: graph_stage_def split: if_splits sum.splits)
  moreover have "set acto \<subseteq> {''goals''} \<times> UNIV" "(''goals'', ''error'') \<in> set acto \<longleftrightarrow> (\<nexists>gs. ce_goals ce = Inr gs)"
    using goals by (auto simp: goals_stage_def split: sum.splits list.splits)
  moreover note embed_stage_shown [OF emb] act(2)
  ultimately show ?thesis unfolding Let_def act(1) status intent by auto
qed

end
