(* ===== verification/Chat_Turn.thy ===== *)
theory Chat_Turn
  imports Chat_Context Service_Stream Accounts Content_Filter
begin

text \<open>
  The endpoint \<^verbatim>\<open>POST /chat/stream\<close> (\<^verbatim>\<open>backend/api/chat/stream.py\<close>), which joins the components of a
  turn: the cost cap, the conversation, the model, the early look into the answer cache, the
  context, the streamed generation, what the client is sent, what is stored, and the background
  tasks the turn leaves behind (with \<^verbatim>\<open>_calculate_tokens_and_cost\<close> of
  \<^verbatim>\<open>backend/api/chat/background.py\<close>).

  The events of the generation are those of \<^const>\<open>generate_stream\<close>. Whether the commits of the session
  succeed is a parameter (by the number of transactions before), as is which tool results leave the
  session committed, because the Google tools save refreshed credentials in the session of the
  turn. The verdicts of the cost cap and of the rate limit of a model (modelled in \<open>Accounts\<close> and
  \<open>Rate_Limiter\<close> over their own state), identifiers and times are parameters. Metrics and log lines
  are not modelled. The suggestion before the last event (\<^verbatim>\<open>_generate_proactive\<close>) is never sent: the
  function it imports does not exist, so the import raises and the exception is dropped.
\<close>

section \<open>What a turn leaves behind\<close>

datatype task =
    EmbedExchange string string string string
  \<comment> \<open>message, conversation, text of the user, text of the reply\<close>
  | GraphExtract int string string
  | AutoTitle string string string
  | CompressHistory string
  | UpdateProjectSummary int
  | UpdateMemory int string
  | GenerateInsightJob int
  | ExtractPreferencesJob int
  | ExtractPreferencesHere int
  | UpdateBehaviorJob int string string "string list" string

datatype sse =
    Rotated string string
  \<comment> \<open>the new and the old conversation\<close>
  | Forward event
  | Completed event "(int \<times> int \<times> int option \<times> real) option" render_meta string string trace string
  \<comment> \<open>the last event of the model, tokens and cost, grounding, intent, last session, trace, conversation\<close>

record turn_server =
  tv_cfg :: config
  tv_catalog :: catalog_cache
  tv_txn :: "nat \<Rightarrow> real"
  tv_now :: real
  tv_commits :: "nat \<Rightarrow> bool"
  tv_tool_commits :: "nat \<Rightarrow> bool"
  \<comment> \<open>by the number of events sent before\<close>
  tv_pool :: bool
  tv_enqueued :: "task \<Rightarrow> bool"
  \<comment> \<open>the queue takes the job, instead of raising\<close>
  tv_pref_running :: "bool result"
  tv_cap :: "unit result"
  tv_model_rate :: "string \<Rightarrow> unit result"
  tv_conv_id :: string
  tv_user_id :: string
  tv_reply_id :: string

section \<open>Tokens and cost\<close>

text \<open>
  A count of the usage that is no integer makes the computation or the insertion raise; a
  missing count has a default, and a total that is null is stored as null.
\<close>

definition token_count :: "pydict \<Rightarrow> string \<Rightarrow> int \<Rightarrow> int result" where
  "token_count u k dflt =
     (case dget u k of
        None \<Rightarrow> Inr dflt
      | Some (PInt i) \<Rightarrow> Inr i
      | Some (PBool b) \<Rightarrow> Inr (if b then 1 else 0)
      | Some _ \<Rightarrow> Inl (TypeError k))"

definition calculate_tokens_and_cost :: "config \<Rightarrow> catalog_cache \<Rightarrow> pydict option \<Rightarrow> chat_ctx \<Rightarrow> string \<Rightarrow> string \<Rightarrow> string \<Rightarrow>
    (int \<times> int \<times> int option \<times> real) result" where
  "calculate_tokens_and_cost cfg cat usage ctx message full_response model_used =
     (let pricing = get_pricing cfg cat model_used in
      case usage of
        Some (p # ps) \<Rightarrow>
          bindR (token_count (p # ps) ''prompt_tokens'' 0) (\<lambda>pt.
          bindR (token_count (p # ps) ''completion_tokens'' 0) (\<lambda>ct.
            if dget (p # ps) ''total_tokens'' = Some PNone then Inr (pt, ct, None, cost_of pricing pt ct)
            else bindR (token_count (p # ps) ''total_tokens'' (pt + ct)) (\<lambda>tt. Inr (pt, ct, Some tt, cost_of pricing pt ct))))
      | _ \<Rightarrow>
          let pt = estimate_text_tokens ([cx_memory_sheet ctx, cx_project_summary ctx, cx_history_summary ctx]
                     @ map mg_content (cx_history ctx) @ [message]);
              ct = int (length full_response div 4)
          in Inr (pt, ct, Some (pt + ct), cost_of pricing pt ct))"

section \<open>The state of a turn\<close>

record turn_state =
  ts_status :: string
  ts_model :: string
  ts_cache_hit :: bool
  ts_fallback :: bool
  ts_accumulated :: "string list"
  ts_pending :: string
  ts_tools :: "string list"
  ts_recorded :: bool
  ts_activity :: trace
  ts_session :: session
  ts_out :: "sse list"
  ts_tasks :: "task list"

text \<open>The turn as it is given: user, conversation, question and context.\<close>

record turn_case =
  tn_user :: int
  tn_conv :: string
  tn_message :: string
  tn_ctx :: chat_ctx

definition send :: "sse \<Rightarrow> turn_state \<Rightarrow> turn_state" where
  "send e ts = ts\<lparr>ts_out := ts_out ts @ [e]\<rparr>"

definition enqueue_task :: "task \<Rightarrow> turn_state \<Rightarrow> turn_state" where
  "enqueue_task t ts = ts\<lparr>ts_tasks := ts_tasks ts @ [t]\<rparr>"

text \<open>The commit of a session, or its roll-back when the commit raises.\<close>

definition try_commit :: "turn_server \<Rightarrow> session \<Rightarrow> bool \<times> session" where
  "try_commit tv s = (if tv_commits tv (se_count s) then (True, commit s) else (False, rollback s))"

definition reply_message :: "turn_server \<Rightarrow> session \<Rightarrow> turn_case \<Rightarrow> string \<Rightarrow> string option \<Rightarrow> (int \<times> int \<times> int) option \<Rightarrow> real option \<Rightarrow>
    trace \<Rightarrow> render_meta option \<Rightarrow> chat_message" where
  "reply_message tv s tn txt model tokens cost activity meta =
     \<lparr>mg_id = tv_reply_id tv, mg_conv = tn_conv tn, mg_role = ''assistant'', mg_content = txt, mg_model = model,
      mg_tokens = tokens, mg_cost = cost, mg_trace = (if activity = [] then None else Some activity), mg_meta = meta,
      mg_created = tv_txn tv (se_count s)\<rparr>"

text \<open>The warning sign before the note is outside the alphabet.\<close>

definition ABORTED :: string where
  "ABORTED = ''! Turn aborted: ''"

definition persist_abort :: "turn_server \<Rightarrow> turn_case \<Rightarrow> string \<Rightarrow> turn_state \<Rightarrow> turn_state" where
  "persist_abort tv tn reason ts =
     (if ts_recorded ts then ts
      else
        let streamed = strip (concat (ts_accumulated ts));
            note = (if streamed = [] then ABORTED @ reason else streamed);
            m = reply_message tv (ts_session ts) tn note (if ts_model ts = ''unknown'' then None else Some (ts_model ts)) None None
                  (ts_activity ts) None;
            (ok, s) = try_commit tv (change (add_message m) (ts_session ts))
        in ts\<lparr>ts_session := s, ts_recorded := ok\<rparr>)"

text \<open>A turn that broke: the client has got a part of the reply, or nothing.\<close>

definition broken :: "turn_server \<Rightarrow> turn_case \<Rightarrow> string \<Rightarrow> string \<Rightarrow> turn_state \<Rightarrow> turn_state" where
  "broken tv tn shown reason ts =
     persist_abort tv tn reason
       (send (Forward (ErrorEvent shown)) (ts\<lparr>ts_status := (if ts_accumulated ts \<noteq> [] then ''partial'' else ''error'')\<rparr>))"

section \<open>After the reply is stored\<close>

definition drive_ref :: "string \<Rightarrow> string" where
  "drive_ref name =
     (if name = [] then ''User viewed a Drive file '' @ em_dash @ '' content fetched live, not cached.''
      else ''User viewed Drive file '' @ [CHR 0x27] @ name @ [CHR 0x27] @ '' '' @ em_dash @ '' content fetched live, not cached.'')"

definition exchange_tasks :: "turn_server \<Rightarrow> turn_case \<Rightarrow> string \<Rightarrow> bool \<Rightarrow> string \<Rightarrow> task list" where
  "exchange_tasks tv tn full drive_read drive_file =
     (let shown = (if drive_read then drive_ref drive_file else full)
      in [EmbedExchange (tv_reply_id tv) (tn_conv tn) (tn_message tn) shown, GraphExtract (tn_user tn) (tn_message tn) shown])"

definition upkeep_tasks :: "turn_case \<Rightarrow> string \<Rightarrow> bool \<Rightarrow> nat \<Rightarrow> nat \<Rightarrow> task list" where
  "upkeep_tasks tn full drive_read all_count asst_count =
     (let ctx = tn_ctx tn;
          ctx_tokens = estimate_text_tokens ([cx_memory_sheet ctx, cx_project_summary ctx, cx_history_summary ctx]
                         @ map mg_content (cx_history ctx) @ [tn_message tn, full])
      in (if all_count = 2 then [AutoTitle (tn_conv tn) (tn_message tn) full] else [])
       @ (if drive_read then []
          else (if ctx_tokens > 4000 \<or> all_count > 10 \<and> all_count mod 15 = 0
                then [CompressHistory (tn_conv tn), UpdateProjectSummary (tn_user tn)] else [])
             @ (if ctx_tokens > 3000 \<or> asst_count mod 10 = 0 then [UpdateMemory (tn_user tn) (tn_conv tn)] else [])))"

text \<open>A job for the queue; the value tells whether the code goes on (a queue may raise, and may be missing).\<close>

definition pool_job :: "turn_server \<Rightarrow> task \<Rightarrow> task list \<times> bool" where
  "pool_job tv t = (if \<not> tv_pool tv then ([], True) else if tv_enqueued tv t then ([t], True) else ([], False))"

definition preference_tasks :: "turn_server \<Rightarrow> turn_case \<Rightarrow> nat \<Rightarrow> task list" where
  "preference_tasks tv tn asst_count =
     (if USE_REDIS (tv_cfg tv) \<and> asst_count > 0 \<and> asst_count mod 50 = 0 \<and> tv_pref_running tv = Inr False
      then (if tv_pool tv then fst (pool_job tv (ExtractPreferencesJob (tn_user tn))) else [ExtractPreferencesHere (tn_user tn)])
      else [])"

text \<open>All tasks of a stored reply, and whether the code came to the end of them.\<close>

definition tasks_of_reply :: "turn_server \<Rightarrow> turn_case \<Rightarrow> string \<Rightarrow> bool \<Rightarrow> string \<Rightarrow> string \<Rightarrow> string list \<Rightarrow> chat_db \<Rightarrow> task list \<times> bool" where
  "tasks_of_reply tv tn full drive_read drive_file model tools db =
     (let ms = messages_of db (tn_conv tn);
          asst_count = length (filter (\<lambda>m. mg_role m = ''assistant'') ms);
          ts1 = exchange_tasks tv tn full drive_read drive_file @ upkeep_tasks tn full drive_read (length ms) asst_count;
          (insight, go) = (if asst_count mod 10 = 0 then pool_job tv (GenerateInsightJob (tn_user tn)) else ([], True))
      in if \<not> go then (ts1 @ insight, False)
         else
           let (behaviour, go2) = pool_job tv (UpdateBehaviorJob (tn_user tn) (cx_policy_used (tn_ctx tn)) (tn_message tn) tools model)
           in (ts1 @ insight @ preference_tasks tv tn asst_count @ behaviour, go2))"

section \<open>The last event of the model\<close>

text \<open>
  The reply is stored with its tokens, cost, trace and grounding. An exception on the way leaves the
  event without tokens and rolls the session back; the event is sent all the same.
\<close>

definition save_reply :: "turn_server \<Rightarrow> turn_case \<Rightarrow> string \<Rightarrow> string \<Rightarrow> render_meta \<Rightarrow> bool \<Rightarrow> string \<Rightarrow> pydict option \<Rightarrow> turn_state \<Rightarrow>
    (int \<times> int \<times> int option \<times> real) option \<times> turn_state" where
  "save_reply tv tn full stored meta drive_read drive_file usage ts =
     (case calculate_tokens_and_cost (tv_cfg tv) (tv_catalog tv) usage (tn_ctx tn) (tn_message tn) full (ts_model ts) of
        Inl e \<Rightarrow> (None, ts\<lparr>ts_session := rollback (ts_session ts)\<rparr>)
      | Inr (pt, ct, tt, cost) \<Rightarrow>
          let m = reply_message tv (ts_session ts) tn stored (Some (ts_model ts)) (map_option (\<lambda>n. (pt, ct, n)) tt) (Some cost)
                    (ts_activity ts) (Some meta);
              (ok, s) = try_commit tv (change (add_message m) (ts_session ts))
          in if \<not> ok then (None, ts\<lparr>ts_session := s\<rparr>)
             else
               let (jobs, through) = tasks_of_reply tv tn full drive_read drive_file (ts_model ts) (ts_tools ts) (se_work s)
               in (if through then Some (pt, ct, tt, cost) else None,
                   ts\<lparr>ts_recorded := True, ts_tasks := ts_tasks ts @ jobs, ts_session := (if through then s else rollback s)\<rparr>))"

definition finish_turn :: "turn_server \<Rightarrow> turn_case \<Rightarrow> event \<Rightarrow> string \<Rightarrow> bool \<Rightarrow> bool \<Rightarrow> bool \<Rightarrow> string \<Rightarrow> pydict option \<Rightarrow> turn_state \<Rightarrow>
    turn_state option" where
  "finish_turn tv tn ev model hit fb drive_read drive_file usage ts0 =
     (let ts = ts0\<lparr>ts_model := model, ts_cache_hit := hit, ts_fallback := fb\<rparr>;
          full = concat (ts_accumulated ts); ctx = tn_ctx tn
      in case compress_tool_dumps full of
           None \<Rightarrow> None
         | Some compressed \<Rightarrow>
             let stored = (if compressed = [] then ts_pending ts else compressed);
                 meta = build_render_meta (cx_top_k ctx) (cx_policy_used ctx) (build_provenance (cx_retrieved ctx) (cx_file_chunks ctx));
                 (counts, ts1) = save_reply tv tn full stored meta drive_read drive_file usage ts
             in Some (send (Completed ev counts meta (cx_intent ctx) (cx_last_session ctx) (ts_activity ts1) (tn_conv tn)) ts1))"

section \<open>One event, and a whole stream\<close>

fun turn_event :: "turn_server \<Rightarrow> turn_case \<Rightarrow> event \<Rightarrow> turn_state \<Rightarrow> turn_state option" where
  "turn_event tv tn (Token t) ts = Some (send (Forward (Token t)) (ts\<lparr>ts_accumulated := ts_accumulated ts @ [t]\<rparr>))"
| "turn_event tv tn PreambleDiscard ts = Some (send (Forward PreambleDiscard) (ts\<lparr>ts_accumulated := []\<rparr>))"
| "turn_event tv tn (Status stage level) ts =
     Some (send (Forward (Status stage level)) (ts\<lparr>ts_activity := ts_activity ts @ [(stage, level)]\<rparr>))"
| "turn_event tv tn (ToolCall name args) ts =
     Some (send (Forward (ToolCall name args)) (ts\<lparr>ts_tools := ts_tools ts @ [name]\<rparr>))"
| "turn_event tv tn (ToolResult name res) ts =
     Some (send (Forward (ToolResult name res))
       (ts\<lparr>ts_session := (if tv_tool_commits tv (length (ts_out ts)) then commit (ts_session ts) else ts_session ts)\<rparr>))"
| "turn_event tv tn (AskUser question) ts = Some (send (Forward (AskUser question)) (ts\<lparr>ts_pending := question\<rparr>))"
| "turn_event tv tn (ConfirmWriteMemory c) ts = Some (send (Forward (ConfirmWriteMemory c)) ts)"
| "turn_event tv tn (ConfirmCalendarWrite c) ts = Some (send (Forward (ConfirmCalendarWrite c)) ts)"
| "turn_event tv tn (Done model hit fb web url drive_read drive_file usage) ts =
     finish_turn tv tn (Done model hit fb web url drive_read drive_file usage) model hit fb drive_read drive_file usage ts"
| "turn_event tv tn (ErrorEvent msg) ts = Some (broken tv tn msg msg ts)"

fun turn_events :: "turn_server \<Rightarrow> turn_case \<Rightarrow> event list \<Rightarrow> turn_state \<Rightarrow> turn_state option" where
  "turn_events tv tn [] ts = Some ts"
| "turn_events tv tn (e # es) ts = Option.bind (turn_event tv tn e ts) (turn_events tv tn es)"

definition begin_turn :: "turn_case \<Rightarrow> (string \<times> string) option \<Rightarrow> session \<Rightarrow> turn_state" where
  "begin_turn tn rotation s =
     \<lparr>ts_status = ''success'', ts_model = ''unknown'', ts_cache_hit = False, ts_fallback = False, ts_accumulated = [],
      ts_pending = [], ts_tools = [], ts_recorded = False, ts_activity = cx_activity (tn_ctx tn), ts_session = s,
      ts_out = (case rotation of Some (new, old) \<Rightarrow> [Rotated new old] | None \<Rightarrow> [])
        @ map (\<lambda>(stage, level). Forward (Status stage level)) (cx_activity (tn_ctx tn)),
      ts_tasks = []\<rparr>"

definition event_generator :: "turn_server \<Rightarrow> turn_case \<Rightarrow> (string \<times> string) option \<Rightarrow> event list \<Rightarrow> unit result \<Rightarrow> session \<Rightarrow> turn_state option" where
  "event_generator tv tn rotation events ending s =
     Option.bind (turn_events tv tn events (begin_turn tn rotation s))
       (\<lambda>ts. Some (case ending of
          Inr _ \<Rightarrow> ts
        | Inl _ \<Rightarrow> broken tv tn ''Internal server error'' ''internal server error'' ts))"

section \<open>The endpoint\<close>

datatype answer =
    Refused pyexc
  | Cached "sse list" "unit result" "task list"
  | Compared "msg list" "string list option"
  \<comment> \<open>what all models are asked, and the models\<close>
  | Answered turn_state
  | Hanging
  \<comment> \<open>the compression of the reply does not end\<close>

record ('r, 'c, 'l, 'd) chat_state =
  cs_session :: session
  cs_memory :: memory_db
  cs_closing :: closing_anchors
  cs_stream :: "('r, 'c, 'l, 'd) stream_state"

definition user_message_row :: "turn_server \<Rightarrow> session \<Rightarrow> string \<Rightarrow> string \<Rightarrow> chat_message" where
  "user_message_row tv s cid message =
     \<lparr>mg_id = tv_user_id tv, mg_conv = cid, mg_role = ''user'', mg_content = message, mg_model = None, mg_tokens = None,
      mg_cost = None, mg_trace = None, mg_meta = None, mg_created = tv_txn tv (se_count s)\<rparr>"

definition add_question :: "turn_server \<Rightarrow> string \<Rightarrow> string \<Rightarrow> session \<Rightarrow> session" where
  "add_question tv cid message s =
     change (\<lambda>db. add_message (user_message_row tv s cid message) (update_conv cid (\<lambda>c. c\<lparr>cn_updated := tv_now tv\<rparr>) db)) s"

definition hit_tail :: "chat_env \<Rightarrow> chat_db \<Rightarrow> string \<Rightarrow> string" where
  "hit_tail ce db cid = join_lines (rev (map mg_content (take 4 (newest_first (ce_ord ce) (messages_of db cid)))))"

text \<open>The answer of the cache, asked before the context is built; not asked with images, parameters or files.\<close>

definition early_hit :: "('r, 'c, 'l, 'd) stream_env_all \<Rightarrow> chat_env \<Rightarrow> chat_request \<Rightarrow> conversation \<Rightarrow> string option \<Rightarrow> chat_db \<Rightarrow>
    ('r, 'c, 'l, 'd) stream_state \<Rightarrow> string answer_payload option result \<times> ('r, 'c, 'l, 'd) stream_state" where
  "early_hit sx ce req conv model db ss =
     (if set_and_nonempty (rq_image_b64 req) \<or> extract_model_params req \<noteq> None \<or> (\<exists>l \<in> set (cd_links db). fst l = cn_id conv)
      then (Inr None, ss)
      else
        let be = te_backend (sx_turn sx);
            (r, ans) = get_cached_response (be_cfg be) (be_answers be) (be_answers_up be) (be_sha256 be) (sx_read_clock sx)
                         (rq_message req) (or_empty model) (hit_tail ce db (cn_id conv)) (or_empty (cn_system_prompt conv)) (ss_answers ss)
        in (r, ss\<lparr>ss_answers := ans\<rparr>))"

definition hit_reply :: "turn_server \<Rightarrow> session \<Rightarrow> string \<Rightarrow> string answer_payload \<Rightarrow> chat_message" where
  "hit_reply tv s cid p =
     \<lparr>mg_id = tv_reply_id tv, mg_conv = cid, mg_role = ''assistant'', mg_content = ap_response p, mg_model = Some (ap_model p),
      mg_tokens = None, mg_cost = None, mg_trace = None, mg_meta = None, mg_created = tv_txn tv (se_count s)\<rparr>"

text \<open>A hit is sent and stored; when the commit raises, the stream breaks off without a last event.\<close>

definition serve_hit :: "turn_server \<Rightarrow> string \<Rightarrow> string \<Rightarrow> string answer_payload \<Rightarrow> session \<Rightarrow> answer \<times> session" where
  "serve_hit tv cid message p s =
     (let s1 = add_question tv cid message s;
          (ok, s2) = try_commit tv (change (add_message (hit_reply tv s1 cid p)) s1)
      in if \<not> ok then (Cached [Forward (Token (ap_response p))] (Inl OtherError) [], s2)
         else (Cached [Forward (Token (ap_response p)), Forward (Done (ap_model p) True False False False False [] None)] (Inr ())
                 (if length (messages_of (se_work s2) cid) = 2 then [AutoTitle cid message (ap_response p)] else []), s2))"

definition context_of :: "chat_ctx \<Rightarrow> conversation \<Rightarrow> context_input" where
  "context_of ctx conv =
     \<lparr>ci_memory_sheet = cx_memory_sheet ctx, ci_project_summary = cx_project_summary ctx,
      ci_retrieved_chunks = map content (cx_retrieved ctx), ci_history_summary = cx_history_summary ctx,
      ci_history = map (\<lambda>m. text_msg (mg_role m) (mg_content m)) (cx_history ctx),
      ci_system_prompt = (if set_and_nonempty (cn_system_prompt conv) then cn_system_prompt conv else None),
      ci_file_chunks = map content (cx_file_chunks ctx), ci_file_names = cx_file_names ctx, ci_file_ids = cx_file_ids ctx,
      ci_graph_context = cx_graph_context ctx, ci_graph_facts = cx_graph_facts ctx, ci_active_goals = cx_active_goals ctx,
      ci_recent_insights = cx_recent_insights ctx, ci_conflicted_facts = cx_conflicted_facts ctx,
      ci_last_session = cx_last_session ctx, ci_intent = cx_intent ctx\<rparr>"

definition stream_input_of :: "chat_request \<Rightarrow> conversation \<Rightarrow> int \<Rightarrow> string option \<Rightarrow> chat_ctx \<Rightarrow> stream_input" where
  "stream_input_of req conv uid model ctx =
     \<lparr>si_message = rq_message req, si_context = context_of ctx conv, si_model_override = model,
      si_model_params = extract_model_params req, si_conv_id = Some (cn_id conv), si_user_id = Some uid, si_db = True,
      si_image_b64 = rq_image_b64 req, si_image_mime_type = rq_image_mime_type req, si_saliences = cx_fact_saliences ctx,
      si_query_emb = cx_query_emb ctx\<rparr>"

text \<open>A comparison is not told of the insights and of the intent of the turn.\<close>

definition compare_context :: "chat_ctx \<Rightarrow> conversation \<Rightarrow> msg list" where
  "compare_context ctx conv = build_context_messages ((context_of ctx conv)\<lparr>ci_recent_insights := [], ci_intent := ''question''\<rparr>)"

definition chat_stream :: "turn_server \<Rightarrow> ('r, 'c, 'l, 'd) stream_env_all \<Rightarrow> chat_env \<Rightarrow> chat_request \<Rightarrow> int \<Rightarrow>
    ('r, 'c, 'l, 'd) chat_state \<Rightarrow> answer \<times> ('r, 'c, 'l, 'd) chat_state" where
  "chat_stream tv sx ce req uid st =
     (case tv_cap tv of
        Inl e \<Rightarrow> (Refused e, st)
      | Inr _ \<Rightarrow>
        (case resolve_conversation (ce_uuid ce) (ce_ord ce) (tv_txn tv) (tv_now tv) (tv_conv_id tv) (rq_conversation_id req)
                (rq_message req) uid (cs_session st) of
           (Inl e, s) \<Rightarrow> (Refused e, st\<lparr>cs_session := rollback s\<rparr>)
         | (Inr (conv, rotation), s) \<Rightarrow>
           let (model, lock_unavailable) = resolve_effective_model (tv_cfg tv) (tv_catalog tv) (rq_model_override req) (cn_locked_model conv)
           in case (if set_and_nonempty model then tv_model_rate tv (the model) else Inr ()) of
                Inl e \<Rightarrow> (Refused e, st\<lparr>cs_session := rollback s\<rparr>)
              | Inr _ \<Rightarrow>
                (case early_hit sx ce req conv model (se_work s) (cs_stream st) of
                   (Inl e, ss) \<Rightarrow> (Refused e, st\<lparr>cs_session := rollback s, cs_stream := ss\<rparr>)
                 | (Inr (Some p), ss) \<Rightarrow>
                     let (a, s1) = serve_hit tv (cn_id conv) (rq_message req) p s in (a, st\<lparr>cs_session := s1, cs_stream := ss\<rparr>)
                 | (Inr None, ss) \<Rightarrow>
                     let co = build_stream_context ce req conv uid (se_work s) (cs_closing st) (cs_memory st);
                         ctx = (if lock_unavailable then (co_ctx co)\<lparr>cx_activity := cx_activity (co_ctx co) @ [(''model'', ''error'')]\<rparr> else co_ctx co);
                         s1 = (if co_settled co then commit s else s);
                         st1 = st\<lparr>cs_memory := co_memory co, cs_closing := co_closing co, cs_stream := ss\<rparr>
                     in if rq_compare req then
                          (case resolve_compare_models (tv_cfg tv) (tv_catalog tv) (rq_compare_models req) 4 of
                             Inl e \<Rightarrow> (Refused e, st1\<lparr>cs_session := commit s1\<rparr>)
                           | Inr models \<Rightarrow> (Compared (compare_context ctx conv) models, st1\<lparr>cs_session := commit s1\<rparr>))
                        else
                          let tn = \<lparr>tn_user = uid, tn_conv = cn_id conv, tn_message = rq_message req, tn_ctx = ctx\<rparr>;
                              to = generate_stream sx (stream_input_of req conv uid model ctx) ss;
                              st2 = st1\<lparr>cs_stream := ss\<lparr>ss_answers := to_answers to, ss_anchors := to_anchors to, ss_redis := to_redis to,
                                                       ss_world := to_world to\<rparr>\<rparr>
                          in case event_generator tv tn rotation (to_events to) (to_end to) (add_question tv (cn_id conv) (rq_message req) s1) of
                               None \<Rightarrow> (Hanging, st2)
                             | Some ts \<Rightarrow> (Answered ts, st2\<lparr>cs_session := ts_session ts\<rparr>))))"

section \<open>What the client has on its screen\<close>

text \<open>The text, the trace and the open question, read off the events the client was sent.\<close>

fun screen_step :: "string list \<Rightarrow> sse \<Rightarrow> string list" where
  "screen_step acc (Forward (Token t)) = acc @ [t]"
| "screen_step acc (Forward PreambleDiscard) = []"
| "screen_step acc e = acc"

definition screen :: "sse list \<Rightarrow> string list" where
  "screen out = foldl screen_step [] out"

fun shown_status :: "sse \<Rightarrow> (string \<times> string) option" where
  "shown_status (Forward (Status stage level)) = Some (stage, level)"
| "shown_status e = None"

definition shown_trace :: "sse list \<Rightarrow> trace" where
  "shown_trace out = List.map_filter shown_status out"

fun ask_step :: "string \<Rightarrow> sse \<Rightarrow> string" where
  "ask_step q (Forward (AskUser question)) = question"
| "ask_step q e = q"

definition asked :: "sse list \<Rightarrow> string" where
  "asked out = foldl ask_step [] out"

lemma screen_snoc [simp]: "screen (out @ [e]) = screen_step (screen out) e"
  and shown_trace_snoc [simp]: "shown_trace (out @ [e]) = shown_trace out @ (case shown_status e of Some s \<Rightarrow> [s] | None \<Rightarrow> [])"
  and asked_snoc [simp]: "asked (out @ [e]) = ask_step (asked out) e"
  by (simp_all add: screen_def shown_trace_def asked_def List.map_filter_def split: option.split)

definition faithful :: "turn_state \<Rightarrow> bool" where
  "faithful ts = (ts_accumulated ts = screen (ts_out ts) \<and> ts_activity ts = shown_trace (ts_out ts) \<and> ts_pending ts = asked (ts_out ts))"

definition unanswered :: "session \<Rightarrow> turn_state \<Rightarrow> bool" where
  "unanswered s ts = (se_work (ts_session ts) = se_work s \<and> se_saved (ts_session ts) \<in> {se_saved s, se_work s} \<and> \<not> ts_recorded ts
     \<and> ts_model ts = ''unknown'')"

text \<open>What a reply may say: the text on the screen, compressed, or the open question; after an error the text or a note.\<close>

definition fits_screen :: "sse list \<Rightarrow> chat_message \<Rightarrow> bool" where
  "fits_screen out m =
     (let txt = concat (screen out) in
      case last out of
        Completed ev _ meta _ _ trace _ \<Rightarrow>
          mg_content m = (case compress_tool_dumps txt of Some (c # cs) \<Rightarrow> c # cs | _ \<Rightarrow> asked out)
          \<and> mg_meta m = Some meta \<and> trace = shown_trace out
      | Forward (ErrorEvent reason) \<Rightarrow> mg_content m = strip txt \<and> strip txt \<noteq> [] \<or> strip txt = [] \<and> prefix ABORTED (mg_content m)
      | _ \<Rightarrow> False)"

definition saved_whole :: "turn_server \<Rightarrow> turn_case \<Rightarrow> session \<Rightarrow> turn_state \<Rightarrow> bool" where
  "saved_whole tv tn s ts =
     (if ts_recorded ts then
        \<exists>m. se_saved (ts_session ts) = add_message m (se_work s) \<and> mg_role m = ''assistant'' \<and> mg_conv m = tn_conv tn
          \<and> mg_trace m = (if shown_trace (ts_out ts) = [] then None else Some (shown_trace (ts_out ts))) \<and> fits_screen (ts_out ts) m
      else se_saved (ts_session ts) \<in> {se_saved s, se_work s})"

lemma send_simps [simp]:
  "ts_out (send e ts) = ts_out ts @ [e]" "ts_session (send e ts) = ts_session ts" "ts_recorded (send e ts) = ts_recorded ts"
  "ts_accumulated (send e ts) = ts_accumulated ts" "ts_activity (send e ts) = ts_activity ts" "ts_pending (send e ts) = ts_pending ts"
  "ts_model (send e ts) = ts_model ts" "ts_status (send e ts) = ts_status ts" "ts_tasks (send e ts) = ts_tasks ts"
  by (simp_all add: send_def)

lemma begin_turn_ready: "faithful (begin_turn tn rot s) \<and> unanswered s (begin_turn tn rot s)"
proof -
  have s: "foldl screen_step acc (map (\<lambda>(stage, level). Forward (Status stage level)) tr) = acc" for acc tr
    by (induction tr) auto
  have a: "foldl ask_step q (map (\<lambda>(stage, level). Forward (Status stage level)) tr) = q" for q tr
    by (induction tr) auto
  have t: "List.map_filter shown_status (map (\<lambda>(stage, level). Forward (Status stage level)) tr) = tr" for tr
    by (induction tr) (auto simp: List.map_filter_def)
  show ?thesis
    by (cases rot) (auto simp: begin_turn_def faithful_def unanswered_def screen_def asked_def shown_trace_def s a t List.map_filter_simps)
qed

lemma quiet_event_keeps:
  assumes "\<not> terminal e" and "faithful ts" and "unanswered s ts"
  shows "\<exists>ts'. turn_event tv tn e ts = Some ts' \<and> faithful ts' \<and> unanswered s ts' \<and> ts_status ts' = ts_status ts
    \<and> ((\<forall>n. \<not> tv_tool_commits tv n) \<longrightarrow> ts_session ts' = ts_session ts)"
  using assms by (cases e) (auto simp: faithful_def unanswered_def commit_def)

lemma quiet_events_keep:
  assumes "quiet es" and "faithful ts" and "unanswered s ts"
  shows "\<exists>ts'. turn_events tv tn es ts = Some ts' \<and> faithful ts' \<and> unanswered s ts' \<and> ts_status ts' = ts_status ts
    \<and> ((\<forall>n. \<not> tv_tool_commits tv n) \<longrightarrow> ts_session ts' = ts_session ts)"
  using assms
proof (induction es arbitrary: ts)
  case (Cons e es)
  then obtain ts1 where 1: "turn_event tv tn e ts = Some ts1" "faithful ts1" "unanswered s ts1" "ts_status ts1 = ts_status ts"
    "(\<forall>n. \<not> tv_tool_commits tv n) \<longrightarrow> ts_session ts1 = ts_session ts"
    using quiet_event_keeps [of e ts s tv tn] by auto
  from Cons.IH [OF _ 1(2,3)] Cons.prems(1) 1 show ?case by auto
qed simp

lemma turn_events_append: "turn_events tv tn (es @ fs) ts = Option.bind (turn_events tv tn es ts) (turn_events tv tn fs)"
proof (induction es arbitrary: ts)
  case (Cons e es)
  then show ?case by (cases "turn_event tv tn e ts") simp_all
qed simp

lemma turn_events_none [simp]: "turn_events tv tn [] = Some"
  by (rule ext) simp

text \<open>The quiet events are sent on one by one, so the text gathered is the text they show.\<close>

lemma quiet_events_sent: "quiet es \<Longrightarrow> turn_events tv tn es ts = Some ts' \<Longrightarrow> ts_out ts' = ts_out ts @ map Forward es"
proof (induction es arbitrary: ts)
  case (Cons e es)
  then show ?case by (cases e) auto
qed simp

lemma quiet_events_tasks: "quiet es \<Longrightarrow> turn_events tv tn es ts = Some ts' \<Longrightarrow> ts_tasks ts' = ts_tasks ts"
proof (induction es arbitrary: ts)
  case (Cons e es)
  then show ?case by (cases e) auto
qed simp

lemma begin_turn_screen: "foldl screen_step [] (ts_out (begin_turn tn rot s)) = []"
  using begin_turn_ready [of tn rot s] by (simp add: faithful_def screen_def) (simp add: begin_turn_def)

lemma quiet_events_text:
  assumes "quiet es" and "turn_events tv tn es (begin_turn tn rot s) = Some ts"
  shows "ts_accumulated ts = screen (map Forward es)"
proof -
  from quiet_events_keep [OF assms(1), of "begin_turn tn rot s" s tv tn] begin_turn_ready [of tn rot s] assms(2)
  have "ts_accumulated ts = screen (ts_out ts)" by (auto simp: faithful_def)
  then show ?thesis
    using quiet_events_sent [OF assms] begin_turn_screen [of tn rot s] by (simp add: screen_def)
qed

lemma rollback_work [simp]: "se_work (rollback s) = se_saved s" "se_saved (rollback s) = se_saved s"
  by (simp_all add: rollback_def)

lemma broken_saved:
  assumes "faithful ts" and "unanswered s ts"
  shows "saved_whole tv tn s (broken tv tn shown reason ts)"
proof (cases "tv_commits tv (se_count (ts_session ts))")
  case True
  with assms show ?thesis
    by (auto simp: broken_def persist_abort_def faithful_def unanswered_def saved_whole_def fits_screen_def try_commit_def
      reply_message_def Let_def change_def)
next
  case False
  with assms show ?thesis
    by (auto simp: broken_def persist_abort_def faithful_def unanswered_def saved_whole_def try_commit_def change_def Let_def)
qed

text \<open>What storing a reply leaves: the reply with its text and grounding, or nothing new.\<close>

lemma save_reply_saved:
  assumes "save_reply tv tn full stored meta dr df usage ts = (counts, ts')" and "unanswered s (ts\<lparr>ts_model := ''unknown''\<rparr>)"
  shows "ts_out ts' = ts_out ts \<and> ts_accumulated ts' = ts_accumulated ts \<and> ts_activity ts' = ts_activity ts \<and> ts_pending ts' = ts_pending ts
    \<and> ts_status ts' = ts_status ts
    \<and> (if ts_recorded ts' then
         \<exists>m. se_saved (ts_session ts') = add_message m (se_work s) \<and> mg_role m = ''assistant'' \<and> mg_conv m = tn_conv tn \<and> mg_content m = stored
           \<and> mg_meta m = Some meta \<and> mg_trace m = (if ts_activity ts = [] then None else Some (ts_activity ts))
       else se_saved (ts_session ts') \<in> {se_saved s, se_work s} \<and> counts = None \<and> se_work (ts_session ts') = se_saved (ts_session ts)
         \<and> ts_tasks ts' = ts_tasks ts)"
proof (cases "calculate_tokens_and_cost (tv_cfg tv) (tv_catalog tv) usage (tn_ctx tn) (tn_message tn) full (ts_model ts)")
  case (Inl e)
  with assms show ?thesis by (auto simp: save_reply_def unanswered_def)
next
  case (Inr q)
  then obtain pt ct tt cost where q: "q = (pt, ct, tt, cost)" by (cases q)
  show ?thesis
  proof (cases "tv_commits tv (se_count (ts_session ts))")
    case True
    with assms Inr q show ?thesis
      by (auto simp: save_reply_def unanswered_def try_commit_def Let_def reply_message_def change_def split: prod.splits if_splits)
  next
    case False
    with assms Inr q show ?thesis
      by (auto simp: save_reply_def unanswered_def try_commit_def change_def)
  qed
qed

lemma done_saved:
  assumes "faithful ts" and "unanswered s ts" and "finish_turn tv tn ev model hit fb dr df usage ts = Some ts'"
  shows "saved_whole tv tn s ts'"
proof -
  let ?full = "concat (ts_accumulated ts)"
  from assms(3) obtain c where c: "compress_tool_dumps ?full = Some c" by (auto simp: finish_turn_def Let_def split: option.splits)
  let ?ts = "ts\<lparr>ts_model := model, ts_cache_hit := hit, ts_fallback := fb\<rparr>"
  let ?stored = "if c = [] then ts_pending ?ts else c"
  let ?meta = "build_render_meta (cx_top_k (tn_ctx tn)) (cx_policy_used (tn_ctx tn)) (build_provenance (cx_retrieved (tn_ctx tn)) (cx_file_chunks (tn_ctx tn)))"
  obtain counts ts1 where sv: "save_reply tv tn ?full ?stored ?meta dr df usage ?ts = (counts, ts1)" by fastforce
  have ts': "ts' = send (Completed ev counts ?meta (cx_intent (tn_ctx tn)) (cx_last_session (tn_ctx tn)) (ts_activity ts1) (tn_conv tn)) ts1"
    using assms(3) c sv by (simp add: finish_turn_def Let_def)
  from assms(2) have "unanswered s (?ts\<lparr>ts_model := ''unknown''\<rparr>)" by (simp add: unanswered_def)
  from save_reply_saved [OF sv this] assms(1) c show ?thesis
    unfolding ts' by (cases c) (auto simp: saved_whole_def faithful_def fits_screen_def Let_def split: if_splits)
qed

definition stuck_in_compression :: "event list \<Rightarrow> unit result \<Rightarrow> bool" where
  "stuck_in_compression es ending =
     (ending = Inr () \<and> (\<exists>model hit fb web url dr df usage. last es = Done model hit fb web url dr df usage)
      \<and> compress_tool_dumps (concat (screen (map Forward (butlast es)))) = None)"

lemma generator_saved:
  assumes "turn_ends es ending"
  shows "case event_generator tv tn rot es ending s of
      None \<Rightarrow> stuck_in_compression es ending
    | Some ts \<Rightarrow> saved_whole tv tn s ts"
proof (cases ending)
  case (Inl e)
  with assms have "quiet es" by simp
  from quiet_events_keep [OF this, of "begin_turn tn rot s" s tv tn] begin_turn_ready [of tn rot s]
  show ?thesis by (auto simp: event_generator_def Inl intro: broken_saved)
next
  case (Inr u)
  with assms have "closed_by_last es" by simp
  then obtain pre e where es: "es = pre @ [e]" "terminal e" "quiet pre" by (auto simp: closed_by_last_def) (metis append_butlast_last_id)
  from quiet_events_keep [OF this(3), of "begin_turn tn rot s" s tv tn] begin_turn_ready [of tn rot s]
  obtain ts where ts: "turn_events tv tn pre (begin_turn tn rot s) = Some ts" "faithful ts" "unanswered s ts" by auto
  have run: "event_generator tv tn rot es ending s = turn_event tv tn e ts"
    by (cases "turn_event tv tn e ts") (simp_all add: event_generator_def es(1) turn_events_append ts(1) Inr)
  from es(2) consider (ended) m h f w u d n us where "e = Done m h f w u d n us" | (failed) msg where "e = ErrorEvent msg" by (cases e) auto
  then show ?thesis
  proof cases
    case ended
    then show ?thesis
      using done_saved [OF ts(2,3)] quiet_events_text [OF es(3) ts(1)] unfolding run
      by (auto simp: finish_turn_def Let_def stuck_in_compression_def Inr es(1) split: option.splits prod.splits)
  next
    case failed
    then show ?thesis using broken_saved [OF ts(2,3)] unfolding run by simp
  qed
qed

section \<open>A turn is stored whole, or not at all\<close>

text \<open>
  C2. Whatever the models, tools, caches and commits do, a streamed turn either stores exactly one reply on
  top of the question, or no reply. The stored trace is the one the client was shown. The stored
  text is not the text of the client's screen (what came after the last discarded preamble) but its
  compression, or the question the model asked back where that is empty, with the grounding the client was sent; after
  an error it is the text of the screen without the blanks around it, or a note. The turn fails to end only when
  the model has ended with its last event and the compression of the text that was on the screen by then does not end.
\<close>

theorem turn_saved_whole:
  "case event_generator tv tn rot (to_events (generate_stream sx si ss)) (to_end (generate_stream sx si ss)) s of
     None \<Rightarrow>
       to_end (generate_stream sx si ss) = Inr ()
       \<and> (\<exists>model hit fb web url dr df usage. last (to_events (generate_stream sx si ss)) = Done model hit fb web url dr df usage)
       \<and> compress_tool_dumps (concat (screen (map Forward (butlast (to_events (generate_stream sx si ss)))))) = None
   | Some ts \<Rightarrow>
       (if ts_recorded ts then
          \<exists>m. se_saved (ts_session ts) = add_message m (se_work s) \<and> mg_role m = ''assistant'' \<and> mg_conv m = tn_conv tn
            \<and> mg_trace m = (if shown_trace (ts_out ts) = [] then None else Some (shown_trace (ts_out ts))) \<and> fits_screen (ts_out ts) m
        else se_saved (ts_session ts) \<in> {se_saved s, se_work s})"
  using generator_saved [OF generate_stream_turn_ends [THEN conjunct1], where tv = tv and tn = tn and rot = rot and s = s]
  unfolding saved_whole_def stuck_in_compression_def .

text \<open>A usage with a count the database cannot take: of a kind other than an integer, except a total that is null.\<close>

definition uncountable :: "pydict option \<Rightarrow> bool" where
  "uncountable usage =
     (case usage of
        Some (p # ps) \<Rightarrow>
          isl (token_count (p # ps) ''prompt_tokens'' 0) \<or> isl (token_count (p # ps) ''completion_tokens'' 0)
          \<or> dget (p # ps) ''total_tokens'' \<noteq> Some PNone \<and> isl (token_count (p # ps) ''total_tokens'' 0)
      | _ \<Rightarrow> False)"

lemma token_count_default: "isl (token_count u k i) = isl (token_count u k j)"
  by (simp add: token_count_def split: option.split pyval.split)

lemma uncountable_raises:
  assumes "uncountable usage"
  shows "\<exists>e. calculate_tokens_and_cost cfg cat usage ctx message full model = Inl e"
proof -
  obtain u where u: "usage = Some u" "u \<noteq> []" using assms by (auto simp: uncountable_def split: option.splits list.splits)
  consider (pt) e where "token_count u ''prompt_tokens'' 0 = Inl e"
    | (ct) pt e where "token_count u ''prompt_tokens'' 0 = Inr pt" "token_count u ''completion_tokens'' 0 = Inl e"
    | (tt) pt ct where "token_count u ''prompt_tokens'' 0 = Inr pt" "token_count u ''completion_tokens'' 0 = Inr ct"
        "dget u ''total_tokens'' \<noteq> Some PNone" "isl (token_count u ''total_tokens'' (pt + ct))"
    using assms u token_count_default [of u "''total_tokens''" 0]
    by (cases "token_count u ''prompt_tokens'' 0"; cases "token_count u ''completion_tokens'' 0")
      (auto simp: uncountable_def split: list.splits)
  then show ?thesis
    using u by cases (auto simp: calculate_tokens_and_cost_def Let_def bindR_def neq_Nil_conv split: sum.splits)
qed

text \<open>
  C34. A failed save is reported as success: when the commits of the session raise, or the reported usage has a count
  that is no integer (of the prompt, the completion or the total, though a total may be null), the client still gets the last event
  of the model, without tokens, and the status stays success, but the reply is not in the tables and no background task
  is started. What is left in the tables is what they held before the turn, so the question is lost
  as well, unless a tool has committed the session in between; then the question stays, without a reply.
\<close>

theorem unsaved_turn_reported_done:
  assumes "quiet es" and "(\<forall>n. \<not> tv_commits tv n) \<or> uncountable usage"
    and "event_generator tv tn rot (es @ [Done model hit fb web url dr df usage]) (Inr ()) (add_question tv cid message s) = Some ts"
  shows "\<not> ts_recorded ts \<and> ts_status ts = ''success'' \<and> ts_tasks ts = []
    \<and> se_work (ts_session ts) = se_saved (ts_session ts)
    \<and> (if \<forall>n. \<not> tv_tool_commits tv n then se_saved (ts_session ts) = se_saved s
       else se_saved (ts_session ts) \<in> {se_saved s, se_work (add_question tv cid message s)})
    \<and> (\<exists>meta intent session_line trace cv. last (ts_out ts) = Completed (Done model hit fb web url dr df usage) None meta intent session_line trace cv)"
proof -
  let ?s = "add_question tv cid message s"
  let ?start = "begin_turn tn rot ?s"
  have saved: "se_saved ?s = se_saved s" by (simp add: add_question_def change_def)
  have "\<exists>ts0. turn_events tv tn es ?start = Some ts0 \<and> ((\<forall>n. \<not> tv_tool_commits tv n) \<longrightarrow> ts_session ts0 = ?s)
      \<and> ts_status ts0 = ''success'' \<and> unanswered ?s ts0"
    using quiet_events_keep [OF assms(1), of ?start ?s tv tn] begin_turn_ready [of tn rot ?s] by (auto simp: begin_turn_def)
  then obtain ts0 where ts0: "turn_events tv tn es ?start = Some ts0" "(\<forall>n. \<not> tv_tool_commits tv n) \<longrightarrow> ts_session ts0 = ?s"
    "ts_status ts0 = ''success''" "unanswered ?s ts0" "ts_tasks ts0 = []"
    using quiet_events_tasks [OF assms(1)] by (fastforce simp: begin_turn_def)
  let ?ts = "ts0\<lparr>ts_model := model, ts_cache_hit := hit, ts_fallback := fb\<rparr>"
  have fin: "finish_turn tv tn (Done model hit fb web url dr df usage) model hit fb dr df usage ts0 = Some ts"
    using assms(3) by (simp add: event_generator_def turn_events_append ts0(1))
  then obtain c where c: "compress_tool_dumps (concat (ts_accumulated ts0)) = Some c" by (auto simp: finish_turn_def Let_def split: option.splits)
  have lost: "\<exists>s'. save_reply tv tn full stored meta dr df usage ?ts = (None, ?ts\<lparr>ts_session := s'\<rparr>)
      \<and> se_saved s' = se_saved (ts_session ts0) \<and> se_work s' = se_saved (ts_session ts0)" for full stored meta
  proof (cases "calculate_tokens_and_cost (tv_cfg tv) (tv_catalog tv) usage (tn_ctx tn) (tn_message tn) full model")
    case (Inl e)
    then show ?thesis by (intro exI [of _ "rollback (ts_session ts0)"]) (simp add: save_reply_def)
  next
    case (Inr q)
    with uncountable_raises [of usage "tv_cfg tv" "tv_catalog tv" "tn_ctx tn" "tn_message tn" full model]
    have "\<not> uncountable usage" by auto
    with assms(2) have "\<forall>n. \<not> tv_commits tv n" by blast
    then show ?thesis using Inr by (cases q) (auto simp: save_reply_def try_commit_def change_def)
  qed
  let ?meta = "build_render_meta (cx_top_k (tn_ctx tn)) (cx_policy_used (tn_ctx tn)) (build_provenance (cx_retrieved (tn_ctx tn)) (cx_file_chunks (tn_ctx tn)))"
  obtain s' where s': "save_reply tv tn (concat (ts_accumulated ts0)) (if c = [] then ts_pending ?ts else c) ?meta dr df usage ?ts
      = (None, ?ts\<lparr>ts_session := s'\<rparr>)" "se_saved s' = se_saved (ts_session ts0)" "se_work s' = se_saved (ts_session ts0)"
    using lost by blast
  then have "\<exists>e. ts = send e (?ts\<lparr>ts_session := s'\<rparr>)
      \<and> (\<exists>meta intent session_line trace cv. e = Completed (Done model hit fb web url dr df usage) None meta intent session_line trace cv)"
    using fin c by (auto simp: finish_turn_def Let_def)
  moreover have "se_saved (ts_session ts0) \<in> {se_saved s, se_work ?s}" using ts0(4) saved by (auto simp: unanswered_def)
  ultimately show ?thesis using s'(2,3) ts0(2-5) saved by (auto simp: unanswered_def)
qed

definition quiet_server :: turn_server where
  "quiet_server =
     \<lparr>tv_cfg = default_config, tv_catalog = reset_cache, tv_txn = of_nat, tv_now = 5, tv_commits = \<lambda>_. True, tv_tool_commits = \<lambda>_. False,
      tv_pool = False, tv_enqueued = \<lambda>_. True, tv_pref_running = Inr False, tv_cap = Inr (), tv_model_rate = \<lambda>_. Inr (),
      tv_conv_id = ''c1'', tv_user_id = ''m1'', tv_reply_id = ''m2''\<rparr>"

definition blank_ctx :: chat_ctx where
  "blank_ctx =
     \<lparr>cx_memory_sheet = [], cx_project_summary = [], cx_history_summary = [], cx_history = [], cx_retrieved = [], cx_file_chunks = [],
      cx_file_names = [], cx_file_ids = [], cx_graph_context = [], cx_graph_facts = [], cx_active_goals = [], cx_recent_insights = [],
      cx_conflicted_facts = [], cx_policy_used = ''factual'', cx_intent = ''question'', cx_query_emb = None, cx_embed_status = ''ok'',
      cx_top_k = 5, cx_fact_saliences = [], cx_last_session = [], cx_activity = [(''memory'', ''info'')]\<rparr>"

theorem unsaved_turn_reported_done_witness:
  "let s = open_session \<lparr>cd_convs = [], cd_messages = [], cd_files = [], cd_links = []\<rparr>;
       tn = \<lparr>tn_user = 1, tn_conv = ''c1'', tn_message = ''hi'', tn_ctx = blank_ctx\<rparr>
   in \<exists>ts. event_generator quiet_server tn None ([Token ''Hello''] @ [Done ''m'' False False False False False [] (Some [(''total_tokens'', PStr ''many'')])])
              (Inr ()) (add_question quiet_server ''c1'' ''hi'' s) = Some ts
        \<and> \<not> ts_recorded ts \<and> ts_status ts = ''success'' \<and> cd_messages (se_saved (ts_session ts)) = []"
proof -
  let ?s = "open_session \<lparr>cd_convs = [], cd_messages = [], cd_files = [], cd_links = []\<rparr>"
  let ?tn = "\<lparr>tn_user = 1, tn_conv = ''c1'', tn_message = ''hi'', tn_ctx = blank_ctx\<rparr>"
  let ?u = "Some [(''total_tokens'', PStr ''many'')]"
  have "\<exists>ts. event_generator quiet_server ?tn None ([Token ''Hello''] @ [Done ''m'' False False False False False [] ?u]) (Inr ())
      (add_question quiet_server ''c1'' ''hi'' ?s) = Some ts"
    by (simp add: event_generator_def finish_turn_def begin_turn_def compress_tool_dumps_def Let_def split: prod.split)
  then obtain ts where ts: "event_generator quiet_server ?tn None ([Token ''Hello''] @ [Done ''m'' False False False False False [] ?u]) (Inr ())
      (add_question quiet_server ''c1'' ''hi'' ?s) = Some ts" by blast
  have "(\<forall>n. \<not> tv_commits quiet_server n) \<or> uncountable ?u"
    by (simp add: uncountable_def token_count_def dget_def)
  from unsaved_turn_reported_done [OF _ this ts] ts show ?thesis
    by (auto simp: quiet_server_def quiet_def open_session_def)
qed

section \<open>The endpoint\<close>

lemma resolve_keeps_messages:
  assumes "resolve_conversation parse_uuid ord txn now fresh cid message uid s = (r, s')" and "cd_messages (se_work s) = cd_messages (se_saved s)"
  shows "cd_messages (se_work s') = cd_messages (se_saved s) \<and> cd_messages (se_saved s') = cd_messages (se_saved s)"
  using assms by (auto simp: resolve_conversation_def check_rotation_def Let_def split: option.splits list.splits if_splits prod.splits)

text \<open>
  A request that is refused, and one that compares models, store no message: neither the cost cap, a wrong conversation,
  the rate limit of the model, the cache, nor an unknown model to compare leave a question behind.
\<close>

theorem refused_request_stores_nothing:
  assumes "chat_stream tv sx ce req uid st = (a, st')" and "cd_messages (se_work (cs_session st)) = cd_messages (se_saved (cs_session st))"
    and "(\<exists>e. a = Refused e) \<or> (\<exists>ms models. a = Compared ms models)"
  shows "cd_messages (se_saved (cs_session st')) = cd_messages (se_saved (cs_session st))"
proof -
  obtain r s where res: "resolve_conversation (ce_uuid ce) (ce_ord ce) (tv_txn tv) (tv_now tv) (tv_conv_id tv) (rq_conversation_id req)
      (rq_message req) uid (cs_session st) = (r, s)" by fastforce
  note kept = resolve_keeps_messages [OF res assms(2)]
  have hit: "serve_hit tv cid message p s = (a, s1) \<Longrightarrow> \<not> (\<exists>e. a = Refused e) \<and> \<not> (\<exists>ms models. a = Compared ms models)" for cid message p s s1
    by (auto simp: serve_hit_def Let_def split: prod.splits if_splits)
  show ?thesis
    using assms(1,3) kept hit unfolding chat_stream_def res Let_def
    by (auto split: sum.splits prod.splits option.splits if_splits)
qed

text \<open>
  A hand-over can be lost. When a conversation is due for rotation and the model's rate limit then
  refuses the turn, the rotation is saved: the old conversation is archived, the new one has the
  summary of it, but the client only learns of the refusal. Asking again under the old conversation
  starts yet another one, without that summary.
\<close>

theorem refused_rotation_loses_summary:
  assumes "rq_conversation_id req = Some (x # xs)" and "ce_uuid ce (x # xs) = Some k"
    and "own_conv (se_work s) uid k = Some c" and "\<not> cn_archived c" and "needs_rotation (tv_now tv) c (messages_of (se_work s) k)"
    and "get_conv (se_work s) (tv_conv_id tv) = None" and "get_conv (se_work s) other = None" and "other \<noteq> tv_conv_id tv"
    and "tv_cap tv = Inr ()"
    and "fst (resolve_effective_model (tv_cfg tv) (tv_catalog tv) (rq_model_override req) (cn_locked_model c)) = Some (y # ys)"
    and "tv_model_rate tv (y # ys) = Inl e"
    and "chat_stream tv sx ce req uid (st\<lparr>cs_session := s\<rparr>) = (a, st')"
  shows "a = Refused e
    \<and> (\<exists>nc. own_conv (se_saved (cs_session st')) uid (tv_conv_id tv) = Some nc
          \<and> cn_summary nc = Some (take 2000 (handoff (ce_ord ce) c (messages_of (se_work s) k))))
    \<and> (\<exists>conv. fst (resolve_conversation (ce_uuid ce) (ce_ord ce) txn now other (Some (x # xs)) message uid (open_session (se_saved (cs_session st'))))
            = Inr (conv, Some (other, k)) \<and> cn_id conv = other \<and> cn_summary conv = None)"
proof -
  let ?next = "(successor (tv_conv_id tv) c (tv_txn tv (se_count s)))\<lparr>cn_summary := Some (take 2000 (handoff (ce_ord ce) c (messages_of (se_work s) k)))\<rparr>"
  let ?db = "add_conv ?next (update_conv k (\<lambda>c. c\<lparr>cn_archived := True, cn_archived_at := Some (tv_now tv)\<rparr>) (se_work s))"
  have c: "cn_id c = k" "cn_user c = uid" "get_conv (se_work s) k = Some c" using own_convD [OF assms(3)] by auto
  have res: "resolve_conversation (ce_uuid ce) (ce_ord ce) (tv_txn tv) (tv_now tv) (tv_conv_id tv) (rq_conversation_id req) (rq_message req) uid s
      = (Inr (?next, Some (tv_conv_id tv, k)), commit (change (\<lambda>_. ?db) s))"
    using assms(1-5) c by (simp add: resolve_conversation_def check_rotation_def Let_def change_def)
  obtain un where eff: "resolve_effective_model (tv_cfg tv) (tv_catalog tv) (rq_model_override req) (cn_locked_model c) = (Some (y # ys), un)"
    using assms(10) by (cases "resolve_effective_model (tv_cfg tv) (tv_catalog tv) (rq_model_override req) (cn_locked_model c)") auto
  have out: "a = Refused e" "se_saved (cs_session st') = ?db"
    using assms(9,11,12) unfolding chat_stream_def by (auto simp: res eff set_and_nonempty_def)
  have old: "own_conv ?db uid k = Some (c\<lparr>cn_archived := True, cn_archived_at := Some (tv_now tv)\<rparr>)"
    using c by (simp add: own_conv_def get_conv_add get_conv_update)
  have new: "own_conv ?db uid (tv_conv_id tv) = Some ?next"
    using c assms(6) by (simp add: own_conv_def get_conv_add get_conv_update)
  show ?thesis
    using out old new assms(2) c(1)
    by (auto simp: resolve_conversation_def Let_def open_session_def) (simp add: successor_def new_conversation_def)
qed

text \<open>
  An answer from the cache takes precedence: a request that asks to compare models is then answered
  with the one stored answer, and no event tells of a rotation.
\<close>

theorem hit_overrides_comparison:
  assumes "chat_stream tv sx ce req uid st = (Cached out e tasks, st')"
  shows "chat_stream tv sx ce (req\<lparr>rq_compare := compare\<rparr>) uid st = (Cached out e tasks, st') \<and> (\<forall>new old. Rotated new old \<notin> set out)"
proof -
  obtain r s where res: "resolve_conversation (ce_uuid ce) (ce_ord ce) (tv_txn tv) (tv_now tv) (tv_conv_id tv) (rq_conversation_id req)
      (rq_message req) uid (cs_session st) = (r, s)" by fastforce
  obtain conv rot where r: "r = Inr (conv, rot)" and cap: "tv_cap tv = Inr ()"
    using assms res by (cases r) (auto simp: chat_stream_def split: sum.splits)
  obtain model un where eff: "resolve_effective_model (tv_cfg tv) (tv_catalog tv) (rq_model_override req) (cn_locked_model conv) = (model, un)" by fastforce
  have rate: "(if set_and_nonempty model then tv_model_rate tv (the model) else Inr ()) = Inr ()"
    using assms res r cap eff by (auto simp: chat_stream_def split: sum.splits)
  obtain q ss where hit: "early_hit sx ce req conv model (se_work s) (cs_stream st) = (q, ss)" by fastforce
  have same: "early_hit sx ce (req\<lparr>rq_compare := compare\<rparr>) conv model (se_work s) (cs_stream st) = (q, ss)"
    unfolding hit [symmetric] by (simp add: early_hit_def extract_model_params_def)
  obtain p where q: "q = Inr (Some p)"
    using assms res r cap eff rate hit by (cases q) (auto simp: chat_stream_def Let_def split: option.splits if_splits sum.splits)
  obtain s1 where "serve_hit tv (cn_id conv) (rq_message req) p s = (Cached out e tasks, s1)" "st' = st\<lparr>cs_session := s1, cs_stream := ss\<rparr>"
    using assms res r cap eff rate hit q by (auto simp: chat_stream_def split: prod.splits)
  moreover from this(1) have "Rotated new old \<notin> set out" for new old by (auto simp: serve_hit_def Let_def split: prod.splits if_splits)
  ultimately show ?thesis using res r cap eff rate same q by (simp add: chat_stream_def)
qed

section \<open>Examples\<close>

definition sample_ce :: chat_env where
  "sample_ce =
     \<lparr>ce_cfg = sample_plain, ce_ask = \<lambda>_ _. Inr (False, None), ce_embedding = None, ce_client = False, ce_phrases = \<lambda>_ _ _. EmbedOther,
      ce_scores_up = False, ce_scores = \<lambda>_. None,
      ce_retrieval = \<lparr>re_vec_up = True, re_bm25_up = True, re_dist = \<lambda>_. None, re_rank = \<lambda>_. None, re_order = id\<rparr>, ce_rows = [],
      ce_chunk_retrieval = \<lparr>re_vec_up = True, re_bm25_up = True, re_dist = \<lambda>_. None, re_rank = \<lambda>_. None, re_order = id\<rparr>, ce_chunks = [],
      ce_files_up = True, ce_insights = [], ce_graph_context = Inr [], ce_graph_facts = Inr [], ce_goals = Inr [], ce_uuid = Some,
      ce_ord = id, ce_conv_ord = id, ce_now = 0\<rparr>"

definition sample_chat_request :: "string option \<Rightarrow> string option \<Rightarrow> bool \<Rightarrow> chat_request" where
  "sample_chat_request conversation model compare =
     \<lparr>rq_message = ''pin?'', rq_conversation_id = conversation, rq_model_override = model, rq_temperature = None, rq_max_tokens = None,
      rq_top_p = None, rq_compare = compare, rq_image_b64 = None, rq_image_mime_type = None, rq_file_ids = [], rq_compare_models = None\<rparr>"

definition sample_chat_state :: "((string \<times> real) option, unit, unit, unit) chat_state" where
  "sample_chat_state =
     \<lparr>cs_session = open_session sample_db, cs_memory = \<lparr>md_rows = [], md_versions = [], md_conflicts = []\<rparr>, cs_closing = None,
      cs_stream = sample_ss\<rparr>"

theorem refused_request_stores_nothing_witness:
  "cd_messages (se_saved (cs_session (snd
     (chat_stream (quiet_server\<lparr>tv_cap := Inl (HTTPException 402 ''Cost cap reached'')\<rparr>) sample_sx sample_ce (sample_chat_request None None False) 7 sample_chat_state))))
   = [sample_message ''user'' ''Hi'' 0]"
proof -
  let ?tv = "quiet_server\<lparr>tv_cap := Inl (HTTPException 402 ''Cost cap reached'')\<rparr>"
  have "chat_stream ?tv sample_sx sample_ce (sample_chat_request None None False) 7 sample_chat_state
      = (Refused (HTTPException 402 ''Cost cap reached''), sample_chat_state)" by (simp add: chat_stream_def)
  from refused_request_stores_nothing [OF this] this show ?thesis by (simp add: sample_chat_state_def open_session_def sample_db_def)
qed

definition limited_server :: turn_server where
  "limited_server = quiet_server\<lparr>tv_now := 400000, tv_conv_id := ''c2'', tv_model_rate := \<lambda>_. Inl (HTTPException 429 ''model'')\<rparr>"

theorem refused_rotation_loses_summary_witness:
  "\<exists>e st'. chat_stream limited_server sample_sx sample_ce (sample_chat_request (Some ''c1'') (Some ''llama'') False) 7 sample_chat_state = (Refused e, st')
     \<and> (\<exists>nc. own_conv (se_saved (cs_session st')) 7 ''c2'' = Some nc \<and> cn_summary nc \<noteq> None)
     \<and> (\<exists>conv. fst (resolve_conversation Some id of_nat 400001 ''c3'' (Some ''c1'') ''pin?'' 7 (open_session (se_saved (cs_session st'))))
             = Inr (conv, Some (''c3'', ''c1'')) \<and> cn_summary conv = None)"
proof -
  let ?req = "sample_chat_request (Some ''c1'') (Some ''llama'') False"
  have conv: "own_conv sample_db 7 ''c1'' = Some sample_conv" "\<not> cn_archived sample_conv"
    by (simp_all add: sample_db_def own_conv_def get_conv_def sample_conv_def)
  have msgs: "messages_of sample_db ''c1'' = [sample_message ''user'' ''Hi'' 0]"
    by (simp add: messages_of_def sample_db_def sample_message_def)
  have rot: "needs_rotation (tv_now limited_server) sample_conv (messages_of sample_db ''c1'')"
    by (simp add: msgs needs_rotation_def sample_conv_def new_conversation_def limited_server_def)
  have eff: "fst (resolve_effective_model (tv_cfg limited_server) (tv_catalog limited_server) (rq_model_override ?req) (cn_locked_model sample_conv))
      = Some (CHR ''o'' # ''penai/gpt-oss-20b'')"
    by (simp add: limited_server_def quiet_server_def resolve_effective_model_def resolve_model_def sample_chat_request_def set_and_nonempty_def
      default_config_def dget_def Let_def)
  obtain a st' where run: "chat_stream limited_server sample_sx sample_ce ?req 7 (sample_chat_state\<lparr>cs_session := open_session sample_db\<rparr>) = (a, st')" by fastforce
  have state: "sample_chat_state\<lparr>cs_session := open_session sample_db\<rparr> = sample_chat_state" by (simp add: sample_chat_state_def)
  have work: "se_work (open_session sample_db) = sample_db" by (simp add: open_session_def)
  have ids: "rq_conversation_id ?req = Some (CHR ''c'' # ''1'')" "ce_uuid sample_ce (CHR ''c'' # ''1'') = Some ''c1''" "tv_conv_id limited_server = ''c2''"
    "tv_cap limited_server = Inr ()" "tv_model_rate limited_server (CHR ''o'' # ''penai/gpt-oss-20b'') = Inl (HTTPException 429 ''model'')"
    "ce_uuid sample_ce = Some" "ce_ord sample_ce = id"
    by (simp_all add: sample_chat_request_def sample_ce_def limited_server_def quiet_server_def)
  have free: "get_conv (se_work (open_session sample_db)) (tv_conv_id limited_server) = None" "get_conv (se_work (open_session sample_db)) ''c3'' = None"
    "''c3'' \<noteq> tv_conv_id limited_server"
    unfolding work ids by (simp_all add: sample_db_def get_conv_def sample_conv_def)
  have work': "own_conv (se_work (open_session sample_db)) 7 ''c1'' = Some sample_conv"
    "needs_rotation (tv_now limited_server) sample_conv (messages_of (se_work (open_session sample_db)) ''c1'')" using conv(1) rot unfolding work by auto
  note result = refused_rotation_loses_summary [where tv = limited_server and ce = sample_ce and req = ?req and s = "open_session sample_db"
      and x = "CHR ''c''" and xs = "''1''" and k = "''c1''" and c = sample_conv and uid = 7 and other = "''c3''" and txn = of_nat
      and now = 400001 and message = "''pin?''" and y = "CHR ''o''" and ys = "''penai/gpt-oss-20b''" and a = a and st' = st'
      and e = "HTTPException 429 ''model''" and st = sample_chat_state and sx = sample_sx]
  have "a = Refused (HTTPException 429 ''model'')
    \<and> (\<exists>nc. own_conv (se_saved (cs_session st')) 7 (tv_conv_id limited_server) = Some nc
          \<and> cn_summary nc = Some (take 2000 (handoff (ce_ord sample_ce) sample_conv (messages_of (se_work (open_session sample_db)) ''c1''))))
    \<and> (\<exists>conv. fst (resolve_conversation (ce_uuid sample_ce) (ce_ord sample_ce) of_nat 400001 ''c3'' (Some ''c1'') ''pin?'' 7
              (open_session (se_saved (cs_session st')))) = Inr (conv, Some (''c3'', ''c1'')) \<and> cn_id conv = ''c3'' \<and> cn_summary conv = None)"
    using ids(1,2,4,5) work' conv(2) free eff run by (intro result)
  then show ?thesis using run unfolding state ids by auto
qed

definition caching_sx :: "string answer_payload \<Rightarrow> ((string \<times> real) option, unit, unit, unit) stream_env_all" where
  "caching_sx p =
     sample_sx\<lparr>sx_turn := (sx_turn sample_sx)\<lparr>te_backend := sample_backend\<lparr>be_cfg := sample_plain\<lparr>USE_REDIS := True\<rparr>, be_answers_up := True,
       be_answers := \<lparr>as_get = \<lambda>_ _ _. Inr (Some p), as_set = \<lambda>r _ _ _ _. Inr r\<rparr>\<rparr>\<rparr>\<rparr>"

theorem hit_overrides_comparison_witness:
  "let p = \<lparr>ap_response = ''1234'', ap_model = ''m'', ap_timestamp = 0\<rparr>
   in fst (chat_stream (quiet_server\<lparr>tv_conv_id := ''c9''\<rparr>) (caching_sx p) sample_ce (sample_chat_request None None True) 7 sample_chat_state)
        = Cached [Forward (Token ''1234''), Forward (Done ''m'' True False False False False [] None)] (Inr ()) [AutoTitle ''c9'' ''pin?'' ''1234'']"
proof -
  let ?p = "\<lparr>ap_response = ''1234'', ap_model = ''m'', ap_timestamp = 0\<rparr>"
  let ?out = "[Forward (Token ''1234''), Forward (Done ''m'' True False False False False [] None)]"
  have "fst (chat_stream (quiet_server\<lparr>tv_conv_id := ''c9''\<rparr>) (caching_sx ?p) sample_ce (sample_chat_request None None False) 7 sample_chat_state)
      = Cached ?out (Inr ()) [AutoTitle ''c9'' ''pin?'' ''1234'']"
    by (simp add: chat_stream_def quiet_server_def sample_chat_request_def resolve_conversation_def Let_def resolve_effective_model_def resolve_model_def
      new_conversation_def set_and_nonempty_def early_hit_def extract_model_params_def sample_chat_state_def open_session_def sample_db_def
      caching_sx_def get_cached_response_def redis_in_use_def serve_hit_def try_commit_def hit_reply_def add_question_def user_message_row_def
      change_def commit_def add_conv_def add_message_def update_conv_def messages_of_def sample_message_def strip_def)
  then obtain st' where "chat_stream (quiet_server\<lparr>tv_conv_id := ''c9''\<rparr>) (caching_sx ?p) sample_ce (sample_chat_request None None False) 7 sample_chat_state
      = (Cached ?out (Inr ()) [AutoTitle ''c9'' ''pin?'' ''1234''], st')" by (metis prod.collapse)
  from hit_overrides_comparison [OF this, of True] show ?thesis by (simp add: sample_chat_request_def)
qed

end
