(* ===== verification/Model_Comparison.thy ===== *)
theory Model_Comparison
  imports Nim_Client Request_Extras "HOL-Library.Sublist"
begin

text \<open>
  The comparison of models (\<^verbatim>\<open>backend/llm/service/compare.py\<close>): one task for each model streams its
  answer and puts every piece, and at the end a mark, into a queue; the generator takes from the queue
  until it has seen as many marks as there are tasks. The tasks run side by side, so a run is a
  sequence of steps: a task puts its next item, or the generator takes one.
\<close>

section \<open>What is compared\<close>

definition label_for :: "config \<Rightarrow> catalog_cache \<Rightarrow> string \<Rightarrow> string" where
  "label_for cfg cat model_id =
     (case get_entry cat model_id of
        Some e \<Rightarrow> if e_label e \<noteq> [] then e_label e
                 else (case List.find (\<lambda>(k, v). v = model_id) (MODELS cfg) of Some (role, _) \<Rightarrow> capitalize role | None \<Rightarrow> derive_label model_id)
      | None \<Rightarrow> (case List.find (\<lambda>(k, v). v = model_id) (MODELS cfg) of Some (role, _) \<Rightarrow> capitalize role | None \<Rightarrow> derive_label model_id))"

definition compared_models :: "config \<Rightarrow> string list option \<Rightarrow> string list" where
  "compared_models cfg models = (case models of Some (m # ms) \<Rightarrow> m # ms | _ \<Rightarrow> map snd (MODELS cfg))"

text \<open>
  What one task puts: every chunk of the model's stream, whatever it carries, and the mark; an
  exception of the stream only ends the chunks. \<open>outcome\<close> is the streaming call
  (\<^const>\<open>call_stream\<close>) of a model with its parameters.
\<close>

datatype item =
    Piece nat chunk
  | Finished nat
  \<comment> \<open>the number of the task\<close>

definition task_items :: "nat \<Rightarrow> chunk list \<Rightarrow> item list" where
  "task_items i chunks = map (Piece i) chunks @ [Finished i]"

definition task_streams :: "config \<Rightarrow> catalog_cache \<Rightarrow> (string \<Rightarrow> pydict \<Rightarrow> 'r stream_outcome) \<Rightarrow> pydict option \<Rightarrow> string list \<Rightarrow> chunk list list" where
  "task_streams cfg cat outcome model_params selected =
     map (\<lambda>m. so_chunks (outcome m (apply_request_extras cfg cat m model_params))) selected"

section \<open>The run\<close>

record compare_state =
  cq_todo :: "item list list"
  cq_queue :: "item list"
  cq_taken :: "item list"

text \<open>The counter of the generator is the number of marks it has taken.\<close>

fun is_mark :: "item \<Rightarrow> bool" where
  "is_mark (Finished i) = True"
| "is_mark (Piece i c) = False"

definition marks :: "item list \<Rightarrow> nat" where
  "marks xs = length (filter is_mark xs)"

definition compare_start :: "chunk list list \<Rightarrow> compare_state" where
  "compare_start streams = \<lparr>cq_todo = map (\<lambda>(i, cs). task_items i cs) (enumerate 0 streams), cq_queue = [], cq_taken = []\<rparr>"

inductive compare_step :: "compare_state \<Rightarrow> compare_state \<Rightarrow> bool" where
  put: "i < length (cq_todo st) \<Longrightarrow> cq_todo st ! i = x # xs
        \<Longrightarrow> compare_step st (st\<lparr>cq_todo := (cq_todo st)[i := xs], cq_queue := cq_queue st @ [x]\<rparr>)"
| get: "marks (cq_taken st) < length (cq_todo st) \<Longrightarrow> cq_queue st = x # q
        \<Longrightarrow> compare_step st (st\<lparr>cq_queue := q, cq_taken := cq_taken st @ [x]\<rparr>)"

definition compare_over :: "compare_state \<Rightarrow> bool" where
  "compare_over st = (marks (cq_taken st) = length (cq_todo st))"

datatype compare_event =
    CompareStart "(string \<times> string) list"
  | ComparePiece string chunk
  | CompareDone

fun shown_item :: "string list \<Rightarrow> item \<Rightarrow> compare_event option" where
  "shown_item models (Piece i c) = Some (ComparePiece (models ! i) c)"
| "shown_item models (Finished i) = None"

text \<open>What the client gets: the models with their labels, the pieces as they were taken, and the end.\<close>

definition compare_events :: "config \<Rightarrow> catalog_cache \<Rightarrow> string list \<Rightarrow> compare_state \<Rightarrow> compare_event list" where
  "compare_events cfg cat selected st =
     CompareStart (map (\<lambda>m. (m, label_for cfg cat m)) selected) # List.map_filter (shown_item selected) (cq_taken st)
       @ (if compare_over st then [CompareDone] else [])"

section \<open>Order and completeness\<close>

fun task_of :: "item \<Rightarrow> nat" where
  "task_of (Piece i c) = i"
| "task_of (Finished i) = i"

definition of_task :: "nat \<Rightarrow> item list \<Rightarrow> item list" where
  "of_task i xs = filter (\<lambda>x. task_of x = i) xs"

lemma of_task_simps [simp]:
  "of_task i [] = []" "of_task i (x # xs) = (if task_of x = i then x # of_task i xs else of_task i xs)"
  "of_task i (xs @ ys) = of_task i xs @ of_task i ys"
  by (simp_all add: of_task_def)

text \<open>For every task: what was taken, what waits in the queue and what is still to put are its items, in order.\<close>

definition compare_inv :: "chunk list list \<Rightarrow> compare_state \<Rightarrow> bool" where
  "compare_inv streams st =
     (length (cq_todo st) = length streams
      \<and> (\<forall>i < length streams. of_task i (cq_taken st) @ of_task i (cq_queue st) @ cq_todo st ! i = task_items i (streams ! i))
      \<and> (\<forall>x \<in> set (cq_taken st) \<union> set (cq_queue st). task_of x < length streams))"

lemma start_inv: "compare_inv streams (compare_start streams)"
  by (simp add: compare_inv_def compare_start_def nth_enumerate_eq)

lemma task_items_of: "x \<in> set (task_items i cs) \<Longrightarrow> task_of x = i"
  by (auto simp: task_items_def)

lemma step_inv:
  assumes "compare_step st st'" and "compare_inv streams st"
  shows "compare_inv streams st'"
  using assms
proof cases
  case (put i x xs)
  with assms(2) have "of_task i (cq_taken st) @ of_task i (cq_queue st) @ x # xs = task_items i (streams ! i)"
    by (auto simp: compare_inv_def)
  then have "x \<in> set (task_items i (streams ! i))" by (metis in_set_conv_decomp append_assoc)
  then have "task_of x = i" by (rule task_items_of)
  with assms(2) put show ?thesis by (auto simp: compare_inv_def nth_list_update)
next
  case (get x q)
  with assms(2) show ?thesis by (auto simp: compare_inv_def)
qed

lemma reachable_inv: "compare_step\<^sup>*\<^sup>* (compare_start streams) st \<Longrightarrow> compare_inv streams st"
  by (induction rule: rtranclp_induct) (auto intro: start_inv step_inv)

text \<open>Every step shortens what is still to be put and taken.\<close>

definition compare_work :: "compare_state \<Rightarrow> nat" where
  "compare_work st = 2 * sum_list (map length (cq_todo st)) + length (cq_queue st)"

lemma todo_update:
  "i < length xss \<Longrightarrow> sum_list (map length (xss[i := ys])) + length (xss ! i) = sum_list (map length xss) + length ys"
proof (induction xss arbitrary: i)
  case (Cons zs xss)
  then show ?case by (cases i) auto
qed simp

lemma step_work: "compare_step st st' \<Longrightarrow> compare_work st' < compare_work st"
proof (induction rule: compare_step.induct)
  case (put i st x xs)
  then show ?case using todo_update [of i "cq_todo st" xs] by (simp add: compare_work_def)
qed (simp add: compare_work_def)

lemma marks_sum:
  assumes "\<forall>x \<in> set xs. task_of x < n"
  shows "marks xs = (\<Sum>i<n. marks (of_task i xs))"
  using assms
proof (induction xs)
  case (Cons x xs)
  have "marks (of_task i (x # xs)) = (if i = task_of x then marks [x] else 0) + marks (of_task i xs)" for i
    by (simp add: marks_def)
  then have "(\<Sum>i<n. marks (of_task i (x # xs))) = (\<Sum>i<n. if i = task_of x then marks [x] else 0) + (\<Sum>i<n. marks (of_task i xs))"
    by (simp only: sum.distrib)
  also have "\<dots> = marks [x] + marks xs" using Cons by simp
  finally show ?case by (simp add: marks_def)
qed (simp add: marks_def)

lemma marks_task_items: "xs @ ys = task_items i cs \<Longrightarrow> marks xs \<le> 1 \<and> (marks xs = 1 \<longrightarrow> ys = [])"
proof -
  assume eq: "xs @ ys = task_items i cs"
  have none: "marks (map (Piece i) cs) = 0" by (simp add: marks_def)
  show ?thesis
  proof (cases ys rule: rev_cases)
    case Nil
    with eq none show ?thesis by (simp add: task_items_def marks_def)
  next
    case (snoc zs z)
    with eq have "xs @ zs = map (Piece i) cs" by (simp add: task_items_def)
    with none have "marks xs + marks zs = 0" by (simp add: marks_def flip: length_append filter_append)
    then show ?thesis by simp
  qed
qed

text \<open>The pieces of a task that were taken.\<close>

fun chunk_of :: "item \<Rightarrow> chunk option" where
  "chunk_of (Piece i c) = Some c"
| "chunk_of (Finished i) = None"

definition pieces :: "nat \<Rightarrow> compare_state \<Rightarrow> chunk list" where
  "pieces i st = List.map_filter chunk_of (of_task i (cq_taken st))"

lemma chunks_of_items: "List.map_filter chunk_of (task_items i cs) = cs"
  by (induction cs) (simp_all add: task_items_def List.map_filter_def)

lemma map_filter_append: "List.map_filter f (xs @ ys) = List.map_filter f xs @ List.map_filter f ys"
  by (simp add: List.map_filter_def)

lemma over_complete:
  assumes "compare_inv streams st" and "compare_over st" and "i < length streams"
  shows "of_task i (cq_taken st) = task_items i (streams ! i)"
proof -
  let ?m = "\<lambda>i. marks (of_task i (cq_taken st))" and ?n = "length streams"
  have le: "?m j \<le> 1" if "j < ?n" for j
    using assms(1) that marks_task_items [of "of_task j (cq_taken st)" _ j "streams ! j"] by (auto simp: compare_inv_def)
  have "(\<Sum>j<?n. ?m j) = ?n" using assms(1,2) marks_sum [of "cq_taken st" ?n] by (auto simp: compare_inv_def compare_over_def)
  moreover have "(\<Sum>j<?n. ?m j) < (\<Sum>j<?n. 1)" if "?m i = 0"
    by (rule sum_strict_mono_ex1) (use le that assms(3) in auto)
  ultimately have "?m i = 1" using le [OF assms(3)] by (cases "?m i = 0") auto
  then show ?thesis
    using assms(1,3) marks_task_items [of "of_task i (cq_taken st)" "of_task i (cq_queue st) @ cq_todo st ! i" i "streams ! i"]
    by (auto simp: compare_inv_def)
qed

lemma stuck_is_over:
  assumes "compare_inv streams st" and "\<nexists>st'. compare_step st st'"
  shows "compare_over st"
proof (rule ccontr)
  assume not_over: "\<not> compare_over st"
  have todo: "cq_todo st ! i = []" if "i < length streams" for i
  proof (rule ccontr)
    assume "cq_todo st ! i \<noteq> []"
    then obtain x xs where "cq_todo st ! i = x # xs" by (cases "cq_todo st ! i") auto
    with that assms show False by (metis compare_inv_def compare_step.put)
  qed
  have items: "marks (of_task i (cq_taken st) @ of_task i (cq_queue st)) = 1" if "i < length streams" for i
  proof -
    have "of_task i (cq_taken st) @ of_task i (cq_queue st) = task_items i (streams ! i)"
      using assms(1) that todo [OF that] by (auto simp: compare_inv_def)
    then show ?thesis by (simp add: task_items_def marks_def)
  qed
  have "marks (cq_taken st @ cq_queue st) = (\<Sum>i<length streams. marks (of_task i (cq_taken st) @ of_task i (cq_queue st)))"
    using marks_sum [of "cq_taken st @ cq_queue st" "length streams"] assms(1) by (auto simp: compare_inv_def)
  also have "\<dots> = length streams" using items by simp
  finally have enough: "marks (cq_taken st) + marks (cq_queue st) = length streams" by (simp add: marks_def)
  have "length (cq_todo st) = length streams" using assms(1) by (simp add: compare_inv_def)
  with enough not_over have "marks (cq_taken st) < length (cq_todo st)" "cq_queue st \<noteq> []"
    by (auto simp: compare_over_def marks_def)
  then show False using assms(2) by (metis compare_step.get list.exhaust)
qed

text \<open>
  C35. However the streams interleave, the client of a comparison gets the pieces of each model in their order; when the
  end is announced it has got all of every model, whether its stream broke or not, and it is announced at last: every step leaves
  less to do, and only a run that is over has no next step.
\<close>

theorem comparison_complete:
  assumes "compare_step\<^sup>*\<^sup>* (compare_start (task_streams cfg cat outcome model_params selected)) st" and "i < length selected"
  shows "prefix (pieces i st) (so_chunks (outcome (selected ! i) (apply_request_extras cfg cat (selected ! i) model_params)))
    \<and> (compare_over st \<longrightarrow> pieces i st = so_chunks (outcome (selected ! i) (apply_request_extras cfg cat (selected ! i) model_params)))
    \<and> (\<not> compare_over st \<longrightarrow> (\<exists>st'. compare_step st st'))
    \<and> (\<forall>st'. compare_step st st' \<longrightarrow> compare_work st' < compare_work st)"
proof -
  let ?streams = "task_streams cfg cat outcome model_params selected"
  have inv: "compare_inv ?streams st" using assms(1) by (rule reachable_inv)
  have i: "i < length ?streams" "?streams ! i = so_chunks (outcome (selected ! i) (apply_request_extras cfg cat (selected ! i) model_params))"
    using assms(2) by (simp_all add: task_streams_def)
  have "of_task i (cq_taken st) @ of_task i (cq_queue st) @ cq_todo st ! i = task_items i (?streams ! i)"
    using inv i(1) by (simp add: compare_inv_def)
  then have "prefix (pieces i st) (?streams ! i)"
    unfolding pieces_def by (metis chunks_of_items map_filter_append prefixI)
  moreover have "compare_over st \<longrightarrow> pieces i st = ?streams ! i"
    using over_complete [OF inv _ i(1)] by (simp add: pieces_def chunks_of_items)
  ultimately show ?thesis using stuck_is_over [OF inv] step_work i(2) by auto
qed

theorem comparison_complete_witness:
  "let st = \<lparr>cq_todo = [[]], cq_queue = [], cq_taken = [Piece 0 (Usage []), Finished 0]\<rparr>;
       outcome = (\<lambda>m p. stream_end [Usage []] (Inl OtherError) [] \<lparr>ns_breaker = init_breaker, ns_endpoint = \<lparr>ep_local = None, ep_redis = ()\<rparr>\<rparr>)
   in compare_step\<^sup>*\<^sup>* (compare_start (task_streams default_config reset_cache outcome None [''m''])) st \<and> pieces 0 st = [Usage []]"
proof -
  let ?outcome = "\<lambda>m p. stream_end [Usage []] (Inl OtherError) [] \<lparr>ns_breaker = init_breaker, ns_endpoint = \<lparr>ep_local = None, ep_redis = ()\<rparr>\<rparr>"
  let ?st = "\<lparr>cq_todo = [[]], cq_queue = [], cq_taken = [Piece 0 (Usage []), Finished 0]\<rparr>"
  have step1: "compare_step \<lparr>cq_todo = [[Piece 0 c, Finished 0]], cq_queue = [], cq_taken = []\<rparr> \<lparr>cq_todo = [[Finished 0]], cq_queue = [Piece 0 c], cq_taken = []\<rparr>" for c
    using put [of 0 "\<lparr>cq_todo = [[Piece 0 c, Finished 0]], cq_queue = [], cq_taken = []\<rparr>"] by simp
  have step2: "compare_step \<lparr>cq_todo = [[Finished 0]], cq_queue = [Piece 0 c], cq_taken = []\<rparr> \<lparr>cq_todo = [[]], cq_queue = [Piece 0 c, Finished 0], cq_taken = []\<rparr>" for c
    using put [of 0 "\<lparr>cq_todo = [[Finished 0]], cq_queue = [Piece 0 c], cq_taken = []\<rparr>"] by simp
  have step3: "compare_step \<lparr>cq_todo = [[]], cq_queue = x # q, cq_taken = ts\<rparr> \<lparr>cq_todo = [[]], cq_queue = q, cq_taken = ts @ [x]\<rparr>" if "marks ts < 1" for x q ts
    using get [of "\<lparr>cq_todo = [[]], cq_queue = x # q, cq_taken = ts\<rparr>"] that by simp
  have start: "compare_start (task_streams default_config reset_cache ?outcome None [''m''])
      = \<lparr>cq_todo = [[Piece 0 (Usage []), Finished 0]], cq_queue = [], cq_taken = []\<rparr>"
    by (simp add: compare_start_def task_streams_def stream_end_def task_items_def)
  have run: "compare_step\<^sup>*\<^sup>* (compare_start (task_streams default_config reset_cache ?outcome None [''m''])) ?st"
    unfolding start using step1 [of "Usage []"] step2 [of "Usage []"] step3 [of "[]" "Piece 0 (Usage [])" "[Finished 0]"]
      step3 [of "[Piece 0 (Usage [])]" "Finished 0" "[]"]
    by (auto simp: marks_def intro: converse_rtranclp_into_rtranclp)
  from comparison_complete [OF this, of 0] run show ?thesis
    by (simp add: compare_over_def marks_def stream_end_def)
qed

end
