(* ===== verification/Connectors.thy ===== *)
theory Connectors
  imports Settings Retrieval
begin

text \<open>
  The accounts of users at other services: the endpoints \<^verbatim>\<open>backend/api/integrations.py\<close> with the OAuth
  flow, the credentials the Google tools load (\<^verbatim>\<open>backend/llm/tools/_google_creds.py\<close>), the renewal of
  tokens at Google (\<^verbatim>\<open>backend/services/integrations/google_oauth.py\<close>) and the synchronisation job
  (\<^verbatim>\<open>backend/services/arq_worker.py\<close>).

  The cipher of the stored tokens, the exchange of a code and the renewal at a provider are
  parameters; Redis keeps a state until its deadline. A request is authenticated before: it carries
  the id of its user. The unique index of the table does not count null resources as equal.
  Which of several active sources the tools load is left to the order of the database.
\<close>

section \<open>Sources and tokens\<close>

record tokens =
  tk_access :: string
  tk_refresh :: "string option"
  tk_expires :: "int option"

text \<open>Credentials as stored: the tokens are encrypted.\<close>

record stored_tokens =
  ct_access :: string
  ct_refresh :: "string option"
  ct_expires :: "int option"

record external_source =
  xs_id :: string
  xs_user :: int
  xs_type :: string
  xs_name :: "string option"
  xs_resource :: "string option"
  xs_creds :: "stored_tokens option"
  xs_status :: string
  xs_error :: "string option"
  xs_synced :: "real option"

type_synonym source_table = "external_source list"

text \<open>What a provider, or the cipher, raises.\<close>

datatype provider_error =
    ReauthRequired string
  | HttpStatus int string
  | ProviderError string

record crypto =
  cy_encrypt :: "string \<Rightarrow> string result"
  cy_decrypt :: "string \<Rightarrow> string result"

definition VALID_TYPES :: "string list" where
  "VALID_TYPES = [''google_drive'', ''google_calendar'', ''gmail'', ''notion'', ''github'']"

definition STATE_TTL :: nat where
  "STATE_TTL = 600"

definition find_source :: "source_table \<Rightarrow> string \<Rightarrow> external_source option" where
  "find_source srcs sid = List.find (\<lambda>x. xs_id x = sid) srcs"

definition update_source :: "string \<Rightarrow> (external_source \<Rightarrow> external_source) \<Rightarrow> source_table \<Rightarrow> source_table" where
  "update_source sid f srcs = map (\<lambda>x. if xs_id x = sid then f x else x) srcs"

section \<open>Endpoints\<close>

text \<open>Rows stand in the order of their creation; the list has the newest first.\<close>

definition list_sources :: "int \<Rightarrow> source_table \<Rightarrow> source_table" where
  "list_sources uid srcs = rev (filter (\<lambda>x. xs_user x = uid) srcs)"

definition new_source :: "string \<Rightarrow> int \<Rightarrow> string \<Rightarrow> string option \<Rightarrow> string option \<Rightarrow> external_source" where
  "new_source sid uid ctype name resource =
     \<lparr>xs_id = sid, xs_user = uid, xs_type = ctype, xs_name = name, xs_resource = resource, xs_creds = None,
      xs_status = ''pending'', xs_error = None, xs_synced = None\<rparr>"

definition clashes :: "external_source \<Rightarrow> external_source \<Rightarrow> bool" where
  "clashes x y = (xs_user x = xs_user y \<and> xs_type x = xs_type y \<and> xs_resource x \<noteq> None \<and> xs_resource x = xs_resource y)"

definition create_source :: "bool \<Rightarrow> string \<Rightarrow> int \<Rightarrow> string \<Rightarrow> string option \<Rightarrow> string option \<Rightarrow> source_table \<Rightarrow>
    external_source result \<times> source_table" where
  "create_source ready fresh uid ctype name resource srcs =
     (if ctype \<notin> set VALID_TYPES then (Inl (HTTPException 422 ''connector_type''), srcs)
      else if \<not> ready then (Inl (HTTPException 503 ''Encryption not configured (INTEGRATION_SECRET missing)''), srcs)
      else
        let x = new_source fresh uid ctype name resource
        in if list_ex (clashes x) srcs then (Inl (HTTPException 409 ''Source already exists for this user/type/resource''), srcs)
           else (Inr x, srcs @ [x]))"

definition get_source :: "string \<Rightarrow> int \<Rightarrow> source_table \<Rightarrow> external_source result" where
  "get_source sid uid srcs =
     (case find_source srcs sid of
        None \<Rightarrow> Inl (HTTPException 404 ''Source not found'')
      | Some x \<Rightarrow> if xs_user x = uid then Inr x else Inl (HTTPException 404 ''Source not found''))"

text \<open>A field is absent, or present and possibly null; a null status, and a resource used twice, violate the table and the request fails.\<close>

definition patch_source :: "string \<Rightarrow> int \<Rightarrow> string option option \<Rightarrow> string option option \<Rightarrow> string option option \<Rightarrow> source_table \<Rightarrow>
    external_source result \<times> source_table" where
  "patch_source sid uid name resource status srcs =
     (if \<not> (case status of Some (Some s) \<Rightarrow> s = ''active'' \<or> s = ''paused'' | _ \<Rightarrow> True) then (Inl (HTTPException 422 ''status''), srcs)
      else case get_source sid uid srcs of
        Inl e \<Rightarrow> (Inl e, srcs)
      | Inr x \<Rightarrow>
          let x1 = (case name of None \<Rightarrow> x | Some v \<Rightarrow> x\<lparr>xs_name := v\<rparr>);
              x2 = (case resource of None \<Rightarrow> x1 | Some v \<Rightarrow> x1\<lparr>xs_resource := v\<rparr>)
          in case status of
               Some None \<Rightarrow> (Inl OtherError, srcs)
             | s \<Rightarrow>
                 let x3 = (case s of Some (Some v) \<Rightarrow> x2\<lparr>xs_status := v\<rparr> | _ \<Rightarrow> x2)
                 in if list_ex (\<lambda>y. xs_id y \<noteq> sid \<and> clashes x3 y) srcs then (Inl OtherError, srcs)
                    else (Inr x3, update_source sid (\<lambda>_. x3) srcs))"

definition delete_source :: "string \<Rightarrow> int \<Rightarrow> source_table \<Rightarrow> unit result \<times> source_table" where
  "delete_source sid uid srcs =
     (case get_source sid uid srcs of
        Inl e \<Rightarrow> (Inl e, srcs)
      | Inr x \<Rightarrow> (Inr (), filter (\<lambda>y. xs_id y \<noteq> sid) srcs))"

text \<open>The value is the source a job is queued for.\<close>

definition sync_source :: "string \<Rightarrow> int \<Rightarrow> source_table \<Rightarrow> string result" where
  "sync_source sid uid srcs =
     bindR (get_source sid uid srcs) (\<lambda>x.
       if xs_status x \<in> {''active'', ''pending'', ''error''} then Inr sid
       else Inl (HTTPException 400 (''Cannot sync source in status '' @ [CHR 0x27] @ xs_status x @ [CHR 0x27])))"

section \<open>The OAuth flow\<close>

text \<open>A state of Redis: its deadline, the user and the connector it was made for.\<close>

type_synonym oauth_states = "(string \<times> real \<times> int \<times> string) list"

definition state_get :: "real \<Rightarrow> string \<Rightarrow> oauth_states \<Rightarrow> (int \<times> string) option" where
  "state_get now st states =
     (case dget states st of Some (deadline, uid, ctype) \<Rightarrow> if now < deadline then Some (uid, ctype) else None | None \<Rightarrow> None)"

definition oauth_start :: "bool \<Rightarrow> (string \<Rightarrow> bool) \<Rightarrow> real \<Rightarrow> string \<Rightarrow> string \<Rightarrow> int \<Rightarrow> oauth_states \<Rightarrow> string result \<times> oauth_states" where
  "oauth_start ready client_id now fresh ctype uid states =
     (if ctype \<notin> set VALID_TYPES then (Inl (HTTPException 422 ''connector_type''), states)
      else if \<not> ready then (Inl (HTTPException 503 ''Encryption not configured (INTEGRATION_SECRET missing)''), states)
      else if \<not> client_id ctype then (Inl (HTTPException 503 (ctype @ '' OAuth not configured'')), states)
      else (Inr fresh, dset states fresh (now + of_nat STATE_TTL, uid, ctype)))"

definition encrypt_opt :: "crypto \<Rightarrow> string option \<Rightarrow> string option result" where
  "encrypt_opt cy t =
     (case t of Some (x # xs) \<Rightarrow> bindR (cy_encrypt cy (x # xs)) (\<lambda>c. Inr (Some c)) | _ \<Rightarrow> Inr None)"

definition seal :: "crypto \<Rightarrow> tokens \<Rightarrow> stored_tokens result" where
  "seal cy t =
     bindR (cy_encrypt cy (tk_access t)) (\<lambda>a.
     bindR (encrypt_opt cy (tk_refresh t)) (\<lambda>r. Inr \<lparr>ct_access = a, ct_refresh = r, ct_expires = tk_expires t\<rparr>))"

definition unseal :: "crypto \<Rightarrow> stored_tokens \<Rightarrow> tokens result" where
  "unseal cy c =
     bindR (cy_decrypt cy (ct_access c)) (\<lambda>a.
     bindR (case ct_refresh c of Some (x # xs) \<Rightarrow> bindR (cy_decrypt cy (x # xs)) (\<lambda>r. Inr (Some r)) | _ \<Rightarrow> Inr None) (\<lambda>r.
       Inr \<lparr>tk_access = a, tk_refresh = r, tk_expires = ct_expires c\<rparr>))"

text \<open>
  The callback is not authenticated; the state names the user. It is deleted before the code is
  exchanged. More than one source without a resource makes \<^verbatim>\<open>scalar_one_or_none\<close> raise.
\<close>

definition oauth_callback :: "crypto \<Rightarrow> (string \<Rightarrow> string \<Rightarrow> tokens result) \<Rightarrow> real \<Rightarrow> string \<Rightarrow> string \<Rightarrow> string \<Rightarrow> source_table \<times> oauth_states \<Rightarrow>
    unit result \<times> source_table \<times> oauth_states" where
  "oauth_callback cy exchange now fresh code_value st db =
     (case db of (srcs, states) \<Rightarrow>
      case state_get now st states of
        None \<Rightarrow> (Inl (HTTPException 400 ''Invalid or expired state''), srcs, states)
      | Some (uid, ctype) \<Rightarrow>
          let states1 = ddel states st in
          case bindR (exchange ctype code_value) (seal cy) of
            Inl e \<Rightarrow> (Inl e, srcs, states1)
          | Inr creds \<Rightarrow>
              (case filter (\<lambda>x. xs_user x = uid \<and> xs_type x = ctype \<and> xs_resource x = None) srcs of
                 [] \<Rightarrow> (Inr (), srcs @ [(new_source fresh uid ctype (Some ctype) None)\<lparr>xs_creds := Some creds, xs_status := ''active''\<rparr>], states1)
               | [x] \<Rightarrow> (Inr (), update_source (xs_id x) (\<lambda>x. x\<lparr>xs_creds := Some creds, xs_status := ''active'', xs_error := None\<rparr>) srcs, states1)
               | _ \<Rightarrow> (Inl (OtherError), srcs, states1)))"

section \<open>Renewal of tokens\<close>

text \<open>A reply of the token endpoint: status, whether the text has \<^verbatim>\<open>invalid_grant\<close>, access token and lifetime.\<close>

record token_reply =
  tr_status :: int
  tr_invalid_grant :: bool
  tr_access :: string
  tr_expires_in :: int

definition google_refresh :: "int \<Rightarrow> (string \<Rightarrow> token_reply) \<Rightarrow> tokens \<Rightarrow> provider_error + tokens" where
  "google_refresh now post t =
     (case tk_refresh t of
        Some (x # xs) \<Rightarrow>
          let r = post (x # xs)
          in if tr_status r = 400 \<and> tr_invalid_grant r then Inl (ReauthRequired ''Google refresh token expired or revoked'')
             else if \<not> (200 \<le> tr_status r \<and> tr_status r < 300) then Inl (HttpStatus (tr_status r) ''token'')
             else Inr \<lparr>tk_access = tr_access r, tk_refresh = Some (x # xs), tk_expires = Some (now + tr_expires_in r)\<rparr>
      | _ \<Rightarrow> Inr t)"

definition has_expired :: "int \<Rightarrow> int option \<Rightarrow> bool" where
  "has_expired now e = (case e of Some n \<Rightarrow> n \<noteq> 0 \<and> n < now | None \<Rightarrow> False)"

text \<open>
  What the Google tools get: the source, when there is an active one, and its tokens, renewed when
  they have expired. Any active source of the connector will do, whatever its resource: the query has no order and takes the first row,
  so the order is an argument. An exception other than a rejected renewal reaches the tool.
\<close>

definition active_sources :: "int \<Rightarrow> string \<Rightarrow> source_table \<Rightarrow> source_table" where
  "active_sources uid ctype srcs = filter (\<lambda>x. xs_user x = uid \<and> xs_type x = ctype \<and> xs_status x = ''active'') srcs"

definition load_google_credentials :: "(source_table \<Rightarrow> source_table) \<Rightarrow> crypto \<Rightarrow> int \<Rightarrow> (tokens \<Rightarrow> provider_error + tokens) \<Rightarrow> int \<Rightarrow> string \<Rightarrow>
    source_table \<Rightarrow> (external_source option \<times> tokens option) result \<times> source_table" where
  "load_google_credentials ord cy now refresh uid ctype srcs =
     (case set_order ord (active_sources uid ctype srcs) of
        [] \<Rightarrow> (Inr (None, None), srcs)
      | x # _ \<Rightarrow>
          (case xs_creds x of
             None \<Rightarrow> (Inr (None, None), srcs)
           | Some c \<Rightarrow>
               (case unseal cy c of
                  Inl e \<Rightarrow> (Inl e, srcs)
                | Inr t \<Rightarrow>
                    if \<not> has_expired now (tk_expires t) then (Inr (Some x, Some t), srcs)
                    else if tk_refresh t = None \<or> tk_refresh t = Some [] then
                      let x1 = x\<lparr>xs_status := ''needs_reauth''\<rparr> in (Inr (Some x1, None), update_source (xs_id x) (\<lambda>_. x1) srcs)
                    else
                      (case refresh t of
                         Inl (ReauthRequired m) \<Rightarrow>
                           let x1 = x\<lparr>xs_status := ''needs_reauth'', xs_error := Some m\<rparr> in (Inr (Some x1, None), update_source (xs_id x) (\<lambda>_. x1) srcs)
                       | Inl _ \<Rightarrow> (Inl OtherError, srcs)
                       | Inr t1 \<Rightarrow>
                           (case seal cy t1 of
                              Inl e \<Rightarrow> (Inl e, srcs)
                            | Inr c1 \<Rightarrow>
                                let x1 = x\<lparr>xs_creds := Some c1\<rparr> in (Inr (Some x1, Some t1), update_source (xs_id x) (\<lambda>_. x1) srcs))))))"

section \<open>The synchronisation job\<close>

definition RETRY_LIMIT :: nat where
  "RETRY_LIMIT = 3"

datatype sync_end =
    SyncDone
  | SyncStopped
  \<comment> \<open>nothing to do, or the user has to connect again\<close>
  | SyncRetry
  | SyncFailed

text \<open>What went wrong in a job, on the table as it was: a roll-back comes first.\<close>

definition sync_problem :: "nat \<Rightarrow> string \<Rightarrow> provider_error \<Rightarrow> source_table \<Rightarrow> sync_end \<times> source_table" where
  "sync_problem attempt sid e srcs =
     (let reauth = (\<lambda>m. (SyncStopped, update_source sid (\<lambda>x. x\<lparr>xs_status := ''needs_reauth'', xs_error := Some (take 2000 m)\<rparr>) srcs));
          failed = (\<lambda>m. if attempt \<le> RETRY_LIMIT then (SyncRetry, update_source sid (\<lambda>x. x\<lparr>xs_error := Some (take 2000 m)\<rparr>) srcs)
                        else (SyncFailed, update_source sid (\<lambda>x. x\<lparr>xs_status := ''error'', xs_error := Some (take 2000 m)\<rparr>) srcs))
      in case e of
           ReauthRequired m \<Rightarrow> reauth m
         | HttpStatus n m \<Rightarrow> if n = 401 \<or> n = 403 then reauth m else failed m
         | ProviderError m \<Rightarrow> failed m)"

text \<open>Renewal, if the tokens have expired, and a new time of synchronisation; the data of the source is not read.\<close>

definition sync_external_source :: "crypto \<Rightarrow> int \<Rightarrow> (string \<Rightarrow> tokens \<Rightarrow> provider_error + tokens) \<Rightarrow> nat \<Rightarrow> string \<Rightarrow> source_table \<Rightarrow> sync_end \<times> source_table" where
  "sync_external_source cy now refresh attempt sid srcs =
     (case find_source srcs sid of
        None \<Rightarrow> (SyncStopped, srcs)
      | Some x \<Rightarrow>
          (case xs_creds x of
             None \<Rightarrow> (SyncStopped, update_source sid (\<lambda>x. x\<lparr>xs_status := ''needs_reauth''\<rparr>) srcs)
           | Some c \<Rightarrow>
               if xs_type x \<notin> set VALID_TYPES then sync_problem attempt sid (ProviderError ''Unknown connector type'') srcs
               else case unseal cy c of
                 Inl e \<Rightarrow> sync_problem attempt sid (ProviderError ''cipher'') srcs
               | Inr t \<Rightarrow>
                   let synced = (\<lambda>y. y\<lparr>xs_synced := Some (of_int now), xs_status := ''active'', xs_error := None\<rparr>)
                   in if \<not> has_expired now (tk_expires t) then (SyncDone, update_source sid synced srcs)
                      else if tk_refresh t = None \<or> tk_refresh t = Some [] then
                        (SyncStopped, update_source sid (\<lambda>y. y\<lparr>xs_status := ''needs_reauth'',
                           xs_error := Some ''Access token expired and no refresh token available''\<rparr>) srcs)
                      else case refresh (xs_type x) t of
                        Inl e \<Rightarrow> sync_problem attempt sid e srcs
                      | Inr t1 \<Rightarrow>
                          (case seal cy t1 of
                             Inl e \<Rightarrow> sync_problem attempt sid (ProviderError ''cipher'') srcs
                           | Inr c1 \<Rightarrow> (SyncDone, update_source sid (\<lambda>y. synced (y\<lparr>xs_creds := Some c1\<rparr>)) srcs))))"

text \<open>What \<^verbatim>\<open>generate_stream\<close> asks for a connector of its user.\<close>

definition source_active :: "source_table \<Rightarrow> int option \<Rightarrow> string \<Rightarrow> bool" where
  "source_active srcs uid ctype = list_ex (\<lambda>x. Some (xs_user x) = uid \<and> xs_type x = ctype \<and> xs_status x = ''active'') srcs"

section \<open>Users and their sources\<close>

datatype source_op =
    CreateSource bool string int string "string option" "string option"
  | PatchSource string int "string option option" "string option option" "string option option"
  | DeleteSource string int
  | StartOAuth bool "string \<Rightarrow> bool" real string string int
  | CallbackOAuth crypto "string \<Rightarrow> string \<Rightarrow> tokens result" real string string string
  | LoadCredentials "source_table \<Rightarrow> source_table" crypto int "tokens \<Rightarrow> provider_error + tokens" int string
  | SyncJob crypto int "string \<Rightarrow> tokens \<Rightarrow> provider_error + tokens" nat string

fun source_step :: "source_op \<Rightarrow> source_table \<times> oauth_states \<Rightarrow> source_table \<times> oauth_states" where
  "source_step (CreateSource ready fresh uid ctype name resource) (srcs, states) = (snd (create_source ready fresh uid ctype name resource srcs), states)"
| "source_step (PatchSource sid uid name resource status) (srcs, states) = (snd (patch_source sid uid name resource status srcs), states)"
| "source_step (DeleteSource sid uid) (srcs, states) = (snd (delete_source sid uid srcs), states)"
| "source_step (StartOAuth ready client_id now fresh ctype uid) (srcs, states) = (srcs, snd (oauth_start ready client_id now fresh ctype uid states))"
| "source_step (CallbackOAuth cy exchange now fresh code_value st) db = snd (oauth_callback cy exchange now fresh code_value st db)"
| "source_step (LoadCredentials ord cy now refresh uid ctype) (srcs, states) = (snd (load_google_credentials ord cy now refresh uid ctype srcs), states)"
| "source_step (SyncJob cy now refresh attempt sid) (srcs, states) = (snd (sync_external_source cy now refresh attempt sid srcs), states)"

definition fresh_ids :: "source_table \<Rightarrow> bool" where
  "fresh_ids srcs = distinct (map xs_id srcs)"

text \<open>Everything a user has stored; the identifiers of new rows are new.\<close>

definition sources_of :: "int \<Rightarrow> source_table \<Rightarrow> source_table" where
  "sources_of uid srcs = filter (\<lambda>x. xs_user x = uid) srcs"

fun acts_for :: "oauth_states \<Rightarrow> source_table \<Rightarrow> source_op \<Rightarrow> int option" where
  "acts_for states srcs (CreateSource ready fresh uid ctype name resource) = Some uid"
| "acts_for states srcs (PatchSource sid uid name resource status) = Some uid"
| "acts_for states srcs (DeleteSource sid uid) = Some uid"
| "acts_for states srcs (StartOAuth ready client_id now fresh ctype uid) = None"
| "acts_for states srcs (CallbackOAuth cy exchange now fresh code_value st) = map_option fst (state_get now st states)"
| "acts_for states srcs (LoadCredentials ord cy now refresh uid ctype) = Some uid"
| "acts_for states srcs (SyncJob cy now refresh attempt sid) = map_option xs_user (find_source srcs sid)"

text \<open>A change of one row that leaves it to its user and keeps its identifier.\<close>

definition row_kept :: "string \<Rightarrow> source_table \<Rightarrow> source_table \<Rightarrow> bool" where
  "row_kept sid srcs srcs' = (\<exists>f. srcs' = update_source sid f srcs \<and> (\<forall>y \<in> set srcs. xs_id y = sid \<longrightarrow> xs_user (f y) = xs_user y \<and> xs_id (f y) = sid))"

lemma keptI: "(\<And>y. y \<in> set srcs \<Longrightarrow> xs_id y = sid \<Longrightarrow> xs_user (f y) = xs_user y \<and> xs_id (f y) = sid) \<Longrightarrow> row_kept sid srcs (update_source sid f srcs)"
  by (auto simp: row_kept_def)

lemma kept_refl [simp]: "row_kept sid srcs srcs"
  using keptI [of srcs sid "\<lambda>y. y"] by (simp add: update_source_def)

lemma kept_other:
  assumes "row_kept sid srcs srcs'" and "\<And>y. y \<in> set srcs \<Longrightarrow> xs_id y = sid \<Longrightarrow> xs_user y \<noteq> uid"
  shows "sources_of uid srcs' = sources_of uid srcs"
proof -
  obtain f where f: "srcs' = update_source sid f srcs" "\<forall>y \<in> set srcs. xs_id y = sid \<longrightarrow> xs_user (f y) = xs_user y"
    using assms(1) by (auto simp: row_kept_def)
  show ?thesis using f(2) assms(2) unfolding f(1) by (induction srcs) (auto simp: sources_of_def update_source_def)
qed

lemma kept_ids: "row_kept sid srcs srcs' \<Longrightarrow> map xs_id srcs' = map xs_id srcs"
  by (auto simp: row_kept_def update_source_def)

lemma found:
  assumes "fresh_ids srcs" and "find_source srcs sid = Some x"
  shows "x \<in> set srcs \<and> xs_id x = sid \<and> (\<forall>y \<in> set srcs. xs_id y = sid \<longrightarrow> y = x)"
proof -
  have "x \<in> set srcs" "xs_id x = sid" using assms(2) by (auto simp: find_source_def find_Some_iff)
  with assms(1) show ?thesis by (auto simp: fresh_ids_def distinct_map inj_on_def)
qed

lemma get_source_Inr: "get_source sid uid srcs = Inr x \<Longrightarrow> find_source srcs sid = Some x \<and> xs_user x = uid"
  by (auto simp: get_source_def split: option.splits if_splits)

lemma sync_problem_kept: "row_kept sid srcs (snd (sync_problem attempt sid e srcs))"
  by (cases e) (auto simp: sync_problem_def Let_def intro!: keptI)

lemma sync_kept: "row_kept sid srcs (snd (sync_external_source cy now refresh attempt sid srcs))"
  unfolding sync_external_source_def Let_def
  by (auto intro!: keptI sync_problem_kept split: option.splits sum.splits)

lemma row_kept:
  assumes "fresh_ids srcs" and "find_source srcs sid = Some x" and "xs_user z = xs_user x \<and> xs_id z = sid"
  shows "row_kept sid srcs (update_source sid (\<lambda>_. z) srcs)"
  using found [OF assms(1,2)] assms(3) by (intro keptI) auto

lemma patch_kept:
  assumes "fresh_ids srcs"
  shows "row_kept sid srcs (snd (patch_source sid uid name resource status srcs))"
proof (cases "get_source sid uid srcs")
  case (Inl e)
  then show ?thesis by (simp add: patch_source_def)
next
  case (Inr x)
  then have x: "find_source srcs sid = Some x" by (simp add: get_source_Inr)
  then have sid: "sid = xs_id x" using found [OF assms] by blast
  have row: "row_kept (xs_id x) srcs (update_source (xs_id x) (\<lambda>_. z) srcs)" if "xs_user z = xs_user x" "xs_id z = xs_id x" for z
    using row_kept [OF assms, of "xs_id x" x z] x that unfolding sid by simp
  show ?thesis
    using Inr unfolding sid by (auto simp: patch_source_def Let_def split: option.splits intro!: row)
qed

lemma load_kept:
  assumes "fresh_ids srcs"
  shows "\<exists>sid. row_kept sid srcs (snd (load_google_credentials ord cy now refresh uid ctype srcs)) \<and> (\<forall>y \<in> set srcs. xs_id y = sid \<longrightarrow> xs_user y = uid)"
proof (cases "set_order ord (active_sources uid ctype srcs)")
  case Nil
  obtain sid where "sid \<notin> xs_id ` set srcs" using ex_new_if_finite [OF infinite_UNIV_listI, of "xs_id ` set srcs"] by auto
  then show ?thesis using Nil by (intro exI [of _ sid]) (auto simp: load_google_credentials_def)
next
  case (Cons x xs)
  then have "x \<in> set (set_order ord (active_sources uid ctype srcs))" by simp
  then have x: "x \<in> set srcs" "xs_user x = uid" unfolding set_set_order by (auto simp: active_sources_def)
  have one: "y = x" if "y \<in> set srcs" "xs_id y = xs_id x" for y
    using assms x(1) that by (auto simp: fresh_ids_def distinct_map inj_on_def)
  show ?thesis using Cons one x
    by (intro exI [of _ "xs_id x"])
      (auto simp: load_google_credentials_def Let_def intro!: keptI split: option.splits sum.splits provider_error.splits, (blast dest: one)+)
qed

text \<open>UUIDs are new: an operation whose identifier is in use does not happen.\<close>

fun new_id :: "source_op \<Rightarrow> string option" where
  "new_id (CreateSource ready fresh uid ctype name resource) = Some fresh"
| "new_id (CallbackOAuth cy exchange now fresh code_value st) = Some fresh"
| "new_id op = None"

definition source_act :: "source_op \<Rightarrow> source_table \<times> oauth_states \<Rightarrow> source_table \<times> oauth_states" where
  "source_act op db = (if (\<exists>x \<in> set (fst db). new_id op = Some (xs_id x)) then db else source_step op db)"

lemma callback_shape:
  "fst (snd (oauth_callback cy exchange now fresh code_value st (srcs, states))) = srcs
   \<or> (\<exists>uid ctype creds. state_get now st states = Some (uid, ctype)
        \<and> (fst (snd (oauth_callback cy exchange now fresh code_value st (srcs, states)))
             = srcs @ [(new_source fresh uid ctype (Some ctype) None)\<lparr>xs_creds := Some creds, xs_status := ''active''\<rparr>]
           \<or> (\<exists>x \<in> set srcs. xs_user x = uid \<and> fst (snd (oauth_callback cy exchange now fresh code_value st (srcs, states)))
                = update_source (xs_id x) (\<lambda>x. x\<lparr>xs_creds := Some creds, xs_status := ''active'', xs_error := None\<rparr>) srcs)))"
proof (cases "state_get now st states")
  case (Some p)
  then obtain uid ctype where p: "state_get now st states = Some (uid, ctype)" by (cases p) auto
  let ?mine = "filter (\<lambda>x. xs_user x = uid \<and> xs_type x = ctype \<and> xs_resource x = None) srcs"
  show ?thesis
  proof (cases "bindR (exchange ctype code_value) (seal cy)")
    case (Inl e)
    with p show ?thesis by (simp add: oauth_callback_def)
  next
    case (Inr creds)
    consider (none) "?mine = []" | (one) x where "?mine = [x]" | x y zs where "?mine = x # y # zs" by (metis list.exhaust)
    then show ?thesis
    proof cases
      case (one x)
      then have "x \<in> set ?mine" by simp
      then have x: "x \<in> set srcs" "xs_user x = uid" by auto
      have "fst (snd (oauth_callback cy exchange now fresh code_value st (srcs, states)))
          = update_source (xs_id x) (\<lambda>x. x\<lparr>xs_creds := Some creds, xs_status := ''active'', xs_error := None\<rparr>) srcs"
        using one p Inr by (simp add: oauth_callback_def)
      with x p show ?thesis by blast
    next
      case none
      then have "fst (snd (oauth_callback cy exchange now fresh code_value st (srcs, states)))
          = srcs @ [(new_source fresh uid ctype (Some ctype) None)\<lparr>xs_creds := Some creds, xs_status := ''active''\<rparr>]"
        using p Inr by (simp add: oauth_callback_def)
      with p show ?thesis by blast
    qed (use p Inr in \<open>simp add: oauth_callback_def\<close>)
  qed
qed (simp add: oauth_callback_def)

lemma act_fresh: "fresh_ids (fst db) \<Longrightarrow> fresh_ids (fst (source_act op db))"
proof (cases db)
  case (Pair srcs states)
  assume "fresh_ids (fst db)"
  then have f: "fresh_ids srcs" by (simp add: Pair)
  show ?thesis
  proof (cases "\<exists>x \<in> set srcs. new_id op = Some (xs_id x)")
    case False
    have app: "fresh_ids (srcs @ [x])" if "\<forall>y \<in> set srcs. xs_id x \<noteq> xs_id y" for x
      using f that by (auto simp: fresh_ids_def)
    have keep: "fresh_ids srcs'" if "row_kept sid srcs srcs'" for sid srcs'
      using f kept_ids [OF that] by (simp add: fresh_ids_def)
    have "fresh_ids (fst (source_step op (srcs, states)))"
    proof (cases op)
      case (CreateSource ready fresh uid ctype name resource)
      with False f show ?thesis by (auto simp: create_source_def Let_def new_source_def intro!: app)
    next
      case (DeleteSource sid uid)
      with f show ?thesis by (auto simp: delete_source_def fresh_ids_def distinct_map_filter split: sum.splits)
    next
      case (CallbackOAuth cy exchange now fresh code_value st)
      with False have "\<forall>y \<in> set srcs. fresh \<noteq> xs_id y" by auto
      with CallbackOAuth callback_shape [of cy exchange now fresh code_value st srcs states] f show ?thesis
        by (auto simp: new_source_def update_source_def fresh_ids_def comp_def if_distrib cong: if_cong intro!: app [unfolded fresh_ids_def])
    next
      case (LoadCredentials ord cy now refresh uid ctype)
      with load_kept [OF f, of ord cy now refresh uid ctype] show ?thesis by (auto intro: keep)
    qed (use f in \<open>auto intro: keep [OF patch_kept] keep [OF sync_kept]\<close>)
    with False Pair show ?thesis by (simp add: source_act_def)
  next
    case True
    with f Pair show ?thesis by (simp add: source_act_def)
  qed
qed

interpretation source_machine: guarded_machine source_act "\<lambda>db. fresh_ids (fst db)" "([], [])"
  by unfold_locales (simp add: fresh_ids_def, rule act_fresh)

fun requested_by :: "source_op \<Rightarrow> int option" where
  "requested_by (CreateSource ready fresh uid ctype name resource) = Some uid"
| "requested_by (PatchSource sid uid name resource status) = Some uid"
| "requested_by (DeleteSource sid uid) = Some uid"
| "requested_by (StartOAuth ready client_id now fresh ctype uid) = Some uid"
| "requested_by (CallbackOAuth cy exchange now fresh code_value st) = None"
| "requested_by (LoadCredentials ord cy now refresh uid ctype) = Some uid"
| "requested_by (SyncJob cy now refresh attempt sid) = None"

fun synced_source :: "source_op \<Rightarrow> string option" where
  "synced_source (SyncJob cy now refresh attempt sid) = Some sid"
| "synced_source op = None"

definition no_state_of :: "int \<Rightarrow> oauth_states \<Rightarrow> bool" where
  "no_state_of uid states = (\<forall>st deadline ctype. dget states st \<noteq> Some (deadline, uid, ctype))"

lemma act_other:
  assumes "fresh_ids srcs" and "no_state_of uid states" and "requested_by op \<noteq> Some uid"
    and "\<forall>sid. synced_source op = Some sid \<longrightarrow> sid \<notin> xs_id ` set (sources_of uid srcs)"
  shows "sources_of uid (fst (source_act op (srcs, states))) = sources_of uid srcs"
proof -
  have other: "sources_of uid srcs' = sources_of uid srcs" if "row_kept sid srcs srcs'" "find_source srcs sid = Some x" "xs_user x \<noteq> uid" for sid srcs' x
    using kept_other [OF that(1)] found [OF assms(1) that(2)] that(3) by blast
  have "sources_of uid (fst (source_step op (srcs, states))) = sources_of uid srcs"
  proof (cases op)
    case (CreateSource ready fresh u ctype name resource)
    with assms(3) show ?thesis by (auto simp: create_source_def Let_def new_source_def sources_of_def)
  next
    case (PatchSource sid u name resource status)
    show ?thesis
    proof (cases "get_source sid u srcs")
      case (Inl e)
      with PatchSource show ?thesis by (simp add: patch_source_def)
    next
      case (Inr x)
      with PatchSource assms(3) other [OF patch_kept [OF assms(1)]] get_source_Inr [OF Inr] show ?thesis by simp
    qed
  next
    case (DeleteSource sid u)
    show ?thesis
    proof (cases "get_source sid u srcs")
      case (Inl e)
      with DeleteSource show ?thesis by (simp add: delete_source_def)
    next
      case (Inr x)
      then have "\<forall>y \<in> set srcs. xs_id y = sid \<longrightarrow> xs_user y \<noteq> uid"
        using found [OF assms(1)] get_source_Inr [OF Inr] assms(3) DeleteSource by fastforce
      then have "filter (\<lambda>y. xs_id y \<noteq> sid \<and> xs_user y = uid) srcs = filter (\<lambda>y. xs_user y = uid) srcs" by (intro filter_cong) auto
      with DeleteSource Inr show ?thesis by (simp add: delete_source_def sources_of_def conj_commute)
    qed
  next
    case (CallbackOAuth cy exchange now fresh code_value st)
    have "u \<noteq> uid" if "state_get now st states = Some (u, ctype)" for u ctype
      using assms(2) that by (auto simp: state_get_def no_state_of_def split: option.splits if_splits prod.splits)
    moreover have "sources_of uid (update_source (xs_id x) f srcs) = sources_of uid srcs" if "x \<in> set srcs" "xs_user x \<noteq> uid" "\<And>y. xs_user (f y) = xs_user y \<and> xs_id (f y) = xs_id y" for x f
    proof (rule kept_other [of "xs_id x"])
      show "row_kept (xs_id x) srcs (update_source (xs_id x) f srcs)" using that(3) by (intro keptI) auto
      show "xs_user y \<noteq> uid" if "y \<in> set srcs" "xs_id y = xs_id x" for y
        using assms(1) that \<open>x \<in> set srcs\<close> \<open>xs_user x \<noteq> uid\<close> by (auto simp: fresh_ids_def distinct_map inj_on_def)
    qed
    ultimately show ?thesis
      using callback_shape [of cy exchange now fresh code_value st srcs states] CallbackOAuth by (auto simp: sources_of_def new_source_def)
  next
    case (LoadCredentials ord cy now refresh u ctype)
    with assms(3) obtain sid where "row_kept sid srcs (snd (load_google_credentials ord cy now refresh u ctype srcs))" "\<forall>y \<in> set srcs. xs_id y = sid \<longrightarrow> xs_user y = u" "u \<noteq> uid"
      using load_kept [OF assms(1), of ord cy now refresh u ctype] by fastforce
    then have "sources_of uid (snd (load_google_credentials ord cy now refresh u ctype srcs)) = sources_of uid srcs" by (intro kept_other) auto
    with LoadCredentials show ?thesis by simp
  next
    case (SyncJob cy now refresh attempt sid)
    with assms(4) have "\<forall>y \<in> set srcs. xs_id y = sid \<longrightarrow> xs_user y \<noteq> uid" by (auto simp: sources_of_def)
    then have "sources_of uid (snd (sync_external_source cy now refresh attempt sid srcs)) = sources_of uid srcs"
      by (intro kept_other [OF sync_kept]) auto
    with SyncJob show ?thesis by simp
  qed simp
  then show ?thesis by (simp add: source_act_def)
qed

lemma act_states:
  assumes "no_state_of uid states" and "requested_by op \<noteq> Some uid"
  shows "no_state_of uid (snd (source_act op (srcs, states)))"
proof -
  have "no_state_of uid (snd (source_step op (srcs, states)))"
  proof (cases op)
    case (StartOAuth ready client_id now fresh ctype u)
    with assms show ?thesis by (auto simp: oauth_start_def no_state_of_def dget_dset)
  next
    case (CallbackOAuth cy exchange now fresh code_value st)
    have del: "no_state_of uid (ddel states st)" using assms(1) by (auto simp: no_state_of_def dget_ddel)
    have "snd (snd (oauth_callback cy exchange now fresh code_value st (srcs, states))) \<in> {states, ddel states st}"
      by (auto simp: oauth_callback_def Let_def split: option.splits sum.splits list.splits)
    with CallbackOAuth del assms(1) show ?thesis by auto
  qed (use assms in auto)
  with assms(1) show ?thesis by (simp add: source_act_def)
qed

text \<open>
  C11. Only a user changes what the user has connected: along every sequence of operations, OAuth
  callbacks of anybody included, the sources and tokens of a user stay as they are unless the user
  requests something, a flow the user started is completed, or a job for one of these sources runs.
\<close>

theorem connections_stay_with_user:
  assumes "fresh_ids srcs" and "no_state_of uid states" and "\<forall>op \<in> set ops. requested_by op \<noteq> Some uid"
    and "\<forall>op \<in> set ops. \<forall>sid. synced_source op = Some sid \<longrightarrow> sid \<notin> xs_id ` set (sources_of uid srcs)"
  shows "sources_of uid (fst (fold source_act ops (srcs, states))) = sources_of uid srcs"
  using assms
proof (induction ops arbitrary: srcs states)
  case (Cons op ops)
  obtain srcs1 states1 where act: "source_act op (srcs, states) = (srcs1, states1)" by fastforce
  have same: "sources_of uid srcs1 = sources_of uid srcs" using act_other [OF Cons.prems(1,2), of op] Cons.prems(3,4) act by simp
  moreover have "no_state_of uid states1" using act_states [OF Cons.prems(2), of op srcs] Cons.prems(3) act by simp
  moreover have "fresh_ids srcs1" using act_fresh [of "(srcs, states)" op] Cons.prems(1) act by simp
  ultimately show ?case using Cons.IH [of srcs1 states1] Cons.prems(3,4) act by simp
qed simp

definition plain_crypto :: crypto where
  "plain_crypto = \<lparr>cy_encrypt = \<lambda>p. Inr (''#'' @ p), cy_decrypt = \<lambda>c. Inr (tl c)\<rparr>"

definition drive_source :: external_source where
  "drive_source = (new_source ''s1'' 1 ''google_drive'' None None)\<lparr>xs_status := ''active''\<rparr>"

theorem connections_stay_with_user_witness:
  "sources_of 1 (fst (fold source_act
     [StartOAuth True (\<lambda>_. True) 0 ''st'' ''google_drive'' 2,
      CallbackOAuth plain_crypto (\<lambda>_ _. Inr \<lparr>tk_access = ''a'', tk_refresh = None, tk_expires = None\<rparr>) 1 ''s2'' ''code'' ''st'',
      DeleteSource ''s1'' 2] ([drive_source], []))) = [drive_source]"
proof -
  let ?ops = "[StartOAuth True (\<lambda>_. True) 0 ''st'' ''google_drive'' 2,
      CallbackOAuth plain_crypto (\<lambda>_ _. Inr \<lparr>tk_access = ''a'', tk_refresh = None, tk_expires = None\<rparr>) 1 ''s2'' ''code'' ''st'',
      DeleteSource ''s1'' 2]"
  have "sources_of 1 (fst (fold source_act ?ops ([drive_source], []))) = sources_of 1 [drive_source]"
    by (rule connections_stay_with_user) (auto simp: fresh_ids_def no_state_of_def dget_def)
  then show ?thesis by (simp add: sources_of_def drive_source_def new_source_def)
qed

section \<open>Tokens come back as they were granted\<close>

lemma unseal_seal:
  assumes "\<forall>p c. cy_encrypt cy p = Inr c \<longrightarrow> cy_decrypt cy c = Inr p \<and> c \<noteq> []" and "seal cy t = Inr c"
  shows "unseal cy c = Inr (t\<lparr>tk_refresh := (if tk_refresh t = Some [] then None else tk_refresh t)\<rparr>)"
proof -
  from assms(2) obtain a r where a: "cy_encrypt cy (tk_access t) = Inr a" and r: "encrypt_opt cy (tk_refresh t) = Inr r"
    and c: "c = \<lparr>ct_access = a, ct_refresh = r, ct_expires = tk_expires t\<rparr>" by (auto simp: seal_def bindR_eq_Inr)
  have dec: "cy_decrypt cy a = Inr (tk_access t)" using assms(1) a by blast
  show ?thesis
  proof (cases "tk_refresh t = None \<or> tk_refresh t = Some []")
    case True
    with r have "r = None" by (auto simp: encrypt_opt_def)
    with dec c True show ?thesis by (cases t) (auto simp: unseal_def bindR_def)
  next
    case False
    then obtain x xs where x: "tk_refresh t = Some (x # xs)" by (auto simp: neq_Nil_conv)
    with r obtain d where d: "cy_encrypt cy (x # xs) = Inr d" "r = Some d" by (auto simp: encrypt_opt_def bindR_eq_Inr)
    then obtain y ys where y: "d = y # ys" "cy_decrypt cy (y # ys) = Inr (x # xs)" using assms(1) by (metis list.exhaust)
    with dec c d x show ?thesis by (cases t) (simp add: unseal_def bindR_def)
  qed
qed

lemma find_source_update:
  "(\<And>x. xs_id (f x) = xs_id x) \<Longrightarrow> find_source (update_source sid f srcs) sid = map_option f (find_source srcs sid)"
  by (induction srcs) (auto simp: find_source_def update_source_def)

lemma source_active_iff: "source_active srcs (Some uid) ctype \<longleftrightarrow> active_sources uid ctype srcs \<noteq> []"
  by (auto simp: source_active_def active_sources_def filter_empty_conv list_ex_iff)

lemma only_element: "distinct xs \<Longrightarrow> set xs = {x} \<Longrightarrow> xs = [x]"
  by (cases xs rule: remdups_adj.cases) auto

text \<open>The one active source of a user and connector after a completed callback.\<close>

lemma active_after_update:
  assumes "x \<in> set srcs" and "xs_user x = uid" and "xs_type x = ctype" and "fresh_ids srcs"
    and "\<And>y. y \<in> set srcs \<Longrightarrow> xs_user y = uid \<Longrightarrow> xs_type y = ctype \<Longrightarrow> xs_status y = ''active'' \<Longrightarrow> y = x"
    and "\<And>y. xs_user (f y) = xs_user y \<and> xs_type (f y) = xs_type y \<and> xs_status (f y) = ''active'' \<and> xs_id (f y) = xs_id y"
  shows "active_sources uid ctype (update_source (xs_id x) f srcs) = [f x]"
proof (rule only_element)
  let ?new = "update_source (xs_id x) f srcs"
  have "map xs_id ?new = map xs_id srcs" using assms(6) by (simp add: update_source_def)
  then have "distinct ?new" using assms(4) by (metis distinct_map fresh_ids_def)
  then show "distinct (active_sources uid ctype ?new)" by (simp add: active_sources_def)
  have same: "y = x" if "y \<in> set srcs" "xs_id y = xs_id x" for y
    using assms(1,4) that by (auto simp: fresh_ids_def distinct_map inj_on_def)
  have "z = f x" if "z \<in> set (active_sources uid ctype ?new)" for z
    using that assms(5,6) same unfolding update_source_def active_sources_def by (auto split: if_splits)
  moreover have "f x \<in> set ?new" using assms(1) unfolding update_source_def by (auto intro!: image_eqI)
  ultimately show "set (active_sources uid ctype ?new) = {f x}" using assms(2,3,6) by (auto simp: active_sources_def)
qed

lemma callback_stores:
  assumes "state_get now st states = Some (uid, ctype)" and "exchange ctype code_value = Inr t" and "seal cy t = Inr creds"
    and "oauth_callback cy exchange now fresh code_value st (srcs, states) = (Inr (), srcs', states')"
    and "\<forall>x \<in> set (active_sources uid ctype srcs). xs_resource x = None" and "fresh_ids srcs"
  shows "\<exists>z. active_sources uid ctype srcs' = [z] \<and> xs_user z = uid \<and> xs_creds z = Some creds"
proof -
  let ?mine = "filter (\<lambda>x. xs_user x = uid \<and> xs_type x = ctype \<and> xs_resource x = None) srcs"
  let ?act = "\<lambda>x. x\<lparr>xs_creds := Some creds, xs_status := ''active'', xs_error := None\<rparr>"
  have mine: "y \<in> set ?mine" if "y \<in> set srcs" "xs_user y = uid" "xs_type y = ctype" "xs_status y = ''active''" for y
    using that assms(5) by (auto simp: active_sources_def)
  consider (none) "?mine = []" | (one) x where "?mine = [x]" | (many) x y zs where "?mine = x # y # zs" by (metis list.exhaust)
  then show ?thesis
  proof cases
    case none
    then have "active_sources uid ctype srcs = []" using mine by (auto simp: active_sources_def filter_empty_conv)
    moreover have "srcs' = srcs @ [(new_source fresh uid ctype (Some ctype) None)\<lparr>xs_creds := Some creds, xs_status := ''active''\<rparr>]"
      using assms(1-4) none by (simp add: oauth_callback_def bindR_def)
    ultimately show ?thesis by (simp add: active_sources_def new_source_def)
  next
    case (one x)
    have upd: "srcs' = update_source (xs_id x) ?act srcs" using assms(1-4) one by (simp add: oauth_callback_def bindR_def)
    from one have "x \<in> set ?mine" by simp
    then have x: "x \<in> set srcs" "xs_user x = uid" "xs_type x = ctype" by auto
    have "y = x" if "y \<in> set srcs" "xs_user y = uid" "xs_type y = ctype" "xs_status y = ''active''" for y
      using mine [OF that] one by simp
    then have "active_sources uid ctype srcs' = [?act x]" unfolding upd by (intro active_after_update x assms(6)) auto
    with x show ?thesis by auto
  next
    case many
    with assms(1-4) show ?thesis by (simp add: oauth_callback_def bindR_def)
  qed
qed

lemma set_order_one [simp]: "set_order ord [z] = [z]"
  by (simp add: set_order_def)

text \<open>
  C36. The tokens a flow was granted are what the tools get. Suppose the user has no active source of this connector
  with a resource of its own, the cipher decrypts what it has encrypted, and the callback completes. Then, in whatever order the database
  returns rows, and until the tokens expire, loading the credentials of that user and connector gives the granted access and refresh
  token; and the state cannot be used again.
\<close>

theorem granted_tokens_are_loaded:
  assumes "\<forall>p c. cy_encrypt cy p = Inr c \<longrightarrow> cy_decrypt cy c = Inr p \<and> c \<noteq> []"
    and "state_get now st states = Some (uid, ctype)" and "exchange ctype code_value = Inr t"
    and "oauth_callback cy exchange now fresh code_value st (srcs, states) = (Inr (), srcs', states')"
    and "\<forall>x \<in> set (active_sources uid ctype srcs). xs_resource x = None" and "fresh_ids srcs"
    and "\<not> has_expired later (tk_expires t)"
  shows "(\<exists>x. load_google_credentials ord cy later refresh uid ctype srcs'
            = (Inr (Some x, Some (t\<lparr>tk_refresh := (if tk_refresh t = Some [] then None else tk_refresh t)\<rparr>)), srcs') \<and> xs_user x = uid)
    \<and> fst (oauth_callback cy exchange2 now2 fresh2 code2 st (srcs', states')) = Inl (HTTPException 400 ''Invalid or expired state'')"
proof -
  from assms(2-4) obtain creds where creds: "seal cy t = Inr creds"
    by (cases "seal cy t") (auto simp: oauth_callback_def bindR_def Let_def)
  have states': "states' = ddel states st"
    using assms(2-4) creds by (auto simp: oauth_callback_def bindR_def Let_def split: list.splits)
  obtain z where z: "active_sources uid ctype srcs' = [z]" "xs_user z = uid" "xs_creds z = Some creds"
    using callback_stores [where cy = cy and exchange = exchange, OF assms(2,3) creds assms(4,5,6)] by blast
  have "load_google_credentials ord cy later refresh uid ctype srcs'
      = (Inr (Some z, Some (t\<lparr>tk_refresh := (if tk_refresh t = Some [] then None else tk_refresh t)\<rparr>)), srcs')"
    using z assms(7) unseal_seal [OF assms(1) creds] by (simp add: load_google_credentials_def)
  then show ?thesis using z(2) by (auto simp: states' oauth_callback_def state_get_def dget_ddel)
qed

theorem granted_tokens_are_loaded_witness:
  "let t = \<lparr>tk_access = ''a'', tk_refresh = Some ''r'', tk_expires = Some 100\<rparr>;
       (e, srcs', states') = oauth_callback plain_crypto (\<lambda>_ _. Inr t) 1 ''s2'' ''code'' ''st'' ([drive_source], [(''st'', 600, 1, ''google_drive'')])
   in e = Inr () \<and> (\<exists>x. load_google_credentials rev plain_crypto 50 (\<lambda>t. Inr t) 1 ''google_drive'' srcs' = (Inr (Some x, Some t), srcs'))"
proof -
  let ?t = "\<lparr>tk_access = ''a'', tk_refresh = Some ''r'', tk_expires = Some 100\<rparr>"
  let ?states = "[(''st'', 600, 1, ''google_drive'')] :: oauth_states"
  have law: "\<forall>p c. cy_encrypt plain_crypto p = Inr c \<longrightarrow> cy_decrypt plain_crypto c = Inr p \<and> c \<noteq> []"
    by (auto simp: plain_crypto_def)
  have st: "state_get 1 ''st'' ?states = Some (1, ''google_drive'')" by (simp add: state_get_def dget_def)
  have sealed: "seal plain_crypto ?t = Inr \<lparr>ct_access = ''#a'', ct_refresh = Some ''#r'', ct_expires = Some 100\<rparr>"
    by (simp add: seal_def encrypt_opt_def bindR_def plain_crypto_def)
  have "fst (oauth_callback plain_crypto (\<lambda>_ _. Inr ?t) 1 ''s2'' ''code'' ''st'' ([drive_source], ?states)) = Inr ()"
    using st sealed by (simp add: oauth_callback_def bindR_def drive_source_def new_source_def)
  then obtain srcs' states' where run: "oauth_callback plain_crypto (\<lambda>_ _. Inr ?t) 1 ''s2'' ''code'' ''st'' ([drive_source], ?states) = (Inr (), srcs', states')"
    by (metis prod.collapse)
  have "\<exists>x. load_google_credentials rev plain_crypto 50 (\<lambda>t. Inr t) 1 ''google_drive'' srcs' = (Inr (Some x, Some ?t), srcs')"
    using granted_tokens_are_loaded [where exchange = "\<lambda>_ _. Inr ?t" and t = ?t and later = 50 and refresh = "\<lambda>t. Inr t" and ord = rev, OF law st refl run]
    by (simp add: drive_source_def new_source_def fresh_ids_def has_expired_def active_sources_def) blast
  with run show ?thesis by simp
qed

text \<open>
  With a second active source of the connector, one made for a resource, the tools may get either: the loader does not look at the resource, so the
  order of the rows decides whose tokens are used.
\<close>

theorem either_source_is_loaded:
  assumes "active_sources uid ctype srcs = [x, y]" and "xs_creds x = Some c" and "xs_creds y = Some d"
    and "unseal cy c = Inr t" and "unseal cy d = Inr u" and "\<not> has_expired now (tk_expires t)" and "\<not> has_expired now (tk_expires u)"
  shows "load_google_credentials id cy now refresh uid ctype srcs = (Inr (Some x, Some t), srcs)
    \<and> load_google_credentials rev cy now refresh uid ctype srcs = (Inr (Some y, Some u), srcs)"
  using assms by (simp add: load_google_credentials_def set_order_def)

theorem either_source_is_loaded_witness:
  "let x = drive_source\<lparr>xs_creds := Some \<lparr>ct_access = ''#a'', ct_refresh = None, ct_expires = None\<rparr>\<rparr>;
       y = drive_source\<lparr>xs_id := ''s2'', xs_resource := Some ''folder'', xs_creds := Some \<lparr>ct_access = ''#b'', ct_refresh = None, ct_expires = None\<rparr>\<rparr>
   in load_google_credentials rev plain_crypto 5 (\<lambda>t. Inr t) 1 ''google_drive'' [x, y]
        = (Inr (Some y, Some \<lparr>tk_access = ''b'', tk_refresh = None, tk_expires = None\<rparr>), [x, y])"
  using either_source_is_loaded [where x = "drive_source\<lparr>xs_creds := Some \<lparr>ct_access = ''#a'', ct_refresh = None, ct_expires = None\<rparr>\<rparr>"
      and y = "drive_source\<lparr>xs_id := ''s2'', xs_resource := Some ''folder'', xs_creds := Some \<lparr>ct_access = ''#b'', ct_refresh = None, ct_expires = None\<rparr>\<rparr>"
      and uid = 1 and ctype = "''google_drive''" and cy = plain_crypto and now = 5 and refresh = "\<lambda>t. Inr t"]
  by (simp add: Let_def active_sources_def drive_source_def new_source_def plain_crypto_def unseal_def bindR_def has_expired_def)

section \<open>Duplicate sources, and the end of a job\<close>

text \<open>
  Two sources without a resource lock a user out: null resources are never equal to the unique
  index, so creating the same source twice succeeds twice, and from then on every OAuth callback for this connector
  fails, although the code has been exchanged and the state used up.
\<close>

theorem duplicate_source_blocks_oauth:
  assumes "ctype \<in> set VALID_TYPES" and "create_source True s1 uid ctype n1 None srcs = (r1, srcs1)" and "create_source True s2 uid ctype n2 None srcs1 = (r2, srcs2)"
    and "state_get now st states = Some (uid, ctype)" and "s1 \<noteq> s2"
  shows "(\<exists>x y. r1 = Inr x \<and> r2 = Inr y)
    \<and> (\<exists>e. oauth_callback cy exchange now fresh code_value st (srcs2, states) = (Inl e, srcs2, ddel states st))"
proof -
  have none: "\<not> clashes (new_source s uid ctype n None) y" for s n y by (simp add: clashes_def new_source_def)
  then have created: "r1 = Inr (new_source s1 uid ctype n1 None)" "r2 = Inr (new_source s2 uid ctype n2 None)"
    "srcs2 = srcs @ [new_source s1 uid ctype n1 None, new_source s2 uid ctype n2 None]"
    using assms(1-3) by (auto simp: create_source_def list_ex_iff Let_def)
  then obtain x y zs where "filter (\<lambda>x. xs_user x = uid \<and> xs_type x = ctype \<and> xs_resource x = None) srcs2 = x # y # zs"
    by (cases "filter (\<lambda>x. xs_user x = uid \<and> xs_type x = ctype \<and> xs_resource x = None) srcs" rule: remdups_adj.cases) (auto simp: new_source_def)
  then have "\<exists>e. oauth_callback cy exchange now fresh code_value st (srcs2, states) = (Inl e, srcs2, ddel states st)"
    using assms(4) by (auto simp: oauth_callback_def Let_def split: sum.splits)
  with created show ?thesis by blast
qed

theorem duplicate_source_blocks_oauth_witness:
  "fst (oauth_callback plain_crypto (\<lambda>_ _. Inr \<lparr>tk_access = ''a'', tk_refresh = None, tk_expires = None\<rparr>) 1 ''s3'' ''code'' ''st''
     (snd (create_source True ''s2'' 7 ''gmail'' None None (snd (create_source True ''s1'' 7 ''gmail'' None None []))), [(''st'', 600, 7, ''gmail'')])) \<noteq> Inr ()"
proof -
  obtain r1 srcs1 where c1: "create_source True ''s1'' 7 ''gmail'' None None [] = (r1, srcs1)" by fastforce
  obtain r2 srcs2 where c2: "create_source True ''s2'' 7 ''gmail'' None None srcs1 = (r2, srcs2)" by fastforce
  from duplicate_source_blocks_oauth [OF _ c1 c2, of 1 "''st''" "[(''st'', 600, 7, ''gmail'')]" plain_crypto
      "\<lambda>_ _. Inr \<lparr>tk_access = ''a'', tk_refresh = None, tk_expires = None\<rparr>" "''s3''" "''code''"]
  show ?thesis using c1 c2 by (auto simp: VALID_TYPES_def state_get_def dget_def)
qed

text \<open>
  How a synchronisation job ends tells the state of its source: done means active and without error, stopped means
  that the user has to connect again, a retry (only in the first three attempts) leaves the
  status, and the fourth failure marks the source. User, connector and resource never change.
\<close>

theorem sync_job_outcomes:
  assumes "find_source srcs sid = Some x" and "sync_external_source cy now refresh attempt sid srcs = (e, srcs')"
  shows "\<exists>y. find_source srcs' sid = Some y \<and> xs_user y = xs_user x \<and> xs_type y = xs_type x \<and> xs_resource y = xs_resource x
    \<and> (case e of
         SyncDone \<Rightarrow> xs_status y = ''active'' \<and> xs_error y = None \<and> xs_synced y = Some (of_int now)
       | SyncStopped \<Rightarrow> xs_status y = ''needs_reauth'' \<and> xs_creds y = xs_creds x
       | SyncRetry \<Rightarrow> attempt \<le> 3 \<and> xs_status y = xs_status x \<and> xs_creds y = xs_creds x
       | SyncFailed \<Rightarrow> attempt > 3 \<and> xs_status y = ''error'' \<and> xs_creds y = xs_creds x)"
proof -
  have problem: "?thesis" if "sync_problem attempt sid pe srcs = (e, srcs')" for pe
    using that assms(1)
    by (cases pe) (auto simp: sync_problem_def Let_def RETRY_LIMIT_def find_source_update split: if_splits)
  show ?thesis
  proof (cases "xs_creds x")
    case None
    with assms show ?thesis by (auto simp: sync_external_source_def find_source_update)
  next
    case (Some c)
    show ?thesis
    proof (cases "xs_type x \<in> set VALID_TYPES \<and> (\<exists>t. unseal cy c = Inr t)")
      case False
      have "\<exists>pe. sync_problem attempt sid pe srcs = (e, srcs')"
      proof (cases "xs_type x \<in> set VALID_TYPES")
        case True
        with False obtain err where "unseal cy c = Inl err" by (cases "unseal cy c") auto
        with True Some assms show ?thesis by (auto simp: sync_external_source_def)
      qed (use Some assms in \<open>auto simp: sync_external_source_def\<close>)
      then show ?thesis using problem by blast
    next
      case True
      then obtain t where t: "unseal cy c = Inr t" "xs_type x \<in> set VALID_TYPES" by blast
      consider (current) "\<not> has_expired now (tk_expires t)" | (stuck) "has_expired now (tk_expires t)" "tk_refresh t = None \<or> tk_refresh t = Some []"
        | (renew) "has_expired now (tk_expires t)" "\<not> (tk_refresh t = None \<or> tk_refresh t = Some [])" by blast
      then show ?thesis
      proof cases
        case renew
        have "(\<exists>pe. sync_problem attempt sid pe srcs = (e, srcs')) \<or> (\<exists>c1. e = SyncDone
            \<and> srcs' = update_source sid (\<lambda>y. y\<lparr>xs_creds := Some c1, xs_synced := Some (of_int now), xs_status := ''active'', xs_error := None\<rparr>) srcs)"
        proof (cases "refresh (xs_type x) t")
          case (Inr t1)
          with renew Some t assms show ?thesis by (cases "seal cy t1") (auto simp: sync_external_source_def Let_def)
        qed (use renew Some t assms in \<open>auto simp: sync_external_source_def Let_def\<close>)
        with problem assms(1) show ?thesis by (auto simp: find_source_update)
      qed (use Some t assms in \<open>auto simp: sync_external_source_def find_source_update\<close>)
    qed
  qed
qed

theorem sync_job_outcomes_witness:
  "sync_external_source plain_crypto 50 (\<lambda>_ _. Inl (HttpStatus 500 ''down'')) 4 ''s1''
     [drive_source\<lparr>xs_creds := Some \<lparr>ct_access = ''#a'', ct_refresh = Some ''#r'', ct_expires = Some 10\<rparr>\<rparr>]
   = (SyncFailed, [drive_source\<lparr>xs_creds := Some \<lparr>ct_access = ''#a'', ct_refresh = Some ''#r'', ct_expires = Some 10\<rparr>,
        xs_status := ''error'', xs_error := Some ''down''\<rparr>])"
proof -
  let ?x = "drive_source\<lparr>xs_creds := Some \<lparr>ct_access = ''#a'', ct_refresh = Some ''#r'', ct_expires = Some 10\<rparr>\<rparr>"
  have find: "find_source [?x] ''s1'' = Some ?x" by (simp add: find_source_def drive_source_def new_source_def)
  have run: "sync_external_source plain_crypto 50 (\<lambda>_ _. Inl (HttpStatus 500 ''down'')) 4 ''s1'' [?x]
      = (SyncFailed, [?x\<lparr>xs_status := ''error'', xs_error := Some ''down''\<rparr>])"
    using find by (simp add: sync_external_source_def drive_source_def new_source_def VALID_TYPES_def unseal_def bindR_def plain_crypto_def
      has_expired_def sync_problem_def RETRY_LIMIT_def update_source_def)
  from sync_job_outcomes [OF find run] run show ?thesis by simp
qed

end
