(* ===== verification/Background_Jobs.thy ===== *)
theory Background_Jobs
  imports Chat_Context
begin

text \<open>
  Work done beside the requests: the profile of a user's behaviour (\<^verbatim>\<open>backend/services/behavior.py\<close>),
  insights (\<^verbatim>\<open>backend/llm/agency.py\<close>, \<^verbatim>\<open>backend/api/insights.py\<close>), webhooks (\<^verbatim>\<open>backend/api/webhooks.py\<close>),
  notifications (\<^verbatim>\<open>backend/services/notification.py\<close>), the weekly digest (\<^verbatim>\<open>backend/services/digest.py\<close>)
  and the renewal of embeddings (\<^verbatim>\<open>backend/services/re_embed.py\<close>), with their jobs of
  \<^verbatim>\<open>backend/services/arq_worker.py\<close>. The model, the full-text match of the database, Redis and the
  mail server are parameters; jobs that are queued are values.
\<close>

section \<open>The behaviour of a user\<close>

definition STOP_WORDS :: "string list" where
  "STOP_WORDS =
     [''the'', ''is'', ''at'', ''which'', ''on'', ''for'', ''and'', ''are'', ''was'', ''were'', ''been'', ''being'', ''have'', ''has'', ''had'',
      ''do'', ''does'', ''did'', ''will'', ''would'', ''could'', ''should'', ''may'', ''might'', ''shall'', ''can'', ''not'', ''this'', ''that'',
      ''these'', ''those'', ''with'', ''from'', ''about'', ''into'', ''through'', ''during'', ''before'', ''after'', ''above'', ''below'',
      ''between'', ''such'', ''each'', ''both'', ''few'', ''more'', ''most'', ''other'', ''some'', ''than'', ''then'', ''very'', ''just'',
      ''also'', ''can'', ''make'', ''use'', ''get'', ''like'', ''one'', ''two'', ''new'', ''how'', ''what'', ''why'', ''when'', ''where'']"

definition MAX_TOPICS :: nat where
  "MAX_TOPICS = 50"

definition PUNCTUATION :: string where
  "PUNCTUATION = map char_of ([33..<48] @ [58..<65] @ [91..<97] @ [123..<127])"

fun keyword_loop :: "string list \<Rightarrow> string list \<Rightarrow> string list" where
  "keyword_loop result [] = result"
| "keyword_loop result (w # ws) =
     (let k = strip_chars PUNCTUATION w;
          result1 = (if length k > 4 \<and> k \<notin> set STOP_WORDS then result @ [k] else result)
      in if length result1 \<ge> 10 then result1 else keyword_loop result1 ws)"

definition extract_keywords :: "string \<Rightarrow> string list" where
  "extract_keywords message = keyword_loop [] (split_ws (lower message))"

type_synonym counts = "(string \<times> nat) list"

record behavior_profile =
  bh_query_types :: counts
  bh_topics :: counts
  bh_tools :: counts
  bh_models :: counts
  bh_messages :: nat

definition no_behavior :: behavior_profile where
  "no_behavior = \<lparr>bh_query_types = [], bh_topics = [], bh_tools = [], bh_models = [], bh_messages = 0\<rparr>"

definition count_up :: "string \<Rightarrow> counts \<Rightarrow> counts" where
  "count_up k d = dset d k (case dget d k of Some n \<Rightarrow> Suc n | None \<Rightarrow> 1)"

text \<open>The database returns the keys of a stored object in an order of its own (\<open>ord\<close>).\<close>

definition count_topics :: "string list \<Rightarrow> counts \<Rightarrow> counts" where
  "count_topics kws d =
     (let d1 = fold count_up kws d
      in if length d1 > MAX_TOPICS then take MAX_TOPICS (py_sort_key (\<lambda>p. - int (snd p)) d1) else d1)"

definition update_behavior :: "(counts \<Rightarrow> counts) \<Rightarrow> string \<Rightarrow> string \<Rightarrow> string list \<Rightarrow> string \<Rightarrow> behavior_profile option \<Rightarrow> behavior_profile" where
  "update_behavior ord query_type message tool_names model_used stored =
     (let p = (case stored of Some p \<Rightarrow> p | None \<Rightarrow> no_behavior)
      in \<lparr>bh_query_types = count_up query_type (bh_query_types p),
          bh_topics = count_topics (extract_keywords message) (set_order ord (bh_topics p)),
          bh_tools = fold count_up tool_names (bh_tools p),
          bh_models = count_up model_used (bh_models p),
          bh_messages = Suc (bh_messages p)\<rparr>)"

definition recurring_patterns :: "behavior_profile \<Rightarrow> string list" where
  "recurring_patterns p = sort (map fst (filter (\<lambda>q. snd q \<ge> 3) (bh_topics p)))"

section \<open>Insights\<close>

record insight_row =
  ig_id :: string
  ig_user :: int
  ig_content :: string
  ig_read :: bool
  ig_created :: real

definition pairs_text :: "counts \<Rightarrow> string" where
  "pairs_text d = join '', '' (map (\<lambda>(k, v). k @ ''='' @ nat_str v) d)"

definition behavior_hint :: "string option \<Rightarrow> behavior_profile option \<Rightarrow> string" where
  "behavior_hint hint p =
     (case hint of Some (x # xs) \<Rightarrow> (x # xs) @ newline | _ \<Rightarrow> [])
     @ (case p of
          None \<Rightarrow> []
        | Some b \<Rightarrow>
            let qs = take 3 (py_sort_key (\<lambda>q. - int (snd q)) (bh_query_types b)); ts = take 5 (py_sort_key (\<lambda>q. - int (snd q)) (bh_topics b))
            in (if qs = [] then [] else ''Top query types: '' @ pairs_text qs @ newline)
             @ (if ts = [] then [] else ''Top topics: '' @ pairs_text ts @ newline))"

definition insight_prompt :: "string \<Rightarrow> string \<Rightarrow> string \<Rightarrow> string" where
  "insight_prompt memory recent_topics hint =
     ''Analyze this user's AI assistant data and identify ONE specific insight.'' @ newline @ newline
     @ ''User memory:'' @ newline @ take 600 memory @ newline @ newline
     @ ''Recent questions asked:'' @ newline @ take 400 recent_topics @ newline @ hint @ newline
     @ ''Write a single sentence about a pattern, gap, or opportunity.'' @ newline
     @ ''Start with '' @ [CHR 0x22] @ ''You '' @ [CHR 0x22] @ '' or '' @ [CHR 0x22] @ ''Your '' @ [CHR 0x22] @ '' or '' @ [CHR 0x22] @ ''Pattern: '' @ [CHR 0x22] @ ''.'' @ newline
     @ ''If nothing meaningful, respond with exactly: NONE''"

definition generate_user_insight :: "(string \<Rightarrow> (bool \<times> string option) result) \<Rightarrow> string \<Rightarrow> string \<Rightarrow> behavior_profile option \<Rightarrow> string option \<Rightarrow> string option" where
  "generate_user_insight llm memory recent_topics profile hint =
     (case llm (insight_prompt memory recent_topics (behavior_hint hint profile)) of
        Inl e \<Rightarrow> None
      | Inr (ok, reply) \<Rightarrow>
          let t = strip_chars [CHR 0x22] (content_of reply)
          in if t \<noteq> [] \<and> upper t \<noteq> ''NONE'' \<and> length t > 10 then Some t else None)"

definition unread :: "int \<Rightarrow> insight_row list \<Rightarrow> insight_row list" where
  "unread uid rows = filter (\<lambda>r. ig_user r = uid \<and> \<not> ig_read r) rows"

definition new_insight :: "string \<Rightarrow> int \<Rightarrow> string \<Rightarrow> real \<Rightarrow> insight_row" where
  "new_insight iid uid txt now = \<lparr>ig_id = iid, ig_user = uid, ig_content = txt, ig_read = False, ig_created = now\<rparr>"

definition recent_topics :: "(chat_message list \<Rightarrow> chat_message list) \<Rightarrow> int \<Rightarrow> chat_db \<Rightarrow> string" where
  "recent_topics ord uid db =
     join_lines (map (\<lambda>m. ''- '' @ take 100 (mg_content m))
       (take 20 (newest_first ord (filter (\<lambda>m. mg_role m = ''user'' \<and> own_conv db uid (mg_conv m) \<noteq> None) (cd_messages db)))))"

text \<open>The job that makes an insight, unless three wait unread; the value has the text a notification is queued for.\<close>

definition generate_insight_job :: "(string \<Rightarrow> (bool \<times> string option) result) \<Rightarrow> (chat_message list \<Rightarrow> chat_message list) \<Rightarrow> string \<Rightarrow> real \<Rightarrow>
    int \<Rightarrow> string option \<Rightarrow> memory_db \<Rightarrow> chat_db \<Rightarrow> behavior_profile option \<Rightarrow> insight_row list \<Rightarrow> string option \<times> insight_row list" where
  "generate_insight_job llm ord fresh now uid hint md db profile rows =
     (if length (unread uid rows) \<ge> 3 then (None, rows)
      else
        let memory = (case sheet_of md uid of Some r \<Rightarrow> um_content r | None \<Rightarrow> [])
        in case generate_user_insight llm memory (recent_topics ord uid db) profile hint of
             None \<Rightarrow> (None, rows)
           | Some t \<Rightarrow> (Some (take 200 t), rows @ [new_insight fresh uid t now]))"

text \<open>The hints of the jobs queued after an update of the profile, one for each recurring topic that no insight of the week mentions.\<close>

definition pattern_hints :: "(string \<Rightarrow> string \<Rightarrow> bool) \<Rightarrow> real \<Rightarrow> int \<Rightarrow> behavior_profile \<Rightarrow> insight_row list \<Rightarrow> string list" where
  "pattern_hints mentions now uid p rows =
     map (\<lambda>t. ''User frequently asks about: '' @ t @ ''. Suggest creating a summary document.'')
       (filter (\<lambda>t. \<not> list_ex (\<lambda>r. ig_user r = uid \<and> mentions t (ig_content r) \<and> ig_created r \<ge> now - 7 * 86400) rows) (recurring_patterns p))"

text \<open>Rows stand in the order of their creation.\<close>

definition list_insights :: "bool \<Rightarrow> int \<Rightarrow> insight_row list \<Rightarrow> insight_row list" where
  "list_insights everything uid rows = take 50 (rev (filter (\<lambda>r. ig_user r = uid \<and> (everything \<or> \<not> ig_read r)) rows))"

definition mark_read :: "string \<Rightarrow> int \<Rightarrow> insight_row list \<Rightarrow> unit result \<times> insight_row list" where
  "mark_read iid uid rows =
     (if list_ex (\<lambda>r. ig_id r = iid \<and> ig_user r = uid) rows
      then (Inr (), map (\<lambda>r. if ig_id r = iid \<and> ig_user r = uid then r\<lparr>ig_read := True\<rparr> else r) rows)
      else (Inl (HTTPException 404 ''Not found''), rows))"

definition delete_insight :: "string \<Rightarrow> int \<Rightarrow> insight_row list \<Rightarrow> unit result \<times> insight_row list" where
  "delete_insight iid uid rows =
     (if list_ex (\<lambda>r. ig_id r = iid \<and> ig_user r = uid) rows
      then (Inr (), filter (\<lambda>r. \<not> (ig_id r = iid \<and> ig_user r = uid)) rows)
      else (Inl (HTTPException 404 ''Not found''), rows))"

section \<open>Webhooks\<close>

record webhook_event =
  wv_id :: string
  wv_user :: int
  wv_type :: string
  wv_payload :: pydict
  wv_status :: string
  wv_error :: "string option"

definition VALID_EVENT_TYPES :: "string list" where
  "VALID_EVENT_TYPES = [''file.uploaded'', ''reminder'', ''external.data'']"

text \<open>A token belongs to one user, given with whether the account is active.\<close>

definition receive_webhook :: "(string \<Rightarrow> (int \<times> bool) option) \<Rightarrow> string \<Rightarrow> string \<Rightarrow> string \<Rightarrow> pydict \<Rightarrow> webhook_event list \<Rightarrow>
    string result \<times> webhook_event list" where
  "receive_webhook owner fresh token event_type payload events =
     (if event_type \<notin> set VALID_EVENT_TYPES then (Inl (HTTPException 422 (''Unknown event_type: '' @ event_type)), events)
      else case owner token of
        None \<Rightarrow> (Inl (HTTPException 404 ''Invalid webhook token''), events)
      | Some (uid, active) \<Rightarrow>
          if \<not> active then (Inl (HTTPException 403 ''User is inactive''), events)
          else (Inr fresh, events @ [\<lparr>wv_id = fresh, wv_user = uid, wv_type = event_type, wv_payload = payload,
                                      wv_status = ''pending'', wv_error = None\<rparr>]))"

definition payload_text :: "(pyval \<Rightarrow> string) \<Rightarrow> pydict \<Rightarrow> string \<Rightarrow> string \<Rightarrow> string" where
  "payload_text show_value p k dflt = (case dget p k of Some v \<Rightarrow> show_value v | None \<Rightarrow> dflt)"

definition event_hint :: "(pyval \<Rightarrow> string) \<Rightarrow> (pydict \<Rightarrow> string) \<Rightarrow> webhook_event \<Rightarrow> string" where
  "event_hint show_value show_dict e =
     (if wv_type e = ''file.uploaded'' then ''New file uploaded: '' @ payload_text show_value (wv_payload e) ''filename'' ''unknown''
      else if wv_type e = ''reminder'' then ''Reminder triggered: '' @ payload_text show_value (wv_payload e) ''message'' []
      else if wv_type e = ''external.data'' then
        ''External data received: '' @ payload_text show_value (wv_payload e) ''source'' ''unknown'' @ '' '' @ em_dash @ '' '' @ take 200 (show_dict (wv_payload e))
      else ''Event received: '' @ wv_type e)"

text \<open>The job; a commit that fails leaves the event with the error, and the job raises.\<close>

definition process_webhook_job :: "(string \<Rightarrow> (bool \<times> string option) result) \<Rightarrow> (pyval \<Rightarrow> string) \<Rightarrow> (pydict \<Rightarrow> string) \<Rightarrow> bool \<Rightarrow> string \<Rightarrow> string \<Rightarrow> real \<Rightarrow>
    string \<Rightarrow> webhook_event list \<times> insight_row list \<Rightarrow> unit result \<times> webhook_event list \<times> insight_row list" where
  "process_webhook_job llm show_value show_dict commit_ok error_text fresh now eid db =
     (case db of (events, rows) \<Rightarrow>
      case List.find (\<lambda>e. wv_id e = eid) events of
        None \<Rightarrow> (Inr (), events, rows)
      | Some e \<Rightarrow>
          if wv_status e = ''processed'' then (Inr (), events, rows)
          else if \<not> commit_ok then
            (Inl OtherError, map (\<lambda>x. if wv_id x = eid then x\<lparr>wv_status := ''error'', wv_error := Some error_text\<rparr> else x) events, rows)
          else (Inr (), map (\<lambda>x. if wv_id x = eid then x\<lparr>wv_status := ''processed''\<rparr> else x) events,
                case generate_user_insight llm [] [] None (Some (event_hint show_value show_dict e)) of
                  None \<Rightarrow> rows
                | Some t \<Rightarrow> rows @ [new_insight fresh (wv_user e) t now]))"

section \<open>Notifications\<close>

record notification_prefs =
  np_digest :: bool
  np_scheduled :: bool
  np_insights :: bool
  np_push :: bool

definition default_prefs :: notification_prefs where
  "default_prefs = \<lparr>np_digest = True, np_scheduled = True, np_insights = True, np_push = False\<rparr>"

text \<open>Redis: the counter of a key, and the time it expires, if it was given one.\<close>

type_synonym counters = "(string \<times> nat \<times> real option) list"

definition counter_of :: "real \<Rightarrow> string \<Rightarrow> counters \<Rightarrow> nat \<times> real option" where
  "counter_of now key r =
     (case dget r key of
        Some (n, Some d) \<Rightarrow> if d \<le> now then (0, None) else (n, Some d)
      | Some (n, None) \<Rightarrow> (n, None)
      | None \<Rightarrow> (0, None))"

text \<open>Any exception of Redis lets the notification pass.\<close>

definition check_notification_rate :: "bool \<Rightarrow> nat \<Rightarrow> nat \<Rightarrow> real \<Rightarrow> bool \<Rightarrow> bool \<Rightarrow> string \<Rightarrow> counters \<Rightarrow> bool \<times> counters" where
  "check_notification_rate use_redis limit window now incr_ok expire_ok key r =
     (if \<not> use_redis \<or> \<not> incr_ok then (True, r)
      else
        let (n, d) = counter_of now key r; current = Suc n
        in if current = 1 then
             (if \<not> expire_ok then (True, dset r key (current, None))
              else (current \<le> limit, dset r key (current, Some (now + of_nat window))))
           else (current \<le> limit, dset r key (current, d)))"

definition wants_mail :: "notification_prefs \<Rightarrow> string \<Rightarrow> bool" where
  "wants_mail p event_type =
     (if event_type = ''digest'' then np_digest p else if event_type = ''scheduled'' then np_scheduled p
      else if event_type = ''insight'' then np_insights p else False)"

datatype channel = Mail | Push

text \<open>The channels of a notification; \<open>smtp\<close> and \<open>vapid\<close> tell whether mail and push are configured.\<close>

definition notify :: "bool \<Rightarrow> bool \<Rightarrow> notification_prefs option \<Rightarrow> bool \<Rightarrow> string \<Rightarrow> channel list" where
  "notify smtp vapid prefs allowed event_type =
     (let p = (case prefs of Some p \<Rightarrow> p | None \<Rightarrow> default_prefs)
      in if \<not> allowed then []
         else (if wants_mail p event_type \<and> smtp then [Mail] else []) @ (if np_push p \<and> vapid then [Push] else []))"

section \<open>The weekly digest\<close>

record digest_input =
  di_files :: "(int \<times> string \<times> real) list"
  \<comment> \<open>user, name, time; newest first, like the next two\<close>
  di_snapshots :: "(int \<times> real) list"
  di_insights :: "insight_row list"
  di_goals :: "(int \<times> string \<times> string \<times> real) list"
  \<comment> \<open>user, title, status, time\<close>

definition digest_files :: "int \<Rightarrow> real \<Rightarrow> digest_input \<Rightarrow> string list" where
  "digest_files uid cutoff d = take 10 (map (\<lambda>(_, n, _). n) (filter (\<lambda>(u, _, t). u = uid \<and> t \<ge> cutoff) (di_files d)))"

definition digest_snapshots :: "int \<Rightarrow> real \<Rightarrow> digest_input \<Rightarrow> nat" where
  "digest_snapshots uid cutoff d = length (filter (\<lambda>(u, t). u = uid \<and> t \<ge> cutoff) (di_snapshots d))"

definition digest_insights :: "int \<Rightarrow> real \<Rightarrow> digest_input \<Rightarrow> string list" where
  "digest_insights uid cutoff d =
     map (\<lambda>r. if length (ig_content r) > 120 then take 120 (ig_content r) @ [CHR 0x80] else ig_content r)
       (take 5 (filter (\<lambda>r. ig_user r = uid \<and> ig_created r \<ge> cutoff) (di_insights d)))"

definition digest_goals :: "int \<Rightarrow> real \<Rightarrow> digest_input \<Rightarrow> (string \<times> string) list" where
  "digest_goals uid cutoff d = take 10 (map (\<lambda>(_, t, s, _). (t, s)) (filter (\<lambda>(u, _, _, t). u = uid \<and> t \<ge> cutoff) (di_goals d)))"

definition build_digest :: "(real \<Rightarrow> string) \<Rightarrow> int \<Rightarrow> real \<Rightarrow> digest_input \<Rightarrow> string option" where
  "build_digest show_date uid now d =
     (let cutoff = now - 7 * 86400; files = digest_files uid cutoff d; snaps = digest_snapshots uid cutoff d;
          insights = digest_insights uid cutoff d; goals = digest_goals uid cutoff d
      in if files = [] \<and> snaps = 0 \<and> insights = [] \<and> goals = [] then None
         else Some (join_lines
           ([''## Your Weekly Digest '' @ em_dash @ '' '' @ show_date cutoff @ '' '' @ [CHR 0x96] @ '' '' @ show_date now, []]
            @ (if files = [] then [] else [''### New Files ('' @ nat_str (length files) @ '')''] @ map (\<lambda>n. ''- '' @ n) files @ [[]])
            @ (if snaps = 0 then []
               else [''### Memory Snapshots ('' @ nat_str snaps @ '')'',
                     nat_str snaps @ '' memory version'' @ (if snaps = 1 then '' was'' else ''s were'') @ '' saved this week.'', []])
            @ (if insights = [] then [] else [''### New Insights ('' @ nat_str (length insights) @ '')''] @ map (\<lambda>n. ''- '' @ n) insights @ [[]])
            @ (if goals = [] then []
               else [''### Goal Activity ('' @ nat_str (length goals) @ '')''] @ map (\<lambda>(t, s). ''- **'' @ t @ ''** '' @ em_dash @ '' '' @ s) goals @ [[]]))))"

section \<open>Renewal of the embeddings\<close>

definition BATCH_SIZE :: nat where
  "BATCH_SIZE = 100"

record embed_state =
  em_stored :: "string option"
  \<comment> \<open>the model the stored embeddings are said to come from\<close>
  em_chunks :: nat
  em_messages :: nat
  em_queue :: "(string \<times> nat) list"
  \<comment> \<open>table and offset of a batch\<close>

definition batches :: "string \<Rightarrow> nat \<Rightarrow> (string \<times> nat) list" where
  "batches table n = map (\<lambda>i. (table, i * BATCH_SIZE)) [0..<(n + BATCH_SIZE - 1) div BATCH_SIZE]"

definition queue_all_batches :: "bool \<Rightarrow> embed_state \<Rightarrow> nat \<times> embed_state" where
  "queue_all_batches pool st =
     (if \<not> pool then (0, st)
      else (em_chunks st + em_messages st,
            st\<lparr>em_queue := em_queue st @ batches ''file_chunk'' (em_chunks st) @ batches ''message_embedding'' (em_messages st)\<rparr>))"

definition check_and_queue_re_embed :: "string \<Rightarrow> bool \<Rightarrow> embed_state \<Rightarrow> embed_state" where
  "check_and_queue_re_embed model pool st =
     (if em_stored st = Some model then st else snd (queue_all_batches pool (st\<lparr>em_stored := Some model\<rparr>)))"

definition queue_re_embed_force :: "string \<Rightarrow> bool \<Rightarrow> embed_state \<Rightarrow> nat \<times> embed_state" where
  "queue_re_embed_force model pool st = queue_all_batches pool (st\<lparr>em_stored := Some model\<rparr>)"

text \<open>One batch: rows in the order of their creation; a row without a new embedding keeps the one it has.\<close>

definition re_embed_batch :: "(string \<Rightarrow> real list option) \<Rightarrow> nat \<Rightarrow> (string \<times> real list option) list \<Rightarrow> (string \<times> real list option) list" where
  "re_embed_batch emb_of offset rows =
     map (\<lambda>(i, t, e). (t, if offset \<le> i \<and> i < offset + BATCH_SIZE
                          then (case emb_of (take 2000 t) of Some (x # xs) \<Rightarrow> Some (x # xs) | _ \<Rightarrow> e) else e)) (enumerate 0 rows)"

section \<open>What a full profile learns\<close>

lemma sort_key_append:
  assumes "\<And>x y. x \<in> set xs \<Longrightarrow> y \<in> set ys \<Longrightarrow> f x \<le> f y"
  shows "sort_key f (xs @ ys) = sort_key f xs @ sort_key f ys"
proof (rule properties_for_sort_key)
  show "mset (sort_key f xs @ sort_key f ys) = mset (xs @ ys)" by simp
  show "filter (\<lambda>x. f k = f x) (sort_key f xs @ sort_key f ys) = filter (\<lambda>x. f k = f x) (xs @ ys)" for k
    using sort_key_stable [of f "f k"] by (simp add: eq_commute)
  show "sorted (map f (sort_key f xs @ sort_key f ys))" using assms by (auto simp: sorted_append)
qed

lemma dset_key_set: "fst ` set (dset d k v) = insert k (fst ` set d)"
  by (simp add: dset_def dom_update)

lemma dset_split:
  "k \<in> fst ` set d \<Longrightarrow> length (dset d k v) = length d"
  "k \<notin> fst ` set d \<Longrightarrow> dset d k v = d @ [(k, v)]"
  by (induction d) (auto simp: dset_def)

text \<open>A counted dictionary splits into the keys it had before, and new ones with count one behind them.\<close>

lemma count_up_split:
  assumes "distinct (kws @ map fst news)" and "\<forall>p \<in> set olds. snd p \<ge> 1" and "\<forall>p \<in> set news. snd p = (1::nat)"
    and "distinct (map fst (olds @ news))"
  shows "\<exists>olds' news'. fold count_up kws (olds @ news) = olds' @ news' \<and> fst ` set olds' = fst ` set olds \<and> length olds' = length olds
    \<and> (\<forall>p \<in> set olds'. snd p \<ge> 1) \<and> (\<forall>p \<in> set news'. snd p = 1) \<and> distinct (map fst (olds' @ news'))"
  using assms
proof (induction kws arbitrary: olds news)
  case Nil
  then show ?case by auto
next
  case (Cons k kws)
  show ?case
  proof (cases "k \<in> fst ` set olds")
    case True
    have upd: "dset (olds @ news) k v = dset olds k v @ news" for v using True by (induction olds) (auto simp: dset_def)
    have get: "dget (olds @ news) k \<noteq> None" using True by (auto simp: dget_def map_of_eq_None_iff)
    then obtain n where n: "dget (olds @ news) k = Some n" by blast
    have keys: "map fst (dset olds k (Suc n)) = map fst olds" using True by (induction olds) (auto simp: dset_def)
    have counts: "\<forall>p \<in> set (dset olds k (Suc n)). snd p \<ge> 1"
      using Cons.prems(2) by (induction olds) (auto simp: dset_def)
    have len: "length (dset olds k (Suc n)) = length olds" using keys by (metis length_map)
    have img: "fst ` set (dset olds k (Suc n)) = fst ` set olds" using keys by (metis list.set_map)
    from Cons.IH [of news "dset olds k (Suc n)"] Cons.prems keys counts have
      "\<exists>olds' news'. fold count_up kws (dset olds k (Suc n) @ news) = olds' @ news' \<and> fst ` set olds' = fst ` set (dset olds k (Suc n))
        \<and> length olds' = length (dset olds k (Suc n)) \<and> (\<forall>p \<in> set olds'. snd p \<ge> 1) \<and> (\<forall>p \<in> set news'. snd p = 1) \<and> distinct (map fst (olds' @ news'))" by simp
    moreover have "count_up k (olds @ news) = dset olds k (Suc n) @ news" by (simp add: count_up_def n upd)
    ultimately show ?thesis using len img by simp
  next
    case False
    with Cons.prems(1) have new: "k \<notin> fst ` set (olds @ news)" by auto
    then have "dget (olds @ news) k = None" by (simp add: dget_def map_of_eq_None_iff image_Un)
    then have step: "count_up k (olds @ news) = olds @ (news @ [(k, 1)])" using dset_split(2) [OF new] by (simp add: count_up_def)
    have "distinct (kws @ map fst (news @ [(k, 1)]))" using Cons.prems(1) by auto
    moreover have "distinct (map fst (olds @ (news @ [(k, 1)])))" using Cons.prems(4) new by (auto simp: image_Un)
    ultimately show ?thesis using Cons.IH [of "news @ [(k, 1)]" olds] Cons.prems(2,3) step by simp
  qed
qed

lemma count_topics_full:
  assumes "length d = MAX_TOPICS" and "distinct (map fst d)" and "\<forall>p \<in> set d. snd p \<ge> 1" and "distinct kws"
  shows "fst ` set (count_topics kws d) = fst ` set d \<and> length (count_topics kws d) = MAX_TOPICS
    \<and> distinct (map fst (count_topics kws d)) \<and> (\<forall>p \<in> set (count_topics kws d). snd p \<ge> 1)"
proof -
  obtain olds news where split: "fold count_up kws d = olds @ news" "fst ` set olds = fst ` set d" "length olds = length d"
    "\<forall>p \<in> set olds. snd p \<ge> 1" "\<forall>p \<in> set news. snd p = 1" "distinct (map fst (olds @ news))"
    using count_up_split [of kws "[]" d] assms by auto
  let ?f = "\<lambda>p :: string \<times> nat. - int (snd p)"
  have "sort_key ?f (olds @ news) = sort_key ?f olds @ sort_key ?f news"
    using split(4,5) by (intro sort_key_append) fastforce
  then have trim: "take MAX_TOPICS (sort_key ?f (olds @ news)) = sort_key ?f olds" using split(3) assms(1) by simp
  have "count_topics kws d = (if news = [] then olds else sort_key ?f olds)"
    using split(1,3) assms(1) trim by (auto simp: count_topics_def py_sort_key_def Let_def)
  moreover have "distinct (map fst (sort_key ?f olds))"
  proof -
    have "mset (map fst (sort_key ?f olds)) = mset (map fst olds)" by simp
    then show ?thesis using split(6) by (metis distinct_append map_append mset_eq_imp_distinct_iff)
  qed
  ultimately show ?thesis using split assms(1) by (auto simp: image_iff)
qed

text \<open>
  C37. A full profile learns no new topic: once fifty topics are known, messages whose keywords do not repeat within a message never
  change which topics are known, however often a new topic comes up over time.
\<close>

theorem full_profile_keeps_topics:
  assumes "length (bh_topics p) = 50" and "distinct (map fst (bh_topics p))" and "\<forall>q \<in> set (bh_topics p). snd q \<ge> 1"
    and "\<forall>m \<in> set messages. distinct (extract_keywords m)"
  shows "fst ` set (bh_topics (fold (\<lambda>m p. update_behavior ord kind m tools model (Some p)) messages p)) = fst ` set (bh_topics p)"
  using assms
proof (induction messages arbitrary: p)
  case (Cons m ms)
  let ?d = "set_order ord (bh_topics p)" and ?p = "update_behavior ord kind m tools model (Some p)"
  have perm: "mset ?d = mset (bh_topics p)" by (simp add: set_order_def)
  have d: "set ?d = set (bh_topics p)" using perm by (metis set_mset_mset)
  have "length ?d = MAX_TOPICS" using Cons.prems(1) perm by (metis MAX_TOPICS_def size_mset)
  moreover have "distinct (map fst ?d)" using Cons.prems(2) perm by (metis mset_eq_imp_distinct_iff mset_map)
  ultimately have "fst ` set (bh_topics ?p) = fst ` set (bh_topics p) \<and> length (bh_topics ?p) = 50
      \<and> distinct (map fst (bh_topics ?p)) \<and> (\<forall>q \<in> set (bh_topics ?p). snd q \<ge> 1)"
    using count_topics_full [of ?d "extract_keywords m"] Cons.prems(3,4) d by (simp add: update_behavior_def Let_def MAX_TOPICS_def)
  then show ?case using Cons.IH [of ?p] Cons.prems(4) by simp
qed simp

definition sample_behavior :: behavior_profile where
  "sample_behavior = no_behavior\<lparr>bh_topics := map (\<lambda>i. (replicate i CHR ''a'', 1)) [0..<50]\<rparr>"

theorem full_profile_keeps_topics_witness:
  "fst ` set (bh_topics (update_behavior id ''factual'' ''tell me about gardening'' [] ''m'' (Some sample_behavior))) = fst ` set (bh_topics sample_behavior)"
proof -
  have "distinct (map (\<lambda>i. replicate i CHR ''a'') [0..<50])" by (simp add: distinct_map inj_on_def)
  then have "distinct (map fst (bh_topics sample_behavior))" by (simp add: sample_behavior_def comp_def)
  moreover have "length (bh_topics sample_behavior) = 50" "\<forall>q \<in> set (bh_topics sample_behavior). snd q \<ge> 1" by (auto simp: sample_behavior_def)
  moreover have "distinct (extract_keywords ''tell me about gardening'')" by code_simp
  ultimately show ?thesis
    using full_profile_keeps_topics [of sample_behavior "[''tell me about gardening'']" id "''factual''" "[]" "''m''"] by simp
qed

section \<open>Insights are limited, embeddings can be forgotten\<close>

text \<open>One call of the job, with its own model, time, hint and state.\<close>

record insight_call =
  ic_ord :: "chat_message list \<Rightarrow> chat_message list"
  ic_llm :: "string \<Rightarrow> (bool \<times> string option) result"
  ic_fresh :: string
  ic_now :: real
  ic_user :: int
  ic_hint :: "string option"
  ic_memory :: memory_db
  ic_chats :: chat_db
  ic_profile :: "behavior_profile option"

definition insight_step :: "insight_call \<Rightarrow> insight_row list \<Rightarrow> insight_row list" where
  "insight_step c rows =
     snd (generate_insight_job (ic_llm c) (ic_ord c) (ic_fresh c) (ic_now c) (ic_user c) (ic_hint c) (ic_memory c) (ic_chats c) (ic_profile c) rows)"

lemma insight_step_unread:
  "length (unread uid (insight_step c rows)) \<le> max 3 (length (unread uid rows))"
  by (auto simp: insight_step_def generate_insight_job_def unread_def new_insight_def Let_def split: option.splits)

lemma no_insights_unread: "length (unread uid ([] :: insight_row list)) \<le> 3"
  by (simp add: unread_def)

interpretation insight_machine: guarded_machine insight_step "\<lambda>rows. \<forall>uid. length (unread uid rows) \<le> 3" "[]"
proof unfold_locales
  show "\<forall>uid. length (unread uid (insight_step c rows)) \<le> 3" if "\<forall>uid. length (unread uid rows) \<le> 3" for c rows
    using that insight_step_unread [of _ c rows] by (metis max.absorb1)
qed (simp add: no_insights_unread)

text \<open>
  Insights made by the job never pile up: along every sequence of these jobs, each with its own
  model, time, hint and profile, a user never has more than three unread ones, or as many as before.
\<close>

theorem insights_stay_few: "length (unread uid (fold insight_step calls [])) \<le> 3"
  using insight_machine.inv_reach by blast

text \<open>
  A change of the embedding model can be missed for good: without a queue, the check records the new
  model and queues nothing, and every later check, with a queue or not, finds nothing to do.
\<close>

theorem re_embedding_missed:
  "let st' = check_and_queue_re_embed model False st
   in em_queue st' = em_queue st \<and> em_stored st' = Some model
      \<and> (\<forall>pools. fold (\<lambda>pool st. check_and_queue_re_embed model pool st) pools st' = st')"
proof -
  have stays: "fold (\<lambda>pool st. check_and_queue_re_embed model pool st) pools st' = st'" if "em_stored st' = Some model" for pools st'
    using that by (induction pools) (simp_all add: check_and_queue_re_embed_def)
  have "em_stored (check_and_queue_re_embed model False st) = Some model" by (simp add: check_and_queue_re_embed_def queue_all_batches_def)
  with stays show ?thesis by (simp add: Let_def) (simp add: check_and_queue_re_embed_def queue_all_batches_def)
qed

lemma batch_of_row: "i < n \<Longrightarrow> i div BATCH_SIZE < (n + BATCH_SIZE - 1) div BATCH_SIZE"
  unfolding BATCH_SIZE_def by linarith

text \<open>
  The batches of a renewal cover a table: every row lies in exactly one batch, whatever
  the size of the table.
\<close>

theorem batches_cover_table:
  assumes "i < n"
  shows "\<exists>!b. b \<in> set (batches table n) \<and> snd b \<le> i \<and> i < snd b + BATCH_SIZE"
proof (rule ex1I [of _ "(table, i div BATCH_SIZE * BATCH_SIZE)"])
  show "(table, i div BATCH_SIZE * BATCH_SIZE) \<in> set (batches table n) \<and> snd (table, i div BATCH_SIZE * BATCH_SIZE) \<le> i
      \<and> i < snd (table, i div BATCH_SIZE * BATCH_SIZE) + BATCH_SIZE"
    using batch_of_row [OF assms] by (auto simp: batches_def) (auto simp: BATCH_SIZE_def)
  show "b = (table, i div BATCH_SIZE * BATCH_SIZE)" if b: "b \<in> set (batches table n) \<and> snd b \<le> i \<and> i < snd b + BATCH_SIZE" for b
  proof -
    from b obtain j where j: "b = (table, j * BATCH_SIZE)" "j * BATCH_SIZE \<le> i" "i < j * BATCH_SIZE + BATCH_SIZE" by (auto simp: batches_def)
    from j(2,3) have "i div BATCH_SIZE = j" unfolding BATCH_SIZE_def by linarith
    with j(1) show ?thesis by simp
  qed
qed

theorem batches_cover_table_witness: "\<exists>!b. b \<in> set (batches ''file_chunk'' 250) \<and> snd b \<le> 205 \<and> 205 < snd b + BATCH_SIZE"
  using batches_cover_table [of 205 250 "''file_chunk''"] by simp

section \<open>Notifications\<close>

lemma counter_stuck:
  assumes "dget r key = Some (n, None)" and "n \<ge> 1"
  shows "check_notification_rate True limit window now True expire_ok key r = (Suc n \<le> limit, dset r key (Suc n, None))"
  using assms by (simp add: check_notification_rate_def counter_of_def)

fun notification_run :: "nat \<Rightarrow> nat \<Rightarrow> string \<Rightarrow> real list \<Rightarrow> counters \<Rightarrow> bool list" where
  "notification_run limit window key [] r = []"
| "notification_run limit window key (t # ts) r =
     (let (ok, r1) = check_notification_rate True limit window t True True key r in ok # notification_run limit window key ts r1)"

lemma stuck_run:
  "dget r key = Some (n, None) \<Longrightarrow> n \<ge> 1 \<Longrightarrow> notification_run limit window key ts r = map (\<lambda>i. Suc n + i \<le> limit) [0..<length ts]"
proof (induction ts arbitrary: r n)
  case (Cons t ts)
  have "notification_run limit window key ts (dset r key (Suc n, None)) = map (\<lambda>i. Suc (Suc n) + i \<le> limit) [0..<length ts]"
    by (rule Cons.IH) simp_all
  then show ?case using counter_stuck [OF Cons.prems] by (simp add: map_upt_Suc del: upt_Suc)
qed simp

text \<open>
  A counter that never expires silences a user: if Redis counts the first notification of a kind but
  fails to set the lifetime, this one passes, the limit is reached with the next ones, and after that no
  notification of the kind is ever sent again, whenever it is made.
\<close>

theorem lost_lifetime_silences:
  assumes "fst (counter_of now key r) = 0"
  shows "let (ok, r1) = check_notification_rate True limit window now True False key r
    in ok \<and> notification_run limit window key ts r1 = map (\<lambda>i. i + 2 \<le> limit) [0..<length ts]"
proof -
  have "check_notification_rate True limit window now True False key r = (True, dset r key (1, None))"
    using assms by (auto simp: check_notification_rate_def Let_def split: prod.splits)
  then show ?thesis using stuck_run [of "dset r key (1, None)" key 1] by (simp add: add.commute)
qed

theorem lost_lifetime_silences_witness:
  "notification_run 5 60 ''notif:rl:1:insight'' [0, 1, 2, 3, 1000000, 2000000]
     (snd (check_notification_rate True 5 60 0 True False ''notif:rl:1:insight'' [])) = [True, True, True, True, False, False]"
  using lost_lifetime_silences [of 0 "''notif:rl:1:insight''" "[]" 5 60 "[0, 1, 2, 3, 1000000, 2000000]"]
  by (simp add: counter_of_def dget_def split: prod.splits)

section \<open>Digests and webhooks\<close>

text \<open>
  A digest is made exactly when something happened within the week, but its counts of files, insights
  and goals stop at ten, five and ten: only the snapshots are counted in full.
\<close>

theorem digest_iff_activity:
  "(build_digest show_date uid now d = None \<longleftrightarrow>
      (\<nexists>n t. (uid, n, t) \<in> set (di_files d) \<and> t \<ge> now - 7 * 86400) \<and> (\<nexists>t. (uid, t) \<in> set (di_snapshots d) \<and> t \<ge> now - 7 * 86400)
      \<and> (\<nexists>r. r \<in> set (di_insights d) \<and> ig_user r = uid \<and> ig_created r \<ge> now - 7 * 86400)
      \<and> (\<nexists>n s t. (uid, n, s, t) \<in> set (di_goals d) \<and> t \<ge> now - 7 * 86400))
   \<and> length (digest_files uid cutoff d) = min 10 (length (filter (\<lambda>(u, _, t). u = uid \<and> t \<ge> cutoff) (di_files d)))
   \<and> length (digest_insights uid cutoff d) = min 5 (length (filter (\<lambda>r. ig_user r = uid \<and> ig_created r \<ge> cutoff) (di_insights d)))
   \<and> length (digest_goals uid cutoff d) = min 10 (length (filter (\<lambda>(u, _, _, t). u = uid \<and> t \<ge> cutoff) (di_goals d)))"
proof -
  have "digest_files uid c d = [] \<longleftrightarrow> (\<nexists>n t. (uid, n, t) \<in> set (di_files d) \<and> t \<ge> c)" for c
    by (auto simp: digest_files_def filter_empty_conv)
  moreover have "digest_snapshots uid c d = 0 \<longleftrightarrow> (\<nexists>t. (uid, t) \<in> set (di_snapshots d) \<and> t \<ge> c)" for c
    by (auto simp: digest_snapshots_def filter_empty_conv)
  moreover have "digest_insights uid c d = [] \<longleftrightarrow> (\<nexists>r. r \<in> set (di_insights d) \<and> ig_user r = uid \<and> ig_created r \<ge> c)" for c
    by (auto simp: digest_insights_def filter_empty_conv)
  moreover have "digest_goals uid c d = [] \<longleftrightarrow> (\<nexists>n s t. (uid, n, s, t) \<in> set (di_goals d) \<and> t \<ge> c)" for c
    by (auto simp: digest_goals_def filter_empty_conv)
  ultimately have "build_digest show_date uid now d = None \<longleftrightarrow>
      (\<nexists>n t. (uid, n, t) \<in> set (di_files d) \<and> t \<ge> now - 7 * 86400) \<and> (\<nexists>t. (uid, t) \<in> set (di_snapshots d) \<and> t \<ge> now - 7 * 86400)
      \<and> (\<nexists>r. r \<in> set (di_insights d) \<and> ig_user r = uid \<and> ig_created r \<ge> now - 7 * 86400)
      \<and> (\<nexists>n s t. (uid, n, s, t) \<in> set (di_goals d) \<and> t \<ge> now - 7 * 86400)"
    unfolding build_digest_def Let_def by simp
  then show ?thesis by (auto simp: digest_files_def digest_insights_def digest_goals_def)
qed

text \<open>
  An event is handled once: after a job that succeeded, every further job for the same event, however the
  model answers, changes neither events nor insights; a job whose commit fails adds no insight.
\<close>

theorem webhook_handled_once:
  assumes "process_webhook_job llm sv sd ok err fresh now eid db = (r, events, rows)"
  shows "(r = Inr () \<longrightarrow> process_webhook_job llm2 sv2 sd2 ok2 err2 fresh2 now2 eid (events, rows) = (Inr (), events, rows))
    \<and> (r \<noteq> Inr () \<longrightarrow> rows = snd db)"
proof -
  obtain events0 rows0 where db: "db = (events0, rows0)" by fastforce
  show ?thesis
  proof (cases "List.find (\<lambda>e. wv_id e = eid) events0")
    case None
    with assms db show ?thesis by (auto simp: process_webhook_job_def)
  next
    case (Some e)
    have find: "List.find (\<lambda>e. wv_id e = eid) (map (\<lambda>x. if wv_id x = eid then f x else x) events0) = Some (f e)"
      if "\<And>x. wv_id (f x) = wv_id x" for f
      using Some that by (induction events0) (auto split: if_splits)
    show ?thesis using assms Some find by (auto simp: db process_webhook_job_def split: if_splits)
  qed
qed

theorem webhook_handled_once_witness:
  "let e = \<lparr>wv_id = ''w'', wv_user = 1, wv_type = ''reminder'', wv_payload = [], wv_status = ''pending'', wv_error = None\<rparr>;
       db = snd (process_webhook_job (\<lambda>_. Inr (True, Some ''You have a reminder'')) (\<lambda>_. []) (\<lambda>_. []) True [] ''i'' 0 ''w'' ([e], []))
   in snd (process_webhook_job (\<lambda>_. Inr (True, Some ''You have another one'')) (\<lambda>_. []) (\<lambda>_. []) True [] ''j'' 1 ''w'' db) = db"
proof -
  let ?e = "\<lparr>wv_id = ''w'', wv_user = 1, wv_type = ''reminder'', wv_payload = [], wv_status = ''pending'', wv_error = None\<rparr>"
  let ?job = "process_webhook_job (\<lambda>_. Inr (True, Some ''You have a reminder'')) (\<lambda>_. []) (\<lambda>_. []) True [] ''i'' 0 ''w'' ([?e], [])"
  obtain r events rows where job: "?job = (r, events, rows)" by (cases ?job) auto
  moreover have "fst ?job = Inr ()" by (simp add: process_webhook_job_def)
  ultimately show ?thesis using webhook_handled_once [OF job, of "\<lambda>_. Inr (True, Some ''You have another one'')" "\<lambda>_. []" "\<lambda>_. []" True "[]" "''j''" 1] by simp
qed

end
