(* ===== verification/Scheduler.thy ===== *)
theory Scheduler
  imports Background_Jobs Connectors Accounts
begin

text \<open>
  Prompts that run on a schedule: the endpoints (\<^verbatim>\<open>backend/api/scheduled_prompts.py\<close>), the scheduler
  process with its jobs and the execution of a prompt (\<^verbatim>\<open>backend/services/scheduler_worker.py\<close>).
  The two cron libraries are parameters: \<^verbatim>\<open>croniter\<close> accepts an expression and computes the next time,
  APScheduler makes a trigger of an expression, or refuses it. A parameter is also what storing a
  text returns, and whether the flush, each of the two commits and the queue succeed. The processing of the new file is a task of its own (\<open>File_Ingest\<close>). When triggers fire is not modelled.
\<close>

section \<open>Schedules and their runs\<close>

record schedule =
  sd_id :: string
  sd_user :: int
  sd_name :: string
  sd_prompt :: string
  sd_cron :: string
  sd_model :: "string option"
  sd_active :: bool
  sd_last_run :: "real option"
  sd_next_run :: "real option"

record schedule_run =
  sr_id :: string
  sr_schedule :: string
  sr_started :: real
  sr_completed :: "real option"
  sr_status :: string
  sr_file :: "string option"
  sr_error :: "string option"

record output_file =
  op_id :: string
  op_user :: int
  op_name :: string
  op_content :: string

record schedule_db =
  sb_schedules :: "schedule list"
  sb_runs :: "schedule_run list"
  sb_files :: "output_file list"

definition schedule_of :: "schedule_db \<Rightarrow> string \<Rightarrow> schedule option" where
  "schedule_of db sid = List.find (\<lambda>s. sd_id s = sid) (sb_schedules db)"

definition put_schedule :: "schedule \<Rightarrow> schedule_db \<Rightarrow> schedule_db" where
  "put_schedule s db = db\<lparr>sb_schedules := map (\<lambda>x. if sd_id x = sd_id s then s else x) (sb_schedules db)\<rparr>"

definition get_run :: "schedule_db \<Rightarrow> string \<Rightarrow> schedule_run option" where
  "get_run db rid = List.find (\<lambda>r. sr_id r = rid) (sb_runs db)"

definition set_run :: "schedule_run \<Rightarrow> schedule_db \<Rightarrow> schedule_db" where
  "set_run r db = db\<lparr>sb_runs := map (\<lambda>x. if sr_id x = sr_id r then r else x) (sb_runs db)\<rparr>"

section \<open>Endpoints\<close>

definition SCHEDULE_ALIASES :: "(string \<times> string) list" where
  "SCHEDULE_ALIASES = [(''daily'', ''0 0 * * *''), (''weekly'', ''0 0 * * 0''), (''monthly'', ''0 0 1 * *'')]"

definition resolve_schedule :: "string \<Rightarrow> string" where
  "resolve_schedule v = (case dget SCHEDULE_ALIASES (strip (lower v)) of Some c \<Rightarrow> c | None \<Rightarrow> v)"

record cron_lib =
  cr_valid :: "string \<Rightarrow> bool"
  cr_next :: "string \<Rightarrow> real \<Rightarrow> real"

definition validate_schedule :: "cron_lib \<Rightarrow> string \<Rightarrow> string result" where
  "validate_schedule cl v =
     (let c = resolve_schedule v in if cr_valid cl c then Inr c else Inl (HTTPException 422 ''Invalid schedule''))"

definition length_ok :: "nat \<Rightarrow> string \<Rightarrow> bool" where
  "length_ok n s = (1 \<le> length s \<and> length s \<le> n)"

definition create_schedule :: "cron_lib \<Rightarrow> real \<Rightarrow> string \<Rightarrow> int \<Rightarrow> string \<Rightarrow> string \<Rightarrow> string \<Rightarrow> string option \<Rightarrow> schedule_db \<Rightarrow>
    schedule result \<times> schedule_db" where
  "create_schedule cl now fresh uid name prompt schedule_text model db =
     (if \<not> (length_ok 100 name \<and> prompt \<noteq> [] \<and> length_ok 100 schedule_text) then (Inl (HTTPException 422 ''body''), db)
      else case validate_schedule cl schedule_text of
        Inl e \<Rightarrow> (Inl e, db)
      | Inr c \<Rightarrow>
          let s = \<lparr>sd_id = fresh, sd_user = uid, sd_name = strip name, sd_prompt = prompt, sd_cron = c, sd_model = model, sd_active = True,
                   sd_last_run = None, sd_next_run = Some (cr_next cl c now)\<rparr>
          in (Inr s, db\<lparr>sb_schedules := sb_schedules db @ [s]\<rparr>))"

definition own_schedule :: "schedule_db \<Rightarrow> int \<Rightarrow> string \<Rightarrow> schedule result" where
  "own_schedule db uid sid =
     (case schedule_of db sid of
        None \<Rightarrow> Inl (HTTPException 404 ''Not found'')
      | Some s \<Rightarrow> if sd_user s = uid then Inr s else Inl (HTTPException 404 ''Not found''))"

text \<open>
  The fields of a change: absent, null, or a value. A null name or schedule raises, a null prompt
  or activity violates the table; then nothing is changed.
\<close>

record schedule_patch =
  sp_name :: "string option option"
  sp_prompt :: "string option option"
  sp_schedule :: "string option option"
  sp_model :: "string option option"
  sp_active :: "bool option option"

definition patch_valid :: "cron_lib \<Rightarrow> schedule_patch \<Rightarrow> bool" where
  "patch_valid cl b =
     ((case sp_name b of Some (Some n) \<Rightarrow> length_ok 100 n | _ \<Rightarrow> True) \<and> sp_prompt b \<noteq> Some (Some [])
      \<and> (case sp_schedule b of Some (Some c) \<Rightarrow> length_ok 100 c \<and> cr_valid cl (resolve_schedule c) | _ \<Rightarrow> True))"

definition patch_schedule :: "cron_lib \<Rightarrow> real \<Rightarrow> string \<Rightarrow> int \<Rightarrow> schedule_patch \<Rightarrow> schedule_db \<Rightarrow> schedule result \<times> schedule_db" where
  "patch_schedule cl now sid uid b db =
     (if \<not> patch_valid cl b then (Inl (HTTPException 422 ''body''), db)
      else case own_schedule db uid sid of
        Inl e \<Rightarrow> (Inl e, db)
      | Inr s \<Rightarrow>
          if sp_name b = Some None \<or> sp_prompt b = Some None \<or> sp_schedule b = Some None \<or> sp_active b = Some None then (Inl OtherError, db)
          else
            let s1 = (case sp_name b of Some (Some n) \<Rightarrow> s\<lparr>sd_name := strip n\<rparr> | _ \<Rightarrow> s);
                s2 = (case sp_prompt b of Some (Some p) \<Rightarrow> s1\<lparr>sd_prompt := p\<rparr> | _ \<Rightarrow> s1);
                s3 = (case sp_model b of Some m \<Rightarrow> s2\<lparr>sd_model := m\<rparr> | None \<Rightarrow> s2);
                s4 = (case sp_active b of Some (Some a) \<Rightarrow> s3\<lparr>sd_active := a\<rparr> | _ \<Rightarrow> s3);
                s5 = (case sp_schedule b of
                        Some (Some c) \<Rightarrow> s4\<lparr>sd_cron := resolve_schedule c, sd_next_run := Some (cr_next cl (resolve_schedule c) now)\<rparr>
                      | _ \<Rightarrow> s4)
            in (Inr s5, put_schedule s5 db))"

text \<open>The runs go with their schedule.\<close>

definition delete_schedule :: "string \<Rightarrow> int \<Rightarrow> schedule_db \<Rightarrow> unit result \<times> schedule_db" where
  "delete_schedule sid uid db =
     (case own_schedule db uid sid of
        Inl e \<Rightarrow> (Inl e, db)
      | Inr s \<Rightarrow> (Inr (), db\<lparr>sb_schedules := filter (\<lambda>x. sd_id x \<noteq> sid) (sb_schedules db),
                              sb_runs := filter (\<lambda>r. sr_schedule r \<noteq> sid) (sb_runs db)\<rparr>))"

definition list_runs :: "(schedule_run list \<Rightarrow> schedule_run list) \<Rightarrow> string \<Rightarrow> int \<Rightarrow> schedule_db \<Rightarrow> schedule_run list result" where
  "list_runs ord sid uid db =
     bindR (own_schedule db uid sid) (\<lambda>s.
       Inr (take 20 (py_sort_key (\<lambda>r. - sr_started r) (set_order ord (filter (\<lambda>r. sr_schedule r = sid) (sb_runs db))))))"

definition start_run :: "string \<Rightarrow> string \<Rightarrow> real \<Rightarrow> schedule_db \<Rightarrow> schedule_db" where
  "start_run rid sid now db =
     db\<lparr>sb_runs := sb_runs db @ [\<lparr>sr_id = rid, sr_schedule = sid, sr_started = now, sr_completed = None, sr_status = ''running'',
                                   sr_file = None, sr_error = None\<rparr>]\<rparr>"

text \<open>A run on request does not ask whether the schedule is active; the value is the run to be executed.\<close>

definition trigger_run :: "string \<Rightarrow> real \<Rightarrow> string \<Rightarrow> int \<Rightarrow> schedule_db \<Rightarrow> string result \<times> schedule_db" where
  "trigger_run rid now sid uid db =
     (case own_schedule db uid sid of Inl e \<Rightarrow> (Inl e, db) | Inr s \<Rightarrow> (Inr rid, start_run rid sid now db))"

definition fire_schedule :: "string \<Rightarrow> real \<Rightarrow> string \<Rightarrow> schedule_db \<Rightarrow> string option \<times> schedule_db" where
  "fire_schedule rid now sid db =
     (case schedule_of db sid of
        None \<Rightarrow> (None, db)
      | Some s \<Rightarrow> if sd_active s then (Some rid, start_run rid sid now db) else (None, db))"

section \<open>Execution\<close>

record run_env =
  rv_model :: string
  \<comment> \<open>the small model, for schedules without one\<close>
  rv_ask :: "string \<Rightarrow> string \<Rightarrow> (bool \<times> string option) result"
  rv_stamp :: string
  rv_saved :: "unit result"
  rv_file :: string
  rv_flush :: bool
  \<comment> \<open>the new file row is accepted\<close>
  rv_done_at :: real
  rv_commit :: bool
  \<comment> \<open>the commit of the success\<close>
  rv_error_commit :: bool
  \<comment> \<open>the commit of the handler of exceptions, whatever raised\<close>
  rv_pool :: bool
  rv_enqueued :: bool
  rv_error :: string

definition output_name :: "string \<Rightarrow> string \<Rightarrow> string" where
  "output_name name stamp = map (\<lambda>c. if c = CHR '' '' then CHR ''_'' else c) (name @ ''_'' @ stamp @ ''.txt'')"

text \<open>
  The handler of exceptions: the session holds what was changed since the last commit, \<open>pending\<close>, with the run as it is in
  memory. If its commit is refused, the tables stay as they were committed.
\<close>

definition failed_run :: "run_env \<Rightarrow> schedule_run \<Rightarrow> schedule_db \<Rightarrow> schedule_db \<Rightarrow> schedule_db" where
  "failed_run rv r pending committed =
     (if rv_error_commit rv
      then set_run (r\<lparr>sr_status := ''error'', sr_error := Some (take 2000 (rv_error rv)), sr_completed := Some (rv_done_at rv)\<rparr>) pending
      else committed)"

text \<open>A flush or commit that is refused rolls the session back; an expression without a next time does not.\<close>

definition execute_scheduled_prompt :: "cron_lib \<Rightarrow> run_env \<Rightarrow> string \<Rightarrow> string \<Rightarrow> schedule_db \<Rightarrow> schedule_db" where
  "execute_scheduled_prompt cl rv sid rid db =
     (case (schedule_of db sid, get_run db rid) of
        (Some s, Some r) \<Rightarrow>
          (case rv_ask rv (case sd_model s of Some (x # xs) \<Rightarrow> x # xs | _ \<Rightarrow> rv_model rv) (sd_prompt s) of
             Inr (True, Some reply) \<Rightarrow>
               (case rv_saved rv of
                  Inl e \<Rightarrow> failed_run rv r db db
                | Inr _ \<Rightarrow>
                    let f = \<lparr>op_id = rv_file rv, op_user = sd_user s, op_name = output_name (sd_name s) (rv_stamp rv), op_content = reply\<rparr>;
                        r1 = r\<lparr>sr_status := ''success'', sr_completed := Some (rv_done_at rv), sr_file := Some (rv_file rv)\<rparr>;
                        db1 = db\<lparr>sb_files := sb_files db @ [f]\<rparr>
                    in if \<not> rv_flush rv then failed_run rv r db db
                       else if \<not> cr_valid cl (sd_cron s) then failed_run rv r1 (put_schedule (s\<lparr>sd_last_run := Some (rv_done_at rv)\<rparr>) db1) db
                       else if \<not> rv_commit rv then failed_run rv r db db
                       else
                         let db2 = set_run r1 (put_schedule (s\<lparr>sd_last_run := Some (rv_done_at rv),
                                     sd_next_run := Some (cr_next cl (sd_cron s) (rv_done_at rv))\<rparr>) db1)
                         in if rv_pool rv \<and> \<not> rv_enqueued rv then failed_run rv r1 db2 db2 else db2)
           | _ \<Rightarrow> failed_run rv r db db)
      | _ \<Rightarrow> db)"

section \<open>The scheduler process\<close>

text \<open>A job has an identifier and a trigger; the jobs the process itself needs have identifiers in underscores.\<close>

type_synonym 't jobs = "(string \<times> 't) list"

definition internal_id :: "string \<Rightarrow> bool" where
  "internal_id j = (startswith j ''__'' \<and> endswith j ''__'')"

definition sync_schedules :: "(string \<Rightarrow> 't option) \<Rightarrow> schedule_db \<Rightarrow> 't jobs \<Rightarrow> 't jobs" where
  "sync_schedules trigger_of db jobs =
     (let actives = filter sd_active (sb_schedules db);
          kept = filter (\<lambda>(j, _). j \<in> sd_id ` set actives \<or> internal_id j) jobs
      in kept @ List.map_filter (\<lambda>s. if sd_id s \<in> fst ` set jobs then None
                                     else map_option (\<lambda>t. (sd_id s, t)) (trigger_of (sd_cron s))) actives)"

datatype 't trigger = Cron 't | Every nat
  \<comment> \<open>minutes\<close>

definition INTERNAL_CRONS :: "(string \<times> string) list" where
  "INTERNAL_CRONS = [(''__compact_memory__'', ''0 3 * * *''), (''__integration_sync__'', ''0 */6 * * *''), (''__catalog_scan__'', ''30 */6 * * *'')]"

text \<open>
  The jobs at the start. A trigger the library refuses is left out for the backup and the digest; for the fixed
  ones it would end the process (\<open>None\<close>).
\<close>

definition scheduler_start :: "(string \<Rightarrow> 't option) \<Rightarrow> nat \<Rightarrow> string \<Rightarrow> string option \<Rightarrow> schedule_db \<Rightarrow> 't trigger jobs option" where
  "scheduler_start trigger_of reap_minutes backup digest db =
     (let cron = (\<lambda>c. map_option Cron (trigger_of c));
          fixed = map (\<lambda>(j, c). (j, cron c)) INTERNAL_CRONS
      in if \<exists>p \<in> set fixed. snd p = None then None
         else Some (sync_schedules cron db []
           @ [(''__sync__'', Every 5)] @ map (\<lambda>(j, t). (j, the t)) (take 1 fixed)
           @ (case cron backup of Some t \<Rightarrow> [(''__backup__'', t)] | None \<Rightarrow> [])
           @ [(''__demo_reap__'', Every reap_minutes)] @ map (\<lambda>(j, t). (j, the t)) (drop 1 fixed)
           @ (case digest of
                Some c \<Rightarrow> (case cron c of Some t \<Rightarrow> [(''__digest__'', t)] | None \<Rightarrow> [])
              | None \<Rightarrow> [])))"

text \<open>What the internal jobs queue, or do.\<close>

definition run_memory_compaction :: "bool \<Rightarrow> memory_db \<Rightarrow> int list" where
  "run_memory_compaction pool md =
     (if \<not> pool then [] else map fst (filter (\<lambda>(_, r). length (split_ws (um_content r)) \<ge> 100) (md_rows md)))"

definition run_integration_sync :: "bool \<Rightarrow> source_table \<Rightarrow> string list" where
  "run_integration_sync pool srcs = (if \<not> pool then [] else map xs_id (filter (\<lambda>x. xs_status x = ''active'') srcs))"

definition run_demo_reap :: "config \<Rightarrow> real \<Rightarrow> (int \<Rightarrow> bool) \<Rightarrow> (string \<Rightarrow> bool) \<Rightarrow> tables \<Rightarrow> nat \<times> tables" where
  "run_demo_reap cfg now graph_up unlink_ok db =
     (if \<not> DEMO_EPHEMERAL_ENABLED cfg then (0, db) else reap_idle_demos cfg now graph_up unlink_ok db)"

text \<open>The digest of one user: the insight it becomes, and whether it is mailed (a mail that fails is not noticed).\<close>

definition digest_user :: "(real \<Rightarrow> string) \<Rightarrow> real \<Rightarrow> notification_prefs option \<Rightarrow> bool \<Rightarrow> string \<Rightarrow> int \<Rightarrow> digest_input \<Rightarrow> digest_input \<times> bool" where
  "digest_user show_date now prefs has_mail fresh uid d =
     (if (case prefs of Some p \<Rightarrow> \<not> np_digest p | None \<Rightarrow> False) then (d, False)
      else case build_digest show_date uid now d of
        None \<Rightarrow> (d, False)
      | Some t \<Rightarrow> (d\<lparr>di_insights := new_insight fresh uid t now # di_insights d\<rparr>, has_mail))"

text \<open>Which old dumps are removed after a successful one.\<close>

definition prune_backups :: "real \<Rightarrow> nat \<Rightarrow> (string \<times> real) list \<Rightarrow> (string \<times> real) list" where
  "prune_backups now keep_days dumps = filter (\<lambda>(_, t). t \<ge> now - of_nat keep_days * 86400) dumps"

section \<open>Jobs follow the table\<close>

definition active_ids :: "schedule_db \<Rightarrow> string set" where
  "active_ids db = sd_id ` set (filter sd_active (sb_schedules db))"

definition ids_ok :: "schedule_db \<Rightarrow> bool" where
  "ids_ok db = (distinct (map sd_id (sb_schedules db)) \<and> (\<forall>s \<in> set (sb_schedules db). \<not> internal_id (sd_id s)))"

lemma map_filter_member: "y \<in> set (List.map_filter f xs) \<longleftrightarrow> (\<exists>x \<in> set xs. f x = Some y)"
  by (induction xs) (auto simp: List.map_filter_def)

lemma sync_member:
  "(j, t) \<in> set (sync_schedules trigger_of db jobs) \<longleftrightarrow>
     (j, t) \<in> set jobs \<and> (j \<in> active_ids db \<or> internal_id j)
     \<or> j \<notin> fst ` set jobs \<and> (\<exists>s \<in> set (sb_schedules db). sd_active s \<and> sd_id s = j \<and> trigger_of (sd_cron s) = Some t)"
  unfolding sync_schedules_def Let_def set_append Un_iff map_filter_member by (auto simp: active_ids_def split: if_splits)

lemma map_filter_ids:
  "distinct (map sd_id xs) \<Longrightarrow> distinct (map fst (List.map_filter (\<lambda>s. if sd_id s \<in> A then None else map_option (\<lambda>t. (sd_id s, t)) (g s)) xs))
    \<and> fst ` set (List.map_filter (\<lambda>s. if sd_id s \<in> A then None else map_option (\<lambda>t. (sd_id s, t)) (g s)) xs) \<subseteq> sd_id ` set xs - A"
  by (induction xs) (auto simp: List.map_filter_def split: option.splits)

lemma sync_distinct:
  assumes "distinct (map fst jobs)" and "ids_ok db"
  shows "distinct (map fst (sync_schedules trigger_of db jobs))"
proof -
  have "distinct (map sd_id (filter sd_active (sb_schedules db)))" using assms(2) by (simp add: ids_ok_def distinct_map_filter)
  from map_filter_ids [OF this, of "fst ` set jobs" "\<lambda>s. trigger_of (sd_cron s)"] assms(1) show ?thesis
    unfolding sync_schedules_def Let_def by (auto simp: distinct_map_filter)
qed

lemma sync_active:
  assumes "s \<in> set (sb_schedules db)" and "sd_active s" and "trigger_of (sd_cron s) = Some t"
  shows "sd_id s \<in> fst ` set (sync_schedules trigger_of db jobs)"
proof (cases "sd_id s \<in> fst ` set jobs")
  case True
  then obtain t0 where t0: "(sd_id s, t0) \<in> set jobs" by auto
  moreover have "sd_id s \<in> active_ids db" using assms(1,2) by (auto simp: active_ids_def)
  ultimately have "(sd_id s, t0) \<in> set (sync_schedules trigger_of db jobs)" by (simp add: sync_member)
  then show ?thesis by force
next
  case False
  with assms have "(sd_id s, t) \<in> set (sync_schedules trigger_of db jobs)" by (auto simp: sync_member)
  then show ?thesis by force
qed

lemma sync_run_internal:
  "internal_id j \<Longrightarrow> (j, t) \<in> set jobs \<Longrightarrow> (j, t) \<in> set (fold (sync_schedules trigger_of) dbs jobs)"
  by (induction dbs arbitrary: jobs) (auto simp: sync_member)

lemma sync_run_distinct:
  "distinct (map fst jobs) \<Longrightarrow> \<forall>db \<in> set dbs. ids_ok db \<Longrightarrow> distinct (map fst (fold (sync_schedules trigger_of) dbs jobs))"
  by (induction dbs arbitrary: jobs) (auto intro: sync_distinct)

text \<open>
  C12. The jobs follow the table: whatever becomes of the table between the synchronisations, after each of them every
  internal job is still there with its trigger, every active schedule with a usable expression has a job, no
  other job is left, and no identifier has two jobs.
\<close>

theorem jobs_follow_table:
  assumes "distinct (map fst jobs)" and "\<forall>db \<in> set dbs \<union> {db}. ids_ok db"
  shows "let jobs' = fold (sync_schedules trigger_of) (dbs @ [db]) jobs in
    (\<forall>j t. internal_id j \<and> (j, t) \<in> set jobs \<longrightarrow> (j, t) \<in> set jobs')
    \<and> (\<forall>s \<in> set (sb_schedules db). sd_active s \<and> trigger_of (sd_cron s) \<noteq> None \<longrightarrow> sd_id s \<in> fst ` set jobs')
    \<and> (\<forall>j \<in> fst ` set jobs'. internal_id j \<or> j \<in> active_ids db)
    \<and> distinct (map fst jobs')"
proof -
  let ?mid = "fold (sync_schedules trigger_of) dbs jobs"
  have "\<forall>j \<in> fst ` set (sync_schedules trigger_of db ?mid). internal_id j \<or> j \<in> active_ids db"
    by (auto simp: sync_member active_ids_def)
  moreover have "distinct (map fst (sync_schedules trigger_of db ?mid))"
    using assms sync_run_distinct [of jobs dbs trigger_of] by (auto intro: sync_distinct)
  moreover have "(j, t) \<in> set (sync_schedules trigger_of db ?mid)" if "internal_id j" "(j, t) \<in> set jobs" for j t
    using sync_run_internal [OF that, of trigger_of "dbs @ [db]"] by simp
  ultimately show ?thesis by (auto simp: Let_def intro: sync_active)
qed

definition daily_prompt :: schedule where
  "daily_prompt = \<lparr>sd_id = ''s1'', sd_user = 1, sd_name = ''News'', sd_prompt = ''What is new?'', sd_cron = ''0 0 * * *'', sd_model = None,
                   sd_active = True, sd_last_run = None, sd_next_run = None\<rparr>"

theorem jobs_follow_table_witness:
  "let db = \<lparr>sb_schedules = [daily_prompt], sb_runs = [], sb_files = []\<rparr>;
       jobs' = fold (sync_schedules Some) ([db\<lparr>sb_schedules := []\<rparr>] @ [db]) [(''__sync__'', ''*'')]
   in (''__sync__'', ''*'') \<in> set jobs' \<and> ''s1'' \<in> fst ` set jobs'"
proof -
  let ?db = "\<lparr>sb_schedules = [daily_prompt], sb_runs = [], sb_files = []\<rparr>"
  have "\<forall>db \<in> set [?db\<lparr>sb_schedules := []\<rparr>] \<union> {?db}. ids_ok db"
    by (simp add: ids_ok_def daily_prompt_def internal_id_def startswith_def)
  from jobs_follow_table [OF _ this, of "[(''__sync__'', ''*'')]" Some] show ?thesis
    by (simp add: Let_def internal_id_def startswith_def endswith_def daily_prompt_def del: fold_append)
qed

lemma sync_pow_keeps: "(j, t) \<in> set jobs \<Longrightarrow> j \<in> active_ids db \<Longrightarrow> (j, t) \<in> set ((sync_schedules trigger_of db ^^ n) jobs)"
  by (induction n) (auto simp: sync_member)

lemma schedule_of_Some: "schedule_of db sid = Some s \<Longrightarrow> s \<in> set (sb_schedules db) \<and> sd_id s = sid"
  by (auto simp: schedule_of_def find_Some_iff)

text \<open>
  C38. A changed schedule keeps its old trigger: after its owner gave an active schedule a new expression, which is stored and
  shown with its next run, every further synchronisation leaves the job with the trigger it had.
\<close>

theorem changed_schedule_keeps_trigger:
  assumes "(sid, t) \<in> set jobs" and "schedule_of db sid = Some s" and "sd_active s"
    and "patch_schedule cl now sid uid \<lparr>sp_name = None, sp_prompt = None, sp_schedule = Some (Some c), sp_model = None, sp_active = None\<rparr> db = (Inr s', db')"
  shows "schedule_of db' sid = Some s' \<and> sd_cron s' = resolve_schedule c \<and> sd_next_run s' = Some (cr_next cl (resolve_schedule c) now)
    \<and> (\<forall>n. (sid, t) \<in> set ((sync_schedules trigger_of db' ^^ n) jobs))"
proof -
  note s = schedule_of_Some [OF assms(2)]
  have s': "s' = s\<lparr>sd_cron := resolve_schedule c, sd_next_run := Some (cr_next cl (resolve_schedule c) now)\<rparr>" and db': "db' = put_schedule s' db"
    using assms(2,4) by (auto simp: patch_schedule_def own_schedule_def Let_def split: if_splits)
  have get: "schedule_of db' sid = Some s'"
  proof -
    have "List.find (\<lambda>s. sd_id s = sid) (map (\<lambda>x. if sd_id x = sid then s' else x) xs) = Some s'" if "\<exists>x \<in> set xs. sd_id x = sid" for xs
      using that s s' by (induction xs) auto
    with s s' show ?thesis unfolding db' by (auto simp: schedule_of_def put_schedule_def)
  qed
  then have "sid \<in> active_ids db'" using assms(3) schedule_of_Some [OF get] s'
    unfolding active_ids_def by (intro image_eqI [of _ _ s']) auto
  with get s' sync_pow_keeps [OF assms(1)] show ?thesis by simp
qed

theorem changed_schedule_keeps_trigger_witness:
  "let db = \<lparr>sb_schedules = [daily_prompt], sb_runs = [], sb_files = []\<rparr>;
       cl = \<lparr>cr_valid = \<lambda>_. True, cr_next = \<lambda>_ t. t + 1\<rparr>;
       db' = snd (patch_schedule cl 0 ''s1'' 1 \<lparr>sp_name = None, sp_prompt = None, sp_schedule = Some (Some ''weekly''), sp_model = None, sp_active = None\<rparr> db)
   in map sd_cron (sb_schedules db') = [''0 0 * * 0''] \<and> (''s1'', ''0 0 * * *'') \<in> set (sync_schedules Some db' (sync_schedules Some db []))"
proof -
  let ?db = "\<lparr>sb_schedules = [daily_prompt], sb_runs = [], sb_files = []\<rparr>"
  let ?cl = "\<lparr>cr_valid = \<lambda>_. True, cr_next = \<lambda>_ t. t + 1\<rparr>"
  let ?b = "\<lparr>sp_name = None, sp_prompt = None, sp_schedule = Some (Some ''weekly''), sp_model = None, sp_active = None\<rparr>"
  let ?s = "daily_prompt\<lparr>sd_cron := ''0 0 * * 0'', sd_next_run := Some 1\<rparr>"
  have jobs: "sync_schedules Some ?db [] = [(''s1'', ''0 0 * * *'')]"
    by (simp add: sync_schedules_def daily_prompt_def List.map_filter_simps)
  have weekly: "resolve_schedule ''weekly'' = ''0 0 * * 0''" by code_simp
  have run: "patch_schedule ?cl 0 ''s1'' 1 ?b ?db = (Inr ?s, ?db\<lparr>sb_schedules := [?s]\<rparr>)"
    using weekly by (simp add: patch_schedule_def patch_valid_def length_ok_def own_schedule_def schedule_of_def put_schedule_def daily_prompt_def Let_def)
  have "schedule_of ?db ''s1'' = Some daily_prompt" "sd_active daily_prompt" by (simp_all add: schedule_of_def daily_prompt_def)
  from changed_schedule_keeps_trigger [OF _ this run, of "''0 0 * * *''" "[(''s1'', ''0 0 * * *'')]" Some]
  have "(''s1'', ''0 0 * * *'') \<in> set ((sync_schedules Some (?db\<lparr>sb_schedules := [?s]\<rparr>) ^^ 1) [(''s1'', ''0 0 * * *'')])" by (metis list.set_intros(1))
  then show ?thesis unfolding Let_def jobs run by simp
qed

section \<open>How a run ends\<close>

lemma get_run_set: "get_run db (sr_id r) = Some r0 \<Longrightarrow> get_run (set_run r db) (sr_id r) = Some r"
proof -
  have "List.find (\<lambda>x. sr_id x = sr_id r) xs = Some r0 \<Longrightarrow> List.find (\<lambda>x. sr_id x = sr_id r) (map (\<lambda>x. if sr_id x = sr_id r then r else x) xs) = Some r" for xs
    by (induction xs) (auto split: if_splits)
  then show "get_run db (sr_id r) = Some r0 \<Longrightarrow> get_run (set_run r db) (sr_id r) = Some r" by (simp add: get_run_def set_run_def)
qed

lemma get_run_keep [simp]: "get_run (put_schedule s db) rid = get_run db rid" "get_run (db\<lparr>sb_files := fs\<rparr>) rid = get_run db rid"
  by (simp_all add: get_run_def put_schedule_def)

lemma files_keep [simp]: "sb_files (put_schedule s db) = sb_files db" "sb_files (set_run r db) = sb_files db"
  by (simp_all add: put_schedule_def set_run_def)

lemma get_run_id: "get_run db rid = Some r \<Longrightarrow> sr_id r = rid"
  by (auto simp: get_run_def find_Some_iff)

lemma set_run_get: "get_run db rid = Some r0 \<Longrightarrow> sr_id r = rid \<Longrightarrow> get_run (set_run r db) rid = Some r"
  using get_run_set [of db r r0] by simp

lemma find_schedule_put:
  "List.find (\<lambda>x. sd_id x = sd_id s) xs = Some s0 \<Longrightarrow> List.find (\<lambda>x. sd_id x = sd_id s) (map (\<lambda>x. if sd_id x = sd_id s then s else x) xs) = Some s"
  by (induction xs) (auto split: if_splits)

lemma schedule_of_keep [simp]: "schedule_of (set_run r db) sid = schedule_of db sid" "schedule_of (db\<lparr>sb_files := fs\<rparr>) sid = schedule_of db sid"
  by (simp_all add: schedule_of_def set_run_def)

lemma schedule_of_put: "schedule_of db sid = Some s0 \<Longrightarrow> sd_id s = sid \<Longrightarrow> schedule_of (put_schedule s db) sid = Some s"
  using find_schedule_put [of s "sb_schedules db" s0] by (simp add: schedule_of_def put_schedule_def)

text \<open>The answer of the model to the prompt, and an execution that reaches its commit and is granted it.\<close>

definition produces :: "run_env \<Rightarrow> schedule \<Rightarrow> string \<Rightarrow> bool" where
  "produces rv s reply = (rv_ask rv (case sd_model s of Some (x # xs) \<Rightarrow> x # xs | _ \<Rightarrow> rv_model rv) (sd_prompt s) = Inr (True, Some reply))"

definition saved_whole :: "cron_lib \<Rightarrow> run_env \<Rightarrow> schedule \<Rightarrow> bool" where
  "saved_whole cl rv s \<longleftrightarrow> rv_saved rv = Inr () \<and> rv_flush rv \<and> cr_valid cl (sd_cron s) \<and> rv_commit rv"

lemma execute_unproduced:
  assumes "schedule_of db sid = Some s" and "get_run db rid = Some r" and "\<nexists>reply. produces rv s reply"
  shows "execute_scheduled_prompt cl rv sid rid db = failed_run rv r db db"
  using assms by (auto simp: execute_scheduled_prompt_def produces_def split: sum.splits option.splits bool.splits prod.splits)

lemma execute_unsaved:
  assumes "schedule_of db sid = Some s" and "get_run db rid = Some r" and "produces rv s reply" and "\<not> saved_whole cl rv s"
  shows "\<exists>r' pending. execute_scheduled_prompt cl rv sid rid db = failed_run rv r' pending db \<and> sr_id r' = rid \<and> get_run pending rid = Some r"
proof (cases "rv_saved rv")
  case (Inl e)
  then have "execute_scheduled_prompt cl rv sid rid db = failed_run rv r db db" using assms by (simp add: execute_scheduled_prompt_def produces_def)
  then show ?thesis using assms(2) get_run_id [OF assms(2)] by blast
next
  case (Inr u)
  let ?f = "\<lparr>op_id = rv_file rv, op_user = sd_user s, op_name = output_name (sd_name s) (rv_stamp rv), op_content = reply\<rparr>"
  let ?r = "r\<lparr>sr_status := ''success'', sr_completed := Some (rv_done_at rv), sr_file := Some (rv_file rv)\<rparr>"
  let ?pending = "put_schedule (s\<lparr>sd_last_run := Some (rv_done_at rv)\<rparr>) (db\<lparr>sb_files := sb_files db @ [?f]\<rparr>)"
  have "execute_scheduled_prompt cl rv sid rid db
      = (if rv_flush rv \<and> \<not> cr_valid cl (sd_cron s) then failed_run rv ?r ?pending db else failed_run rv r db db)"
    using assms Inr by (auto simp: execute_scheduled_prompt_def produces_def saved_whole_def Let_def)
  moreover have "get_run ?pending rid = Some r" "sr_id ?r = rid" using assms(2) get_run_id [OF assms(2)] by simp_all
  ultimately show ?thesis using assms(2) get_run_id [OF assms(2)] by metis
qed

lemma failed_run_settles:
  assumes "get_run pending rid = Some r0" and "sr_id r = rid" and "rv_error_commit rv"
  shows "get_run (failed_run rv r pending committed) rid
    = Some (r\<lparr>sr_status := ''error'', sr_error := Some (take 2000 (rv_error rv)), sr_completed := Some (rv_done_at rv)\<rparr>)"
  using assms by (simp add: failed_run_def set_run_get)

text \<open>
  C39. How an executed run ends. If the model replies and the reply is saved, the row accepted, the next time computed and
  the commit granted, then there is a file of the schedule's owner with the reply, the run points to it and has its time of
  completion, and the schedule has its last and next time; the run is a success, except that it is an error when the notification
  cannot be queued and the commit of the handler is granted. In every other case the run is an error with a time of completion and a
  message of at most 2000 characters, if the commit of the handler is granted; if that is refused, the tables are as they were
  and the run is left running.
\<close>

theorem runs_are_settled:
  assumes "schedule_of db sid = Some s" and "get_run db rid = Some r"
  shows "let db' = execute_scheduled_prompt cl rv sid rid db in
    if (\<exists>reply. produces rv s reply) \<and> saved_whole cl rv s
    then \<exists>f r'. produces rv s (op_content f) \<and> op_user f = sd_user s \<and> sb_files db' = sb_files db @ [f]
      \<and> get_run db' rid = Some r' \<and> sr_file r' = Some (op_id f) \<and> sr_completed r' = Some (rv_done_at rv)
      \<and> sr_status r' = (if rv_pool rv \<and> \<not> rv_enqueued rv \<and> rv_error_commit rv then ''error'' else ''success'')
      \<and> schedule_of db' sid = Some (s\<lparr>sd_last_run := Some (rv_done_at rv), sd_next_run := Some (cr_next cl (sd_cron s) (rv_done_at rv))\<rparr>)
    else if rv_error_commit rv
    then \<exists>r' m. get_run db' rid = Some r' \<and> sr_status r' = ''error'' \<and> sr_error r' = Some m \<and> length m \<le> 2000
      \<and> sr_completed r' = Some (rv_done_at rv)
    else db' = db"
proof (cases "(\<exists>reply. produces rv s reply) \<and> saved_whole cl rv s")
  case True
  then obtain reply where p: "produces rv s reply" by blast
  have ids: "sr_id r = rid" "sd_id s = sid" using assms get_run_id schedule_of_Some by blast+
  let ?f = "\<lparr>op_id = rv_file rv, op_user = sd_user s, op_name = output_name (sd_name s) (rv_stamp rv), op_content = reply\<rparr>"
  let ?r = "r\<lparr>sr_status := ''success'', sr_completed := Some (rv_done_at rv), sr_file := Some (rv_file rv)\<rparr>"
  let ?s = "s\<lparr>sd_last_run := Some (rv_done_at rv), sd_next_run := Some (cr_next cl (sd_cron s) (rv_done_at rv))\<rparr>"
  let ?db2 = "set_run ?r (put_schedule ?s (db\<lparr>sb_files := sb_files db @ [?f]\<rparr>))"
  have run: "execute_scheduled_prompt cl rv sid rid db = (if rv_pool rv \<and> \<not> rv_enqueued rv then failed_run rv ?r ?db2 ?db2 else ?db2)"
    using assms p True by (simp add: execute_scheduled_prompt_def produces_def saved_whole_def Let_def)
  have db2: "get_run ?db2 rid = Some ?r" "schedule_of ?db2 sid = Some ?s" "sb_files ?db2 = sb_files db @ [?f]"
    using assms ids by (simp_all add: set_run_get schedule_of_put)
  show ?thesis using True p db2 ids
    by (auto simp: run failed_run_def set_run_get Let_def intro!: exI [of _ ?f])
next
  case False
  then obtain r' pending where "execute_scheduled_prompt cl rv sid rid db = failed_run rv r' pending db" "sr_id r' = rid" "get_run pending rid = Some r"
    using execute_unproduced [OF assms] execute_unsaved [OF assms] get_run_id assms(2) by blast
  then show ?thesis unfolding Let_def if_not_P [OF False]
    by (cases "rv_error_commit rv") (simp_all add: failed_run_settles, simp add: failed_run_def)
qed

theorem runs_are_settled_witness:
  "let rv = \<lparr>rv_model = ''m'', rv_ask = \<lambda>_ _. Inr (True, Some ''All quiet''), rv_stamp = ''1'', rv_saved = Inr (), rv_file = ''f1'', rv_flush = True, rv_done_at = 5,
             rv_commit = True, rv_error_commit = True, rv_pool = True, rv_enqueued = False, rv_error = ''queue down''\<rparr>;
       db' = execute_scheduled_prompt \<lparr>cr_valid = \<lambda>_. True, cr_next = \<lambda>_ t. t + 1\<rparr> rv ''s1'' ''r1''
               (start_run ''r1'' ''s1'' 4 \<lparr>sb_schedules = [daily_prompt], sb_runs = [], sb_files = []\<rparr>)
   in map_option sr_status (get_run db' ''r1'') = Some ''error'' \<and> map op_content (sb_files db') = [''All quiet'']"
proof -
  let ?rv = "\<lparr>rv_model = ''m'', rv_ask = \<lambda>_ _. Inr (True, Some ''All quiet''), rv_stamp = ''1'', rv_saved = Inr (), rv_file = ''f1'', rv_flush = True, rv_done_at = 5,
             rv_commit = True, rv_error_commit = True, rv_pool = True, rv_enqueued = False, rv_error = ''queue down''\<rparr>"
  let ?db = "start_run ''r1'' ''s1'' 4 \<lparr>sb_schedules = [daily_prompt], sb_runs = [], sb_files = []\<rparr>"
  let ?cl = "\<lparr>cr_valid = \<lambda>_ :: string. True, cr_next = \<lambda>_ t. t + 1\<rparr>"
  have s: "schedule_of ?db ''s1'' = Some daily_prompt" by (simp add: schedule_of_def start_run_def daily_prompt_def)
  obtain r where r: "get_run ?db ''r1'' = Some r" by (simp add: get_run_def start_run_def)
  have empty: "sb_files ?db = []" by (simp add: start_run_def)
  have reply: "produces ?rv daily_prompt x \<longleftrightarrow> x = ''All quiet''" for x by (auto simp: produces_def)
  have "saved_whole ?cl ?rv daily_prompt" by (simp add: saved_whole_def)
  with runs_are_settled [OF s r, of ?cl ?rv] show ?thesis by (auto simp: Let_def reply empty)
qed

end
