(* ===== verification/Graph_Memory.thy ===== *)
theory Graph_Memory
  imports Memory_Sheet
begin

text \<open>
  The graph of what a user has talked about: \<^verbatim>\<open>backend/llm/graph_memory.py\<close> and the endpoints
  \<^verbatim>\<open>backend/api/graph.py\<close>. An entity is known by its user and name, which the constraint of
  \<^verbatim>\<open>backend/core/neo4j_client.py\<close> makes unique; a relation joins two entities of one user. The
  Cypher commands the code uses are definitions on this graph. The model that extracts, JSON
  parsing, the full-text index, the hash of the cache keys, the order in which the database returns
  rows, and whether the databases answer are parameters; a command of the graph database is not
  interrupted. A missing property of a node is \<^const>\<open>None\<close>.
\<close>

section \<open>The graph and its commands\<close>

record graph_entity =
  gn_user :: int
  gn_name :: string
  gn_type :: "string option"
  gn_updated :: real

record graph_rel =
  gl_user :: int
  gl_src :: string
  gl_type :: string
  gl_dst :: string
  gl_updated :: "real option"

record graph =
  gr_entities :: "graph_entity list"
  gr_rels :: "graph_rel list"

definition entities_of :: "int \<Rightarrow> graph \<Rightarrow> graph_entity list" where
  "entities_of uid g = filter (\<lambda>e. gn_user e = uid) (gr_entities g)"

definition has_entity :: "int \<Rightarrow> string \<Rightarrow> graph \<Rightarrow> bool" where
  "has_entity uid n g = list_ex (\<lambda>e. gn_user e = uid \<and> gn_name e = n) (gr_entities g)"

text \<open>\<^verbatim>\<open>DETACH DELETE\<close>: a node goes with its relations.\<close>

definition detach_delete :: "(graph_entity \<Rightarrow> bool) \<Rightarrow> graph \<Rightarrow> graph" where
  "detach_delete P g =
     (let gone = filter P (gr_entities g);
          touches = (\<lambda>r. list_ex (\<lambda>e. gn_user e = gl_user r \<and> (gn_name e = gl_src r \<or> gn_name e = gl_dst r)) gone)
      in \<lparr>gr_entities = filter (\<lambda>e. \<not> P e) (gr_entities g), gr_rels = filter (\<lambda>r. \<not> touches r) (gr_rels g)\<rparr>)"

text \<open>\<^verbatim>\<open>MERGE\<close> of a node with its \<^verbatim>\<open>SET\<close>: the type OTHER is not stored.\<close>

definition merge_entity :: "int \<Rightarrow> real \<Rightarrow> string \<times> string \<Rightarrow> graph \<Rightarrow> graph" where
  "merge_entity uid ts nt g =
     (let (n, t) = nt; put = (\<lambda>e. e\<lparr>gn_type := (if t \<noteq> ''OTHER'' then Some t else gn_type e), gn_updated := ts\<rparr>)
      in if has_entity uid n g
         then g\<lparr>gr_entities := map (\<lambda>e. if gn_user e = uid \<and> gn_name e = n then put e else e) (gr_entities g)\<rparr>
         else g\<lparr>gr_entities := gr_entities g @ [put \<lparr>gn_user = uid, gn_name = n, gn_type = None, gn_updated = ts\<rparr>]\<rparr>)"

text \<open>\<^verbatim>\<open>MERGE\<close> of a relation.\<close>

definition is_edge :: "int \<Rightarrow> string \<Rightarrow> string \<Rightarrow> string \<Rightarrow> graph_rel \<Rightarrow> bool" where
  "is_edge uid s t d r = (gl_user r = uid \<and> gl_src r = s \<and> gl_type r = t \<and> gl_dst r = d)"

definition add_edge :: "int \<Rightarrow> string \<Rightarrow> string \<Rightarrow> string \<Rightarrow> graph_rel list \<Rightarrow> graph_rel list" where
  "add_edge uid s t d rels =
     (if list_ex (is_edge uid s t d) rels then rels
      else rels @ [\<lparr>gl_user = uid, gl_src = s, gl_type = t, gl_dst = d, gl_updated = None\<rparr>])"

definition merge_rel :: "int \<Rightarrow> real \<Rightarrow> string \<times> string \<times> string \<Rightarrow> graph \<Rightarrow> graph" where
  "merge_rel uid ts r g =
     (case r of (s, d, t) \<Rightarrow>
        if has_entity uid s g \<and> has_entity uid d g
        then g\<lparr>gr_rels := map (\<lambda>x. if is_edge uid s t d x then x\<lparr>gl_updated := Some ts\<rparr> else x) (add_edge uid s t d (gr_rels g))\<rparr>
        else g)"

section \<open>The cache of the context\<close>

definition GRAPH_CACHE_TTL :: nat where
  "GRAPH_CACHE_TTL = 60"

type_synonym graph_cache = "(string \<times> string \<times> real) list"

definition graph_prefix :: "int \<Rightarrow> string" where
  "graph_prefix uid = ''graph:'' @ int_str uid @ '':''"

definition graph_key :: "(string \<Rightarrow> string) \<Rightarrow> int \<Rightarrow> string \<Rightarrow> string" where
  "graph_key sha uid t = graph_prefix uid @ take 32 (sha (strip (lower t)))"

definition graph_cache_get :: "bool \<Rightarrow> real \<Rightarrow> string \<Rightarrow> graph_cache \<Rightarrow> string option" where
  "graph_cache_get redis now key c =
     (if \<not> redis then None
      else case dget c key of Some (v, deadline) \<Rightarrow> if now < deadline then Some v else None | None \<Rightarrow> None)"

definition graph_cache_set :: "bool \<Rightarrow> real \<Rightarrow> string \<Rightarrow> string \<Rightarrow> graph_cache \<Rightarrow> graph_cache" where
  "graph_cache_set redis now key v c = (if redis then dset c key (v, now + of_nat GRAPH_CACHE_TTL) else c)"

definition graph_cache_del :: "bool \<Rightarrow> int \<Rightarrow> graph_cache \<Rightarrow> graph_cache" where
  "graph_cache_del redis uid c = (if redis then filter (\<lambda>(k, _). \<not> startswith k (graph_prefix uid)) c else c)"

section \<open>Extraction\<close>

definition MAX_ENTITY_NAME_LEN :: nat where
  "MAX_ENTITY_NAME_LEN = 200"

definition MAX_ENTITIES_PER_CALL :: nat where
  "MAX_ENTITIES_PER_CALL = 30"

definition MAX_RELS_PER_CALL :: nat where
  "MAX_RELS_PER_CALL = 60"

definition MAX_USER_ENTITIES :: nat where
  "MAX_USER_ENTITIES = 500"

definition in_quotes :: "string \<Rightarrow> string" where
  "in_quotes s = [CHR 0x22] @ s @ [CHR 0x22]"

definition EXTRACT_PROMPT :: "string \<Rightarrow> string \<Rightarrow> string" where
  "EXTRACT_PROMPT message response =
     ''Extract entities and relationships from this conversation exchange.'' @ newline @ ''Return ONLY valid JSON:'' @ newline
     @ ''{'' @ in_quotes ''entities'' @ '': [{'' @ in_quotes ''name'' @ '': '' @ in_quotes ''...'' @ '', '' @ in_quotes ''type'' @ '': ''
     @ in_quotes ''PERSON|PLACE|CONCEPT|TECHNOLOGY|ORGANIZATION|EVENT|OTHER'' @ ''}], '' @ in_quotes ''relations'' @ '': [{''
     @ in_quotes ''from'' @ '': '' @ in_quotes ''entity_name'' @ '', '' @ in_quotes ''to'' @ '': '' @ in_quotes ''entity_name'' @ '', ''
     @ in_quotes ''type'' @ '': '' @ in_quotes ''USES|KNOWS|RELATED_TO|CREATED|WORKS_AT|...'' @ ''}]}'' @ newline @ newline
     @ ''User: '' @ message @ newline @ ''Assistant: '' @ response @ newline @ newline @ ''JSON only:''"

text \<open>The text between a leading code fence and the next one, without the name of the language.\<close>

definition unfence :: "string \<Rightarrow> string" where
  "unfence raw =
     (let fence = replicate 3 (CHR 0x60) in
      if \<not> startswith raw fence then raw
      else
        let rest = drop 3 raw; part = (case split_tag fence rest of Some (x, _) \<Rightarrow> x | None \<Rightarrow> rest)
        in if startswith part ''json'' then drop 4 part else part)"

text \<open>\<^verbatim>\<open>(d.get(k) or dflt).strip()\<close>.\<close>

definition text_field :: "pydict \<Rightarrow> string \<Rightarrow> string \<Rightarrow> string result" where
  "text_field d k dflt =
     (case dget d k of
        Some v \<Rightarrow> if truthy v then (case v of PStr s \<Rightarrow> Inr (strip s) | _ \<Rightarrow> Inl (AttributeError ''strip'')) else Inr (strip dflt)
      | None \<Rightarrow> Inr (strip dflt))"

definition as_dict :: "pyval \<Rightarrow> pydict result" where
  "as_dict v = (case v of PDict d \<Rightarrow> Inr d | _ \<Rightarrow> Inl (AttributeError ''get''))"

definition iter_values :: "pyval \<Rightarrow> pyval list result" where
  "iter_values v =
     (case v of PList xs \<Rightarrow> Inr xs | PDict d \<Rightarrow> Inr (map (\<lambda>(k, _). PStr k) d) | PStr s \<Rightarrow> Inr (map (\<lambda>c. PStr [c]) s)
      | _ \<Rightarrow> Inl (TypeError ''not iterable''))"

fun entity_rows :: "pyval list \<Rightarrow> (string \<times> string) list result" where
  "entity_rows [] = Inr []"
| "entity_rows (v # vs) =
     bindR (as_dict v) (\<lambda>d. bindR (text_field d ''name'' []) (\<lambda>n.
       if n \<noteq> [] \<and> length n \<le> MAX_ENTITY_NAME_LEN
       then bindR (text_field d ''type'' ''OTHER'') (\<lambda>t. bindR (entity_rows vs) (\<lambda>rows. Inr ((n, t) # rows)))
       else entity_rows vs))"

definition rel_type :: "string \<Rightarrow> string" where
  "rel_type t = map (\<lambda>c. if c = CHR '' '' then CHR ''_'' else c) (upper t)"

text \<open>Source, target and type of the relations between names of the batch.\<close>

fun rel_rows :: "string list \<Rightarrow> pyval list \<Rightarrow> (string \<times> string \<times> string) list result" where
  "rel_rows names [] = Inr []"
| "rel_rows names (v # vs) =
     bindR (as_dict v) (\<lambda>d. bindR (text_field d ''from'' []) (\<lambda>s.
       if s \<notin> set names then rel_rows names vs
       else bindR (text_field d ''to'' []) (\<lambda>t.
         if t \<notin> set names then rel_rows names vs
         else bindR (text_field d ''type'' ''RELATED_TO'') (\<lambda>k. bindR (rel_rows names vs) (\<lambda>rows. Inr ((s, t, rel_type k) # rows))))))"

text \<open>What a reply asks to store; \<^const>\<open>None\<close> without entities.\<close>

definition extracted :: "pyval \<Rightarrow> ((string \<times> string) list \<times> (string \<times> string \<times> string) list) option result" where
  "extracted v =
     bindR (as_dict v) (\<lambda>d.
       let entities = (case dget d ''entities'' of Some x \<Rightarrow> x | None \<Rightarrow> PList []);
           relations = (case dget d ''relations'' of Some x \<Rightarrow> x | None \<Rightarrow> PList [])
       in if \<not> truthy entities then Inr None
          else bindR (iter_values entities) (\<lambda>es. bindR (entity_rows es) (\<lambda>rows.
            let batch = take MAX_ENTITIES_PER_CALL rows
            in bindR (iter_values relations) (\<lambda>rs. bindR (rel_rows (map fst batch) rs) (\<lambda>rels.
                 Inr (Some (batch, take MAX_RELS_PER_CALL rels)))))))"

text \<open>The oldest entities of a user make room; the count takes every row of the batch as new.\<close>

definition evict_oldest :: "(graph_entity list \<Rightarrow> graph_entity list) \<Rightarrow> int \<Rightarrow> nat \<Rightarrow> graph \<Rightarrow> graph" where
  "evict_oldest ord uid n g =
     (let names = map gn_name (take n (py_sort_key gn_updated (set_order ord (entities_of uid g))))
      in detach_delete (\<lambda>e. gn_user e = uid \<and> gn_name e \<in> set names) g)"

definition store_entities :: "(graph_entity list \<Rightarrow> graph_entity list) \<Rightarrow> int \<Rightarrow> real \<Rightarrow> (string \<times> string) list \<Rightarrow> graph \<Rightarrow> graph" where
  "store_entities ord uid ts batch g =
     (if batch = [] then g
      else fold (merge_entity uid ts) batch
        (let overflow = length (entities_of uid g) + length batch - MAX_USER_ENTITIES
         in if overflow > 0 then evict_oldest ord uid overflow g else g))"

text \<open>\<open>compacting\<close>: Redis tells that a compaction for the user is running. An exception before the first command leaves everything as it is.\<close>

definition extract_and_store :: "bool \<Rightarrow> chat_llm \<Rightarrow> (string \<Rightarrow> pyval option) \<Rightarrow> bool \<Rightarrow> bool \<Rightarrow> (graph_entity list \<Rightarrow> graph_entity list) \<Rightarrow>
    real \<Rightarrow> int \<Rightarrow> string \<Rightarrow> string \<Rightarrow> graph \<times> graph_cache \<Rightarrow> graph \<times> graph_cache" where
  "extract_and_store driver llm json redis compacting ord ts uid message response db =
     (case db of (g, c) \<Rightarrow>
      if \<not> driver then (g, c)
      else case llm ''extract'' (EXTRACT_PROMPT (take 500 message) (take 800 response)) of
        Inl e \<Rightarrow> (g, c)
      | Inr (ok, reply) \<Rightarrow>
          (case json (unfence (content_of reply)) of
             None \<Rightarrow> (g, c)
           | Some v \<Rightarrow>
               (case extracted v of
                  Inr (Some (batch, rels)) \<Rightarrow>
                    if redis \<and> compacting then (g, c)
                    else (fold (merge_rel uid ts) rels (store_entities ord uid ts batch g),
                          if batch = [] then c else graph_cache_del redis uid c)
                | _ \<Rightarrow> (g, c))))"

section \<open>Merging duplicates\<close>

definition norm_name :: "string \<Rightarrow> string" where
  "norm_name name = rev (dropWhile (\<lambda>c. c = CHR ''s'') (rev (join '' '' (split_ws (strip (lower name))))))"

type_synonym name_row = "string \<times> string option"

definition group_by :: "('a \<Rightarrow> string) \<Rightarrow> 'a list \<Rightarrow> (string \<times> 'a list) list" where
  "group_by f rows = fold (\<lambda>x d. dset d (f x) (case dget d (f x) of Some xs \<Rightarrow> xs @ [x] | None \<Rightarrow> [x])) rows []"

definition name_rows :: "(name_row list \<Rightarrow> name_row list) \<Rightarrow> int \<Rightarrow> graph \<Rightarrow> name_row list" where
  "name_rows ord uid g = set_order ord (map (\<lambda>e. (gn_name e, gn_type e)) (entities_of uid g))"

text \<open>The relations from, and to, an entity become relations of the one that is kept; then the entity is deleted.\<close>

definition move_out :: "int \<Rightarrow> string \<Rightarrow> string \<Rightarrow> graph \<Rightarrow> graph" where
  "move_out uid keep dup g =
     (let out = (\<lambda>r. gl_user r = uid \<and> gl_src r = dup)
      in if \<not> has_entity uid keep g then g
         else g\<lparr>gr_rels := filter (\<lambda>r. \<not> out r)
                 (fold (\<lambda>r. add_edge uid keep (gl_type r) (gl_dst r)) (filter out (gr_rels g)) (gr_rels g))\<rparr>)"

definition move_in :: "int \<Rightarrow> string \<Rightarrow> string \<Rightarrow> graph \<Rightarrow> graph" where
  "move_in uid keep dup g =
     (let into = (\<lambda>r. gl_user r = uid \<and> gl_dst r = dup)
      in if \<not> has_entity uid keep g then g
         else g\<lparr>gr_rels := filter (\<lambda>r. \<not> into r)
                 (fold (\<lambda>r. add_edge uid (gl_src r) (gl_type r) keep) (filter into (gr_rels g)) (gr_rels g))\<rparr>)"

definition absorb :: "int \<Rightarrow> string \<Rightarrow> string \<Rightarrow> graph \<Rightarrow> graph" where
  "absorb uid keep dup g =
     detach_delete (\<lambda>e. gn_user e = uid \<and> gn_name e = dup) (move_in uid keep dup (move_out uid keep dup g))"

definition set_entity_type :: "int \<Rightarrow> string \<Rightarrow> string option \<Rightarrow> real \<Rightarrow> graph \<Rightarrow> graph" where
  "set_entity_type uid n t ts g =
     g\<lparr>gr_entities := map (\<lambda>e. if gn_user e = uid \<and> gn_name e = n then e\<lparr>gn_type := t, gn_updated := ts\<rparr> else e) (gr_entities g)\<rparr>"

text \<open>The last type of a group that is not OTHER; a missing type is not OTHER either.\<close>

definition keep_type :: "name_row list \<Rightarrow> string option" where
  "keep_type rows = fold (\<lambda>(_, t) k. if t \<noteq> Some ''OTHER'' then t else k) rows (Some ''OTHER'')"

definition keep_name :: "name_row list \<Rightarrow> string" where
  "keep_name rows = hd (py_sort_key (\<lambda>n. - int (length n)) (map fst rows))"

definition merge_group :: "int \<Rightarrow> real \<Rightarrow> string \<times> name_row list \<Rightarrow> nat \<times> graph \<Rightarrow> nat \<times> graph" where
  "merge_group uid ts kg st =
     (case (kg, st) of ((_, rows), (merged, g)) \<Rightarrow>
        let keep = keep_name rows; dups = filter (\<lambda>n. n \<noteq> keep) (map fst rows)
        in if length rows < 2 \<or> dups = [] then (merged, g)
           else (merged + length dups, fold (absorb uid keep) dups (set_entity_type uid keep (keep_type rows) ts g)))"

text \<open>Substrings, or subsets of the words, after normalisation.\<close>

definition similar :: "string \<Rightarrow> string \<Rightarrow> bool" where
  "similar keep name =
     (let k = norm_name keep; n = norm_name name
      in contains n k \<or> contains k n \<or> set (split_ws n) \<subseteq> set (split_ws k) \<or> set (split_ws k) \<subseteq> set (split_ws n))"

definition merge_type :: "int \<Rightarrow> string \<times> name_row list \<Rightarrow> nat \<times> graph \<Rightarrow> nat \<times> graph" where
  "merge_type uid tg st =
     (case (tg, st) of ((_, rows), (merged, g)) \<Rightarrow>
        let names = map fst (py_sort_key (\<lambda>r. - int (length (fst r))) rows); keep = hd names; dups = filter (similar keep) (tl names)
        in if length rows < 2 \<or> dups = [] then (merged, g)
           else (merged + length dups, fold (absorb uid keep) dups g))"

text \<open>The rows the second pass compares: those with a type.\<close>

definition typed_rows :: "name_row list \<Rightarrow> (string \<times> string) list" where
  "typed_rows rows =
     List.map_filter (\<lambda>(n, t). case t of Some (x # xs) \<Rightarrow> if x # xs = ''OTHER'' then None else Some (n, x # xs) | _ \<Rightarrow> None) rows"

definition merge_passes :: "(name_row list \<Rightarrow> name_row list) \<Rightarrow> (name_row list \<Rightarrow> name_row list) \<Rightarrow> int \<Rightarrow> real \<Rightarrow> graph \<Rightarrow> nat \<times> graph" where
  "merge_passes ord1 ord2 uid ts g =
     (let rows = name_rows ord1 uid g
      in if rows = [] then (0, g)
         else
           let (m1, g1) = fold (merge_group uid ts) (group_by (\<lambda>r. norm_name (fst r)) rows) (0, g);
               by_type = group_by (\<lambda>(_, t). t) (typed_rows (name_rows ord2 uid g1))
           in fold (merge_type uid) (map (\<lambda>(t, rs). (t, map (\<lambda>(n, t). (n, Some t)) rs)) by_type) (m1, g1))"

definition merge_duplicate_entities :: "bool \<Rightarrow> bool \<Rightarrow> (name_row list \<Rightarrow> name_row list) \<Rightarrow> (name_row list \<Rightarrow> name_row list) \<Rightarrow> int \<Rightarrow> real \<Rightarrow>
    graph \<times> graph_cache \<Rightarrow> nat \<times> graph \<times> graph_cache" where
  "merge_duplicate_entities driver redis ord1 ord2 uid ts db =
     (case db of (g, c) \<Rightarrow>
      if \<not> driver then (0, g, c)
      else let (m, g') = merge_passes ord1 ord2 uid ts g in (m, g', if m > 0 then graph_cache_del redis uid c else c))"

section \<open>The context of a question\<close>

definition GRAPH_STOPWORDS :: "string list" where
  "GRAPH_STOPWORDS =
     [''the'', ''this'', ''that'', ''and'', ''for'', ''are'', ''was'', ''has'', ''had'', ''but'', ''not'', ''with'', ''from'', ''they'', ''you'',
      ''its'', ''all'', ''can'', ''just'', ''about'', ''been'', ''what'', ''when'', ''where'', ''who'', ''how'', ''which'', ''will'', ''would'',
      ''could'', ''should'', ''does'', ''into'', ''than'']"

text \<open>The full-text index: the nodes of all users that match, with their scores, or an exception.\<close>

type_synonym full_text = "string \<Rightarrow> (graph_entity \<times> real) list result"

definition show_type :: "string option \<Rightarrow> string" where
  "show_type t = (case t of Some x \<Rightarrow> x | None \<Rightarrow> ''None'')"

definition rels_from :: "(graph_rel list \<Rightarrow> graph_rel list) \<Rightarrow> int \<Rightarrow> graph \<Rightarrow> string \<Rightarrow> graph_rel list" where
  "rels_from ord uid g n = set_order ord (filter (\<lambda>r. gl_user r = uid \<and> gl_src r = n) (gr_rels g))"

definition context_line :: "graph_entity \<Rightarrow> graph_rel list \<Rightarrow> string" where
  "context_line e rels =
     ''- '' @ gn_name e @ '' ('' @ show_type (gn_type e) @ '')''
     @ (let rs = filter (\<lambda>r. gl_dst r \<noteq> []) rels
        in if rs = [] then [] else '': '' @ join '', '' (map (\<lambda>r. gl_type r @ '' '' @ gl_dst r) (take 4 rs)))"

text \<open>The value is stored for a minute when it is not empty; an exception gives the empty context.\<close>

definition query_context :: "bool \<Rightarrow> bool \<Rightarrow> (string \<Rightarrow> string) \<Rightarrow> (real \<Rightarrow> string) \<Rightarrow> full_text \<Rightarrow> (graph_rel list \<Rightarrow> graph_rel list) \<Rightarrow> real \<Rightarrow>
    int \<Rightarrow> string \<Rightarrow> nat \<Rightarrow> real \<Rightarrow> graph \<times> graph_cache \<Rightarrow> string \<times> graph_cache" where
  "query_context driver redis sha show_score ft ord now uid query limit min_score db =
     (case db of (g, c) \<Rightarrow>
        let ws = filter (\<lambda>w. length w > 2) (split_ws query);
            key = graph_key sha uid (''ctx:'' @ query @ '':'' @ nat_str limit @ '':'' @ show_score min_score)
        in if \<not> driver \<or> ws = [] then ([], c)
           else case graph_cache_get redis now key c of
             Some v \<Rightarrow> (v, c)
           | None \<Rightarrow>
               (case ft (join '' '' ws) of
                  Inl e \<Rightarrow> ([], c)
                | Inr hits \<Rightarrow>
                    let rows = take limit (py_sort_key (\<lambda>h. - snd h) (filter (\<lambda>(e, score). gn_user e = uid \<and> score \<ge> min_score) hits));
                        output = join_lines (map (\<lambda>(e, _). context_line e (rels_from ord uid g (gn_name e))) rows)
                    in if rows = [] then ([], c) else (output, graph_cache_set redis now key output c)))"

definition query_by_term :: "bool \<Rightarrow> bool \<Rightarrow> (string \<Rightarrow> string) \<Rightarrow> (real \<Rightarrow> string) \<Rightarrow> full_text \<Rightarrow> (graph_rel list \<Rightarrow> graph_rel list) \<Rightarrow> real \<Rightarrow>
    int \<Rightarrow> string \<Rightarrow> graph \<times> graph_cache \<Rightarrow> string \<times> graph_cache" where
  "query_by_term driver redis sha show_score ft ord now uid term db =
     query_context driver redis sha show_score ft ord now uid term 10 (1 / 2) db"

text \<open>The arrow of a line is outside the alphabet, like the dash.\<close>

definition fact_line :: "string \<times> string \<times> string \<Rightarrow> string" where
  "fact_line x = (case x of (s, t, d) \<Rightarrow> s @ '' --['' @ t @ '']'' @ [CHR 0x9A] @ '' '' @ d)"

definition query_by_keywords :: "bool \<Rightarrow> bool \<Rightarrow> (string \<Rightarrow> string) \<Rightarrow> full_text \<Rightarrow> (graph_rel list \<Rightarrow> graph_rel list) \<Rightarrow> real \<Rightarrow>
    int \<Rightarrow> string \<Rightarrow> nat \<Rightarrow> graph \<times> graph_cache \<Rightarrow> string \<times> graph_cache" where
  "query_by_keywords driver redis sha ft ord now uid query limit db =
     (case db of (g, c) \<Rightarrow>
        let ws = filter (\<lambda>w. length w > 2 \<and> lower w \<notin> set GRAPH_STOPWORDS) (split_ws query);
            key = graph_key sha uid (''kw:'' @ query @ '':'' @ nat_str limit)
        in if \<not> driver \<or> ws = [] then ([], c)
           else case graph_cache_get redis now key c of
             Some v \<Rightarrow> (v, c)
           | None \<Rightarrow>
               (case ft (join '' '' ws) of
                  Inl e \<Rightarrow> ([], c)
                | Inr hits \<Rightarrow>
                    let row_of = (\<lambda>(e, score). map (\<lambda>r. (gn_name e, gl_type r, gl_dst r, score)) (rels_from ord uid g (gn_name e))
                                   @ (if rels_from ord uid g (gn_name e) = [] then [(gn_name e, [], [], score)] else []));
                        rows = take limit (py_sort_key (\<lambda>(_, _, _, score). - score) (concat (map row_of (filter (\<lambda>(e, _). gn_user e = uid) hits))));
                        triples = remdups (rev (map (\<lambda>(s, t, d, _). (s, t, d)) (filter (\<lambda>(s, t, d, _). s \<noteq> [] \<and> t \<noteq> [] \<and> d \<noteq> []) rows)));
                        output = join_lines (map fact_line (rev triples))
                    in if triples = [] then ([], c) else (output, graph_cache_set redis now key output c)))"

section \<open>Endpoints\<close>

definition graph_stats :: "bool \<Rightarrow> int \<Rightarrow> graph \<Rightarrow> bool \<times> nat \<times> nat" where
  "graph_stats driver uid g =
     (if \<not> driver then (False, 0, 0)
      else (True, length (entities_of uid g), length (filter (\<lambda>r. gl_user r = uid) (gr_rels g))))"

definition delete_entity :: "bool \<Rightarrow> bool \<Rightarrow> string \<Rightarrow> int \<Rightarrow> graph \<times> graph_cache \<Rightarrow> nat result \<times> graph \<times> graph_cache" where
  "delete_entity driver redis name uid db =
     (case db of (g, c) \<Rightarrow>
      if \<not> driver then (Inl (HTTPException 503 ''Graph unavailable''), g, c)
      else
        let P = (\<lambda>e. gn_user e = uid \<and> gn_name e = name); n = length (filter P (gr_entities g))
        in (if n = 0 then Inl (HTTPException 404 ''Entity not found'') else Inr n, detach_delete P g, graph_cache_del redis uid c))"

text \<open>A missing type is not equal to OTHER in Cypher.\<close>

definition prune_graph :: "bool \<Rightarrow> bool \<Rightarrow> real \<Rightarrow> int \<Rightarrow> graph \<times> graph_cache \<Rightarrow> nat result \<times> graph \<times> graph_cache" where
  "prune_graph driver redis now uid db =
     (case db of (g, c) \<Rightarrow>
      if \<not> driver then (Inl (HTTPException 503 ''Graph unavailable''), g, c)
      else
        let P = (\<lambda>e. gn_user e = uid \<and> (length (gn_name e) > MAX_ENTITY_NAME_LEN
                                          \<or> gn_type e = Some ''OTHER'' \<and> gn_updated e < now - 7 * 86400))
        in (Inr (length (filter P (gr_entities g))), detach_delete P g, graph_cache_del redis uid c))"

text \<open>A hard reset of the memory, or the removal of a demo account, deletes the graph of the user.\<close>

definition clear_graph :: "bool \<Rightarrow> bool \<Rightarrow> int \<Rightarrow> graph \<times> graph_cache \<Rightarrow> graph \<times> graph_cache" where
  "clear_graph driver redis uid db =
     (case db of (g, c) \<Rightarrow> if driver then (detach_delete (\<lambda>e. gn_user e = uid) g, graph_cache_del redis uid c) else (g, c))"

section \<open>Well-formed graphs\<close>

definition node :: "graph_entity \<Rightarrow> int \<times> string" where
  "node e = (gn_user e, gn_name e)"

definition edge :: "graph_rel \<Rightarrow> int \<times> string \<times> string \<times> string" where
  "edge r = (gl_user r, gl_src r, gl_type r, gl_dst r)"

definition nodes :: "graph \<Rightarrow> (int \<times> string) set" where
  "nodes g = node ` set (gr_entities g)"

definition edges :: "graph \<Rightarrow> (int \<times> string \<times> string \<times> string) set" where
  "edges g = edge ` set (gr_rels g)"

definition entity_ok :: "graph_entity \<Rightarrow> bool" where
  "entity_ok e = (gn_name e \<noteq> [] \<and> length (gn_name e) \<le> MAX_ENTITY_NAME_LEN \<and> gn_type e \<noteq> Some ''OTHER'')"

text \<open>Names are unique for a user, relations join existing entities, none is there twice.\<close>

definition graph_wf :: "graph \<Rightarrow> bool" where
  "graph_wf g =
     (distinct (map node (gr_entities g)) \<and> list_all entity_ok (gr_entities g) \<and> distinct (map edge (gr_rels g))
      \<and> (\<forall>(u, s, t, d) \<in> edges g. (u, s) \<in> nodes g \<and> (u, d) \<in> nodes g))"

lemma has_entity_iff: "has_entity uid n g \<longleftrightarrow> (uid, n) \<in> nodes g"
  by (auto simp: has_entity_def nodes_def node_def list_ex_iff image_iff)

lemma is_edge_iff: "is_edge uid s t d r \<longleftrightarrow> edge r = (uid, s, t, d)"
  by (auto simp: is_edge_def edge_def)

lemma map_filter_distinct: "distinct (map f xs) \<Longrightarrow> distinct (map f (filter P xs))"
  by (induction xs) auto

lemma nodes_detach: "nodes (detach_delete P g) = node ` {e \<in> set (gr_entities g). \<not> P e}"
  by (simp add: nodes_def detach_delete_def Let_def)

lemma edges_detach:
  "edges (detach_delete P g) = {x \<in> edges g. case x of (u, s, t, d) \<Rightarrow>
     (u, s) \<notin> node ` {e \<in> set (gr_entities g). P e} \<and> (u, d) \<notin> node ` {e \<in> set (gr_entities g). P e}}"
  by (auto simp: edges_def edge_def node_def detach_delete_def Let_def list_ex_iff image_iff; metis)

lemma nodes_split: "distinct (map node (gr_entities g)) \<Longrightarrow>
    node ` {e \<in> set (gr_entities g). \<not> P e} = nodes g - node ` {e \<in> set (gr_entities g). P e}"
  by (auto simp: nodes_def distinct_map inj_on_def)

lemma wf_detach: "graph_wf g \<Longrightarrow> graph_wf (detach_delete P g)"
proof -
  assume wf: "graph_wf g"
  then have ns: "node ` {e \<in> set (gr_entities g). \<not> P e} = nodes g - node ` {e \<in> set (gr_entities g). P e}"
    by (intro nodes_split) (simp add: graph_wf_def)
  from wf have "\<forall>(u, s, t, d) \<in> edges (detach_delete P g). (u, s) \<in> nodes (detach_delete P g) \<and> (u, d) \<in> nodes (detach_delete P g)"
    unfolding nodes_detach edges_detach ns by (auto simp: graph_wf_def)
  moreover have "distinct (map node (gr_entities (detach_delete P g)))" "list_all entity_ok (gr_entities (detach_delete P g))"
    "distinct (map edge (gr_rels (detach_delete P g)))"
    using wf by (auto simp: graph_wf_def detach_delete_def Let_def list_all_iff intro: map_filter_distinct)
  ultimately show ?thesis by (simp add: graph_wf_def)
qed

lemma count_detach: "length (entities_of uid (detach_delete P g)) \<le> length (entities_of uid g)"
proof -
  have "length (filter Q (filter R xs)) \<le> length (filter Q xs)" for Q R :: "graph_entity \<Rightarrow> bool" and xs
    by (induction xs) auto
  then show ?thesis by (simp add: entities_of_def detach_delete_def Let_def)
qed

lemma nodes_map: "nodes g = set (map node (gr_entities g))"
  by (simp add: nodes_def)

lemma node_list_merge_entity:
  "map node (gr_entities (merge_entity uid ts (n, t) g)) = map node (gr_entities g) @ (if has_entity uid n g then [] else [(uid, n)])"
  by (auto simp: merge_entity_def node_def Let_def)

lemma nodes_merge_entity: "nodes (merge_entity uid ts (n, t) g) = insert (uid, n) (nodes g)"
  unfolding nodes_map node_list_merge_entity by (auto simp: has_entity_iff nodes_def)

lemma wf_merge_entity:
  assumes "graph_wf g" and "n \<noteq> []" and "length n \<le> MAX_ENTITY_NAME_LEN"
  shows "graph_wf (merge_entity uid ts (n, t) g)"
proof -
  have rels: "edges (merge_entity uid ts (n, t) g) = edges g" "gr_rels (merge_entity uid ts (n, t) g) = gr_rels g"
    by (simp_all add: merge_entity_def edges_def Let_def)
  have "distinct (map node (gr_entities (merge_entity uid ts (n, t) g)))"
    unfolding node_list_merge_entity using assms(1) by (auto simp: graph_wf_def has_entity_iff nodes_def)
  moreover have "list_all entity_ok (gr_entities (merge_entity uid ts (n, t) g))"
    using assms by (auto simp: merge_entity_def graph_wf_def list_all_iff entity_ok_def)
  ultimately show ?thesis using assms(1) by (auto simp: graph_wf_def rels nodes_merge_entity)
qed

lemma count_nodes: "length (entities_of u g) = length (filter (\<lambda>x. fst x = u) (map node (gr_entities g)))"
  by (simp add: entities_of_def node_def filter_map comp_def)

lemma count_merge_entity:
  "length (entities_of u (merge_entity uid ts nt g)) = length (entities_of u g) + (if u = uid \<and> \<not> has_entity uid (fst nt) g then 1 else 0)"
  by (cases nt) (auto simp: count_nodes node_list_merge_entity)

lemma edges_add: "edge ` set (add_edge uid s t d rels) = insert (uid, s, t, d) (edge ` set rels)"
  by (auto simp: add_edge_def list_ex_iff is_edge_iff edge_def image_iff)

lemma distinct_add: "distinct (map edge rels) \<Longrightarrow> distinct (map edge (add_edge uid s t d rels))"
  by (auto simp: add_edge_def list_ex_iff is_edge_iff edge_def)

lemma wf_merge_rel: "graph_wf g \<Longrightarrow> graph_wf (merge_rel uid ts r g)"
proof -
  assume wf: "graph_wf g"
  obtain s d t where r: "r = (s, d, t)" by (cases r)
  have keep: "map edge (map (\<lambda>x. if P x then x\<lparr>gl_updated := v\<rparr> else x) rels) = map edge rels" for P v rels
    by (auto simp: edge_def)
  show ?thesis
  proof (cases "has_entity uid s g \<and> has_entity uid d g")
    case True
    let ?g = "merge_rel uid ts r g"
    have keys: "map edge (gr_rels ?g) = map edge (add_edge uid s t d (gr_rels g))" using True by (simp add: merge_rel_def r keep del: map_map)
    have "edges ?g = set (map edge (gr_rels ?g))" by (simp add: edges_def)
    also have "\<dots> = insert (uid, s, t, d) (edges g)" by (simp only: keys) (simp add: edges_add edges_def)
    finally have "edges ?g = insert (uid, s, t, d) (edges g)" .
    moreover have "nodes ?g = nodes g" "gr_entities ?g = gr_entities g" by (simp_all add: merge_rel_def r nodes_def)
    moreover have "distinct (map edge (gr_rels ?g))" unfolding keys using wf by (intro distinct_add) (simp add: graph_wf_def)
    ultimately show ?thesis using wf True by (auto simp: graph_wf_def has_entity_iff)
  qed (use wf in \<open>auto simp: merge_rel_def r\<close>)
qed

section \<open>A bounded graph\<close>

lemma filter_notin_count:
  assumes "distinct (map f es)" and "distinct ns" and "set ns \<subseteq> f ` set es"
  shows "length (filter (\<lambda>e. f e \<notin> set ns) es) + length ns = length es"
proof -
  have "length (filter (\<lambda>e. f e \<notin> set ns) es) = card (f ` {e \<in> set es. f e \<notin> set ns})"
    using map_filter_distinct [OF assms(1), of "\<lambda>e. f e \<notin> set ns"] distinct_card by fastforce
  also have "f ` {e \<in> set es. f e \<notin> set ns} = f ` set es - set ns" by auto
  also have "card \<dots> = card (f ` set es) - card (set ns)" using assms(3) by (intro card_Diff_subset) auto
  also have "\<dots> = length es - length ns" using distinct_card [OF assms(1)] distinct_card [OF assms(2)] by simp
  finally have "length (filter (\<lambda>e. f e \<notin> set ns) es) = length es - length ns" .
  moreover have "length ns \<le> length es"
    using card_mono [of "f ` set es" "set ns"] assms(3) distinct_card [OF assms(1)] distinct_card [OF assms(2)] by simp
  ultimately show ?thesis by simp
qed

lemma entities_detach: "entities_of u (detach_delete P g) = filter (\<lambda>e. \<not> P e) (entities_of u g)"
  by (simp add: entities_of_def detach_delete_def Let_def conj_commute)

lemma user_names_distinct: "graph_wf g \<Longrightarrow> distinct (map gn_name (entities_of uid g))"
proof -
  assume "graph_wf g"
  then have "distinct (map node (filter (\<lambda>e. gn_user e = uid) (gr_entities g)))"
    by (intro map_filter_distinct) (simp add: graph_wf_def)
  then show ?thesis by (auto simp: entities_of_def distinct_map inj_on_def node_def)
qed

lemma set_order_set [simp]: "set (set_order ord xs) = set xs"
  by (metis set_mset_mset set_order_def)

lemma set_order_mset [simp]: "mset (set_order ord xs) = mset xs"
  by (simp add: set_order_def)

lemma distinct_map_set_order: "distinct (map f (set_order ord xs)) = distinct (map f xs)"
  by (metis mset_eq_imp_distinct_iff mset_map set_order_mset)

lemma count_evict:
  assumes "graph_wf g" and "n \<le> length (entities_of uid g)"
  shows "length (entities_of u (evict_oldest ord uid n g)) = length (entities_of u g) - (if u = uid then n else 0)"
proof (cases "u = uid")
  case True
  let ?es = "entities_of uid g"
  let ?ns = "map gn_name (take n (py_sort_key gn_updated (set_order ord ?es)))"
  have "distinct (map gn_name (py_sort_key gn_updated (set_order ord ?es)))"
    using user_names_distinct [OF assms(1)] by (simp add: distinct_map_set_order)
  then have "distinct ?ns" by (metis distinct_take take_map)
  moreover have "set ?ns \<subseteq> gn_name ` set ?es" by (auto dest!: in_set_takeD)
  moreover have "filter (\<lambda>e. \<not> (gn_user e = uid \<and> gn_name e \<in> set ?ns)) ?es = filter (\<lambda>e. gn_name e \<notin> set ?ns) ?es"
    by (intro filter_cong) (auto simp: entities_of_def)
  moreover have "length ?ns = n"
    using assms(2) by (metis length_map length_py_sort_key length_take min.absorb2 set_order_mset size_mset)
  ultimately show ?thesis
    using filter_notin_count [OF user_names_distinct [OF assms(1)], of ?ns uid] True
    by (simp add: evict_oldest_def entities_detach Let_def)
next
  case False
  then have "filter (\<lambda>e. \<not> (gn_user e = uid \<and> gn_name e \<in> ns)) (entities_of u g) = entities_of u g" for ns
    by (auto simp: entities_of_def intro!: filter_cong)
  with False show ?thesis by (simp add: evict_oldest_def entities_detach Let_def)
qed

lemma wf_evict: "graph_wf g \<Longrightarrow> graph_wf (evict_oldest ord uid n g)"
  by (simp add: evict_oldest_def Let_def wf_detach)

definition batch_ok :: "(string \<times> string) list \<Rightarrow> bool" where
  "batch_ok batch = list_all (\<lambda>(n, _). n \<noteq> [] \<and> length n \<le> MAX_ENTITY_NAME_LEN) batch"

lemma batch_ok_simps [simp]: "batch_ok []" "batch_ok ((n, t) # b) \<longleftrightarrow> n \<noteq> [] \<and> length n \<le> MAX_ENTITY_NAME_LEN \<and> batch_ok b"
  by (auto simp: batch_ok_def)

lemma wf_merge_entities: "graph_wf g \<Longrightarrow> batch_ok batch \<Longrightarrow> graph_wf (fold (merge_entity uid ts) batch g)"
  by (induction batch arbitrary: g) (auto simp: wf_merge_entity)

lemma count_merge_entities:
  "length (entities_of u (fold (merge_entity uid ts) batch g)) \<le> length (entities_of u g) + (if u = uid then length batch else 0)"
proof (induction batch arbitrary: g)
  case (Cons nt batch)
  show ?case using Cons.IH [of "merge_entity uid ts nt g"] count_merge_entity [of u uid ts nt g] by (auto split: if_splits)
qed simp

definition few_entities :: "graph \<Rightarrow> bool" where
  "few_entities g = (\<forall>uid. length (entities_of uid g) \<le> MAX_USER_ENTITIES)"

lemma store_entities_ok:
  assumes "graph_wf g" and "few_entities g" and "batch_ok batch" and "length batch \<le> MAX_ENTITIES_PER_CALL"
  shows "graph_wf (store_entities ord uid ts batch g) \<and> few_entities (store_entities ord uid ts batch g)"
proof (cases "batch = []")
  case False
  let ?over = "length (entities_of uid g) + length batch - MAX_USER_ENTITIES"
  let ?g = "if ?over > 0 then evict_oldest ord uid ?over g else g"
  have wf: "graph_wf ?g" using assms(1) wf_evict by simp
  have le: "?over \<le> length (entities_of uid g)" using assms(4) by (simp add: MAX_ENTITIES_PER_CALL_def MAX_USER_ENTITIES_def)
  have "length (entities_of u ?g) + (if u = uid then length batch else 0) \<le> MAX_USER_ENTITIES" for u
    using count_evict [OF assms(1) le, of u ord] assms(2,4)
    by (auto simp: few_entities_def MAX_ENTITIES_PER_CALL_def MAX_USER_ENTITIES_def split: if_splits)
  then have "length (entities_of u (fold (merge_entity uid ts) batch ?g)) \<le> MAX_USER_ENTITIES" for u
    using count_merge_entities [of u uid ts batch ?g] by (meson le_trans)
  with wf_merge_entities [OF wf assms(3)] False show ?thesis
    by (simp only: store_entities_def few_entities_def Let_def if_False simp_thms)
qed (use assms in \<open>simp add: store_entities_def\<close>)

lemma merge_rels_ok:
  "graph_wf g \<Longrightarrow> graph_wf (fold (merge_rel uid ts) rels g) \<and> entities_of u (fold (merge_rel uid ts) rels g) = entities_of u g"
proof (induction rels arbitrary: g)
  case (Cons r rels)
  have "entities_of u (merge_rel uid ts r g) = entities_of u g"
    by (cases r) (auto simp: merge_rel_def entities_of_def)
  with Cons.IH [OF wf_merge_rel [OF Cons.prems]] show ?case by simp
qed simp

lemma entity_rows_ok: "entity_rows vs = Inr rows \<Longrightarrow> batch_ok rows"
  by (induction vs arbitrary: rows rule: entity_rows.induct) (auto simp: bindR_def split: sum.splits if_splits)

lemma extracted_ok: "extracted v = Inr (Some (batch, rels)) \<Longrightarrow> batch_ok batch \<and> length batch \<le> MAX_ENTITIES_PER_CALL"
  by (auto simp: extracted_def bindR_def Let_def batch_ok_def list_all_iff split: sum.splits if_splits
    dest!: in_set_takeD entity_rows_ok)

lemma extract_ok:
  assumes "graph_wf g" and "few_entities g" and "extract_and_store driver llm json redis compacting ord ts uid message response (g, c) = (g', c')"
  shows "graph_wf g' \<and> few_entities g'"
proof (cases "g' = g")
  case False
  then obtain v batch rels where v: "extracted v = Inr (Some (batch, rels))"
    and g': "g' = fold (merge_rel uid ts) rels (store_entities ord uid ts batch g)"
    using assms(3) by (auto simp: extract_and_store_def split: if_splits sum.splits option.splits)
  have ok: "graph_wf (store_entities ord uid ts batch g) \<and> few_entities (store_entities ord uid ts batch g)"
    using extracted_ok [OF v] assms(1,2) by (intro store_entities_ok) auto
  then have "entities_of u g' = entities_of u (store_entities ord uid ts batch g)" for u
    unfolding g' by (intro merge_rels_ok [THEN conjunct2]) simp
  with ok show ?thesis unfolding g' by (auto simp: few_entities_def intro: merge_rels_ok [THEN conjunct1])
qed (use assms in simp)

section \<open>Merging is a quotient\<close>

definition rename_node :: "int \<Rightarrow> (string \<Rightarrow> string) \<Rightarrow> int \<times> string \<Rightarrow> int \<times> string" where
  "rename_node uid \<rho> x = (case x of (u, n) \<Rightarrow> (u, if u = uid then \<rho> n else n))"

definition rename_edge :: "int \<Rightarrow> (string \<Rightarrow> string) \<Rightarrow> int \<times> string \<times> string \<times> string \<Rightarrow> int \<times> string \<times> string \<times> string" where
  "rename_edge uid \<rho> x = (case x of (u, s, t, d) \<Rightarrow> (u, if u = uid then \<rho> s else s, t, if u = uid then \<rho> d else d))"

text \<open>The second graph is the first one with the names of a user replaced; what is left stands for itself.\<close>

definition quotient_of :: "int \<Rightarrow> (string \<Rightarrow> string) \<Rightarrow> graph \<Rightarrow> graph \<Rightarrow> bool" where
  "quotient_of uid \<rho> g g' =
     (nodes g' = rename_node uid \<rho> ` nodes g \<and> edges g' = rename_edge uid \<rho> ` edges g
      \<and> nodes g' \<subseteq> nodes g \<and> (\<forall>n. (uid, n) \<in> nodes g' \<longrightarrow> \<rho> n = n) \<and> (\<forall>u. u \<noteq> uid \<longrightarrow> entities_of u g' = entities_of u g))"

lemma quotient_same: "nodes g' = nodes g \<Longrightarrow> edges g' = edges g \<Longrightarrow> (\<And>u. u \<noteq> uid \<Longrightarrow> entities_of u g' = entities_of u g)
    \<Longrightarrow> quotient_of uid (\<lambda>n. n) g g'"
  by (auto simp: quotient_of_def rename_node_def rename_edge_def image_iff)

lemma quotient_trans:
  assumes "quotient_of uid \<rho>1 g g1" and "quotient_of uid \<rho>2 g1 g2"
  shows "quotient_of uid (\<rho>2 \<circ> \<rho>1) g g2"
proof -
  have "rename_node uid \<rho>2 \<circ> rename_node uid \<rho>1 = rename_node uid (\<rho>2 \<circ> \<rho>1)"
    "rename_edge uid \<rho>2 \<circ> rename_edge uid \<rho>1 = rename_edge uid (\<rho>2 \<circ> \<rho>1)"
    by (auto simp: rename_node_def rename_edge_def)
  then have comp: "rename_node uid (\<rho>2 \<circ> \<rho>1) ` X = rename_node uid \<rho>2 ` rename_node uid \<rho>1 ` X"
    "rename_edge uid (\<rho>2 \<circ> \<rho>1) ` Y = rename_edge uid \<rho>2 ` rename_edge uid \<rho>1 ` Y" for X Y
    by (simp_all add: image_comp)
  note q1 = assms(1) [unfolded quotient_of_def] and q2 = assms(2) [unfolded quotient_of_def]
  have "(\<rho>2 \<circ> \<rho>1) n = n" if "(uid, n) \<in> nodes g2" for n
    using that q1 q2 by (metis comp_apply subsetD)
  moreover have "nodes g2 \<subseteq> nodes g" using q1 q2 by (meson subset_trans)
  ultimately show ?thesis unfolding quotient_of_def comp using q1 q2 by simp
qed

lemma fold_add_edges:
  "edge ` set (fold (\<lambda>r. add_edge uid (f r) (gl_type r) (h r)) out rels) = edge ` set rels \<union> (\<lambda>r. (uid, f r, gl_type r, h r)) ` set out"
  by (induction out arbitrary: rels) (auto simp: edges_add)

lemma fold_add_distinct:
  "distinct (map edge rels) \<Longrightarrow> distinct (map edge (fold (\<lambda>r. add_edge uid (f r) (gl_type r) (h r)) out rels))"
  by (induction out arbitrary: rels) (auto simp: distinct_add)

lemma redirect_set:
  "(\<And>x. P x \<Longrightarrow> \<not> P (f x)) \<Longrightarrow> {x \<in> E \<union> f ` {x \<in> E. P x}. \<not> P x} = (\<lambda>x. if P x then f x else x) ` E"
  by auto

definition leaves :: "int \<Rightarrow> string \<Rightarrow> int \<times> string \<times> string \<times> string \<Rightarrow> bool" where
  "leaves uid n x = (case x of (u, s, _) \<Rightarrow> u = uid \<and> s = n)"

definition enters :: "int \<Rightarrow> string \<Rightarrow> int \<times> string \<times> string \<times> string \<Rightarrow> bool" where
  "enters uid n x = (case x of (u, _, _, d) \<Rightarrow> u = uid \<and> d = n)"

lemma edges_move_out:
  assumes "has_entity uid keep g" and "keep \<noteq> dup"
  shows "edges (move_out uid keep dup g) = (\<lambda>x. if leaves uid dup x then (\<lambda>(u, s, t, d). (u, keep, t, d)) x else x) ` edges g"
proof -
  let ?out = "\<lambda>r. gl_user r = uid \<and> gl_src r = dup" and ?f = "\<lambda>(u :: int, s :: string, t :: string, d :: string). (u, keep, t, d)"
  let ?all = "edge ` set (fold (\<lambda>r. add_edge uid keep (gl_type r) (gl_dst r)) (filter ?out (gr_rels g)) (gr_rels g))"
  have "edges (move_out uid keep dup g) = {x \<in> ?all. \<not> leaves uid dup x}"
    using assms(1) by (auto simp: move_out_def edges_def edge_def leaves_def)
  also have "?all = edges g \<union> ?f ` {x \<in> edges g. leaves uid dup x}"
    unfolding fold_add_edges by (auto simp: edges_def edge_def leaves_def image_iff)
  also have "{x \<in> \<dots>. \<not> leaves uid dup x} = (\<lambda>x. if leaves uid dup x then ?f x else x) ` edges g"
    using assms(2) by (intro redirect_set) (auto simp: leaves_def)
  finally show ?thesis .
qed

lemma edges_move_in:
  assumes "has_entity uid keep g" and "keep \<noteq> dup"
  shows "edges (move_in uid keep dup g) = (\<lambda>x. if enters uid dup x then (\<lambda>(u, s, t, d). (u, s, t, keep)) x else x) ` edges g"
proof -
  let ?into = "\<lambda>r. gl_user r = uid \<and> gl_dst r = dup" and ?f = "\<lambda>(u :: int, s :: string, t :: string, d :: string). (u, s, t, keep)"
  let ?all = "edge ` set (fold (\<lambda>r. add_edge uid (gl_src r) (gl_type r) keep) (filter ?into (gr_rels g)) (gr_rels g))"
  have "edges (move_in uid keep dup g) = {x \<in> ?all. \<not> enters uid dup x}"
    using assms(1) by (auto simp: move_in_def edges_def edge_def enters_def)
  also have "?all = edges g \<union> ?f ` {x \<in> edges g. enters uid dup x}"
    unfolding fold_add_edges by (auto simp: edges_def edge_def enters_def image_iff)
  also have "{x \<in> \<dots>. \<not> enters uid dup x} = (\<lambda>x. if enters uid dup x then ?f x else x) ` edges g"
    using assms(2) by (intro redirect_set) (auto simp: enters_def)
  finally show ?thesis .
qed

lemma move_entities [simp]: "gr_entities (move_out uid keep dup g) = gr_entities g" "gr_entities (move_in uid keep dup g) = gr_entities g"
  by (simp_all add: move_out_def move_in_def Let_def)

lemma has_entity_moved [simp]: "has_entity uid n (move_out u keep dup g) = has_entity uid n g"
  by (simp add: has_entity_def)

lemma move_distinct:
  assumes "distinct (map edge (gr_rels g))"
  shows "distinct (map edge (gr_rels (move_out uid keep dup g)))" and "distinct (map edge (gr_rels (move_in uid keep dup g)))"
  using assms by (auto simp: move_out_def move_in_def Let_def intro!: map_filter_distinct fold_add_distinct)

lemma absorb_quotient:
  assumes "graph_wf g" and "(uid, keep) \<in> nodes g" and "keep \<noteq> dup" and "(uid, dup) \<in> nodes g"
  shows "quotient_of uid (\<lambda>n. if n = dup then keep else n) g (absorb uid keep dup g)"
    and "graph_wf (absorb uid keep dup g)"
    and "nodes (absorb uid keep dup g) = nodes g - {(uid, dup)}"
    and "length (entities_of uid (absorb uid keep dup g)) + 1 = length (entities_of uid g)"
proof -
  let ?\<rho> = "\<lambda>n. if n = dup then keep else n" and ?g = "move_in uid keep dup (move_out uid keep dup g)"
  have has: "has_entity uid keep g" using assms(2) by (simp add: has_entity_iff)
  have gone: "node ` {e \<in> set (gr_entities ?g). gn_user e = uid \<and> gn_name e = dup} = {(uid, dup)}"
    using assms(4) by (auto simp: nodes_def node_def image_iff)
  have both: "(\<lambda>x. if enters uid dup x then (\<lambda>(u, s, t, d). (u, s, t, keep)) x else x) ((\<lambda>x. if leaves uid dup x then (\<lambda>(u, s, t, d). (u, keep, t, d)) x else x) x)
      = rename_edge uid ?\<rho> x" for x
    by (cases x) (auto simp: rename_edge_def enters_def leaves_def)
  have moved: "edges ?g = rename_edge uid ?\<rho> ` edges g"
    using has by (subst edges_move_in [OF _ assms(3)], simp) (simp only: edges_move_out [OF has assms(3)] image_image both)
  have drop_none: "{x \<in> E. case x of (u, s, t, d) \<Rightarrow> (u, s) \<notin> {a} \<and> (u, d) \<notin> {a}} = E"
    if "\<And>u s t d. (u, s, t, d) \<in> E \<Longrightarrow> (u, s) \<noteq> a \<and> (u, d) \<noteq> a" for E :: "(int \<times> string \<times> string \<times> string) set" and a
    using that by auto
  have "edges (absorb uid keep dup g) = edges ?g"
    unfolding absorb_def edges_detach gone
  proof (rule drop_none)
    fix u s t d assume "(u, s, t, d) \<in> edges ?g"
    then show "(u, s) \<noteq> (uid, dup) \<and> (u, d) \<noteq> (uid, dup)"
      unfolding moved using assms(3) by (auto simp: rename_edge_def split: if_splits)
  qed
  with moved have edges: "edges (absorb uid keep dup g) = rename_edge uid ?\<rho> ` edges g" by simp
  have "nodes (absorb uid keep dup g) = nodes ?g - {(uid, dup)}"
    unfolding absorb_def nodes_detach using assms(1) gone by (subst nodes_split) (auto simp: graph_wf_def)
  then show nodes: "nodes (absorb uid keep dup g) = nodes g - {(uid, dup)}" by (simp add: nodes_def)
  have "rename_node uid ?\<rho> = (\<lambda>x. if x = (uid, dup) then (uid, keep) else x)"
    by (auto simp: rename_node_def)
  then have "nodes g - {(uid, dup)} = rename_node uid ?\<rho> ` nodes g"
    using assms(2,3) by auto
  moreover have "entities_of u (absorb uid keep dup g) = entities_of u g" if "u \<noteq> uid" for u
    unfolding absorb_def entities_detach using that by (auto simp: entities_of_def intro!: filter_cong)
  ultimately show "quotient_of uid ?\<rho> g (absorb uid keep dup g)" by (auto simp: quotient_of_def edges nodes)
  have "distinct (map edge (gr_rels ?g))" using assms(1) by (intro move_distinct) (simp add: graph_wf_def)
  moreover have "\<forall>(u, s, t, d) \<in> edges ?g. (u, s) \<in> nodes ?g \<and> (u, d) \<in> nodes ?g"
    using assms(1,2) unfolding moved by (auto simp: graph_wf_def rename_edge_def nodes_def)
  ultimately have "graph_wf ?g" using assms(1) by (simp add: graph_wf_def)
  then show "graph_wf (absorb uid keep dup g)" by (simp add: absorb_def wf_detach)
  have "entities_of uid (absorb uid keep dup g) = filter (\<lambda>e. gn_name e \<notin> set [dup]) (entities_of uid g)"
    unfolding absorb_def entities_detach by (auto simp: entities_of_def intro!: filter_cong)
  moreover have "set [dup] \<subseteq> gn_name ` set (entities_of uid g)"
    using assms(4) by (auto simp: nodes_def node_def entities_of_def image_iff)
  ultimately show "length (entities_of uid (absorb uid keep dup g)) + 1 = length (entities_of uid g)"
    using filter_notin_count [OF user_names_distinct [OF assms(1)], of "[dup]" uid] by simp
qed

text \<open>What joining some names of a user does: the names that go are replaced by related ones of the same set.\<close>

definition joined :: "(string \<Rightarrow> string \<Rightarrow> bool) \<Rightarrow> int \<Rightarrow> string set \<Rightarrow> (string \<Rightarrow> string) \<Rightarrow> nat \<Rightarrow> graph \<Rightarrow> graph \<Rightarrow> bool" where
  "joined R uid names \<rho> k g g' =
     (quotient_of uid \<rho> g g' \<and> graph_wf g' \<and> length (entities_of uid g') + k = length (entities_of uid g)
      \<and> nodes g - {uid} \<times> names \<subseteq> nodes g' \<and> (\<forall>n. \<rho> n = n \<or> n \<in> names \<and> \<rho> n \<in> names \<and> R (\<rho> n) n))"

lemma joined_none: "graph_wf g \<Longrightarrow> joined R uid names (\<lambda>n. n) 0 g g"
  by (simp add: joined_def quotient_same Diff_subset)

lemma joined_trans:
  assumes "joined R uid A \<rho>1 k1 g g1" and "joined R uid B \<rho>2 k2 g1 g2" and "A \<inter> B = {}"
  shows "joined R uid (A \<union> B) (\<rho>2 \<circ> \<rho>1) (k1 + k2) g g2"
proof -
  have "\<rho>2 (\<rho>1 n) = n \<or> n \<in> A \<union> B \<and> \<rho>2 (\<rho>1 n) \<in> A \<union> B \<and> R (\<rho>2 (\<rho>1 n)) n" for n
  proof (cases "\<rho>1 n = n")
    case False
    then have "n \<in> A" "\<rho>1 n \<in> A" "R (\<rho>1 n) n" using assms(1) by (auto simp: joined_def)
    moreover from this have "\<rho>2 (\<rho>1 n) = \<rho>1 n" using assms(2,3) by (auto simp: joined_def)
    ultimately show ?thesis by simp
  qed (use assms(2) in \<open>auto simp: joined_def\<close>)
  moreover have "nodes g - {uid} \<times> (A \<union> B) \<subseteq> nodes g2" using assms by (auto simp: joined_def)
  ultimately show ?thesis using assms quotient_trans [of uid \<rho>1 g g1 \<rho>2 g2] by (auto simp: joined_def)
qed

lemma absorb_all:
  assumes "graph_wf g" and "(uid, keep) \<in> nodes g" and "keep \<notin> set dups" and "distinct dups"
    and "\<forall>n \<in> set dups. (uid, n) \<in> nodes g \<and> R keep n" and "insert keep (set dups) \<subseteq> names"
  shows "\<exists>\<rho>. joined R uid names \<rho> (length dups) g (fold (absorb uid keep) dups g) \<and> (\<forall>n. \<rho> n = (if n \<in> set dups then keep else n))"
  using assms
proof (induction dups arbitrary: g)
  case Nil
  then show ?case using joined_none by (intro exI [of _ "\<lambda>n. n"]) simp
next
  case (Cons dup dups)
  let ?g = "absorb uid keep dup g" and ?\<rho>1 = "\<lambda>n. if n = dup then keep else n"
  have ne: "keep \<noteq> dup" and dup: "(uid, dup) \<in> nodes g" using Cons.prems(3,5) by auto
  note a = absorb_quotient [OF Cons.prems(1,2) ne dup]
  obtain \<rho>2 where \<rho>2: "joined R uid names \<rho>2 (length dups) ?g (fold (absorb uid keep) dups ?g)" "\<forall>n. \<rho>2 n = (if n \<in> set dups then keep else n)"
    using Cons.IH [of ?g] Cons.prems a(2,3) ne by auto
  have comp: "(\<rho>2 \<circ> ?\<rho>1) n = (if n \<in> set (dup # dups) then keep else n)" for n
    using \<rho>2(2) Cons.prems(3) by auto
  have "quotient_of uid (\<rho>2 \<circ> ?\<rho>1) g (fold (absorb uid keep) dups ?g)"
    using quotient_trans [OF a(1)] \<rho>2(1) by (simp add: joined_def)
  moreover have "nodes g - {uid} \<times> names \<subseteq> nodes (fold (absorb uid keep) dups ?g)"
    using \<rho>2(1) a(3) Cons.prems(6) by (auto simp: joined_def)
  ultimately have "joined R uid names (\<rho>2 \<circ> ?\<rho>1) (length (dup # dups)) g (fold (absorb uid keep) (dup # dups) g)"
    using \<rho>2(1) a(4) Cons.prems(5,6) unfolding joined_def comp by auto
  with comp show ?case by blast
qed

text \<open>A pass over groups of names; joining a group is the contract both passes share.\<close>

definition rows_in :: "int \<Rightarrow> graph \<Rightarrow> name_row list \<Rightarrow> bool" where
  "rows_in uid g rows =
     (rows \<noteq> [] \<and> distinct (map fst rows) \<and> (\<forall>r \<in> set rows. (uid, fst r) \<in> nodes g \<and> snd r \<noteq> Some ''OTHER''))"

locale join_pass =
  fixes join_rows :: "int \<Rightarrow> string \<times> name_row list \<Rightarrow> nat \<times> graph \<Rightarrow> nat \<times> graph"
    and R :: "string \<Rightarrow> string \<Rightarrow> bool"
    and ok :: "name_row list \<Rightarrow> bool"
    and Q :: "(string \<Rightarrow> string) \<Rightarrow> string set \<Rightarrow> bool"
  assumes join_law: "graph_wf g \<Longrightarrow> rows_in uid g rows \<Longrightarrow> ok rows
    \<Longrightarrow> \<exists>k \<rho> g'. join_rows uid (key, rows) (m, g) = (m + k, g') \<and> joined R uid (fst ` set rows) \<rho> k g g' \<and> Q \<rho> (fst ` set rows)"
    and Q_local: "\<forall>n \<in> A. \<rho>' n = \<rho> n \<Longrightarrow> Q \<rho> A \<Longrightarrow> Q \<rho>' A"
begin

lemma join_groups:
  assumes "graph_wf g" and "\<forall>p \<in> set groups. rows_in uid g (snd p) \<and> ok (snd p)" and "distinct (concat (map (\<lambda>p. map fst (snd p)) groups))"
  shows "\<exists>k \<rho> g'. fold (join_rows uid) groups (m, g) = (m + k, g') \<and> joined R uid (fst ` (\<Union>p \<in> set groups. set (snd p))) \<rho> k g g'
    \<and> (\<forall>p \<in> set groups. Q \<rho> (fst ` set (snd p)))"
  using assms
proof (induction groups arbitrary: m g)
  case Nil
  then show ?case using joined_none by fastforce
next
  case (Cons p groups)
  obtain key rows where p: "p = (key, rows)" by (cases p)
  from Cons.prems(1,2) obtain k1 \<rho>1 g1 where step: "join_rows uid p (m, g) = (m + k1, g1)" "joined R uid (fst ` set rows) \<rho>1 k1 g g1" "Q \<rho>1 (fst ` set rows)"
    using join_law [of g uid rows key m] p by auto
  have apart: "fst ` set rows \<inter> fst ` (\<Union>p \<in> set groups. set (snd p)) = {}" using Cons.prems(3) by (auto simp: p)
  have "rows_in uid g1 (snd q) \<and> ok (snd q)" if "q \<in> set groups" for q
  proof -
    have "(uid, fst r) \<in> nodes g1" if "r \<in> set (snd q)" for r
    proof -
      have "(uid, fst r) \<in> nodes g" "fst r \<notin> fst ` set rows" using that \<open>q \<in> set groups\<close> Cons.prems(2) apart by (auto simp: rows_in_def)
      then show ?thesis using step(2) by (auto simp: joined_def)
    qed
    with that Cons.prems(2) show ?thesis by (auto simp: rows_in_def)
  qed
  then obtain k2 \<rho>2 g2 where rest: "fold (join_rows uid) groups (m + k1, g1) = (m + k1 + k2, g2)"
    "joined R uid (fst ` (\<Union>p \<in> set groups. set (snd p))) \<rho>2 k2 g1 g2" "\<forall>p \<in> set groups. Q \<rho>2 (fst ` set (snd p))"
    using Cons.IH [of g1 "m + k1"] Cons.prems(3) step(2) by (auto simp: joined_def)
  have "Q (\<rho>2 \<circ> \<rho>1) (fst ` set rows)"
  proof (rule Q_local [OF _ step(3)])
    have "\<rho>2 m = m" if "m \<in> fst ` set rows" for m using rest(2) apart that by (auto simp: joined_def)
    moreover have "\<rho>1 n \<in> fst ` set rows" if "n \<in> fst ` set rows" for n using step(2) that by (metis joined_def)
    ultimately show "\<forall>n \<in> fst ` set rows. (\<rho>2 \<circ> \<rho>1) n = \<rho>1 n" by simp
  qed
  moreover have "Q (\<rho>2 \<circ> \<rho>1) (fst ` set (snd q))" if "q \<in> set groups" for q
  proof (rule Q_local [of _ _ \<rho>2])
    have "n \<notin> fst ` set rows" if "n \<in> fst ` set (snd q)" for n using that \<open>q \<in> set groups\<close> apart by blast
    then show "\<forall>n \<in> fst ` set (snd q). (\<rho>2 \<circ> \<rho>1) n = \<rho>2 n" using step(2) by (metis comp_apply joined_def)
  qed (use rest(3) that in blast)
  ultimately have "\<forall>q \<in> set (p # groups). Q (\<rho>2 \<circ> \<rho>1) (fst ` set (snd q))" by (simp add: p)
  with joined_trans [OF step(2) rest(2) apart] rest(1) step(1) show ?case
    by (intro exI [of _ "k1 + k2"] exI [of _ "\<rho>2 \<circ> \<rho>1"] exI [of _ g2]) (simp add: p add.assoc image_Un comp_def)
qed

end

lemma set_type_ok:
  assumes "graph_wf g" and "t \<noteq> Some ''OTHER''"
  shows "graph_wf (set_entity_type uid n t ts g)" and "nodes (set_entity_type uid n t ts g) = nodes g"
    and "edges (set_entity_type uid n t ts g) = edges g" and "u \<noteq> uid \<Longrightarrow> entities_of u (set_entity_type uid n t ts g) = entities_of u g"
    and "length (entities_of u (set_entity_type uid n t ts g)) = length (entities_of u g)"
proof -
  have keys: "map node (gr_entities (set_entity_type uid n t ts g)) = map node (gr_entities g)"
    by (auto simp: set_entity_type_def node_def)
  then show nodes: "nodes (set_entity_type uid n t ts g) = nodes g" by (simp only: nodes_map)
  show edges: "edges (set_entity_type uid n t ts g) = edges g" by (simp add: set_entity_type_def edges_def)
  have rels: "gr_rels (set_entity_type uid n t ts g) = gr_rels g" by (simp add: set_entity_type_def)
  have "list_all entity_ok (gr_entities (set_entity_type uid n t ts g))"
    using assms by (auto simp: set_entity_type_def graph_wf_def list_all_iff entity_ok_def)
  with assms(1) show "graph_wf (set_entity_type uid n t ts g)" unfolding graph_wf_def keys nodes edges rels by blast
  show "length (entities_of u (set_entity_type uid n t ts g)) = length (entities_of u g)" by (simp only: count_nodes keys)
  assume "u \<noteq> uid"
  then have "filter (\<lambda>e. gn_user e = u) (map (\<lambda>e. if gn_user e = uid \<and> gn_name e = n then e\<lparr>gn_type := t, gn_updated := ts\<rparr> else e) es)
      = filter (\<lambda>e. gn_user e = u) es" for es
    by (induction es) auto
  then show "entities_of u (set_entity_type uid n t ts g) = entities_of u g" by (simp add: set_entity_type_def entities_of_def)
qed

lemma keep_type_known: "rows \<noteq> [] \<Longrightarrow> \<forall>r \<in> set rows. snd r \<noteq> Some ''OTHER'' \<Longrightarrow> keep_type rows = snd (last rows)"
proof -
  assume rows: "rows \<noteq> []" "\<forall>r \<in> set rows. snd r \<noteq> Some ''OTHER''"
  then obtain rs r where "rows = rs @ [r]" by (metis append_butlast_last_id)
  with rows show ?thesis by (auto simp: keep_type_def split: prod.splits)
qed

lemma hd_py_sort_key: "xs \<noteq> [] \<Longrightarrow> hd (py_sort_key f xs) \<in> set xs"
  by (metis hd_in_set length_0_conv length_py_sort_key set_py_sort_key)

lemma keep_name_member: "rows \<noteq> [] \<Longrightarrow> keep_name rows \<in> fst ` set rows"
  using hd_py_sort_key [of "map fst rows" "\<lambda>n. - int (length n)"] by (simp add: keep_name_def)

definition same_norm :: "string \<Rightarrow> string \<Rightarrow> bool" where
  "same_norm m n = (norm_name m = norm_name n)"

definition norm_group :: "name_row list \<Rightarrow> bool" where
  "norm_group rows = (\<forall>r \<in> set rows. \<forall>r' \<in> set rows. same_norm (fst r) (fst r'))"

interpretation norm_pass: join_pass "\<lambda>uid. merge_group uid ts" same_norm norm_group "\<lambda>\<rho> A. \<forall>n \<in> A. \<forall>m \<in> A. \<rho> n = \<rho> m"
proof
  fix g uid rows key m
  assume wf: "graph_wf g" and rows: "rows_in uid g rows" and group: "norm_group rows"
  let ?keep = "keep_name rows" and ?dups = "filter (\<lambda>n. n \<noteq> keep_name rows) (map fst rows)"
  let ?g = "set_entity_type uid ?keep (keep_type rows) ts g"
  show "\<exists>k \<rho> g'. merge_group uid ts (key, rows) (m, g) = (m + k, g') \<and> joined same_norm uid (fst ` set rows) \<rho> k g g'
      \<and> (\<forall>n \<in> fst ` set rows. \<forall>m \<in> fst ` set rows. \<rho> n = \<rho> m)"
  proof (cases "length rows < 2 \<or> ?dups = []")
    case True
    have "length rows = 1 \<Longrightarrow> \<exists>r. rows = [r]" by (cases rows) auto
    with True rows have "?dups = []" by (cases "length rows"; cases "length rows - 1") (auto simp: rows_in_def keep_name_def py_sort_key_def)
    then have "\<forall>n \<in> fst ` set rows. n = ?keep" by (auto simp: filter_empty_conv)
    with wf True show ?thesis by (intro exI [of _ 0] exI [of _ "\<lambda>n. n"] exI [of _ g]) (simp add: merge_group_def Let_def joined_none)
  next
    case False
    have "keep_type rows \<noteq> Some ''OTHER''" using rows keep_type_known [of rows] by (auto simp: rows_in_def)
    note st = set_type_ok [OF wf this]
    have keep: "?keep \<in> fst ` set rows" using rows by (intro keep_name_member) (simp add: rows_in_def)
    have "\<exists>\<rho>. joined same_norm uid (fst ` set rows) \<rho> (length ?dups) ?g (fold (absorb uid ?keep) ?dups ?g) \<and> (\<forall>n. \<rho> n = (if n \<in> set ?dups then ?keep else n))"
    proof (rule absorb_all [OF st(1)])
      have "same_norm ?keep n" if "n \<in> fst ` set rows" for n
      proof -
        from that obtain r where "r \<in> set rows" "n = fst r" by blast
        moreover from keep obtain r' where "r' \<in> set rows" "?keep = fst r'" by blast
        ultimately show ?thesis using group by (simp add: norm_group_def)
      qed
      then show "\<forall>n \<in> set ?dups. (uid, n) \<in> nodes ?g \<and> same_norm ?keep n" using rows by (auto simp: st rows_in_def)
    qed (use rows keep in \<open>auto simp: st rows_in_def\<close>)
    then obtain \<rho> where \<rho>: "joined same_norm uid (fst ` set rows) \<rho> (length ?dups) ?g (fold (absorb uid ?keep) ?dups ?g)"
      and const: "\<And>n. \<rho> n = (if n \<in> set ?dups then ?keep else n)" by blast
    have "joined same_norm uid {} (\<lambda>n. n) 0 g ?g"
      using st by (auto simp: joined_def quotient_same)
    from joined_trans [OF this \<rho>] have "joined same_norm uid (fst ` set rows) (\<rho> \<circ> (\<lambda>n. n)) (length ?dups) g (fold (absorb uid ?keep) ?dups ?g)" by simp
    moreover have "merge_group uid ts (key, rows) (m, g) = (m + length ?dups, fold (absorb uid ?keep) ?dups ?g)"
      using False by (simp add: merge_group_def Let_def)
    moreover have "\<forall>n \<in> fst ` set rows. (\<rho> \<circ> (\<lambda>n. n)) n = ?keep" by (auto simp: const)
    ultimately show ?thesis by (intro exI [of _ "length ?dups"] exI [of _ "\<rho> \<circ> (\<lambda>n. n)"]) auto
  qed
qed metis

interpretation type_pass: join_pass merge_type similar "\<lambda>_. True" "\<lambda>_ _. True"
proof
  fix g uid rows key m
  assume wf: "graph_wf g" and rows: "rows_in uid g rows"
  let ?names = "map fst (py_sort_key (\<lambda>r. - int (length (fst r))) rows)"
  let ?dups = "filter (similar (hd ?names)) (tl ?names)"
  show "\<exists>k \<rho> g'. merge_type uid (key, rows) (m, g) = (m + k, g') \<and> joined similar uid (fst ` set rows) \<rho> k g g' \<and> True"
  proof (cases "length rows < 2 \<or> ?dups = []")
    case True
    with wf show ?thesis by (intro exI [of _ 0] exI [of _ "\<lambda>n. n"] exI [of _ g]) (simp add: merge_type_def Let_def joined_none)
  next
    case False
    have ne: "?names \<noteq> []" using rows by (metis length_0_conv length_map length_py_sort_key rows_in_def)
    have dist: "distinct ?names" using rows by (simp add: rows_in_def)
    have names: "set ?names = fst ` set rows" by simp
    have split: "hd ?names \<notin> set (tl ?names)" "distinct (tl ?names)" "insert (hd ?names) (set (tl ?names)) = set ?names"
      using ne dist by (cases ?names; simp)+
    have all: "\<forall>n \<in> set ?names. (uid, n) \<in> nodes g" using rows by (auto simp: rows_in_def)
    have "\<exists>\<rho>. joined similar uid (fst ` set rows) \<rho> (length ?dups) g (fold (absorb uid (hd ?names)) ?dups g)
        \<and> (\<forall>n. \<rho> n = (if n \<in> set ?dups then hd ?names else n))"
    proof (rule absorb_all)
      show "(uid, hd ?names) \<in> nodes g" using all ne hd_in_set by blast
      show "hd ?names \<notin> set ?dups" "distinct ?dups" using split(1,2) by auto
      have "set ?dups \<subseteq> set ?names" unfolding split(3) [symmetric] by auto
      with all show "\<forall>n \<in> set ?dups. (uid, n) \<in> nodes g \<and> similar (hd ?names) n" by (simp only: set_filter) blast
      show "insert (hd ?names) (set ?dups) \<subseteq> fst ` set rows" using split(3) names by auto
    qed (rule wf)
    moreover have "merge_type uid (key, rows) (m, g) = (m + length ?dups, fold (absorb uid (hd ?names)) ?dups g)"
      using False by (simp add: merge_type_def Let_def)
    ultimately show ?thesis by blast
  qed
qed

section \<open>Groups\<close>

definition push :: "('a \<Rightarrow> string) \<Rightarrow> 'a \<Rightarrow> (string \<times> 'a list) list \<Rightarrow> (string \<times> 'a list) list" where
  "push f x d = dset d (f x) (case dget d (f x) of Some xs \<Rightarrow> xs @ [x] | None \<Rightarrow> [x])"

lemma group_by_push: "group_by f rows = fold (push f) rows []"
  by (simp add: group_by_def push_def [abs_def])

lemma push_mset: "mset (concat (map snd (push f x d))) = add_mset x (mset (concat (map snd d)))"
proof (induction d)
  case (Cons p d)
  obtain k xs where p: "p = (k, xs)" by (cases p)
  show ?case
  proof (cases "k = f x")
    case False
    then have "push f x (p # d) = p # push f x d" by (simp add: push_def dset_def dget_def p)
    with Cons.IH show ?thesis by simp
  qed (simp add: push_def dset_def dget_def p)
qed (simp add: push_def dset_def dget_def)

lemma push_keys: "distinct (map fst d) \<Longrightarrow> distinct (map fst (push f x d))"
  by (simp add: push_def distinct_keys_dset)

definition groups_ok :: "('a \<Rightarrow> string) \<Rightarrow> (string \<times> 'a list) list \<Rightarrow> bool" where
  "groups_ok f d = (\<forall>p \<in> set d. snd p \<noteq> [] \<and> (\<forall>x \<in> set (snd p). fst p = f x))"

lemma groups_ok_Cons: "groups_ok f (p # d) \<longleftrightarrow> (snd p \<noteq> [] \<and> (\<forall>x \<in> set (snd p). fst p = f x)) \<and> groups_ok f d"
  by (simp add: groups_ok_def)

lemma push_Cons: "push f x ((k, xs) # d) = (if k = f x then (k, xs @ [x]) # d else (k, xs) # push f x d)"
  by (simp add: push_def dset_def dget_def)

lemma push_groups: "groups_ok f d \<Longrightarrow> groups_ok f (push f x d)"
proof (induction d)
  case (Cons p d)
  obtain k xs where p: "p = (k, xs)" by (cases p)
  show ?case
  proof (cases "k = f x")
    case True
    with Cons.prems show ?thesis unfolding p push_Cons groups_ok_Cons by (simp add: groups_ok_Cons)
  next
    case False
    with Cons.prems Cons.IH show ?thesis unfolding p push_Cons by (simp only: if_False groups_ok_Cons) blast
  qed
qed (simp add: push_def dset_def dget_def groups_ok_def)

lemma group_by_props:
  "groups_ok f (group_by f rows) \<and> distinct (map fst (group_by f rows)) \<and> mset (concat (map snd (group_by f rows))) = mset rows"
proof -
  have "groups_ok f (fold (push f) rows d) \<and> distinct (map fst (fold (push f) rows d))
      \<and> mset (concat (map snd (fold (push f) rows d))) = mset (concat (map snd d)) + mset rows"
    if "groups_ok f d" "distinct (map fst d)" for d
    using that by (induction rows arbitrary: d) (auto simp: push_groups push_keys push_mset)
  from this [of "[]"] show ?thesis by (simp add: group_by_push groups_ok_def)
qed

lemma group_members: "(\<exists>p \<in> set (group_by f rows). x \<in> set (snd p)) \<longleftrightarrow> x \<in> set rows"
proof -
  have "set_mset (mset (concat (map snd (group_by f rows)))) = set_mset (mset rows)"
    by (simp only: group_by_props [THEN conjunct2, THEN conjunct2])
  then show ?thesis by auto
qed

lemma concat_names: "concat (map (\<lambda>p. map fst (snd p)) groups) = map fst (concat (map snd groups))"
  by (induction groups) auto

lemma groups_names_distinct: "distinct (map fst rows) \<Longrightarrow> distinct (concat (map (\<lambda>p. map fst (snd p)) (group_by f rows)))"
  using group_by_props [of f rows] unfolding concat_names by (metis mset_eq_imp_distinct_iff mset_map)

lemma same_group:
  assumes "x \<in> set rows" and "y \<in> set rows" and "f x = f y"
  shows "\<exists>p \<in> set (group_by f rows). x \<in> set (snd p) \<and> y \<in> set (snd p)"
proof -
  from assms(1,2) obtain p q where p: "p \<in> set (group_by f rows)" "x \<in> set (snd p)" and q: "q \<in> set (group_by f rows)" "y \<in> set (snd q)"
    by (meson group_members)
  then have "fst p = fst q" using group_by_props [of f rows] assms(3) by (auto simp: groups_ok_def)
  then have "p = q" using p q group_by_props [of f rows] by (metis eq_key_imp_eq_value prod.collapse)
  with p q show ?thesis by blast
qed

section \<open>The two passes\<close>

definition entity_names :: "int \<Rightarrow> graph \<Rightarrow> string set" where
  "entity_names uid g = {n. (uid, n) \<in> nodes g}"

lemma name_rows_ok:
  assumes "graph_wf g"
  shows "distinct (map fst (name_rows ord uid g))" and "fst ` set (name_rows ord uid g) = entity_names uid g"
    and "\<forall>r \<in> set (name_rows ord uid g). snd r \<noteq> Some ''OTHER''"
proof -
  show "distinct (map fst (name_rows ord uid g))"
    using user_names_distinct [OF assms] by (simp add: name_rows_def distinct_map_set_order comp_def)
  show "fst ` set (name_rows ord uid g) = entity_names uid g"
    by (force simp: name_rows_def entity_names_def nodes_def node_def entities_of_def)
  show "\<forall>r \<in> set (name_rows ord uid g). snd r \<noteq> Some ''OTHER''"
    using assms by (auto simp: name_rows_def entities_of_def graph_wf_def list_all_iff entity_ok_def)
qed

lemma first_pass:
  assumes "graph_wf g" and "rows = name_rows ord uid g"
  shows "\<exists>k \<rho> g1. fold (merge_group uid ts) (group_by (\<lambda>r. norm_name (fst r)) rows) (0, g) = (k, g1)
    \<and> joined same_norm uid UNIV \<rho> k g g1 \<and> inj_on norm_name (entity_names uid g1)"
proof -
  let ?groups = "group_by (\<lambda>r. norm_name (fst r)) rows"
  note rows = name_rows_ok [OF assms(1), of ord uid, folded assms(2)]
  have member: "r \<in> set rows" if "p \<in> set ?groups" "r \<in> set (snd p)" for p r using that group_members by fastforce
  have names: "distinct (concat (map (\<lambda>p. map fst (snd p)) ?groups))" using rows(1) by (rule groups_names_distinct)
  have good: "rows_in uid g (snd p) \<and> norm_group (snd p)" if "p \<in> set ?groups" for p
  proof -
    have "snd p \<noteq> [] \<and> (\<forall>r \<in> set (snd p). fst p = norm_name (fst r))"
      using that group_by_props [of "\<lambda>r. norm_name (fst r)" rows] by (simp add: groups_ok_def)
    moreover from this have "norm_group (snd p)" unfolding norm_group_def same_norm_def by metis
    moreover have "distinct (map fst (snd p))" using names that by (auto simp: distinct_concat_iff)
    moreover have "(uid, fst r) \<in> nodes g \<and> snd r \<noteq> Some ''OTHER''" if "r \<in> set (snd p)" for r
      using rows(2,3) member [OF \<open>p \<in> set ?groups\<close> that] by (auto simp: entity_names_def)
    ultimately show ?thesis by (simp add: rows_in_def)
  qed
  then obtain k \<rho> g1 where run: "fold (merge_group uid ts) ?groups (0, g) = (k, g1)"
    and j: "joined same_norm uid (fst ` (\<Union>p \<in> set ?groups. set (snd p))) \<rho> k g g1"
    and single: "\<forall>p \<in> set ?groups. \<forall>n \<in> fst ` set (snd p). \<forall>m \<in> fst ` set (snd p). \<rho> n = \<rho> m"
    using norm_pass.join_groups [OF assms(1) _ names, of uid ts 0] by auto
  have "n = m" if n: "n \<in> entity_names uid g1" and m: "m \<in> entity_names uid g1" and eq: "norm_name n = norm_name m" for n m
  proof -
    have fixed: "\<rho> n = n" "\<rho> m = m" "n \<in> fst ` set rows" "m \<in> fst ` set rows"
      using n m j rows(2) by (auto simp: joined_def quotient_of_def entity_names_def)
    then obtain x y where "x \<in> set rows" "y \<in> set rows" "n = fst x" "m = fst y" by blast
    then obtain p where "p \<in> set ?groups" "x \<in> set (snd p)" "y \<in> set (snd p)"
      using same_group [of x rows y "\<lambda>r. norm_name (fst r)"] eq by auto
    then have "\<rho> n = \<rho> m" using single \<open>n = fst x\<close> \<open>m = fst y\<close> by blast
    then show ?thesis using fixed(1,2) by (metis (no_types))
  qed
  then have "inj_on norm_name (entity_names uid g1)" by (auto intro: inj_onI)
  moreover have "joined same_norm uid UNIV \<rho> k g g1" using j by (auto simp: joined_def)
  ultimately show ?thesis using run by blast
qed

lemma typed_rows_Cons:
  "typed_rows ((n, t) # rows) =
     (case t of Some (x # xs) \<Rightarrow> if x # xs = ''OTHER'' then typed_rows rows else (n, x # xs) # typed_rows rows | _ \<Rightarrow> typed_rows rows)"
  by (auto simp: typed_rows_def List.map_filter_def split: option.splits list.splits)

lemma typed_rows_ok:
  "fst ` set (typed_rows rows) \<subseteq> fst ` set rows \<and> (\<forall>r \<in> set (typed_rows rows). snd r \<noteq> ''OTHER'')
   \<and> (distinct (map fst rows) \<longrightarrow> distinct (map fst (typed_rows rows)))"
proof (induction rows)
  case (Cons r rows)
  obtain n t where "r = (n, t)" by (cases r)
  with Cons.IH show ?case by (auto simp: typed_rows_Cons split: option.splits list.splits if_splits)
qed (simp add: typed_rows_def)

lemma second_pass:
  assumes "graph_wf g" and "rows = typed_rows (name_rows ord uid g)"
  shows "\<exists>k \<rho> g2. fold (merge_type uid) (map (\<lambda>(t, rs). (t, map (\<lambda>(n, t). (n, Some t)) rs)) (group_by (\<lambda>(_, t). t) rows)) (m, g) = (m + k, g2)
    \<and> joined similar uid UNIV \<rho> k g g2"
proof -
  let ?groups = "group_by (\<lambda>(_, t). t) rows" and ?with = "\<lambda>(t :: string, rs :: (string \<times> string) list). (t, map (\<lambda>(n, t). (n, Some t)) rs)"
  note src = name_rows_ok [OF assms(1), of ord uid]
  have rows: "fst ` set rows \<subseteq> entity_names uid g" "\<forall>r \<in> set rows. snd r \<noteq> ''OTHER''" "distinct (map fst rows)"
    using typed_rows_ok [of "name_rows ord uid g"] src(1,2) by (auto simp: assms(2))
  have fsts: "map fst (snd (?with p)) = map fst (snd p)" for p by (cases p) auto
  have names: "distinct (concat (map (\<lambda>p. map fst (snd p)) ?groups))" using rows(3) by (rule groups_names_distinct)
  then have names': "distinct (concat (map (\<lambda>p. map fst (snd p)) (map ?with ?groups)))" by (simp only: map_map comp_def fsts)
  have "rows_in uid g (snd q) \<and> True" if "q \<in> set (map ?with ?groups)" for q
  proof -
    from that obtain p where p: "p \<in> set ?groups" "q = ?with p" by auto
    have member: "r \<in> set rows" if "r \<in> set (snd p)" for r using that p(1) group_members by fastforce
    have "snd p \<noteq> []" using p(1) group_by_props [of "\<lambda>(_, t). t" rows] by (simp add: groups_ok_def)
    moreover have "distinct (map fst (snd p))" using names p(1) by (auto simp: distinct_concat_iff)
    moreover have "map fst (snd q) = map fst (snd p)" unfolding p(2) by (rule fsts)
    moreover have "(uid, fst r) \<in> nodes g \<and> snd r \<noteq> Some ''OTHER''" if "r \<in> set (snd q)" for r
    proof -
      from that obtain n t where "(n, t) \<in> set (snd p)" "r = (n, Some t)" by (cases p) (auto simp: p(2))
      with member rows(1,2) show ?thesis by (force simp: entity_names_def)
    qed
    ultimately show ?thesis unfolding rows_in_def by (metis map_is_Nil_conv)
  qed
  then obtain k \<rho> g2 where run: "fold (merge_type uid) (map ?with ?groups) (m, g) = (m + k, g2)"
    and j: "joined similar uid (fst ` (\<Union>p \<in> set (map ?with ?groups). set (snd p))) \<rho> k g g2"
    using type_pass.join_groups [OF assms(1) _ names', of uid m] by auto
  from j have "joined similar uid UNIV \<rho> k g g2" by (auto simp: joined_def)
  with run show ?thesis by blast
qed

lemma merge_passes_joined:
  assumes "graph_wf g" and "merge_passes ord1 ord2 uid ts g = (k, g')"
  shows "\<exists>\<rho>1 \<rho>2. quotient_of uid (\<rho>2 \<circ> \<rho>1) g g' \<and> (\<forall>n. norm_name (\<rho>1 n) = norm_name n) \<and> (\<forall>n. \<rho>2 n = n \<or> similar (\<rho>2 n) n)
    \<and> length (entities_of uid g') + k = length (entities_of uid g) \<and> graph_wf g' \<and> inj_on norm_name (entity_names uid g')"
proof (cases "name_rows ord1 uid g = []")
  case True
  have "k = 0" "g' = g" using assms(2) True by (simp_all add: merge_passes_def)
  moreover have "entity_names uid g = {}" using name_rows_ok(2) [OF assms(1), of ord1 uid] True by simp
  ultimately show ?thesis using assms(1) quotient_same [of g g uid] by (intro exI [of _ "\<lambda>n. n"]) (simp add: comp_def)
next
  case False
  obtain k1 \<rho>1 g1 where one: "fold (merge_group uid ts) (group_by (\<lambda>r. norm_name (fst r)) (name_rows ord1 uid g)) (0, g) = (k1, g1)"
    "joined same_norm uid UNIV \<rho>1 k1 g g1" "inj_on norm_name (entity_names uid g1)"
    using first_pass [OF assms(1) refl] by blast
  then have wf: "graph_wf g1" by (simp add: joined_def)
  obtain k2 \<rho>2 g2 where two: "fold (merge_type uid) (map (\<lambda>(t, rs). (t, map (\<lambda>(n, t). (n, Some t)) rs))
      (group_by (\<lambda>(_, t). t) (typed_rows (name_rows ord2 uid g1)))) (k1, g1) = (k1 + k2, g2)" "joined similar uid UNIV \<rho>2 k2 g1 g2"
    using second_pass [OF wf refl, of uid ord2 k1] by blast
  have "k = k1 + k2" "g' = g2" using assms(2) False by (simp_all add: merge_passes_def Let_def one(1) two(1))
  moreover have "quotient_of uid (\<rho>2 \<circ> \<rho>1) g g2" using quotient_trans one(2) two(2) by (auto simp: joined_def)
  moreover have "norm_name (\<rho>1 n) = norm_name n" for n using one(2) by (auto simp: joined_def same_norm_def) metis
  moreover have "\<rho>2 n = n \<or> similar (\<rho>2 n) n" for n using two(2) by (auto simp: joined_def)
  moreover have "inj_on norm_name (entity_names uid g2)"
  proof (rule inj_on_subset [OF one(3)])
    show "entity_names uid g2 \<subseteq> entity_names uid g1" using two(2) unfolding joined_def quotient_of_def entity_names_def by blast
  qed
  ultimately show ?thesis using one(2) two(2) by (intro exI [of _ \<rho>1] exI [of _ \<rho>2]) (auto simp: joined_def)
qed

section \<open>Every sequence of operations\<close>

inductive graph_step :: "graph \<times> graph_cache \<Rightarrow> graph \<times> graph_cache \<Rightarrow> bool" where
  exchange: "graph_step db (extract_and_store driver llm json redis compacting ord ts uid message response db)"
| merge: "graph_step db (snd (merge_duplicate_entities driver redis ord1 ord2 uid ts db))"
| context_read: "graph_step (g, c) (g, snd (query_context driver redis sha show_score ft rord now uid query limit min_score (g, c)))"
| keywords_read: "graph_step (g, c) (g, snd (query_by_keywords driver redis sha ft rord now uid query limit (g, c)))"
| delete: "graph_step db (snd (delete_entity driver redis name uid db))"
| prune: "graph_step db (snd (prune_graph driver redis now uid db))"
| clear: "graph_step db (clear_graph driver redis uid db)"

lemma few_mono: "few_entities g \<Longrightarrow> (\<And>u. length (entities_of u g') \<le> length (entities_of u g)) \<Longrightarrow> few_entities g'"
  unfolding few_entities_def by (meson le_trans)

lemma detach_ok: "graph_wf g \<and> few_entities g \<Longrightarrow> graph_wf (detach_delete P g) \<and> few_entities (detach_delete P g)"
  using wf_detach few_mono count_detach by blast

lemma merge_ok:
  assumes "graph_wf g" and "few_entities g"
  shows "graph_wf (snd (merge_passes ord1 ord2 uid ts g)) \<and> few_entities (snd (merge_passes ord1 ord2 uid ts g))"
proof -
  obtain k g' where run: "merge_passes ord1 ord2 uid ts g = (k, g')" by fastforce
  obtain \<rho> where j: "quotient_of uid \<rho> g g'" "length (entities_of uid g') + k = length (entities_of uid g)" "graph_wf g'"
    using merge_passes_joined [OF assms(1) run] by blast
  have "length (entities_of u g') \<le> length (entities_of u g)" for u
    using j(1,2) by (cases "u = uid") (auto simp: quotient_of_def)
  then show ?thesis using run j(3) few_mono [OF assms(2)] by simp
qed

lemma graph_step_ok: "graph_step db db' \<Longrightarrow> graph_wf (fst db) \<and> few_entities (fst db) \<Longrightarrow> graph_wf (fst db') \<and> few_entities (fst db')"
proof (induction rule: graph_step.induct)
  case (exchange db driver llm json redis compacting ord ts uid message response)
  then show ?case
    using extract_ok [of "fst db" driver llm json redis compacting ord ts uid message response "snd db"] by (metis prod.collapse)
next
  case (merge db driver redis ord1 ord2 uid ts)
  then show ?case using merge_ok [of "fst db" ord1 ord2 uid ts]
    by (cases db) (auto simp: merge_duplicate_entities_def Let_def split: prod.splits)
next
  case (delete db driver redis name uid)
  then show ?case by (cases db) (auto simp: delete_entity_def Let_def detach_ok)
next
  case (prune db driver redis now uid)
  then show ?case by (cases db) (auto simp: prune_graph_def Let_def detach_ok)
next
  case (clear db driver redis uid)
  then show ?case by (cases db) (auto simp: clear_graph_def detach_ok)
qed simp_all

lemma graph_reach_ok:
  assumes "graph_step\<^sup>*\<^sup>* (\<lparr>gr_entities = [], gr_rels = []\<rparr>, c) db"
  shows "graph_wf (fst db) \<and> few_entities (fst db)"
  using assms
proof (induction rule: rtranclp_induct)
  case base
  show ?case by (simp add: graph_wf_def few_entities_def nodes_def edges_def entities_of_def)
qed (auto dest: graph_step_ok)

text \<open>A first exchange, with its reply as JSON.\<close>

definition sample_graph_json :: "string \<Rightarrow> pyval option" where
  "sample_graph_json _ = Some (PDict [(''entities'', PList [PDict [(''name'', PStr ''Ann''), (''type'', PStr ''PERSON'')], PDict [(''name'', PStr ''tea'')]]),
     (''relations'', PList [PDict [(''from'', PStr ''Ann''), (''to'', PStr ''tea''), (''type'', PStr ''likes'')]])])"

definition sample_graph_run :: "graph \<times> graph_cache" where
  "sample_graph_run = extract_and_store True (\<lambda>_ _. Inr (True, Some ''x'')) sample_graph_json True False (\<lambda>xs. xs) 5 1 ''I like tea'' ''Good'' (\<lparr>gr_entities = [], gr_rels = []\<rparr>, [])"

lemma sample_graph_run_value:
  "sample_graph_run = (\<lparr>gr_entities = [\<lparr>gn_user = 1, gn_name = ''Ann'', gn_type = Some ''PERSON'', gn_updated = 5\<rparr>,
       \<lparr>gn_user = 1, gn_name = ''tea'', gn_type = None, gn_updated = 5\<rparr>],
     gr_rels = [\<lparr>gl_user = 1, gl_src = ''Ann'', gl_type = ''LIKES'', gl_dst = ''tea'', gl_updated = Some 5\<rparr>]\<rparr>, [])"
proof -
  have ex: "extracted (the (sample_graph_json [])) = Inr (Some ([(''Ann'', ''PERSON''), (''tea'', ''OTHER'')], [(''Ann'', ''tea'', ''LIKES'')]))"
    by code_simp
  then show ?thesis
    by (simp add: sample_graph_run_def extract_and_store_def sample_graph_json_def store_entities_def entities_of_def MAX_USER_ENTITIES_def
      merge_entity_def has_entity_def merge_rel_def add_edge_def is_edge_def graph_cache_del_def)
qed

lemma sample_graph_reached: "graph_step\<^sup>*\<^sup>* (\<lparr>gr_entities = [], gr_rels = []\<rparr>, []) sample_graph_run"
  unfolding sample_graph_run_def by (intro r_into_rtranclp graph_step.exchange)

text \<open>
  C13. The graph of a user stays small and sound: along every sequence of exchanges, merges, questions,
  deletions, prunings and resets of any users, no user has more than 500 entities, their names are unique, not
  empty and at most 200 characters long, and every relation joins two entities of its user.
\<close>

theorem graph_stays_sound:
  assumes "graph_step\<^sup>*\<^sup>* (\<lparr>gr_entities = [], gr_rels = []\<rparr>, c) (g, c')"
  shows "length (entities_of uid g) \<le> 500 \<and> distinct (map gn_name (entities_of uid g))
    \<and> (\<forall>e \<in> set (entities_of uid g). gn_name e \<noteq> [] \<and> length (gn_name e) \<le> 200)
    \<and> (\<forall>r \<in> set (gr_rels g). has_entity (gl_user r) (gl_src r) g \<and> has_entity (gl_user r) (gl_dst r) g)"
proof -
  have ok: "graph_wf g" "few_entities g" using graph_reach_ok [OF assms] by simp_all
  have "\<forall>r \<in> set (gr_rels g). has_entity (gl_user r) (gl_src r) g \<and> has_entity (gl_user r) (gl_dst r) g"
    using ok(1) by (auto simp: graph_wf_def has_entity_iff edges_def edge_def)
  moreover have "\<forall>e \<in> set (entities_of uid g). gn_name e \<noteq> [] \<and> length (gn_name e) \<le> 200"
    using ok(1) by (auto simp: graph_wf_def list_all_iff entity_ok_def entities_of_def MAX_ENTITY_NAME_LEN_def)
  ultimately show ?thesis using ok(2) user_names_distinct [OF ok(1)] by (simp add: few_entities_def MAX_USER_ENTITIES_def)
qed

theorem graph_stays_sound_witness:
  "length (entities_of 1 (fst sample_graph_run)) \<le> 500 \<and> length (gr_rels (fst sample_graph_run)) = 1"
  using graph_stays_sound [of "[]" "fst sample_graph_run" "snd sample_graph_run" 1] sample_graph_reached
  by (simp add: sample_graph_run_value)

text \<open>
  C40. Pruning has no effect, ever: whatever operations have led to the graph, pruning deletes nothing and
  reports 0. Names over 200 characters are never stored, and neither is the type OTHER it looks for: entities of
  that type are stored without a type, which the comparison in Cypher does not match.
\<close>

theorem prune_removes_nothing:
  assumes "graph_step\<^sup>*\<^sup>* (\<lparr>gr_entities = [], gr_rels = []\<rparr>, c) (g, c')"
  shows "prune_graph True redis now uid (g, c') = (Inr 0, g, graph_cache_del redis uid c')"
proof -
  have "list_all entity_ok (gr_entities g)" using graph_reach_ok [OF assms] by (simp add: graph_wf_def)
  then have none: "filter (\<lambda>e. gn_user e = uid \<and> (length (gn_name e) > MAX_ENTITY_NAME_LEN
      \<or> gn_type e = Some ''OTHER'' \<and> gn_updated e < now - 7 * 86400)) (gr_entities g) = []"
    by (auto simp: list_all_iff entity_ok_def filter_empty_conv)
  moreover have "detach_delete P g = g" if "filter P (gr_entities g) = []" for P
    using that by (cases g) (auto simp: detach_delete_def filter_empty_conv)
  ultimately show ?thesis by (simp add: prune_graph_def Let_def)
qed

theorem prune_removes_nothing_witness:
  "prune_graph True True 10000000 1 sample_graph_run = (Inr 0, fst sample_graph_run, [])
   \<and> (\<exists>e \<in> set (gr_entities (fst sample_graph_run)). gn_type e = None \<and> gn_updated e < 10000000 - 7 * 86400)"
  using prune_removes_nothing [of "[]" "fst sample_graph_run" "snd sample_graph_run" True 10000000 1] sample_graph_reached
  by (simp add: sample_graph_run_value graph_cache_del_def)

text \<open>
  C14. Merging is a quotient of the graph: there is a replacement of names, first by ones that are equal after
  normalisation, then by similar ones, under which entities and relations of the user afterwards are exactly the
  images of those before; names that are left stand for themselves, no two of them are equal after
  normalisation, the value returned counts the entities that went, and other users keep theirs.
\<close>

theorem merging_is_quotient:
  assumes "graph_wf g" and "merge_duplicate_entities True redis ord1 ord2 uid ts (g, c) = (k, g', c')"
  shows "(\<exists>\<rho>1 \<rho>2. quotient_of uid (\<rho>2 \<circ> \<rho>1) g g' \<and> (\<forall>n. norm_name (\<rho>1 n) = norm_name n) \<and> (\<forall>n. \<rho>2 n = n \<or> similar (\<rho>2 n) n))
    \<and> length (entities_of uid g') + k = length (entities_of uid g) \<and> graph_wf g' \<and> inj_on norm_name (entity_names uid g')"
proof -
  have "merge_passes ord1 ord2 uid ts g = (k, g')"
    using assms(2) by (auto simp: merge_duplicate_entities_def Let_def split: prod.splits)
  from merge_passes_joined [OF assms(1) this] show ?thesis by blast
qed

definition tea_graph :: graph where
  "tea_graph = \<lparr>gr_entities = [\<lparr>gn_user = 1, gn_name = ''Tea'', gn_type = Some ''CONCEPT'', gn_updated = 1\<rparr>,
     \<lparr>gn_user = 1, gn_name = ''teas'', gn_type = None, gn_updated = 2\<rparr>],
     gr_rels = [\<lparr>gl_user = 1, gl_src = ''Tea'', gl_type = ''RELATED_TO'', gl_dst = ''teas'', gl_updated = Some 2\<rparr>]\<rparr>"

lemma tea_graph_wf: "graph_wf tea_graph"
  by (simp add: tea_graph_def graph_wf_def node_def edge_def nodes_def edges_def entity_ok_def MAX_ENTITY_NAME_LEN_def)

lemma tea_graph_merged:
  "merge_duplicate_entities True True (\<lambda>xs. xs) (\<lambda>xs. xs) 1 9 (tea_graph, []) =
     (1, \<lparr>gr_entities = [\<lparr>gn_user = 1, gn_name = ''teas'', gn_type = None, gn_updated = 9\<rparr>],
          gr_rels = [\<lparr>gl_user = 1, gl_src = ''teas'', gl_type = ''RELATED_TO'', gl_dst = ''teas'', gl_updated = None\<rparr>]\<rparr>, [])"
  unfolding tea_graph_def by code_simp

theorem merging_is_quotient_witness:
  "inj_on norm_name (entity_names 1 (fst (snd (merge_duplicate_entities True True (\<lambda>xs. xs) (\<lambda>xs. xs) 1 9 (tea_graph, [])))))
   \<and> length (entities_of 1 (fst (snd (merge_duplicate_entities True True (\<lambda>xs. xs) (\<lambda>xs. xs) 1 9 (tea_graph, []))))) + 1 = length (entities_of 1 tea_graph)"
  using merging_is_quotient [OF tea_graph_wf tea_graph_merged] unfolding tea_graph_merged by simp

lemma names_merge_entities: "nodes (fold (merge_entity uid ts) batch g) = nodes g \<union> (\<lambda>nt. (uid, fst nt)) ` set batch"
proof (induction batch arbitrary: g)
  case (Cons nt batch)
  then show ?case by (cases nt) (simp add: nodes_merge_entity)
qed simp

lemma count_known_entities:
  "\<forall>nt \<in> set batch. has_entity uid (fst nt) g \<Longrightarrow> length (entities_of u (fold (merge_entity uid ts) batch g)) = length (entities_of u g)"
proof (induction batch arbitrary: g)
  case (Cons nt batch)
  have known: "has_entity uid (fst nt) g" using Cons.prems by simp
  have "\<forall>nt' \<in> set batch. has_entity uid (fst nt') (merge_entity uid ts nt g)"
    using Cons.prems by (cases nt) (auto simp: has_entity_iff nodes_merge_entity)
  from Cons.IH [OF this] known show ?case by (simp add: count_merge_entity)
qed simp

text \<open>
  Talking of what is known forgets what is known: storing a batch of names a full graph already has, none of them
  among the oldest, deletes as many old entities as the batch has names and adds none.
\<close>

theorem known_names_evict_others:
  assumes "graph_wf g" and "length (entities_of uid g) = 500" and "batch \<noteq> []" and "length batch \<le> 500"
    and "\<forall>nt \<in> set batch. has_entity uid (fst nt) (evict_oldest ord uid (length batch) g)"
  shows "length (entities_of uid (store_entities ord uid ts batch g)) = 500 - length batch
    \<and> entity_names uid (store_entities ord uid ts batch g) \<subseteq> entity_names uid g"
proof -
  have st: "store_entities ord uid ts batch g = fold (merge_entity uid ts) batch (evict_oldest ord uid (length batch) g)"
    using assms(2,3) by (simp add: store_entities_def MAX_USER_ENTITIES_def)
  have "nodes (evict_oldest ord uid (length batch) g) \<subseteq> nodes g"
    unfolding evict_oldest_def Let_def nodes_detach by (auto simp: nodes_def)
  then have "entity_names uid (store_entities ord uid ts batch g) \<subseteq> entity_names uid g"
    unfolding st entity_names_def names_merge_entities using assms(5) by (auto simp: has_entity_iff)
  moreover have "length (entities_of uid (store_entities ord uid ts batch g)) = 500 - length batch"
    unfolding st using count_known_entities [OF assms(5)] count_evict [OF assms(1), of "length batch" uid uid ord] assms(2,4) by simp
  ultimately show ?thesis by blast
qed

definition numbered_entity :: "nat \<Rightarrow> graph_entity" where
  "numbered_entity i = \<lparr>gn_user = 1, gn_name = [char_of (i div 256), char_of i], gn_type = None, gn_updated = of_nat i\<rparr>"

definition full_graph :: graph where
  "full_graph = \<lparr>gr_entities = map numbered_entity [0..<500], gr_rels = []\<rparr>"

lemma numbered_names: "i < 500 \<Longrightarrow> j < 500 \<Longrightarrow> gn_name (numbered_entity i) = gn_name (numbered_entity j) \<longleftrightarrow> i = j"
proof -
  assume less: "i < 500" "j < 500"
  have "i = j" if "(char_of (i div 256) :: char) = char_of (j div 256)" "(char_of i :: char) = char_of j"
  proof -
    have "(of_char (char_of (i div 256) :: char) :: nat) = of_char (char_of (j div 256) :: char)" "(of_char (char_of i :: char) :: nat) = of_char (char_of j :: char)"
      using that by simp_all
    then have "(i div 256) mod 256 = (j div 256) mod 256" "i mod 256 = j mod 256" by simp_all
    moreover have "i div 256 < 256" "j div 256 < 256" using less by simp_all
    ultimately show ?thesis by (metis div_mult_mod_eq mod_less)
  qed
  then show ?thesis by (auto simp: numbered_entity_def)
qed

lemma full_graph_entities: "entities_of 1 full_graph = map numbered_entity [0..<500]"
  by (simp add: entities_of_def full_graph_def numbered_entity_def filter_map comp_def)

lemma full_graph_wf: "graph_wf full_graph"
proof -
  have "inj_on (node \<circ> numbered_entity) (set [0..<500])"
    by (intro inj_onI) (simp add: node_def numbered_names)
  then have "distinct (map (node \<circ> numbered_entity) [0..<500])" by (simp add: distinct_map)
  then show ?thesis
    by (simp add: graph_wf_def full_graph_def edges_def list_all_iff entity_ok_def numbered_entity_def MAX_ENTITY_NAME_LEN_def comp_def)
qed

lemma full_graph_evicted: "gr_entities (evict_oldest (\<lambda>xs. xs) 1 1 full_graph) = filter (\<lambda>e. gn_name e \<noteq> gn_name (numbered_entity 0)) (map numbered_entity [0..<500])"
proof -
  have "sorted (map gn_updated (map numbered_entity [0..<500]))"
    by (simp add: sorted_iff_nth_mono numbered_entity_def)
  then have "py_sort_key gn_updated (map numbered_entity [0..<500]) = map numbered_entity [0..<500]"
    unfolding py_sort_key_def by (intro sort_key_id_if_sorted)
  moreover have "take 1 (map numbered_entity [0..<500]) = [numbered_entity 0]" by (simp add: take_map upt_conv_Cons)
  ultimately have "map gn_name (take 1 (py_sort_key gn_updated (set_order (\<lambda>xs. xs) (entities_of 1 full_graph)))) = [gn_name (numbered_entity 0)]"
    by (simp add: full_graph_entities set_order_def)
  then show ?thesis
    by (simp add: evict_oldest_def detach_delete_def full_graph_def Let_def) (auto simp: numbered_entity_def intro!: filter_cong)
qed

theorem known_names_evict_others_witness:
  "length (entities_of 1 (store_entities (\<lambda>xs. xs) 1 1000 [(gn_name (numbered_entity 499), ''OTHER'')] full_graph)) = 499"
proof -
  let ?batch = "[(gn_name (numbered_entity 499), ''OTHER'')]"
  have "numbered_entity 499 \<in> set (map numbered_entity [0..<500])" by simp
  moreover have "gn_name (numbered_entity 499) \<noteq> gn_name (numbered_entity 0)" by (simp add: numbered_names)
  ultimately have "numbered_entity 499 \<in> set (gr_entities (evict_oldest (\<lambda>xs. xs) 1 1 full_graph))"
    unfolding full_graph_evicted set_filter by blast
  then have "has_entity 1 (gn_name (numbered_entity 499)) (evict_oldest (\<lambda>xs. xs) 1 1 full_graph)"
    unfolding has_entity_def list_ex_iff by (intro bexI [of _ "numbered_entity 499"]) (simp_all add: numbered_entity_def)
  with known_names_evict_others [OF full_graph_wf, of 1 ?batch "\<lambda>xs. xs" 1000] show ?thesis
    by (simp add: full_graph_entities)
qed

text \<open>
  Merging can lose a type: when the last entity of a group, in the order read, has no type, the one that is
  kept has none afterwards, although another of the group had one.
\<close>

theorem merge_loses_type:
  assumes "entities_of uid g = [a, b]" and "norm_name (gn_name a) = norm_name (gn_name b)" and "gn_name a \<noteq> gn_name b" and "gn_type b = None"
  shows "\<exists>e. entities_of uid (snd (merge_passes (\<lambda>xs. xs) ord2 uid ts g)) = [e] \<and> gn_type e = None \<and> gn_name e \<in> {gn_name a, gn_name b}"
proof -
  let ?rows = "[(gn_name a, gn_type a), (gn_name b, gn_type b)]"
  define keep where "keep = keep_name ?rows"
  define dup where "dup = (if keep = gn_name a then gn_name b else gn_name a)"
  let ?g1 = "absorb uid keep dup (set_entity_type uid keep None ts g)"
  have keep: "keep \<in> {gn_name a, gn_name b}" using keep_name_member [of ?rows] by (auto simp: keep_def)
  have rows: "name_rows (\<lambda>xs. xs) uid g = ?rows" by (simp add: name_rows_def assms(1) set_order_def)
  have groups: "group_by (\<lambda>r. norm_name (fst r)) ?rows = [(norm_name (gn_name a), ?rows)]"
    using assms(2) by (simp add: group_by_def dset_def dget_def)
  have "filter (\<lambda>n. n \<noteq> keep) (map fst ?rows) = [dup]" using keep assms(3) by (auto simp: dup_def)
  moreover have "keep_type ?rows = None" using assms(4) by (simp add: keep_type_def)
  ultimately have one: "fold (merge_group uid ts) (group_by (\<lambda>r. norm_name (fst r)) ?rows) (0, g) = (1, ?g1)"
    unfolding groups by (simp add: merge_group_def keep_def Let_def)
  have "entities_of uid ?g1 = filter (\<lambda>e. gn_name e \<noteq> dup) (entities_of uid (set_entity_type uid keep None ts g))"
    unfolding absorb_def entities_detach by (auto simp: entities_of_def intro!: filter_cong)
  moreover have "entities_of uid (set_entity_type uid keep None ts g)
      = map (\<lambda>e. if gn_name e = keep then e\<lparr>gn_type := None, gn_updated := ts\<rparr> else e) (entities_of uid g)"
  proof -
    have "filter (\<lambda>e. gn_user e = uid) (map (\<lambda>e. if gn_user e = uid \<and> gn_name e = keep then e\<lparr>gn_type := None, gn_updated := ts\<rparr> else e) es)
        = map (\<lambda>e. if gn_name e = keep then e\<lparr>gn_type := None, gn_updated := ts\<rparr> else e) (filter (\<lambda>e. gn_user e = uid) es)" for es
      by (induction es) auto
    then show ?thesis by (simp add: entities_of_def set_entity_type_def)
  qed
  ultimately obtain e where e: "entities_of uid ?g1 = [e]" "gn_type e = None" "gn_name e = keep"
    using keep assms(1,3) by (auto simp: dup_def)
  then have "typed_rows (name_rows ord2 uid ?g1) = []"
    by (simp add: name_rows_def set_order_def typed_rows_def List.map_filter_def)
  then have "merge_passes (\<lambda>xs. xs) ord2 uid ts g = (1, ?g1)"
    unfolding merge_passes_def rows Let_def one by (simp add: group_by_def)
  with e keep show ?thesis by simp
qed

theorem merge_loses_type_witness:
  "\<exists>e. entities_of 1 (snd (merge_passes (\<lambda>xs. xs) (\<lambda>xs. xs) 1 9 tea_graph)) = [e] \<and> gn_type e = None"
proof -
  let ?a = "\<lparr>gn_user = 1, gn_name = ''Tea'', gn_type = Some ''CONCEPT'', gn_updated = 1\<rparr>"
  let ?b = "\<lparr>gn_user = 1, gn_name = ''teas'', gn_type = None, gn_updated = 2\<rparr>"
  have both: "entities_of 1 tea_graph = [?a, ?b]" by (simp add: tea_graph_def entities_of_def)
  have "norm_name ''Tea'' = norm_name ''teas''" by code_simp
  then have norm: "norm_name (gn_name ?a) = norm_name (gn_name ?b)" by simp
  show ?thesis using merge_loses_type [OF both norm, of "\<lambda>xs. xs" 9] by (auto simp del: ex_simps)
qed

end
