(* ===== verification/Spec2Isabelle.thy ===== *)
theory Spec2Isabelle
  imports Model_Catalog Intent_Router Request_Extras Nim_Client Rate_Limiter Response_Cache Retrieval
    Content_Filter Context_Budget Connector_Intent Tool_Schemas Tool_Registry Turn_Loop Service_Stream
    Accounts Locks Fetch_Url File_Service Chat_Context Chat_Turn Model_Comparison
    Connectors Background_Jobs Scheduler Graph_Memory
begin

text \<open>
  Eidetic is a chat service: a Python backend (\<^verbatim>\<open>backend/\<close>, FastAPI, PostgreSQL, Redis, Neo4j) that
  answers the messages of its users with language models served by NVIDIA NIM or by a local server,
  remembers facts about the users, retrieves earlier messages and files, and lets the models call
  tools. This library models the backend: the path of a request, what it stores, and the work done
  beside it.

  \<^bold>\<open>The program and its theories\<close>

  A request is rate limited (\<open>Rate_Limiter\<close>: \<^verbatim>\<open>rate_limiter/\<close>) and charged to an account (\<open>Accounts\<close>:
  \<^verbatim>\<open>auth/\<close>, \<^verbatim>\<open>services/demo.py\<close>, the cost cap of \<^verbatim>\<open>api/chat/helpers.py\<close>, \<^verbatim>\<open>api/chat/usage_ledger.py\<close>);
  a model is chosen from the catalog (\<open>Model_Catalog\<close>: \<^verbatim>\<open>llm/catalog/\<close>, \<^verbatim>\<open>api/chat/model_resolve.py\<close>,
  the changes of \<^verbatim>\<open>api/admin/models.py\<close>)
  or by the classifiers (\<open>Intent_Router\<close>: \<^verbatim>\<open>llm/router.py\<close>). \<open>Service_Stream\<close> is the turn itself
  (\<^verbatim>\<open>llm/service/stream.py\<close>, \<open>generate_stream\<close>): it looks into the answer cache (\<open>Response_Cache\<close>:
  \<^verbatim>\<open>cache/\<close>), finds which connectors the message is about (\<open>Connector_Intent\<close>:
  \<^verbatim>\<open>llm/tools/connector_intent.py\<close>, \<^verbatim>\<open>llm/embeddings.py\<close>), offers the tools whose gates are open
  (\<open>Tool_Schemas\<close>, \<open>Tool_Registry\<close>: \<^verbatim>\<open>llm/tools/\<close>), assembles the messages (\<open>Context_Budget\<close>:
  \<^verbatim>\<open>llm/service/context.py\<close>; \<open>Content_Filter\<close>: \<^verbatim>\<open>llm/service/content_filter.py\<close>; retrieved passages
  come from \<open>Retrieval\<close>: \<^verbatim>\<open>llm/retriever/\<close>) and runs the loop of model calls and tool rounds
  (\<open>Turn_Loop\<close>: the same file). A model call (\<open>Nim_Client\<close>: \<^verbatim>\<open>llm/nim.py\<close>) takes its endpoint from
  \<open>Endpoint\<close> (\<^verbatim>\<open>llm/endpoint.py\<close>), its parameters from \<open>Request_Extras\<close> (\<^verbatim>\<open>llm/model_extras.py\<close>)
  and reports to \<open>Circuit_Breaker\<close> (\<^verbatim>\<open>llm/circuit_breaker.py\<close>). \<open>Locks\<close> (\<^verbatim>\<open>core/locks.py\<close>) serialises
  the writers of a user's memory. \<open>Fetch_Url\<close> is the page tool (\<^verbatim>\<open>llm/tools/fetch_url.py\<close>);
  \<open>File_Chunks\<close>, \<open>File_Ingest\<close> and \<open>File_Service\<close> are the files of a user from upload to chunks
  (\<^verbatim>\<open>services/processor.py\<close>, \<^verbatim>\<open>services/file_service.py\<close>, \<^verbatim>\<open>llm/tools/file_ops.py\<close>, \<^verbatim>\<open>api/files/\<close>,
  \<^verbatim>\<open>storage/\<close>).

  The endpoint around a turn is \<open>Chat_Turn\<close> (\<^verbatim>\<open>api/chat/stream.py\<close>): it resolves and rotates the
  conversation (\<open>Chat_Store\<close>: \<^verbatim>\<open>api/chat/helpers.py\<close>, \<^verbatim>\<open>api/conversations/\<close>,
  \<^verbatim>\<open>llm/summarizer/history.py\<close>), collects the context of the message (\<open>Chat_Context\<close>:
  \<^verbatim>\<open>_build_stream_context\<close> of the same helpers, \<^verbatim>\<open>llm/closing_intent.py\<close>), forwards the events of
  \<open>Service_Stream\<close> or of a comparison (\<open>Model_Comparison\<close>: \<^verbatim>\<open>llm/service/compare.py\<close>), stores question
  and reply and starts the tasks that follow. Those are the memory sheet (\<open>Memory_Sheet\<close>:
  \<^verbatim>\<open>llm/summarizer/\<close>, \<^verbatim>\<open>api/memory.py\<close>, \<^verbatim>\<open>api/admin/memory.py\<close>), the graph of entities
  (\<open>Graph_Memory\<close>: \<^verbatim>\<open>llm/graph_memory.py\<close>, \<^verbatim>\<open>api/graph.py\<close>) and the jobs of \<open>Background_Jobs\<close>
  (\<^verbatim>\<open>services/behavior.py\<close>, \<^verbatim>\<open>llm/agency.py\<close>, \<^verbatim>\<open>services/notification.py\<close>, \<^verbatim>\<open>services/digest.py\<close>,
  \<^verbatim>\<open>services/re_embed.py\<close>, \<^verbatim>\<open>api/webhooks.py\<close>, \<^verbatim>\<open>services/arq_worker.py\<close>). \<open>Connectors\<close> holds the
  accounts at other services with their OAuth flow (\<^verbatim>\<open>api/integrations.py\<close>,
  \<^verbatim>\<open>llm/tools/_google_creds.py\<close>), and \<open>Scheduler\<close> the prompts that run by the clock and the
  maintenance jobs (\<^verbatim>\<open>api/scheduled_prompts.py\<close>, \<^verbatim>\<open>services/scheduler_worker.py\<close>).

  \<open>Settings\<close> is \<^verbatim>\<open>config.py\<close>; \<open>Py_Prelude\<close> holds what the theories
  share of Python (exceptions as the left side of a sum, dictionaries in insertion order, string
  methods, the JSON values) and the generic lemmas and locales.

  \<^bold>\<open>How the code is modelled\<close>

  Every function of the code is a definition of the same name, up to leading underscores; module
  globals and rows are records; a function that writes a global takes and returns it. An exception is
  a value \<open>Inl e\<close>. Time, randomness, HTTP replies, the SQL distance operators, hashing and JSON
  parsing are arguments: functions of the number of the attempt or call, so that every theorem holds
  for every behaviour of them. Redis is a record of the commands the code uses; where a theorem needs
  what Redis guarantees, the documented laws are a named predicate (\<open>zset_laws\<close>, \<open>lock_laws\<close>) and the
  witness instantiates it. The SQL tables are lists of rows, the graph database a list of nodes and one
  of relations with its commands as functions. Where the database leaves the order of rows open, a
  permutation is an argument. Interleaved work (the streams of a comparison, the sessions of a lock, the
  sessions on a memory sheet, which read at one time and write at another, the operations on a graph) is a step relation or a fold over a list of operations. Numbers that Python keeps as floats are reals, so rounding errors are
  outside the model. Strings are lists of 8-bit characters.

  \<^bold>\<open>Loops\<close>

  The tool loop has the program's own bound of 60 iterations per model and the retry loops that of
  the settings, so they are structural recursions and need no fuel. The scan for numbered blocks and
  the wait for the write lock are loops without a bound in the code: they are partial functions into
  \<open>option\<close>, and that they return is proved (exactly when, for the first; within \<open>20 w + 1\<close> attempts,
  for the second, and attempts after these do not count).

  \<^bold>\<open>What the lemmas show\<close>

  Turns: a turn ends with exactly one final event, within a bounded number of model calls and of
  identical tool calls; exactly the tools with an open gate are offered, connector tools only for a latched connector; an answer in the
  cache crosses users; malformed tool arguments raise. Model calls: credentials stay with their
  endpoint, fail-over, exactly when a circuit is open, reassembly of streamed tool calls, replay of broken streams.
  Catalog: availability under scans and administrators, publication between processes. Limits: the
  sliding window, the cost cap and the demo pool with its reaping. Memory and context: retrieval
  stays with the user, what the token budget keeps and drops. Locks: exclusion and termination.
  Files: nobody touches the files of others, versions and restoration, patches, no word is lost in
  chunking, the books of a processing run. Page tool: every connection was checked, which addresses
  the guard refuses.

  The endpoint: a turn is stored whole or not at all, what a client is told of a failed save, what a
  refused request leaves behind; conversations stay with their owner through a rotation, the order of
  the history, which files a turn may use, a comparison delivers every piece. Memory: the text of a sheet stays
  recoverable as long as the sessions under way have read it, and snapshots are in order as long as no session is overtaken; what
  concurrent writers lose otherwise, how a reset sheet fares. Graph:
  it stays bounded and well formed, merging is a quotient, pruning never does anything. Connectors: they stay
  with their user, granted tokens are the ones loaded. Jobs: the scheduler's jobs follow the table,
  how a run is settled, insights do not pile up, what a full profile still learns. Several of these theorems
  state behaviour that is hardly intended; they say what the code does.

  \<^bold>\<open>Not modelled\<close>

  The frontend, the edge worker, containers and migrations are other languages or configuration.
  Metrics, logging and the audit trail do not influence replies. Google, Notion, GitHub, the search
  service, mail, push and speech services are remote: the functions that only call them are parameters.
  The endpoints that only read or write one row of a table (goals, templates, usage, export, audit and
  user reports, profile and notification settings), the stateless chat endpoints of
  \<^verbatim>\<open>api/chat/router.py\<close> and the wiring of \<^verbatim>\<open>main.py\<close> have no logic of their own beyond what is modelled
  here. The moments at which triggers fire, time limits of requests, and what two database transactions
  see of each other beyond the interleavings above are outside the model. A request that fails rolls its session back; that SQLAlchemy
  refuses a commit after a failed flush is not modelled: the success of each commit is an argument.
\<close>

end
